(* ===== verification/GlobSubset.thy ===== *)
theory GlobSubset
  imports Prelude
begin

text \<open>
  \<open>backend/src/lib/casl/glob-subset.ts\<close>: containment and disjointness of two globs, as the
  permission boundary uses them. A glob is cut at \<open>/\<close> into segments that are literals, \<open>*\<close> or
  \<open>**\<close>; a glob with any other metacharacter is not analysed.

  The functions are translated index by index. Against them stands a language semantics of
  segment globs (\<open>seg_lang\<close>, \<open>glob_lang\<close>): which paths a glob matches, as the glob library
  documents it. The theorems are that containment and disjointness are sound for that language
  on paths without empty or hidden segments, and what goes wrong on the root path.
\<close>

section \<open>Segments\<close>

datatype segment = Literal string | Star | Globstar

definition SEGMENT_METACHARACTER :: "string \<Rightarrow> bool" where
  "SEGMENT_METACHARACTER part = list_ex (\<lambda>c. c \<in> set ''*?[]{}!()'') part"

definition parse_segment :: "string \<Rightarrow> segment option" where
  "parse_segment part =
     (if part = [] then Some (Literal [])
      else if part = ''*'' then Some Star
      else if part = ''**'' then Some Globstar
      else if SEGMENT_METACHARACTER part then None
      else Some (Literal part))"

fun parse_parts :: "string list \<Rightarrow> segment list \<Rightarrow> segment list option" where
  "parse_parts [] segs = Some segs"
| "parse_parts (part # parts) segs =
     (case parse_segment part of
        None \<Rightarrow> None
      | Some seg \<Rightarrow> parse_parts parts (segs @ [seg]))"

definition parseSegments :: "string \<Rightarrow> segment list option" where
  "parseSegments glob = parse_parts (split_char CHR ''/'' glob) []"

text \<open>\<open>segmentMatch(parent, subset, pi, si)\<close>: does the rest of the parent cover the rest of the subset?\<close>

function segmentMatch :: "segment list \<Rightarrow> segment list \<Rightarrow> nat \<Rightarrow> nat \<Rightarrow> bool" where
  "segmentMatch parent subs pi si =
     (if length parent \<le> pi \<and> length subs \<le> si then True
      else if pi < length parent \<and> parent ! pi = Globstar then
        (if segmentMatch parent subs (pi + 1) si then True
         else if si < length subs then segmentMatch parent subs pi (si + 1)
         else False)
      else if length parent \<le> pi then False
      else if length subs \<le> si then list_all (\<lambda>i. parent ! i = Globstar) [pi..<length parent]
      else (case parent ! pi of
              Star \<Rightarrow> if subs ! si = Globstar then False
                      else segmentMatch parent subs (pi + 1) (si + 1)
            | Literal v \<Rightarrow>
                (case subs ! si of
                   Literal w \<Rightarrow> if w \<noteq> v then False
                                else segmentMatch parent subs (pi + 1) (si + 1)
                 | _ \<Rightarrow> False)
            | Globstar \<Rightarrow> False))"
  by pat_completeness auto
termination
  by (relation "measure (\<lambda>(parent, subs, pi, si). (length parent - pi) + (length subs - si))") auto

declare segmentMatch.simps [simp del]

definition isGlobSubsetOfGlob :: "string \<Rightarrow> string \<Rightarrow> bool" where
  "isGlobSubsetOfGlob parentGlob subsetGlob =
     (if parentGlob = subsetGlob then True
      else (case (parseSegments parentGlob, parseSegments subsetGlob) of
              (Some parentSegs, Some subsetSegs) \<Rightarrow> segmentMatch parentSegs subsetSegs 0 0
            | _ \<Rightarrow> False))"

text \<open>The literal prefix of a glob, and disjointness by literal prefixes.\<close>

definition prefix_stop :: "char \<Rightarrow> bool" where
  "prefix_stop c \<longleftrightarrow> c \<in> set ''*?[{()@+!''"

fun literal_prefix_from :: "string \<Rightarrow> nat \<Rightarrow> string \<Rightarrow> string" where
  "literal_prefix_from glob i [] = glob"
| "literal_prefix_from glob i (c # cs) =
     (if prefix_stop c then take i glob else literal_prefix_from glob (i + 1) cs)"

definition literalPrefix :: "string \<Rightarrow> string" where
  "literalPrefix glob = literal_prefix_from glob 0 glob"

definition haveDisjointLiteralPrefixes :: "string \<Rightarrow> string \<Rightarrow> bool" where
  "haveDisjointLiteralPrefixes a b =
     (let pa = literalPrefix a; pb = literalPrefix b
      in \<not> starts_with pa pb \<and> \<not> starts_with pb pa)"

section \<open>The language of a segment glob\<close>

text \<open>
  A wildcard does not match a hidden segment (one that starts with a dot), and \<open>*\<close> needs at
  least one character; \<open>**\<close> matches any number of segments, none included.
\<close>

definition gstar_ok :: "string \<Rightarrow> bool" where
  "gstar_ok x \<longleftrightarrow> \<not> starts_with x ''.''"

definition star_ok :: "string \<Rightarrow> bool" where
  "star_ok x \<longleftrightarrow> x \<noteq> [] \<and> gstar_ok x"

fun seg_lang :: "segment list \<Rightarrow> string list \<Rightarrow> bool" where
  "seg_lang [] xs = (xs = [])"
| "seg_lang (Literal v # ps) xs = (case xs of [] \<Rightarrow> False | x # xs' \<Rightarrow> x = v \<and> seg_lang ps xs')"
| "seg_lang (Star # ps) xs = (case xs of [] \<Rightarrow> False | x # xs' \<Rightarrow> star_ok x \<and> seg_lang ps xs')"
| "seg_lang (Globstar # ps) [] = seg_lang ps []"
| "seg_lang (Globstar # ps) (x # xs) =
     (seg_lang ps (x # xs) \<or> (gstar_ok x \<and> seg_lang (Globstar # ps) xs))"

text \<open>
  The library gives a meaning to more characters than \<open>SEGMENT_METACHARACTER\<close> lists: \<open>|\<close> separates
  alternatives, a double quote and a backslash quote what follows, a zero character is skipped, and
  a leading \<open>./\<close> is cut off. The language takes them literally, so it is compared with the library
  on globs without them only.
\<close>

definition plain_glob :: "string \<Rightarrow> bool" where
  "plain_glob g \<longleftrightarrow>
     list_all (\<lambda>c. c \<noteq> CHR ''|'' \<and> c \<noteq> CHR 0x22 \<and> c \<noteq> CHR 0x5C \<and> c \<noteq> CHR 0x00) g \<and> \<not> starts_with g ''./''"

definition glob_lang :: "string \<Rightarrow> string \<Rightarrow> bool" where
  "glob_lang g v =
     (case parseSegments g of None \<Rightarrow> False | Some ps \<Rightarrow> seg_lang ps (split_char CHR ''/'' v))"

text \<open>
  The values the theorems speak about: a single segment (an environment slug, a name), or a
  path below the root, with no empty and no hidden segment. The root path \<open>/\<close> is not one.
\<close>

definition plain_value :: "string \<Rightarrow> bool" where
  "plain_value v =
     (case split_char CHR ''/'' v of
        x # xs \<Rightarrow> (star_ok x \<or> (x = [] \<and> xs \<noteq> [])) \<and> list_all star_ok xs
      | [] \<Rightarrow> False)"

section \<open>Containment is sound\<close>

text \<open>The same matching on the two remaining segment lists, without the indices.\<close>

fun seg_match :: "segment list \<Rightarrow> segment list \<Rightarrow> bool" where
  "seg_match [] S = (S = [])"
| "seg_match (Globstar # P) [] = seg_match P []"
| "seg_match (Globstar # P) (s # S) = (seg_match P (s # S) \<or> seg_match (Globstar # P) S)"
| "seg_match (Star # P) S =
     (case S of [] \<Rightarrow> False | s # S' \<Rightarrow> s \<noteq> Globstar \<and> seg_match P S')"
| "seg_match (Literal v # P) S =
     (case S of [] \<Rightarrow> False | s # S' \<Rightarrow> s = Literal v \<and> seg_match P S')"

lemma seg_match_Nil2: "seg_match P [] \<longleftrightarrow> list_all (\<lambda>p. p = Globstar) P"
  by (induction P "[] :: segment list" rule: seg_match.induct) auto

lemma list_all_drop_nth:
  "list_all (\<lambda>i. f (xs ! i)) [k..<length xs] = list_all f (drop k xs)"
proof -
  have "drop k xs = map ((!) xs) [k..<length xs]"
    by (rule nth_equalityI) auto
  then show ?thesis by (simp add: list.pred_map comp_def)
qed

lemma segmentMatch_drop:
  "segmentMatch parent subs pi si = seg_match (drop pi parent) (drop si subs)"
proof (induction parent subs pi si rule: segmentMatch.induct)
  case (1 parent subs pi si)
  show ?case
  proof (cases "pi < length parent")
    case False
    then show ?thesis by (simp add: segmentMatch.simps [of parent subs pi si])
  next
    case pi: True
    then have P: "drop pi parent = parent ! pi # drop (Suc pi) parent"
      by (simp add: Cons_nth_drop_Suc)
    show ?thesis
    proof (cases "si < length subs")
      case si: True
      then have S: "drop si subs = subs ! si # drop (Suc si) subs"
        by (simp add: Cons_nth_drop_Suc)
      show ?thesis
        using 1 pi si
        by (subst segmentMatch.simps) (auto simp: P S split: segment.splits)
    next
      case False
      then have "segmentMatch parent subs pi si = list_all (\<lambda>p. p = Globstar) (drop pi parent)"
        using 1(1) pi list_all_drop_nth [of "\<lambda>p. p = Globstar" parent pi]
        by (subst segmentMatch.simps) (auto simp: P seg_match_Nil2)
      with False show ?thesis by (simp add: seg_match_Nil2)
    qed
  qed
qed

lemma seg_lang_Globstar_append:
  "list_all gstar_ok ys \<Longrightarrow> seg_lang (Globstar # P) zs \<Longrightarrow> seg_lang (Globstar # P) (ys @ zs)"
  by (induction ys) auto

lemma seg_lang_GlobstarE:
  assumes "seg_lang (Globstar # S) xs"
  obtains ys zs where "xs = ys @ zs" "list_all gstar_ok ys" "seg_lang S zs"
  using assms
proof (induction xs arbitrary: thesis)
  case Nil
  from Nil.prems(1) [of "[]" "[]"] Nil.prems(2) show ?case by simp
next
  case (Cons x xs)
  from Cons.prems(2) consider "seg_lang S (x # xs)" | "gstar_ok x" "seg_lang (Globstar # S) xs" by auto
  then show ?case
  proof cases
    case 1
    then show ?thesis using Cons.prems(1) [of "[]" "x # xs"] by simp
  next
    case 2
    from Cons.IH [OF _ 2(2)] obtain ys zs
      where "xs = ys @ zs" "list_all gstar_ok ys" "seg_lang S zs" by blast
    then show ?thesis using Cons.prems(1) [of "x # ys" zs] 2(1) by simp
  qed
qed

lemma seg_lang_Globstar_weaken: "seg_lang P xs \<Longrightarrow> seg_lang (Globstar # P) xs"
  by (cases xs) auto

text \<open>
  Soundness of the matching, on segments every wildcard accepts. A parent without \<open>*\<close> needs
  only what \<open>**\<close> accepts.
\<close>

lemma seg_match_sound:
  "seg_match P S \<Longrightarrow> seg_lang S xs \<Longrightarrow> list_all gstar_ok xs \<Longrightarrow>
   (Star \<in> set P \<Longrightarrow> list_all star_ok xs) \<Longrightarrow> seg_lang P xs"
proof (induction P S arbitrary: xs rule: seg_match.induct)
  case (3 P s S)
  show ?case
  proof (cases "seg_match P (s # S)")
    case True
    then show ?thesis
      using "3.IH"(1) "3.prems"(2-4) by (auto intro: seg_lang_Globstar_weaken)
  next
    case False
    with "3.prems"(1) have m: "seg_match (Globstar # P) S" by simp
    show ?thesis
    proof (cases s)
      case Globstar
      with "3.prems"(2) obtain ys zs
        where "xs = ys @ zs" "list_all gstar_ok ys" "seg_lang S zs" by (auto elim: seg_lang_GlobstarE)
      with "3.IH"(2) m "3.prems"(3,4) show ?thesis by (auto intro!: seg_lang_Globstar_append)
    next
      case Star
      with "3.prems"(2) obtain x xs' where "xs = x # xs'" "seg_lang S xs'"
        by (auto split: list.splits)
      with "3.IH"(2) m "3.prems"(3,4) show ?thesis by auto
    next
      case (Literal v)
      with "3.prems"(2) obtain x xs' where "xs = x # xs'" "seg_lang S xs'"
        by (auto split: list.splits)
      with "3.IH"(2) m "3.prems"(3,4) show ?thesis by auto
    qed
  qed
next
  case (4 P S)
  then show ?case by (cases S; cases "hd S") (auto split: list.splits)
next
  case (5 v P S)
  then show ?case by (auto split: list.splits)
qed auto

lemma star_ok_gstar_ok: "star_ok x \<Longrightarrow> gstar_ok x"
  by (simp add: star_ok_def)

lemma gstar_ok_Nil [simp]: "gstar_ok []"
  by (simp add: gstar_ok_def starts_with_def)

text \<open>
  The parent globs of the boundary are paths: either they begin with a slash, or they have no
  \<open>*\<close> segment (\<open>**\<close> alone).
\<close>

definition rooted :: "string \<Rightarrow> bool" where
  "rooted g =
     (case parseSegments g of
        None \<Rightarrow> True
      | Some ps \<Rightarrow> Star \<notin> set ps \<or> (ps \<noteq> [] \<and> hd ps = Literal []))"

lemma isGlobSubset_sound:
  assumes sub: "isGlobSubsetOfGlob p s" and m: "glob_lang s v" and path: "plain_value v"
    and root: "rooted p"
  shows "glob_lang p v"
proof (cases "p = s")
  case True
  with m show ?thesis by simp
next
  case False
  from sub False obtain ps ss where
    ps: "parseSegments p = Some ps" and ss: "parseSegments s = Some ss" and
    match: "seg_match ps ss"
    by (auto simp: isGlobSubsetOfGlob_def segmentMatch_drop split: option.splits)
  from path obtain x xs where v: "split_char CHR ''/'' v = x # xs" and
    x: "star_ok x \<or> x = []" and ok: "list_all star_ok xs"
    by (auto simp: plain_value_def split: list.splits)
  from x ok have gok: "list_all gstar_ok (x # xs)" by (auto simp: list_all_iff star_ok_gstar_ok)
  from m ss v have l: "seg_lang ss (x # xs)" by (simp add: glob_lang_def)
  have "seg_lang ps (x # xs)"
  proof (cases "Star \<in> set ps \<and> x = []")
    case False
    then have "Star \<in> set ps \<Longrightarrow> list_all star_ok (x # xs)" using x ok by auto
    with seg_match_sound [OF match l gok] show ?thesis by simp
  next
    case True
    with root ps obtain ps' where ps': "ps = Literal [] # ps'"
      by (cases ps) (auto simp: rooted_def)
    with match obtain ss' where "ss = Literal [] # ss'" "seg_match ps' ss'"
      by (auto split: list.splits)
    with l gok ok ps' seg_match_sound [of ps' ss' xs] show ?thesis by simp
  qed
  with ps v show ?thesis by (simp add: glob_lang_def)
qed

text \<open>
  On the root path containment is not sound. The code accepts \<open>/\<close> (the root folder) as
  contained in \<open>/*\<close> (the folders directly below the root), because an empty literal segment is
  taken as a segment that \<open>*\<close> covers; but \<open>/*\<close> does not match the root path.
\<close>

theorem glob_root_escapes_star:
  "isGlobSubsetOfGlob ''/*'' ''/'' \<and> glob_lang ''/'' ''/'' \<and> \<not> glob_lang ''/*'' ''/''"
  by (simp add: isGlobSubsetOfGlob_def segmentMatch_drop glob_lang_def parseSegments_def
      parse_segment_def star_ok_def)

section \<open>Literal prefixes and disjointness\<close>

lemma literal_prefix_from_eq:
  "glob = pre @ cs \<Longrightarrow>
   literal_prefix_from glob (length pre) cs = pre @ takeWhile (\<lambda>c. \<not> prefix_stop c) cs"
proof (induction cs arbitrary: pre)
  case Nil
  then show ?case by simp
next
  case (Cons c cs)
  then show ?case using Cons.IH [of "pre @ [c]"] by auto
qed

lemma literalPrefix_takeWhile: "literalPrefix g = takeWhile (\<lambda>c. \<not> prefix_stop c) g"
  using literal_prefix_from_eq [of g "[]" g] by (simp add: literalPrefix_def)

lemma parse_parts_those:
  "parse_parts parts segs = map_option (\<lambda>ps. segs @ ps) (those (map parse_segment parts))"
  by (induction parts arbitrary: segs)
    (auto split: option.splits simp: option.map_comp comp_def intro: option.map_cong)

lemma parseSegments_those:
  "parseSegments g = those (map parse_segment (split_char CHR ''/'' g))"
  by (simp add: parseSegments_def parse_parts_those option.map_ident)

lemma parse_segment_Literal: "parse_segment p = Some (Literal v) \<Longrightarrow> v = p"
  by (auto simp: parse_segment_def split: if_splits)

lemma parse_segment_wild:
  "parse_segment p = Some Star \<Longrightarrow> p = ''*''" "parse_segment p = Some Globstar \<Longrightarrow> p = ''**''"
  by (auto simp: parse_segment_def split: if_splits)

lemma prefix_stop_simps [simp]: "prefix_stop CHR ''*''" "\<not> prefix_stop CHR ''/''"
  by (simp_all add: prefix_stop_def)

lemma seg_lang_Nil: "seg_lang ps [] \<Longrightarrow> list_all (\<lambda>p. p = Globstar) ps"
  by (induction ps "[] :: string list" rule: seg_lang.induct) auto

text \<open>
  What a segment glob matches begins with its literal prefix, or is that prefix without its
  last slash (\<open>/apps/**\<close> matches \<open>/apps\<close>).
\<close>

definition extends_prefix :: "string \<Rightarrow> string \<Rightarrow> bool" where
  "extends_prefix pre v \<longleftrightarrow> prefix pre v \<or> pre = v @ ''/''"

lemma join_lang_prefix:
  "those (map parse_segment gs) = Some ps \<Longrightarrow> gs \<noteq> [] \<Longrightarrow> xs \<noteq> [] \<Longrightarrow> seg_lang ps xs \<Longrightarrow>
   extends_prefix (takeWhile (\<lambda>c. \<not> prefix_stop c) (join_char CHR ''/'' gs))
     (join_char CHR ''/'' xs)"
proof (induction gs arbitrary: ps xs)
  case Nil
  then show ?case by simp
next
  case (Cons g gs)
  let ?tw = "takeWhile (\<lambda>c. \<not> prefix_stop c)"
  from Cons.prems(1) obtain p ps' where
    p: "parse_segment g = Some p" and ps': "those (map parse_segment gs) = Some ps'" and
    ps: "ps = p # ps'"
    by (auto split: option.splits)
  show ?case
  proof (cases "\<exists>v. p = Literal v")
    case False
    then have "p = Star \<or> p = Globstar" by (cases p) auto
    with p have "g = ''*'' \<or> g = ''**''" by (auto dest: parse_segment_wild)
    then have "?tw (join_char CHR ''/'' (g # gs)) = []" by (cases gs) auto
    then show ?thesis by (simp add: extends_prefix_def)
  next
    case True
    with p ps Cons.prems(3,4) obtain xs' where
      pl: "p = Literal g" and xs: "xs = g # xs'" and l: "seg_lang ps' xs'"
      by (auto dest: parse_segment_Literal split: list.splits)
    show ?thesis
    proof (cases "list_ex prefix_stop g \<or> gs = []")
      case True
      then have "prefix (?tw (join_char CHR ''/'' (g # gs))) g"
        by (cases gs) (auto simp: takeWhile_append list_ex_iff takeWhile_is_prefix)
      then show ?thesis using xs by (cases xs') (auto simp: extends_prefix_def intro: prefix_prefix)
    next
      case False
      then obtain h hs where gs: "gs = h # hs" by (cases gs) auto
      from False have "\<forall>c \<in> set g. \<not> prefix_stop c" by (simp add: list_ex_iff)
      then have tw: "?tw (join_char CHR ''/'' (g # gs)) = g @ CHR ''/'' # ?tw (join_char CHR ''/'' gs)"
        by (simp add: gs)
      show ?thesis
      proof (cases xs')
        case Nil
        with l ps' gs have "parse_segment h = Some Globstar"
          by (auto dest!: seg_lang_Nil split: option.splits)
        then have "?tw (join_char CHR ''/'' gs) = []"
          using gs by (cases hs) (auto dest!: parse_segment_wild)
        with tw xs Nil show ?thesis by (simp add: extends_prefix_def)
      next
        case (Cons y ys)
        have "extends_prefix (?tw (join_char CHR ''/'' gs)) (join_char CHR ''/'' xs')"
          using Cons.IH [OF ps' _ _ l] gs Cons by simp
        with tw xs Cons show ?thesis by (auto simp: extends_prefix_def)
      qed
    qed
  qed
qed

lemma glob_lang_prefix: "glob_lang g v \<Longrightarrow> extends_prefix (literalPrefix g) v"
  using join_lang_prefix [of "split_char CHR ''/'' g" _ "split_char CHR ''/'' v"]
  by (auto simp: glob_lang_def parseSegments_those literalPrefix_takeWhile split: option.splits)

lemma disjoint_prefixes_apart:
  "haveDisjointLiteralPrefixes a b \<Longrightarrow> extends_prefix (literalPrefix a) v \<Longrightarrow>
   extends_prefix (literalPrefix b) v \<Longrightarrow> False"
  unfolding haveDisjointLiteralPrefixes_def extends_prefix_def Let_def starts_with_prefix
  by (auto dest: prefix_same_cases prefix_prefix)

lemma disjoint_globs_apart:
  "haveDisjointLiteralPrefixes a b \<Longrightarrow> glob_lang a v \<Longrightarrow> \<not> glob_lang b v"
  using disjoint_prefixes_apart glob_lang_prefix by blast

text \<open>A glob with a wildcard segment; without one it matches only its own text.\<close>

definition wildcard_glob :: "string \<Rightarrow> bool" where
  "wildcard_glob g =
     (case parseSegments g of None \<Rightarrow> True | Some ps \<Rightarrow> Star \<in> set ps \<or> Globstar \<in> set ps)"

lemma literal_lang:
  "those (map parse_segment gs) = Some ps \<Longrightarrow> Star \<notin> set ps \<Longrightarrow> Globstar \<notin> set ps \<Longrightarrow>
   seg_lang ps xs \<Longrightarrow> xs = gs"
proof (induction gs arbitrary: ps xs)
  case Nil
  then show ?case by simp
next
  case (Cons g gs)
  then obtain p ps' where ps: "ps = p # ps'" "parse_segment g = Some p"
    "those (map parse_segment gs) = Some ps'" by (auto split: option.splits)
  with Cons.prems show ?case
    by (cases p) (auto dest!: parse_segment_Literal split: list.splits intro: Cons.IH)
qed

lemma literal_glob_lang: "\<not> wildcard_glob g \<Longrightarrow> glob_lang g v \<Longrightarrow> v = g"
  by (auto simp: wildcard_glob_def glob_lang_def parseSegments_those
      split: option.splits dest!: literal_lang intro: split_char_inject)

section \<open>The interface of the containment test\<close>

text \<open>
  What a client of this module relies on: a matcher \<open>matches v g\<close> and a test \<open>wild\<close> for glob
  syntax, on the values of \<open>dom_value\<close>, for which containment and disjointness are sound and a
  pattern that is not a glob matches only itself.
\<close>

locale glob_containment =
  fixes matches :: "string \<Rightarrow> string \<Rightarrow> bool"
    and wild :: "string \<Rightarrow> bool"
    and dom_value :: "string \<Rightarrow> bool"
    and outer :: "string \<Rightarrow> bool"
    and dom_glob :: "string \<Rightarrow> bool"
  assumes covers_sound:
      "isGlobSubsetOfGlob p s \<Longrightarrow> outer p \<Longrightarrow> dom_glob p \<Longrightarrow> dom_glob s \<Longrightarrow> dom_value v \<Longrightarrow>
       matches v s \<Longrightarrow> matches v p"
    and apart_sound:
      "haveDisjointLiteralPrefixes a b \<Longrightarrow> dom_glob a \<Longrightarrow> dom_glob b \<Longrightarrow> dom_value v \<Longrightarrow>
       matches v a \<Longrightarrow> \<not> matches v b"
    and literal_sound: "\<not> wild g \<Longrightarrow> dom_glob g \<Longrightarrow> dom_value v \<Longrightarrow> matches v g \<Longrightarrow> v = g"
begin

lemma covers_trans:
  "isGlobSubsetOfGlob p q \<Longrightarrow> isGlobSubsetOfGlob q r \<Longrightarrow> outer p \<Longrightarrow> outer q \<Longrightarrow>
   list_all dom_glob [p, q, r] \<Longrightarrow> dom_value v \<Longrightarrow> matches v r \<Longrightarrow> matches v p"
  using covers_sound by auto

lemma covered_and_apart:
  "isGlobSubsetOfGlob p s \<Longrightarrow> haveDisjointLiteralPrefixes p d \<Longrightarrow> outer p \<Longrightarrow>
   list_all dom_glob [p, s, d] \<Longrightarrow> dom_value v \<Longrightarrow> matches v s \<Longrightarrow> \<not> matches v d"
  using covers_sound [of p s v] apart_sound [of p d v] by auto

end

interpretation segment_globs:
  glob_containment "\<lambda>v g. glob_lang g v" wildcard_glob plain_value rooted "\<lambda>g. True"
  by unfold_locales
    (blast intro: isGlobSubset_sound disjoint_globs_apart literal_glob_lang
           dest: disjoint_globs_apart)+

text \<open>
  What is assumed of the glob library on plain values and plain globs: on segment globs it agrees
  with the language above, whatever it matches extends the literal prefix of the pattern, and a
  pattern without glob syntax matches only itself.
\<close>

definition picomatch_laws :: "(string \<Rightarrow> string \<Rightarrow> bool) \<Rightarrow> (string \<Rightarrow> bool) \<Rightarrow> bool" where
  "picomatch_laws isM isGlob \<longleftrightarrow>
     (\<forall>g v. plain_glob g \<longrightarrow> plain_value v \<longrightarrow>
        (parseSegments g \<noteq> None \<longrightarrow> isM v g = glob_lang g v) \<and>
        (isM v g \<longrightarrow> extends_prefix (literalPrefix g) v) \<and>
        (\<not> isGlob g \<longrightarrow> isM v g \<longrightarrow> v = g))"

lemma picomatch_laws_segment: "picomatch_laws (\<lambda>v g. glob_lang g v) wildcard_glob"
  by (auto simp: picomatch_laws_def dest: glob_lang_prefix literal_glob_lang)

lemma picomatch_covers:
  assumes laws: "picomatch_laws isM isGlob" and sub: "isGlobSubsetOfGlob p s" and r: "rooted p"
    and g: "plain_glob p" "plain_glob s" and v: "plain_value v" and m: "isM v s"
  shows "isM v p"
proof (cases "p = s")
  case False
  with sub have "parseSegments p \<noteq> None" "parseSegments s \<noteq> None"
    by (auto simp: isGlobSubsetOfGlob_def split: option.splits)
  with laws g v m isGlobSubset_sound [OF sub _ v r] show ?thesis by (simp add: picomatch_laws_def)
qed (use m in simp)

lemma picomatch_containment:
  assumes "picomatch_laws isM isGlob"
  shows "glob_containment isM isGlob plain_value rooted plain_glob"
proof
  fix p s v
  assume "isGlobSubsetOfGlob p s" "rooted p" "plain_glob p" "plain_glob s" "plain_value v" "isM v s"
  then show "isM v p" by (rule picomatch_covers [OF assms])
next
  fix a b v
  assume "haveDisjointLiteralPrefixes a b" "plain_glob a" "plain_glob b" "plain_value v" "isM v a"
  then show "\<not> isM v b"
    using assms disjoint_prefixes_apart [of a b v] unfolding picomatch_laws_def by blast
next
  fix g v
  assume "\<not> isGlob g" "plain_glob g" "plain_value v" "isM v g"
  then show "v = g" using assms unfolding picomatch_laws_def by blast
qed



text \<open>
  The literal prefix, which is to end at \<open>any character picomatch may interpret specially\<close>, runs
  over \<open>|\<close>: the code finds these two globs disjoint, although in a glob with slashes the library
  takes \<open>|\<close> as an alternative, so that the first stands for the second too.
\<close>

lemma alternatives_count_as_literals:
  "literalPrefix ''/a|/b'' = ''/a|/b'' \<and> haveDisjointLiteralPrefixes ''/a|/b'' ''/b'' \<and>
   \<not> plain_glob ''/a|/b''"
  by code_simp

text \<open>
  disjointness by literal prefixes is sound. When the code declares two globs disjoint, no
  value matches both.
\<close>

theorem disjoint_globs_share_no_match:
  assumes "haveDisjointLiteralPrefixes a b"
  shows "\<not> (glob_lang a v \<and> glob_lang b v)"
  using disjoint_globs_apart [OF assms] by blast

theorem disjoint_globs_share_no_match_witness:
  "\<not> (glob_lang ''/apps/**'' ''/apps/x'' \<and> glob_lang ''/secret/*'' ''/apps/x'')"
  by (rule disjoint_globs_share_no_match) code_simp

end
