(* ===== verification/PermissionBoundary.thy ===== *)
theory PermissionBoundary
  imports GlobSubset
begin

text \<open>
  \<open>backend/src/lib/casl/boundary.ts\<close>: is every permission of one ability (the subset: a role
  about to be assigned, an identity about to be created) within another one (the parent: what
  the caller holds)? Rules carry conditions on fields of the subject, a condition is a set of
  operators, and the check compares operator sets pairwise.

  Outside the repository, hence parameters: \<open>isM v g\<close> is \<open>picomatch.isMatch(v, g, ...)\<close>,
  \<open>isGlob g\<close> is \<open>picomatch.scan(g).isGlob\<close>, and the field \<open>possibleRulesFor\<close> of an ability is
  the method of that name of the CASL library.
\<close>

section \<open>Rules, conditions, abilities\<close>

text \<open>
  \<open>TPermissionConditionShape\<close>. Operators other than the four that the boundary knows
  (\<open>$all\<close>, \<open>$elemMatch\<close>) are kept by name with their operand as opaque text.
\<close>

record condition_ops =
  eq_op :: "string option"
  neq_op :: "string option"
  in_op :: "string list option"
  glob_op :: "string option"
  other_ops :: "(string \<times> string) list"

datatype condition = Plain string | Ops condition_ops

type_synonym conditions = "(string \<times> condition) list"

datatype actions = OneAction string | ManyActions "string list"
datatype subjects = OneSubject string | ManySubjects "string list"

record rule =
  rule_action :: actions
  rule_subject :: subjects
  inverted :: bool
  conditions :: "conditions option"

record ability =
  rules :: "rule list"
  possibleRulesFor :: "string \<Rightarrow> string \<Rightarrow> rule list"

record missing_permission =
  missing_action :: string
  missing_subject :: string
  missing_conditions :: "conditions option"

definition no_ops :: condition_ops where
  "no_ops = \<lparr>eq_op = None, neq_op = None, in_op = None, glob_op = None, other_ops = []\<rparr>"

definition formatConditionOperator :: "condition \<Rightarrow> condition_ops" where
  "formatConditionOperator c = (case c of Plain s \<Rightarrow> no_ops\<lparr>eq_op := Some s\<rparr> | Ops ops \<Rightarrow> ops)"

definition invertTheOperation :: "bool \<Rightarrow> bool \<Rightarrow> bool" where
  "invertTheOperation shouldInvert operation = (if shouldInvert then \<not> operation else operation)"

definition getPermissionSetID :: "string \<Rightarrow> string \<Rightarrow> string" where
  "getPermissionSetID act sub = act @ '':'' @ sub"

definition IGNORED_PERMISSIONS :: "string list" where
  "IGNORED_PERMISSIONS = [getPermissionSetID ''read'' ''secret-folders'']"

section \<open>Comparing operators\<close>

text \<open>An operand in a test \<open>if (ops[op])\<close>: \<open>undefined\<close> and the empty string are skipped.\<close>

definition tr :: "string option \<Rightarrow> string option" where
  "tr s = (case s of Some t \<Rightarrow> if t = [] then None else Some t | None \<Rightarrow> None)"

definition holds_if :: "'a option \<Rightarrow> ('a \<Rightarrow> bool) \<Rightarrow> bool" where
  "holds_if s f = (case s of None \<Rightarrow> True | Some x \<Rightarrow> f x)"

text \<open>The block for a subset with \<open>$eq\<close> or \<open>$ne\<close>.\<close>

definition eq_neq_subset ::
  "(string \<Rightarrow> string \<Rightarrow> bool) \<Rightarrow> condition_ops \<Rightarrow> condition_ops \<Rightarrow> bool" where
  "eq_neq_subset isM parent sub =
     (case (case tr (eq_op sub) of Some v \<Rightarrow> Some v | None \<Rightarrow> tr (neq_op sub)) of
        None \<Rightarrow> True
      | Some v \<Rightarrow>
          (let inv = (tr (eq_op sub) = None) in
           if inv \<and> (tr (eq_op parent) \<noteq> None \<or> in_op parent \<noteq> None) then False
           else holds_if (tr (eq_op parent)) (\<lambda>e. \<not> invertTheOperation inv (e \<noteq> v))
              \<and> holds_if (tr (neq_op parent)) (\<lambda>n. \<not> invertTheOperation inv (n = v))
              \<and> holds_if (in_op parent) (\<lambda>xs. \<not> invertTheOperation inv (v \<notin> set xs))
              \<and> holds_if (tr (glob_op parent)) (\<lambda>g. \<not> inv)
              \<and> holds_if (tr (glob_op parent)) (\<lambda>g. isM v g)))"

text \<open>The block for a subset with \<open>$in\<close>; an array is truthy even when it is empty.\<close>

definition in_subset ::
  "(string \<Rightarrow> string \<Rightarrow> bool) \<Rightarrow> condition_ops \<Rightarrow> condition_ops \<Rightarrow> bool" where
  "in_subset isM parent sub =
     holds_if (in_op sub) (\<lambda>vs.
         holds_if (tr (eq_op parent)) (\<lambda>e. \<not> (length vs \<noteq> 1 \<or> vs ! 0 \<noteq> e))
       \<and> holds_if (tr (neq_op parent)) (\<lambda>n. n \<notin> set vs)
       \<and> holds_if (in_op parent) (\<lambda>xs. list_all (\<lambda>v. v \<in> set xs) vs)
       \<and> holds_if (tr (glob_op parent)) (\<lambda>g. list_all (\<lambda>v. isM v g) vs))"

text \<open>The block for a subset with \<open>$glob\<close>.\<close>

definition has_other_key_than_glob_neq :: "condition_ops \<Rightarrow> bool" where
  "has_other_key_than_glob_neq parent \<longleftrightarrow>
     eq_op parent \<noteq> None \<or> in_op parent \<noteq> None \<or> other_ops parent \<noteq> []"

definition glob_subset ::
  "(string \<Rightarrow> string \<Rightarrow> bool) \<Rightarrow> (string \<Rightarrow> bool) \<Rightarrow> condition_ops \<Rightarrow> condition_ops \<Rightarrow> bool" where
  "glob_subset isM isGlob parent sub =
     holds_if (tr (glob_op sub)) (\<lambda>v.
         \<not> (isGlob v \<and> has_other_key_than_glob_neq parent)
       \<and> holds_if (tr (eq_op parent)) (\<lambda>e. e = v)
       \<and> holds_if (tr (neq_op parent)) (\<lambda>n. \<not> isM n v)
       \<and> holds_if (in_op parent) (\<lambda>xs. v \<in> set xs)
       \<and> holds_if (tr (glob_op parent)) (\<lambda>g. isGlobSubsetOfGlob g v))"

definition isOperatorsASubset ::
  "(string \<Rightarrow> string \<Rightarrow> bool) \<Rightarrow> (string \<Rightarrow> bool) \<Rightarrow> condition_ops \<Rightarrow> condition_ops \<Rightarrow> bool" where
  "isOperatorsASubset isM isGlob parentSet sub =
     (if \<not> eq_neq_subset isM parentSet sub then False
      else if \<not> in_subset isM parentSet sub then False
      else if \<not> glob_subset isM isGlob parentSet sub then False
      else True)"

text \<open>\<open>if (x !== undefined && y !== undefined) return f(x, y)\<close>, else go on with the rest.\<close>

definition when_both :: "'a option \<Rightarrow> 'b option \<Rightarrow> ('a \<Rightarrow> 'b \<Rightarrow> bool) \<Rightarrow> bool \<Rightarrow> bool" where
  "when_both x y f rest =
     (case x of None \<Rightarrow> rest | Some a \<Rightarrow> (case y of None \<Rightarrow> rest | Some b \<Rightarrow> f a b))"

definition areOperatorsDisjoint ::
  "(string \<Rightarrow> string \<Rightarrow> bool) \<Rightarrow> condition_ops \<Rightarrow> condition_ops \<Rightarrow> bool" where
  "areOperatorsDisjoint isM a b =
     when_both (eq_op a) (eq_op b) (\<lambda>x y. x \<noteq> y) (
     when_both (eq_op a) (neq_op b) (\<lambda>x y. x = y) (
     when_both (eq_op b) (neq_op a) (\<lambda>x y. x = y) (
     when_both (eq_op a) (in_op b) (\<lambda>x ys. x \<notin> set ys) (
     when_both (eq_op b) (in_op a) (\<lambda>x ys. x \<notin> set ys) (
     when_both (eq_op a) (glob_op b) (\<lambda>x g. \<not> isM x g) (
     when_both (eq_op b) (glob_op a) (\<lambda>x g. \<not> isM x g) (
     when_both (in_op a) (in_op b) (\<lambda>xs ys. \<not> list_ex (\<lambda>v. v \<in> set ys) xs) (
     when_both (in_op a) (glob_op b) (\<lambda>xs g. \<not> list_ex (\<lambda>v. isM v g) xs) (
     when_both (in_op b) (glob_op a) (\<lambda>xs g. \<not> list_ex (\<lambda>v. isM v g) xs) (
     when_both (in_op a) (neq_op b) (\<lambda>xs y. list_all (\<lambda>v. v = y) xs) (
     when_both (in_op b) (neq_op a) (\<lambda>xs y. list_all (\<lambda>v. v = y) xs) (
     when_both (glob_op a) (glob_op b) haveDisjointLiteralPrefixes (
     when_both (glob_op a) (neq_op b) (\<lambda>g y. g = y) (
     when_both (glob_op b) (neq_op a) (\<lambda>g y. g = y)
     False))))))))))))))"

section \<open>Comparing the rules of one action and subject\<close>

text \<open>\<open>conditions?.[field]\<close>, kept only when it is truthy.\<close>

definition lookup_cond :: "conditions option \<Rightarrow> string \<Rightarrow> condition option" where
  "lookup_cond cs f =
     (case cs of None \<Rightarrow> None
      | Some al \<Rightarrow> (case map_of al f of None \<Rightarrow> None
                    | Some c \<Rightarrow> if c = Plain [] then None else Some c))"

definition subset_of_parent_rule ::
  "(string \<Rightarrow> string \<Rightarrow> bool) \<Rightarrow> (string \<Rightarrow> bool) \<Rightarrow> conditions option \<Rightarrow> rule \<Rightarrow> bool" where
  "subset_of_parent_rule isM isGlob subCs parentRule =
     (case conditions parentRule of None \<Rightarrow> True
      | Some pcs \<Rightarrow>
          list_all (\<lambda>(field, pc).
            (case lookup_cond subCs field of None \<Rightarrow> False
             | Some sc \<Rightarrow> isOperatorsASubset isM isGlob
                            (formatConditionOperator pc) (formatConditionOperator sc))) pcs)"

definition overlapsWithInvertedParent ::
  "(string \<Rightarrow> string \<Rightarrow> bool) \<Rightarrow> conditions option \<Rightarrow> conditions \<Rightarrow> bool" where
  "overlapsWithInvertedParent isM subCs invertedCs =
     list_all (\<lambda>(field, ic).
       (case lookup_cond subCs field of None \<Rightarrow> True
        | Some sc \<Rightarrow> \<not> areOperatorsDisjoint isM
                         (formatConditionOperator ic) (formatConditionOperator sc))) invertedCs"

definition rule_within ::
  "(string \<Rightarrow> string \<Rightarrow> bool) \<Rightarrow> (string \<Rightarrow> bool) \<Rightarrow> rule list \<Rightarrow> rule \<Rightarrow> bool" where
  "rule_within isM isGlob parentRules subRule =
     (let isSubsetOfNonInvertedParentSet =
            list_ex (subset_of_parent_rule isM isGlob (conditions subRule))
              (filter (\<lambda>r. \<not> inverted r) parentRules);
          isNotInDeniedRegion =
            \<not> list_ex (\<lambda>r. case conditions r of None \<Rightarrow> True
                           | Some ics \<Rightarrow> overlapsWithInvertedParent isM (conditions subRule) ics)
                (filter inverted parentRules)
      in isSubsetOfNonInvertedParentSet \<and> isNotInDeniedRegion)"

text \<open>
  \<open>every\<close> over the subset's rules: it stops at the first rule that is not within the parent, after
  that rule's conditions have been reported.
\<close>

fun every_rule_within ::
  "(string \<Rightarrow> string \<Rightarrow> bool) \<Rightarrow> (string \<Rightarrow> bool) \<Rightarrow> rule list \<Rightarrow> rule list \<Rightarrow>
   conditions option list" where
  "every_rule_within isM isGlob parentRules [] = []"
| "every_rule_within isM isGlob parentRules (r # rs) =
     (if rule_within isM isGlob parentRules r then every_rule_within isM isGlob parentRules rs
      else [conditions r])"

definition isSubsetForSamePermissionSubjectAction ::
  "(string \<Rightarrow> string \<Rightarrow> bool) \<Rightarrow> (string \<Rightarrow> bool) \<Rightarrow> rule list \<Rightarrow> rule list \<Rightarrow>
   conditions option list" where
  "isSubsetForSamePermissionSubjectAction isM isGlob parentRules subRules =
     (if parentRules \<noteq> [] \<and> list_all (\<lambda>r. \<not> inverted r \<and> conditions r = None) parentRules then []
      else every_rule_within isM isGlob parentRules subRules)"

section \<open>The boundary check\<close>

definition subject_toString :: "subjects \<Rightarrow> string" where
  "subject_toString s = (case s of OneSubject t \<Rightarrow> t | ManySubjects ts \<Rightarrow> join_char CHR '','' ts)"

definition action_list :: "actions \<Rightarrow> string list" where
  "action_list a = (case a of OneAction x \<Rightarrow> [x] | ManyActions xs \<Rightarrow> xs)"

definition missing_for_action ::
  "(string \<Rightarrow> string \<Rightarrow> bool) \<Rightarrow> (string \<Rightarrow> bool) \<Rightarrow> ability \<Rightarrow> ability \<Rightarrow> string \<Rightarrow> string \<Rightarrow>
   missing_permission list" where
  "missing_for_action isM isGlob parent child subj act =
     (let parentRules = possibleRulesFor parent act subj in
      if filter (\<lambda>r. \<not> inverted r) parentRules = []
      then [\<lparr>missing_action = act, missing_subject = subj, missing_conditions = None\<rparr>]
      else map (\<lambda>cs. \<lparr>missing_action = act, missing_subject = subj, missing_conditions = cs\<rparr>)
             (isSubsetForSamePermissionSubjectAction isM isGlob parentRules
                (possibleRulesFor child act subj)))"

definition boundary_step ::
  "(string \<Rightarrow> string \<Rightarrow> bool) \<Rightarrow> (string \<Rightarrow> bool) \<Rightarrow> ability \<Rightarrow> ability \<Rightarrow> rule \<Rightarrow>
   string list \<times> missing_permission list \<Rightarrow> string list \<times> missing_permission list" where
  "boundary_step isM isGlob parent child r =
     (\<lambda>(checked, missing).
       (let subj = subject_toString (rule_subject r);
            acts = filter (\<lambda>a. getPermissionSetID a subj \<notin> set checked \<and>
                               getPermissionSetID a subj \<notin> set IGNORED_PERMISSIONS)
                     (action_list (rule_action r))
        in if acts = [] then (checked, missing)
           else (set_add_all (map (\<lambda>a. getPermissionSetID a subj) acts) checked,
                 missing @ concat (map (missing_for_action isM isGlob parent child subj) acts))))"

datatype boundary_result = ValidBoundary | InvalidBoundary "missing_permission list"

definition validatePermissionBoundary ::
  "(string \<Rightarrow> string \<Rightarrow> bool) \<Rightarrow> (string \<Rightarrow> bool) \<Rightarrow> ability \<Rightarrow> ability \<Rightarrow> boundary_result" where
  "validatePermissionBoundary isM isGlob parent child =
     (let missing = snd (fold (boundary_step isM isGlob parent child) (rules child) ([], []))
      in if missing \<noteq> [] then InvalidBoundary missing else ValidBoundary)"

section \<open>What a rule matches\<close>

text \<open>
  \<open>glob\<close> of \<open>lib/casl/index.ts\<close>: how the permission library evaluates \<open>$glob\<close> on a field. The
  other operators have the library's documented meaning; \<open>om\<close> stands for the operators kept
  opaque. An object gives every field a string.
\<close>

definition glob_interpreter :: "(string \<Rightarrow> string \<Rightarrow> bool) \<Rightarrow> string \<Rightarrow> string \<Rightarrow> bool" where
  "glob_interpreter isM g v = (if trim g = [] then False else isM v g)"

definition ops_match ::
  "(string \<Rightarrow> string \<Rightarrow> bool) \<Rightarrow> (string \<Rightarrow> string \<Rightarrow> string \<Rightarrow> bool) \<Rightarrow> condition_ops \<Rightarrow> string \<Rightarrow> bool"
  where
  "ops_match isM om ops v \<longleftrightarrow>
     holds_if (eq_op ops) (\<lambda>e. v = e) \<and> holds_if (neq_op ops) (\<lambda>n. v \<noteq> n) \<and>
     holds_if (in_op ops) (\<lambda>xs. v \<in> set xs) \<and> holds_if (glob_op ops) (\<lambda>g. glob_interpreter isM g v) \<and>
     list_all (\<lambda>(k, x). om k x v) (other_ops ops)"

definition rule_matches ::
  "(string \<Rightarrow> string \<Rightarrow> bool) \<Rightarrow> (string \<Rightarrow> string \<Rightarrow> string \<Rightarrow> bool) \<Rightarrow> rule \<Rightarrow> (string \<Rightarrow> string) \<Rightarrow> bool"
  where
  "rule_matches isM om r obj =
     (case conditions r of None \<Rightarrow> True
      | Some cs \<Rightarrow> list_all (\<lambda>(f, c). ops_match isM om (formatConditionOperator c) (obj f)) cs)"

text \<open>
  The operator sets the role schemas accept on a scalar field: at least one of the four
  operators and no other, no empty operand, \<open>$ne\<close> of a plain value, a rooted glob without characters that
  only the glob library treats specially.
\<close>

definition wf_ops :: "(string \<Rightarrow> bool) \<Rightarrow> condition_ops \<Rightarrow> bool" where
  "wf_ops isGlob ops \<longleftrightarrow>
     (eq_op ops \<noteq> None \<or> neq_op ops \<noteq> None \<or> in_op ops \<noteq> None \<or> glob_op ops \<noteq> None) \<and>
     other_ops ops = [] \<and> eq_op ops \<noteq> Some [] \<and> neq_op ops \<noteq> Some [] \<and>
     holds_if (neq_op ops) (\<lambda>n. \<not> isGlob n) \<and>
     holds_if (glob_op ops) (\<lambda>g. trim g \<noteq> [] \<and> rooted g \<and> plain_glob g)"

definition wf_rule :: "(string \<Rightarrow> bool) \<Rightarrow> rule \<Rightarrow> bool" where
  "wf_rule isGlob r \<longleftrightarrow>
     holds_if (conditions r) (list_all (\<lambda>(f, c). wf_ops isGlob (formatConditionOperator c)))"

definition wf_ability :: "(string \<Rightarrow> bool) \<Rightarrow> ability \<Rightarrow> bool" where
  "wf_ability isGlob ab \<longleftrightarrow>
     (\<forall>a s. list_all (wf_rule isGlob) (possibleRulesFor ab a s)) \<and>
     list_all (\<lambda>r. list_all (\<lambda>a. CHR '':'' \<notin> set a) (action_list (rule_action r))) (rules ab)"

lemma holds_if_simps [simp]: "holds_if None f" "holds_if (Some x) f = f x"
  by (simp_all add: holds_if_def)

lemma tr_simps [simp]: "tr None = None" "tr (Some []) = None" "t \<noteq> [] \<Longrightarrow> tr (Some t) = Some t"
  by (simp_all add: tr_def)

lemma tr_Some_iff: "tr s = Some t \<longleftrightarrow> s = Some t \<and> t \<noteq> []"
  by (auto simp: tr_def split: option.splits if_splits)

lemma tr_nonempty: "s \<noteq> Some [] \<Longrightarrow> tr s = s"
  by (cases s) (auto simp: tr_def)

lemma trim_nonempty: "trim g \<noteq> [] \<Longrightarrow> g \<noteq> []"
  by auto

lemma wf_ops_tr:
  assumes "wf_ops isGlob ops"
  shows "tr (eq_op ops) = eq_op ops" "tr (neq_op ops) = neq_op ops" "tr (glob_op ops) = glob_op ops"
  using assms by (auto simp: wf_ops_def intro!: tr_nonempty)

section \<open>Soundness of the comparison\<close>

lemma wf_rule_cond:
  "wf_rule isGlob r \<Longrightarrow> conditions r = Some cs \<Longrightarrow> (f, c) \<in> set cs \<Longrightarrow>
   wf_ops isGlob (formatConditionOperator c)"
  by (auto simp: wf_rule_def list_all_iff)

lemma ops_matchI:
  assumes "\<And>e. eq_op ops = Some e \<Longrightarrow> v = e" "\<And>n. neq_op ops = Some n \<Longrightarrow> v \<noteq> n"
    "\<And>xs. in_op ops = Some xs \<Longrightarrow> v \<in> set xs" "\<And>g. glob_op ops = Some g \<Longrightarrow> isM v g"
    "wf_ops isGlob ops"
  shows "ops_match isM om ops v"
  using assms
  by (cases "eq_op ops"; cases "neq_op ops"; cases "in_op ops"; cases "glob_op ops")
    (auto simp: ops_match_def wf_ops_def glob_interpreter_def)

lemma ops_matchD:
  assumes "ops_match isM om ops v"
  shows "eq_op ops = Some e \<Longrightarrow> v = e" "neq_op ops = Some n \<Longrightarrow> v \<noteq> n"
    "in_op ops = Some xs \<Longrightarrow> v \<in> set xs" "glob_op ops = Some g \<Longrightarrow> isM v g"
  using assms by (auto simp: ops_match_def glob_interpreter_def split: if_splits)

text \<open>What a successful comparison says, once the truthiness tests are out of the way.\<close>

lemma isOperatorsASubset_parts:
  assumes "isOperatorsASubset isM isGlob P S"
  shows "eq_neq_subset isM P S" "in_subset isM P S" "glob_subset isM isGlob P S"
  using assms by (auto simp: isOperatorsASubset_def split: if_splits)

lemma eq_subset_parts:
  assumes "eq_neq_subset isM P S" "wf_ops isGlob P" "wf_ops isGlob S" "eq_op S = Some e"
  shows "eq_op P = Some x \<Longrightarrow> x = e" "neq_op P = Some n \<Longrightarrow> n \<noteq> e"
    "in_op P = Some xs \<Longrightarrow> e \<in> set xs" "glob_op P = Some g \<Longrightarrow> isM e g"
  using assms(1,4) wf_ops_tr [OF assms(2)] wf_ops_tr(1) [OF assms(3)]
  by (simp_all add: eq_neq_subset_def invertTheOperation_def)

lemma neq_subset_parts:
  assumes "eq_neq_subset isM P S" "wf_ops isGlob P" "wf_ops isGlob S"
    "eq_op S = None" "neq_op S = Some m"
  shows "eq_op P = None" "in_op P = None" "glob_op P = None" "neq_op P = Some n \<Longrightarrow> n = m"
  using assms(1,4,5) wf_ops_tr [OF assms(2)] wf_ops_tr(2) [OF assms(3)]
  by (cases "glob_op P"; simp add: eq_neq_subset_def invertTheOperation_def split: if_splits)+

lemma in_subset_parts:
  assumes "in_subset isM P S" "wf_ops isGlob P" "in_op S = Some vs" "v \<in> set vs"
  shows "eq_op P = Some x \<Longrightarrow> v = x" "neq_op P = Some n \<Longrightarrow> v \<noteq> n"
    "in_op P = Some xs \<Longrightarrow> v \<in> set xs" "glob_op P = Some g \<Longrightarrow> isM v g"
  using assms(1,3,4) wf_ops_tr [OF assms(2)]
  by (auto simp: in_subset_def list_all_iff length_Suc_conv)

lemma glob_subset_parts:
  assumes "glob_subset isM isGlob P S" "wf_ops isGlob P" "wf_ops isGlob S" "glob_op S = Some h"
  shows "eq_op P = Some x \<Longrightarrow> \<not> isGlob h \<and> x = h" "neq_op P = Some n \<Longrightarrow> \<not> isM n h"
    "in_op P = Some xs \<Longrightarrow> \<not> isGlob h \<and> h \<in> set xs" "glob_op P = Some g \<Longrightarrow> isGlobSubsetOfGlob g h"
  using assms(1,4) wf_ops_tr [OF assms(2)] wf_ops_tr(3) [OF assms(3)]
  by (simp_all add: glob_subset_def has_other_key_than_glob_neq_def)

text \<open>Where the globs of an operator set, and of a rule, lie.\<close>

definition glob_ops_in :: "(string \<Rightarrow> bool) \<Rightarrow> condition_ops \<Rightarrow> bool" where
  "glob_ops_in D ops \<longleftrightarrow> holds_if (glob_op ops) D"

definition rule_globs_in :: "(string \<Rightarrow> bool) \<Rightarrow> rule \<Rightarrow> bool" where
  "rule_globs_in D r \<longleftrightarrow>
     holds_if (conditions r) (list_all (\<lambda>(f, c). glob_ops_in D (formatConditionOperator c)))"

lemma wf_rule_plain_globs: "wf_rule isGlob r \<Longrightarrow> rule_globs_in plain_glob r"
  by (cases "conditions r")
    (auto simp: wf_rule_def rule_globs_in_def glob_ops_in_def wf_ops_def holds_if_def list_all_iff
      split: option.splits)

lemma rule_globs_in_cond:
  "list_all (rule_globs_in D) ps \<Longrightarrow> p \<in> set ps \<Longrightarrow> conditions p = Some cs \<Longrightarrow> (f, c) \<in> set cs \<Longrightarrow>
   glob_ops_in D (formatConditionOperator c)"
  by (fastforce simp: rule_globs_in_def list_all_iff)

text \<open>These hold for any matcher that meets the interface of the containment test.\<close>

context glob_containment
begin

lemma operators_subset_sound:
  assumes sub: "isOperatorsASubset matches wild P S" and wfP: "wf_ops wild P" and wfS: "wf_ops wild S"
    and P: "\<And>g. glob_op P = Some g \<Longrightarrow> outer g" and dg: "glob_ops_in dom_glob P" "glob_ops_in dom_glob S"
    and v: "dom_value v" and m: "ops_match matches om S v"
  shows "ops_match matches om P v"
proof -
  note parts = isOperatorsASubset_parts [OF sub] and mS = ops_matchD [OF m]
  consider (eq) e where "eq_op S = Some e" | (neq) n where "eq_op S = None" "neq_op S = Some n"
    | (ins) xs where "in_op S = Some xs" | (glob) h where "glob_op S = Some h"
    using wfS by (cases "eq_op S") (auto simp: wf_ops_def)
  then show ?thesis
  proof cases
    case eq
    note eq_subset_parts [OF parts(1) wfP wfS eq]
    with mS(1) [OF eq] show ?thesis by (intro ops_matchI [OF _ _ _ _ wfP]) auto
  next
    case neq
    note neq_subset_parts [OF parts(1) wfP wfS neq]
    with mS(2) [OF neq(2)] show ?thesis by (intro ops_matchI [OF _ _ _ _ wfP]) auto
  next
    case ins
    note in_subset_parts [OF parts(2) wfP ins mS(3) [OF ins]]
    then show ?thesis by (intro ops_matchI [OF _ _ _ _ wfP]) auto
  next
    case glob
    note gp = glob_subset_parts [OF parts(3) wfP wfS glob] and mh = mS(4) [OF glob]
    from dg(2) glob have h: "dom_glob h" by (simp add: glob_ops_in_def)
    show ?thesis
    proof (rule ops_matchI [OF _ _ _ _ wfP])
      show "eq_op P = Some e \<Longrightarrow> v = e" for e using gp(1) literal_sound [OF _ h v mh] by simp
      show "neq_op P = Some n \<Longrightarrow> v \<noteq> n" for n using gp(2) mh by auto
      show "in_op P = Some xs \<Longrightarrow> v \<in> set xs" for xs using gp(3) literal_sound [OF _ h v mh] by simp
      show "glob_op P = Some g \<Longrightarrow> matches v g" for g
        using gp(4) covers_sound [OF _ P _ h v mh] dg(1) by (simp add: glob_ops_in_def)
    qed
  qed
qed

lemma glob_neq_disjoint:
  assumes "glob_op a = Some g" "neq_op b = Some g" "wf_ops wild b" "glob_ops_in dom_glob a" "dom_value v"
    "ops_match matches om a v" "ops_match matches om b v"
  shows False
  using literal_sound [of g v] assms(3-5) ops_matchD(4) [OF assms(6,1)] ops_matchD(2) [OF assms(7,2)]
  by (auto simp: wf_ops_def glob_ops_in_def assms(1,2))

lemma operators_disjoint_sound:
  assumes dis: "areOperatorsDisjoint matches a b" and wfa: "wf_ops wild a" and wfb: "wf_ops wild b"
    and dg: "glob_ops_in dom_glob a" "glob_ops_in dom_glob b"
    and v: "dom_value v" and ma: "ops_match matches om a v" and mb: "ops_match matches om b v"
  shows False
proof -
  note A = ops_matchD [OF ma] and B = ops_matchD [OF mb]
  note gn = glob_neq_disjoint [OF _ _ wfb dg(1) v ma mb] glob_neq_disjoint [OF _ _ wfa dg(2) v mb ma]
  have apart: "glob_op a = Some g \<Longrightarrow> glob_op b = Some h \<Longrightarrow> haveDisjointLiteralPrefixes g h \<Longrightarrow> False"
    for g h using apart_sound [OF _ _ _ v] A(4) B(4) dg by (auto simp: glob_ops_in_def)
  show False
  proof (cases "eq_op a")
    case (Some e)
    with dis A(1) [OF Some] B v show False
      by (auto simp: areOperatorsDisjoint_def when_both_def split: option.splits)
  next
    case a1: None
    show False
    proof (cases "eq_op b")
      case (Some e)
      with dis B(1) [OF Some] A a1 show False
        by (auto simp: areOperatorsDisjoint_def when_both_def split: option.splits)
    next
      case None
      with dis a1 A(2-4) B(2-4) gn apart show False
        by (auto simp: areOperatorsDisjoint_def when_both_def list_ex_iff list_all_iff
            split: option.splits)
    qed
  qed
qed

lemma lookup_cond_matches:
  assumes "lookup_cond (conditions r) f = Some c" "rule_matches matches om r obj" "wf_rule wild r"
  shows "ops_match matches om (formatConditionOperator c) (obj f)"
    and "wf_ops wild (formatConditionOperator c)"
    and "rule_globs_in dom_glob r \<Longrightarrow> glob_ops_in dom_glob (formatConditionOperator c)"
  using assms
  by (auto simp: lookup_cond_def rule_matches_def wf_rule_def rule_globs_in_def list_all_iff
      split: option.splits if_splits dest!: map_of_SomeD)

lemma rule_within_sound:
  assumes within: "rule_within matches wild parentRules r"
    and wfp: "list_all (wf_rule wild) parentRules" and wfr: "wf_rule wild r"
    and outer: "\<And>p cs f c g. p \<in> set parentRules \<Longrightarrow> conditions p = Some cs \<Longrightarrow> (f, c) \<in> set cs \<Longrightarrow>
                 glob_op (formatConditionOperator c) = Some g \<Longrightarrow> outer g"
    and dgp: "list_all (rule_globs_in dom_glob) parentRules" and dgr: "rule_globs_in dom_glob r"
    and m: "rule_matches matches om r obj" and v: "\<And>f. dom_value (obj f)"
  shows "\<exists>p \<in> set parentRules. \<not> inverted p \<and> rule_matches matches om p obj"
    and "\<forall>p \<in> set parentRules. inverted p \<longrightarrow> \<not> rule_matches matches om p obj"
proof -
  from within obtain p where p: "p \<in> set parentRules" "\<not> inverted p"
    and sp: "subset_of_parent_rule matches wild (conditions r) p"
    by (auto simp: rule_within_def Let_def list_ex_iff)
  have "rule_matches matches om p obj"
  proof (cases "conditions p")
    case None
    then show ?thesis by (simp add: rule_matches_def)
  next
    case (Some cs)
    have "ops_match matches om (formatConditionOperator c) (obj f)" if fc: "(f, c) \<in> set cs" for f c
    proof -
      from sp Some fc obtain sc where sc: "lookup_cond (conditions r) f = Some sc"
        and sub: "isOperatorsASubset matches wild (formatConditionOperator c) (formatConditionOperator sc)"
        by (auto simp: subset_of_parent_rule_def list_all_iff split: option.splits)
      from wfp p have "wf_rule wild p" by (simp add: list_all_iff)
      note wfc = wf_rule_cond [OF this Some fc]
      note dgc = rule_globs_in_cond [OF dgp p(1) Some fc]
      show ?thesis
        by (rule operators_subset_sound [OF sub wfc lookup_cond_matches(2) [OF sc m wfr]
              outer [OF p(1) Some fc] dgc lookup_cond_matches(3) [OF sc m wfr dgr] v
              lookup_cond_matches(1) [OF sc m wfr]])
    qed
    with Some show ?thesis by (auto simp: rule_matches_def list_all_iff)
  qed
  with p show "\<exists>p \<in> set parentRules. \<not> inverted p \<and> rule_matches matches om p obj" by blast
next
  show "\<forall>p \<in> set parentRules. inverted p \<longrightarrow> \<not> rule_matches matches om p obj"
  proof (intro ballI impI notI)
    fix p assume p: "p \<in> set parentRules" "inverted p" and mp: "rule_matches matches om p obj"
    from within p obtain ics where ics: "conditions p = Some ics"
      and no: "\<not> overlapsWithInvertedParent matches (conditions r) ics"
      by (auto simp: rule_within_def Let_def list_ex_iff split: option.splits)
    from no obtain f ic sc where fc: "(f, ic) \<in> set ics" and sc: "lookup_cond (conditions r) f = Some sc"
      and dis: "areOperatorsDisjoint matches (formatConditionOperator ic) (formatConditionOperator sc)"
      by (auto simp: overlapsWithInvertedParent_def list_all_iff split: option.splits)
    from mp ics fc have "ops_match matches om (formatConditionOperator ic) (obj f)"
      by (auto simp: rule_matches_def list_all_iff)
    moreover from wfp p have "wf_rule wild p" by (simp add: list_all_iff)
    note wf_rule_cond [OF this ics fc]
    moreover note rule_globs_in_cond [OF dgp p(1) ics fc]
    ultimately show False
      using operators_disjoint_sound [OF dis _ _ _ lookup_cond_matches(3) [OF sc m wfr dgr] v]
        lookup_cond_matches(1,2) [OF sc m wfr] by blast
  qed
qed

end

section \<open>The whole check\<close>

lemma every_rule_within_Nil:
  "every_rule_within isM isGlob ps rs = [] \<longleftrightarrow> list_all (rule_within isM isGlob ps) rs"
  by (induction rs) auto

text \<open>An action of a rule is covered when the boundary reports nothing for it.\<close>

definition covered :: "(string \<Rightarrow> string \<Rightarrow> bool) \<Rightarrow> (string \<Rightarrow> bool) \<Rightarrow> ability \<Rightarrow> ability \<Rightarrow> string \<Rightarrow> string \<Rightarrow> bool"
  where
  "covered isM isGlob parent child act subj \<longleftrightarrow> missing_for_action isM isGlob parent child subj act = []"

lemma covered_iff:
  "covered isM isGlob parent child act subj \<longleftrightarrow>
     (let ps = possibleRulesFor parent act subj in
      list_ex (\<lambda>r. \<not> inverted r) ps \<and>
      (list_all (\<lambda>r. \<not> inverted r \<and> conditions r = None) ps \<or>
       list_all (rule_within isM isGlob ps) (possibleRulesFor child act subj)))"
proof -
  have "filter (\<lambda>r. \<not> inverted r) ps = [] \<longleftrightarrow> \<not> list_ex (\<lambda>r. \<not> inverted r) ps" for ps
    by (induction ps) auto
  then show ?thesis
    by (auto simp: covered_def missing_for_action_def Let_def list_ex_iff
        isSubsetForSamePermissionSubjectAction_def every_rule_within_Nil)
qed

text \<open>A set id names its action and subject, as no action contains a colon.\<close>

lemma getPermissionSetID_inject:
  assumes "getPermissionSetID a s = getPermissionSetID a' s'" "CHR '':'' \<notin> set a" "CHR '':'' \<notin> set a'"
  shows "a = a' \<and> s = s'"
proof -
  have tw: "takeWhile (\<lambda>c. c \<noteq> CHR '':'') (x @ CHR '':'' # y) = x" if "CHR '':'' \<notin> set x" for x y :: string
    using that by (induction x) auto
  have "a = a'" using tw [of a s] tw [of a' s'] assms by (simp add: getPermissionSetID_def)
  with assms(1) show ?thesis by (simp add: getPermissionSetID_def)
qed

definition needs_check :: "rule list \<Rightarrow> string \<Rightarrow> string \<Rightarrow> bool" where
  "needs_check rs act subj \<longleftrightarrow>
     list_ex (\<lambda>r. act \<in> set (action_list (rule_action r)) \<and> subj = subject_toString (rule_subject r)) rs \<and>
     getPermissionSetID act subj \<notin> set IGNORED_PERMISSIONS"

text \<open>
  The invariant of the walk: what is reported comes from the rules walked, every walked action is
  checked, and what is checked without a report is covered.
\<close>

definition walk_inv ::
  "(string \<Rightarrow> string \<Rightarrow> bool) \<Rightarrow> (string \<Rightarrow> bool) \<Rightarrow> ability \<Rightarrow> ability \<Rightarrow> rule list \<Rightarrow>
   string list \<times> missing_permission list \<Rightarrow> bool" where
  "walk_inv isM isGlob parent child rs st \<longleftrightarrow>
     (\<forall>act subj. needs_check rs act subj \<longrightarrow> getPermissionSetID act subj \<in> set (fst st)) \<and>
     (\<forall>i \<in> set (fst st). \<exists>act subj. needs_check rs act subj \<and> i = getPermissionSetID act subj \<and>
        set (missing_for_action isM isGlob parent child subj act) \<subseteq> set (snd st)) \<and>
     (\<forall>m \<in> set (snd st). \<exists>act subj. needs_check rs act subj \<and>
        m \<in> set (missing_for_action isM isGlob parent child subj act))"

lemma needs_check_append:
  "needs_check (rs @ [r]) act subj \<longleftrightarrow> needs_check rs act subj \<or>
     (act \<in> set (action_list (rule_action r)) \<and> subj = subject_toString (rule_subject r) \<and>
      getPermissionSetID act subj \<notin> set IGNORED_PERMISSIONS)"
  by (auto simp: needs_check_def list_ex_iff)

lemma walk_inv_step:
  assumes "walk_inv isM isGlob parent child rs st"
  shows "walk_inv isM isGlob parent child (rs @ [r]) (boundary_step isM isGlob parent child r st)"
proof -
  obtain checked missing where st: "st = (checked, missing)" by (cases st)
  let ?subj = "subject_toString (rule_subject r)"
  let ?acts = "filter (\<lambda>a. getPermissionSetID a ?subj \<notin> set checked \<and>
       getPermissionSetID a ?subj \<notin> set IGNORED_PERMISSIONS) (action_list (rule_action r))"
  have step: "boundary_step isM isGlob parent child r st =
      (set_add_all (map (\<lambda>a. getPermissionSetID a ?subj) ?acts) checked,
       missing @ concat (map (missing_for_action isM isGlob parent child ?subj) ?acts))"
    by (cases "?acts = []") (simp_all add: boundary_step_def st Let_def set_add_all_def)
  have new: "needs_check (rs @ [r]) a ?subj" if "a \<in> set ?acts" for a
    using that by (auto simp: needs_check_append)
  show ?thesis
    unfolding walk_inv_def step fst_conv snd_conv
  proof (intro conjI allI impI ballI)
    fix act subj assume "needs_check (rs @ [r]) act subj"
    then show "getPermissionSetID act subj \<in>
        set (set_add_all (map (\<lambda>a. getPermissionSetID a ?subj) ?acts) checked)"
      using assms by (auto simp: needs_check_append walk_inv_def st)
  next
    fix i assume "i \<in> set (set_add_all (map (\<lambda>a. getPermissionSetID a ?subj) ?acts) checked)"
    then consider a where "a \<in> set ?acts" "i = getPermissionSetID a ?subj" | "i \<in> set checked" by auto
    then show "\<exists>act subj. needs_check (rs @ [r]) act subj \<and> i = getPermissionSetID act subj \<and>
        set (missing_for_action isM isGlob parent child subj act) \<subseteq>
        set (missing @ concat (map (missing_for_action isM isGlob parent child ?subj) ?acts))"
    proof cases
      case 1
      then show ?thesis using new [of a] by (intro exI [of _ a] exI [of _ ?subj]) auto
    next
      case 2
      with assms show ?thesis by (fastforce simp: walk_inv_def st needs_check_append)
    qed
  next
    fix m assume "m \<in> set (missing @ concat (map (missing_for_action isM isGlob parent child ?subj) ?acts))"
    then consider "m \<in> set missing"
      | a where "a \<in> set ?acts" "m \<in> set (missing_for_action isM isGlob parent child ?subj a)" by auto
    then show "\<exists>act subj. needs_check (rs @ [r]) act subj \<and>
        m \<in> set (missing_for_action isM isGlob parent child subj act)"
    proof cases
      case 1
      with assms show ?thesis by (fastforce simp: walk_inv_def st needs_check_append)
    next
      case 2
      then show ?thesis using new by blast
    qed
  qed
qed

lemma walk_inv_fold:
  "walk_inv isM isGlob parent child done st \<Longrightarrow>
   walk_inv isM isGlob parent child (done @ rs) (fold (boundary_step isM isGlob parent child) rs st)"
proof (induction rs arbitrary: "done" st)
  case Nil
  then show ?case by simp
next
  case (Cons r rs)
  from Cons.IH [OF walk_inv_step [OF Cons.prems, of r]] show ?case by simp
qed

lemma walk_inv_all:
  "walk_inv isM isGlob parent child rs (fold (boundary_step isM isGlob parent child) rs ([], []))"
  using walk_inv_fold [of isM isGlob parent child "[]" "([], [])" rs]
  by (simp add: walk_inv_def needs_check_def)

definition colon_free :: "rule list \<Rightarrow> bool" where
  "colon_free rs \<longleftrightarrow> list_all (\<lambda>r. list_all (\<lambda>a. CHR '':'' \<notin> set a) (action_list (rule_action r))) rs"

lemma validate_covered:
  assumes "colon_free (rules child)"
  shows "validatePermissionBoundary isM isGlob parent child = ValidBoundary \<longleftrightarrow>
     (\<forall>act subj. needs_check (rules child) act subj \<longrightarrow> covered isM isGlob parent child act subj)"
proof -
  let ?st = "fold (boundary_step isM isGlob parent child) (rules child) ([], [])"
  have inv: "walk_inv isM isGlob parent child (rules child) ?st" by (rule walk_inv_all)
  have cf: "needs_check (rules child) act subj \<Longrightarrow> CHR '':'' \<notin> set act" for act subj
    using assms by (auto simp: colon_free_def needs_check_def list_all_iff list_ex_iff)
  have valid: "validatePermissionBoundary isM isGlob parent child = ValidBoundary \<longleftrightarrow> snd ?st = []"
    by (simp add: validatePermissionBoundary_def Let_def)
  show ?thesis
  proof
    assume "validatePermissionBoundary isM isGlob parent child = ValidBoundary"
    with valid have none: "snd ?st = []" by simp
    show "\<forall>act subj. needs_check (rules child) act subj \<longrightarrow> covered isM isGlob parent child act subj"
    proof (intro allI impI)
      fix act subj assume nc: "needs_check (rules child) act subj"
      with inv have "getPermissionSetID act subj \<in> set (fst ?st)" unfolding walk_inv_def by blast
      with inv none obtain act' subj' where "needs_check (rules child) act' subj'"
        "getPermissionSetID act subj = getPermissionSetID act' subj'"
        "missing_for_action isM isGlob parent child subj' act' = []"
        unfolding walk_inv_def by fastforce
      with getPermissionSetID_inject cf nc show "covered isM isGlob parent child act subj"
        unfolding covered_def by metis
    qed
  next
    assume "\<forall>act subj. needs_check (rules child) act subj \<longrightarrow> covered isM isGlob parent child act subj"
    then have "m \<notin> set (snd ?st)" for m using inv unfolding walk_inv_def covered_def
      by (metis empty_iff empty_set)
    then have "snd ?st = []" by (metis list.set_intros(1) neq_Nil_conv)
    with valid show "validatePermissionBoundary isM isGlob parent child = ValidBoundary" by simp
  qed
qed

lemma missing_for_action_names:
  "m \<in> set (missing_for_action isM isGlob parent child subj act) \<Longrightarrow>
     missing_action m = act \<and> missing_subject m = subj"
  by (auto simp: missing_for_action_def Let_def split: if_splits)

text \<open>The pairs that a walk reports are exactly the checked ones that are not covered.\<close>

lemma reported_pairs:
  assumes "colon_free (rules child)"
  shows "(\<lambda>m. (missing_action m, missing_subject m)) ` set (snd (fold (boundary_step isM isGlob parent child) (rules child) ([], []))) =
     {(a, s). needs_check (rules child) a s \<and> \<not> covered isM isGlob parent child a s}"
    (is "?pair ` set (snd ?st) = ?R")
proof (intro equalityI subsetI)
  have inv: "walk_inv isM isGlob parent child (rules child) ?st" by (rule walk_inv_all)
  fix x assume "x \<in> ?pair ` set (snd ?st)"
  then obtain m where m: "m \<in> set (snd ?st)" "x = ?pair m" by auto
  with inv obtain a s where "needs_check (rules child) a s"
    "m \<in> set (missing_for_action isM isGlob parent child s a)"
    unfolding walk_inv_def by blast
  with m missing_for_action_names [OF this(2)] show "x \<in> ?R"
    by (auto simp: covered_def)
next
  have inv: "walk_inv isM isGlob parent child (rules child) ?st" by (rule walk_inv_all)
  have cf: "needs_check (rules child) a s \<Longrightarrow> CHR '':'' \<notin> set a" for a s
    using assms by (auto simp: colon_free_def needs_check_def list_all_iff list_ex_iff)
  fix x assume "x \<in> ?R"
  then obtain a s where x: "x = (a, s)" "needs_check (rules child) a s"
    "missing_for_action isM isGlob parent child s a \<noteq> []"
    by (auto simp: covered_def)
  with inv have "getPermissionSetID a s \<in> set (fst ?st)" unfolding walk_inv_def by blast
  with inv obtain a' s' where a's': "needs_check (rules child) a' s'"
    "getPermissionSetID a s = getPermissionSetID a' s'"
    "set (missing_for_action isM isGlob parent child s' a') \<subseteq> set (snd ?st)"
    unfolding walk_inv_def by blast
  with getPermissionSetID_inject [OF a's'(2)] cf x have same: "a' = a" "s' = s" by blast+
  from x(3) obtain m where "m \<in> set (missing_for_action isM isGlob parent child s a)"
    by (cases "missing_for_action isM isGlob parent child s a") auto
  with a's'(3) same missing_for_action_names [OF this] x(1) show "x \<in> ?pair ` set (snd ?st)"
    by (auto intro!: image_eqI [of _ _ m])
qed
section \<open>Properties\<close>

lemma rooted_outer:
  assumes "list_all (wf_rule isGlob) ps" "p \<in> set ps" "conditions p = Some cs" "(f, c) \<in> set cs"
    "glob_op (formatConditionOperator c) = Some g"
  shows "rooted g"
  using assms(1,2,5) wf_rule_cond [OF _ assms(3,4), of isGlob] by (auto simp: list_all_iff wf_ops_def)

lemma covered_sound:
  assumes laws: "picomatch_laws isM isGlob" and cov: "covered isM isGlob parent child act subj"
    and wfp: "list_all (wf_rule isGlob) (possibleRulesFor parent act subj)"
    and wfc: "list_all (wf_rule isGlob) (possibleRulesFor child act subj)"
    and g: "g \<in> set (possibleRulesFor child act subj)"
    and m: "rule_matches isM om g obj" and v: "\<forall>f. plain_value (obj f)"
  shows "(\<exists>p \<in> set (possibleRulesFor parent act subj). \<not> inverted p \<and> rule_matches isM om p obj) \<and>
         (\<forall>p \<in> set (possibleRulesFor parent act subj). inverted p \<longrightarrow> \<not> rule_matches isM om p obj)"
proof -
  let ?ps = "possibleRulesFor parent act subj"
  from cov consider "list_ex (\<lambda>r. \<not> inverted r) ?ps" "list_all (\<lambda>r. \<not> inverted r \<and> conditions r = None) ?ps"
    | "list_all (rule_within isM isGlob ?ps) (possibleRulesFor child act subj)"
    by (auto simp: covered_iff Let_def)
  then show ?thesis
  proof cases
    case 1
    then show ?thesis by (auto simp: list_ex_iff list_all_iff rule_matches_def)
  next
    case 2
    with g have w: "rule_within isM isGlob ?ps g" by (simp add: list_all_iff)
    from wfc g have wfg: "wf_rule isGlob g" by (simp add: list_all_iff)
    from wfp have pg: "list_all (rule_globs_in plain_glob) ?ps"
      by (auto simp: list_all_iff intro: wf_rule_plain_globs)
    note sound = glob_containment.rule_within_sound
      [OF picomatch_containment [OF laws] w wfp wfg _ pg wf_rule_plain_globs [OF wfg] m]
    from sound rooted_outer [OF wfp] v show ?thesis by blast
  qed
qed


text \<open>Two small abilities: the rules of an action and subject are those that name both.\<close>

definition direct_ability :: "rule list \<Rightarrow> ability" where
  "direct_ability rs =
     \<lparr>rules = rs,
      possibleRulesFor = (\<lambda>a s. filter (\<lambda>r. a \<in> set (action_list (rule_action r)) \<and>
                                          rule_subject r = OneSubject s) rs)\<rparr>"

definition example_rule :: "bool \<Rightarrow> conditions option \<Rightarrow> rule" where
  "example_rule neg cs =
     \<lparr>rule_action = OneAction ''read'', rule_subject = OneSubject ''secrets'',
      inverted = neg, conditions = cs\<rparr>"

definition example_parent :: ability where
  "example_parent = direct_ability
     [example_rule False (Some [(''environment'', Plain ''dev''),
                                (''secretPath'', Ops (no_ops\<lparr>glob_op := Some ''/apps/**''\<rparr>))]),
      example_rule True (Some [(''secretPath'', Ops (no_ops\<lparr>eq_op := Some ''/apps/vault''\<rparr>))])]"

definition example_child :: ability where
  "example_child = direct_ability
     [example_rule False (Some [(''environment'', Plain ''dev''),
                                (''secretPath'', Ops (no_ops\<lparr>in_op := Some [''/apps/web'', ''/apps/db'']\<rparr>))])]"

definition example_object :: "string \<Rightarrow> string" where
  "example_object f = (if f = ''secretPath'' then ''/apps/web'' else ''dev'')"

lemma wf_ability_example:
  "wf_ability wildcard_glob example_parent" "wf_ability wildcard_glob example_child"
  by (auto simp: wf_ability_def example_parent_def example_child_def direct_ability_def example_rule_def
      wf_rule_def wf_ops_def formatConditionOperator_def no_ops_def action_list_def list_all_iff)
    (code_simp)+


text \<open>
  The verdict depends on nothing but the actions the child's rules name: the child is within
  the boundary exactly when every action and subject of its rules, but for the ignored ones, is
  covered on its own. Walking the rules in order and skipping what was already checked loses
  nothing.
\<close>

theorem boundary_valid_iff_all_covered:
  assumes "colon_free (rules child)"
  shows "validatePermissionBoundary isM isGlob parent child = ValidBoundary \<longleftrightarrow>
     (\<forall>act subj. needs_check (rules child) act subj \<longrightarrow> covered isM isGlob parent child act subj)"
  by (rule validate_covered [OF assms])

theorem boundary_valid_iff_all_covered_witness:
  "validatePermissionBoundary (\<lambda>v g. False) (\<lambda>g. False) example_parent example_parent = ValidBoundary \<longleftrightarrow>
     (\<forall>act subj. needs_check (rules example_parent) act subj \<longrightarrow>
        covered (\<lambda>v g. False) (\<lambda>g. False) example_parent example_parent act subj)"
  by (rule boundary_valid_iff_all_covered) code_simp

text \<open>
  A refusal is never spurious. Every missing permission that is reported names an action and a
  subject of one of the child's rules, one that is not ignored and that the parent does not cover,
  and a refusal reports at least one.
\<close>

theorem boundary_reports_are_genuine:
  assumes "validatePermissionBoundary isM isGlob parent child = InvalidBoundary ms"
  shows "ms \<noteq> [] \<and> (\<forall>m \<in> set ms. needs_check (rules child) (missing_action m) (missing_subject m) \<and>
           \<not> covered isM isGlob parent child (missing_action m) (missing_subject m))"
proof -
  let ?st = "fold (boundary_step isM isGlob parent child) (rules child) ([], [])"
  from assms have ms: "ms = snd ?st" "ms \<noteq> []"
    by (auto simp: validatePermissionBoundary_def Let_def split: if_splits)
  have own: "m \<in> set (missing_for_action isM isGlob parent child subj act) \<Longrightarrow>
      missing_action m = act \<and> missing_subject m = subj \<and> \<not> covered isM isGlob parent child act subj"
    for m act subj
    by (auto simp: missing_for_action_def covered_def Let_def split: if_splits)
  from ms own walk_inv_all [of isM isGlob parent child "rules child"] show ?thesis
    unfolding walk_inv_def by metis
qed

theorem boundary_reports_are_genuine_witness:
  "needs_check (rules example_child) ''read'' ''secrets'' \<and>
   \<not> covered (\<lambda>v g. False) (\<lambda>g. False) (direct_ability []) example_child ''read'' ''secrets''"
proof -
  have "validatePermissionBoundary (\<lambda>v g. False) (\<lambda>g. False) (direct_ability []) example_child =
      InvalidBoundary [\<lparr>missing_action = ''read'', missing_subject = ''secrets'', missing_conditions = None\<rparr>]"
    by code_simp
  from boundary_reports_are_genuine [OF this] show ?thesis by simp
qed

text \<open>A rule whose conditions each carry one operator of the four, with an operand that is not empty.\<close>

definition single_op :: "condition_ops \<Rightarrow> bool" where
  "single_op ops \<longleftrightarrow>
     (\<exists>s. s \<noteq> [] \<and> ops \<in> {no_ops\<lparr>eq_op := Some s\<rparr>, no_ops\<lparr>neq_op := Some s\<rparr>, no_ops\<lparr>glob_op := Some s\<rparr>}) \<or>
     (\<exists>xs. ops = no_ops\<lparr>in_op := Some xs\<rparr>)"

lemma single_op_reflexive: "single_op ops \<Longrightarrow> isOperatorsASubset isM isGlob ops ops"
  by (auto simp: single_op_def isOperatorsASubset_def eq_neq_subset_def in_subset_def glob_subset_def
      has_other_key_than_glob_neq_def invertTheOperation_def no_ops_def isGlobSubsetOfGlob_def list_all_iff)

definition simple_rule :: "rule \<Rightarrow> bool" where
  "simple_rule r \<longleftrightarrow> \<not> inverted r \<and>
     (\<forall>cs. conditions r = Some cs \<longrightarrow> distinct (map fst cs) \<and>
        (\<forall>(f, c) \<in> set cs. single_op (formatConditionOperator c)))"

lemma simple_rule_within_itself:
  assumes "simple_rule r" "r \<in> set ps" "list_all simple_rule ps"
  shows "rule_within isM isGlob ps r"
proof -
  have sp: "subset_of_parent_rule isM isGlob (conditions r) r"
  proof (cases "conditions r")
    case (Some cs)
    have "lookup_cond (conditions r) f = Some c \<and>
        isOperatorsASubset isM isGlob (formatConditionOperator c) (formatConditionOperator c)"
      if fc: "(f, c) \<in> set cs" for f c
    proof -
      from assms(1) Some fc have so: "single_op (formatConditionOperator c)" and "distinct (map fst cs)"
        by (auto simp: simple_rule_def)
      moreover from so have "c \<noteq> Plain []"
        by (auto simp: single_op_def formatConditionOperator_def no_ops_def)
      ultimately show ?thesis
        using Some fc single_op_reflexive [OF so] by (auto simp: lookup_cond_def)
    qed
    with Some show ?thesis by (auto simp: subset_of_parent_rule_def list_all_iff)
  qed (simp add: subset_of_parent_rule_def)
  from assms(3) have "filter inverted ps = []" "\<not> inverted r"
    using assms(1) by (auto simp: list_all_iff simple_rule_def filter_empty_conv)
  with sp assms(2) show ?thesis by (auto simp: rule_within_def list_ex_iff)
qed

text \<open>
  an ability is within its own boundary. When no rule denies and every condition carries one
  operator, a caller may hand out exactly what it holds, whatever the glob library answers.
\<close>

theorem boundary_reflexive:
  assumes "colon_free (rules ab)"
    and "\<forall>act subj. list_all simple_rule (possibleRulesFor ab act subj)"
    and "\<forall>act subj. needs_check (rules ab) act subj \<longrightarrow> possibleRulesFor ab act subj \<noteq> []"
  shows "validatePermissionBoundary isM isGlob ab ab = ValidBoundary"
proof -
  have "covered isM isGlob ab ab act subj" if nc: "needs_check (rules ab) act subj" for act subj
  proof -
    from assms(2) have sr: "list_all simple_rule (possibleRulesFor ab act subj)" by blast
    with assms(3) nc have "list_ex (\<lambda>r. \<not> inverted r) (possibleRulesFor ab act subj)"
      by (cases "possibleRulesFor ab act subj") (auto simp: simple_rule_def)
    moreover from sr have "list_all (rule_within isM isGlob (possibleRulesFor ab act subj)) (possibleRulesFor ab act subj)"
      by (auto simp: list_all_iff intro: simple_rule_within_itself)
    ultimately show ?thesis by (simp add: covered_iff)
  qed
  with assms(1) show ?thesis by (simp add: validate_covered)
qed

lemma example_child_simple:
  "\<forall>act subj. list_all simple_rule (possibleRulesFor example_child act subj)"
  by (auto simp: example_child_def direct_ability_def example_rule_def simple_rule_def single_op_def
      formatConditionOperator_def)

theorem boundary_reflexive_witness:
  "validatePermissionBoundary (\<lambda>v g. False) (\<lambda>g. True) example_child example_child = ValidBoundary"
proof (rule boundary_reflexive [OF _ example_child_simple])
  show "colon_free (rules example_child)" by code_simp
  show "\<forall>act subj. needs_check (rules example_child) act subj \<longrightarrow> possibleRulesFor example_child act subj \<noteq> []"
    by (auto simp: needs_check_def example_child_def direct_ability_def example_rule_def action_list_def
        subject_toString_def)
qed

text \<open>
  conditions on \<open>$elemMatch\<close> (and \<open>$all\<close>) are not compared. A parent that may read the dynamic
  secrets with one metadata entry only passes a child that may read those with any other metadata
  entry: the check accepts whatever the two operands are, and whatever the glob library answers.
\<close>

definition metadata_ability :: "string \<Rightarrow> ability" where
  "metadata_ability operand = direct_ability
     [\<lparr>rule_action = OneAction ''read-root-credential'', rule_subject = OneSubject ''dynamic-secrets'',
       inverted = False,
       conditions = Some [(''metadata'', Ops (no_ops\<lparr>other_ops := [(''$elemMatch'', operand)]\<rparr>))]\<rparr>]"

theorem boundary_ignores_elem_match:
  "validatePermissionBoundary isM isGlob (metadata_ability a) (metadata_ability b) = ValidBoundary"
  by (simp add: validatePermissionBoundary_def boundary_step_def metadata_ability_def direct_ability_def
      action_list_def subject_toString_def missing_for_action_def IGNORED_PERMISSIONS_def
      getPermissionSetID_def isSubsetForSamePermissionSubjectAction_def rule_within_def
      subset_of_parent_rule_def lookup_cond_def formatConditionOperator_def isOperatorsASubset_def
      eq_neq_subset_def in_subset_def glob_subset_def no_ops_def)

end
