(* ===== verification/PermissionEnums.thy ===== *)
theory PermissionEnums
  imports Prelude
begin

text \<open>
  The vocabulary of project permissions: the string enumerations of
  \<open>backend/src/ee/services/permission/project-permission.ts\<close> and \<open>resource-permission.ts\<close>,
  each one a datatype with the members in the order of the source and the function that gives
  the string a member stands for. Several enumerations share member names, so a member is
  written with its enumeration as in the source (\<open>ProjectPermissionSecretActions.ReadValue\<close>).
\<close>

section \<open>Project permissions\<close>

datatype (plugins only: code) ProjectPermissionActions =
    Read
  | Create
  | Edit
  | Delete

primrec projectActions :: "ProjectPermissionActions \<Rightarrow> string" where
  "projectActions ProjectPermissionActions.Read = ''read''"
| "projectActions ProjectPermissionActions.Create = ''create''"
| "projectActions ProjectPermissionActions.Edit = ''edit''"
| "projectActions ProjectPermissionActions.Delete = ''delete''"

datatype (plugins only: code) ProjectPermissionSecretFolderActions =
    ManageAccess

primrec secretFolderActions :: "ProjectPermissionSecretFolderActions \<Rightarrow> string" where
  "secretFolderActions ProjectPermissionSecretFolderActions.ManageAccess = ''manage-access''"

datatype (plugins only: code) ProjectPermissionCommitsActions =
    Read
  | PerformRollback

primrec commitsActions :: "ProjectPermissionCommitsActions \<Rightarrow> string" where
  "commitsActions ProjectPermissionCommitsActions.Read = ''read''"
| "commitsActions ProjectPermissionCommitsActions.PerformRollback = ''perform-rollback''"

datatype (plugins only: code) ProjectPermissionCertificateAuthorityActions =
    Read
  | Create
  | Edit
  | Delete
  | IssueCACertificate
  | SignIntermediate

primrec certificateAuthorityActions :: "ProjectPermissionCertificateAuthorityActions \<Rightarrow> string" where
  "certificateAuthorityActions ProjectPermissionCertificateAuthorityActions.Read = ''read''"
| "certificateAuthorityActions ProjectPermissionCertificateAuthorityActions.Create = ''create''"
| "certificateAuthorityActions ProjectPermissionCertificateAuthorityActions.Edit = ''edit''"
| "certificateAuthorityActions ProjectPermissionCertificateAuthorityActions.Delete = ''delete''"
| "certificateAuthorityActions ProjectPermissionCertificateAuthorityActions.IssueCACertificate = ''issue-ca-certificate''"
| "certificateAuthorityActions ProjectPermissionCertificateAuthorityActions.SignIntermediate = ''sign-intermediate''"

datatype (plugins only: code) ProjectPermissionCertificateActions =
    Read
  | Create
  | Edit
  | Delete
  | ReadPrivateKey
  | Import

primrec certificateActions :: "ProjectPermissionCertificateActions \<Rightarrow> string" where
  "certificateActions ProjectPermissionCertificateActions.Read = ''read''"
| "certificateActions ProjectPermissionCertificateActions.Create = ''create''"
| "certificateActions ProjectPermissionCertificateActions.Edit = ''edit''"
| "certificateActions ProjectPermissionCertificateActions.Delete = ''delete''"
| "certificateActions ProjectPermissionCertificateActions.ReadPrivateKey = ''read-private-key''"
| "certificateActions ProjectPermissionCertificateActions.Import = ''import''"

datatype (plugins only: code) ProjectPermissionSecretActions =
    DescribeAndReadValue
  | DescribeSecret
  | ReadValue
  | Create
  | Edit
  | Delete

primrec secretActions :: "ProjectPermissionSecretActions \<Rightarrow> string" where
  "secretActions ProjectPermissionSecretActions.DescribeAndReadValue = ''read''"
| "secretActions ProjectPermissionSecretActions.DescribeSecret = ''describeSecret''"
| "secretActions ProjectPermissionSecretActions.ReadValue = ''readValue''"
| "secretActions ProjectPermissionSecretActions.Create = ''create''"
| "secretActions ProjectPermissionSecretActions.Edit = ''edit''"
| "secretActions ProjectPermissionSecretActions.Delete = ''delete''"

datatype (plugins only: code) ProjectPermissionCmekActions =
    Read
  | Create
  | Edit
  | Delete
  | Encrypt
  | Decrypt
  | Sign
  | Verify
  | GenerateMac
  | VerifyMac
  | Rotate
  | ExportPrivateKey

primrec cmekActions :: "ProjectPermissionCmekActions \<Rightarrow> string" where
  "cmekActions ProjectPermissionCmekActions.Read = ''read''"
| "cmekActions ProjectPermissionCmekActions.Create = ''create''"
| "cmekActions ProjectPermissionCmekActions.Edit = ''edit''"
| "cmekActions ProjectPermissionCmekActions.Delete = ''delete''"
| "cmekActions ProjectPermissionCmekActions.Encrypt = ''encrypt''"
| "cmekActions ProjectPermissionCmekActions.Decrypt = ''decrypt''"
| "cmekActions ProjectPermissionCmekActions.Sign = ''sign''"
| "cmekActions ProjectPermissionCmekActions.Verify = ''verify''"
| "cmekActions ProjectPermissionCmekActions.GenerateMac = ''generate-mac''"
| "cmekActions ProjectPermissionCmekActions.VerifyMac = ''verify-mac''"
| "cmekActions ProjectPermissionCmekActions.Rotate = ''rotate''"
| "cmekActions ProjectPermissionCmekActions.ExportPrivateKey = ''export-private-key''"

datatype (plugins only: code) ProjectPermissionDynamicSecretActions =
    ReadRootCredential
  | CreateRootCredential
  | EditRootCredential
  | DeleteRootCredential
  | Lease

primrec dynamicSecretActions :: "ProjectPermissionDynamicSecretActions \<Rightarrow> string" where
  "dynamicSecretActions ProjectPermissionDynamicSecretActions.ReadRootCredential = ''read-root-credential''"
| "dynamicSecretActions ProjectPermissionDynamicSecretActions.CreateRootCredential = ''create-root-credential''"
| "dynamicSecretActions ProjectPermissionDynamicSecretActions.EditRootCredential = ''edit-root-credential''"
| "dynamicSecretActions ProjectPermissionDynamicSecretActions.DeleteRootCredential = ''delete-root-credential''"
| "dynamicSecretActions ProjectPermissionDynamicSecretActions.Lease = ''lease''"

datatype (plugins only: code) ProjectPermissionIdentityActions =
    Read
  | Create
  | Edit
  | Delete
  | GrantPrivileges
  | AssignRole
  | AssignAdditionalPrivileges
  | AssumePrivileges
  | RevokeAuth
  | EditAuth
  | CreateToken
  | GetToken
  | DeleteToken

primrec identityActions :: "ProjectPermissionIdentityActions \<Rightarrow> string" where
  "identityActions ProjectPermissionIdentityActions.Read = ''read''"
| "identityActions ProjectPermissionIdentityActions.Create = ''create''"
| "identityActions ProjectPermissionIdentityActions.Edit = ''edit''"
| "identityActions ProjectPermissionIdentityActions.Delete = ''delete''"
| "identityActions ProjectPermissionIdentityActions.GrantPrivileges = ''grant-privileges''"
| "identityActions ProjectPermissionIdentityActions.AssignRole = ''assign-role''"
| "identityActions ProjectPermissionIdentityActions.AssignAdditionalPrivileges = ''assign-additional-privileges''"
| "identityActions ProjectPermissionIdentityActions.AssumePrivileges = ''assume-privileges''"
| "identityActions ProjectPermissionIdentityActions.RevokeAuth = ''revoke-auth''"
| "identityActions ProjectPermissionIdentityActions.EditAuth = ''edit-auth''"
| "identityActions ProjectPermissionIdentityActions.CreateToken = ''create-token''"
| "identityActions ProjectPermissionIdentityActions.GetToken = ''get-token''"
| "identityActions ProjectPermissionIdentityActions.DeleteToken = ''delete-token''"

datatype (plugins only: code) ProjectPermissionMemberActions =
    Read
  | Create
  | Edit
  | Delete
  | GrantPrivileges
  | AssignRole
  | AssignAdditionalPrivileges
  | AssumePrivileges

primrec memberActions :: "ProjectPermissionMemberActions \<Rightarrow> string" where
  "memberActions ProjectPermissionMemberActions.Read = ''read''"
| "memberActions ProjectPermissionMemberActions.Create = ''create''"
| "memberActions ProjectPermissionMemberActions.Edit = ''edit''"
| "memberActions ProjectPermissionMemberActions.Delete = ''delete''"
| "memberActions ProjectPermissionMemberActions.GrantPrivileges = ''grant-privileges''"
| "memberActions ProjectPermissionMemberActions.AssignRole = ''assign-role''"
| "memberActions ProjectPermissionMemberActions.AssignAdditionalPrivileges = ''assign-additional-privileges''"
| "memberActions ProjectPermissionMemberActions.AssumePrivileges = ''assume-privileges''"

datatype (plugins only: code) ProjectPermissionGroupActions =
    Read
  | Create
  | Edit
  | Delete
  | GrantPrivileges
  | AssignRole

primrec groupActions :: "ProjectPermissionGroupActions \<Rightarrow> string" where
  "groupActions ProjectPermissionGroupActions.Read = ''read''"
| "groupActions ProjectPermissionGroupActions.Create = ''create''"
| "groupActions ProjectPermissionGroupActions.Edit = ''edit''"
| "groupActions ProjectPermissionGroupActions.Delete = ''delete''"
| "groupActions ProjectPermissionGroupActions.GrantPrivileges = ''grant-privileges''"
| "groupActions ProjectPermissionGroupActions.AssignRole = ''assign-role''"

datatype (plugins only: code) ProjectPermissionPkiTemplateActions =
    Read
  | Create
  | Edit
  | Delete
  | IssueCert
  | ListCerts

primrec pkiTemplateActions :: "ProjectPermissionPkiTemplateActions \<Rightarrow> string" where
  "pkiTemplateActions ProjectPermissionPkiTemplateActions.Read = ''read''"
| "pkiTemplateActions ProjectPermissionPkiTemplateActions.Create = ''create''"
| "pkiTemplateActions ProjectPermissionPkiTemplateActions.Edit = ''edit''"
| "pkiTemplateActions ProjectPermissionPkiTemplateActions.Delete = ''delete''"
| "pkiTemplateActions ProjectPermissionPkiTemplateActions.IssueCert = ''issue-cert''"
| "pkiTemplateActions ProjectPermissionPkiTemplateActions.ListCerts = ''list-certs''"

datatype (plugins only: code) ProjectPermissionCertificatePolicyActions =
    Read
  | Create
  | Edit
  | Delete

primrec certificatePolicyActions :: "ProjectPermissionCertificatePolicyActions \<Rightarrow> string" where
  "certificatePolicyActions ProjectPermissionCertificatePolicyActions.Read = ''read''"
| "certificatePolicyActions ProjectPermissionCertificatePolicyActions.Create = ''create''"
| "certificatePolicyActions ProjectPermissionCertificatePolicyActions.Edit = ''edit''"
| "certificatePolicyActions ProjectPermissionCertificatePolicyActions.Delete = ''delete''"

datatype (plugins only: code) ProjectPermissionPkiSubscriberActions =
    Read
  | Create
  | Edit
  | Delete
  | IssueCert
  | ListCerts

primrec pkiSubscriberActions :: "ProjectPermissionPkiSubscriberActions \<Rightarrow> string" where
  "pkiSubscriberActions ProjectPermissionPkiSubscriberActions.Read = ''read''"
| "pkiSubscriberActions ProjectPermissionPkiSubscriberActions.Create = ''create''"
| "pkiSubscriberActions ProjectPermissionPkiSubscriberActions.Edit = ''edit''"
| "pkiSubscriberActions ProjectPermissionPkiSubscriberActions.Delete = ''delete''"
| "pkiSubscriberActions ProjectPermissionPkiSubscriberActions.IssueCert = ''issue-cert''"
| "pkiSubscriberActions ProjectPermissionPkiSubscriberActions.ListCerts = ''list-certs''"

datatype (plugins only: code) ProjectPermissionCertificateProfileActions =
    Read
  | Create
  | Edit
  | Delete
  | IssueCert
  | RevealAcmeEabSecret
  | RotateAcmeEabSecret
  | ManageApplicationAttachments

primrec certificateProfileActions :: "ProjectPermissionCertificateProfileActions \<Rightarrow> string" where
  "certificateProfileActions ProjectPermissionCertificateProfileActions.Read = ''read''"
| "certificateProfileActions ProjectPermissionCertificateProfileActions.Create = ''create''"
| "certificateProfileActions ProjectPermissionCertificateProfileActions.Edit = ''edit''"
| "certificateProfileActions ProjectPermissionCertificateProfileActions.Delete = ''delete''"
| "certificateProfileActions ProjectPermissionCertificateProfileActions.IssueCert = ''issue-cert''"
| "certificateProfileActions ProjectPermissionCertificateProfileActions.RevealAcmeEabSecret = ''reveal-acme-eab-secret''"
| "certificateProfileActions ProjectPermissionCertificateProfileActions.RotateAcmeEabSecret = ''rotate-acme-eab-secret''"
| "certificateProfileActions ProjectPermissionCertificateProfileActions.ManageApplicationAttachments = ''manage-application-attachments''"

datatype (plugins only: code) ProjectPermissionApplicationActions =
    Read
  | List
  | Create

primrec applicationActions :: "ProjectPermissionApplicationActions \<Rightarrow> string" where
  "applicationActions ProjectPermissionApplicationActions.Read = ''read''"
| "applicationActions ProjectPermissionApplicationActions.List = ''list''"
| "applicationActions ProjectPermissionApplicationActions.Create = ''create''"

datatype (plugins only: code) ProjectPermissionSecretSyncActions =
    Read
  | Create
  | Edit
  | Delete
  | SyncSecrets
  | ImportSecrets
  | RemoveSecrets

primrec secretSyncActions :: "ProjectPermissionSecretSyncActions \<Rightarrow> string" where
  "secretSyncActions ProjectPermissionSecretSyncActions.Read = ''read''"
| "secretSyncActions ProjectPermissionSecretSyncActions.Create = ''create''"
| "secretSyncActions ProjectPermissionSecretSyncActions.Edit = ''edit''"
| "secretSyncActions ProjectPermissionSecretSyncActions.Delete = ''delete''"
| "secretSyncActions ProjectPermissionSecretSyncActions.SyncSecrets = ''sync-secrets''"
| "secretSyncActions ProjectPermissionSecretSyncActions.ImportSecrets = ''import-secrets''"
| "secretSyncActions ProjectPermissionSecretSyncActions.RemoveSecrets = ''remove-secrets''"

datatype (plugins only: code) ProjectPermissionPkiSyncActions =
    Read
  | Create
  | Edit
  | Delete
  | SyncCertificates
  | ImportCertificates
  | RemoveCertificates
  | SetPostSyncCommand
  | SetHealthCheckCommand

primrec pkiSyncActions :: "ProjectPermissionPkiSyncActions \<Rightarrow> string" where
  "pkiSyncActions ProjectPermissionPkiSyncActions.Read = ''read''"
| "pkiSyncActions ProjectPermissionPkiSyncActions.Create = ''create''"
| "pkiSyncActions ProjectPermissionPkiSyncActions.Edit = ''edit''"
| "pkiSyncActions ProjectPermissionPkiSyncActions.Delete = ''delete''"
| "pkiSyncActions ProjectPermissionPkiSyncActions.SyncCertificates = ''sync-certificates''"
| "pkiSyncActions ProjectPermissionPkiSyncActions.ImportCertificates = ''import-certificates''"
| "pkiSyncActions ProjectPermissionPkiSyncActions.RemoveCertificates = ''remove-certificates''"
| "pkiSyncActions ProjectPermissionPkiSyncActions.SetPostSyncCommand = ''set-post-sync-command''"
| "pkiSyncActions ProjectPermissionPkiSyncActions.SetHealthCheckCommand = ''set-health-check-command''"

datatype (plugins only: code) ProjectPermissionPkiDiscoveryActions =
    Read
  | Create
  | Edit
  | Delete
  | RunScan

primrec pkiDiscoveryActions :: "ProjectPermissionPkiDiscoveryActions \<Rightarrow> string" where
  "pkiDiscoveryActions ProjectPermissionPkiDiscoveryActions.Read = ''read''"
| "pkiDiscoveryActions ProjectPermissionPkiDiscoveryActions.Create = ''create''"
| "pkiDiscoveryActions ProjectPermissionPkiDiscoveryActions.Edit = ''edit''"
| "pkiDiscoveryActions ProjectPermissionPkiDiscoveryActions.Delete = ''delete''"
| "pkiDiscoveryActions ProjectPermissionPkiDiscoveryActions.RunScan = ''run-scan''"

datatype (plugins only: code) ProjectPermissionPkiCertificateInstallationActions =
    Read
  | Edit
  | Delete

primrec pkiCertificateInstallationActions :: "ProjectPermissionPkiCertificateInstallationActions \<Rightarrow> string" where
  "pkiCertificateInstallationActions ProjectPermissionPkiCertificateInstallationActions.Read = ''read''"
| "pkiCertificateInstallationActions ProjectPermissionPkiCertificateInstallationActions.Edit = ''edit''"
| "pkiCertificateInstallationActions ProjectPermissionPkiCertificateInstallationActions.Delete = ''delete''"

datatype (plugins only: code) ProjectPermissionCodeSigningActions =
    Read
  | Create
  | Edit
  | Delete
  | Sign

primrec codeSigningActions :: "ProjectPermissionCodeSigningActions \<Rightarrow> string" where
  "codeSigningActions ProjectPermissionCodeSigningActions.Read = ''read''"
| "codeSigningActions ProjectPermissionCodeSigningActions.Create = ''create''"
| "codeSigningActions ProjectPermissionCodeSigningActions.Edit = ''edit''"
| "codeSigningActions ProjectPermissionCodeSigningActions.Delete = ''delete''"
| "codeSigningActions ProjectPermissionCodeSigningActions.Sign = ''sign''"

datatype (plugins only: code) ProjectPermissionSecretRotationActions =
    Read
  | ReadGeneratedCredentials
  | Create
  | Edit
  | Delete
  | RotateSecrets

primrec secretRotationActions :: "ProjectPermissionSecretRotationActions \<Rightarrow> string" where
  "secretRotationActions ProjectPermissionSecretRotationActions.Read = ''read''"
| "secretRotationActions ProjectPermissionSecretRotationActions.ReadGeneratedCredentials = ''read-generated-credentials''"
| "secretRotationActions ProjectPermissionSecretRotationActions.Create = ''create''"
| "secretRotationActions ProjectPermissionSecretRotationActions.Edit = ''edit''"
| "secretRotationActions ProjectPermissionSecretRotationActions.Delete = ''delete''"
| "secretRotationActions ProjectPermissionSecretRotationActions.RotateSecrets = ''rotate-secrets''"

datatype (plugins only: code) ProjectPermissionKmipActions =
    CreateClients
  | UpdateClients
  | DeleteClients
  | ReadClients
  | GenerateClientCertificates

primrec kmipActions :: "ProjectPermissionKmipActions \<Rightarrow> string" where
  "kmipActions ProjectPermissionKmipActions.CreateClients = ''create-clients''"
| "kmipActions ProjectPermissionKmipActions.UpdateClients = ''update-clients''"
| "kmipActions ProjectPermissionKmipActions.DeleteClients = ''delete-clients''"
| "kmipActions ProjectPermissionKmipActions.ReadClients = ''read-clients''"
| "kmipActions ProjectPermissionKmipActions.GenerateClientCertificates = ''generate-client-certificates''"

datatype (plugins only: code) ProjectPermissionSecretScanningDataSourceActions =
    Read
  | Create
  | Edit
  | Delete
  | TriggerScans
  | ReadScans
  | ReadResources

primrec secretScanningDataSourceActions :: "ProjectPermissionSecretScanningDataSourceActions \<Rightarrow> string" where
  "secretScanningDataSourceActions ProjectPermissionSecretScanningDataSourceActions.Read = ''read-data-sources''"
| "secretScanningDataSourceActions ProjectPermissionSecretScanningDataSourceActions.Create = ''create-data-sources''"
| "secretScanningDataSourceActions ProjectPermissionSecretScanningDataSourceActions.Edit = ''edit-data-sources''"
| "secretScanningDataSourceActions ProjectPermissionSecretScanningDataSourceActions.Delete = ''delete-data-sources''"
| "secretScanningDataSourceActions ProjectPermissionSecretScanningDataSourceActions.TriggerScans = ''trigger-data-source-scans''"
| "secretScanningDataSourceActions ProjectPermissionSecretScanningDataSourceActions.ReadScans = ''read-data-source-scans''"
| "secretScanningDataSourceActions ProjectPermissionSecretScanningDataSourceActions.ReadResources = ''read-data-source-resources''"

datatype (plugins only: code) ProjectPermissionAppConnectionActions =
    Read
  | Create
  | Edit
  | Delete
  | Connect
  | RotateCredentials

primrec appConnectionActions :: "ProjectPermissionAppConnectionActions \<Rightarrow> string" where
  "appConnectionActions ProjectPermissionAppConnectionActions.Read = ''read-app-connections''"
| "appConnectionActions ProjectPermissionAppConnectionActions.Create = ''create-app-connections''"
| "appConnectionActions ProjectPermissionAppConnectionActions.Edit = ''edit-app-connections''"
| "appConnectionActions ProjectPermissionAppConnectionActions.Delete = ''delete-app-connections''"
| "appConnectionActions ProjectPermissionAppConnectionActions.Connect = ''connect-app-connections''"
| "appConnectionActions ProjectPermissionAppConnectionActions.RotateCredentials = ''rotate-credentials''"

datatype (plugins only: code) ProjectPermissionHsmConnectorActions =
    Read
  | Create
  | Edit
  | Delete
  | Test
  | Attach

primrec hsmConnectorActions :: "ProjectPermissionHsmConnectorActions \<Rightarrow> string" where
  "hsmConnectorActions ProjectPermissionHsmConnectorActions.Read = ''read-hsm-connectors''"
| "hsmConnectorActions ProjectPermissionHsmConnectorActions.Create = ''create-hsm-connectors''"
| "hsmConnectorActions ProjectPermissionHsmConnectorActions.Edit = ''edit-hsm-connectors''"
| "hsmConnectorActions ProjectPermissionHsmConnectorActions.Delete = ''delete-hsm-connectors''"
| "hsmConnectorActions ProjectPermissionHsmConnectorActions.Test = ''test-hsm-connectors''"
| "hsmConnectorActions ProjectPermissionHsmConnectorActions.Attach = ''attach-hsm-connectors''"

datatype (plugins only: code) ProjectPermissionSecretScanningFindingActions =
    Read
  | Update

primrec secretScanningFindingActions :: "ProjectPermissionSecretScanningFindingActions \<Rightarrow> string" where
  "secretScanningFindingActions ProjectPermissionSecretScanningFindingActions.Read = ''read-findings''"
| "secretScanningFindingActions ProjectPermissionSecretScanningFindingActions.Update = ''update-findings''"

datatype (plugins only: code) ProjectPermissionSecretScanningConfigActions =
    Read
  | Update

primrec secretScanningConfigActions :: "ProjectPermissionSecretScanningConfigActions \<Rightarrow> string" where
  "secretScanningConfigActions ProjectPermissionSecretScanningConfigActions.Read = ''read-configs''"
| "secretScanningConfigActions ProjectPermissionSecretScanningConfigActions.Update = ''update-configs''"

datatype (plugins only: code) ProjectPermissionSecretEventActions =
    SubscribeToCreationEvents
  | SubscribeToUpdateEvents
  | SubscribeToDeleteEvents
  | SubscribeToImportMutationEvents

primrec secretEventActions :: "ProjectPermissionSecretEventActions \<Rightarrow> string" where
  "secretEventActions ProjectPermissionSecretEventActions.SubscribeToCreationEvents = ''subscribe-to-creation-events''"
| "secretEventActions ProjectPermissionSecretEventActions.SubscribeToUpdateEvents = ''subscribe-to-update-events''"
| "secretEventActions ProjectPermissionSecretEventActions.SubscribeToDeleteEvents = ''subscribe-to-deletion-events''"
| "secretEventActions ProjectPermissionSecretEventActions.SubscribeToImportMutationEvents = ''subscribe-to-import-mutation-events''"

datatype (plugins only: code) ProjectPermissionAuditLogsActions =
    Read

primrec auditLogsActions :: "ProjectPermissionAuditLogsActions \<Rightarrow> string" where
  "auditLogsActions ProjectPermissionAuditLogsActions.Read = ''read''"

datatype (plugins only: code) ProjectPermissionInsightsActions =
    Read
  | GenerateReport
  | DeleteReport

primrec insightsActions :: "ProjectPermissionInsightsActions \<Rightarrow> string" where
  "insightsActions ProjectPermissionInsightsActions.Read = ''read''"
| "insightsActions ProjectPermissionInsightsActions.GenerateReport = ''generate-report''"
| "insightsActions ProjectPermissionInsightsActions.DeleteReport = ''delete-report''"

datatype (plugins only: code) ProjectPermissionHoneyTokenActions =
    Read
  | ReadCredentials
  | Create
  | Edit
  | Reset
  | Revoke

primrec honeyTokenActions :: "ProjectPermissionHoneyTokenActions \<Rightarrow> string" where
  "honeyTokenActions ProjectPermissionHoneyTokenActions.Read = ''read''"
| "honeyTokenActions ProjectPermissionHoneyTokenActions.ReadCredentials = ''read-credentials''"
| "honeyTokenActions ProjectPermissionHoneyTokenActions.Create = ''create''"
| "honeyTokenActions ProjectPermissionHoneyTokenActions.Edit = ''edit''"
| "honeyTokenActions ProjectPermissionHoneyTokenActions.Reset = ''reset''"
| "honeyTokenActions ProjectPermissionHoneyTokenActions.Revoke = ''revoke''"

datatype (plugins only: code) ProjectPermissionProxiedServiceActions =
    Read
  | Create
  | Edit
  | Delete
  | Proxy
  | ReportUsage

primrec proxiedServiceActions :: "ProjectPermissionProxiedServiceActions \<Rightarrow> string" where
  "proxiedServiceActions ProjectPermissionProxiedServiceActions.Read = ''read''"
| "proxiedServiceActions ProjectPermissionProxiedServiceActions.Create = ''create''"
| "proxiedServiceActions ProjectPermissionProxiedServiceActions.Edit = ''edit''"
| "proxiedServiceActions ProjectPermissionProxiedServiceActions.Delete = ''delete''"
| "proxiedServiceActions ProjectPermissionProxiedServiceActions.Proxy = ''proxy''"
| "proxiedServiceActions ProjectPermissionProxiedServiceActions.ReportUsage = ''report-usage''"

datatype (plugins only: code) ProjectPermissionApprovalRequestActions =
    Read
  | Create

primrec approvalRequestActions :: "ProjectPermissionApprovalRequestActions \<Rightarrow> string" where
  "approvalRequestActions ProjectPermissionApprovalRequestActions.Read = ''read''"
| "approvalRequestActions ProjectPermissionApprovalRequestActions.Create = ''create''"

datatype (plugins only: code) ProjectPermissionApprovalRequestGrantActions =
    Read
  | Revoke

primrec approvalRequestGrantActions :: "ProjectPermissionApprovalRequestGrantActions \<Rightarrow> string" where
  "approvalRequestGrantActions ProjectPermissionApprovalRequestGrantActions.Read = ''read''"
| "approvalRequestGrantActions ProjectPermissionApprovalRequestGrantActions.Revoke = ''revoke''"

datatype (plugins only: code) ProjectPermissionProjectFolderGrantActions =
    ReadGrant
  | CreateGrant
  | RevokeGrant

primrec projectFolderGrantActions :: "ProjectPermissionProjectFolderGrantActions \<Rightarrow> string" where
  "projectFolderGrantActions ProjectPermissionProjectFolderGrantActions.ReadGrant = ''read-grant''"
| "projectFolderGrantActions ProjectPermissionProjectFolderGrantActions.CreateGrant = ''create-grant''"
| "projectFolderGrantActions ProjectPermissionProjectFolderGrantActions.RevokeGrant = ''revoke-grant''"

datatype (plugins only: code) ProjectPermissionSecretApprovalRequestActions =
    Read

primrec secretApprovalRequestActions :: "ProjectPermissionSecretApprovalRequestActions \<Rightarrow> string" where
  "secretApprovalRequestActions ProjectPermissionSecretApprovalRequestActions.Read = ''read''"

datatype (plugins only: code) ProjectPermissionSub =
    Role
  | Member
  | Groups
  | Settings
  | Integrations
  | Webhooks
  | ServiceTokens
  | Environments
  | Tags
  | AuditLogs
  | IpAllowList
  | Project
  | Secrets
  | SecretFolders
  | SecretImports
  | DynamicSecrets
  | SecretRollback
  | SecretApproval
  | SecretApprovalRequest
  | SecretRotation
  | Commits
  | Identity
  | CertificateAuthorities
  | Certificates
  | CertificateTemplates
  | PkiSubscribers
  | PkiAlerts
  | PkiCollections
  | CertificateInventoryViews
  | Kms
  | Cmek
  | SecretSyncs
  | PkiSyncs
  | PkiDiscovery
  | PkiCertificateInstallations
  | CodeSigners
  | Kmip
  | SecretScanningDataSources
  | SecretScanningFindings
  | SecretScanningConfigs
  | SecretEventSubscriptions
  | AppConnections
  | HsmConnectors
  | CertificateProfiles
  | CertificatePolicies
  | Application
  | ApprovalRequests
  | ApprovalRequestGrants
  | ProjectFolderGrant
  | HoneyTokens
  | ProxiedServices
  | Insights

primrec projectSub :: "ProjectPermissionSub \<Rightarrow> string" where
  "projectSub ProjectPermissionSub.Role = ''role''"
| "projectSub ProjectPermissionSub.Member = ''member''"
| "projectSub ProjectPermissionSub.Groups = ''groups''"
| "projectSub ProjectPermissionSub.Settings = ''settings''"
| "projectSub ProjectPermissionSub.Integrations = ''integrations''"
| "projectSub ProjectPermissionSub.Webhooks = ''webhooks''"
| "projectSub ProjectPermissionSub.ServiceTokens = ''service-tokens''"
| "projectSub ProjectPermissionSub.Environments = ''environments''"
| "projectSub ProjectPermissionSub.Tags = ''tags''"
| "projectSub ProjectPermissionSub.AuditLogs = ''audit-logs''"
| "projectSub ProjectPermissionSub.IpAllowList = ''ip-allowlist''"
| "projectSub ProjectPermissionSub.Project = ''workspace''"
| "projectSub ProjectPermissionSub.Secrets = ''secrets''"
| "projectSub ProjectPermissionSub.SecretFolders = ''secret-folders''"
| "projectSub ProjectPermissionSub.SecretImports = ''secret-imports''"
| "projectSub ProjectPermissionSub.DynamicSecrets = ''dynamic-secrets''"
| "projectSub ProjectPermissionSub.SecretRollback = ''secret-rollback''"
| "projectSub ProjectPermissionSub.SecretApproval = ''secret-approval''"
| "projectSub ProjectPermissionSub.SecretApprovalRequest = ''secret-approval-request''"
| "projectSub ProjectPermissionSub.SecretRotation = ''secret-rotation''"
| "projectSub ProjectPermissionSub.Commits = ''commits''"
| "projectSub ProjectPermissionSub.Identity = ''identity''"
| "projectSub ProjectPermissionSub.CertificateAuthorities = ''certificate-authorities''"
| "projectSub ProjectPermissionSub.Certificates = ''certificates''"
| "projectSub ProjectPermissionSub.CertificateTemplates = ''certificate-templates''"
| "projectSub ProjectPermissionSub.PkiSubscribers = ''pki-subscribers''"
| "projectSub ProjectPermissionSub.PkiAlerts = ''pki-alerts''"
| "projectSub ProjectPermissionSub.PkiCollections = ''pki-collections''"
| "projectSub ProjectPermissionSub.CertificateInventoryViews = ''certificate-inventory-views''"
| "projectSub ProjectPermissionSub.Kms = ''kms''"
| "projectSub ProjectPermissionSub.Cmek = ''cmek''"
| "projectSub ProjectPermissionSub.SecretSyncs = ''secret-syncs''"
| "projectSub ProjectPermissionSub.PkiSyncs = ''pki-syncs''"
| "projectSub ProjectPermissionSub.PkiDiscovery = ''pki-discovery''"
| "projectSub ProjectPermissionSub.PkiCertificateInstallations = ''pki-certificate-installations''"
| "projectSub ProjectPermissionSub.CodeSigners = ''code-signers''"
| "projectSub ProjectPermissionSub.Kmip = ''kmip''"
| "projectSub ProjectPermissionSub.SecretScanningDataSources = ''secret-scanning-data-sources''"
| "projectSub ProjectPermissionSub.SecretScanningFindings = ''secret-scanning-findings''"
| "projectSub ProjectPermissionSub.SecretScanningConfigs = ''secret-scanning-configs''"
| "projectSub ProjectPermissionSub.SecretEventSubscriptions = ''secret-event-subscriptions''"
| "projectSub ProjectPermissionSub.AppConnections = ''app-connections''"
| "projectSub ProjectPermissionSub.HsmConnectors = ''hsm-connectors''"
| "projectSub ProjectPermissionSub.CertificateProfiles = ''certificate-profiles''"
| "projectSub ProjectPermissionSub.CertificatePolicies = ''certificate-policies''"
| "projectSub ProjectPermissionSub.Application = ''certificate-application''"
| "projectSub ProjectPermissionSub.ApprovalRequests = ''approval-requests''"
| "projectSub ProjectPermissionSub.ApprovalRequestGrants = ''approval-request-grants''"
| "projectSub ProjectPermissionSub.ProjectFolderGrant = ''project-folder-grant''"
| "projectSub ProjectPermissionSub.HoneyTokens = ''honey-tokens''"
| "projectSub ProjectPermissionSub.ProxiedServices = ''proxied-services''"
| "projectSub ProjectPermissionSub.Insights = ''insights''"

section \<open>Permissions on one resource\<close>

datatype (plugins only: code) ResourcePermissionSub =
    Application
  | ApplicationEnrollment
  | ApprovalPolicies
  | Certificates
  | CertificateInventoryViews
  | PkiSyncs
  | PkiAlerts
  | ApprovalRequests
  | ApprovalRequestGrants
  | Member
  | Signer
  | PamResource

primrec resourceSub :: "ResourcePermissionSub \<Rightarrow> string" where
  "resourceSub ResourcePermissionSub.Application = ''certificate-application''"
| "resourceSub ResourcePermissionSub.ApplicationEnrollment = ''certificate-application-enrollment''"
| "resourceSub ResourcePermissionSub.ApprovalPolicies = ''approval-policies''"
| "resourceSub ResourcePermissionSub.Certificates = ''certificates''"
| "resourceSub ResourcePermissionSub.CertificateInventoryViews = ''certificate-inventory-views''"
| "resourceSub ResourcePermissionSub.PkiSyncs = ''pki-syncs''"
| "resourceSub ResourcePermissionSub.PkiAlerts = ''pki-alerts''"
| "resourceSub ResourcePermissionSub.ApprovalRequests = ''approval-requests''"
| "resourceSub ResourcePermissionSub.ApprovalRequestGrants = ''approval-request-grants''"
| "resourceSub ResourcePermissionSub.Member = ''member''"
| "resourceSub ResourcePermissionSub.Signer = ''pki-signer''"
| "resourceSub ResourcePermissionSub.PamResource = ''pam-resource''"

datatype (plugins only: code) ResourcePermissionPamResourceActions =
    ReadFolder
  | EditFolder
  | DeleteFolder
  | ReadAccounts
  | CreateAccounts
  | EditAccounts
  | DeleteAccounts
  | LaunchSessions
  | ViewSessions
  | TerminateSessions
  | ViewCredentials
  | ApproveRequests
  | RevokeGrants
  | ManagePolicies
  | ManageRotation
  | ManageMembers
  | ViewAuditLogs

primrec resourcePamResourceActions :: "ResourcePermissionPamResourceActions \<Rightarrow> string" where
  "resourcePamResourceActions ResourcePermissionPamResourceActions.ReadFolder = ''read-folder''"
| "resourcePamResourceActions ResourcePermissionPamResourceActions.EditFolder = ''edit-folder''"
| "resourcePamResourceActions ResourcePermissionPamResourceActions.DeleteFolder = ''delete-folder''"
| "resourcePamResourceActions ResourcePermissionPamResourceActions.ReadAccounts = ''read-accounts''"
| "resourcePamResourceActions ResourcePermissionPamResourceActions.CreateAccounts = ''create-accounts''"
| "resourcePamResourceActions ResourcePermissionPamResourceActions.EditAccounts = ''edit-accounts''"
| "resourcePamResourceActions ResourcePermissionPamResourceActions.DeleteAccounts = ''delete-accounts''"
| "resourcePamResourceActions ResourcePermissionPamResourceActions.LaunchSessions = ''launch-sessions''"
| "resourcePamResourceActions ResourcePermissionPamResourceActions.ViewSessions = ''view-sessions''"
| "resourcePamResourceActions ResourcePermissionPamResourceActions.TerminateSessions = ''terminate-sessions''"
| "resourcePamResourceActions ResourcePermissionPamResourceActions.ViewCredentials = ''view-credentials''"
| "resourcePamResourceActions ResourcePermissionPamResourceActions.ApproveRequests = ''approve-requests''"
| "resourcePamResourceActions ResourcePermissionPamResourceActions.RevokeGrants = ''revoke-grants''"
| "resourcePamResourceActions ResourcePermissionPamResourceActions.ManagePolicies = ''manage-policies''"
| "resourcePamResourceActions ResourcePermissionPamResourceActions.ManageRotation = ''manage-rotation''"
| "resourcePamResourceActions ResourcePermissionPamResourceActions.ManageMembers = ''manage-members''"
| "resourcePamResourceActions ResourcePermissionPamResourceActions.ViewAuditLogs = ''view-audit-logs''"

datatype (plugins only: code) ResourcePermissionSignerActions =
    Read
  | Edit
  | Delete
  | ManageStatus
  | ManageMembers
  | ManagePolicy
  | Sign
  | RequestSign
  | PreApprove
  | RevokeRequest
  | ReissueCertificate
  | ExportCertificate

primrec resourceSignerActions :: "ResourcePermissionSignerActions \<Rightarrow> string" where
  "resourceSignerActions ResourcePermissionSignerActions.Read = ''read''"
| "resourceSignerActions ResourcePermissionSignerActions.Edit = ''edit''"
| "resourceSignerActions ResourcePermissionSignerActions.Delete = ''delete''"
| "resourceSignerActions ResourcePermissionSignerActions.ManageStatus = ''manage-status''"
| "resourceSignerActions ResourcePermissionSignerActions.ManageMembers = ''manage-members''"
| "resourceSignerActions ResourcePermissionSignerActions.ManagePolicy = ''manage-policy''"
| "resourceSignerActions ResourcePermissionSignerActions.Sign = ''sign''"
| "resourceSignerActions ResourcePermissionSignerActions.RequestSign = ''request-sign''"
| "resourceSignerActions ResourcePermissionSignerActions.PreApprove = ''pre-approve''"
| "resourceSignerActions ResourcePermissionSignerActions.RevokeRequest = ''revoke-request''"
| "resourceSignerActions ResourcePermissionSignerActions.ReissueCertificate = ''reissue-certificate''"
| "resourceSignerActions ResourcePermissionSignerActions.ExportCertificate = ''export-certificate''"

datatype (plugins only: code) ResourcePermissionApplicationActions =
    Read
  | Edit
  | Delete
  | ManageProfiles

primrec resourceApplicationActions :: "ResourcePermissionApplicationActions \<Rightarrow> string" where
  "resourceApplicationActions ResourcePermissionApplicationActions.Read = ''read''"
| "resourceApplicationActions ResourcePermissionApplicationActions.Edit = ''edit''"
| "resourceApplicationActions ResourcePermissionApplicationActions.Delete = ''delete''"
| "resourceApplicationActions ResourcePermissionApplicationActions.ManageProfiles = ''manage-profiles''"

datatype (plugins only: code) ResourcePermissionApplicationEnrollmentActions =
    Read
  | Edit
  | RevealAcmeEabSecret
  | RotateAcmeEabSecret
  | GenerateScepChallenge

primrec resourceApplicationEnrollmentActions :: "ResourcePermissionApplicationEnrollmentActions \<Rightarrow> string" where
  "resourceApplicationEnrollmentActions ResourcePermissionApplicationEnrollmentActions.Read = ''read''"
| "resourceApplicationEnrollmentActions ResourcePermissionApplicationEnrollmentActions.Edit = ''edit''"
| "resourceApplicationEnrollmentActions ResourcePermissionApplicationEnrollmentActions.RevealAcmeEabSecret = ''reveal-acme-eab-secret''"
| "resourceApplicationEnrollmentActions ResourcePermissionApplicationEnrollmentActions.RotateAcmeEabSecret = ''rotate-acme-eab-secret''"
| "resourceApplicationEnrollmentActions ResourcePermissionApplicationEnrollmentActions.GenerateScepChallenge = ''generate-scep-challenge''"

datatype (plugins only: code) ResourcePermissionApprovalPolicyActions =
    Read
  | Create
  | Edit
  | Delete

primrec resourceApprovalPolicyActions :: "ResourcePermissionApprovalPolicyActions \<Rightarrow> string" where
  "resourceApprovalPolicyActions ResourcePermissionApprovalPolicyActions.Read = ''read''"
| "resourceApprovalPolicyActions ResourcePermissionApprovalPolicyActions.Create = ''create''"
| "resourceApprovalPolicyActions ResourcePermissionApprovalPolicyActions.Edit = ''edit''"
| "resourceApprovalPolicyActions ResourcePermissionApprovalPolicyActions.Delete = ''delete''"

datatype (plugins only: code) ResourcePermissionCertificateActions =
    Read
  | List
  | Create
  | Edit
  | Delete
  | ReadPrivateKey
  | Import

primrec resourceCertificateActions :: "ResourcePermissionCertificateActions \<Rightarrow> string" where
  "resourceCertificateActions ResourcePermissionCertificateActions.Read = ''read''"
| "resourceCertificateActions ResourcePermissionCertificateActions.List = ''list''"
| "resourceCertificateActions ResourcePermissionCertificateActions.Create = ''create''"
| "resourceCertificateActions ResourcePermissionCertificateActions.Edit = ''edit''"
| "resourceCertificateActions ResourcePermissionCertificateActions.Delete = ''delete''"
| "resourceCertificateActions ResourcePermissionCertificateActions.ReadPrivateKey = ''read-private-key''"
| "resourceCertificateActions ResourcePermissionCertificateActions.Import = ''import''"

datatype (plugins only: code) ResourcePermissionPkiSyncActions =
    Read
  | List
  | Create
  | Edit
  | Delete
  | SyncCertificates
  | ImportCertificates
  | RemoveCertificates
  | SetPostSyncCommand
  | SetHealthCheckCommand

primrec resourcePkiSyncActions :: "ResourcePermissionPkiSyncActions \<Rightarrow> string" where
  "resourcePkiSyncActions ResourcePermissionPkiSyncActions.Read = ''read''"
| "resourcePkiSyncActions ResourcePermissionPkiSyncActions.List = ''list''"
| "resourcePkiSyncActions ResourcePermissionPkiSyncActions.Create = ''create''"
| "resourcePkiSyncActions ResourcePermissionPkiSyncActions.Edit = ''edit''"
| "resourcePkiSyncActions ResourcePermissionPkiSyncActions.Delete = ''delete''"
| "resourcePkiSyncActions ResourcePermissionPkiSyncActions.SyncCertificates = ''sync-certificates''"
| "resourcePkiSyncActions ResourcePermissionPkiSyncActions.ImportCertificates = ''import-certificates''"
| "resourcePkiSyncActions ResourcePermissionPkiSyncActions.RemoveCertificates = ''remove-certificates''"
| "resourcePkiSyncActions ResourcePermissionPkiSyncActions.SetPostSyncCommand = ''set-post-sync-command''"
| "resourcePkiSyncActions ResourcePermissionPkiSyncActions.SetHealthCheckCommand = ''set-health-check-command''"

section \<open>The names\<close>

text \<open>No two subjects have the same name.\<close>

definition all_subjects :: "ProjectPermissionSub list" where
  "all_subjects =
    [ProjectPermissionSub.Role, ProjectPermissionSub.Member, ProjectPermissionSub.Groups,
     ProjectPermissionSub.Settings, ProjectPermissionSub.Integrations,
     ProjectPermissionSub.Webhooks, ProjectPermissionSub.ServiceTokens,
     ProjectPermissionSub.Environments, ProjectPermissionSub.Tags,
     ProjectPermissionSub.AuditLogs, ProjectPermissionSub.IpAllowList,
     ProjectPermissionSub.Project, ProjectPermissionSub.Secrets,
     ProjectPermissionSub.SecretFolders, ProjectPermissionSub.SecretImports,
     ProjectPermissionSub.DynamicSecrets, ProjectPermissionSub.SecretRollback,
     ProjectPermissionSub.SecretApproval, ProjectPermissionSub.SecretApprovalRequest,
     ProjectPermissionSub.SecretRotation, ProjectPermissionSub.Commits,
     ProjectPermissionSub.Identity, ProjectPermissionSub.CertificateAuthorities,
     ProjectPermissionSub.Certificates, ProjectPermissionSub.CertificateTemplates,
     ProjectPermissionSub.PkiSubscribers, ProjectPermissionSub.PkiAlerts,
     ProjectPermissionSub.PkiCollections, ProjectPermissionSub.CertificateInventoryViews,
     ProjectPermissionSub.Kms, ProjectPermissionSub.Cmek,
     ProjectPermissionSub.SecretSyncs, ProjectPermissionSub.PkiSyncs,
     ProjectPermissionSub.PkiDiscovery, ProjectPermissionSub.PkiCertificateInstallations,
     ProjectPermissionSub.CodeSigners, ProjectPermissionSub.Kmip,
     ProjectPermissionSub.SecretScanningDataSources,
     ProjectPermissionSub.SecretScanningFindings,
     ProjectPermissionSub.SecretScanningConfigs,
     ProjectPermissionSub.SecretEventSubscriptions, ProjectPermissionSub.AppConnections,
     ProjectPermissionSub.HsmConnectors, ProjectPermissionSub.CertificateProfiles,
     ProjectPermissionSub.CertificatePolicies, ProjectPermissionSub.Application,
     ProjectPermissionSub.ApprovalRequests, ProjectPermissionSub.ApprovalRequestGrants,
     ProjectPermissionSub.ProjectFolderGrant, ProjectPermissionSub.HoneyTokens,
     ProjectPermissionSub.ProxiedServices, ProjectPermissionSub.Insights]"

lemma projectSub_inject: "projectSub a = projectSub b \<longleftrightarrow> a = b"
proof -
  have all: "s \<in> set all_subjects" for s
    by (cases s) (simp_all add: all_subjects_def)
  have "distinct (map projectSub all_subjects)"
    by code_simp
  then have "inj_on projectSub (set all_subjects)"
    by (simp only: distinct_map)
  with all [of a] all [of b] show ?thesis
    by (blast dest: inj_onD)
qed

definition all_resource_subjects :: "ResourcePermissionSub list" where
  "all_resource_subjects =
    [ResourcePermissionSub.Application, ResourcePermissionSub.ApplicationEnrollment,
     ResourcePermissionSub.ApprovalPolicies, ResourcePermissionSub.Certificates,
     ResourcePermissionSub.CertificateInventoryViews, ResourcePermissionSub.PkiSyncs,
     ResourcePermissionSub.PkiAlerts, ResourcePermissionSub.ApprovalRequests,
     ResourcePermissionSub.ApprovalRequestGrants, ResourcePermissionSub.Member,
     ResourcePermissionSub.Signer, ResourcePermissionSub.PamResource]"

lemma resourceSub_inject: "resourceSub a = resourceSub b \<longleftrightarrow> a = b"
proof -
  have all: "s \<in> set all_resource_subjects" for s
    by (cases s) (simp_all add: all_resource_subjects_def)
  have "distinct (map resourceSub all_resource_subjects)"
    by code_simp
  then have "inj_on resourceSub (set all_resource_subjects)"
    by (simp only: distinct_map)
  with all [of a] all [of b] show ?thesis
    by (blast dest: inj_onD)
qed

lemmas permission_names =
    projectActions.simps secretFolderActions.simps commitsActions.simps
    certificateAuthorityActions.simps certificateActions.simps secretActions.simps
    cmekActions.simps dynamicSecretActions.simps identityActions.simps memberActions.simps
    groupActions.simps pkiTemplateActions.simps certificatePolicyActions.simps
    pkiSubscriberActions.simps certificateProfileActions.simps applicationActions.simps
    secretSyncActions.simps pkiSyncActions.simps pkiDiscoveryActions.simps
    pkiCertificateInstallationActions.simps codeSigningActions.simps
    secretRotationActions.simps kmipActions.simps secretScanningDataSourceActions.simps
    appConnectionActions.simps hsmConnectorActions.simps secretScanningFindingActions.simps
    secretScanningConfigActions.simps secretEventActions.simps auditLogsActions.simps
    insightsActions.simps honeyTokenActions.simps proxiedServiceActions.simps
    approvalRequestActions.simps approvalRequestGrantActions.simps
    projectFolderGrantActions.simps secretApprovalRequestActions.simps projectSub.simps
    resourceSub.simps resourcePamResourceActions.simps resourceSignerActions.simps
    resourceApplicationActions.simps resourceApplicationEnrollmentActions.simps
    resourceApprovalPolicyActions.simps resourceCertificateActions.simps
    resourcePkiSyncActions.simps

end
