(* ===== verification/DefaultRoles.thy ===== *)
theory DefaultRoles
  imports PermissionBoundary PermissionEnums
begin

text \<open>
  The built-in roles of \<open>backend/src/ee/services/permission/default-roles.ts\<close>: the rules each role
  contributes to an ability, in the order the builder receives them, and what the roles may do
  compared with each other through the permission boundary.

  The builder of the permission library collects the raw rules of \<open>can\<close> and \<open>cannot\<close> in call
  order, so a role is the list of its rules. A long role is given in parts, each one a run of
  consecutive calls of the source.
\<close>

section \<open>Building rules\<close>

definition can :: "string list \<Rightarrow> string \<Rightarrow> rule" where
  "can acts sub =
     \<lparr>rule_action = ManyActions acts, rule_subject = OneSubject sub, inverted = False, conditions = None\<rparr>"

definition can1 :: "string \<Rightarrow> string \<Rightarrow> rule" where
  "can1 act sub =
     \<lparr>rule_action = OneAction act, rule_subject = OneSubject sub, inverted = False, conditions = None\<rparr>"

definition cannot :: "string list \<Rightarrow> string \<Rightarrow> rule" where
  "cannot acts sub =
     \<lparr>rule_action = ManyActions acts, rule_subject = OneSubject sub, inverted = True, conditions = None\<rparr>"

section \<open>Project roles\<close>

definition admin_rules_project :: "rule list" where
  "admin_rules_project =
    map (\<lambda>el. can (map projectActions [ProjectPermissionActions.Read, ProjectPermissionActions.Edit,
          ProjectPermissionActions.Create, ProjectPermissionActions.Delete]) (projectSub el)) [
      ProjectPermissionSub.SecretImports, ProjectPermissionSub.Role,
        ProjectPermissionSub.Integrations, ProjectPermissionSub.Webhooks,
        ProjectPermissionSub.ServiceTokens, ProjectPermissionSub.Settings,
        ProjectPermissionSub.Environments, ProjectPermissionSub.Tags,
        ProjectPermissionSub.IpAllowList, ProjectPermissionSub.PkiAlerts,
        ProjectPermissionSub.PkiCollections, ProjectPermissionSub.CertificateInventoryViews] @
    [
      can (map projectActions [ProjectPermissionActions.Edit, ProjectPermissionActions.Create,
        ProjectPermissionActions.Delete] @
        map secretFolderActions [ProjectPermissionSecretFolderActions.ManageAccess]) (projectSub ProjectPermissionSub.SecretFolders),
      can (map auditLogsActions [ProjectPermissionAuditLogsActions.Read]) (projectSub ProjectPermissionSub.AuditLogs)]"

definition admin_rules_pki :: "rule list" where
  "admin_rules_pki =
    [
      can (map certificateAuthorityActions [ProjectPermissionCertificateAuthorityActions.Read,
        ProjectPermissionCertificateAuthorityActions.Create,
        ProjectPermissionCertificateAuthorityActions.Edit,
        ProjectPermissionCertificateAuthorityActions.Delete,
        ProjectPermissionCertificateAuthorityActions.IssueCACertificate,
        ProjectPermissionCertificateAuthorityActions.SignIntermediate]) (projectSub ProjectPermissionSub.CertificateAuthorities),
      can (map pkiTemplateActions [ProjectPermissionPkiTemplateActions.Read,
        ProjectPermissionPkiTemplateActions.Edit, ProjectPermissionPkiTemplateActions.Create,
        ProjectPermissionPkiTemplateActions.Delete,
        ProjectPermissionPkiTemplateActions.IssueCert,
        ProjectPermissionPkiTemplateActions.ListCerts]) (projectSub ProjectPermissionSub.CertificateTemplates),
      can (map certificatePolicyActions [ProjectPermissionCertificatePolicyActions.Read,
        ProjectPermissionCertificatePolicyActions.Create,
        ProjectPermissionCertificatePolicyActions.Edit,
        ProjectPermissionCertificatePolicyActions.Delete]) (projectSub ProjectPermissionSub.CertificatePolicies),
      can (map projectActions [ProjectPermissionActions.Read, ProjectPermissionActions.Edit,
        ProjectPermissionActions.Create,
        ProjectPermissionActions.Delete]) (projectSub ProjectPermissionSub.SecretApproval),
      can (map certificateActions [ProjectPermissionCertificateActions.Read,
        ProjectPermissionCertificateActions.Edit, ProjectPermissionCertificateActions.Create,
        ProjectPermissionCertificateActions.Delete,
        ProjectPermissionCertificateActions.ReadPrivateKey,
        ProjectPermissionCertificateActions.Import]) (projectSub ProjectPermissionSub.Certificates),
      can (map certificateProfileActions [ProjectPermissionCertificateProfileActions.Read,
        ProjectPermissionCertificateProfileActions.Edit,
        ProjectPermissionCertificateProfileActions.Create,
        ProjectPermissionCertificateProfileActions.Delete,
        ProjectPermissionCertificateProfileActions.IssueCert,
        ProjectPermissionCertificateProfileActions.RevealAcmeEabSecret,
        ProjectPermissionCertificateProfileActions.RotateAcmeEabSecret,
        ProjectPermissionCertificateProfileActions.ManageApplicationAttachments]) (projectSub ProjectPermissionSub.CertificateProfiles),
      can (map applicationActions [ProjectPermissionApplicationActions.Read,
        ProjectPermissionApplicationActions.List,
        ProjectPermissionApplicationActions.Create]) (projectSub ProjectPermissionSub.Application),
      can (map commitsActions [ProjectPermissionCommitsActions.Read,
        ProjectPermissionCommitsActions.PerformRollback]) (projectSub ProjectPermissionSub.Commits),
      can (map pkiSubscriberActions [ProjectPermissionPkiSubscriberActions.Edit,
        ProjectPermissionPkiSubscriberActions.Read, ProjectPermissionPkiSubscriberActions.Create,
        ProjectPermissionPkiSubscriberActions.Delete,
        ProjectPermissionPkiSubscriberActions.IssueCert,
        ProjectPermissionPkiSubscriberActions.ListCerts]) (projectSub ProjectPermissionSub.PkiSubscribers)]"

definition admin_rules_members :: "rule list" where
  "admin_rules_members =
    [
      can (map memberActions [ProjectPermissionMemberActions.Create,
        ProjectPermissionMemberActions.Edit, ProjectPermissionMemberActions.Delete,
        ProjectPermissionMemberActions.Read, ProjectPermissionMemberActions.GrantPrivileges,
        ProjectPermissionMemberActions.AssignRole,
        ProjectPermissionMemberActions.AssignAdditionalPrivileges,
        ProjectPermissionMemberActions.AssumePrivileges]) (projectSub ProjectPermissionSub.Member),
      can (map groupActions [ProjectPermissionGroupActions.Create,
        ProjectPermissionGroupActions.Edit, ProjectPermissionGroupActions.Delete,
        ProjectPermissionGroupActions.Read, ProjectPermissionGroupActions.GrantPrivileges,
        ProjectPermissionGroupActions.AssignRole]) (projectSub ProjectPermissionSub.Groups),
      can (map identityActions [ProjectPermissionIdentityActions.Create,
        ProjectPermissionIdentityActions.Edit, ProjectPermissionIdentityActions.Delete,
        ProjectPermissionIdentityActions.Read, ProjectPermissionIdentityActions.GrantPrivileges,
        ProjectPermissionIdentityActions.AssignRole,
        ProjectPermissionIdentityActions.AssignAdditionalPrivileges,
        ProjectPermissionIdentityActions.AssumePrivileges,
        ProjectPermissionIdentityActions.GetToken, ProjectPermissionIdentityActions.CreateToken,
        ProjectPermissionIdentityActions.DeleteToken,
        ProjectPermissionIdentityActions.RevokeAuth,
        ProjectPermissionIdentityActions.EditAuth]) (projectSub ProjectPermissionSub.Identity)]"

definition admin_rules_secrets :: "rule list" where
  "admin_rules_secrets =
    [
      can (map secretActions [ProjectPermissionSecretActions.DescribeSecret,
        ProjectPermissionSecretActions.DescribeAndReadValue,
        ProjectPermissionSecretActions.ReadValue, ProjectPermissionSecretActions.Create,
        ProjectPermissionSecretActions.Edit,
        ProjectPermissionSecretActions.Delete]) (projectSub ProjectPermissionSub.Secrets),
      can (map dynamicSecretActions [ProjectPermissionDynamicSecretActions.ReadRootCredential,
        ProjectPermissionDynamicSecretActions.EditRootCredential,
        ProjectPermissionDynamicSecretActions.CreateRootCredential,
        ProjectPermissionDynamicSecretActions.DeleteRootCredential,
        ProjectPermissionDynamicSecretActions.Lease]) (projectSub ProjectPermissionSub.DynamicSecrets),
      can (map projectActions [ProjectPermissionActions.Edit,
        ProjectPermissionActions.Delete]) (projectSub ProjectPermissionSub.Project),
      can (map projectActions [ProjectPermissionActions.Read,
        ProjectPermissionActions.Create]) (projectSub ProjectPermissionSub.SecretRollback),
      can (map projectActions [ProjectPermissionActions.Edit]) (projectSub ProjectPermissionSub.Kms),
      can (map cmekActions [ProjectPermissionCmekActions.Create,
        ProjectPermissionCmekActions.Edit, ProjectPermissionCmekActions.Delete,
        ProjectPermissionCmekActions.Read, ProjectPermissionCmekActions.Encrypt,
        ProjectPermissionCmekActions.Decrypt, ProjectPermissionCmekActions.Sign,
        ProjectPermissionCmekActions.Verify, ProjectPermissionCmekActions.GenerateMac,
        ProjectPermissionCmekActions.VerifyMac, ProjectPermissionCmekActions.Rotate,
        ProjectPermissionCmekActions.ExportPrivateKey]) (projectSub ProjectPermissionSub.Cmek),
      can (map secretSyncActions [ProjectPermissionSecretSyncActions.Create,
        ProjectPermissionSecretSyncActions.Edit, ProjectPermissionSecretSyncActions.Delete,
        ProjectPermissionSecretSyncActions.Read, ProjectPermissionSecretSyncActions.SyncSecrets,
        ProjectPermissionSecretSyncActions.ImportSecrets,
        ProjectPermissionSecretSyncActions.RemoveSecrets]) (projectSub ProjectPermissionSub.SecretSyncs)]"

definition admin_rules_machines :: "rule list" where
  "admin_rules_machines =
    [
      can (map pkiSyncActions [ProjectPermissionPkiSyncActions.Create,
        ProjectPermissionPkiSyncActions.Edit, ProjectPermissionPkiSyncActions.Delete,
        ProjectPermissionPkiSyncActions.Read, ProjectPermissionPkiSyncActions.SyncCertificates,
        ProjectPermissionPkiSyncActions.ImportCertificates,
        ProjectPermissionPkiSyncActions.RemoveCertificates,
        ProjectPermissionPkiSyncActions.SetPostSyncCommand,
        ProjectPermissionPkiSyncActions.SetHealthCheckCommand]) (projectSub ProjectPermissionSub.PkiSyncs),
      can (map pkiDiscoveryActions [ProjectPermissionPkiDiscoveryActions.Read,
        ProjectPermissionPkiDiscoveryActions.Create, ProjectPermissionPkiDiscoveryActions.Edit,
        ProjectPermissionPkiDiscoveryActions.Delete,
        ProjectPermissionPkiDiscoveryActions.RunScan]) (projectSub ProjectPermissionSub.PkiDiscovery),
      can (map pkiCertificateInstallationActions [ProjectPermissionPkiCertificateInstallationActions.Read,
        ProjectPermissionPkiCertificateInstallationActions.Edit,
        ProjectPermissionPkiCertificateInstallationActions.Delete]) (projectSub ProjectPermissionSub.PkiCertificateInstallations),
      can (map codeSigningActions [ProjectPermissionCodeSigningActions.Read,
        ProjectPermissionCodeSigningActions.Create]) (projectSub ProjectPermissionSub.CodeSigners),
      can (map kmipActions [ProjectPermissionKmipActions.CreateClients,
        ProjectPermissionKmipActions.UpdateClients, ProjectPermissionKmipActions.DeleteClients,
        ProjectPermissionKmipActions.ReadClients,
        ProjectPermissionKmipActions.GenerateClientCertificates]) (projectSub ProjectPermissionSub.Kmip),
      can (map secretRotationActions [ProjectPermissionSecretRotationActions.Create,
        ProjectPermissionSecretRotationActions.Edit,
        ProjectPermissionSecretRotationActions.Delete,
        ProjectPermissionSecretRotationActions.Read,
        ProjectPermissionSecretRotationActions.ReadGeneratedCredentials,
        ProjectPermissionSecretRotationActions.RotateSecrets]) (projectSub ProjectPermissionSub.SecretRotation)]"

definition admin_rules_scanning :: "rule list" where
  "admin_rules_scanning =
    [
      can (map secretScanningDataSourceActions [ProjectPermissionSecretScanningDataSourceActions.Create,
        ProjectPermissionSecretScanningDataSourceActions.Edit,
        ProjectPermissionSecretScanningDataSourceActions.Delete,
        ProjectPermissionSecretScanningDataSourceActions.Read,
        ProjectPermissionSecretScanningDataSourceActions.TriggerScans,
        ProjectPermissionSecretScanningDataSourceActions.ReadScans,
        ProjectPermissionSecretScanningDataSourceActions.ReadResources]) (projectSub ProjectPermissionSub.SecretScanningDataSources),
      can (map secretScanningFindingActions [ProjectPermissionSecretScanningFindingActions.Read,
        ProjectPermissionSecretScanningFindingActions.Update]) (projectSub ProjectPermissionSub.SecretScanningFindings),
      can (map secretScanningConfigActions [ProjectPermissionSecretScanningConfigActions.Read,
        ProjectPermissionSecretScanningConfigActions.Update]) (projectSub ProjectPermissionSub.SecretScanningConfigs),
      can (map secretEventActions [ProjectPermissionSecretEventActions.SubscribeToCreationEvents,
        ProjectPermissionSecretEventActions.SubscribeToDeleteEvents,
        ProjectPermissionSecretEventActions.SubscribeToUpdateEvents,
        ProjectPermissionSecretEventActions.SubscribeToImportMutationEvents]) (projectSub ProjectPermissionSub.SecretEventSubscriptions),
      can (map appConnectionActions [ProjectPermissionAppConnectionActions.Create,
        ProjectPermissionAppConnectionActions.Edit, ProjectPermissionAppConnectionActions.Delete,
        ProjectPermissionAppConnectionActions.Read,
        ProjectPermissionAppConnectionActions.Connect,
        ProjectPermissionAppConnectionActions.RotateCredentials]) (projectSub ProjectPermissionSub.AppConnections),
      can (map hsmConnectorActions [ProjectPermissionHsmConnectorActions.Read,
        ProjectPermissionHsmConnectorActions.Create, ProjectPermissionHsmConnectorActions.Edit,
        ProjectPermissionHsmConnectorActions.Delete, ProjectPermissionHsmConnectorActions.Test,
        ProjectPermissionHsmConnectorActions.Attach]) (projectSub ProjectPermissionSub.HsmConnectors)]"

definition admin_rules_requests :: "rule list" where
  "admin_rules_requests =
    [
      can (map honeyTokenActions [ProjectPermissionHoneyTokenActions.Read,
        ProjectPermissionHoneyTokenActions.ReadCredentials,
        ProjectPermissionHoneyTokenActions.Create, ProjectPermissionHoneyTokenActions.Edit,
        ProjectPermissionHoneyTokenActions.Reset,
        ProjectPermissionHoneyTokenActions.Revoke]) (projectSub ProjectPermissionSub.HoneyTokens),
      can (map approvalRequestActions [ProjectPermissionApprovalRequestActions.Read,
        ProjectPermissionApprovalRequestActions.Create]) (projectSub ProjectPermissionSub.ApprovalRequests),
      can (map approvalRequestGrantActions [ProjectPermissionApprovalRequestGrantActions.Read,
        ProjectPermissionApprovalRequestGrantActions.Revoke]) (projectSub ProjectPermissionSub.ApprovalRequestGrants),
      can (map secretApprovalRequestActions [ProjectPermissionSecretApprovalRequestActions.Read]) (projectSub ProjectPermissionSub.SecretApprovalRequest),
      can (map projectFolderGrantActions [ProjectPermissionProjectFolderGrantActions.ReadGrant,
        ProjectPermissionProjectFolderGrantActions.CreateGrant,
        ProjectPermissionProjectFolderGrantActions.RevokeGrant]) (projectSub ProjectPermissionSub.ProjectFolderGrant),
      can (map insightsActions [ProjectPermissionInsightsActions.Read,
        ProjectPermissionInsightsActions.GenerateReport,
        ProjectPermissionInsightsActions.DeleteReport]) (projectSub ProjectPermissionSub.Insights),
      can (map proxiedServiceActions [ProjectPermissionProxiedServiceActions.Read,
        ProjectPermissionProxiedServiceActions.Create,
        ProjectPermissionProxiedServiceActions.Edit,
        ProjectPermissionProxiedServiceActions.Delete,
        ProjectPermissionProxiedServiceActions.Proxy,
        ProjectPermissionProxiedServiceActions.ReportUsage]) (projectSub ProjectPermissionSub.ProxiedServices)]"

definition buildAdminPermissionRules :: "rule list" where
  "buildAdminPermissionRules =
    admin_rules_project @
    admin_rules_pki @
    admin_rules_members @
    admin_rules_secrets @
    admin_rules_machines @
    admin_rules_scanning @
    admin_rules_requests"

definition member_rules_secrets :: "rule list" where
  "member_rules_secrets =
    [
      can (map secretActions [ProjectPermissionSecretActions.DescribeSecret,
        ProjectPermissionSecretActions.DescribeAndReadValue,
        ProjectPermissionSecretActions.ReadValue, ProjectPermissionSecretActions.Edit,
        ProjectPermissionSecretActions.Create,
        ProjectPermissionSecretActions.Delete]) (projectSub ProjectPermissionSub.Secrets),
      can (map projectActions [ProjectPermissionActions.Edit, ProjectPermissionActions.Create,
        ProjectPermissionActions.Delete]) (projectSub ProjectPermissionSub.SecretFolders),
      can (map dynamicSecretActions [ProjectPermissionDynamicSecretActions.ReadRootCredential,
        ProjectPermissionDynamicSecretActions.EditRootCredential,
        ProjectPermissionDynamicSecretActions.CreateRootCredential,
        ProjectPermissionDynamicSecretActions.DeleteRootCredential,
        ProjectPermissionDynamicSecretActions.Lease]) (projectSub ProjectPermissionSub.DynamicSecrets),
      can (map projectActions [ProjectPermissionActions.Read, ProjectPermissionActions.Edit,
        ProjectPermissionActions.Create,
        ProjectPermissionActions.Delete]) (projectSub ProjectPermissionSub.SecretImports),
      can (map commitsActions [ProjectPermissionCommitsActions.Read,
        ProjectPermissionCommitsActions.PerformRollback]) (projectSub ProjectPermissionSub.Commits),
      can (map projectActions [ProjectPermissionActions.Read]) (projectSub ProjectPermissionSub.SecretApproval),
      can (map secretRotationActions [ProjectPermissionSecretRotationActions.Read]) (projectSub ProjectPermissionSub.SecretRotation),
      can (map projectActions [ProjectPermissionActions.Read,
        ProjectPermissionActions.Create]) (projectSub ProjectPermissionSub.SecretRollback),
      can (map memberActions [ProjectPermissionMemberActions.Read,
        ProjectPermissionMemberActions.Create]) (projectSub ProjectPermissionSub.Member),
      can (map groupActions [ProjectPermissionGroupActions.Read]) (projectSub ProjectPermissionSub.Groups)]"

definition member_rules_project :: "rule list" where
  "member_rules_project =
    [
      can (map projectActions [ProjectPermissionActions.Read, ProjectPermissionActions.Edit,
        ProjectPermissionActions.Create,
        ProjectPermissionActions.Delete]) (projectSub ProjectPermissionSub.Integrations),
      can (map projectActions [ProjectPermissionActions.Read, ProjectPermissionActions.Edit,
        ProjectPermissionActions.Create,
        ProjectPermissionActions.Delete]) (projectSub ProjectPermissionSub.Webhooks),
      can (map identityActions [ProjectPermissionIdentityActions.Read,
        ProjectPermissionIdentityActions.Edit, ProjectPermissionIdentityActions.Create,
        ProjectPermissionIdentityActions.Delete]) (projectSub ProjectPermissionSub.Identity),
      can (map projectActions [ProjectPermissionActions.Read, ProjectPermissionActions.Edit,
        ProjectPermissionActions.Create,
        ProjectPermissionActions.Delete]) (projectSub ProjectPermissionSub.ServiceTokens),
      can (map honeyTokenActions [ProjectPermissionHoneyTokenActions.Read]) (projectSub ProjectPermissionSub.HoneyTokens),
      can (map proxiedServiceActions [ProjectPermissionProxiedServiceActions.Read,
        ProjectPermissionProxiedServiceActions.ReportUsage]) (projectSub ProjectPermissionSub.ProxiedServices),
      can (map projectActions [ProjectPermissionActions.Read, ProjectPermissionActions.Edit,
        ProjectPermissionActions.Create,
        ProjectPermissionActions.Delete]) (projectSub ProjectPermissionSub.Settings),
      can (map projectActions [ProjectPermissionActions.Read, ProjectPermissionActions.Edit,
        ProjectPermissionActions.Create,
        ProjectPermissionActions.Delete]) (projectSub ProjectPermissionSub.Environments),
      can (map projectActions [ProjectPermissionActions.Read, ProjectPermissionActions.Edit,
        ProjectPermissionActions.Create,
        ProjectPermissionActions.Delete]) (projectSub ProjectPermissionSub.Tags),
      can (map projectActions [ProjectPermissionActions.Read]) (projectSub ProjectPermissionSub.Role),
      can (map auditLogsActions [ProjectPermissionAuditLogsActions.Read]) (projectSub ProjectPermissionSub.AuditLogs),
      can (map insightsActions [ProjectPermissionInsightsActions.Read]) (projectSub ProjectPermissionSub.Insights),
      can (map projectActions [ProjectPermissionActions.Read]) (projectSub ProjectPermissionSub.IpAllowList),
      can (map certificateAuthorityActions [ProjectPermissionCertificateAuthorityActions.Read]) (projectSub ProjectPermissionSub.CertificateAuthorities),
      can (map certificatePolicyActions [ProjectPermissionCertificatePolicyActions.Read]) (projectSub ProjectPermissionSub.CertificatePolicies),
      can (map certificateProfileActions [ProjectPermissionCertificateProfileActions.Read]) (projectSub ProjectPermissionSub.CertificateProfiles),
      can (map codeSigningActions [ProjectPermissionCodeSigningActions.Read]) (projectSub ProjectPermissionSub.CodeSigners),
      can (map applicationActions [ProjectPermissionApplicationActions.Read,
        ProjectPermissionApplicationActions.List]) (projectSub ProjectPermissionSub.Application)]"

definition member_rules_services :: "rule list" where
  "member_rules_services =
    [
      can (map cmekActions [ProjectPermissionCmekActions.Create,
        ProjectPermissionCmekActions.Edit, ProjectPermissionCmekActions.Delete,
        ProjectPermissionCmekActions.Read, ProjectPermissionCmekActions.Encrypt,
        ProjectPermissionCmekActions.Decrypt, ProjectPermissionCmekActions.Sign,
        ProjectPermissionCmekActions.Verify, ProjectPermissionCmekActions.GenerateMac,
        ProjectPermissionCmekActions.VerifyMac,
        ProjectPermissionCmekActions.Rotate]) (projectSub ProjectPermissionSub.Cmek),
      can (map secretSyncActions [ProjectPermissionSecretSyncActions.Create,
        ProjectPermissionSecretSyncActions.Edit, ProjectPermissionSecretSyncActions.Delete,
        ProjectPermissionSecretSyncActions.Read, ProjectPermissionSecretSyncActions.SyncSecrets,
        ProjectPermissionSecretSyncActions.ImportSecrets,
        ProjectPermissionSecretSyncActions.RemoveSecrets]) (projectSub ProjectPermissionSub.SecretSyncs),
      can (map secretScanningDataSourceActions [ProjectPermissionSecretScanningDataSourceActions.Read,
        ProjectPermissionSecretScanningDataSourceActions.TriggerScans,
        ProjectPermissionSecretScanningDataSourceActions.ReadScans,
        ProjectPermissionSecretScanningDataSourceActions.ReadResources]) (projectSub ProjectPermissionSub.SecretScanningDataSources),
      can (map secretScanningFindingActions [ProjectPermissionSecretScanningFindingActions.Read,
        ProjectPermissionSecretScanningFindingActions.Update]) (projectSub ProjectPermissionSub.SecretScanningFindings),
      can (map secretScanningConfigActions [ProjectPermissionSecretScanningConfigActions.Read]) (projectSub ProjectPermissionSub.SecretScanningConfigs),
      can (map secretEventActions [ProjectPermissionSecretEventActions.SubscribeToCreationEvents,
        ProjectPermissionSecretEventActions.SubscribeToDeleteEvents,
        ProjectPermissionSecretEventActions.SubscribeToUpdateEvents,
        ProjectPermissionSecretEventActions.SubscribeToImportMutationEvents]) (projectSub ProjectPermissionSub.SecretEventSubscriptions),
      can1 (appConnectionActions ProjectPermissionAppConnectionActions.Connect) (projectSub ProjectPermissionSub.AppConnections),
      can (map hsmConnectorActions [ProjectPermissionHsmConnectorActions.Read,
        ProjectPermissionHsmConnectorActions.Test]) (projectSub ProjectPermissionSub.HsmConnectors),
      can (map approvalRequestActions [ProjectPermissionApprovalRequestActions.Create]) (projectSub ProjectPermissionSub.ApprovalRequests)]"

definition buildMemberPermissionRules :: "rule list" where
  "buildMemberPermissionRules =
    member_rules_secrets @
    member_rules_project @
    member_rules_services"

definition buildViewerPermissionRules :: "rule list" where
  "buildViewerPermissionRules =
    [
      can (map secretActions [ProjectPermissionSecretActions.DescribeSecret,
        ProjectPermissionSecretActions.ReadValue]) (projectSub ProjectPermissionSub.Secrets),
      can1 (dynamicSecretActions ProjectPermissionDynamicSecretActions.ReadRootCredential) (projectSub ProjectPermissionSub.DynamicSecrets),
      can1 (projectActions ProjectPermissionActions.Read) (projectSub ProjectPermissionSub.SecretImports),
      can1 (projectActions ProjectPermissionActions.Read) (projectSub ProjectPermissionSub.SecretApproval),
      can1 (projectActions ProjectPermissionActions.Read) (projectSub ProjectPermissionSub.SecretRollback),
      can1 (secretRotationActions ProjectPermissionSecretRotationActions.Read) (projectSub ProjectPermissionSub.SecretRotation),
      can1 (memberActions ProjectPermissionMemberActions.Read) (projectSub ProjectPermissionSub.Member),
      can1 (groupActions ProjectPermissionGroupActions.Read) (projectSub ProjectPermissionSub.Groups),
      can1 (projectActions ProjectPermissionActions.Read) (projectSub ProjectPermissionSub.Role),
      can1 (projectActions ProjectPermissionActions.Read) (projectSub ProjectPermissionSub.Integrations),
      can1 (projectActions ProjectPermissionActions.Read) (projectSub ProjectPermissionSub.Webhooks),
      can1 (identityActions ProjectPermissionIdentityActions.Read) (projectSub ProjectPermissionSub.Identity),
      can1 (projectActions ProjectPermissionActions.Read) (projectSub ProjectPermissionSub.ServiceTokens),
      can1 (honeyTokenActions ProjectPermissionHoneyTokenActions.Read) (projectSub ProjectPermissionSub.HoneyTokens),
      can (map proxiedServiceActions [ProjectPermissionProxiedServiceActions.Read,
        ProjectPermissionProxiedServiceActions.ReportUsage]) (projectSub ProjectPermissionSub.ProxiedServices),
      can1 (projectActions ProjectPermissionActions.Read) (projectSub ProjectPermissionSub.Settings),
      can1 (projectActions ProjectPermissionActions.Read) (projectSub ProjectPermissionSub.Environments),
      can1 (projectActions ProjectPermissionActions.Read) (projectSub ProjectPermissionSub.Tags),
      can1 (auditLogsActions ProjectPermissionAuditLogsActions.Read) (projectSub ProjectPermissionSub.AuditLogs),
      can1 (insightsActions ProjectPermissionInsightsActions.Read) (projectSub ProjectPermissionSub.Insights),
      can1 (projectActions ProjectPermissionActions.Read) (projectSub ProjectPermissionSub.IpAllowList),
      can1 (certificateAuthorityActions ProjectPermissionCertificateAuthorityActions.Read) (projectSub ProjectPermissionSub.CertificateAuthorities),
      can1 (certificateActions ProjectPermissionCertificateActions.Read) (projectSub ProjectPermissionSub.Certificates),
      can (map projectActions [ProjectPermissionActions.Read]) (projectSub ProjectPermissionSub.CertificateInventoryViews),
      can1 (pkiTemplateActions ProjectPermissionPkiTemplateActions.Read) (projectSub ProjectPermissionSub.CertificateTemplates),
      can1 (certificatePolicyActions ProjectPermissionCertificatePolicyActions.Read) (projectSub ProjectPermissionSub.CertificatePolicies),
      can1 (cmekActions ProjectPermissionCmekActions.Read) (projectSub ProjectPermissionSub.Cmek),
      can1 (secretSyncActions ProjectPermissionSecretSyncActions.Read) (projectSub ProjectPermissionSub.SecretSyncs),
      can1 (pkiSyncActions ProjectPermissionPkiSyncActions.Read) (projectSub ProjectPermissionSub.PkiSyncs),
      can (map applicationActions [ProjectPermissionApplicationActions.Read,
        ProjectPermissionApplicationActions.List]) (projectSub ProjectPermissionSub.Application),
      can1 (pkiDiscoveryActions ProjectPermissionPkiDiscoveryActions.Read) (projectSub ProjectPermissionSub.PkiDiscovery),
      can1 (pkiCertificateInstallationActions ProjectPermissionPkiCertificateInstallationActions.Read) (projectSub ProjectPermissionSub.PkiCertificateInstallations),
      can1 (codeSigningActions ProjectPermissionCodeSigningActions.Read) (projectSub ProjectPermissionSub.CodeSigners),
      can1 (commitsActions ProjectPermissionCommitsActions.Read) (projectSub ProjectPermissionSub.Commits),
      can (map secretScanningDataSourceActions [ProjectPermissionSecretScanningDataSourceActions.Read,
        ProjectPermissionSecretScanningDataSourceActions.ReadScans,
        ProjectPermissionSecretScanningDataSourceActions.ReadResources]) (projectSub ProjectPermissionSub.SecretScanningDataSources),
      can (map secretScanningFindingActions [ProjectPermissionSecretScanningFindingActions.Read]) (projectSub ProjectPermissionSub.SecretScanningFindings),
      can (map secretScanningConfigActions [ProjectPermissionSecretScanningConfigActions.Read]) (projectSub ProjectPermissionSub.SecretScanningConfigs),
      can (map secretEventActions [ProjectPermissionSecretEventActions.SubscribeToCreationEvents,
        ProjectPermissionSecretEventActions.SubscribeToDeleteEvents,
        ProjectPermissionSecretEventActions.SubscribeToUpdateEvents,
        ProjectPermissionSecretEventActions.SubscribeToImportMutationEvents]) (projectSub ProjectPermissionSub.SecretEventSubscriptions)]"

definition buildNoAccessProjectPermission :: "rule list" where
  "buildNoAccessProjectPermission =
    []"

definition buildPamProjectMemberPermissionRules :: "rule list" where
  "buildPamProjectMemberPermissionRules =
    [
      can (map memberActions [ProjectPermissionMemberActions.Read]) (projectSub ProjectPermissionSub.Member),
      can (map groupActions [ProjectPermissionGroupActions.Read]) (projectSub ProjectPermissionSub.Groups),
      can (map identityActions [ProjectPermissionIdentityActions.Read]) (projectSub ProjectPermissionSub.Identity)]"

definition buildCryptographicOperatorPermissionRules :: "rule list" where
  "buildCryptographicOperatorPermissionRules =
    [
      can (map cmekActions [ProjectPermissionCmekActions.Encrypt,
        ProjectPermissionCmekActions.Decrypt, ProjectPermissionCmekActions.Sign,
        ProjectPermissionCmekActions.Verify, ProjectPermissionCmekActions.GenerateMac,
        ProjectPermissionCmekActions.VerifyMac]) (projectSub ProjectPermissionSub.Cmek)]"

section \<open>Roles on one resource\<close>

definition buildApplicationAdminPermissionRules :: "rule list" where
  "buildApplicationAdminPermissionRules =
    [
      can (map resourceApplicationActions [ResourcePermissionApplicationActions.Read,
        ResourcePermissionApplicationActions.Edit,
        ResourcePermissionApplicationActions.Delete]) (resourceSub ResourcePermissionSub.Application),
      can (map resourceApplicationEnrollmentActions [ResourcePermissionApplicationEnrollmentActions.Read,
        ResourcePermissionApplicationEnrollmentActions.Edit,
        ResourcePermissionApplicationEnrollmentActions.RevealAcmeEabSecret,
        ResourcePermissionApplicationEnrollmentActions.RotateAcmeEabSecret,
        ResourcePermissionApplicationEnrollmentActions.GenerateScepChallenge]) (resourceSub ResourcePermissionSub.ApplicationEnrollment),
      can (map resourceApprovalPolicyActions [ResourcePermissionApprovalPolicyActions.Read,
        ResourcePermissionApprovalPolicyActions.Create,
        ResourcePermissionApprovalPolicyActions.Edit,
        ResourcePermissionApprovalPolicyActions.Delete]) (resourceSub ResourcePermissionSub.ApprovalPolicies),
      can (map resourceCertificateActions [ResourcePermissionCertificateActions.Read,
        ResourcePermissionCertificateActions.List, ResourcePermissionCertificateActions.Create,
        ResourcePermissionCertificateActions.Edit, ResourcePermissionCertificateActions.Delete,
        ResourcePermissionCertificateActions.ReadPrivateKey,
        ResourcePermissionCertificateActions.Import]) (resourceSub ResourcePermissionSub.Certificates),
      can (map projectActions [ProjectPermissionActions.Read, ProjectPermissionActions.Create,
        ProjectPermissionActions.Edit,
        ProjectPermissionActions.Delete]) (resourceSub ResourcePermissionSub.CertificateInventoryViews),
      can (map resourcePkiSyncActions [ResourcePermissionPkiSyncActions.Read,
        ResourcePermissionPkiSyncActions.List, ResourcePermissionPkiSyncActions.Create,
        ResourcePermissionPkiSyncActions.Edit, ResourcePermissionPkiSyncActions.Delete,
        ResourcePermissionPkiSyncActions.SyncCertificates,
        ResourcePermissionPkiSyncActions.ImportCertificates,
        ResourcePermissionPkiSyncActions.RemoveCertificates,
        ResourcePermissionPkiSyncActions.SetPostSyncCommand,
        ResourcePermissionPkiSyncActions.SetHealthCheckCommand]) (resourceSub ResourcePermissionSub.PkiSyncs),
      can (map projectActions [ProjectPermissionActions.Read, ProjectPermissionActions.Create,
        ProjectPermissionActions.Edit,
        ProjectPermissionActions.Delete]) (resourceSub ResourcePermissionSub.PkiAlerts),
      can (map approvalRequestActions [ProjectPermissionApprovalRequestActions.Read,
        ProjectPermissionApprovalRequestActions.Create]) (resourceSub ResourcePermissionSub.ApprovalRequests),
      can (map approvalRequestGrantActions [ProjectPermissionApprovalRequestGrantActions.Read,
        ProjectPermissionApprovalRequestGrantActions.Revoke]) (resourceSub ResourcePermissionSub.ApprovalRequestGrants),
      can (map memberActions [ProjectPermissionMemberActions.Read,
        ProjectPermissionMemberActions.Create, ProjectPermissionMemberActions.Edit,
        ProjectPermissionMemberActions.Delete, ProjectPermissionMemberActions.GrantPrivileges,
        ProjectPermissionMemberActions.AssignRole]) (resourceSub ResourcePermissionSub.Member),
      can (map certificateProfileActions [ProjectPermissionCertificateProfileActions.Read,
        ProjectPermissionCertificateProfileActions.IssueCert]) (projectSub ProjectPermissionSub.CertificateProfiles)]"

definition buildApplicationOperatorPermissionRules :: "rule list" where
  "buildApplicationOperatorPermissionRules =
    [
      can (map resourceApplicationActions [ResourcePermissionApplicationActions.Read]) (resourceSub ResourcePermissionSub.Application),
      can (map resourceApplicationEnrollmentActions [ResourcePermissionApplicationEnrollmentActions.Read,
        ResourcePermissionApplicationEnrollmentActions.GenerateScepChallenge]) (resourceSub ResourcePermissionSub.ApplicationEnrollment),
      can (map resourceApprovalPolicyActions [ResourcePermissionApprovalPolicyActions.Read]) (resourceSub ResourcePermissionSub.ApprovalPolicies),
      can (map resourceCertificateActions [ResourcePermissionCertificateActions.Read,
        ResourcePermissionCertificateActions.List, ResourcePermissionCertificateActions.Create,
        ResourcePermissionCertificateActions.Edit,
        ResourcePermissionCertificateActions.ReadPrivateKey,
        ResourcePermissionCertificateActions.Import]) (resourceSub ResourcePermissionSub.Certificates),
      can (map projectActions [ProjectPermissionActions.Read, ProjectPermissionActions.Create,
        ProjectPermissionActions.Edit,
        ProjectPermissionActions.Delete]) (resourceSub ResourcePermissionSub.CertificateInventoryViews),
      can (map resourcePkiSyncActions [ResourcePermissionPkiSyncActions.Read,
        ResourcePermissionPkiSyncActions.List,
        ResourcePermissionPkiSyncActions.SyncCertificates]) (resourceSub ResourcePermissionSub.PkiSyncs),
      can (map projectActions [ProjectPermissionActions.Read]) (resourceSub ResourcePermissionSub.PkiAlerts),
      can (map approvalRequestActions [ProjectPermissionApprovalRequestActions.Read,
        ProjectPermissionApprovalRequestActions.Create]) (resourceSub ResourcePermissionSub.ApprovalRequests),
      can (map approvalRequestGrantActions [ProjectPermissionApprovalRequestGrantActions.Read]) (resourceSub ResourcePermissionSub.ApprovalRequestGrants),
      can (map certificateProfileActions [ProjectPermissionCertificateProfileActions.Read,
        ProjectPermissionCertificateProfileActions.IssueCert]) (projectSub ProjectPermissionSub.CertificateProfiles)]"

definition buildApplicationAuditorPermissionRules :: "rule list" where
  "buildApplicationAuditorPermissionRules =
    [
      can (map resourceApplicationActions [ResourcePermissionApplicationActions.Read]) (resourceSub ResourcePermissionSub.Application),
      can (map resourceApplicationEnrollmentActions [ResourcePermissionApplicationEnrollmentActions.Read]) (resourceSub ResourcePermissionSub.ApplicationEnrollment),
      can (map resourceApprovalPolicyActions [ResourcePermissionApprovalPolicyActions.Read]) (resourceSub ResourcePermissionSub.ApprovalPolicies),
      can (map resourceCertificateActions [ResourcePermissionCertificateActions.Read,
        ResourcePermissionCertificateActions.List]) (resourceSub ResourcePermissionSub.Certificates),
      can (map projectActions [ProjectPermissionActions.Read]) (resourceSub ResourcePermissionSub.CertificateInventoryViews),
      can (map resourcePkiSyncActions [ResourcePermissionPkiSyncActions.Read,
        ResourcePermissionPkiSyncActions.List]) (resourceSub ResourcePermissionSub.PkiSyncs),
      can (map projectActions [ProjectPermissionActions.Read]) (resourceSub ResourcePermissionSub.PkiAlerts),
      can (map approvalRequestActions [ProjectPermissionApprovalRequestActions.Read]) (resourceSub ResourcePermissionSub.ApprovalRequests),
      can (map approvalRequestGrantActions [ProjectPermissionApprovalRequestGrantActions.Read]) (resourceSub ResourcePermissionSub.ApprovalRequestGrants),
      can (map certificateProfileActions [ProjectPermissionCertificateProfileActions.Read]) (projectSub ProjectPermissionSub.CertificateProfiles)]"

definition buildProjectAdminApplicationFallbackRules :: "rule list" where
  "buildProjectAdminApplicationFallbackRules =
    [
      can (map resourceApplicationActions [ResourcePermissionApplicationActions.Read,
        ResourcePermissionApplicationActions.ManageProfiles]) (resourceSub ResourcePermissionSub.Application),
      can (map memberActions [ProjectPermissionMemberActions.Read,
        ProjectPermissionMemberActions.Create, ProjectPermissionMemberActions.Edit,
        ProjectPermissionMemberActions.Delete, ProjectPermissionMemberActions.GrantPrivileges,
        ProjectPermissionMemberActions.AssignRole]) (resourceSub ResourcePermissionSub.Member),
      can (map resourceCertificateActions [ResourcePermissionCertificateActions.Read,
        ResourcePermissionCertificateActions.List]) (resourceSub ResourcePermissionSub.Certificates)]"

definition buildSignerAdminPermissionRules :: "rule list" where
  "buildSignerAdminPermissionRules =
    [
      can (map resourceSignerActions [ResourcePermissionSignerActions.Read,
        ResourcePermissionSignerActions.Edit, ResourcePermissionSignerActions.Delete,
        ResourcePermissionSignerActions.ManageStatus,
        ResourcePermissionSignerActions.ManageMembers,
        ResourcePermissionSignerActions.ManagePolicy, ResourcePermissionSignerActions.Sign,
        ResourcePermissionSignerActions.RequestSign, ResourcePermissionSignerActions.PreApprove,
        ResourcePermissionSignerActions.RevokeRequest,
        ResourcePermissionSignerActions.ReissueCertificate,
        ResourcePermissionSignerActions.ExportCertificate]) (resourceSub ResourcePermissionSub.Signer)]"

definition buildSignerOperatorPermissionRules :: "rule list" where
  "buildSignerOperatorPermissionRules =
    [
      can (map resourceSignerActions [ResourcePermissionSignerActions.Read,
        ResourcePermissionSignerActions.Sign, ResourcePermissionSignerActions.RequestSign,
        ResourcePermissionSignerActions.ExportCertificate]) (resourceSub ResourcePermissionSub.Signer)]"

definition buildSignerAuditorPermissionRules :: "rule list" where
  "buildSignerAuditorPermissionRules =
    [
      can (map resourceSignerActions [ResourcePermissionSignerActions.Read,
        ResourcePermissionSignerActions.ExportCertificate]) (resourceSub ResourcePermissionSub.Signer)]"

definition buildProjectAdminSignerFallbackRules :: "rule list" where
  "buildProjectAdminSignerFallbackRules =
    [
      can (map resourceSignerActions [ResourcePermissionSignerActions.Read,
        ResourcePermissionSignerActions.ManageMembers]) (resourceSub ResourcePermissionSub.Signer)]"

definition buildPamResourceAdminPermissionRules :: "rule list" where
  "buildPamResourceAdminPermissionRules =
    [
      can (map resourcePamResourceActions [ResourcePermissionPamResourceActions.ReadFolder,
        ResourcePermissionPamResourceActions.EditFolder,
        ResourcePermissionPamResourceActions.DeleteFolder,
        ResourcePermissionPamResourceActions.ReadAccounts,
        ResourcePermissionPamResourceActions.CreateAccounts,
        ResourcePermissionPamResourceActions.EditAccounts,
        ResourcePermissionPamResourceActions.DeleteAccounts,
        ResourcePermissionPamResourceActions.LaunchSessions,
        ResourcePermissionPamResourceActions.ViewSessions,
        ResourcePermissionPamResourceActions.TerminateSessions,
        ResourcePermissionPamResourceActions.ViewCredentials,
        ResourcePermissionPamResourceActions.ApproveRequests,
        ResourcePermissionPamResourceActions.RevokeGrants,
        ResourcePermissionPamResourceActions.ManagePolicies,
        ResourcePermissionPamResourceActions.ManageRotation,
        ResourcePermissionPamResourceActions.ManageMembers,
        ResourcePermissionPamResourceActions.ViewAuditLogs]) (resourceSub ResourcePermissionSub.PamResource)]"

definition buildPamResourceConnectorPermissionRules :: "rule list" where
  "buildPamResourceConnectorPermissionRules =
    [
      can (map resourcePamResourceActions [ResourcePermissionPamResourceActions.ReadFolder,
        ResourcePermissionPamResourceActions.ReadAccounts,
        ResourcePermissionPamResourceActions.LaunchSessions]) (resourceSub ResourcePermissionSub.PamResource)]"

definition buildPamResourceAuditorPermissionRules :: "rule list" where
  "buildPamResourceAuditorPermissionRules =
    [
      can (map resourcePamResourceActions [ResourcePermissionPamResourceActions.ReadFolder,
        ResourcePermissionPamResourceActions.ReadAccounts,
        ResourcePermissionPamResourceActions.ViewSessions,
        ResourcePermissionPamResourceActions.ViewAuditLogs]) (resourceSub ResourcePermissionSub.PamResource)]"

section \<open>The exported rule sets\<close>

definition projectAdminPermissions :: "rule list" where
  "projectAdminPermissions = buildAdminPermissionRules"

definition projectMemberPermissions :: "rule list" where
  "projectMemberPermissions = buildMemberPermissionRules"

definition projectViewerPermission :: "rule list" where
  "projectViewerPermission = buildViewerPermissionRules"

definition projectNoAccessPermissions :: "rule list" where
  "projectNoAccessPermissions = buildNoAccessProjectPermission"

definition cryptographicOperatorPermissions :: "rule list" where
  "cryptographicOperatorPermissions = buildCryptographicOperatorPermissionRules"

definition applicationAdminPermissions :: "rule list" where
  "applicationAdminPermissions = buildApplicationAdminPermissionRules"

definition applicationOperatorPermissions :: "rule list" where
  "applicationOperatorPermissions = buildApplicationOperatorPermissionRules"

definition applicationAuditorPermissions :: "rule list" where
  "applicationAuditorPermissions = buildApplicationAuditorPermissionRules"

definition projectAdminApplicationFallbackPermissions :: "rule list" where
  "projectAdminApplicationFallbackPermissions = buildProjectAdminApplicationFallbackRules"

definition signerAdminPermissions :: "rule list" where
  "signerAdminPermissions = buildSignerAdminPermissionRules"

definition signerOperatorPermissions :: "rule list" where
  "signerOperatorPermissions = buildSignerOperatorPermissionRules"

definition signerAuditorPermissions :: "rule list" where
  "signerAuditorPermissions = buildSignerAuditorPermissionRules"

definition projectAdminSignerFallbackPermissions :: "rule list" where
  "projectAdminSignerFallbackPermissions = buildProjectAdminSignerFallbackRules"

definition pamProjectAdminPermissions :: "rule list" where
  "pamProjectAdminPermissions = projectAdminPermissions"

definition pamProjectMemberPermissions :: "rule list" where
  "pamProjectMemberPermissions = buildPamProjectMemberPermissionRules"

definition pamResourceAdminPermissions :: "rule list" where
  "pamResourceAdminPermissions = buildPamResourceAdminPermissionRules"

definition pamResourceConnectorPermissions :: "rule list" where
  "pamResourceConnectorPermissions = buildPamResourceConnectorPermissionRules"

definition pamResourceAuditorPermissions :: "rule list" where
  "pamResourceAuditorPermissions = buildPamResourceAuditorPermissionRules"

section \<open>Comparing roles\<close>

text \<open>
  The action and subject pairs a rule list names, and the shape all role tables have: granting
  rules without conditions on one subject each. For such lists the permission boundary is
  inclusion of the pairs.
\<close>

definition grants :: "rule list \<Rightarrow> (string \<times> string) list" where
  "grants rs = concat (map (\<lambda>r. map (\<lambda>a. (a, subject_toString (rule_subject r))) (action_list (rule_action r))) rs)"

definition plain_grant :: "rule \<Rightarrow> bool" where
  "plain_grant r \<longleftrightarrow> \<not> inverted r \<and> conditions r = None \<and>
     (case rule_subject r of OneSubject s \<Rightarrow> True | ManySubjects ss \<Rightarrow> False)"

lemma grants_append [simp]: "grants (xs @ ys) = grants xs @ grants ys"
  by (simp add: grants_def)

lemma plain_grant_simps [simp]: "plain_grant (can as s)" "plain_grant (can1 a s)" "\<not> plain_grant (cannot as s)"
  by (simp_all add: plain_grant_def can_def can1_def cannot_def)

lemma grants_iff:
  assumes "list_all plain_grant rs"
  shows "(a, s) \<in> set (grants rs) \<longleftrightarrow> possibleRulesFor (direct_ability rs) a s \<noteq> []"
  using assms
  by (induction rs)
    (auto simp: grants_def direct_ability_def plain_grant_def subject_toString_def filter_empty_conv
      split: subjects.splits)

lemma covered_plain:
  assumes "list_all plain_grant ps"
  shows "covered isM isGlob (direct_ability ps) ab a s \<longleftrightarrow> (a, s) \<in> set (grants ps)"
proof -
  have all: "list_all (\<lambda>r. \<not> inverted r \<and> conditions r = None) (possibleRulesFor (direct_ability ps) a s)"
    using assms by (auto simp: direct_ability_def list_all_iff plain_grant_def)
  then have "list_ex (\<lambda>r. \<not> inverted r) (possibleRulesFor (direct_ability ps) a s) \<longleftrightarrow>
      possibleRulesFor (direct_ability ps) a s \<noteq> []"
    by (cases "possibleRulesFor (direct_ability ps) a s") auto
  with all show ?thesis by (simp add: covered_iff grants_iff [OF assms])
qed

lemma needs_check_grants:
  "needs_check rs a s \<longleftrightarrow> (a, s) \<in> set (grants rs) \<and> getPermissionSetID a s \<notin> set IGNORED_PERMISSIONS"
  by (auto simp: needs_check_def grants_def list_ex_iff)

lemma colon_free_grants: "colon_free rs \<longleftrightarrow> list_all (\<lambda>(a, s). CHR '':'' \<notin> set a) (grants rs)"
  by (auto simp: colon_free_def grants_def list_all_iff)

text \<open>
  Evaluating the inclusion on the tables: the actions a list names on one subject, and the pairs
  of one list that another one lacks.
\<close>

definition actions_on :: "rule list \<Rightarrow> string \<Rightarrow> string list" where
  "actions_on rs s = map fst (filter (\<lambda>g. snd g = s) (grants rs))"

definition extra_grants :: "rule list \<Rightarrow> rule list \<Rightarrow> (string \<times> string) list" where
  "extra_grants ps cs =
     concat (map (\<lambda>r. let s = subject_toString (rule_subject r) in
       map (\<lambda>a. (a, s)) (filter (\<lambda>a. a \<notin> set (actions_on ps s)) (action_list (rule_action r)))) cs)"

lemma actions_on_simps [simp]:
  "actions_on [] s = []"
  "actions_on (can as t # rs) s = (if t = s then as @ actions_on rs s else actions_on rs s)"
  "actions_on (can1 a t # rs) s = (if t = s then a # actions_on rs s else actions_on rs s)"
  "actions_on (cannot as t # rs) s = (if t = s then as @ actions_on rs s else actions_on rs s)"
  "actions_on (rs @ rs') s = actions_on rs s @ actions_on rs' s"
  by (auto simp: actions_on_def filter_map o_def grants_def can_def can1_def cannot_def action_list_def
      subject_toString_def)

lemma extra_grants_simps [simp]:
  "extra_grants ps [] = []"
  "extra_grants ps (can as t # cs) =
     map (\<lambda>a. (a, t)) (filter (\<lambda>a. a \<notin> set (actions_on ps t)) as) @ extra_grants ps cs"
  "extra_grants ps (can1 a t # cs) =
     map (\<lambda>a. (a, t)) (filter (\<lambda>a. a \<notin> set (actions_on ps t)) [a]) @ extra_grants ps cs"
  "extra_grants ps (cs @ cs') = extra_grants ps cs @ extra_grants ps cs'"
  by (simp_all add: extra_grants_def can_def can1_def action_list_def subject_toString_def)

lemma actions_on_iff: "a \<in> set (actions_on rs s) \<longleftrightarrow> (a, s) \<in> set (grants rs)"
  by (force simp: actions_on_def)

lemma set_extra_grants: "set (extra_grants ps cs) = set (grants cs) - set (grants ps)"
  by (auto simp: extra_grants_def actions_on_iff Let_def) (auto simp: grants_def)

lemma boundary_plain:
  assumes "list_all plain_grant ps" "colon_free cs"
  shows "validatePermissionBoundary isM isGlob (direct_ability ps) (direct_ability cs) = ValidBoundary \<longleftrightarrow>
     (\<forall>(a, s) \<in> set (extra_grants ps cs). getPermissionSetID a s \<in> set IGNORED_PERMISSIONS)"
proof -
  have r: "rules (direct_ability cs) = cs" by (simp add: direct_ability_def)
  show ?thesis
    using validate_covered [of "direct_ability cs" isM isGlob "direct_ability ps"] assms(2)
    by (auto simp: r covered_plain [OF assms(1)] needs_check_grants set_extra_grants)
qed

text \<open>What a refusal between two such lists reports.\<close>

lemma boundary_plain_missing:
  assumes "list_all plain_grant ps" "colon_free cs" "set (extra_grants ps cs) = S" "S \<noteq> {}"
    and "list_all (\<lambda>(a, s). getPermissionSetID a s \<notin> set IGNORED_PERMISSIONS) (extra_grants ps cs)"
  shows "\<exists>ms. validatePermissionBoundary isM isGlob (direct_ability ps) (direct_ability cs) = InvalidBoundary ms \<and>
     (\<lambda>m. (missing_action m, missing_subject m)) ` set ms = S"
proof -
  let ?p = "direct_ability ps" and ?c = "direct_ability cs"
  let ?st = "fold (boundary_step isM isGlob ?p ?c) (rules ?c) ([], [])"
  have r: "rules ?c = cs" by (simp add: direct_ability_def)
  have S: "S = {(a, s). needs_check cs a s \<and> \<not> covered isM isGlob ?p ?c a s}"
    using assms(3,5) set_extra_grants [of ps cs]
    by (auto simp: covered_plain [OF assms(1)] needs_check_grants list_all_iff)
  with reported_pairs [of ?c isM isGlob ?p] assms(2)
  have "(\<lambda>m. (missing_action m, missing_subject m)) ` set (snd ?st) = S" by (simp add: r)
  with assms(4) show ?thesis
    by (auto simp: validatePermissionBoundary_def Let_def)
qed

lemmas role_tables =
  projectAdminPermissions_def buildAdminPermissionRules_def admin_rules_project_def admin_rules_pki_def
  admin_rules_members_def admin_rules_secrets_def admin_rules_machines_def admin_rules_scanning_def
  admin_rules_requests_def
  projectMemberPermissions_def buildMemberPermissionRules_def member_rules_secrets_def
  member_rules_project_def member_rules_services_def
  projectViewerPermission_def buildViewerPermissionRules_def
  projectNoAccessPermissions_def buildNoAccessProjectPermission_def
  cryptographicOperatorPermissions_def buildCryptographicOperatorPermissionRules_def
  pamProjectAdminPermissions_def pamProjectMemberPermissions_def buildPamProjectMemberPermissionRules_def

lemmas resource_tables =
  applicationAdminPermissions_def buildApplicationAdminPermissionRules_def
  applicationOperatorPermissions_def buildApplicationOperatorPermissionRules_def
  applicationAuditorPermissions_def buildApplicationAuditorPermissionRules_def
  projectAdminApplicationFallbackPermissions_def buildProjectAdminApplicationFallbackRules_def
  signerAdminPermissions_def buildSignerAdminPermissionRules_def
  signerOperatorPermissions_def buildSignerOperatorPermissionRules_def
  signerAuditorPermissions_def buildSignerAuditorPermissionRules_def
  projectAdminSignerFallbackPermissions_def buildProjectAdminSignerFallbackRules_def
  pamResourceAdminPermissions_def buildPamResourceAdminPermissionRules_def
  pamResourceConnectorPermissions_def buildPamResourceConnectorPermissionRules_def
  pamResourceAuditorPermissions_def buildPamResourceAuditorPermissionRules_def

lemma resource_subject_no_profile:
  "resourceSub s \<noteq> projectSub ProjectPermissionSub.CertificateProfiles"
  "projectSub ProjectPermissionSub.CertificateProfiles \<noteq> resourceSub s"
  by (cases s; simp)+

lemmas subject_names = projectSub_inject resourceSub_inject resource_subject_no_profile

lemma role_tables_plain:
  "list_all plain_grant projectAdminPermissions" "list_all plain_grant projectMemberPermissions"
  "list_all plain_grant applicationAdminPermissions" "list_all plain_grant applicationOperatorPermissions"
  "list_all plain_grant signerAdminPermissions" "list_all plain_grant signerOperatorPermissions"
  "list_all plain_grant pamResourceAdminPermissions"
  by (simp_all add: role_tables resource_tables)

lemma role_tables_colon_free:
  "colon_free projectMemberPermissions" "colon_free projectViewerPermission"
  "colon_free projectNoAccessPermissions" "colon_free cryptographicOperatorPermissions"
  "colon_free pamProjectMemberPermissions"
  by (simp_all add: colon_free_def can_def can1_def action_list_def role_tables)

lemma resource_tables_colon_free:
  "colon_free applicationOperatorPermissions" "colon_free applicationAuditorPermissions"
  "colon_free projectAdminApplicationFallbackPermissions"
  "colon_free signerOperatorPermissions" "colon_free signerAuditorPermissions"
  "colon_free projectAdminSignerFallbackPermissions"
  "colon_free pamResourceConnectorPermissions" "colon_free pamResourceAuditorPermissions"
  by (simp_all add: colon_free_def can_def can1_def action_list_def resource_tables)

lemma nothing_beyond_admin:
  "extra_grants projectAdminPermissions projectMemberPermissions = []"
  "extra_grants projectAdminPermissions projectViewerPermission = []"
  "extra_grants projectAdminPermissions projectNoAccessPermissions = []"
  "extra_grants projectAdminPermissions cryptographicOperatorPermissions = []"
  "extra_grants projectAdminPermissions pamProjectMemberPermissions = []"
  by (simp_all add: role_tables subject_names del: permission_names)

lemma viewer_beyond_member:
  "extra_grants projectMemberPermissions projectViewerPermission =
     [(''read'', ''certificates''), (''read'', ''certificate-inventory-views''),
      (''read'', ''certificate-templates''), (''read'', ''pki-syncs''), (''read'', ''pki-discovery''),
      (''read'', ''pki-certificate-installations'')]"
  apply (simp add: role_tables subject_names del: permission_names)
  apply simp
  done

lemma resource_roles_nested:
  "extra_grants applicationAdminPermissions applicationOperatorPermissions = []"
  "extra_grants applicationOperatorPermissions applicationAuditorPermissions = []"
  "extra_grants signerAdminPermissions signerOperatorPermissions = []"
  "extra_grants signerOperatorPermissions signerAuditorPermissions = []"
  "extra_grants signerAdminPermissions projectAdminSignerFallbackPermissions = []"
  "extra_grants pamResourceAdminPermissions pamResourceConnectorPermissions = []"
  "extra_grants pamResourceAdminPermissions pamResourceAuditorPermissions = []"
  by (simp_all add: resource_tables subject_names del: permission_names)

lemma fallback_beyond_application_admin:
  "extra_grants applicationAdminPermissions projectAdminApplicationFallbackPermissions =
     [(''manage-profiles'', ''certificate-application'')]"
  apply (simp add: resource_tables subject_names del: permission_names)
  apply simp
  done

section \<open>Properties\<close>

definition rules_within ::
  "(string \<Rightarrow> string \<Rightarrow> bool) \<Rightarrow> (string \<Rightarrow> bool) \<Rightarrow> rule list \<Rightarrow> rule list \<Rightarrow> bool" where
  "rules_within isM isGlob child parent \<longleftrightarrow>
     validatePermissionBoundary isM isGlob (direct_ability parent) (direct_ability child) = ValidBoundary"

lemma rules_within_plain:
  "list_all plain_grant ps \<Longrightarrow> colon_free cs \<Longrightarrow> extra_grants ps cs = [] \<Longrightarrow> rules_within isM isGlob cs ps"
  by (simp add: rules_within_def boundary_plain)

text \<open>
  a project admin may hand out every other built-in role: each of them lies within the admin's
  permission boundary, whatever the glob library answers.
\<close>

theorem builtin_roles_within_admin:
  "list_all (\<lambda>r. rules_within isM isGlob r projectAdminPermissions)
     [projectMemberPermissions, projectViewerPermission, projectNoAccessPermissions,
      cryptographicOperatorPermissions, pamProjectMemberPermissions]"
  by (simp add: rules_within_plain role_tables_plain role_tables_colon_free nothing_beyond_admin)

text \<open>
  the viewer role is not a part of the member role. A caller who holds the member role is
  refused when it hands out the viewer role, and the report names exactly six read permissions of
  the certificate product that viewers have and members lack.
\<close>

theorem viewer_exceeds_member:
  "\<exists>ms. validatePermissionBoundary isM isGlob (direct_ability projectMemberPermissions)
          (direct_ability projectViewerPermission) = InvalidBoundary ms \<and>
     (\<lambda>m. (missing_action m, missing_subject m)) ` set ms =
       {(''read'', ''certificates''), (''read'', ''certificate-inventory-views''),
        (''read'', ''certificate-templates''), (''read'', ''pki-syncs''), (''read'', ''pki-discovery''),
        (''read'', ''pki-certificate-installations'')}"
  by (rule boundary_plain_missing)
    (simp_all add: role_tables_plain role_tables_colon_free viewer_beyond_member getPermissionSetID_def
      IGNORED_PERMISSIONS_def)

text \<open>
  the roles on one resource are tiers. Auditor lies within operator and operator within admin
  for certificate applications and for signers, the two restricted roles of a privileged account
  lie within its admin, and the fallback of project admins on a signer lies within the signer
  admin. On an application the fallback has one permission more than the application admin:
  attaching certificate profiles.
\<close>

theorem resource_roles_are_tiers:
  "list_all (\<lambda>(lower, upper). rules_within isM isGlob lower upper)
     [(applicationAuditorPermissions, applicationOperatorPermissions),
      (applicationOperatorPermissions, applicationAdminPermissions),
      (signerAuditorPermissions, signerOperatorPermissions),
      (signerOperatorPermissions, signerAdminPermissions),
      (projectAdminSignerFallbackPermissions, signerAdminPermissions),
      (pamResourceConnectorPermissions, pamResourceAdminPermissions),
      (pamResourceAuditorPermissions, pamResourceAdminPermissions)] \<and>
   set (grants projectAdminApplicationFallbackPermissions) - set (grants applicationAdminPermissions) =
     {(''manage-profiles'', ''certificate-application'')}"
  using set_extra_grants [of applicationAdminPermissions projectAdminApplicationFallbackPermissions]
  by (simp add: rules_within_plain role_tables_plain resource_tables_colon_free resource_roles_nested
      fallback_beyond_application_admin)

text \<open>
  The actions with which a holder could widen its own or another's access: assigning roles and
  privileges, assuming the privileges of another actor, changing roles, managing folder access,
  and setting how an identity authenticates.
\<close>

definition escalating :: "rule list" where
  "escalating =
     [can (map memberActions [ProjectPermissionMemberActions.GrantPrivileges,
        ProjectPermissionMemberActions.AssignRole, ProjectPermissionMemberActions.AssignAdditionalPrivileges,
        ProjectPermissionMemberActions.AssumePrivileges, ProjectPermissionMemberActions.Edit])
        (projectSub ProjectPermissionSub.Member),
      can (map groupActions [ProjectPermissionGroupActions.GrantPrivileges,
        ProjectPermissionGroupActions.AssignRole, ProjectPermissionGroupActions.Edit])
        (projectSub ProjectPermissionSub.Groups),
      can (map identityActions [ProjectPermissionIdentityActions.GrantPrivileges,
        ProjectPermissionIdentityActions.AssignRole, ProjectPermissionIdentityActions.AssignAdditionalPrivileges,
        ProjectPermissionIdentityActions.AssumePrivileges, ProjectPermissionIdentityActions.EditAuth])
        (projectSub ProjectPermissionSub.Identity),
      can (map projectActions [ProjectPermissionActions.Create, ProjectPermissionActions.Edit,
        ProjectPermissionActions.Delete]) (projectSub ProjectPermissionSub.Role),
      can (map secretFolderActions [ProjectPermissionSecretFolderActions.ManageAccess])
        (projectSub ProjectPermissionSub.SecretFolders)]"

lemma escalating_names:
  "memberActions m = memberActions m' \<longleftrightarrow> m = m'" "groupActions g = groupActions g' \<longleftrightarrow> g = g'"
  "identityActions i = identityActions i' \<longleftrightarrow> i = i'" "projectActions p = projectActions p' \<longleftrightarrow> p = p'"
  "projectActions p \<noteq> secretFolderActions f" "secretFolderActions f \<noteq> projectActions p"
proof -
  show "memberActions m = memberActions m' \<longleftrightarrow> m = m'" by (cases m; cases m') simp_all
  show "groupActions g = groupActions g' \<longleftrightarrow> g = g'" by (cases g; cases g') simp_all
  show "identityActions i = identityActions i' \<longleftrightarrow> i = i'" by (cases i; cases i') simp_all
  show "projectActions p = projectActions p' \<longleftrightarrow> p = p'" by (cases p; cases p') simp_all
  show "projectActions p \<noteq> secretFolderActions f" "secretFolderActions f \<noteq> projectActions p"
    by (cases p; cases f; simp)+
qed

lemma grants_simps:
  "grants [] = []" "grants (can as t # rs) = map (\<lambda>a. (a, t)) as @ grants rs"
  by (simp_all add: grants_def can_def action_list_def subject_toString_def)

lemma escalating_beyond:
  "extra_grants projectMemberPermissions escalating = grants escalating"
  "extra_grants projectViewerPermission escalating = grants escalating"
  "extra_grants projectNoAccessPermissions escalating = grants escalating"
  "extra_grants cryptographicOperatorPermissions escalating = grants escalating"
  "extra_grants pamProjectMemberPermissions escalating = grants escalating"
  "extra_grants projectAdminPermissions escalating = []"
  by (simp_all add: escalating_def role_tables subject_names escalating_names grants_simps
      del: permission_names)

lemma disjoint_grants: "extra_grants ps cs = grants cs \<Longrightarrow> set (grants ps) \<inter> set (grants cs) = {}"
  using set_extra_grants [of ps cs] by auto

text \<open>
  No built-in project role but the admin carries an escalating permission, and the admin
  carries all of them.
\<close>

theorem only_admin_escalates:
  "list_all (\<lambda>r. set (grants r) \<inter> set (grants escalating) = {})
     [projectMemberPermissions, projectViewerPermission, projectNoAccessPermissions,
      cryptographicOperatorPermissions, pamProjectMemberPermissions] \<and>
   set (grants escalating) \<subseteq> set (grants projectAdminPermissions)"
  using set_extra_grants [of projectAdminPermissions escalating]
  by (simp add: disjoint_grants escalating_beyond)

end
