(* ===== verification/FolderRoles.thy ===== *)
theory FolderRoles
  imports DefaultRoles
begin

text \<open>
  \<open>backend/src/ee/services/permission/folder-roles.ts\<close>: the five access roles a secret folder can be
  shared with. Each helper adds its rules after those of the role below it, so the roles are
  cumulative; the deny rules switch off, at a shared folder, whatever the base roles of an actor
  would give there. The rules carry no conditions here, the caller scopes them to one folder.
\<close>

section \<open>Roles\<close>

text \<open>\<open>SecretFolderRole\<close> of \<open>backend/src/db/schemas/models.ts\<close>, ordered as the tiers are.\<close>

datatype (plugins only: code) SecretFolderRole = List | Read | Edit | Manage | FullAccess

primrec secretFolderRole :: "SecretFolderRole \<Rightarrow> string" where
  "secretFolderRole List = ''list''"
| "secretFolderRole Read = ''read''"
| "secretFolderRole Edit = ''edit''"
| "secretFolderRole Manage = ''manage''"
| "secretFolderRole FullAccess = ''full-access''"

definition all_folder_roles :: "SecretFolderRole list" where
  "all_folder_roles = [List, Read, Edit, Manage, FullAccess]"

primrec tier :: "SecretFolderRole \<Rightarrow> nat" where
  "tier List = 0"
| "tier Read = 1"
| "tier Edit = 2"
| "tier Manage = 3"
| "tier FullAccess = 4"

instantiation SecretFolderRole :: linorder
begin

definition less_eq_SecretFolderRole :: "SecretFolderRole \<Rightarrow> SecretFolderRole \<Rightarrow> bool" where
  "less_eq_SecretFolderRole r s \<longleftrightarrow> tier r \<le> tier s"

definition less_SecretFolderRole :: "SecretFolderRole \<Rightarrow> SecretFolderRole \<Rightarrow> bool" where
  "less_SecretFolderRole r s \<longleftrightarrow> tier r < tier s"

instance
proof
  fix r s t :: SecretFolderRole
  show "r < s \<longleftrightarrow> r \<le> s \<and> \<not> s \<le> r" "r \<le> r" "r \<le> s \<or> s \<le> r"
    by (auto simp: less_eq_SecretFolderRole_def less_SecretFolderRole_def)
  show "r \<le> s \<Longrightarrow> s \<le> t \<Longrightarrow> r \<le> t"
    by (simp add: less_eq_SecretFolderRole_def)
  show "r \<le> s \<Longrightarrow> s \<le> r \<Longrightarrow> r = s"
    by (cases r; cases s) (simp_all add: less_eq_SecretFolderRole_def)
qed

end

section \<open>Rules of the roles\<close>

definition applyFolderListRules :: "rule list \<Rightarrow> rule list" where
  "applyFolderListRules acc =
    acc @
    [
      can (map secretActions [ProjectPermissionSecretActions.DescribeSecret]) (projectSub ProjectPermissionSub.Secrets),
      can (map projectActions [ProjectPermissionActions.Read]) (projectSub ProjectPermissionSub.Tags),
      can (map projectActions [ProjectPermissionActions.Read]) (projectSub ProjectPermissionSub.SecretImports),
      can (map secretSyncActions [ProjectPermissionSecretSyncActions.Read]) (projectSub ProjectPermissionSub.SecretSyncs),
      can (map secretRotationActions [ProjectPermissionSecretRotationActions.Read]) (projectSub ProjectPermissionSub.SecretRotation),
      can (map honeyTokenActions [ProjectPermissionHoneyTokenActions.Read]) (projectSub ProjectPermissionSub.HoneyTokens)]"

definition applyFolderReadRules :: "rule list \<Rightarrow> rule list" where
  "applyFolderReadRules acc =
    applyFolderListRules acc @
    [
      can (map secretActions [ProjectPermissionSecretActions.ReadValue]) (projectSub ProjectPermissionSub.Secrets),
      can (map commitsActions [ProjectPermissionCommitsActions.Read]) (projectSub ProjectPermissionSub.Commits),
      can (map dynamicSecretActions [ProjectPermissionDynamicSecretActions.Lease]) (projectSub ProjectPermissionSub.DynamicSecrets),
      can (map secretEventActions [ProjectPermissionSecretEventActions.SubscribeToCreationEvents,
        ProjectPermissionSecretEventActions.SubscribeToUpdateEvents,
        ProjectPermissionSecretEventActions.SubscribeToDeleteEvents,
        ProjectPermissionSecretEventActions.SubscribeToImportMutationEvents]) (projectSub ProjectPermissionSub.SecretEventSubscriptions)]"

definition applyFolderEditRules :: "rule list \<Rightarrow> rule list" where
  "applyFolderEditRules acc =
    applyFolderReadRules acc @
    [
      can (map secretActions [ProjectPermissionSecretActions.Create,
        ProjectPermissionSecretActions.Edit,
        ProjectPermissionSecretActions.Delete]) (projectSub ProjectPermissionSub.Secrets),
      can (map projectActions [ProjectPermissionActions.Create, ProjectPermissionActions.Edit,
        ProjectPermissionActions.Delete]) (projectSub ProjectPermissionSub.SecretImports)]"

definition applyFolderManageRules :: "rule list \<Rightarrow> rule list" where
  "applyFolderManageRules acc =
    applyFolderEditRules acc @
    [
      can (map secretRotationActions [ProjectPermissionSecretRotationActions.Create,
        ProjectPermissionSecretRotationActions.Edit,
        ProjectPermissionSecretRotationActions.Delete,
        ProjectPermissionSecretRotationActions.RotateSecrets,
        ProjectPermissionSecretRotationActions.ReadGeneratedCredentials]) (projectSub ProjectPermissionSub.SecretRotation),
      can (map dynamicSecretActions [ProjectPermissionDynamicSecretActions.ReadRootCredential,
        ProjectPermissionDynamicSecretActions.CreateRootCredential,
        ProjectPermissionDynamicSecretActions.EditRootCredential,
        ProjectPermissionDynamicSecretActions.DeleteRootCredential]) (projectSub ProjectPermissionSub.DynamicSecrets),
      can (map honeyTokenActions [ProjectPermissionHoneyTokenActions.Create,
        ProjectPermissionHoneyTokenActions.Edit, ProjectPermissionHoneyTokenActions.Reset,
        ProjectPermissionHoneyTokenActions.Revoke,
        ProjectPermissionHoneyTokenActions.ReadCredentials]) (projectSub ProjectPermissionSub.HoneyTokens),
      can (map secretSyncActions [ProjectPermissionSecretSyncActions.Create,
        ProjectPermissionSecretSyncActions.Edit, ProjectPermissionSecretSyncActions.Delete,
        ProjectPermissionSecretSyncActions.SyncSecrets,
        ProjectPermissionSecretSyncActions.ImportSecrets,
        ProjectPermissionSecretSyncActions.RemoveSecrets]) (projectSub ProjectPermissionSub.SecretSyncs)]"

definition applyFolderFullAccessRules :: "rule list \<Rightarrow> rule list" where
  "applyFolderFullAccessRules acc =
    applyFolderManageRules acc @
    [
      can (map secretFolderActions [ProjectPermissionSecretFolderActions.ManageAccess] @
        map projectActions [ProjectPermissionActions.Delete]) (projectSub ProjectPermissionSub.SecretFolders)]"

definition buildFolderRoleRules :: "(rule list \<Rightarrow> rule list) \<Rightarrow> rule list" where
  "buildFolderRoleRules applyRules = applyRules []"

definition folderListPermissions :: "rule list" where
  "folderListPermissions =
    buildFolderRoleRules applyFolderListRules"

definition folderReadPermissions :: "rule list" where
  "folderReadPermissions =
    buildFolderRoleRules applyFolderReadRules"

definition folderEditPermissions :: "rule list" where
  "folderEditPermissions =
    buildFolderRoleRules applyFolderEditRules"

definition folderManagePermissions :: "rule list" where
  "folderManagePermissions =
    buildFolderRoleRules applyFolderManageRules"

definition folderFullAccessPermissions :: "rule list" where
  "folderFullAccessPermissions =
    buildFolderRoleRules applyFolderFullAccessRules"

definition buildFolderScopedDenyRules :: "rule list" where
  "buildFolderScopedDenyRules =
    [
      cannot (map secretActions [ProjectPermissionSecretActions.DescribeAndReadValue,
        ProjectPermissionSecretActions.DescribeSecret, ProjectPermissionSecretActions.ReadValue,
        ProjectPermissionSecretActions.Create, ProjectPermissionSecretActions.Edit,
        ProjectPermissionSecretActions.Delete]) (projectSub ProjectPermissionSub.Secrets),
      cannot (map projectActions [ProjectPermissionActions.Create, ProjectPermissionActions.Edit,
        ProjectPermissionActions.Delete] @
        map secretFolderActions [ProjectPermissionSecretFolderActions.ManageAccess]) (projectSub ProjectPermissionSub.SecretFolders),
      cannot (map projectActions [ProjectPermissionActions.Read, ProjectPermissionActions.Create,
        ProjectPermissionActions.Edit,
        ProjectPermissionActions.Delete]) (projectSub ProjectPermissionSub.SecretImports),
      cannot (map dynamicSecretActions [ProjectPermissionDynamicSecretActions.ReadRootCredential,
        ProjectPermissionDynamicSecretActions.CreateRootCredential,
        ProjectPermissionDynamicSecretActions.EditRootCredential,
        ProjectPermissionDynamicSecretActions.DeleteRootCredential,
        ProjectPermissionDynamicSecretActions.Lease]) (projectSub ProjectPermissionSub.DynamicSecrets),
      cannot (map secretSyncActions [ProjectPermissionSecretSyncActions.Read,
        ProjectPermissionSecretSyncActions.Create, ProjectPermissionSecretSyncActions.Edit,
        ProjectPermissionSecretSyncActions.Delete,
        ProjectPermissionSecretSyncActions.SyncSecrets,
        ProjectPermissionSecretSyncActions.ImportSecrets,
        ProjectPermissionSecretSyncActions.RemoveSecrets]) (projectSub ProjectPermissionSub.SecretSyncs),
      cannot (map secretRotationActions [ProjectPermissionSecretRotationActions.Read,
        ProjectPermissionSecretRotationActions.ReadGeneratedCredentials,
        ProjectPermissionSecretRotationActions.Create,
        ProjectPermissionSecretRotationActions.Edit,
        ProjectPermissionSecretRotationActions.Delete,
        ProjectPermissionSecretRotationActions.RotateSecrets]) (projectSub ProjectPermissionSub.SecretRotation),
      cannot (map secretEventActions [ProjectPermissionSecretEventActions.SubscribeToCreationEvents,
        ProjectPermissionSecretEventActions.SubscribeToUpdateEvents,
        ProjectPermissionSecretEventActions.SubscribeToDeleteEvents,
        ProjectPermissionSecretEventActions.SubscribeToImportMutationEvents]) (projectSub ProjectPermissionSub.SecretEventSubscriptions),
      cannot (map honeyTokenActions [ProjectPermissionHoneyTokenActions.Read,
        ProjectPermissionHoneyTokenActions.ReadCredentials,
        ProjectPermissionHoneyTokenActions.Create, ProjectPermissionHoneyTokenActions.Edit,
        ProjectPermissionHoneyTokenActions.Reset,
        ProjectPermissionHoneyTokenActions.Revoke]) (projectSub ProjectPermissionSub.HoneyTokens),
      cannot (map commitsActions [ProjectPermissionCommitsActions.Read,
        ProjectPermissionCommitsActions.PerformRollback]) (projectSub ProjectPermissionSub.Commits)]"

definition FOLDER_SCOPED_DENY_RULES :: "rule list" where
  "FOLDER_SCOPED_DENY_RULES =
    buildFolderScopedDenyRules"

primrec SECRET_FOLDER_ROLE_PERMISSIONS :: "SecretFolderRole \<Rightarrow> rule list" where
  "SECRET_FOLDER_ROLE_PERMISSIONS List = folderListPermissions"
| "SECRET_FOLDER_ROLE_PERMISSIONS Read = folderReadPermissions"
| "SECRET_FOLDER_ROLE_PERMISSIONS Edit = folderEditPermissions"
| "SECRET_FOLDER_ROLE_PERMISSIONS Manage = folderManagePermissions"
| "SECRET_FOLDER_ROLE_PERMISSIONS FullAccess = folderFullAccessPermissions"

section \<open>Comparing the roles\<close>

lemmas folder_tables =
  folderListPermissions_def folderReadPermissions_def folderEditPermissions_def
  folderManagePermissions_def folderFullAccessPermissions_def buildFolderRoleRules_def
  applyFolderListRules_def applyFolderReadRules_def applyFolderEditRules_def
  applyFolderManageRules_def applyFolderFullAccessRules_def

lemma folder_roles_plain: "list_all plain_grant (SECRET_FOLDER_ROLE_PERMISSIONS r)"
  by (cases r) (simp_all add: folder_tables)

lemma folder_roles_colon_free: "colon_free (SECRET_FOLDER_ROLE_PERMISSIONS r)"
  by (cases r) (simp_all add: folder_tables colon_free_def can_def action_list_def)

lemma folder_roles_prefix:
  assumes "r \<le> s"
  shows "prefix (SECRET_FOLDER_ROLE_PERMISSIONS r) (SECRET_FOLDER_ROLE_PERMISSIONS s)"
  using assms by (cases r; cases s) (simp_all add: less_eq_SecretFolderRole_def folder_tables)

lemma folder_roles_mono: "r \<le> s \<Longrightarrow> set (grants (SECRET_FOLDER_ROLE_PERMISSIONS r)) \<subseteq> set (grants (SECRET_FOLDER_ROLE_PERMISSIONS s))"
  by (drule folder_roles_prefix) (auto simp: prefix_def)

lemma ball_none: "\<forall>x \<in> A. \<not> P x \<Longrightarrow> (\<forall>x \<in> A. P x) \<longleftrightarrow> A = {}"
  by auto

lemma rules_within_iff:
  assumes "list_all plain_grant ps" "colon_free cs" "(''read'', ''secret-folders'') \<notin> set (grants cs)"
  shows "rules_within isM isGlob cs ps \<longleftrightarrow> set (grants cs) \<subseteq> set (grants ps)"
proof -
  have "getPermissionSetID a s \<in> set IGNORED_PERMISSIONS \<longleftrightarrow> a = ''read'' \<and> s = ''secret-folders''"
    if "CHR '':'' \<notin> set a" for a s
    using getPermissionSetID_inject [of a s "''read''" "''secret-folders''"] that
    by (auto simp: IGNORED_PERMISSIONS_def)
  with assms(2,3) have ni: "(a, s) \<in> set (grants cs) \<Longrightarrow> getPermissionSetID a s \<notin> set IGNORED_PERMISSIONS" for a s
    by (auto simp: colon_free_grants list_all_iff)
  have "\<forall>x \<in> set (extra_grants ps cs). \<not> (case x of (a, s) \<Rightarrow> getPermissionSetID a s \<in> set IGNORED_PERMISSIONS)"
  proof
    fix x assume x: "x \<in> set (extra_grants ps cs)"
    obtain a s where as: "x = (a, s)" by (cases x)
    with x have "(a, s) \<in> set (grants cs)" by (simp add: set_extra_grants)
    then show "\<not> (case x of (a, s) \<Rightarrow> getPermissionSetID a s \<in> set IGNORED_PERMISSIONS)"
      by (simp only: as prod.case ni not_False_eq_True)
  qed
  from ball_none [OF this] show ?thesis
    by (simp only: rules_within_def boundary_plain [OF assms(1,2)] set_extra_grants Diff_eq_empty_iff)
qed

text \<open>The actions that the thresholds below speak about.\<close>

definition folder_grants :: "SecretFolderRole \<Rightarrow> string \<Rightarrow> string \<Rightarrow> bool" where
  "folder_grants r act sub \<longleftrightarrow> (act, sub) \<in> set (grants (SECRET_FOLDER_ROLE_PERMISSIONS r))"

lemma folder_grants_actions_on:
  "folder_grants r act sub \<longleftrightarrow> act \<in> set (actions_on (SECRET_FOLDER_ROLE_PERMISSIONS r) sub)"
  by (simp add: folder_grants_def actions_on_iff)

lemma folder_thresholds:
  "folder_grants r ''readValue'' ''secrets'' \<longleftrightarrow> Read \<le> r"
  "folder_grants r ''edit'' ''secrets'' \<longleftrightarrow> Edit \<le> r"
  "folder_grants r ''read-root-credential'' ''dynamic-secrets'' \<longleftrightarrow> Manage \<le> r"
  "folder_grants r ''manage-access'' ''secret-folders'' \<longleftrightarrow> r = FullAccess"
  "folder_grants r ''delete'' ''secret-folders'' \<longleftrightarrow> r = FullAccess"
  "\<not> folder_grants r ''perform-rollback'' ''commits''"
  "\<not> folder_grants r ''read'' ''secrets''"
  "\<not> folder_grants r ''read'' ''secret-folders''"
  by (cases r; simp add: folder_grants_actions_on folder_tables less_eq_SecretFolderRole_def)+

lemma folder_role_subset_iff:
  "set (grants (SECRET_FOLDER_ROLE_PERMISSIONS r)) \<subseteq> set (grants (SECRET_FOLDER_ROLE_PERMISSIONS s)) \<longleftrightarrow> r \<le> s"
proof
  assume sub: "set (grants (SECRET_FOLDER_ROLE_PERMISSIONS r)) \<subseteq> set (grants (SECRET_FOLDER_ROLE_PERMISSIONS s))"
  then have "folder_grants r a t \<Longrightarrow> folder_grants s a t" for a t
    by (auto simp: folder_grants_def)
  from this [of "''readValue''" "''secrets''"] this [of "''edit''" "''secrets''"]
    this [of "''read-root-credential''" "''dynamic-secrets''"] this [of "''delete''" "''secret-folders''"]
  show "r \<le> s"
    by (cases r; cases s) (simp_all add: folder_thresholds less_eq_SecretFolderRole_def)
qed (rule folder_roles_mono)

section \<open>Properties\<close>

text \<open>
  The folder roles form exactly one chain: a role lies within the permission boundary of another
  one just when it is the lower tier, so sharing a folder can never hand out a tier above one's own.
\<close>

theorem folder_roles_form_a_chain:
  "rules_within isM isGlob (SECRET_FOLDER_ROLE_PERMISSIONS r) (SECRET_FOLDER_ROLE_PERMISSIONS s) \<longleftrightarrow> r \<le> s"
  using folder_thresholds(8) [of r]
  by (simp add: rules_within_iff folder_roles_plain folder_roles_colon_free folder_role_subset_iff folder_grants_def)

text \<open>
  what the tiers are for. Secret values are readable from Read upwards, secrets change from Edit
  upwards, root credentials of dynamic secrets appear from Manage upwards, sharing and deleting the
  folder take full access; no tier may roll commits back or holds the legacy permission that reads
  description and value at once.
\<close>

theorem folder_role_thresholds:
  "(folder_grants r ''readValue'' ''secrets'' \<longleftrightarrow> Read \<le> r) \<and>
   (folder_grants r ''edit'' ''secrets'' \<longleftrightarrow> Edit \<le> r) \<and>
   (folder_grants r ''read-root-credential'' ''dynamic-secrets'' \<longleftrightarrow> Manage \<le> r) \<and>
   (folder_grants r ''manage-access'' ''secret-folders'' \<longleftrightarrow> r = FullAccess) \<and>
   (folder_grants r ''delete'' ''secret-folders'' \<longleftrightarrow> r = FullAccess) \<and>
   \<not> folder_grants r ''perform-rollback'' ''commits'' \<and> \<not> folder_grants r ''read'' ''secrets''"
  by (simp add: folder_thresholds)

lemma full_access_beyond_deny:
  "extra_grants FOLDER_SCOPED_DENY_RULES (SECRET_FOLDER_ROLE_PERMISSIONS FullAccess) = [(''read'', ''tags'')]"
  apply (simp add: folder_tables FOLDER_SCOPED_DENY_RULES_def buildFolderScopedDenyRules_def subject_names
      del: permission_names)
  apply simp
  done

text \<open>
  the deny rules of a shared folder leave nothing of the base roles there that a folder role
  could grant: every permission of a folder role is denied first, except reading tags, which are not
  a property of one folder.
\<close>

theorem folder_deny_rules_cover_the_roles:
  "set (grants (SECRET_FOLDER_ROLE_PERMISSIONS r)) - set (grants FOLDER_SCOPED_DENY_RULES) = {(''read'', ''tags'')}"
proof -
  have "(''read'', ''tags'') \<in> set (grants (SECRET_FOLDER_ROLE_PERMISSIONS List))"
    by (simp flip: actions_on_iff add: folder_tables)
  then have "(''read'', ''tags'') \<in> set (grants (SECRET_FOLDER_ROLE_PERMISSIONS r))"
    using folder_roles_mono [of List r] by (auto simp: less_eq_SecretFolderRole_def)
  moreover have "set (grants (SECRET_FOLDER_ROLE_PERMISSIONS r)) \<subseteq> set (grants (SECRET_FOLDER_ROLE_PERMISSIONS FullAccess))"
    by (rule folder_roles_mono) (cases r; simp add: less_eq_SecretFolderRole_def)
  moreover have "set (grants (SECRET_FOLDER_ROLE_PERMISSIONS FullAccess)) - set (grants FOLDER_SCOPED_DENY_RULES) =
      {(''read'', ''tags'')}"
    using set_extra_grants [of FOLDER_SCOPED_DENY_RULES "SECRET_FOLDER_ROLE_PERMISSIONS FullAccess"]
    by (simp only: full_access_beyond_deny list.set)
  ultimately show ?thesis by blast
qed

lemma member_covers_edit:
  "extra_grants projectMemberPermissions (SECRET_FOLDER_ROLE_PERMISSIONS Edit) = []"
  by (simp add: folder_tables role_tables subject_names del: permission_names)

lemma member_lacks_rotation: "(''create'', ''secret-rotation'') \<notin> set (grants projectMemberPermissions)"
proof -
  have "extra_grants projectMemberPermissions [can1 (secretRotationActions ProjectPermissionSecretRotationActions.Create)
      (projectSub ProjectPermissionSub.SecretRotation)] = [(''create'', ''secret-rotation'')]"
    apply (simp add: role_tables subject_names del: permission_names)
    apply simp
    done
  with set_extra_grants show ?thesis by (metis DiffD2 list.set_intros(1))
qed

text \<open>
  the member role of a project covers the folder roles up to Edit and no more: a member may share
  nothing above Edit by the permission boundary alone.
\<close>

theorem member_covers_folder_roles_up_to_edit:
  "rules_within isM isGlob (SECRET_FOLDER_ROLE_PERMISSIONS r) projectMemberPermissions \<longleftrightarrow> r \<le> Edit"
proof -
  have "set (grants (SECRET_FOLDER_ROLE_PERMISSIONS r)) \<subseteq> set (grants projectMemberPermissions) \<longleftrightarrow> r \<le> Edit"
  proof
    assume "set (grants (SECRET_FOLDER_ROLE_PERMISSIONS r)) \<subseteq> set (grants projectMemberPermissions)"
    then have "\<not> folder_grants r ''create'' ''secret-rotation''"
      using member_lacks_rotation by (auto simp: folder_grants_def)
    then show "r \<le> Edit"
      by (cases r) (simp_all add: less_eq_SecretFolderRole_def folder_grants_actions_on folder_tables)
  next
    assume "r \<le> Edit"
    note folder_roles_mono [OF this]
    moreover have "set (grants (SECRET_FOLDER_ROLE_PERMISSIONS Edit)) - set (grants projectMemberPermissions) = {}"
      using set_extra_grants [of projectMemberPermissions "SECRET_FOLDER_ROLE_PERMISSIONS Edit"]
      by (simp only: member_covers_edit list.set)
    ultimately show "set (grants (SECRET_FOLDER_ROLE_PERMISSIONS r)) \<subseteq> set (grants projectMemberPermissions)"
      by blast
  qed
  then show ?thesis
    using folder_thresholds(8) [of r]
    by (simp add: rules_within_iff role_tables_plain folder_roles_colon_free folder_grants_def)
qed

end
