(* ===== verification/PermissionRules.thy ===== *)
theory PermissionRules
  imports FolderRoles
begin

text \<open>
  How the rules of an actor's ability are put together: the roles of its memberships
  (\<open>backend/src/ee/services/permission/permission-service.ts\<close>), the legacy actions that a forbid must
  reach, and the folders shared with the actor (\<open>permission-fns.ts\<close>), together with the service
  token ability of \<open>project-permission.ts\<close>.

  The ability itself belongs to the permission library. \<open>can rs act sub obj\<close> stands for its answer
  on an object; \<^theory_text>\<open>last_match_wins\<close> states the documented rule: the last rule of the list that
  concerns the action and subject and whose conditions the object meets decides, and no rule means
  no. A field the object lacks is the empty string, on which every operator answers as it does on
  \<open>undefined\<close>.
\<close>

section \<open>The permission library\<close>

type_synonym object = "string \<Rightarrow> string"

definition subject_list :: "subjects \<Rightarrow> string list" where
  "subject_list s = (case s of OneSubject t \<Rightarrow> [t] | ManySubjects ts \<Rightarrow> ts)"

definition concerns :: "string \<Rightarrow> string \<Rightarrow> rule \<Rightarrow> bool" where
  "concerns act sub r \<longleftrightarrow>
     (act \<in> set (action_list (rule_action r)) \<or> ''manage'' \<in> set (action_list (rule_action r))) \<and>
     (sub \<in> set (subject_list (rule_subject r)) \<or> ''all'' \<in> set (subject_list (rule_subject r)))"

definition applies ::
  "(string \<Rightarrow> string \<Rightarrow> bool) \<Rightarrow> (string \<Rightarrow> string \<Rightarrow> string \<Rightarrow> bool) \<Rightarrow> string \<Rightarrow> string \<Rightarrow> object \<Rightarrow> rule \<Rightarrow> bool"
  where
  "applies isM om act sub obj r \<longleftrightarrow> concerns act sub r \<and> rule_matches isM om r obj"

definition last_match ::
  "(string \<Rightarrow> string \<Rightarrow> bool) \<Rightarrow> (string \<Rightarrow> string \<Rightarrow> string \<Rightarrow> bool) \<Rightarrow> rule list \<Rightarrow> string \<Rightarrow> string \<Rightarrow> object \<Rightarrow> bool"
  where
  "last_match isM om rs act sub obj =
     (case find (applies isM om act sub obj) (rev rs) of None \<Rightarrow> False | Some r \<Rightarrow> \<not> inverted r)"

definition last_match_wins ::
  "(string \<Rightarrow> string \<Rightarrow> bool) \<Rightarrow> (string \<Rightarrow> string \<Rightarrow> string \<Rightarrow> bool) \<Rightarrow>
   (rule list \<Rightarrow> string \<Rightarrow> string \<Rightarrow> object \<Rightarrow> bool) \<Rightarrow> bool" where
  "last_match_wins isM om casl \<longleftrightarrow> (\<forall>rs act sub obj. casl rs act sub obj = last_match isM om rs act sub obj)"

lemma last_match_Nil [simp]: "\<not> last_match isM om [] act sub obj"
  by (simp add: last_match_def)

lemma find_append: "find P (xs @ ys) = (case find P xs of None \<Rightarrow> find P ys | Some x \<Rightarrow> Some x)"
  by (induction xs) auto

lemma find_rev_Some: "find P (rev rs) = Some r \<Longrightarrow> r \<in> set rs \<and> P r"
  by (induction rs) (auto simp: find_append split: option.splits if_splits)

lemma find_rev_None: "find P (rev rs) = None \<longleftrightarrow> \<not> list_ex P rs"
  by (induction rs) (auto simp: find_append split: option.splits)

lemma last_match_append:
  "last_match isM om (rs @ rs') act sub obj =
     (if list_ex (applies isM om act sub obj) rs' then last_match isM om rs' act sub obj
      else last_match isM om rs act sub obj)"
  using find_rev_None [of "applies isM om act sub obj" rs']
  by (auto simp: last_match_def find_append split: option.splits)

lemma last_match_allowing:
  assumes "list_all (\<lambda>r. \<not> inverted r) rs"
  shows "last_match isM om rs act sub obj \<longleftrightarrow> list_ex (applies isM om act sub obj) rs"
  using assms find_rev_None [of "applies isM om act sub obj" rs]
  by (auto simp: last_match_def list_all_iff dest: find_rev_Some split: option.splits)

lemma last_match_denying:
  assumes "list_all inverted rs"
  shows "\<not> last_match isM om rs act sub obj"
  using assms by (auto simp: last_match_def list_all_iff dest: find_rev_Some split: option.splits)

section \<open>Legacy actions\<close>

text \<open>\<open>LEGACY_FORBID_ACTION_EXPANSIONS\<close>: the legacy action of a subject and the actions that replaced it.\<close>

definition LEGACY_FORBID_ACTION_EXPANSIONS :: "(string \<times> string \<times> string list) list" where
  "LEGACY_FORBID_ACTION_EXPANSIONS =
     [(projectSub ProjectPermissionSub.Secrets,
        secretActions ProjectPermissionSecretActions.DescribeAndReadValue,
        map secretActions [ProjectPermissionSecretActions.ReadValue, ProjectPermissionSecretActions.DescribeSecret]),
      (projectSub ProjectPermissionSub.Member,
        memberActions ProjectPermissionMemberActions.GrantPrivileges,
        map memberActions [ProjectPermissionMemberActions.AssignRole,
          ProjectPermissionMemberActions.AssignAdditionalPrivileges]),
      (projectSub ProjectPermissionSub.Identity,
        identityActions ProjectPermissionIdentityActions.GrantPrivileges,
        map identityActions [ProjectPermissionIdentityActions.AssignRole,
          ProjectPermissionIdentityActions.AssignAdditionalPrivileges]),
      (projectSub ProjectPermissionSub.Groups,
        groupActions ProjectPermissionGroupActions.GrantPrivileges,
        map groupActions [ProjectPermissionGroupActions.AssignRole])]"

definition expandLegacyForbidRule :: "rule \<Rightarrow> rule" where
  "expandLegacyForbidRule r =
     (if \<not> inverted r then r
      else let subjects = subject_list (rule_subject r) in
        if length subjects \<noteq> 1 then r
        else case map_of LEGACY_FORBID_ACTION_EXPANSIONS (hd subjects) of
            None \<Rightarrow> r
          | Some (legacyAction, newActions) \<Rightarrow>
              let acts = action_list (rule_action r);
                  shouldExpand = list_ex (\<lambda>a. a \<in> set newActions) acts
              in if \<not> shouldExpand \<or> legacyAction \<in> set acts then r
                 else r\<lparr>rule_action := ManyActions (acts @ [legacyAction])\<rparr>)"

definition expandLegacyForbidActions :: "rule list \<Rightarrow> rule list" where
  "expandLegacyForbidActions rs = map expandLegacyForbidRule rs"

section \<open>Rules of the roles\<close>

text \<open>
  One role of a membership. The rules of a custom role are stored packed; \<open>unpackRules\<close> of the
  permission library is the parameter \<open>unpack\<close>. The role names are the strings of
  \<open>ProjectMembershipRole\<close>.
\<close>

record 'p role_entry =
  role_name :: string
  role_permissions :: 'p

definition resolvePamProjectRoleRules :: "string \<Rightarrow> rule list" where
  "resolvePamProjectRoleRules role =
     (if role = ''admin'' then pamProjectAdminPermissions else pamProjectMemberPermissions)"

definition role_rules :: "('p \<Rightarrow> rule list) \<Rightarrow> string option \<Rightarrow> 'p role_entry \<Rightarrow> rule list" where
  "role_rules unpack projectType e =
     (let role = role_name e in
      if projectType = Some ''pam'' then resolvePamProjectRoleRules role
      else if role = ''admin'' then projectAdminPermissions
      else if role = ''member'' then projectMemberPermissions
      else if role = ''viewer'' then projectViewerPermission
      else if role = ''no-access'' then projectNoAccessPermissions
      else if role = ''cryptographic-operator'' then cryptographicOperatorPermissions
      else if role = ''custom'' then unpack (role_permissions e)
      else [])"

definition denies_last :: "rule list \<Rightarrow> rule list" where
  "denies_last rs = sort_key (\<lambda>r. if inverted r then 1 else 0 :: nat) rs"

section \<open>Shared folders\<close>

text \<open>A folder shared with the actor, as resolved from the additional privileges table.\<close>

record folder_privilege =
  fp_id :: string
  fp_folderId :: string
  fp_role :: string
  fp_environmentSlug :: string
  fp_secretPath :: string

datatype rules_error = FolderRoleInvalid string string | RoleInvalid string | CustomRoleNotSupported

definition folder_role_of :: "string \<Rightarrow> SecretFolderRole option" where
  "folder_role_of s = map_of (map (\<lambda>r. (secretFolderRole r, r)) all_folder_roles) s"

definition place_conditions :: "string \<Rightarrow> string \<Rightarrow> conditions" where
  "place_conditions env path = [(''environment'', Plain env), (''secretPath'', Plain path)]"

definition withConditions :: "rule list \<Rightarrow> conditions \<Rightarrow> rule list" where
  "withConditions rs cs = map (\<lambda>r. r\<lparr>conditions := Some cs\<rparr>) rs"

fun scoped_grants :: "folder_privilege list \<Rightarrow> rules_error + (SecretFolderRole \<times> conditions) list" where
  "scoped_grants [] = Inr []"
| "scoped_grants (p # ps) =
     (case folder_role_of (fp_role p) of
        None \<Rightarrow> Inl (FolderRoleInvalid (fp_role p) (fp_id p))
      | Some r \<Rightarrow> rbind (scoped_grants ps)
          (\<lambda>gs. Inr ((r, place_conditions (fp_environmentSlug p) (fp_secretPath p)) # gs)))"

definition buildFolderScopedPrivilegeRules :: "folder_privilege list \<Rightarrow> rules_error + rule list" where
  "buildFolderScopedPrivilegeRules ps =
     rbind (scoped_grants ps) (\<lambda>gs.
       Inr (concat (map (\<lambda>(r, cs). withConditions FOLDER_SCOPED_DENY_RULES cs) gs) @
            concat (map (\<lambda>(r, cs). withConditions (SECRET_FOLDER_ROLE_PERMISSIONS r) cs) gs)))"

definition buildProjectPermissionRules ::
  "('p \<Rightarrow> rule list) \<Rightarrow> 'p role_entry list \<Rightarrow> string option \<Rightarrow> folder_privilege list option \<Rightarrow>
   rules_error + rule list" where
  "buildProjectPermissionRules unpack projectUserRoles projectType folderScopedPrivileges =
     (let base = denies_last (expandLegacyForbidActions
                   (concat (map (role_rules unpack projectType) projectUserRoles)))
      in case folderScopedPrivileges of
          None \<Rightarrow> Inr base
        | Some ps \<Rightarrow> if ps = [] then Inr base
            else rbind (buildFolderScopedPrivilegeRules ps) (\<lambda>extra. Inr (base @ extra)))"

section \<open>What the rules decide\<close>

lemma denies_last_split:
  "denies_last rs = filter (\<lambda>r. \<not> inverted r) rs @ filter inverted rs"
proof -
  have ins: "insort_key (\<lambda>r. if inverted r then 1 else 0 :: nat) r (filter (\<lambda>r. \<not> inverted r) rs @ filter inverted rs) =
      filter (\<lambda>r. \<not> inverted r) (r # rs) @ filter inverted (r # rs)" for r rs
  proof -
    have no_deny: "insort_key (\<lambda>r. if inverted r then 1 else 0 :: nat) r (xs @ ys) = xs @ r # ys"
      if "inverted r" "list_all (\<lambda>r. \<not> inverted r) xs" "list_all inverted ys" for xs ys
      using that by (induction xs) (auto simp: insort_is_Cons list_all_iff)
    have allow: "insort_key (\<lambda>r. if inverted r then 1 else 0 :: nat) r zs = r # zs" if "\<not> inverted r" for zs
      using that by (simp add: insort_is_Cons)
    show ?thesis
      using no_deny [of "filter (\<lambda>r. \<not> inverted r) rs" "filter inverted rs"] allow
      by (cases "inverted r") (auto simp: list_all_iff)
  qed
  show ?thesis
    unfolding denies_last_def by (induction rs) (simp_all only: sort_key_simps list.map filter.simps ins append_Nil if_True if_False)
qed


definition grants_to :: "(string \<Rightarrow> string \<Rightarrow> bool) \<Rightarrow> (string \<Rightarrow> string \<Rightarrow> string \<Rightarrow> bool) \<Rightarrow>
    string \<Rightarrow> string \<Rightarrow> object \<Rightarrow> rule list \<Rightarrow> bool" where
  "grants_to isM om act sub obj rs \<longleftrightarrow> list_ex (\<lambda>r. \<not> inverted r \<and> applies isM om act sub obj r) rs"

definition forbids_to :: "(string \<Rightarrow> string \<Rightarrow> bool) \<Rightarrow> (string \<Rightarrow> string \<Rightarrow> string \<Rightarrow> bool) \<Rightarrow>
    string \<Rightarrow> string \<Rightarrow> object \<Rightarrow> rule list \<Rightarrow> bool" where
  "forbids_to isM om act sub obj rs \<longleftrightarrow> list_ex (\<lambda>r. inverted r \<and> applies isM om act sub obj r) rs"

lemma last_match_denies_last:
  "last_match isM om (denies_last rs) act sub obj \<longleftrightarrow>
     grants_to isM om act sub obj rs \<and> \<not> forbids_to isM om act sub obj rs"
proof -
  have "list_ex P (filter Q rs) \<longleftrightarrow> list_ex (\<lambda>r. Q r \<and> P r) rs" for P Q
    by (auto simp: list_ex_iff)
  moreover have "\<not> last_match isM om (filter inverted rs) act sub obj"
    by (rule last_match_denying) (simp add: list_all_iff)
  moreover have "last_match isM om (filter (\<lambda>r. \<not> inverted r) rs) act sub obj \<longleftrightarrow>
      list_ex (applies isM om act sub obj) (filter (\<lambda>r. \<not> inverted r) rs)"
    by (rule last_match_allowing) (simp add: list_all_iff)
  ultimately show ?thesis
    by (simp add: denies_last_split last_match_append grants_to_def forbids_to_def)
qed

lemma expandLegacyForbidRule_inverted [simp]: "inverted (expandLegacyForbidRule r) = inverted r"
  by (simp add: expandLegacyForbidRule_def Let_def split: option.splits)

lemma expandLegacyForbidRule_allow: "\<not> inverted r \<Longrightarrow> expandLegacyForbidRule r = r"
  by (simp add: expandLegacyForbidRule_def)

lemma expandLegacyForbidRule_simps [simp]:
  "rule_subject (expandLegacyForbidRule r) = rule_subject r"
  "conditions (expandLegacyForbidRule r) = conditions r"
  by (simp_all add: expandLegacyForbidRule_def Let_def split: option.splits)

lemma expandLegacyForbidRule_actions:
  "set (action_list (rule_action r)) \<subseteq> set (action_list (rule_action (expandLegacyForbidRule r)))"
  by (auto simp: expandLegacyForbidRule_def Let_def action_list_def split: option.splits actions.splits)

lemma grants_to_expand [simp]:
  "grants_to isM om act sub obj (expandLegacyForbidActions rs) = grants_to isM om act sub obj rs"
  by (auto simp: grants_to_def expandLegacyForbidActions_def list_ex_iff expandLegacyForbidRule_allow)

lemma base_rules:
  "buildProjectPermissionRules unpack es pt None =
     Inr (denies_last (expandLegacyForbidActions (concat (map (role_rules unpack pt) es))))"
  by (simp add: buildProjectPermissionRules_def)

lemma last_match_base:
  assumes "buildProjectPermissionRules unpack es pt None = Inr rs"
  shows "last_match isM om rs act sub obj \<longleftrightarrow>
     (\<exists>e \<in> set es. grants_to isM om act sub obj (role_rules unpack pt e)) \<and>
     \<not> (\<exists>e \<in> set es. forbids_to isM om act sub obj (expandLegacyForbidActions (role_rules unpack pt e)))"
proof -
  have split: "expandLegacyForbidActions (concat xs) = concat (map expandLegacyForbidActions xs)" for xs
    by (induction xs) (simp_all add: expandLegacyForbidActions_def)
  from assms have rs: "rs = denies_last (expandLegacyForbidActions (concat (map (role_rules unpack pt) es)))"
    by (simp add: base_rules)
  have "grants_to isM om act sub obj (concat (map (role_rules unpack pt) es)) \<longleftrightarrow>
      (\<exists>e \<in> set es. grants_to isM om act sub obj (role_rules unpack pt e))"
    by (auto simp: grants_to_def list_ex_iff)
  moreover have "forbids_to isM om act sub obj (expandLegacyForbidActions (concat (map (role_rules unpack pt) es))) \<longleftrightarrow>
      (\<exists>e \<in> set es. forbids_to isM om act sub obj (expandLegacyForbidActions (role_rules unpack pt e)))"
    by (auto simp: split forbids_to_def list_ex_iff)
  ultimately show ?thesis
    by (simp add: rs last_match_denies_last)
qed

text \<open>Which rules of a scoped list concern an action: those that name it, as none uses the wildcards.\<close>

definition specific_rule :: "rule \<Rightarrow> bool" where
  "specific_rule r \<longleftrightarrow> ''manage'' \<notin> set (action_list (rule_action r)) \<and>
     (case rule_subject r of OneSubject s \<Rightarrow> s \<noteq> ''all'' | ManySubjects ss \<Rightarrow> False)"

lemma concerns_specific:
  "specific_rule r \<Longrightarrow> concerns act sub r \<longleftrightarrow> (act, sub) \<in> set (grants [r])"
  by (auto simp: specific_rule_def concerns_def grants_def subject_list_def subject_toString_def
      split: subjects.splits)

lemma grants_Cons: "set (grants (r # rs)) = set (grants [r]) \<union> set (grants rs)"
  by (simp add: grants_def)

lemma concerns_scoped:
  assumes "list_all specific_rule rs"
  shows "list_ex (applies isM om act sub obj) (withConditions rs cs) \<longleftrightarrow>
     (act, sub) \<in> set (grants rs) \<and> rule_matches isM om (can1 act sub\<lparr>conditions := Some cs\<rparr>) obj"
  using assms
proof (induction rs)
  case Nil
  then show ?case by (simp add: withConditions_def grants_def)
next
  case (Cons r rs)
  have "concerns act sub (r\<lparr>conditions := Some cs\<rparr>) \<longleftrightarrow> (act, sub) \<in> set (grants [r])"
    using concerns_specific [of r act sub] Cons.prems by (simp add: concerns_def)
  with Cons grants_Cons [of r rs] show ?case
    by (auto simp: withConditions_def applies_def rule_matches_def)
qed

lemma folder_rules_specific:
  "list_all specific_rule (SECRET_FOLDER_ROLE_PERMISSIONS r)" "list_all specific_rule FOLDER_SCOPED_DENY_RULES"
  by (cases r; simp add: folder_tables specific_rule_def can_def action_list_def)
     (simp add: FOLDER_SCOPED_DENY_RULES_def buildFolderScopedDenyRules_def specific_rule_def cannot_def action_list_def)

definition shared_here :: "folder_privilege \<Rightarrow> object \<Rightarrow> bool" where
  "shared_here p obj \<longleftrightarrow> obj ''environment'' = fp_environmentSlug p \<and> obj ''secretPath'' = fp_secretPath p"

definition role_grants :: "folder_privilege \<Rightarrow> string \<Rightarrow> string \<Rightarrow> bool" where
  "role_grants p act sub \<longleftrightarrow>
     (case folder_role_of (fp_role p) of None \<Rightarrow> False | Some r \<Rightarrow> folder_grants r act sub)"

lemma place_matches:
  "rule_matches isM om (r\<lparr>conditions := Some (place_conditions env path)\<rparr>) obj \<longleftrightarrow>
     obj ''environment'' = env \<and> obj ''secretPath'' = path"
  by (auto simp: rule_matches_def place_conditions_def ops_match_def formatConditionOperator_def no_ops_def)

lemma scoped_grants_Inr:
  "scoped_grants ps = Inr gs \<Longrightarrow>
     list_all2 (\<lambda>p (r, cs). folder_role_of (fp_role p) = Some r \<and>
        cs = place_conditions (fp_environmentSlug p) (fp_secretPath p)) ps gs"
  by (induction ps arbitrary: gs) (auto simp: rbind_Inr_iff split: option.splits)


lemma list_ex_concat: "list_ex P (concat xss) \<longleftrightarrow> list_ex (list_ex P) xss"
  by (induction xss) auto

lemma folder_part_applies:
  assumes "scoped_grants ps = Inr gs"
  shows "list_ex (applies isM om act sub obj) (concat (map (\<lambda>(r, cs). withConditions FOLDER_SCOPED_DENY_RULES cs) gs)) \<longleftrightarrow>
      (act, sub) \<in> set (grants FOLDER_SCOPED_DENY_RULES) \<and> (\<exists>p \<in> set ps. shared_here p obj)" (is ?deny)
    and "list_ex (applies isM om act sub obj)
        (concat (map (\<lambda>(r, cs). withConditions (SECRET_FOLDER_ROLE_PERMISSIONS r) cs) gs)) \<longleftrightarrow>
      (\<exists>p \<in> set ps. shared_here p obj \<and> role_grants p act sub)" (is ?allow)
proof -
  from scoped_grants_Inr [OF assms] have "?deny \<and> ?allow"
  proof (induction rule: list_all2_induct)
    case Nil
    then show ?case by simp
  next
    case (Cons p ps g gs)
    obtain r cs where g: "g = (r, cs)" by (cases g)
    with Cons(1) have "folder_role_of (fp_role p) = Some r"
      and cs: "cs = place_conditions (fp_environmentSlug p) (fp_secretPath p)" by auto
    then have "role_grants p act sub \<longleftrightarrow> folder_grants r act sub" by (simp add: role_grants_def)
    with Cons(3) show ?case
      by (auto simp: g cs concerns_scoped folder_rules_specific place_matches shared_here_def folder_grants_def)
  qed
  then show ?deny ?allow by blast+
qed

lemma folder_part_inverted:
  "list_all inverted (concat (map (\<lambda>(r, cs). withConditions FOLDER_SCOPED_DENY_RULES cs) gs))"
  "list_all (\<lambda>r. \<not> inverted r) (concat (map (\<lambda>(r, cs). withConditions (SECRET_FOLDER_ROLE_PERMISSIONS r) cs) gs))"
proof -
  have "list_all inverted FOLDER_SCOPED_DENY_RULES"
    by (simp add: FOLDER_SCOPED_DENY_RULES_def buildFolderScopedDenyRules_def cannot_def)
  then show "list_all inverted (concat (map (\<lambda>(r, cs). withConditions FOLDER_SCOPED_DENY_RULES cs) gs))"
    by (auto simp: list_all_iff withConditions_def)
  have "list_all (\<lambda>x. \<not> inverted x) (SECRET_FOLDER_ROLE_PERMISSIONS r)" for r
    using folder_roles_plain [of r] by (auto simp: list_all_iff plain_grant_def)
  then show "list_all (\<lambda>r. \<not> inverted r)
      (concat (map (\<lambda>(r, cs). withConditions (SECRET_FOLDER_ROLE_PERMISSIONS r) cs) gs))"
    by (auto simp: list_all_iff withConditions_def)
qed

lemma last_match_folder_rules:
  assumes "buildFolderScopedPrivilegeRules ps = Inr fr"
  shows "last_match isM om (base @ fr) act sub obj \<longleftrightarrow>
     (\<exists>p \<in> set ps. shared_here p obj \<and> role_grants p act sub) \<or>
     (last_match isM om base act sub obj \<and>
      \<not> ((act, sub) \<in> set (grants FOLDER_SCOPED_DENY_RULES) \<and> (\<exists>p \<in> set ps. shared_here p obj)))"
proof -
  from assms obtain gs where gs: "scoped_grants ps = Inr gs"
    and fr: "fr = concat (map (\<lambda>(r, cs). withConditions FOLDER_SCOPED_DENY_RULES cs) gs) @
        concat (map (\<lambda>(r, cs). withConditions (SECRET_FOLDER_ROLE_PERMISSIONS r) cs) gs)"
    by (auto simp: buildFolderScopedPrivilegeRules_def rbind_Inr_iff)
  note last_match_denying [OF folder_part_inverted(1), of isM om gs act sub obj]
  moreover note last_match_allowing [OF folder_part_inverted(2), of isM om gs act sub obj]
  ultimately show ?thesis
    unfolding fr append_assoc [symmetric] last_match_append
    by (auto simp: folder_part_applies [OF gs])
qed

section \<open>Properties of the rules\<close>

text \<open>
  C23: the base rules of an ability decide as a set of roles does. An action is allowed exactly when
  some role of the actor grants it on the object and no role forbids it there, directly or through
  the legacy action a forbid is extended to. Neither the order of the roles nor of their rules
  matters, and a forbid of one role beats the grants of all others.
\<close>

theorem base_rules_decide:
  assumes "last_match_wins isM om casl"
    and "buildProjectPermissionRules unpack es pt None = Inr rs"
  shows "casl rs act sub obj \<longleftrightarrow>
     (\<exists>e \<in> set es. grants_to isM om act sub obj (role_rules unpack pt e)) \<and>
     \<not> (\<exists>e \<in> set es. forbids_to isM om act sub obj (expandLegacyForbidActions (role_rules unpack pt e)))"
  using assms(1) last_match_base [OF assms(2)] by (simp add: last_match_wins_def)

definition example_roles :: "rule list role_entry list" where
  "example_roles =
     [\<lparr>role_name = ''custom'', role_permissions = [cannot [''readValue''] ''secrets'']\<rparr>,
      \<lparr>role_name = ''viewer'', role_permissions = []\<rparr>]"

theorem base_rules_decide_witness:
  "last_match (\<lambda>v g. False) (\<lambda>k x v. False) (projectViewerPermission @ [cannot [''readValue'', ''read''] ''secrets''])
       ''readValue'' ''secrets'' (\<lambda>f. []) \<longleftrightarrow>
     (\<exists>e \<in> set example_roles. grants_to (\<lambda>v g. False) (\<lambda>k x v. False) ''readValue'' ''secrets'' (\<lambda>f. [])
         (role_rules (\<lambda>p. p) None e)) \<and>
     \<not> (\<exists>e \<in> set example_roles. forbids_to (\<lambda>v g. False) (\<lambda>k x v. False) ''readValue'' ''secrets'' (\<lambda>f. [])
         (expandLegacyForbidActions (role_rules (\<lambda>p. p) None e)))"
proof (rule base_rules_decide)
  show "last_match_wins (\<lambda>v g. False) (\<lambda>k x v. False) (last_match (\<lambda>v g. False) (\<lambda>k x v. False))"
    by (simp add: last_match_wins_def)
  have "list_all plain_grant projectViewerPermission" by (simp add: role_tables)
  then have v: "filter (\<lambda>r. \<not> inverted r) projectViewerPermission = projectViewerPermission"
      "filter inverted projectViewerPermission = []"
      "expandLegacyForbidActions projectViewerPermission = projectViewerPermission"
    by (auto simp: list_all_iff plain_grant_def filter_id_conv filter_empty_conv expandLegacyForbidActions_def
        expandLegacyForbidRule_allow map_idI)
  have e: "expandLegacyForbidRule (cannot [''readValue''] ''secrets'') = cannot [''readValue'', ''read''] ''secrets''"
    by (simp add: expandLegacyForbidRule_def LEGACY_FORBID_ACTION_EXPANSIONS_def cannot_def subject_list_def
        action_list_def)
  show "buildProjectPermissionRules (\<lambda>p. p) example_roles None None =
      Inr (projectViewerPermission @ [cannot [''readValue'', ''read''] ''secrets''])"
    using v e by (simp add: base_rules denies_last_split example_roles_def role_rules_def
        expandLegacyForbidActions_def) (simp add: cannot_def)
qed

text \<open>
  C8: at a folder that is shared with the actor, the shares replace the roles: on every action the
  deny rules name, the actor may do what the role of one of its shares of that folder grants and
  nothing else, whatever its roles in the project allow or forbid. Everywhere else, and on other
  actions, the roles decide as if nothing were shared.
\<close>

theorem shared_folders_decide:
  assumes "last_match_wins isM om casl"
    and "buildProjectPermissionRules unpack es pt (Some ps) = Inr rs"
    and "buildProjectPermissionRules unpack es pt None = Inr base"
  shows "casl rs act sub obj \<longleftrightarrow>
     (\<exists>p \<in> set ps. shared_here p obj \<and> role_grants p act sub) \<or>
     (casl base act sub obj \<and>
      \<not> ((act, sub) \<in> set (grants FOLDER_SCOPED_DENY_RULES) \<and> (\<exists>p \<in> set ps. shared_here p obj)))"
proof (cases "ps = []")
  case True
  with assms show ?thesis by (simp add: buildProjectPermissionRules_def)
next
  case False
  with assms(2) obtain fr where "buildFolderScopedPrivilegeRules ps = Inr fr"
    "rs = denies_last (expandLegacyForbidActions (concat (map (role_rules unpack pt) es))) @ fr"
    by (auto simp: buildProjectPermissionRules_def rbind_Inr_iff Let_def)
  with assms(1,3) last_match_folder_rules show ?thesis
    by (simp add: base_rules last_match_wins_def)
qed

definition example_share :: folder_privilege where
  "example_share = \<lparr>fp_id = ''p1'', fp_folderId = ''f1'', fp_role = ''list'', fp_environmentSlug = ''prod'',
     fp_secretPath = ''/apps''\<rparr>"

definition example_place :: object where
  "example_place f = (if f = ''environment'' then ''prod'' else if f = ''secretPath'' then ''/apps'' else [])"

lemma deny_covers_read_value: "(''readValue'', ''secrets'') \<in> set (grants FOLDER_SCOPED_DENY_RULES)"
  by (simp flip: actions_on_iff add: FOLDER_SCOPED_DENY_RULES_def buildFolderScopedDenyRules_def)

theorem shared_folders_decide_witness:
  "\<exists>rs. buildProjectPermissionRules (\<lambda>p. p) example_roles None (Some [example_share]) = Inr rs \<and>
     \<not> last_match (\<lambda>v g. False) (\<lambda>k x v. False) rs ''readValue'' ''secrets'' example_place"
proof -
  have "scoped_grants [example_share] = Inr [(List, place_conditions ''prod'' ''/apps'')]"
    by (simp add: example_share_def folder_role_of_def all_folder_roles_def)
  then obtain rs where rs: "buildProjectPermissionRules (\<lambda>p. p) example_roles None (Some [example_share]) = Inr rs"
    by (simp add: buildProjectPermissionRules_def buildFolderScopedPrivilegeRules_def Let_def)
  have "last_match_wins (\<lambda>v g. False) (\<lambda>k x v. False) (last_match (\<lambda>v g. False) (\<lambda>k x v. False))"
    by (simp add: last_match_wins_def)
  from shared_folders_decide [OF this rs base_rules, of "''readValue''" "''secrets''" example_place]
  have "\<not> last_match (\<lambda>v g. False) (\<lambda>k x v. False) rs ''readValue'' ''secrets'' example_place"
    using deny_covers_read_value
    by (simp add: example_share_def example_place_def shared_here_def role_grants_def folder_role_of_def
        all_folder_roles_def folder_thresholds less_eq_SecretFolderRole_def)
  with rs show ?thesis by blast
qed

section \<open>Roles on one resource\<close>

definition resolveResourceRoleRules :: "string \<Rightarrow> string \<Rightarrow> rules_error + rule list" where
  "resolveResourceRoleRules resourceType role =
     (if resourceType = ''pki-signer'' then
        (if role = ''admin'' then Inr signerAdminPermissions
         else if role = ''operator'' then Inr signerOperatorPermissions
         else if role = ''auditor'' then Inr signerAuditorPermissions
         else if role = ''custom'' then Inl CustomRoleNotSupported
         else Inl (RoleInvalid role))
      else if resourceType = ''pam-folder'' \<or> resourceType = ''pam-account'' then
        (if role = ''admin'' then Inr pamResourceAdminPermissions
         else if role = ''connector'' then Inr pamResourceConnectorPermissions
         else if role = ''auditor'' then Inr pamResourceAuditorPermissions
         else Inl (RoleInvalid role))
      else if role = ''admin'' then Inr applicationAdminPermissions
      else if role = ''operator'' then Inr applicationOperatorPermissions
      else if role = ''auditor'' then Inr applicationAuditorPermissions
      else if role = ''custom'' then Inl CustomRoleNotSupported
      else Inl (RoleInvalid role))"

fun resource_rules :: "string \<Rightarrow> 'p role_entry list \<Rightarrow> rules_error + rule list" where
  "resource_rules resourceType [] = Inr []"
| "resource_rules resourceType (e # es) =
     rbind (resolveResourceRoleRules resourceType (role_name e)) (\<lambda>rs.
       rbind (resource_rules resourceType es) (\<lambda>rs'. Inr (rs @ rs')))"

definition buildResourcePermissionRules :: "'p role_entry list \<Rightarrow> string \<Rightarrow> rules_error + rule list" where
  "buildResourcePermissionRules appUserRoles resourceType =
     rbind (resource_rules resourceType appUserRoles) (\<lambda>rs. Inr (denies_last rs))"

definition resolveResourceProjectAdminFallback :: "string \<Rightarrow> rule list" where
  "resolveResourceProjectAdminFallback resourceType =
     (if resourceType = ''pki-signer'' then projectAdminSignerFallbackPermissions
      else if resourceType = ''pam-folder'' \<or> resourceType = ''pam-account'' then []
      else projectAdminApplicationFallbackPermissions)"

section \<open>Active roles\<close>

text \<open>
  A role of a membership with its optional end; times are milliseconds. \<open>now\<close> is \<open>new Date()\<close>.
\<close>

record 'p membership_role =
  mr_role :: string
  mr_customRoleSlug :: "string option"
  mr_permissions :: 'p
  mr_isTemporary :: bool
  mr_temporaryAccessEndTime :: "int option"

record 'p membership =
  m_roles :: "'p membership_role list"
  m_additionalPrivileges :: "'p membership_role list"

definition isActiveRole :: "int \<Rightarrow> 'p membership_role \<Rightarrow> bool" where
  "isActiveRole now r \<longleftrightarrow>
     \<not> mr_isTemporary r \<or> (case mr_temporaryAccessEndTime r of None \<Rightarrow> False | Some e \<Rightarrow> now < e)"

definition flattenActiveRolesFromMemberships :: "int \<Rightarrow> 'p membership list \<Rightarrow> string \<Rightarrow> 'p role_entry list" where
  "flattenActiveRolesFromMemberships now memberships customRoleValue =
     concat (map (\<lambda>mb.
       map (\<lambda>r. \<lparr>role_name = mr_role r, role_permissions = mr_permissions r\<rparr>)
         (filter (isActiveRole now) (m_roles mb)) @
       map (\<lambda>r. \<lparr>role_name = customRoleValue, role_permissions = mr_permissions r\<rparr>)
         (filter (isActiveRole now) (m_additionalPrivileges mb))) memberships)"

definition membershipsHaveActiveRole :: "int \<Rightarrow> 'p membership list \<Rightarrow> string \<Rightarrow> bool" where
  "membershipsHaveActiveRole now memberships role =
     list_ex (\<lambda>mb. list_ex (\<lambda>r.
       role = (if truthy (mr_customRoleSlug r) then the (mr_customRoleSlug r) else mr_role r) \<and>
       isActiveRole now r) (m_roles mb)) memberships"

definition hasActiveProjectAdminRole :: "int \<Rightarrow> 'p membership list \<Rightarrow> bool" where
  "hasActiveProjectAdminRole now memberships =
     list_ex (\<lambda>mb. list_ex (\<lambda>r. mr_role r = ''admin'' \<and> isActiveRole now r) (m_roles mb)) memberships"

text \<open>A time limited role has expired at its end; dropping the expired roles of a membership.\<close>

definition expired :: "int \<Rightarrow> 'p membership_role \<Rightarrow> bool" where
  "expired now r \<longleftrightarrow> mr_isTemporary r \<and> (\<forall>e. mr_temporaryAccessEndTime r = Some e \<longrightarrow> e \<le> now)"

definition drop_expired :: "int \<Rightarrow> 'p membership \<Rightarrow> 'p membership" where
  "drop_expired now mb =
     mb\<lparr>m_roles := filter (\<lambda>r. \<not> expired now r) (m_roles mb),
        m_additionalPrivileges := filter (\<lambda>r. \<not> expired now r) (m_additionalPrivileges mb)\<rparr>"

lemma isActiveRole_expired: "isActiveRole now r \<longleftrightarrow> \<not> expired now r"
  by (auto simp: isActiveRole_def expired_def split: option.splits)

lemma flatten_drop_expired:
  "flattenActiveRolesFromMemberships later (map (drop_expired now) ms) c = flattenActiveRolesFromMemberships later ms c"
  if "now \<le> later" for ms :: "'p membership list"
proof -
  have "filter (isActiveRole later) (filter (\<lambda>r. \<not> expired now r) rs) = filter (isActiveRole later) rs"
    for rs :: "'p membership_role list"
    using that by (induction rs) (force simp: isActiveRole_expired expired_def)+
  then show ?thesis
    by (simp add: flattenActiveRolesFromMemberships_def drop_expired_def o_def)
qed

lemma hasAdmin_drop_expired:
  "now \<le> later \<Longrightarrow> hasActiveProjectAdminRole later (map (drop_expired now) ms) = hasActiveProjectAdminRole later ms"
  by (fastforce simp: hasActiveProjectAdminRole_def drop_expired_def list_ex_iff isActiveRole_expired expired_def)

text \<open>
  An expired role is as good as no role. Whatever is built after the end of a temporary role or
  privilege, the roles that count, the rules of the ability and the project admin bypass are those
  of the memberships without it, and stay so for ever.
\<close>

theorem expired_roles_do_not_count:
  assumes "now \<le> later"
  shows "buildProjectPermissionRules unpack (flattenActiveRolesFromMemberships later ms c) pt ps =
      buildProjectPermissionRules unpack (flattenActiveRolesFromMemberships later (map (drop_expired now) ms) c) pt ps \<and>
    hasActiveProjectAdminRole later ms = hasActiveProjectAdminRole later (map (drop_expired now) ms)"
  using assms by (simp add: flatten_drop_expired hasAdmin_drop_expired)

definition example_membership :: "rule list membership" where
  "example_membership =
     \<lparr>m_roles = [\<lparr>mr_role = ''admin'', mr_customRoleSlug = None, mr_permissions = [], mr_isTemporary = True,
        mr_temporaryAccessEndTime = Some 1000\<rparr>], m_additionalPrivileges = []\<rparr>"

theorem expired_roles_do_not_count_witness:
  "\<not> hasActiveProjectAdminRole 1000 [example_membership] \<and> hasActiveProjectAdminRole 999 [example_membership]"
  using expired_roles_do_not_count [of 1000 1000 "\<lambda>p. p" "[example_membership]" "''custom''" None None]
  by (simp add: example_membership_def hasActiveProjectAdminRole_def isActiveRole_def drop_expired_def expired_def)

section \<open>Denies that a share overrides itself\<close>

definition permission_pair :: "string \<Rightarrow> string \<Rightarrow> string" where
  "permission_pair sub act = sub @ '':'' @ act"

definition allowed_pairs :: "rule list \<Rightarrow> string list" where
  "allowed_pairs rs =
     concat (map (\<lambda>r. concat (map (\<lambda>sub. map (permission_pair sub) (action_list (rule_action r)))
         (subject_list (rule_subject r)))) (filter (\<lambda>r. \<not> inverted r) rs))"

definition remaining_denies :: "string list \<Rightarrow> rule \<Rightarrow> rule list" where
  "remaining_denies allowed r =
     (if \<not> inverted r then [r]
      else concat (map (\<lambda>sub.
        let deniedActions = filter (\<lambda>a. permission_pair sub a \<notin> set allowed) (action_list (rule_action r))
        in if deniedActions = [] then []
           else [r\<lparr>rule_subject := OneSubject sub, rule_action := ManyActions deniedActions\<rparr>])
        (subject_list (rule_subject r))))"

definition filterOverriddenFolderScopedDenyRules :: "rule list \<Rightarrow> rule list" where
  "filterOverriddenFolderScopedDenyRules rs = concat (map (remaining_denies (allowed_pairs rs)) rs)"

lemma remaining_denies_applies:
  assumes "inverted r" "specific_rule r"
  shows "list_ex (applies isM om act sub obj) (remaining_denies allowed r) \<longleftrightarrow>
     applies isM om act sub obj r \<and> permission_pair sub act \<notin> set allowed"
proof -
  from assms(2) obtain s where s: "rule_subject r = OneSubject s" "s \<noteq> ''all''"
    and nm: "''manage'' \<notin> set (action_list (rule_action r))"
    by (auto simp: specific_rule_def split: subjects.splits)
  have ne: "filter (\<lambda>a. permission_pair s a \<notin> set allowed) (action_list (rule_action r)) = [] \<longleftrightarrow>
      (\<forall>a \<in> set (action_list (rule_action r)). permission_pair s a \<in> set allowed)"
    by (auto simp: filter_empty_conv)
  have al: "action_list (ManyActions xs) = xs" for xs by (simp add: action_list_def)
  from assms(1) s nm ne show ?thesis
    by (auto simp: remaining_denies_def subject_list_def applies_def concerns_def rule_matches_def al Let_def)
qed

lemma remaining_denies_inverted: "inverted r \<Longrightarrow> list_all inverted (remaining_denies allowed r)"
  by (auto simp: remaining_denies_def list_all_iff Let_def split: if_splits)

lemma remaining_denies_allow: "list_all (\<lambda>r. \<not> inverted r) rs \<Longrightarrow> concat (map (remaining_denies allowed) rs) = rs"
  by (induction rs) (auto simp: remaining_denies_def)

lemma remaining_denies_list:
  assumes "list_all inverted rs" "list_all specific_rule rs"
  shows "list_ex (applies isM om act sub obj) (concat (map (remaining_denies allowed) rs)) \<longleftrightarrow>
     list_ex (applies isM om act sub obj) rs \<and> permission_pair sub act \<notin> set allowed"
  using assms by (induction rs) (auto simp: remaining_denies_applies)

lemma withConditions_specific: "list_all specific_rule (withConditions rs cs) = list_all specific_rule rs"
  by (auto simp: withConditions_def list_all_iff specific_rule_def)

lemma folder_subjects_colon_free:
  "list_all (\<lambda>(a, s). CHR '':'' \<notin> set s) (grants (SECRET_FOLDER_ROLE_PERMISSIONS r))"
  "list_all (\<lambda>(a, s). CHR '':'' \<notin> set s) (grants FOLDER_SCOPED_DENY_RULES)"
  by (cases r; simp add: folder_tables grants_def can_def action_list_def subject_toString_def)
     (simp add: FOLDER_SCOPED_DENY_RULES_def buildFolderScopedDenyRules_def grants_def cannot_def
       action_list_def subject_toString_def)

lemma plain_pairs:
  "list_all plain_grant rs \<Longrightarrow>
   concat (map (\<lambda>r. concat (map (\<lambda>sub. map (permission_pair sub) (action_list (rule_action r)))
       (subject_list (rule_subject r)))) rs) = map (\<lambda>(a, s). permission_pair s a) (grants rs)"
  by (induction rs)
    (auto simp: grants_def plain_grant_def subject_list_def subject_toString_def split: subjects.splits)

lemma allowed_pairs_roles:
  assumes "list_all inverted ds" "CHR '':'' \<notin> set sub"
  shows "permission_pair sub act \<in> set (allowed_pairs (ds @ withConditions (SECRET_FOLDER_ROLE_PERMISSIONS r) cs)) \<longleftrightarrow>
     folder_grants r act sub"
proof -
  let ?rs = "SECRET_FOLDER_ROLE_PERMISSIONS r"
  let ?pairs = "\<lambda>r. concat (map (\<lambda>sub. map (permission_pair sub) (action_list (rule_action r)))
      (subject_list (rule_subject r)))"
  have "list_all (\<lambda>x. \<not> inverted x) (withConditions ?rs cs)"
    using folder_roles_plain [of r] by (auto simp: list_all_iff plain_grant_def withConditions_def)
  then have "filter (\<lambda>r. \<not> inverted r) (withConditions ?rs cs) = withConditions ?rs cs"
    by (simp only: filter_id_conv list_all_iff)
  moreover have "filter (\<lambda>r. \<not> inverted r) ds = []"
    using assms(1) by (simp only: filter_empty_conv list_all_iff not_not)
  ultimately have "allowed_pairs (ds @ withConditions ?rs cs) = concat (map ?pairs (withConditions ?rs cs))"
    by (simp only: allowed_pairs_def filter_append append_Nil)
  also have "\<dots> = concat (map ?pairs ?rs)"
    by (simp add: withConditions_def o_def)
  also have "\<dots> = map (\<lambda>(a, s). permission_pair s a) (grants ?rs)"
    by (rule plain_pairs [OF folder_roles_plain])
  finally have set_pairs: "set (allowed_pairs (ds @ withConditions ?rs cs)) =
      (\<lambda>(a, s). permission_pair s a) ` set (grants ?rs)" by simp
  have "permission_pair s a = permission_pair sub act \<longleftrightarrow> s = sub \<and> a = act" if "(a, s) \<in> set (grants ?rs)" for a s
    using getPermissionSetID_inject [of s a sub act] folder_subjects_colon_free(1) [of r] that assms(2)
    by (auto simp: permission_pair_def getPermissionSetID_def list_all_iff)
  with set_pairs show ?thesis by (fastforce simp: folder_grants_def)
qed

lemma filtered_share:
  assumes "buildFolderScopedPrivilegeRules [p] = Inr fr"
  shows "\<exists>r cs. folder_role_of (fp_role p) = Some r \<and>
    cs = place_conditions (fp_environmentSlug p) (fp_secretPath p) \<and>
    fr = withConditions FOLDER_SCOPED_DENY_RULES cs @ withConditions (SECRET_FOLDER_ROLE_PERMISSIONS r) cs"
  using assms by (auto simp: buildFolderScopedPrivilegeRules_def rbind_Inr_iff split: option.splits)

text \<open>
  Dropping the denies that a share overrides changes no decision. The filtered rules of one
  share, after any base rules, allow and refuse exactly what the full rules of that share do.
\<close>

theorem filtering_denies_is_harmless:
  assumes "last_match_wins isM om casl" "buildFolderScopedPrivilegeRules [p] = Inr fr"
  shows "casl (base @ filterOverriddenFolderScopedDenyRules fr) act sub obj = casl (base @ fr) act sub obj"
proof -
  from filtered_share [OF assms(2)] obtain r cs where "folder_role_of (fp_role p) = Some r"
    and cs: "cs = place_conditions (fp_environmentSlug p) (fp_secretPath p)"
    and fr: "fr = withConditions FOLDER_SCOPED_DENY_RULES cs @ withConditions (SECRET_FOLDER_ROLE_PERMISSIONS r) cs"
    by blast
  let ?D = "withConditions FOLDER_SCOPED_DENY_RULES cs"
  let ?A = "withConditions (SECRET_FOLDER_ROLE_PERMISSIONS r) cs"
  let ?ap = "list_ex (applies isM om act sub obj)"
  let ?D' = "concat (map (remaining_denies (allowed_pairs fr)) ?D)"
  note inv = folder_part_inverted [of "[(r, cs)]", simplified]
  have f: "filterOverriddenFolderScopedDenyRules fr = ?D' @ ?A"
    using inv(2) by (simp add: filterOverriddenFolderScopedDenyRules_def fr remaining_denies_allow)
  have inv': "list_all inverted ?D'"
    using inv(1) remaining_denies_inverted by (fastforce simp: list_all_iff)
  have D': "?ap ?D' \<longleftrightarrow> ?ap ?D \<and> permission_pair sub act \<notin> set (allowed_pairs fr)"
    by (rule remaining_denies_list) (simp_all add: inv(1) withConditions_specific folder_rules_specific)
  have D: "?ap ?D \<longleftrightarrow> (act, sub) \<in> set (grants FOLDER_SCOPED_DENY_RULES) \<and> shared_here p obj"
    and A: "?ap ?A \<longleftrightarrow> folder_grants r act sub \<and> shared_here p obj"
    by (auto simp: concerns_scoped folder_rules_specific folder_grants_def cs place_matches shared_here_def)
  have "?ap ?D' \<or> ?ap ?A \<longleftrightarrow> ?ap ?D \<or> ?ap ?A"
  proof (cases "(act, sub) \<in> set (grants FOLDER_SCOPED_DENY_RULES)")
    case True
    then have "CHR '':'' \<notin> set sub" using folder_subjects_colon_free(2) by (auto simp: list_all_iff)
    with D' D A allowed_pairs_roles [OF inv(1), of sub act r] show ?thesis by (auto simp: fr)
  next
    case False
    with D D' show ?thesis by simp
  qed
  then have "last_match isM om (base @ ?D' @ ?A) act sub obj = last_match isM om (base @ ?D @ ?A) act sub obj"
    using last_match_denying [OF inv'] last_match_denying [OF inv(1)]
    by (auto simp flip: append_assoc simp: last_match_append)
  moreover have "casl (base @ filterOverriddenFolderScopedDenyRules fr) act sub obj =
      last_match isM om (base @ ?D' @ ?A) act sub obj"
    using assms(1) by (simp only: last_match_wins_def f)
  moreover have "casl (base @ fr) act sub obj = last_match isM om (base @ ?D @ ?A) act sub obj"
    using assms(1) by (simp only: last_match_wins_def fr)
  ultimately show ?thesis by simp
qed

theorem filtering_denies_is_harmless_witness:
  "\<exists>fr. buildFolderScopedPrivilegeRules [example_share] = Inr fr \<and>
     last_match (\<lambda>v g. False) (\<lambda>k x v. False) (projectAdminPermissions @ filterOverriddenFolderScopedDenyRules fr)
       ''edit'' ''secrets'' example_place =
     last_match (\<lambda>v g. False) (\<lambda>k x v. False) (projectAdminPermissions @ fr) ''edit'' ''secrets'' example_place"
proof -
  have "scoped_grants [example_share] = Inr [(List, place_conditions ''prod'' ''/apps'')]"
    by (simp add: example_share_def folder_role_of_def all_folder_roles_def)
  then obtain fr where fr: "buildFolderScopedPrivilegeRules [example_share] = Inr fr"
    by (simp add: buildFolderScopedPrivilegeRules_def)
  have "last_match_wins (\<lambda>v g. False) (\<lambda>k x v. False) (last_match (\<lambda>v g. False) (\<lambda>k x v. False))"
    by (simp add: last_match_wins_def)
  from filtering_denies_is_harmless [OF this fr] fr show ?thesis by blast
qed

section \<open>Service tokens\<close>

record token_scope =
  scope_secretPath :: string
  scope_environment :: string

definition scope_conditions :: "token_scope \<Rightarrow> conditions" where
  "scope_conditions sc =
     [(''secretPath'', Ops (no_ops\<lparr>glob_op := Some (scope_secretPath sc)\<rparr>)),
      (''environment'', Plain (scope_environment sc))]"

definition can_scoped :: "string \<Rightarrow> string \<Rightarrow> conditions \<Rightarrow> rule" where
  "can_scoped act sub cs = can1 act sub\<lparr>conditions := Some cs\<rparr>"

definition token_subject_rules :: "bool \<Rightarrow> bool \<Rightarrow> bool \<Rightarrow> token_scope \<Rightarrow> ProjectPermissionSub \<Rightarrow> rule list" where
  "token_subject_rules canWrite canRead useLegacyRead sc subject =
     (let cs = scope_conditions sc; sub = projectSub subject in
      (if canWrite
       then [can_scoped (projectActions ProjectPermissionActions.Edit) sub cs,
             can_scoped (projectActions ProjectPermissionActions.Create) sub cs,
             can_scoped (projectActions ProjectPermissionActions.Delete) sub cs]
       else []) @
      (if canRead \<and> subject \<noteq> ProjectPermissionSub.SecretFolders
       then (if \<not> useLegacyRead \<and> subject = ProjectPermissionSub.Secrets
             then [can_scoped (secretActions ProjectPermissionSecretActions.ReadValue) sub cs,
                   can_scoped (secretActions ProjectPermissionSecretActions.DescribeSecret) sub cs]
             else [can_scoped (projectActions ProjectPermissionActions.Read) sub cs])
       else []))"

definition buildServiceTokenProjectPermission :: "token_scope list \<Rightarrow> string list \<Rightarrow> bool option \<Rightarrow> rule list" where
  "buildServiceTokenProjectPermission scopes permission useLegacyReadOption =
     (let useLegacyRead = (case useLegacyReadOption of None \<Rightarrow> True | Some b \<Rightarrow> b);
          canWrite = ''write'' \<in> set permission;
          canRead = ''read'' \<in> set permission
      in concat (map (\<lambda>sc. concat (map (token_subject_rules canWrite canRead useLegacyRead sc)
           [ProjectPermissionSub.Secrets, ProjectPermissionSub.SecretImports, ProjectPermissionSub.SecretFolders])) scopes))"

definition in_scope :: "(string \<Rightarrow> string \<Rightarrow> bool) \<Rightarrow> object \<Rightarrow> token_scope \<Rightarrow> bool" where
  "in_scope isM obj sc \<longleftrightarrow>
     obj ''environment'' = scope_environment sc \<and> glob_interpreter isM (scope_secretPath sc) (obj ''secretPath'')"

definition token_allows :: "string list \<Rightarrow> bool \<Rightarrow> string \<Rightarrow> string \<Rightarrow> bool" where
  "token_allows permission useLegacyRead act sub \<longleftrightarrow>
     (''write'' \<in> set permission \<and> act \<in> {''edit'', ''create'', ''delete''} \<and>
        sub \<in> {''secrets'', ''secret-imports'', ''secret-folders''}) \<or>
     (''read'' \<in> set permission \<and>
        (sub = ''secret-imports'' \<and> act = ''read'' \<or>
         sub = ''secrets'' \<and> act \<in> (if useLegacyRead then {''read''} else {''readValue'', ''describeSecret''})))"

lemma can_scoped_simps:
  "\<not> inverted (can_scoped a s cs)"
  "a \<noteq> ''manage'' \<Longrightarrow> s \<noteq> ''all'' \<Longrightarrow>
     concerns act sub (can_scoped a s cs) \<longleftrightarrow> act = a \<and> sub = s"
  "rule_matches isM om (can_scoped a s (scope_conditions sc)) obj \<longleftrightarrow> in_scope isM obj sc"
  by (auto simp: can_scoped_def can1_def concerns_def action_list_def subject_list_def rule_matches_def
      scope_conditions_def in_scope_def ops_match_def formatConditionOperator_def no_ops_def)

lemma token_subject_rules_allow:
  "list_all (\<lambda>r. \<not> inverted r) (token_subject_rules w rd lg sc subject)"
  by (simp add: token_subject_rules_def can_scoped_simps Let_def)

lemma token_subject_rules_applies:
  assumes "subject \<in> {ProjectPermissionSub.Secrets, ProjectPermissionSub.SecretImports, ProjectPermissionSub.SecretFolders}"
  shows "list_ex (applies isM om act sub obj) (token_subject_rules w rd lg sc subject) \<longleftrightarrow>
    in_scope isM obj sc \<and> sub = projectSub subject \<and>
    (w \<and> act \<in> {''edit'', ''create'', ''delete''} \<or>
     rd \<and> (subject = ProjectPermissionSub.SecretImports \<and> act = ''read'' \<or>
        subject = ProjectPermissionSub.Secrets \<and>
        act \<in> (if lg then {''read''} else {''readValue'', ''describeSecret''})))"
  using assms by (auto simp: token_subject_rules_def Let_def applies_def can_scoped_simps split: if_splits)

lemma list_ex_map: "list_ex P (map f xs) = list_ex (\<lambda>x. P (f x)) xs"
  by (simp add: list_ex_iff)

lemma token_scope_applies:
  assumes "w = (''write'' \<in> set permission)" "rd = (''read'' \<in> set permission)"
  shows "list_ex (\<lambda>x. list_ex (applies isM om act sub obj) (token_subject_rules w rd lg sc x))
      [ProjectPermissionSub.Secrets, ProjectPermissionSub.SecretImports, ProjectPermissionSub.SecretFolders] \<longleftrightarrow>
    in_scope isM obj sc \<and> token_allows permission lg act sub"
  by (cases "sub = ''secrets''"; cases "sub = ''secret-imports''"; cases "sub = ''secret-folders''")
    (simp_all add: token_subject_rules_applies token_allows_def flip: assms)

text \<open>
  what a service token may do, in full. It is allowed an action exactly inside one of its scopes
  (environment equal, path matched by the scope's glob), and there: with write, to create, edit and
  delete secrets, imports and folders; with read, to read imports and, by the legacy action or by
  the two actions that replaced it, secrets. No scope grants reading folders explicitly.
\<close>

theorem service_token_decides:
  assumes "last_match_wins isM om casl"
  shows "casl (buildServiceTokenProjectPermission scopes permission legacy) act sub obj \<longleftrightarrow>
     list_ex (in_scope isM obj) scopes \<and>
     token_allows permission (case legacy of None \<Rightarrow> True | Some b \<Rightarrow> b) act sub"
proof -
  let ?lg = "case legacy of None \<Rightarrow> True | Some b \<Rightarrow> b"
  let ?rs = "buildServiceTokenProjectPermission scopes permission legacy"
  have "list_all (\<lambda>r. \<not> inverted r) ?rs"
    using token_subject_rules_allow by (auto simp: buildServiceTokenProjectPermission_def Let_def list_all_iff)
  then have "casl ?rs act sub obj \<longleftrightarrow> list_ex (applies isM om act sub obj) ?rs"
    using assms by (simp add: last_match_wins_def last_match_allowing)
  also have "\<dots> \<longleftrightarrow> list_ex (in_scope isM obj) scopes \<and> token_allows permission ?lg act sub"
    unfolding buildServiceTokenProjectPermission_def Let_def list_ex_concat list_ex_map o_def
      token_scope_applies [OF refl refl]
    by (auto simp: list_ex_iff)
  finally show ?thesis .
qed

theorem service_token_decides_witness:
  "last_match (\<lambda>v g. glob_lang g v) (\<lambda>k x v. False)
     (buildServiceTokenProjectPermission [\<lparr>scope_secretPath = ''/apps'', scope_environment = ''prod''\<rparr>] [''read''] None)
     ''read'' ''secrets'' example_place"
proof -
  have "last_match_wins (\<lambda>v g. glob_lang g v) (\<lambda>k x v. False) (last_match (\<lambda>v g. glob_lang g v) (\<lambda>k x v. False))"
    by (simp add: last_match_wins_def)
  from service_token_decides [OF this, of "[\<lparr>scope_secretPath = ''/apps'', scope_environment = ''prod''\<rparr>]" "[''read'']" None
      "''read''" "''secrets''" example_place]
  have "last_match (\<lambda>v g. glob_lang g v) (\<lambda>k x v. False)
     (buildServiceTokenProjectPermission [\<lparr>scope_secretPath = ''/apps'', scope_environment = ''prod''\<rparr>] [''read''] None)
     ''read'' ''secrets'' example_place \<longleftrightarrow>
     in_scope (\<lambda>v g. glob_lang g v) example_place \<lparr>scope_secretPath = ''/apps'', scope_environment = ''prod''\<rparr>"
    by (simp add: token_allows_def)
  moreover have "glob_interpreter (\<lambda>v g. glob_lang g v) ''/apps'' ''/apps''" by code_simp
  ultimately show ?thesis by (simp add: in_scope_def example_place_def)
qed

section \<open>Shared folders of an actor\<close>

text \<open>
  A row of the additional privileges table that scopes a privilege to a folder, and where that
  folder is: \<open>findSecretPathByFolderIds\<close> answers with one entry for each row, empty when the folder
  is gone.
\<close>

record privilege_row =
  row_id :: string
  row_folderId :: string
  row_role :: "string option"
  row_isTemporary :: bool
  row_temporaryAccessEndTime :: "int option"

record folder_place =
  place_environmentSlug :: string
  place_path :: string

record cached_privilege = folder_privilege +
  cp_isTemporary :: bool
  cp_temporaryAccessEndTime :: "int option"

fun cached_privileges :: "privilege_row list \<Rightarrow> folder_place option list \<Rightarrow> cached_privilege list" where
  "cached_privileges (row # rows) places =
     (case (case places of [] \<Rightarrow> None | pl # pls \<Rightarrow> pl) of
        None \<Rightarrow> []
      | Some folder \<Rightarrow> if \<not> truthy (row_role row) then []
          else [\<lparr>fp_id = row_id row, fp_folderId = row_folderId row, fp_role = the (row_role row),
                 fp_environmentSlug = place_environmentSlug folder, fp_secretPath = place_path folder,
                 cp_isTemporary = row_isTemporary row,
                 cp_temporaryAccessEndTime = row_temporaryAccessEndTime row\<rparr>]) @
     cached_privileges rows (tl places)"
| "cached_privileges [] places = []"

definition fetchFolderScopedPrivileges ::
  "(string list \<Rightarrow> folder_place option list) \<Rightarrow> privilege_row list \<Rightarrow> cached_privilege list" where
  "fetchFolderScopedPrivileges findSecretPathByFolderIds rows =
     (if rows = [] then [] else cached_privileges rows (findSecretPathByFolderIds (map row_folderId rows)))"

end
