(* ===== verification/PermissionChecks.thy ===== *)
theory PermissionChecks
  imports PermissionRules
begin

text \<open>
  The checks made on an ability (\<open>backend/src/ee/services/permission/permission-fns.ts\<close>): reading and
  moving secrets, combinations of actions and conditions a role may not have, single sign-on of the
  organization, changing the privileges of another actor, and the two helpers of role templates.

  \<open>may act sub flds\<close> is the ability's answer, on an object when \<open>flds\<close> are given and on the
  bare subject type otherwise.
\<close>

type_synonym ability_fn = "string \<Rightarrow> string \<Rightarrow> object option \<Rightarrow> bool"

datatype forbidden = Forbidden string string

definition throwUnlessCan :: "ability_fn \<Rightarrow> string \<Rightarrow> string \<Rightarrow> object option \<Rightarrow> forbidden + unit" where
  "throwUnlessCan may act sub flds = rguard (may act sub flds) (Forbidden act sub)"

section \<open>Reading and moving secrets\<close>

definition throwIfMissingSecretReadValueOrDescribePermission ::
  "ability_fn \<Rightarrow> ProjectPermissionSecretActions \<Rightarrow> object option \<Rightarrow> forbidden + unit" where
  "throwIfMissingSecretReadValueOrDescribePermission may act flds =
     (case throwUnlessCan may (secretActions ProjectPermissionSecretActions.DescribeAndReadValue)
             (projectSub ProjectPermissionSub.Secrets) flds of
        Inr u \<Rightarrow> Inr u
      | Inl e \<Rightarrow> throwUnlessCan may (secretActions act) (projectSub ProjectPermissionSub.Secrets) flds)"

definition hasSecretReadValueOrDescribePermission ::
  "ability_fn \<Rightarrow> ProjectPermissionSecretActions \<Rightarrow> object option \<Rightarrow> bool" where
  "hasSecretReadValueOrDescribePermission may act flds =
     (let canNewPermission = may (secretActions act) (projectSub ProjectPermissionSub.Secrets) flds;
          canOldPermission = may (secretActions ProjectPermissionSecretActions.DescribeAndReadValue)
                               (projectSub ProjectPermissionSub.Secrets) flds
      in canNewPermission \<or> canOldPermission)"

definition secret_place :: "string \<Rightarrow> string \<Rightarrow> object" where
  "secret_place env path = (\<lambda>f. if f = ''environment'' then env else if f = ''secretPath'' then path else [])"

definition move_source_check :: "ability_fn \<Rightarrow> object \<Rightarrow> ProjectPermissionSecretActions \<Rightarrow> forbidden + unit" where
  "move_source_check may place act =
     (if act = ProjectPermissionSecretActions.ReadValue \<or> act = ProjectPermissionSecretActions.DescribeSecret
      then throwIfMissingSecretReadValueOrDescribePermission may act (Some place)
      else throwUnlessCan may (secretActions act) (projectSub ProjectPermissionSub.Secrets) (Some place))"

definition validateSecretMovePermissions ::
  "ability_fn \<Rightarrow> string \<Rightarrow> string \<Rightarrow> string \<Rightarrow> string \<Rightarrow> forbidden + unit" where
  "validateSecretMovePermissions may sourceEnvironment sourceSecretPath destinationEnvironment destinationSecretPath =
     (let sourceActions = [ProjectPermissionSecretActions.Delete, ProjectPermissionSecretActions.DescribeSecret,
            ProjectPermissionSecretActions.ReadValue];
          destinationActions = [ProjectPermissionSecretActions.Create, ProjectPermissionSecretActions.Edit]
      in rbind (rfor destinationActions (\<lambda>a. throwUnlessCan may (secretActions a)
             (projectSub ProjectPermissionSub.Secrets)
             (Some (secret_place destinationEnvironment destinationSecretPath)))) (\<lambda>_.
         rfor sourceActions (move_source_check may (secret_place sourceEnvironment sourceSecretPath))))"

section \<open>Combinations a role may not have\<close>

record role_permission =
  rp_subject :: string
  rp_action :: "string list"
  rp_conditions :: "string list option"

datatype combination_error =
    ReadWithReplacements bool bool
  | GrantWithReplacements string bool bool
  | GroupGrantWithAssignRole
  | ConditionNotAllowed string string string

definition ActionAllowedConditions :: "(string \<times> (string \<times> string list) list) list" where
  "ActionAllowedConditions =
     [(projectSub ProjectPermissionSub.Member,
        [(memberActions ProjectPermissionMemberActions.GrantPrivileges,
          [''userEmail'', ''assignableRole'', ''assignableSubject'', ''assignableAction'']),
         (memberActions ProjectPermissionMemberActions.AssignRole,
          [''userEmail'', ''assignableRole'']),
         (memberActions ProjectPermissionMemberActions.AssignAdditionalPrivileges,
          [''userEmail'', ''assignableSubject'', ''assignableAction''])]),
      (projectSub ProjectPermissionSub.Identity,
        [(identityActions ProjectPermissionIdentityActions.Read,
          [''identityId'']),
         (identityActions ProjectPermissionIdentityActions.Create, []),
         (identityActions ProjectPermissionIdentityActions.Edit,
          [''identityId'']),
         (identityActions ProjectPermissionIdentityActions.Delete,
          [''identityId'']),
         (identityActions ProjectPermissionIdentityActions.GrantPrivileges,
          [''identityId'', ''assignableRole'', ''assignableSubject'', ''assignableAction'']),
         (identityActions ProjectPermissionIdentityActions.AssignRole,
          [''identityId'', ''assignableRole'']),
         (identityActions ProjectPermissionIdentityActions.AssignAdditionalPrivileges,
          [''identityId'', ''assignableSubject'', ''assignableAction'']),
         (identityActions ProjectPermissionIdentityActions.AssumePrivileges,
          [''identityId'']),
         (identityActions ProjectPermissionIdentityActions.RevokeAuth,
          [''identityId'']),
         (identityActions ProjectPermissionIdentityActions.EditAuth,
          [''identityId'']),
         (identityActions ProjectPermissionIdentityActions.CreateToken,
          [''identityId'']),
         (identityActions ProjectPermissionIdentityActions.GetToken,
          [''identityId'']),
         (identityActions ProjectPermissionIdentityActions.DeleteToken,
          [''identityId''])]),
      (projectSub ProjectPermissionSub.Groups,
        [(groupActions ProjectPermissionGroupActions.GrantPrivileges,
          [''groupName'', ''assignableRole'']),
         (groupActions ProjectPermissionGroupActions.AssignRole,
          [''groupName'', ''assignableRole''])])]"

definition check_secrets :: "role_permission \<Rightarrow> combination_error + unit" where
  "check_secrets p =
     (let acts = rp_action p;
          hasReadValue = secretActions ProjectPermissionSecretActions.ReadValue \<in> set acts;
          hasDescribeSecret = secretActions ProjectPermissionSecretActions.DescribeSecret \<in> set acts
      in if rp_subject p = projectSub ProjectPermissionSub.Secrets \<and>
            secretActions ProjectPermissionSecretActions.DescribeAndReadValue \<in> set acts \<and>
            (hasReadValue \<or> hasDescribeSecret)
         then Inl (ReadWithReplacements hasReadValue hasDescribeSecret) else Inr ())"

definition check_member :: "role_permission \<Rightarrow> combination_error + unit" where
  "check_member p =
     (let acts = rp_action p;
          hasAssignRole = memberActions ProjectPermissionMemberActions.AssignRole \<in> set acts;
          hasAssignAdditionalPrivileges =
            memberActions ProjectPermissionMemberActions.AssignAdditionalPrivileges \<in> set acts
      in if rp_subject p = projectSub ProjectPermissionSub.Member \<and>
            memberActions ProjectPermissionMemberActions.GrantPrivileges \<in> set acts \<and>
            (hasAssignRole \<or> hasAssignAdditionalPrivileges)
         then Inl (GrantWithReplacements (rp_subject p) hasAssignRole hasAssignAdditionalPrivileges) else Inr ())"

definition check_identity :: "role_permission \<Rightarrow> combination_error + unit" where
  "check_identity p =
     (let acts = rp_action p;
          hasAssignRole = identityActions ProjectPermissionIdentityActions.AssignRole \<in> set acts;
          hasAssignAdditionalPrivileges =
            identityActions ProjectPermissionIdentityActions.AssignAdditionalPrivileges \<in> set acts
      in if rp_subject p = projectSub ProjectPermissionSub.Identity \<and>
            identityActions ProjectPermissionIdentityActions.GrantPrivileges \<in> set acts \<and>
            (hasAssignRole \<or> hasAssignAdditionalPrivileges)
         then Inl (GrantWithReplacements (rp_subject p) hasAssignRole hasAssignAdditionalPrivileges) else Inr ())"

definition check_groups :: "role_permission \<Rightarrow> combination_error + unit" where
  "check_groups p =
     (if rp_subject p = projectSub ProjectPermissionSub.Groups \<and>
         groupActions ProjectPermissionGroupActions.GrantPrivileges \<in> set (rp_action p) \<and>
         groupActions ProjectPermissionGroupActions.AssignRole \<in> set (rp_action p)
      then Inl GroupGrantWithAssignRole else Inr ())"

definition check_conditions :: "role_permission \<Rightarrow> combination_error + unit" where
  "check_conditions p =
     (case (rp_conditions p, map_of ActionAllowedConditions (rp_subject p)) of
        (Some conditionKeys, Some subjectConditions) \<Rightarrow>
          rfor (rp_action p) (\<lambda>act.
            case map_of subjectConditions act of
              None \<Rightarrow> Inr ()
            | Some allowedConditions \<Rightarrow>
                rfor conditionKeys (\<lambda>condKey. rguard (condKey \<in> set allowedConditions)
                  (ConditionNotAllowed condKey act (rp_subject p))))
      | _ \<Rightarrow> Inr ())"

definition check_permission :: "role_permission \<Rightarrow> combination_error + unit" where
  "check_permission p =
     rbind (check_secrets p) (\<lambda>_. rbind (check_member p) (\<lambda>_. rbind (check_identity p) (\<lambda>_.
     rbind (check_groups p) (\<lambda>_. check_conditions p))))"

definition checkForInvalidPermissionCombination ::
  "role_permission list option \<Rightarrow> combination_error + bool option" where
  "checkForInvalidPermissionCombination permissions =
     (case permissions of None \<Rightarrow> Inr None
      | Some ps \<Rightarrow> rbind (rfor ps check_permission) (\<lambda>_. Inr (Some True)))"

section \<open>Single sign-on of the organization\<close>

datatype AuthMethod =
    EMAIL | GOOGLE | GITHUB | GITLAB | OKTA_SAML | AZURE_SAML | JUMPCLOUD_SAML | GOOGLE_SAML
  | KEYCLOAK_SAML | LDAP | OIDC

text \<open>\<open>ActorAuthMethod\<close>: a method, \<open>null\<close> (machine identities), or \<open>undefined\<close>.\<close>

datatype ActorAuthMethod = UndefinedMethod | NullMethod | Method AuthMethod

datatype sso_error = NoAuthMethod | GoogleSsoRequired | SamlSsoRequired

definition isAuthMethodSaml :: "ActorAuthMethod \<Rightarrow> bool" where
  "isAuthMethodSaml m =
     (case m of Method a \<Rightarrow> a \<in> set [AZURE_SAML, OKTA_SAML, JUMPCLOUD_SAML, GOOGLE_SAML, KEYCLOAK_SAML]
      | _ \<Rightarrow> False)"

definition validateOrgSSO :: "ActorAuthMethod \<Rightarrow> bool \<Rightarrow> bool \<Rightarrow> bool \<Rightarrow> bool \<Rightarrow> sso_error + unit" where
  "validateOrgSSO m isOrgSsoEnforced isOrgGoogleSsoEnforced isOrgSsoBypassEnabled isAdmin =
     (if m = UndefinedMethod then Inl NoAuthMethod
      else if (isOrgSsoEnforced \<or> isOrgGoogleSsoEnforced) \<and> isOrgSsoBypassEnabled \<and> isAdmin then Inr ()
      else if isOrgGoogleSsoEnforced \<and> m \<noteq> NullMethod \<and> m \<noteq> Method GOOGLE then Inl GoogleSsoRequired
      else if isOrgSsoEnforced \<and> m \<noteq> NullMethod \<and> \<not> isAuthMethodSaml m \<and> m \<noteq> Method OIDC
      then Inl SamlSsoRequired
      else Inr ())"

section \<open>Changing the privileges of another actor\<close>

definition validatePrivilegeChangeOperation ::
  "(string \<Rightarrow> string \<Rightarrow> bool) \<Rightarrow> (string \<Rightarrow> bool) \<Rightarrow> bool \<Rightarrow> actions \<Rightarrow> string \<Rightarrow> ability_fn \<Rightarrow> ability \<Rightarrow> ability \<Rightarrow>
   object option \<Rightarrow> boundary_result" where
  "validatePrivilegeChangeOperation isM isGlob shouldUseNewPrivilegeSystem opActions opSubject actorCan
       actorPermission managedPermission subjectFields =
     (let acts = action_list opActions in
      if shouldUseNewPrivilegeSystem then
        (if list_ex (\<lambda>opAction. actorCan opAction opSubject subjectFields) acts then ValidBoundary
         else InvalidBoundary
           [\<lparr>missing_action = (case acts of [] \<Rightarrow> ''undefined'' | a # _ \<Rightarrow> a), missing_subject = opSubject,
             missing_conditions = None\<rparr>])
      else validatePermissionBoundary isM isGlob actorPermission managedPermission)"

definition constructPermissionErrorMessage :: "string \<Rightarrow> bool \<Rightarrow> string \<Rightarrow> string \<Rightarrow> string" where
  "constructPermissionErrorMessage baseMessage shouldUseNewPrivilegeSystem opAction opSubject =
     baseMessage @
     (if shouldUseNewPrivilegeSystem
      then ''. Permission denied: '' @ opAction @ '' on '' @ opSubject @
        ''. Check that the actor'' @ [CHR 0x27] @ ''s role grants this permission and that all permission conditions are met.''
      else ''. Actor privilege level is not high enough to perform this action'')"

definition assertPermissionBoundary ::
  "(string \<Rightarrow> string \<Rightarrow> bool) \<Rightarrow> (string \<Rightarrow> bool) \<Rightarrow> ability \<Rightarrow> ability \<Rightarrow> string \<Rightarrow>
   (string \<times> missing_permission list) + unit" where
  "assertPermissionBoundary isM isGlob actorPermission managedPermission message =
     (case validatePermissionBoundary isM isGlob actorPermission managedPermission of
        ValidBoundary \<Rightarrow> Inr ()
      | InvalidBoundary ms \<Rightarrow> Inl (message, ms))"

section \<open>Helpers of role templates\<close>

definition HBS_TRIM_SUFFIX_MAX_GLOB_INPUT_LENGTH :: nat where
  "HBS_TRIM_SUFFIX_MAX_GLOB_INPUT_LENGTH = 256"

definition HBS_TRIM_SUFFIX_MAX_GLOB_WILDCARDS :: nat where
  "HBS_TRIM_SUFFIX_MAX_GLOB_WILDCARDS = 5"

definition or_empty :: "string option \<Rightarrow> string" where
  "or_empty text = (case text of None \<Rightarrow> [] | Some t \<Rightarrow> t)"

definition hbsStripPrefix :: "string option \<Rightarrow> string \<Rightarrow> string" where
  "hbsStripPrefix text pfx =
     (let textStr = or_empty text in
      if textStr = [] then textStr
      else if starts_with textStr pfx then drop (length pfx) textStr else textStr)"

text \<open>The scan over suffix positions, from the empty suffix down to the whole text.\<close>

fun trim_at :: "(string \<Rightarrow> bool) \<Rightarrow> string \<Rightarrow> nat \<Rightarrow> string" where
  "trim_at isSuffixMatch t 0 = (if isSuffixMatch (drop 0 t) then take 0 t else t)"
| "trim_at isSuffixMatch t (Suc i) =
     (if isSuffixMatch (drop (Suc i) t) then take (Suc i) t else trim_at isSuffixMatch t i)"

text \<open>\<open>isGlob\<close> is \<open>picomatch.scan(s).isGlob\<close>; \<open>compile s\<close> is \<open>picomatch(s)\<close>, empty when it throws.\<close>

definition hbsTrimSuffix ::
  "(string \<Rightarrow> bool) \<Rightarrow> (string \<Rightarrow> (string \<Rightarrow> bool) option) \<Rightarrow> string option \<Rightarrow> string option \<Rightarrow> string" where
  "hbsTrimSuffix isGlob compile text suffixOpt =
     (let textStr = or_empty text in
      if textStr = [] then textStr
      else case suffixOpt of
          None \<Rightarrow> textStr
        | Some sfx \<Rightarrow>
            if sfx = [] then textStr
            else if HBS_TRIM_SUFFIX_MAX_GLOB_INPUT_LENGTH < length sfx then textStr
            else if \<not> isGlob sfx
            then (if ends_with textStr sfx then take (length textStr - length sfx) textStr else textStr)
            else if HBS_TRIM_SUFFIX_MAX_GLOB_WILDCARDS <
                    length (filter (\<lambda>c. c = CHR ''*'' \<or> c = CHR ''?'') sfx) then textStr
            else if HBS_TRIM_SUFFIX_MAX_GLOB_INPUT_LENGTH < length textStr then textStr
            else (case compile sfx of None \<Rightarrow> textStr | Some m \<Rightarrow> trim_at m textStr (length textStr)))"


section \<open>Properties\<close>

lemma throwUnlessCan_Inr [simp]: "throwUnlessCan may act sub f = Inr u \<longleftrightarrow> may act sub f"
  by (simp add: throwUnlessCan_def)

lemma throwIfMissing_has:
  "throwIfMissingSecretReadValueOrDescribePermission may act f = Inr () \<longleftrightarrow>
   hasSecretReadValueOrDescribePermission may act f"
  by (auto simp: throwIfMissingSecretReadValueOrDescribePermission_def hasSecretReadValueOrDescribePermission_def
      throwUnlessCan_def rguard_def)

text \<open>
  moving secrets is authorised exactly when the actor may create and edit at the destination and
  delete, describe and read the value at the source, where the legacy read counts for the last two.
\<close>

theorem move_needs_both_ends:
  "validateSecretMovePermissions may senv spath denv dpath = Inr () \<longleftrightarrow>
     (let source = Some (secret_place senv spath); destination = Some (secret_place denv dpath) in
      may ''create'' ''secrets'' destination \<and> may ''edit'' ''secrets'' destination \<and>
      may ''delete'' ''secrets'' source \<and>
      hasSecretReadValueOrDescribePermission may ProjectPermissionSecretActions.DescribeSecret source \<and>
      hasSecretReadValueOrDescribePermission may ProjectPermissionSecretActions.ReadValue source)"
  by (simp add: validateSecretMovePermissions_def rbind_Inr_iff rfor_Inr_iff move_source_check_def
      throwIfMissing_has Let_def)

lemma expanded_forbid:
  assumes "inverted r" "rule_subject r = OneSubject ''secrets''" "act \<in> {''readValue'', ''describeSecret''}"
    "act \<in> set (action_list (rule_action r))"
  shows "act \<in> set (action_list (rule_action (expandLegacyForbidRule r)))"
    "''read'' \<in> set (action_list (rule_action (expandLegacyForbidRule r)))"
  using assms expandLegacyForbidRule_actions [of r]
  by (auto simp: expandLegacyForbidRule_def subject_list_def LEGACY_FORBID_ACTION_EXPANSIONS_def Let_def
      list_ex_iff action_list_def)

lemma forbid_blocks_both:
  assumes "last_match_wins isM om casl" "buildProjectPermissionRules unpack es pt None = Inr rs"
    "e \<in> set es" "r \<in> set (role_rules unpack pt e)" "inverted r" "rule_subject r = OneSubject ''secrets''"
    "secretActions act \<in> set (action_list (rule_action r))"
    "act \<in> {ProjectPermissionSecretActions.ReadValue, ProjectPermissionSecretActions.DescribeSecret}"
    "rule_matches isM om r obj"
  shows "\<not> casl rs (secretActions act) ''secrets'' obj" "\<not> casl rs ''read'' ''secrets'' obj"
proof -
  let ?r = "expandLegacyForbidRule r"
  have acts: "secretActions act \<in> set (action_list (rule_action ?r))" "''read'' \<in> set (action_list (rule_action ?r))"
    using expanded_forbid [OF assms(5,6) _ assms(7)] assms(8) by auto
  have "rule_matches isM om ?r obj" using assms(9) by (simp add: rule_matches_def)
  with acts assms(5,6) have "applies isM om (secretActions act) ''secrets'' obj ?r" "applies isM om ''read'' ''secrets'' obj ?r"
    by (auto simp: applies_def concerns_def subject_list_def)
  moreover have "?r \<in> set (expandLegacyForbidActions (role_rules unpack pt e))"
    using assms(4) by (simp add: expandLegacyForbidActions_def)
  ultimately have "forbids_to isM om (secretActions act) ''secrets'' obj (expandLegacyForbidActions (role_rules unpack pt e))"
    "forbids_to isM om ''read'' ''secrets'' obj (expandLegacyForbidActions (role_rules unpack pt e))"
    using assms(5) expandLegacyForbidRule_inverted [of r] unfolding forbids_to_def list_ex_iff by blast+
  with last_match_base [OF assms(2)] assms(1,3)
  show "\<not> casl rs (secretActions act) ''secrets'' obj" "\<not> casl rs ''read'' ''secrets'' obj"
    by (auto simp: last_match_wins_def)
qed

text \<open>
  forbidding the new read actions leaves no way round through the legacy one. When some role of
  the actor forbids reading the value (or describing) of secrets on an object, the ability built from
  its roles answers no to the check that accepts the legacy action as well, whatever its other roles
  grant.
\<close>

theorem forbid_reaches_legacy_action:
  assumes "last_match_wins isM om casl" "buildProjectPermissionRules unpack es pt None = Inr rs"
    "e \<in> set es" "r \<in> set (role_rules unpack pt e)" "inverted r" "rule_subject r = OneSubject ''secrets''"
    "secretActions act \<in> set (action_list (rule_action r))"
    "act \<in> {ProjectPermissionSecretActions.ReadValue, ProjectPermissionSecretActions.DescribeSecret}"
    "rule_matches isM om r obj"
    "\<And>a s. may a s (Some obj) = casl rs a s obj"
  shows "\<not> hasSecretReadValueOrDescribePermission may act (Some obj)"
  using forbid_blocks_both [OF assms(1-9)] assms(10)
  by (simp add: hasSecretReadValueOrDescribePermission_def)

theorem forbid_reaches_legacy_action_witness:
  "\<exists>rs. buildProjectPermissionRules (\<lambda>p. p)
       (\<lparr>role_name = ''admin'', role_permissions = []\<rparr> # example_roles) None None = Inr rs \<and>
     \<not> hasSecretReadValueOrDescribePermission
         (\<lambda>a s f. last_match (\<lambda>v g. False) (\<lambda>k x v. False) rs a s (case f of None \<Rightarrow> (\<lambda>x. []) | Some obj \<Rightarrow> obj))
         ProjectPermissionSecretActions.ReadValue (Some (\<lambda>x. []))"
proof -
  let ?es = "\<lparr>role_name = ''admin'', role_permissions = []\<rparr> # example_roles"
  let ?e = "\<lparr>role_name = ''custom'', role_permissions = [cannot [''readValue''] ''secrets'']\<rparr>"
  have lm: "last_match_wins (\<lambda>v g. False) (\<lambda>k x v. False) (last_match (\<lambda>v g. False) (\<lambda>k x v. False))"
    by (simp add: last_match_wins_def)
  obtain rs where rs: "buildProjectPermissionRules (\<lambda>p. p) ?es None None = Inr rs"
    by (simp add: base_rules)
  have "\<not> hasSecretReadValueOrDescribePermission
         (\<lambda>a s f. last_match (\<lambda>v g. False) (\<lambda>k x v. False) rs a s (case f of None \<Rightarrow> (\<lambda>x. []) | Some obj \<Rightarrow> obj))
         ProjectPermissionSecretActions.ReadValue (Some (\<lambda>x. []))"
    by (rule forbid_reaches_legacy_action [OF lm rs, of ?e "cannot [''readValue''] ''secrets''"])
      (simp_all add: example_roles_def role_rules_def cannot_def action_list_def rule_matches_def)
  with rs show ?thesis by blast
qed

definition replaced_by :: "string \<Rightarrow> string list \<Rightarrow> bool" where
  "replaced_by sub acts \<longleftrightarrow>
     (case map_of LEGACY_FORBID_ACTION_EXPANSIONS sub of
        None \<Rightarrow> False
      | Some (legacyAction, newActions) \<Rightarrow> legacyAction \<in> set acts \<and> set newActions \<inter> set acts \<noteq> {})"

definition conditions_allowed :: "role_permission \<Rightarrow> bool" where
  "conditions_allowed p \<longleftrightarrow>
     (case (rp_conditions p, map_of ActionAllowedConditions (rp_subject p)) of
        (Some keys, Some table) \<Rightarrow>
          list_all (\<lambda>act. case map_of table act of None \<Rightarrow> True | Some allowed \<Rightarrow> set keys \<subseteq> set allowed) (rp_action p)
      | _ \<Rightarrow> True)"

lemma check_conditions_iff: "check_conditions p = Inr () \<longleftrightarrow> conditions_allowed p"
  by (auto simp: check_conditions_def conditions_allowed_def rfor_Inr_iff list_all_iff split: option.splits)

lemma legacy_checks_iff:
  "check_secrets p = Inr () \<and> check_member p = Inr () \<and> check_identity p = Inr () \<and> check_groups p = Inr () \<longleftrightarrow>
   \<not> replaced_by (rp_subject p) (rp_action p)"
proof -
  consider "rp_subject p = ''secrets''" | "rp_subject p = ''member''" | "rp_subject p = ''identity''"
    | "rp_subject p = ''groups''" | "rp_subject p \<notin> {''secrets'', ''member'', ''identity'', ''groups''}" by blast
  then show ?thesis
    by cases (auto simp: check_secrets_def check_member_def check_identity_def check_groups_def replaced_by_def
        LEGACY_FORBID_ACTION_EXPANSIONS_def Let_def)
qed

text \<open>
  what the permissions of a role must satisfy to be accepted: no subject combines a legacy action
  with one of the actions that replaced it, and every condition is one that each of the listed
  actions may carry.
\<close>

theorem role_permissions_accepted_iff:
  "checkForInvalidPermissionCombination (Some ps) = Inr (Some True) \<longleftrightarrow>
     list_all (\<lambda>p. \<not> replaced_by (rp_subject p) (rp_action p) \<and> conditions_allowed p) ps"
proof -
  have "check_permission p = Inr () \<longleftrightarrow> \<not> replaced_by (rp_subject p) (rp_action p) \<and> conditions_allowed p" for p
    using legacy_checks_iff [of p] check_conditions_iff [of p] by (auto simp: check_permission_def rbind_Inr_iff)
  then show ?thesis
    by (simp add: checkForInvalidPermissionCombination_def rbind_Inr_iff rfor_Inr_iff)
qed

text \<open>
  whom single sign-on lets into an organization. With a method or as a machine, and unless an
  admin uses the enabled bypass: under Google enforcement only Google logins pass, under SAML
  enforcement only SAML and OIDC logins, and when both are enforced no person passes at all.
\<close>

theorem sso_admits_exactly:
  "validateOrgSSO m saml google bypass isAdmin = Inr () \<longleftrightarrow>
     m \<noteq> UndefinedMethod \<and>
     ((saml \<or> google) \<and> bypass \<and> isAdmin \<or> m = NullMethod \<or>
      (case (saml, google) of
         (False, False) \<Rightarrow> True
       | (False, True) \<Rightarrow> m = Method GOOGLE
       | (True, False) \<Rightarrow> isAuthMethodSaml m \<or> m = Method OIDC
       | (True, True) \<Rightarrow> False))"
  by (auto simp: validateOrgSSO_def isAuthMethodSaml_def split: bool.splits ActorAuthMethod.splits)

text \<open>
  C0: the new privilege system accepts a privilege change exactly when one of the actions is allowed,
  and otherwise names the first one; the old system is the permission boundary, so that what the
  managed role may do the acting one may do.
\<close>

theorem privilege_change_accepts:
  "validatePrivilegeChangeOperation isM isGlob new acts sub actorCan actor managed flds = ValidBoundary \<longleftrightarrow>
     (if new then \<exists>a \<in> set (action_list acts). actorCan a sub flds
      else validatePermissionBoundary isM isGlob actor managed = ValidBoundary)"
  by (auto simp: validatePrivilegeChangeOperation_def Let_def list_ex_iff)

lemma trim_at_spec:
  assumes "trim_at m t i = r" "i \<le> length t"
  shows "(\<exists>j \<le> i. m (drop j t) \<and> r = take j t \<and> (\<forall>k. j < k \<and> k \<le> i \<longrightarrow> \<not> m (drop k t))) \<or>
     (r = t \<and> (\<forall>k \<le> i. \<not> m (drop k t)))"
  using assms
proof (induction i)
  case 0
  then show ?case by (auto split: if_splits)
next
  case (Suc i)
  show ?case
  proof (cases "m (drop (Suc i) t)")
    case True
    with Suc.prems show ?thesis by (intro disjI1 exI [of _ "Suc i"]) auto
  next
    case False
    with Suc.prems have "trim_at m t i = r" "i \<le> length t" by simp_all
    from Suc.IH [OF this] show ?thesis
    proof
      assume "\<exists>j\<le>i. m (drop j t) \<and> r = take j t \<and> (\<forall>k. j < k \<and> k \<le> i \<longrightarrow> \<not> m (drop k t))"
      then obtain j where "j \<le> i" "m (drop j t)" "r = take j t" "\<forall>k. j < k \<and> k \<le> i \<longrightarrow> \<not> m (drop k t)"
        by blast
      with False show ?thesis by (intro disjI1 exI [of _ j]) (auto simp: le_Suc_eq)
    next
      assume "r = t \<and> (\<forall>k\<le>i. \<not> m (drop k t))"
      with False show ?thesis by (auto simp: le_Suc_eq)
    qed
  qed
qed

text \<open>
  trimming a glob suffix takes off the shortest one that matches. Within the limits on length and
  wildcards, the result and the part taken off make up the text, that part matches the glob, and no
  shorter suffix does; where no suffix matches the text comes back whole.
\<close>

theorem trim_suffix_takes_shortest:
  assumes "isGlob sfx" "compile sfx = Some m" "t \<noteq> []" "sfx \<noteq> []" "length sfx \<le> 256" "length t \<le> 256"
    "length (filter (\<lambda>c. c = CHR ''*'' \<or> c = CHR ''?'') sfx) \<le> 5"
  shows "(\<exists>j \<le> length t. hbsTrimSuffix isGlob compile (Some t) (Some sfx) = take j t \<and> m (drop j t) \<and>
            (\<forall>k. j < k \<and> k \<le> length t \<longrightarrow> \<not> m (drop k t))) \<or>
     (hbsTrimSuffix isGlob compile (Some t) (Some sfx) = t \<and> (\<forall>k \<le> length t. \<not> m (drop k t)))"
proof -
  have "hbsTrimSuffix isGlob compile (Some t) (Some sfx) = trim_at m t (length t)"
    using assms by (simp del: trim_at.simps add: hbsTrimSuffix_def or_empty_def Let_def HBS_TRIM_SUFFIX_MAX_GLOB_INPUT_LENGTH_def
        HBS_TRIM_SUFFIX_MAX_GLOB_WILDCARDS_def)
  from trim_at_spec [OF this [symmetric]] show ?thesis by auto
qed

theorem trim_suffix_takes_shortest_witness:
  "hbsTrimSuffix (\<lambda>g. True) (\<lambda>g. Some (\<lambda>x. starts_with x ''-'')) (Some ''web-eu-1'') (Some ''-*'') = ''web-eu''"
proof -
  have "hbsTrimSuffix (\<lambda>g. True) (\<lambda>g. Some (\<lambda>x. starts_with x ''-'')) (Some ''web-eu-1'') (Some ''-*'') = ''web-eu'' \<longleftrightarrow> True"
    by code_simp
  with trim_suffix_takes_shortest [of "\<lambda>g. True" "''-*''" "\<lambda>g. Some (\<lambda>x. starts_with x ''-'')" "\<lambda>x. starts_with x ''-''" "''web-eu-1''"]
  show ?thesis by simp
qed

end
