(* ===== verification/FolderGrants.thy ===== *)
theory FolderGrants
  imports PermissionChecks
begin

text \<open>
  Sharing secret folders (\<open>backend/src/services/folder-permission/folder-permission-service.ts\<close> and
  \<open>folder-permission-fns.ts\<close>): creating, updating and revoking the access of one user or machine
  identity to one folder. The grants are rows of the additional privileges table; every change also
  advances the version that invalidates the cached permissions of the project.

  The services and tables around it are the fields of \<^theory_text>\<open>folder_deps\<close>: the plan of the
  organization, the ability of the caller, the folder at a path, and whether an actor has access to
  the project or is its admin. A transaction that throws leaves the state as it was, so an operation
  returns the new state only on success. Another transaction may commit between the lookup and the
  insert of a creation: the lookup reads a snapshot, the insert is checked against the unique index
  of the table (migration \<open>20260817120000_folder-scoped-additional-privileges.ts\<close>). Updates and revocations that
  look up first and write later, with others in between, are steps of the runs below. The rows of the table
  without a folder belong to other services and are left out.
\<close>

section \<open>Data\<close>

datatype ActorType = USER | IDENTITY

record TFolderGrantActor =
  actorId :: string
  actorType :: ActorType

datatype TFolderGrantTypeInput = Permanent | Temporary string int

record TResolvedFolder =
  folder_id :: string
  folder_path :: string
  folder_env :: string

record found_folder = TResolvedFolder +
  folder_isReserved :: bool

record temporary_fields =
  tf_isTemporary :: bool
  tf_mode :: "string option"
  tf_range :: "string option"
  tf_start :: "int option"
  tf_end :: "int option"

text \<open>A row of the additional privileges table; the temporary fields are columns of it.\<close>

record privilege =
  pv_id :: string
  pv_projectId :: "string option"
  pv_folderId :: "string option"
  pv_role :: "string option"
  pv_actorUserId :: "string option"
  pv_actorIdentityId :: "string option"
  pv_temp :: temporary_fields

record grants_state =
  privileges :: "privilege list"
  folder_version :: "string \<Rightarrow> nat"

datatype grant_error =
    PlanRestriction
  | PermissionServiceError string
  | FolderNotFound string string
  | ReservedFolder
  | GrantForbidden forbidden
  | NotAMember TFolderGrantActor
  | TargetIsProjectAdmin TFolderGrantActor
  | FullAccessTemporary
  | InvalidRange string
  | AlreadyExists TFolderGrantActor
  | NoGrant TFolderGrantActor string
  | UniqueViolation
  | UpdatedRowGone

record folder_deps =
  secretsFolderRbac :: "string \<Rightarrow> bool"
  getProjectPermission :: "string \<Rightarrow> string \<Rightarrow> string + ability_fn"
  findBySecretPath :: "string \<Rightarrow> string \<Rightarrow> string \<Rightarrow> found_folder option"
  hasProjectAccess :: "string \<Rightarrow> string \<Rightarrow> TFolderGrantActor \<Rightarrow> bool"
  isProjectAdmin :: "string \<Rightarrow> string \<Rightarrow> TFolderGrantActor \<Rightarrow> bool"
  ms :: "string \<Rightarrow> int option"

section \<open>Helpers\<close>

definition computeTemporaryFields ::
  "(string \<Rightarrow> int option) \<Rightarrow> TFolderGrantTypeInput option \<Rightarrow> grant_error + temporary_fields" where
  "computeTemporaryFields ms_of type =
     (case type of
        Some (Temporary rng startTime) \<Rightarrow>
          (case ms_of rng of
             None \<Rightarrow> Inl (InvalidRange rng)
           | Some d \<Rightarrow> Inr \<lparr>tf_isTemporary = True, tf_mode = Some ''relative'', tf_range = Some rng,
               tf_start = Some startTime, tf_end = Some (startTime + d)\<rparr>)
      | _ \<Rightarrow> Inr \<lparr>tf_isTemporary = False, tf_mode = None, tf_range = None, tf_start = None, tf_end = None\<rparr>)"

definition assertFullAccessIsPermanent :: "string option \<Rightarrow> bool \<Rightarrow> grant_error + unit" where
  "assertFullAccessIsPermanent role isTemporary =
     rguard (\<not> (role = Some (secretFolderRole FullAccess) \<and> isTemporary)) FullAccessTemporary"

definition resolveFolder :: "folder_deps \<Rightarrow> string \<Rightarrow> string \<Rightarrow> string \<Rightarrow> grant_error + TResolvedFolder" where
  "resolveFolder deps projectId environmentSlug secretPath =
     (case findBySecretPath deps projectId environmentSlug secretPath of
        None \<Rightarrow> Inl (FolderNotFound secretPath environmentSlug)
      | Some f \<Rightarrow> if folder_isReserved f then Inl ReservedFolder
          else Inr \<lparr>folder_id = folder_id f, folder_path = folder_path f, folder_env = folder_env f\<rparr>)"

definition getFolderAccessPermission :: "folder_deps \<Rightarrow> string \<Rightarrow> string \<Rightarrow> grant_error + ability_fn" where
  "getFolderAccessPermission deps caller projectId =
     (case getProjectPermission deps caller projectId of
        Inl e \<Rightarrow> Inl (PermissionServiceError e) | Inr p \<Rightarrow> Inr p)"

definition throw_forbidden :: "forbidden + unit \<Rightarrow> grant_error + unit" where
  "throw_forbidden r = (case r of Inl e \<Rightarrow> Inl (GrantForbidden e) | Inr u \<Rightarrow> Inr u)"

definition assertReadActorGrantsAccess :: "ability_fn \<Rightarrow> TFolderGrantActor \<Rightarrow> grant_error + unit" where
  "assertReadActorGrantsAccess callerPermission target =
     throw_forbidden (if actorType target = USER
       then throwUnlessCan callerPermission (memberActions ProjectPermissionMemberActions.Read)
              (projectSub ProjectPermissionSub.Member) None
       else throwUnlessCan callerPermission (identityActions ProjectPermissionIdentityActions.Read)
              (projectSub ProjectPermissionSub.Identity) None)"

definition assertManageFolderAccess :: "ability_fn \<Rightarrow> TResolvedFolder \<Rightarrow> grant_error + unit" where
  "assertManageFolderAccess callerPermission folder =
     throw_forbidden (throwUnlessCan callerPermission
       (secretFolderActions ProjectPermissionSecretFolderActions.ManageAccess)
       (projectSub ProjectPermissionSub.SecretFolders)
       (Some (secret_place (folder_env folder) (folder_path folder))))"

definition assertTargetMembership :: "folder_deps \<Rightarrow> string \<Rightarrow> string \<Rightarrow> TFolderGrantActor \<Rightarrow> grant_error + unit" where
  "assertTargetMembership deps orgId projectId target =
     rguard (hasProjectAccess deps orgId projectId target) (NotAMember target)"

definition assertTargetNotProjectAdmin ::
  "folder_deps \<Rightarrow> string \<Rightarrow> string \<Rightarrow> TFolderGrantActor \<Rightarrow> grant_error + unit" where
  "assertTargetNotProjectAdmin deps orgId projectId target =
     rguard (\<not> isProjectAdmin deps orgId projectId target) (TargetIsProjectAdmin target)"

definition assertGrantTargetEligible ::
  "folder_deps \<Rightarrow> string \<Rightarrow> string \<Rightarrow> TFolderGrantActor \<Rightarrow> grant_error + unit" where
  "assertGrantTargetEligible deps orgId projectId target =
     rbind (assertTargetMembership deps orgId projectId target)
       (\<lambda>_. assertTargetNotProjectAdmin deps orgId projectId target)"

definition assertFolderRbacLicensed :: "folder_deps \<Rightarrow> string \<Rightarrow> grant_error + unit" where
  "assertFolderRbacLicensed deps orgId = rguard (secretsFolderRbac deps orgId) PlanRestriction"

section \<open>The table\<close>

definition targets :: "TFolderGrantActor \<Rightarrow> privilege \<Rightarrow> bool" where
  "targets t r \<longleftrightarrow>
     (case actorType t of USER \<Rightarrow> pv_actorUserId r = Some (actorId t)
      | IDENTITY \<Rightarrow> pv_actorIdentityId r = Some (actorId t))"

definition findOne :: "privilege list \<Rightarrow> string \<Rightarrow> string \<Rightarrow> TFolderGrantActor \<Rightarrow> privilege option" where
  "findOne rs projectId folderId t =
     find (\<lambda>r. pv_projectId r = Some projectId \<and> pv_folderId r = Some folderId \<and> targets t r) rs"

text \<open>The two unique indexes: one row for a folder and user, one for a folder and identity.\<close>

definition violates :: "privilege \<Rightarrow> privilege \<Rightarrow> bool" where
  "violates r r' \<longleftrightarrow> pv_folderId r \<noteq> None \<and> pv_folderId r = pv_folderId r' \<and>
     (pv_actorUserId r \<noteq> None \<and> pv_actorUserId r = pv_actorUserId r' \<or>
      pv_actorIdentityId r \<noteq> None \<and> pv_actorIdentityId r = pv_actorIdentityId r')"

definition insert_row :: "privilege list \<Rightarrow> privilege \<Rightarrow> grant_error + privilege list" where
  "insert_row rs r = (if list_ex (violates r) rs then Inl UniqueViolation else Inr (rs @ [r]))"

definition updateById :: "privilege list \<Rightarrow> string \<Rightarrow> (privilege \<Rightarrow> privilege) \<Rightarrow> privilege list" where
  "updateById rs i f = map (\<lambda>r. if pv_id r = i then f r else r) rs"

definition deleteById :: "privilege list \<Rightarrow> string \<Rightarrow> privilege list" where
  "deleteById rs i = filter (\<lambda>r. pv_id r \<noteq> i) rs"

definition invalidateProjectFolderPermissionCache :: "string \<Rightarrow> grants_state \<Rightarrow> grants_state" where
  "invalidateProjectFolderPermissionCache projectId st =
     st\<lparr>folder_version := (folder_version st)(projectId := folder_version st projectId + 1)\<rparr>"

section \<open>The service\<close>

record folder_dto =
  dto_caller :: string
  dto_orgId :: string
  dto_projectId :: string
  dto_environmentSlug :: string
  dto_secretPath :: string
  dto_target :: TFolderGrantActor

definition new_row :: "string \<Rightarrow> string \<Rightarrow> string \<Rightarrow> string \<Rightarrow> TFolderGrantActor \<Rightarrow> temporary_fields \<Rightarrow> privilege" where
  "new_row i projectId folderId role t tf =
     \<lparr>pv_id = i, pv_projectId = Some projectId, pv_folderId = Some folderId, pv_role = Some role,
      pv_actorUserId = (case actorType t of USER \<Rightarrow> Some (actorId t) | IDENTITY \<Rightarrow> None),
      pv_actorIdentityId = (case actorType t of USER \<Rightarrow> None | IDENTITY \<Rightarrow> Some (actorId t)),
      pv_temp = tf\<rparr>"

text \<open>The checks every change makes, in order, and the ones on the target that a revoke leaves out.\<close>

definition authorize_change :: "folder_deps \<Rightarrow> folder_dto \<Rightarrow> grant_error + TResolvedFolder" where
  "authorize_change deps d =
     rbind (assertFolderRbacLicensed deps (dto_orgId d)) (\<lambda>_.
     rbind (getFolderAccessPermission deps (dto_caller d) (dto_projectId d)) (\<lambda>callerPermission.
     rbind (resolveFolder deps (dto_projectId d) (dto_environmentSlug d) (dto_secretPath d)) (\<lambda>folder.
     rbind (assertManageFolderAccess callerPermission folder) (\<lambda>_. Inr folder))))"

definition createFolderGrant ::
  "folder_deps \<Rightarrow> folder_dto \<Rightarrow> SecretFolderRole \<Rightarrow> TFolderGrantTypeInput option \<Rightarrow> string \<Rightarrow>
   grants_state \<Rightarrow> grants_state \<Rightarrow> grant_error + privilege \<times> grants_state" where
  "createFolderGrant deps d role type newId snapshot st =
     rbind (assertFullAccessIsPermanent (Some (secretFolderRole role))
              (case type of Some (Temporary r s) \<Rightarrow> True | _ \<Rightarrow> False)) (\<lambda>_.
     rbind (authorize_change deps d) (\<lambda>folder.
     rbind (assertGrantTargetEligible deps (dto_orgId d) (dto_projectId d) (dto_target d)) (\<lambda>_.
       if findOne (privileges snapshot) (dto_projectId d) (folder_id folder) (dto_target d) \<noteq> None
       then Inl (AlreadyExists (dto_target d))
       else rbind (computeTemporaryFields (ms deps) type) (\<lambda>tf.
         let row = new_row newId (dto_projectId d) (folder_id folder) (secretFolderRole role) (dto_target d) tf in
         case insert_row (privileges st) row of
           Inl e \<Rightarrow> Inl (AlreadyExists (dto_target d))
         | Inr rs \<Rightarrow> Inr (row, invalidateProjectFolderPermissionCache (dto_projectId d) (st\<lparr>privileges := rs\<rparr>))))))"

definition update_existing ::
  "folder_deps \<Rightarrow> folder_dto \<Rightarrow> SecretFolderRole option \<Rightarrow> TFolderGrantTypeInput option \<Rightarrow>
   grants_state \<Rightarrow> privilege \<Rightarrow> grant_error + grants_state" where
  "update_existing deps d role type st existing =
     rbind (assertFullAccessIsPermanent
         (case role of None \<Rightarrow> pv_role existing | Some r \<Rightarrow> Some (secretFolderRole r))
         (case type of None \<Rightarrow> tf_isTemporary (pv_temp existing)
          | Some Permanent \<Rightarrow> False | Some (Temporary r s) \<Rightarrow> True)) (\<lambda>_.
     rbind (case type of None \<Rightarrow> Inr (pv_temp existing) | Some t \<Rightarrow> computeTemporaryFields (ms deps) (Some t)) (\<lambda>tf.
       let change = (\<lambda>r. r\<lparr>pv_role := (case role of None \<Rightarrow> pv_role r | Some q \<Rightarrow> Some (secretFolderRole q)),
                           pv_temp := (case type of None \<Rightarrow> pv_temp r | Some t \<Rightarrow> tf)\<rparr>)
       in Inr (invalidateProjectFolderPermissionCache (dto_projectId d)
            (st\<lparr>privileges := updateById (privileges st) (pv_id existing) change\<rparr>))))"

definition updateFolderGrant ::
  "folder_deps \<Rightarrow> folder_dto \<Rightarrow> SecretFolderRole option \<Rightarrow> TFolderGrantTypeInput option \<Rightarrow>
   grants_state \<Rightarrow> grant_error + privilege \<times> grants_state" where
  "updateFolderGrant deps d role type st =
     rbind (authorize_change deps d) (\<lambda>folder.
     rbind (assertGrantTargetEligible deps (dto_orgId d) (dto_projectId d) (dto_target d)) (\<lambda>_.
       case findOne (privileges st) (dto_projectId d) (folder_id folder) (dto_target d) of
         None \<Rightarrow> Inl (NoGrant (dto_target d) (folder_path folder))
       | Some existing \<Rightarrow> rbind (update_existing deps d role type st existing) (\<lambda>st'.
           case find (\<lambda>r. pv_id r = pv_id existing) (privileges st') of
             None \<Rightarrow> Inl UpdatedRowGone
           | Some row \<Rightarrow> Inr (row, st'))))"

definition deleteFolderGrant ::
  "folder_deps \<Rightarrow> folder_dto \<Rightarrow> grants_state \<Rightarrow> grant_error + privilege \<times> grants_state" where
  "deleteFolderGrant deps d st =
     rbind (authorize_change deps d) (\<lambda>folder.
       case findOne (privileges st) (dto_projectId d) (folder_id folder) (dto_target d) of
         None \<Rightarrow> Inl (NoGrant (dto_target d) (folder_path folder))
       | Some existing \<Rightarrow>
           Inr (existing, invalidateProjectFolderPermissionCache (dto_projectId d)
             (st\<lparr>privileges := deleteById (privileges st) (pv_id existing)\<rparr>)))"

section \<open>The interface of the table\<close>

text \<open>
  What the service needs of the table: rows are found by a key, a row answers some keys, and the
  three changes act on the row they name and on no other. In the model a key is a project, a folder
  and an actor.
\<close>

locale keyed_table =
  fixes lookup :: "'s \<Rightarrow> 'k \<Rightarrow> 'r option"
    and insert_r :: "'s \<Rightarrow> 'r \<Rightarrow> 'e + 's"
    and update_r :: "'s \<Rightarrow> 'i \<Rightarrow> ('r \<Rightarrow> 'r) \<Rightarrow> 's"
    and delete_r :: "'s \<Rightarrow> 'i \<Rightarrow> 's"
    and keys :: "'r \<Rightarrow> 'k set"
    and rid :: "'r \<Rightarrow> 'i"
    and same_key :: "'r \<Rightarrow> 'r \<Rightarrow> bool"
    and ids :: "'s \<Rightarrow> 'i set"
    and consistent :: "'s \<Rightarrow> bool"
  assumes insert_consistent:
      "consistent s \<Longrightarrow> rid r \<notin> ids s \<Longrightarrow> insert_r s r = Inr s' \<Longrightarrow> consistent s'"
    and lookup_insert:
      "consistent s \<Longrightarrow> rid r \<notin> ids s \<Longrightarrow> insert_r s r = Inr s' \<Longrightarrow>
         lookup s' k = (if k \<in> keys r then Some r else lookup s k) \<and> (k \<in> keys r \<longrightarrow> lookup s k = None)"
    and update_consistent:
      "consistent s \<Longrightarrow> lookup s k = Some r \<Longrightarrow> same_key (f r) r \<Longrightarrow>
         consistent (update_r s (rid r) f)"
    and lookup_update:
      "consistent s \<Longrightarrow> lookup s k = Some r \<Longrightarrow> same_key (f r) r \<Longrightarrow>
         lookup (update_r s (rid r) f) k' = (if k' \<in> keys r then Some (f r) else lookup s k')"
    and delete_consistent: "consistent s \<Longrightarrow> consistent (delete_r s i)"
    and lookup_delete:
      "consistent s \<Longrightarrow> lookup s k = Some r \<Longrightarrow>
         lookup (delete_r s (rid r)) k' = (if k' \<in> keys r then None else lookup s k')"
    and found: "lookup s k = Some r \<Longrightarrow> k \<in> keys r"
begin

lemma delete_undoes_insert:
  assumes "consistent s" "rid r \<notin> ids s" "insert_r s r = Inr s'" "k \<in> keys r"
  shows "lookup (delete_r s' (rid r)) = lookup s"
proof
  fix k'
  have "lookup s' k = Some r" using lookup_insert [OF assms(1-3)] assms(4) by simp
  note lookup_delete [OF insert_consistent [OF assms(1-3)] this]
  with lookup_insert [OF assms(1-3)] show "lookup (delete_r s' (rid r)) k' = lookup s k'" by simp
qed

lemma update_keeps_others:
  assumes "consistent s" "lookup s k = Some r" "same_key (f r) r" "k' \<notin> keys r"
  shows "lookup (update_r s (rid r) f) k' = lookup s k'"
  using lookup_update [of s k r f k'] assms by simp

lemma insert_fails_if_taken:
  "consistent s \<Longrightarrow> rid r \<notin> ids s \<Longrightarrow> k \<in> keys r \<Longrightarrow> lookup s k \<noteq> None \<Longrightarrow> insert_r s r \<noteq> Inr s'"
  using lookup_insert by fastforce

end

section \<open>The table meets its interface\<close>

type_synonym grant_key = "string \<times> string \<times> TFolderGrantActor"

definition matches_key :: "grant_key \<Rightarrow> privilege \<Rightarrow> bool" where
  "matches_key k r \<longleftrightarrow> (case k of (projectId, folderId, t) \<Rightarrow>
     pv_projectId r = Some projectId \<and> pv_folderId r = Some folderId \<and> targets t r)"

definition lookup_grant :: "privilege list \<Rightarrow> grant_key \<Rightarrow> privilege option" where
  "lookup_grant rs k = (case k of (projectId, folderId, t) \<Rightarrow> findOne rs projectId folderId t)"

definition row_keys :: "privilege \<Rightarrow> grant_key set" where
  "row_keys r = {k. matches_key k r}"

definition row_ids :: "privilege list \<Rightarrow> string set" where
  "row_ids rs = set (map pv_id rs)"

definition consistent_rows :: "privilege list \<Rightarrow> bool" where
  "consistent_rows rs \<longleftrightarrow> distinct (map pv_id rs) \<and> sorted_wrt (\<lambda>r r'. \<not> violates r r') rs"

lemma lookup_grant_find: "lookup_grant rs k = find (matches_key k) rs"
  by (cases k) (simp add: lookup_grant_def findOne_def matches_key_def [abs_def])

lemma violates_sym: "violates r r' \<longleftrightarrow> violates r' r"
  unfolding violates_def by metis

lemma matches_violates: "matches_key k r \<Longrightarrow> matches_key k r' \<Longrightarrow> violates r r'"
  by (cases k) (auto simp: matches_key_def violates_def targets_def split: ActorType.splits)

lemma consistent_apart:
  "sorted_wrt (\<lambda>r r'. \<not> violates r r') rs \<Longrightarrow> r \<in> set rs \<Longrightarrow> r' \<in> set rs \<Longrightarrow> r \<noteq> r' \<Longrightarrow> \<not> violates r r'"
  by (induction rs) (auto simp: violates_sym)

lemma lookup_grant_iff:
  assumes "consistent_rows rs"
  shows "lookup_grant rs k = Some r \<longleftrightarrow> r \<in> set rs \<and> matches_key k r"
proof
  assume "lookup_grant rs k = Some r"
  then show "r \<in> set rs \<and> matches_key k r"
    by (auto simp: lookup_grant_find find_Some_iff)
next
  assume r: "r \<in> set rs \<and> matches_key k r"
  then obtain r' where "find (matches_key k) rs = Some r'" by (cases "find (matches_key k) rs") (auto simp: find_None_iff)
  moreover from this have "r' \<in> set rs" "matches_key k r'" by (auto simp: find_Some_iff)
  moreover from this r assms have "r' = r"
    using consistent_apart [of rs r' r] matches_violates [of k r' r] unfolding consistent_rows_def by blast
  ultimately show "lookup_grant rs k = Some r" by (simp add: lookup_grant_find)
qed

lemma option_eqI: "(\<And>r. a = Some r \<longleftrightarrow> b = Some r) \<Longrightarrow> a = b"
  by (cases a; cases b) auto

lemma insert_row_Inr: "insert_row rs r = Inr rs' \<longleftrightarrow> \<not> list_ex (violates r) rs \<and> rs' = rs @ [r]"
  by (auto simp: insert_row_def)

lemma insert_row_consistent:
  "consistent_rows rs \<Longrightarrow> pv_id r \<notin> row_ids rs \<Longrightarrow> insert_row rs r = Inr rs' \<Longrightarrow> consistent_rows rs'"
  by (auto simp: insert_row_Inr consistent_rows_def row_ids_def sorted_wrt_append list_ex_iff violates_sym)

definition same_key_columns :: "privilege \<Rightarrow> privilege \<Rightarrow> bool" where
  "same_key_columns r r' \<longleftrightarrow> pv_id r = pv_id r' \<and> pv_projectId r = pv_projectId r' \<and> pv_folderId r = pv_folderId r' \<and>
     pv_actorUserId r = pv_actorUserId r' \<and> pv_actorIdentityId r = pv_actorIdentityId r'"

lemma same_key_columnsD:
  assumes "same_key_columns r r'"
  shows "pv_id r = pv_id r'" "matches_key k r = matches_key k r'" "violates r x = violates r' x" "violates x r = violates x r'"
  using assms by (cases k; simp add: same_key_columns_def matches_key_def targets_def violates_def split: ActorType.splits)+

lemma consistent_ids: "consistent_rows rs \<Longrightarrow> r \<in> set rs \<Longrightarrow> r' \<in> set rs \<Longrightarrow> pv_id r = pv_id r' \<Longrightarrow> r = r'"
  by (auto simp: consistent_rows_def distinct_map inj_on_def)

text \<open>An update by id changes one row, so it may be taken to keep the key columns of every row.\<close>

lemma updateById_one:
  assumes "consistent_rows rs" "r \<in> set rs"
  shows "updateById rs (pv_id r) f = map (\<lambda>x. if x = r then f r else x) rs"
  using assms consistent_ids [OF assms(1)] by (auto simp: updateById_def)

lemma sorted_wrt_map_same:
  assumes "\<And>x. x \<in> set rs \<Longrightarrow> same_key_columns (g x) x"
  shows "sorted_wrt (\<lambda>r r'. \<not> violates r r') (map g rs) = sorted_wrt (\<lambda>r r'. \<not> violates r r') rs"
proof -
  have "violates (g x) (g y) = violates x y" if "x \<in> set rs" "y \<in> set rs" for x y
    using same_key_columnsD(3) [OF assms [OF that(1)], of "g y"] same_key_columnsD(4) [OF assms [OF that(2)], of x]
    by simp
  then show ?thesis
    unfolding sorted_wrt_map by (auto elim!: sorted_wrt_mono_rel [rotated])
qed

lemma update_row_consistent:
  assumes "consistent_rows rs" "r \<in> set rs" "same_key_columns (f r) r"
  shows "consistent_rows (updateById rs (pv_id r) f)"
proof -
  let ?g = "\<lambda>x. if x = r then f r else x"
  have same: "same_key_columns (?g x) x" for x using assms(3) by (simp add: same_key_columns_def)
  have "map pv_id (map ?g rs) = map pv_id rs"
    using same_key_columnsD(1) [OF same] by simp
  with assms(1) sorted_wrt_map_same [of rs ?g] same show ?thesis
    by (simp only: updateById_one [OF assms(1,2)] consistent_rows_def)
qed

lemma delete_row_consistent: "consistent_rows rs \<Longrightarrow> consistent_rows (deleteById rs i)"
  by (auto simp: consistent_rows_def deleteById_def distinct_map_filter sorted_wrt_filter)

lemma lookup_after_insert:
  assumes "consistent_rows rs" "pv_id r \<notin> row_ids rs" "insert_row rs r = Inr rs'"
  shows "lookup_grant rs' k = (if matches_key k r then Some r else lookup_grant rs k)"
    and "matches_key k r \<Longrightarrow> lookup_grant rs k = None"
proof -
  have new: "\<not> matches_key k x" if "matches_key k r" "x \<in> set rs" for x
    using matches_violates [OF that(1), of x] that(2) assms(3) by (auto simp: insert_row_Inr list_ex_iff)
  then show "matches_key k r \<Longrightarrow> lookup_grant rs k = None"
    by (auto simp: lookup_grant_find find_None_iff)
  then show "lookup_grant rs' k = (if matches_key k r then Some r else lookup_grant rs k)"
    using assms(3) by (auto simp: insert_row_Inr lookup_grant_find find_append split: option.splits)
qed

lemma lookup_after_update:
  assumes "consistent_rows rs" "lookup_grant rs k = Some r" "same_key_columns (f r) r"
  shows "lookup_grant (updateById rs (pv_id r) f) k' = (if matches_key k' r then Some (f r) else lookup_grant rs k')"
proof -
  from assms(1,2) have r: "r \<in> set rs" by (simp add: lookup_grant_iff)
  note rows = updateById_one [OF assms(1) r, of f]
  have own: "matches_key k' (f r) = matches_key k' r" by (rule same_key_columnsD(2) [OF assms(3)])
  show ?thesis
  proof (rule option_eqI)
    fix x
    have "lookup_grant (updateById rs (pv_id r) f) k' = Some x \<longleftrightarrow>
        x \<in> set (updateById rs (pv_id r) f) \<and> matches_key k' x"
      using update_row_consistent [of rs r f] assms(1,3) r by (simp add: lookup_grant_iff)
    also have "\<dots> \<longleftrightarrow> (if matches_key k' r then Some (f r) else lookup_grant rs k') = Some x"
    proof (cases "matches_key k' r")
      case True
      then have "y = r" if "y \<in> set rs" "matches_key k' y" for y
        using lookup_grant_iff [OF assms(1), of k' y] lookup_grant_iff [OF assms(1), of k' r] that True r by simp
      note only = this
      show ?thesis
      proof
        assume "x \<in> set (updateById rs (pv_id r) f) \<and> matches_key k' x"
        then obtain y where "y \<in> set rs" "x = (if y = r then f r else y)" "matches_key k' x"
          by (auto simp: rows)
        with only [of y] True show "(if matches_key k' r then Some (f r) else lookup_grant rs k') = Some x"
          by (cases "y = r") simp_all
      next
        assume "(if matches_key k' r then Some (f r) else lookup_grant rs k') = Some x"
        with True own r show "x \<in> set (updateById rs (pv_id r) f) \<and> matches_key k' x"
          by (force simp: rows)
      qed
    next
      case False
      with own r show ?thesis by (auto simp: rows lookup_grant_iff [OF assms(1)])
    qed
    finally show "lookup_grant (updateById rs (pv_id r) f) k' = Some x \<longleftrightarrow>
        (if matches_key k' r then Some (f r) else lookup_grant rs k') = Some x" .
  qed
qed

lemma lookup_after_delete:
  assumes "consistent_rows rs" "lookup_grant rs k = Some r"
  shows "lookup_grant (deleteById rs (pv_id r)) k' = (if matches_key k' r then None else lookup_grant rs k')"
proof (rule option_eqI)
  fix x
  from assms have r: "r \<in> set rs" by (simp add: lookup_grant_iff)
  have "lookup_grant (deleteById rs (pv_id r)) k' = Some x \<longleftrightarrow> x \<in> set rs \<and> x \<noteq> r \<and> matches_key k' x"
    using consistent_ids [OF assms(1) _ r] r
    unfolding lookup_grant_iff [OF delete_row_consistent [OF assms(1)]] by (auto simp: deleteById_def)
  also have "\<dots> \<longleftrightarrow> (if matches_key k' r then None else lookup_grant rs k') = Some x"
    using lookup_grant_iff [OF assms(1), of k' x] lookup_grant_iff [OF assms(1), of k' r] r by auto
  finally show "lookup_grant (deleteById rs (pv_id r)) k' = Some x \<longleftrightarrow>
      (if matches_key k' r then None else lookup_grant rs k') = Some x" .
qed

interpretation privilege_table: keyed_table lookup_grant insert_row updateById deleteById row_keys pv_id
  same_key_columns row_ids consistent_rows
proof
  fix rs r rs' k k' i and f :: "privilege \<Rightarrow> privilege"
  show "consistent_rows rs \<Longrightarrow> pv_id r \<notin> row_ids rs \<Longrightarrow> insert_row rs r = Inr rs' \<Longrightarrow> consistent_rows rs'"
    by (rule insert_row_consistent)
  show "consistent_rows rs \<Longrightarrow> pv_id r \<notin> row_ids rs \<Longrightarrow> insert_row rs r = Inr rs' \<Longrightarrow>
      lookup_grant rs' k = (if k \<in> row_keys r then Some r else lookup_grant rs k) \<and>
      (k \<in> row_keys r \<longrightarrow> lookup_grant rs k = None)"
    using lookup_after_insert [of rs r rs' k] by (simp add: row_keys_def)
  show "consistent_rows rs \<Longrightarrow> lookup_grant rs k = Some r \<Longrightarrow> same_key_columns (f r) r \<Longrightarrow>
      consistent_rows (updateById rs (pv_id r) f)"
    by (rule update_row_consistent) (simp_all add: lookup_grant_iff)
  show "consistent_rows rs \<Longrightarrow> lookup_grant rs k = Some r \<Longrightarrow> same_key_columns (f r) r \<Longrightarrow>
      lookup_grant (updateById rs (pv_id r) f) k' = (if k' \<in> row_keys r then Some (f r) else lookup_grant rs k')"
    by (simp add: lookup_after_update row_keys_def)
  show "consistent_rows rs \<Longrightarrow> consistent_rows (deleteById rs i)"
    by (rule delete_row_consistent)
  show "consistent_rows rs \<Longrightarrow> lookup_grant rs k = Some r \<Longrightarrow>
      lookup_grant (deleteById rs (pv_id r)) k' = (if k' \<in> row_keys r then None else lookup_grant rs k')"
    by (simp add: lookup_after_delete row_keys_def)
  show "lookup_grant rs k = Some r \<Longrightarrow> k \<in> row_keys r"
    by (auto simp: lookup_grant_find row_keys_def find_Some_iff)
qed

section \<open>The states that the service reaches\<close>

definition permanent_full_access :: "privilege \<Rightarrow> bool" where
  "permanent_full_access r \<longleftrightarrow> \<not> (pv_role r = Some (secretFolderRole FullAccess) \<and> tf_isTemporary (pv_temp r))"

definition grants_ok :: "bool \<Rightarrow> grants_state \<Rightarrow> bool" where
  "grants_ok overlap st \<longleftrightarrow>
     consistent_rows (privileges st) \<and> (overlap \<or> list_all permanent_full_access (privileges st))"

text \<open>
  One successful operation, with the plans, permissions and folders of that moment. The lookup of a creation may have
  read any earlier state, and the new row has an id of its own; so may the lookup of a revocation, and rows also go
  when their actor leaves (\<open>members_leave\<close>). The lookup of an update takes no lock either: where \<open>overlap\<close> is true, it
  too may have read any earlier state, so that its check was made on a row that has changed since.
\<close>

inductive grant_step :: "bool \<Rightarrow> grants_state \<Rightarrow> grants_state \<Rightarrow> bool" for overlap where
  create: "createFolderGrant deps d role type i snapshot st = Inr (row, st') \<Longrightarrow> i \<notin> row_ids (privileges st) \<Longrightarrow>
     grant_step overlap st st'"
| update: "updateFolderGrant deps d rl type st = Inr (row, st') \<Longrightarrow> grant_step overlap st st'"
| late_update: "overlap \<Longrightarrow> authorize_change deps d = Inr folder \<Longrightarrow>
     findOne (privileges (snapshot :: grants_state)) (dto_projectId d) (folder_id folder) (dto_target d) = Some existing \<Longrightarrow>
     update_existing deps d rl type st existing = Inr st' \<Longrightarrow> grant_step overlap st st'"
| delete: "deleteFolderGrant deps d st = Inr (row, st') \<Longrightarrow> grant_step overlap st st'"
| late_delete: "deleteFolderGrant deps d snapshot = Inr (row, st0) \<Longrightarrow>
     grant_step overlap st (invalidateProjectFolderPermissionCache (dto_projectId d)
       (st\<lparr>privileges := deleteById (privileges st) (pv_id row)\<rparr>))"
| members_leave: "grant_step overlap st (st\<lparr>privileges := filter keep (privileges st)\<rparr>)"

inductive reachable_grants :: "bool \<Rightarrow> grants_state \<Rightarrow> bool" for overlap where
  start: "reachable_grants overlap \<lparr>privileges = [], folder_version = (\<lambda>p. 0)\<rparr>"
| step: "reachable_grants overlap st \<Longrightarrow> grant_step overlap st st' \<Longrightarrow> reachable_grants overlap st'"

lemma authorize_change_Inr:
  "authorize_change deps d = Inr folder \<longleftrightarrow>
     secretsFolderRbac deps (dto_orgId d) \<and>
     (\<exists>may. getProjectPermission deps (dto_caller d) (dto_projectId d) = Inr may \<and>
        resolveFolder deps (dto_projectId d) (dto_environmentSlug d) (dto_secretPath d) = Inr folder \<and>
        may ''manage-access'' ''secret-folders'' (Some (secret_place (folder_env folder) (folder_path folder))))"
  by (auto simp: authorize_change_def rbind_Inr_iff assertFolderRbacLicensed_def getFolderAccessPermission_def
      assertManageFolderAccess_def throw_forbidden_def throwUnlessCan_def rguard_def split: sum.splits if_splits)

lemma eligible_Inr:
  "assertGrantTargetEligible deps orgId projectId t = Inr u \<longleftrightarrow>
     hasProjectAccess deps orgId projectId t \<and> \<not> isProjectAdmin deps orgId projectId t"
  by (auto simp: assertGrantTargetEligible_def assertTargetMembership_def assertTargetNotProjectAdmin_def
      rbind_Inr_iff)

lemma computeTemporaryFields_temporary:
  "computeTemporaryFields m t = Inr tf \<Longrightarrow> tf_isTemporary tf \<longleftrightarrow> (case t of Some (Temporary r s) \<Rightarrow> True | _ \<Rightarrow> False)"
  by (auto simp: computeTemporaryFields_def split: option.splits TFolderGrantTypeInput.splits)

lemma full_access_name [simp]: "secretFolderRole role = ''full-access'' \<longleftrightarrow> role = FullAccess"
  by (cases role) simp_all

lemma createD:
  assumes "createFolderGrant deps d role type i snapshot st = Inr (row, st')"
  shows "\<exists>folder tf rs. authorize_change deps d = Inr folder \<and>
    hasProjectAccess deps (dto_orgId d) (dto_projectId d) (dto_target d) \<and>
    \<not> isProjectAdmin deps (dto_orgId d) (dto_projectId d) (dto_target d) \<and>
    computeTemporaryFields (ms deps) type = Inr tf \<and>
    row = new_row i (dto_projectId d) (folder_id folder) (secretFolderRole role) (dto_target d) tf \<and>
    permanent_full_access row \<and> insert_row (privileges st) row = Inr rs \<and>
    st' = invalidateProjectFolderPermissionCache (dto_projectId d) (st\<lparr>privileges := rs\<rparr>)"
proof -
  from assms obtain folder tf where a: "authorize_change deps d = Inr folder"
    "hasProjectAccess deps (dto_orgId d) (dto_projectId d) (dto_target d)"
    "\<not> isProjectAdmin deps (dto_orgId d) (dto_projectId d) (dto_target d)"
    and tf: "computeTemporaryFields (ms deps) type = Inr tf"
    and full: "\<not> (role = FullAccess \<and> (case type of Some (Temporary r s) \<Rightarrow> True | _ \<Rightarrow> False))"
    and ins: "(case insert_row (privileges st)
          (new_row i (dto_projectId d) (folder_id folder) (secretFolderRole role) (dto_target d) tf) of
        Inl e \<Rightarrow> Inl (AlreadyExists (dto_target d))
      | Inr rs \<Rightarrow> Inr (new_row i (dto_projectId d) (folder_id folder) (secretFolderRole role) (dto_target d) tf,
          invalidateProjectFolderPermissionCache (dto_projectId d) (st\<lparr>privileges := rs\<rparr>))) = Inr (row, st')"
    by (auto simp: createFolderGrant_def rbind_Inr_iff eligible_Inr assertFullAccessIsPermanent_def Let_def
        simp del: de_Morgan_conj split: if_splits)
  let ?row = "new_row i (dto_projectId d) (folder_id folder) (secretFolderRole role) (dto_target d) tf"
  from ins obtain rs where rs: "insert_row (privileges st) ?row = Inr rs" "row = ?row"
    "st' = invalidateProjectFolderPermissionCache (dto_projectId d) (st\<lparr>privileges := rs\<rparr>)"
    by (cases "insert_row (privileges st) ?row") auto
  moreover have "permanent_full_access ?row"
    using full computeTemporaryFields_temporary [OF tf] by (simp add: permanent_full_access_def new_row_def)
  ultimately show ?thesis using a tf by blast
qed

lemma update_existingD:
  assumes "update_existing deps d rl type st existing = Inr st'"
  shows "\<exists>f. (\<forall>r. same_key_columns (f r) r) \<and> permanent_full_access (f existing) \<and>
    pv_role (f existing) = (case rl of None \<Rightarrow> pv_role existing | Some r \<Rightarrow> Some (secretFolderRole r)) \<and>
    st' = invalidateProjectFolderPermissionCache (dto_projectId d)
      (st\<lparr>privileges := updateById (privileges st) (pv_id existing) f\<rparr>)"
proof -
  let ?tf = "\<lambda>tf. (case type of None \<Rightarrow> Inr (pv_temp existing) | Some t \<Rightarrow> computeTemporaryFields (ms deps) (Some t)) = Inr tf"
  let ?f = "\<lambda>tf r. r\<lparr>pv_role := (case rl of None \<Rightarrow> pv_role r | Some q \<Rightarrow> Some (secretFolderRole q)),
      pv_temp := (case type of None \<Rightarrow> pv_temp r | Some t \<Rightarrow> tf)\<rparr>"
  from assms obtain tf u where tf: "?tf tf" and res:
      "st' = invalidateProjectFolderPermissionCache (dto_projectId d)
        (st\<lparr>privileges := updateById (privileges st) (pv_id existing) (?f tf)\<rparr>)"
    and full: "assertFullAccessIsPermanent
         (case rl of None \<Rightarrow> pv_role existing | Some r \<Rightarrow> Some (secretFolderRole r))
         (case type of None \<Rightarrow> tf_isTemporary (pv_temp existing)
          | Some Permanent \<Rightarrow> False | Some (Temporary r s) \<Rightarrow> True) = Inr u"
    by (simp only: update_existing_def rbind_Inr_iff Let_def sum.inject) 
      (elim exE conjE, rule that, (assumption | (rule sym, assumption))+)
  from tf full computeTemporaryFields_temporary [of "ms deps" type tf] have "permanent_full_access (?f tf existing)"
    by (cases type) (auto simp: permanent_full_access_def assertFullAccessIsPermanent_def
        split: option.splits TFolderGrantTypeInput.splits)
  with res show ?thesis
    by (intro exI [of _ "?f tf"]) (simp add: same_key_columns_def)
qed

lemma updated_row:
  assumes "consistent_rows rs" "existing \<in> set rs" "same_key_columns (f existing) existing"
  shows "find (\<lambda>r. pv_id r = pv_id existing) (updateById rs (pv_id existing) f) = Some (f existing)"
proof -
  note c = update_row_consistent [of rs existing f, OF assms]
  have new: "f existing \<in> set (updateById rs (pv_id existing) f)" "pv_id (f existing) = pv_id existing"
    using assms(2,3) by (auto simp: updateById_def same_key_columns_def)
  show ?thesis
  proof (cases "find (\<lambda>r. pv_id r = pv_id existing) (updateById rs (pv_id existing) f)")
    case None
    with new show ?thesis by (auto simp: find_None_iff)
  next
    case (Some r)
    then have "r \<in> set (updateById rs (pv_id existing) f)" "pv_id r = pv_id existing"
      by (auto simp: find_Some_iff)
    with consistent_ids [OF c _ new(1)] new(2) Some show ?thesis by simp
  qed
qed

lemma updateD:
  assumes "updateFolderGrant deps d rl type st = Inr (row, st')" "consistent_rows (privileges st)"
  shows "\<exists>folder existing f. authorize_change deps d = Inr folder \<and>
    hasProjectAccess deps (dto_orgId d) (dto_projectId d) (dto_target d) \<and>
    \<not> isProjectAdmin deps (dto_orgId d) (dto_projectId d) (dto_target d) \<and>
    lookup_grant (privileges st) (dto_projectId d, folder_id folder, dto_target d) = Some existing \<and>
    same_key_columns (f existing) existing \<and> row = f existing \<and> permanent_full_access row \<and>
    pv_role row = (case rl of None \<Rightarrow> pv_role existing | Some r \<Rightarrow> Some (secretFolderRole r)) \<and>
    st' = invalidateProjectFolderPermissionCache (dto_projectId d)
      (st\<lparr>privileges := updateById (privileges st) (pv_id existing) f\<rparr>)"
proof -
  from assms(1) obtain folder existing where a: "authorize_change deps d = Inr folder"
    "hasProjectAccess deps (dto_orgId d) (dto_projectId d) (dto_target d)"
    "\<not> isProjectAdmin deps (dto_orgId d) (dto_projectId d) (dto_target d)"
    "lookup_grant (privileges st) (dto_projectId d, folder_id folder, dto_target d) = Some existing"
    and upd: "update_existing deps d rl type st existing = Inr st'"
    and row: "find (\<lambda>r. pv_id r = pv_id existing) (privileges st') = Some row"
    by (auto simp: updateFolderGrant_def rbind_Inr_iff eligible_Inr lookup_grant_def split: option.splits)
  from update_existingD [OF upd] obtain f where f: "\<forall>r. same_key_columns (f r) r"
    "permanent_full_access (f existing)"
    "pv_role (f existing) = (case rl of None \<Rightarrow> pv_role existing | Some r \<Rightarrow> Some (secretFolderRole r))"
    "st' = invalidateProjectFolderPermissionCache (dto_projectId d)
      (st\<lparr>privileges := updateById (privileges st) (pv_id existing) f\<rparr>)" by blast
  from a(4) assms(2) have "existing \<in> set (privileges st)" by (simp add: lookup_grant_iff)
  note same = spec [OF f(1), of existing]
  from \<open>existing \<in> set (privileges st)\<close> updated_row [of "privileges st" existing f] assms(2) same row have "row = f existing"
    by (simp add: f(4) invalidateProjectFolderPermissionCache_def)
  with a f same show ?thesis by blast
qed

lemma deleteD:
  assumes "deleteFolderGrant deps d st = Inr (row, st')"
  shows "\<exists>folder. authorize_change deps d = Inr folder \<and>
    lookup_grant (privileges st) (dto_projectId d, folder_id folder, dto_target d) = Some row \<and>
    st' = invalidateProjectFolderPermissionCache (dto_projectId d)
      (st\<lparr>privileges := deleteById (privileges st) (pv_id row)\<rparr>)"
  using assms by (auto simp: deleteFolderGrant_def rbind_Inr_iff lookup_grant_def split: option.splits)

lemma invalidate_privileges [simp]: "privileges (invalidateProjectFolderPermissionCache p st) = privileges st"
  by (simp add: invalidateProjectFolderPermissionCache_def)

lemma kept_rows_ok:
  assumes "grants_ok overlap st" "privileges st' = filter P (privileges st)"
  shows "grants_ok overlap st'"
  using assms by (auto simp: grants_ok_def consistent_rows_def distinct_map_filter sorted_wrt_filter list_all_iff)

lemma any_update_consistent:
  assumes "consistent_rows rs" "\<forall>r. same_key_columns (f r) r"
  shows "consistent_rows (updateById rs i f)"
proof -
  let ?g = "\<lambda>r. if pv_id r = i then f r else r"
  have same: "same_key_columns (?g x) x" for x using assms(2) by (simp add: same_key_columns_def)
  have "map pv_id (map ?g rs) = map pv_id rs" using same_key_columnsD(1) [OF same] by simp
  with assms(1) sorted_wrt_map_same [of rs ?g] same show ?thesis
    by (simp only: updateById_def consistent_rows_def)
qed

lemma grant_step_ok [inv_intros]: "grant_step overlap st st' \<Longrightarrow> grants_ok overlap st \<Longrightarrow> grants_ok overlap st'"
proof (induction rule: grant_step.induct)
  case (create deps d role type i snapshot st row st')
  from createD [OF create(1)] obtain rs where rs: "permanent_full_access row" "pv_id row = i"
    "insert_row (privileges st) row = Inr rs" "privileges st' = rs"
    by (auto simp: new_row_def)
  with create(2,3) insert_row_consistent [of "privileges st" row rs] show ?case
    by (auto simp: grants_ok_def insert_row_Inr)
next
  case (update deps d rl type st row st')
  from update(2) have c: "consistent_rows (privileges st)" by (simp add: grants_ok_def)
  from updateD [OF update(1) c] obtain k existing f where
    u: "lookup_grant (privileges st) k = Some existing" "same_key_columns (f existing) existing"
      "permanent_full_access (f existing)" "privileges st' = updateById (privileges st) (pv_id existing) f"
    by fastforce
  from c u(1) have mem: "existing \<in> set (privileges st)" by (simp add: lookup_grant_iff)
  have "consistent_rows (privileges st')"
    using privilege_table.update_consistent [of "privileges st" k existing f] c u by simp
  moreover have "overlap \<or> list_all permanent_full_access (privileges st')"
    using update(2) u(3) by (auto simp: u(4) updateById_one [OF c mem] grants_ok_def list_all_iff)
  ultimately show ?case by (simp add: grants_ok_def)
next
  case (late_update deps d folder snapshot existing rl type st st')
  from update_existingD [OF late_update(4)] obtain f where "\<forall>r. same_key_columns (f r) r"
    "privileges st' = updateById (privileges st) (pv_id existing) f" by auto
  with late_update(1,5) any_update_consistent show ?case by (simp add: grants_ok_def)
next
  case (delete deps d st row st')
  from deleteD [OF delete(1)] obtain i where "privileges st' = deleteById (privileges st) i" by auto
  with delete(2) kept_rows_ok show ?case by (simp add: deleteById_def)
next
  case (late_delete deps d snapshot row st0 st)
  then show ?case by (rule_tac kept_rows_ok) (simp_all add: deleteById_def)
next
  case (members_leave st keep)
  then show ?case by (rule kept_rows_ok) simp
qed

lemma reachable_grants_ok: "reachable_grants overlap st \<Longrightarrow> grants_ok overlap st"
proof (induction rule: reachable_grants.induct)
  case start
  show ?case by (simp add: grants_ok_def consistent_rows_def)
qed (rule inv_intros)

section \<open>Properties\<close>

lemma row_of_key_violates:
  "pv_folderId r = Some f \<Longrightarrow> pv_folderId r' = Some f \<Longrightarrow>
   pv_actorUserId r = Some a \<and> pv_actorUserId r' = Some a \<or>
   pv_actorIdentityId r = Some a \<and> pv_actorIdentityId r' = Some a \<Longrightarrow> violates r r'"
  by (auto simp: violates_def)

text \<open>
  C11: In every state that the operations reach, however they overlap, an actor has at most one share of a folder; and
  as long as no update overlaps another one of the same share, no share gives full access for a limited time.
\<close>

theorem folder_shares_invariant:
  assumes "reachable_grants overlap st" "r \<in> set (privileges st)"
  shows "(\<forall>r'\<in>set (privileges st). pv_folderId r = Some f \<and> pv_folderId r' = Some f \<and>
      (pv_actorUserId r = Some a \<and> pv_actorUserId r' = Some a \<or>
       pv_actorIdentityId r = Some a \<and> pv_actorIdentityId r' = Some a) \<longrightarrow> r' = r) \<and>
    (\<not> overlap \<and> pv_role r = Some ''full-access'' \<longrightarrow> \<not> tf_isTemporary (pv_temp r))"
proof -
  from reachable_grants_ok [OF assms(1)] have ok: "consistent_rows (privileges st)" "overlap \<or> permanent_full_access r"
    using assms(2) by (auto simp: grants_ok_def list_all_iff)
  have "r' = r" if "r' \<in> set (privileges st)" "pv_folderId r = Some f" "pv_folderId r' = Some f"
      "pv_actorUserId r = Some a \<and> pv_actorUserId r' = Some a \<or>
       pv_actorIdentityId r = Some a \<and> pv_actorIdentityId r' = Some a" for r'
    using consistent_apart [of "privileges st" r r'] row_of_key_violates [OF that(2-4)] ok(1) assms(2) that(1)
    by (auto simp: consistent_rows_def)
  with ok(2) show ?thesis by (auto simp: permanent_full_access_def)
qed

definition example_deps :: folder_deps where
  "example_deps = \<lparr>secretsFolderRbac = (\<lambda>org. True),
     getProjectPermission = (\<lambda>caller project. Inr (\<lambda>action subject fs. action = ''manage-access'')),
     findBySecretPath = (\<lambda>project env path. Some \<lparr>folder_id = ''f1'', folder_path = path, folder_env = env,
        folder_isReserved = False\<rparr>),
     hasProjectAccess = (\<lambda>org project t. actorId t = ''bob''), isProjectAdmin = (\<lambda>org project t. False),
     ms = (\<lambda>s. Some 3600000)\<rparr>"

definition example_dto :: folder_dto where
  "example_dto = \<lparr>dto_caller = ''alice'', dto_orgId = ''o'', dto_projectId = ''p'', dto_environmentSlug = ''dev'',
     dto_secretPath = ''/a'', dto_target = \<lparr>actorId = ''bob'', actorType = USER\<rparr>\<rparr>"

definition no_grants :: grants_state where
  "no_grants = \<lparr>privileges = [], folder_version = (\<lambda>p. 0)\<rparr>"

definition permanent_fields :: temporary_fields where
  "permanent_fields = \<lparr>tf_isTemporary = False, tf_mode = None, tf_range = None, tf_start = None, tf_end = None\<rparr>"

definition example_row :: privilege where
  "example_row = new_row ''1'' ''p'' ''f1'' ''full-access'' \<lparr>actorId = ''bob'', actorType = USER\<rparr> permanent_fields"

definition example_state :: grants_state where
  "example_state = \<lparr>privileges = [example_row], folder_version = (\<lambda>p. 0)(''p'' := 1)\<rparr>"

lemmas example_grant = example_deps_def example_dto_def no_grants_def permanent_fields_def example_row_def
  example_state_def authorize_change_def assertFolderRbacLicensed_def getFolderAccessPermission_def
  resolveFolder_def assertManageFolderAccess_def throw_forbidden_def throwUnlessCan_def
  assertGrantTargetEligible_def assertTargetMembership_def assertTargetNotProjectAdmin_def
  assertFullAccessIsPermanent_def computeTemporaryFields_def insert_row_def findOne_def
  invalidateProjectFolderPermissionCache_def new_row_def

lemma example_create:
  "createFolderGrant example_deps example_dto FullAccess None ''1'' no_grants no_grants = Inr (example_row, example_state)"
  by (simp add: createFolderGrant_def example_grant Let_def)

lemma example_reachable: "reachable_grants False example_state"
proof (rule reachable_grants.step)
  show "reachable_grants False no_grants"
    unfolding no_grants_def by (rule reachable_grants.start)
  show "grant_step False no_grants example_state"
    by (rule grant_step.create [OF example_create]) (simp add: no_grants_def row_ids_def)
qed

theorem folder_shares_invariant_witness:
  "pv_role example_row = Some ''full-access'' \<and> \<not> tf_isTemporary (pv_temp example_row)"
proof -
  have "example_row \<in> set (privileges example_state)" by (simp add: example_state_def)
  from folder_shares_invariant [OF example_reachable this, of "''f1''" "''bob''"]
  show ?thesis by (simp add: example_row_def new_row_def)
qed

lemma create_delete_rows:
  assumes "pv_id r \<notin> row_ids rs"
  shows "deleteById (rs @ [r]) (pv_id r) = rs"
proof -
  have "pv_id x \<noteq> pv_id r" if "x \<in> set rs" for x
    using assms imageI [OF that, of pv_id] unfolding row_ids_def set_map by metis
  then show ?thesis by (simp add: deleteById_def filter_id_conv)
qed

text \<open>
  A share that was just created is found, and revoking it by the same request succeeds, returns
  it and leaves the table as it was before; the cached permissions are invalidated both times.
\<close>

theorem create_then_revoke:
  assumes "reachable_grants overlap st" "i \<notin> row_ids (privileges st)"
    "createFolderGrant deps d role type i snapshot st = Inr (row, st')"
  shows "\<exists>folder st''. resolveFolder deps (dto_projectId d) (dto_environmentSlug d) (dto_secretPath d) = Inr folder \<and>
    findOne (privileges st') (dto_projectId d) (folder_id folder) (dto_target d) = Some row \<and>
    pv_role row = Some (secretFolderRole role) \<and>
    deleteFolderGrant deps d st' = Inr (row, st'') \<and> privileges st'' = privileges st \<and>
    folder_version st'' = (folder_version st)(dto_projectId d := folder_version st (dto_projectId d) + 2)"
proof -
  from reachable_grants_ok [OF assms(1)] have ok: "consistent_rows (privileges st)" by (simp add: grants_ok_def)
  from createD [OF assms(3)] obtain folder tf rs where c: "authorize_change deps d = Inr folder"
    "row = new_row i (dto_projectId d) (folder_id folder) (secretFolderRole role) (dto_target d) tf"
    "insert_row (privileges st) row = Inr rs"
    "st' = invalidateProjectFolderPermissionCache (dto_projectId d) (st\<lparr>privileges := rs\<rparr>)" by blast
  let ?k = "(dto_projectId d, folder_id folder, dto_target d)"
  from c(2) have id: "pv_id row = i" "matches_key ?k row"
    by (auto simp: new_row_def matches_key_def targets_def split: ActorType.splits)
  from privilege_table.lookup_insert [OF ok _ c(3), of ?k] id assms(2)
  have found: "findOne rs (dto_projectId d) (folder_id folder) (dto_target d) = Some row"
    by (simp add: row_keys_def lookup_grant_def)
  from c(3) have "deleteById rs i = privileges st"
    using create_delete_rows [of row "privileges st"] id(1) assms(2) by (simp add: insert_row_Inr)
  moreover have "deleteFolderGrant deps d st' = Inr (row, invalidateProjectFolderPermissionCache (dto_projectId d)
      (st'\<lparr>privileges := deleteById rs (pv_id row)\<rparr>))"
    using c(1) found by (simp add: deleteFolderGrant_def c(4))
  moreover have "resolveFolder deps (dto_projectId d) (dto_environmentSlug d) (dto_secretPath d) = Inr folder"
    using c(1) by (auto simp: authorize_change_Inr)
  moreover have "pv_role row = Some (secretFolderRole role)" by (simp add: c(2) new_row_def)
  ultimately show ?thesis
    using found id(1)
    by (intro exI [of _ folder] exI [of _ "invalidateProjectFolderPermissionCache (dto_projectId d)
          (st'\<lparr>privileges := deleteById rs (pv_id row)\<rparr>)"])
      (simp add: c(4) invalidateProjectFolderPermissionCache_def)
qed

theorem create_then_revoke_witness:
  "\<exists>st''. deleteFolderGrant example_deps example_dto example_state = Inr (example_row, st'') \<and>
     privileges st'' = []"
proof -
  have "reachable_grants False no_grants" unfolding no_grants_def by (rule reachable_grants.start)
  from create_then_revoke [OF this _ example_create] show ?thesis
    by (auto simp: no_grants_def row_ids_def)
qed

lemma update_touches:
  assumes "consistent_rows rs" "lookup_grant rs k = Some existing" "same_key_columns (f existing) existing"
    "\<not> matches_key k r"
  shows "r \<in> set (updateById rs (pv_id existing) f) \<longleftrightarrow> r \<in> set rs"
proof -
  from assms(1,2) have e: "existing \<in> set rs" "matches_key k existing" by (simp_all add: lookup_grant_iff)
  with same_key_columnsD(2) [OF assms(3), of k] assms(4) have "r \<noteq> existing" "r \<noteq> f existing" by auto
  then show ?thesis unfolding updateById_one [OF assms(1) e(1)] by auto
qed

lemma delete_touches:
  assumes "consistent_rows rs" "lookup_grant rs k = Some row" "\<not> matches_key k r"
  shows "r \<in> set (deleteById rs (pv_id row)) \<longleftrightarrow> r \<in> set rs"
proof -
  from assms(1,2) have e: "row \<in> set rs" "matches_key k row" by (simp_all add: lookup_grant_iff)
  with assms(3) consistent_ids [OF assms(1) _ e(1), of r] show ?thesis by (auto simp: deleteById_def)
qed

text \<open>
  C29: Whatever operation succeeds, the plan includes folder roles and the caller may manage access at
  the folder; only the share of the requested actor on that folder changes, and the version of the
  project advances, so that no permission cached before is used again.
\<close>

theorem changes_touch_one_share:
  assumes "reachable_grants overlap st"
    and "(\<exists>role type i snapshot. i \<notin> row_ids (privileges st) \<and>
            createFolderGrant deps d role type i snapshot st = Inr (row, st')) \<or>
         (\<exists>rl type. updateFolderGrant deps d rl type st = Inr (row, st')) \<or>
         deleteFolderGrant deps d st = Inr (row, st')"
  shows "\<exists>may folder. secretsFolderRbac deps (dto_orgId d) \<and>
    getProjectPermission deps (dto_caller d) (dto_projectId d) = Inr may \<and>
    resolveFolder deps (dto_projectId d) (dto_environmentSlug d) (dto_secretPath d) = Inr folder \<and>
    may ''manage-access'' ''secret-folders'' (Some (secret_place (folder_env folder) (folder_path folder))) \<and>
    (\<forall>r. \<not> (pv_projectId r = Some (dto_projectId d) \<and> pv_folderId r = Some (folder_id folder) \<and>
           targets (dto_target d) r) \<longrightarrow>
       (r \<in> set (privileges st') \<longleftrightarrow> r \<in> set (privileges st))) \<and>
    folder_version st' = (folder_version st)(dto_projectId d := folder_version st (dto_projectId d) + 1)"
proof -
  from reachable_grants_ok [OF assms(1)] have ok: "consistent_rows (privileges st)" by (simp add: grants_ok_def)
  let ?k = "\<lambda>folder. (dto_projectId d, folder_id folder, dto_target d)"
  have "\<exists>folder. authorize_change deps d = Inr folder \<and>
      (\<forall>r. \<not> matches_key (?k folder) r \<longrightarrow> (r \<in> set (privileges st') \<longleftrightarrow> r \<in> set (privileges st))) \<and>
      folder_version st' = (folder_version st)(dto_projectId d := folder_version st (dto_projectId d) + 1)"
    using assms(2)
  proof (elim disjE exE conjE)
    fix role type i snapshot
    assume "createFolderGrant deps d role type i snapshot st = Inr (row, st')"
    from createD [OF this] show ?thesis
      by (auto simp: insert_row_Inr new_row_def matches_key_def targets_def
          invalidateProjectFolderPermissionCache_def split: ActorType.splits)
  next
    fix rl type
    assume "updateFolderGrant deps d rl type st = Inr (row, st')"
    from updateD [OF this ok] update_touches [OF ok] show ?thesis
      by (fastforce simp: invalidateProjectFolderPermissionCache_def)
  next
    assume "deleteFolderGrant deps d st = Inr (row, st')"
    from deleteD [OF this] delete_touches [OF ok] show ?thesis
      by (fastforce simp: invalidateProjectFolderPermissionCache_def)
  qed
  then show ?thesis unfolding authorize_change_Inr matches_key_def by auto
qed

theorem changes_touch_one_share_witness:
  "folder_version example_state ''p'' = 1 \<and>
   new_row ''1'' ''p'' ''f2'' ''full-access'' \<lparr>actorId = ''bob'', actorType = USER\<rparr> permanent_fields
     \<notin> set (privileges example_state)"
proof -
  have "reachable_grants False no_grants" unfolding no_grants_def by (rule reachable_grants.start)
  moreover have "\<exists>role type i snapshot. i \<notin> row_ids (privileges no_grants) \<and>
      createFolderGrant example_deps example_dto role type i snapshot no_grants = Inr (example_row, example_state)"
    using example_create by (intro exI conjI) (auto simp: no_grants_def row_ids_def)
  ultimately obtain folder where
    "resolveFolder example_deps (dto_projectId example_dto) (dto_environmentSlug example_dto)
       (dto_secretPath example_dto) = Inr folder"
    "\<And>r. \<not> (pv_projectId r = Some (dto_projectId example_dto) \<and> pv_folderId r = Some (folder_id folder) \<and>
        targets (dto_target example_dto) r) \<Longrightarrow>
      r \<in> set (privileges example_state) \<longleftrightarrow> r \<in> set (privileges no_grants)"
    "folder_version example_state = (folder_version no_grants)(dto_projectId example_dto :=
        folder_version no_grants (dto_projectId example_dto) + 1)"
    using changes_touch_one_share [of False no_grants example_deps example_dto example_row example_state] by blast
  then show ?thesis
    by (auto simp: example_dto_def example_deps_def resolveFolder_def targets_def no_grants_def new_row_def)
qed

text \<open>
  Revoking succeeds exactly when the caller is authorised at the folder and the share exists; it
  does not depend on whether the actor still has access to the project or is its admin.
\<close>

theorem shares_can_be_revoked:
  "((\<exists>row st'. deleteFolderGrant deps d st = Inr (row, st')) \<longleftrightarrow>
     (\<exists>folder. authorize_change deps d = Inr folder \<and>
        findOne (privileges st) (dto_projectId d) (folder_id folder) (dto_target d) \<noteq> None)) \<and>
   deleteFolderGrant (deps\<lparr>hasProjectAccess := member, isProjectAdmin := admin\<rparr>) d st = deleteFolderGrant deps d st"
proof (rule conjI)
  show "(\<exists>row st'. deleteFolderGrant deps d st = Inr (row, st')) \<longleftrightarrow>
     (\<exists>folder. authorize_change deps d = Inr folder \<and>
        findOne (privileges st) (dto_projectId d) (folder_id folder) (dto_target d) \<noteq> None)"
    by (cases "authorize_change deps d") (auto simp: deleteFolderGrant_def rbind_Inr_iff split: option.splits)
  show "deleteFolderGrant (deps\<lparr>hasProjectAccess := member, isProjectAdmin := admin\<rparr>) d st = deleteFolderGrant deps d st"
    by (simp add: deleteFolderGrant_def authorize_change_def assertFolderRbacLicensed_def
        getFolderAccessPermission_def resolveFolder_def)
qed

text \<open>
  Two updates of a share that both read the row before either writes it, one to full access and
  one to a limited time, both pass their check and leave a share with full access for a limited time.
\<close>

definition reader_row :: privilege where
  "reader_row = new_row ''1'' ''p'' ''f1'' ''read'' \<lparr>actorId = ''bob'', actorType = USER\<rparr> permanent_fields"

theorem racing_updates_break_permanence:
  "\<exists>st. reachable_grants True st \<and> \<not> list_all permanent_full_access (privileges st)"
proof -
  let ?inv = "invalidateProjectFolderPermissionCache ''p''"
  let ?st0 = "?inv (no_grants\<lparr>privileges := [reader_row]\<rparr>)"
  let ?st1 = "?inv (?st0\<lparr>privileges := [reader_row\<lparr>pv_role := Some ''full-access''\<rparr>]\<rparr>)"
  have "createFolderGrant example_deps example_dto Read None ''1'' no_grants no_grants = Inr (reader_row, ?st0)"
    by (simp add: createFolderGrant_def reader_row_def example_grant Let_def)
  then have "reachable_grants True ?st0"
    by (intro reachable_grants.step [OF reachable_grants.start] grant_step.create) (auto simp: no_grants_def row_ids_def)
  moreover have "updateFolderGrant example_deps example_dto (Some FullAccess) None ?st0 = Inr (reader_row\<lparr>pv_role := Some ''full-access''\<rparr>, ?st1)"
    by (simp add: updateFolderGrant_def update_existing_def reader_row_def example_grant Let_def updateById_def targets_def)
  ultimately have one: "reachable_grants True ?st1" by (blast intro: reachable_grants.step grant_step.update)
  have found: "authorize_change example_deps example_dto = Inr \<lparr>folder_id = ''f1'', folder_path = ''/a'', folder_env = ''dev''\<rparr>"
    "findOne (privileges ?st0) (dto_projectId example_dto) ''f1'' (dto_target example_dto) = Some reader_row"
    by (simp_all add: example_grant reader_row_def targets_def)
  have "\<exists>st2. update_existing example_deps example_dto None (Some (Temporary ''1h'' 0)) ?st1 reader_row = Inr st2 \<and>
      \<not> list_all permanent_full_access (privileges st2)"
    by (simp add: update_existing_def example_grant Let_def updateById_def reader_row_def permanent_full_access_def)
  then obtain st2 where st2: "update_existing example_deps example_dto None (Some (Temporary ''1h'' 0)) ?st1 reader_row = Inr st2"
    "\<not> list_all permanent_full_access (privileges st2)" by blast
  have "grant_step True ?st1 st2"
    by (rule grant_step.late_update [OF TrueI found(1) _ st2(1), of ?st0]) (use found(2) in simp)
  with one st2(2) show ?thesis by (blast intro: reachable_grants.step)
qed

end
