(* ===== verification/FolderAccess.thy ===== *)
theory FolderAccess
  imports FolderGrants
begin

text \<open>
  Who has access to a folder (\<open>backend/src/services/folder-permission/folder-access-roles-fns.ts\<close> and
  the listings of \<open>folder-permission-service.ts\<close>): the roles of the project that reach the folder, the
  roles of a member that are active, and the split of a page of members into those with and those
  without access.

  \<open>casl\<close> is the permission library on a list of rules, as in PermissionRules; \<open>unpack\<close> decodes the
  stored rules of a custom role. Times are milliseconds. The page of members comes from a query, and
  the copy of the evaluated page that the key store keeps is left out: it is used only while its
  fingerprint is that of the database.
\<close>

section \<open>Data\<close>

record 'p TProjectMemberRoleRow =
  row_role :: string
  customRoleId :: "string option"
  customRoleSlug :: "string option"
  customRoleName :: "string option"
  customRolePermissions :: "'p option"
  row_isTemporary :: bool
  row_temporaryAccessEndTime :: "int option"

record TFolderAccessRole =
  far_id :: "string option"
  far_slug :: string
  far_name :: string

record TCachedProjectMemberRole = TFolderAccessRole +
  cr_isTemporary :: bool
  cr_temporaryAccessEndTime :: "int option"

datatype 'p TDistinctProjectRole =
    BuiltInRole (role_key: string) string
  | CustomRole (role_key: string) string "'p option"

record ('a, 'p) TProjectMember =
  pm_actor :: 'a
  pm_roles :: "'p TProjectMemberRoleRow list"

record 'a cached_actor =
  ca_actor :: 'a
  ca_roles :: "TCachedProjectMemberRole list"

record 'a TCachedFolderAccess =
  actors :: "'a cached_actor list"
  grantingRoleKeys :: "string list"
  totalCount :: nat

record 'a TFolderAccessEntry =
  fe_actor :: 'a
  fe_membershipId :: "string option"
  fe_isProjectAdmin :: bool
  fe_roles :: "TFolderAccessRole list"
  fe_grant :: "privilege option"

section \<open>The roles of a page of members\<close>

definition FOLDER_ACCESS_PROBES :: "(string \<times> string) list" where
  "FOLDER_ACCESS_PROBES =
     concat (map (\<lambda>rule. concat (map (\<lambda>sub. map (\<lambda>action. (action, sub)) (action_list (rule_action rule)))
                                 (subject_list (rule_subject rule))))
             FOLDER_SCOPED_DENY_RULES)"

definition BUILT_IN_PROJECT_ROLE_NAMES :: "string \<Rightarrow> string option" where
  "BUILT_IN_PROJECT_ROLE_NAMES = map_of [(''admin'', ''Admin''), (''member'', ''Member''), (''viewer'', ''Viewer''),
     (''no-access'', ''No Access''), (''cryptographic-operator'', ''Cryptographic Operator'')]"

definition folderAccessRoleKey :: "'z TFolderAccessRole_scheme \<Rightarrow> string" where
  "folderAccessRoleKey role = (case far_id role of Some i \<Rightarrow> i | None \<Rightarrow> far_slug role)"

text \<open>The map keeps the order of insertion, so it is the list of its values.\<close>

definition distinct_role_of :: "'p TProjectMemberRoleRow \<Rightarrow> 'p TDistinctProjectRole option" where
  "distinct_role_of row =
     (if row_role row = ''custom'' then
        (case (customRoleId row, customRoleSlug row) of
           (Some i, Some slug) \<Rightarrow> if i \<noteq> [] \<and> slug \<noteq> [] then Some (CustomRole i slug (customRolePermissions row)) else None
         | _ \<Rightarrow> None)
      else Some (BuiltInRole (row_role row) (row_role row)))"

definition collect_row :: "'p TDistinctProjectRole list \<Rightarrow> 'p TProjectMemberRoleRow \<Rightarrow> 'p TDistinctProjectRole list" where
  "collect_row byKey row =
     (case distinct_role_of row of
        None \<Rightarrow> byKey
      | Some role \<Rightarrow> if role_key role \<in> set (map role_key byKey) then byKey else byKey @ [role])"

definition collectDistinctRoles :: "('a, 'p) TProjectMember list \<Rightarrow> 'p TDistinctProjectRole list" where
  "collectDistinctRoles entries = foldl (\<lambda>byKey entry. foldl collect_row byKey (pm_roles entry)) [] entries"

text \<open>Without shared folders the rules are always built, so the error branch is never taken.\<close>

definition roleGrantsFolderAccess ::
  "(rule list \<Rightarrow> string \<Rightarrow> string \<Rightarrow> object \<Rightarrow> bool) \<Rightarrow> ('p \<Rightarrow> rule list) \<Rightarrow> 'p TDistinctProjectRole \<Rightarrow>
   TResolvedFolder \<Rightarrow> bool" where
  "roleGrantsFolderAccess casl unpack role folder =
     (case buildProjectPermissionRules (case_option [] unpack)
            [case role of CustomRole key slug ps \<Rightarrow> \<lparr>role_name = ''custom'', role_permissions = ps\<rparr>
             | BuiltInRole key slug \<Rightarrow> \<lparr>role_name = slug, role_permissions = None\<rparr>]
            (Some ''secret-manager'') None of
        Inl e \<Rightarrow> False
      | Inr rs \<Rightarrow> list_ex (\<lambda>(action, sub). casl rs action sub (secret_place (folder_env folder) (folder_path folder)))
                  FOLDER_ACCESS_PROBES)"

definition toCachedProjectMemberRole :: "'p TProjectMemberRoleRow \<Rightarrow> TCachedProjectMemberRole option" where
  "toCachedProjectMemberRole row =
     (if row_role row = ''custom'' then
        (case (customRoleId row, customRoleSlug row, customRoleName row) of
           (Some i, Some slug, Some name) \<Rightarrow>
             if i = [] \<or> slug = [] \<or> name = [] then None
             else Some \<lparr>far_id = Some i, far_slug = slug, far_name = name, cr_isTemporary = row_isTemporary row,
                        cr_temporaryAccessEndTime = row_temporaryAccessEndTime row\<rparr>
         | _ \<Rightarrow> None)
      else Some \<lparr>far_id = None, far_slug = row_role row,
             far_name = (case BUILT_IN_PROJECT_ROLE_NAMES (row_role row) of Some n \<Rightarrow> n | None \<Rightarrow> row_role row),
             cr_isTemporary = row_isTemporary row, cr_temporaryAccessEndTime = row_temporaryAccessEndTime row\<rparr>)"

definition buildFolderAccess ::
  "(rule list \<Rightarrow> string \<Rightarrow> string \<Rightarrow> object \<Rightarrow> bool) \<Rightarrow> ('p \<Rightarrow> rule list) \<Rightarrow> ('a, 'p) TProjectMember list \<Rightarrow>
   TResolvedFolder \<Rightarrow> nat \<Rightarrow> 'a TCachedFolderAccess" where
  "buildFolderAccess casl unpack entries folder members =
     \<lparr>actors = map (\<lambda>e. \<lparr>ca_actor = pm_actor e, ca_roles = List.map_filter toCachedProjectMemberRole (pm_roles e)\<rparr>) entries,
      grantingRoleKeys = map role_key (filter (\<lambda>role. roleGrantsFolderAccess casl unpack role folder)
                                         (collectDistinctRoles entries)),
      totalCount = members\<rparr>"

section \<open>The split\<close>

definition isRoleActiveAt :: "TCachedProjectMemberRole \<Rightarrow> int \<Rightarrow> bool" where
  "isRoleActiveAt role now \<longleftrightarrow> \<not> cr_isTemporary role \<or>
     (case cr_temporaryAccessEndTime role of Some t \<Rightarrow> now < t | None \<Rightarrow> False)"

definition isBuiltInAdmin :: "'z TFolderAccessRole_scheme \<Rightarrow> bool" where
  "isBuiltInAdmin role \<longleftrightarrow> far_id role = None \<and> far_slug role = ''admin''"

fun unique_from :: "string set \<Rightarrow> TCachedProjectMemberRole list \<Rightarrow> TCachedProjectMemberRole list" where
  "unique_from seen [] = []"
| "unique_from seen (role # roles) =
     (let key = folderAccessRoleKey role
      in if key \<in> seen then unique_from seen roles else role # unique_from (insert key seen) roles)"

definition uniqueByKey :: "TCachedProjectMemberRole list \<Rightarrow> TCachedProjectMemberRole list" where
  "uniqueByKey roles = unique_from {} roles"

definition toPublicRole :: "TCachedProjectMemberRole \<Rightarrow> TFolderAccessRole" where
  "toPublicRole role = \<lparr>far_id = far_id role, far_slug = far_slug role, far_name = far_name role\<rparr>"

definition access_entry ::
  "string list \<Rightarrow> (string \<Rightarrow> privilege option) \<Rightarrow> ('a \<Rightarrow> string) \<Rightarrow> ('a \<Rightarrow> string option) \<Rightarrow> int \<Rightarrow>
   'a cached_actor \<Rightarrow> bool \<times> 'a TFolderAccessEntry" where
  "access_entry granting grantByActorId actorIdOf membershipId now a =
     (let activeRoles = uniqueByKey (filter (\<lambda>role. isRoleActiveAt role now) (ca_roles a));
          isProjectAdmin = list_ex isBuiltInAdmin activeRoles;
          grantingRoles = filter (\<lambda>role. folderAccessRoleKey role \<in> set granting) activeRoles;
          grant = grantByActorId (actorIdOf (ca_actor a))
      in if isProjectAdmin \<or> grantingRoles \<noteq> [] \<or> grant \<noteq> None
         then (True, \<lparr>fe_actor = ca_actor a, fe_membershipId = membershipId (ca_actor a),
                fe_isProjectAdmin = isProjectAdmin, fe_roles = map toPublicRole grantingRoles, fe_grant = grant\<rparr>)
         else (False, \<lparr>fe_actor = ca_actor a, fe_membershipId = membershipId (ca_actor a),
                fe_isProjectAdmin = isProjectAdmin, fe_roles = map toPublicRole activeRoles, fe_grant = None\<rparr>))"

definition splitFolderAccess ::
  "'a TCachedFolderAccess \<Rightarrow> (string \<Rightarrow> privilege option) \<Rightarrow> ('a \<Rightarrow> string) \<Rightarrow> ('a \<Rightarrow> string option) \<Rightarrow> int \<Rightarrow>
   'a TFolderAccessEntry list \<times> 'a TFolderAccessEntry list" where
  "splitFolderAccess folderAccess grantByActorId actorIdOf membershipId now =
     foldl (\<lambda>(withAccess, withoutAccess) a.
         case access_entry (grantingRoleKeys folderAccess) grantByActorId actorIdOf membershipId now a of
           (True, e) \<Rightarrow> (withAccess @ [e], withoutAccess)
         | (False, e) \<Rightarrow> (withAccess, withoutAccess @ [e]))
       ([], []) (actors folderAccess)"

section \<open>The listings\<close>

record TFolderGrant =
  fg_id :: string
  fg_projectId :: string
  fg_folderId :: string
  fg_permission :: "string option"
  fg_environment :: string
  fg_secretPath :: string
  fg_temp :: temporary_fields

definition toFolderGrant :: "privilege \<Rightarrow> string \<Rightarrow> TResolvedFolder \<Rightarrow> TFolderGrant" where
  "toFolderGrant row projectId folder =
     \<lparr>fg_id = pv_id row, fg_projectId = projectId, fg_folderId = folder_id folder, fg_permission = pv_role row,
      fg_environment = folder_env folder, fg_secretPath = folder_path folder, fg_temp = pv_temp row\<rparr>"

definition actor_column :: "ActorType \<Rightarrow> privilege \<Rightarrow> string option" where
  "actor_column t r = (case t of USER \<Rightarrow> pv_actorUserId r | IDENTITY \<Rightarrow> pv_actorIdentityId r)"

text \<open>The shares of a folder by actor. Of two rows with one actor the later one counts.\<close>

definition grants_by_actor :: "privilege list \<Rightarrow> string \<Rightarrow> string \<Rightarrow> ActorType \<Rightarrow> string \<Rightarrow> privilege option" where
  "grants_by_actor rs projectId folderId t =
     (let grants = filter (\<lambda>r. pv_projectId r = Some projectId \<and> pv_folderId r = Some folderId \<and>
                          actor_column t r \<noteq> None) rs
      in (\<lambda>i. find (\<lambda>r. actor_column t r = Some i) (rev (filter (\<lambda>r. truthy (pv_role r)) grants))))"

record 'a access_item =
  ai_entry :: "'a TFolderAccessEntry"
  ai_folderRBACAccess :: "TFolderGrant option"

definition listFolderAccessActors ::
  "folder_deps \<Rightarrow> (rule list \<Rightarrow> string \<Rightarrow> string \<Rightarrow> object \<Rightarrow> bool) \<Rightarrow> ('p \<Rightarrow> rule list) \<Rightarrow>
   ('a, 'p) TProjectMember list \<times> nat \<Rightarrow> ('a \<Rightarrow> string) \<Rightarrow> ('a \<Rightarrow> string option) \<Rightarrow> ActorType \<Rightarrow> int \<Rightarrow>
   string \<Rightarrow> string \<Rightarrow> string \<Rightarrow> string \<Rightarrow> string \<Rightarrow> grants_state \<Rightarrow>
   grant_error + 'a access_item list \<times> 'a access_item list \<times> nat" where
  "listFolderAccessActors deps casl unpack page actorIdOf membershipId t now
      caller orgId projectId environmentSlug secretPath st =
     rbind (assertFolderRbacLicensed deps orgId) (\<lambda>_.
     rbind (getFolderAccessPermission deps caller projectId) (\<lambda>callerPermission.
     rbind (resolveFolder deps projectId environmentSlug secretPath) (\<lambda>folder.
     rbind (assertManageFolderAccess callerPermission folder) (\<lambda>_.
       let folderAccess = buildFolderAccess casl unpack (fst page) folder (snd page);
           grantByActorId = grants_by_actor (privileges st) projectId (folder_id folder) t;
           toItem = (\<lambda>e. \<lparr>ai_entry = e,
             ai_folderRBACAccess = map_option (\<lambda>g. toFolderGrant g projectId folder) (fe_grant e)\<rparr>)
       in case splitFolderAccess folderAccess grantByActorId actorIdOf membershipId now of
            (withAccess, withoutAccess) \<Rightarrow>
              Inr (map toItem withAccess, map toItem withoutAccess, totalCount folderAccess)))))"

text \<open>
  The shares of one actor; \<open>paths\<close> looks up the folders in the order of the ids it is given and
  \<open>by_place\<close> is the final sort by environment and path in the collation of the locale.
\<close>

definition listActorFolderGrants ::
  "folder_deps \<Rightarrow> (string list \<Rightarrow> TResolvedFolder option list) \<Rightarrow> (TFolderGrant list \<Rightarrow> TFolderGrant list) \<Rightarrow>
   string \<Rightarrow> string \<Rightarrow> string \<Rightarrow> TFolderGrantActor \<Rightarrow> grants_state \<Rightarrow> grant_error + TFolderGrant list" where
  "listActorFolderGrants deps paths by_place caller orgId projectId t st =
     rbind (assertFolderRbacLicensed deps orgId) (\<lambda>_.
     rbind (getFolderAccessPermission deps caller projectId) (\<lambda>callerPermission.
     rbind (assertReadActorGrantsAccess callerPermission t) (\<lambda>_.
       let rows = filter (\<lambda>r. pv_projectId r = Some projectId \<and> targets t r \<and> pv_folderId r \<noteq> None) (privileges st);
           grantRows = filter (\<lambda>r. truthy (pv_role r)) rows
       in if grantRows = [] then Inr []
          else let folders = paths (List.map_filter pv_folderId grantRows)
               in Inr (by_place (List.map_filter
                    (\<lambda>(row, folder). map_option (toFolderGrant row projectId) folder) (zip grantRows folders))))))"

section \<open>What the split decides\<close>

lemma foldl_concat_map: "foldl f b (concat (map g xs)) = foldl (\<lambda>b x. foldl f b (g x)) b xs"
  by (induction xs arbitrary: b) simp_all

lemma collect_rows: "collectDistinctRoles entries = foldl collect_row [] (concat (map pm_roles entries))"
  unfolding collectDistinctRoles_def by (rule foldl_concat_map [symmetric])

lemma collect_row_set: "role \<in> set (collect_row bs row) \<Longrightarrow> role \<in> set bs \<or> distinct_role_of row = Some role"
  by (auto simp: collect_row_def split: option.splits if_splits)

lemma collected_are_rows:
  "role \<in> set (foldl collect_row bs rows) \<Longrightarrow>
     role \<in> set bs \<or> (\<exists>row \<in> set rows. distinct_role_of row = Some role)"
proof (induction rows arbitrary: bs)
  case (Cons row rows)
  then have "role \<in> set (foldl collect_row (collect_row bs row) rows)" by simp
  from Cons.IH [OF this] collect_row_set [of role bs row] show ?case by auto
qed simp

lemma collected_keys:
  "role_key ` set (foldl collect_row bs rows) =
     role_key ` set bs \<union> {role_key role |role. \<exists>row \<in> set rows. distinct_role_of row = Some role}"
proof (induction rows arbitrary: bs)
  case (Cons row rows)
  show ?case
    by (simp add: Cons.IH) (auto simp: collect_row_def split: option.splits if_splits)
qed simp

text \<open>Rows with one key name one role: the key is the id of a custom role or the name of a built-in one.\<close>

definition keys_determine_roles :: "('a, 'p) TProjectMember list \<Rightarrow> bool" where
  "keys_determine_roles entries \<longleftrightarrow>
     (\<forall>r \<in> set (concat (map pm_roles entries)). \<forall>r' \<in> set (concat (map pm_roles entries)).
        case (distinct_role_of r, distinct_role_of r') of
          (Some role, Some role') \<Rightarrow> role_key role \<noteq> role_key role' \<or> role = role'
        | _ \<Rightarrow> True)"

lemma keys_determine_rolesD:
  assumes "keys_determine_roles entries" "e \<in> set entries" "r \<in> set (pm_roles e)" "e' \<in> set entries" "r' \<in> set (pm_roles e')"
    "distinct_role_of r = Some role" "distinct_role_of r' = Some role'" "role_key role = role_key role'"
  shows "role = role'"
proof -
  have "r \<in> set (concat (map pm_roles entries))" "r' \<in> set (concat (map pm_roles entries))"
    using assms(2-5) by auto
  with assms(1) have "case (distinct_role_of r, distinct_role_of r') of
      (Some role, Some role') \<Rightarrow> role_key role \<noteq> role_key role' \<or> role = role' | _ \<Rightarrow> True"
    unfolding keys_determine_roles_def by blast
  with assms(6-8) show ?thesis by simp
qed

definition role_row_active :: "int \<Rightarrow> 'p TProjectMemberRoleRow \<Rightarrow> bool" where
  "role_row_active now row \<longleftrightarrow> \<not> row_isTemporary row \<or>
     (\<exists>t. row_temporaryAccessEndTime row = Some t \<and> now < t)"

definition role_row_reaches ::
  "(rule list \<Rightarrow> string \<Rightarrow> string \<Rightarrow> object \<Rightarrow> bool) \<Rightarrow> ('p \<Rightarrow> rule list) \<Rightarrow> TResolvedFolder \<Rightarrow>
   'p TProjectMemberRoleRow \<Rightarrow> bool" where
  "role_row_reaches casl unpack folder row \<longleftrightarrow>
     row_role row = ''admin'' \<or>
     toCachedProjectMemberRole row \<noteq> None \<and>
     (\<exists>role. distinct_role_of row = Some role \<and> roleGrantsFolderAccess casl unpack role folder)"

lemma cached_roleE:
  assumes "toCachedProjectMemberRole row = Some c"
  obtains role where "distinct_role_of row = Some role" "folderAccessRoleKey c = role_key role"
    "isBuiltInAdmin c \<longleftrightarrow> role = BuiltInRole ''admin'' ''admin''" "isRoleActiveAt c now \<longleftrightarrow> role_row_active now row"
    "isBuiltInAdmin c \<longleftrightarrow> row_role row = ''admin''"
proof -
  from assms have "isRoleActiveAt c now \<longleftrightarrow> role_row_active now row"
    by (auto simp: toCachedProjectMemberRole_def isRoleActiveAt_def role_row_active_def
        split: if_splits option.splits)
  with assms that show ?thesis
    by (auto simp: toCachedProjectMemberRole_def distinct_role_of_def folderAccessRoleKey_def isBuiltInAdmin_def
        split: if_splits option.splits)
qed

lemma cached_admin: "row_role row = ''admin'' \<Longrightarrow> toCachedProjectMemberRole row \<noteq> None"
  by (simp add: toCachedProjectMemberRole_def)

lemma unique_from_subset: "x \<in> set (unique_from seen roles) \<Longrightarrow> x \<in> set roles"
  by (induction seen roles rule: unique_from.induct) (auto simp: Let_def split: if_splits)

lemma unique_from_covers:
  "x \<in> set roles \<Longrightarrow> folderAccessRoleKey x \<notin> seen \<Longrightarrow>
     \<exists>y \<in> set (unique_from seen roles). folderAccessRoleKey y = folderAccessRoleKey x"
  by (induction seen roles rule: unique_from.induct) (force simp: Let_def)+

text \<open>A test that depends on the key alone holds of some role after duplicates are dropped as before.\<close>

lemma list_ex_unique:
  assumes "\<And>x y. x \<in> set roles \<Longrightarrow> y \<in> set roles \<Longrightarrow> folderAccessRoleKey x = folderAccessRoleKey y \<Longrightarrow> P x = P y"
  shows "list_ex P (uniqueByKey roles) \<longleftrightarrow> list_ex P roles"
proof
  assume "list_ex P (uniqueByKey roles)"
  then show "list_ex P roles" using unique_from_subset by (auto simp: list_ex_iff uniqueByKey_def)
next
  assume "list_ex P roles"
  then obtain x where x: "x \<in> set roles" "P x" by (auto simp: list_ex_iff)
  from unique_from_covers [OF x(1), of "{}"] obtain y where
    y: "y \<in> set (uniqueByKey roles)" "folderAccessRoleKey y = folderAccessRoleKey x" by (auto simp: uniqueByKey_def)
  with assms [of y x] x unique_from_subset show "list_ex P (uniqueByKey roles)"
    by (auto simp: list_ex_iff uniqueByKey_def)
qed

lemma granting_keys:
  assumes "keys_determine_roles entries" "e \<in> set entries" "row \<in> set (pm_roles e)" "distinct_role_of row = Some role"
  shows "role_key role \<in> set (grantingRoleKeys (buildFolderAccess casl unpack entries folder n)) \<longleftrightarrow>
    roleGrantsFolderAccess casl unpack role folder"
proof -
  have same: "role' = role" if collected: "role' \<in> set (collectDistinctRoles entries)" and key: "role_key role' = role_key role" for role'
  proof -
    from collected_are_rows [OF collected [unfolded collect_rows]]
    obtain row' where "row' \<in> set (concat (map pm_roles entries))" and d: "distinct_role_of row' = Some role'"
      by auto
    then obtain e' where "e' \<in> set entries" "row' \<in> set (pm_roles e')" by auto
    from keys_determine_rolesD [OF assms(1) this assms(2,3) d assms(4) key] show ?thesis .
  qed
  have "role_key role \<in> role_key ` set (collectDistinctRoles entries)"
    using assms(2-4) by (auto simp: collect_rows collected_keys)
  then obtain role' where "role' \<in> set (collectDistinctRoles entries)" "role_key role' = role_key role" by auto
  with same [of role'] have "role \<in> set (collectDistinctRoles entries)" by simp
  with same show ?thesis by (auto simp: buildFolderAccess_def)
qed

lemma in_map_filter: "y \<in> set (List.map_filter f xs) \<longleftrightarrow> (\<exists>x \<in> set xs. f x = Some y)"
  by (force simp: List.map_filter_def)

lemma list_ex_filter_iff: "list_ex P (filter Q xs) \<longleftrightarrow> (\<exists>x \<in> set xs. Q x \<and> P x)"
  by (auto simp: list_ex_iff)

lemma active_roles_decide:
  fixes now :: int and n :: nat and casl :: "rule list \<Rightarrow> string \<Rightarrow> string \<Rightarrow> object \<Rightarrow> bool"
    and unpack :: "'p \<Rightarrow> rule list" and entries :: "('a, 'p) TProjectMember list" and folder :: TResolvedFolder
  assumes keys: "keys_determine_roles entries" and e: "e \<in> set entries"
  defines "active \<equiv> uniqueByKey (filter (\<lambda>r. isRoleActiveAt r now)
      (List.map_filter toCachedProjectMemberRole (pm_roles e)))"
    and "granting \<equiv> grantingRoleKeys (buildFolderAccess casl unpack entries folder n)"
  shows "list_ex isBuiltInAdmin active \<or> list_ex (\<lambda>r. folderAccessRoleKey r \<in> set granting) active \<longleftrightarrow>
    (\<exists>row \<in> set (pm_roles e). role_row_active now row \<and> role_row_reaches casl unpack folder row)"
proof -
  let ?roles = "filter (\<lambda>r. isRoleActiveAt r now) (List.map_filter toCachedProjectMemberRole (pm_roles e))"
  have from_row: "\<exists>row \<in> set (pm_roles e). toCachedProjectMemberRole row = Some x" if "x \<in> set ?roles" for x
    using that by (auto simp: in_map_filter)
  have adm: "isBuiltInAdmin x = isBuiltInAdmin y"
    if "x \<in> set ?roles" "y \<in> set ?roles" "folderAccessRoleKey x = folderAccessRoleKey y" for x y
  proof -
    from from_row [OF that(1)] obtain r where r: "r \<in> set (pm_roles e)" "toCachedProjectMemberRole r = Some x" by blast
    from from_row [OF that(2)] obtain r' where r': "r' \<in> set (pm_roles e)" "toCachedProjectMemberRole r' = Some y" by blast
    from cached_roleE [OF r(2)] obtain role where role: "distinct_role_of r = Some role"
      "folderAccessRoleKey x = role_key role" "isBuiltInAdmin x \<longleftrightarrow> role = BuiltInRole ''admin'' ''admin''" by metis
    from cached_roleE [OF r'(2)] obtain role' where role': "distinct_role_of r' = Some role'"
      "folderAccessRoleKey y = role_key role'" "isBuiltInAdmin y \<longleftrightarrow> role' = BuiltInRole ''admin'' ''admin''" by metis
    have "role = role'"
      using keys_determine_rolesD [OF keys e r(1) e r'(1) role(1) role'(1)] that(3) role(2) role'(2) by simp
    with role(3) role'(3) show ?thesis by simp
  qed
  have admin: "list_ex isBuiltInAdmin active \<longleftrightarrow> list_ex isBuiltInAdmin ?roles"
    unfolding active_def by (rule list_ex_unique) (rule adm)
  have grant: "list_ex (\<lambda>r. folderAccessRoleKey r \<in> set granting) active \<longleftrightarrow>
      list_ex (\<lambda>r. folderAccessRoleKey r \<in> set granting) ?roles"
    unfolding active_def by (rule list_ex_unique) simp
  have "isRoleActiveAt c now \<and> (isBuiltInAdmin c \<or> folderAccessRoleKey c \<in> set granting) \<longleftrightarrow>
      role_row_active now row \<and> role_row_reaches casl unpack folder row"
    if "row \<in> set (pm_roles e)" "toCachedProjectMemberRole row = Some c" for row c
    using cached_roleE [OF that(2)] granting_keys [OF keys e that(1)] that(2)
    unfolding granting_def role_row_reaches_def by (metis option.inject option.distinct(1))
  then have decide: "(\<exists>c. toCachedProjectMemberRole row = Some c \<and> isRoleActiveAt c now \<and>
        (isBuiltInAdmin c \<or> folderAccessRoleKey c \<in> set granting)) \<longleftrightarrow>
      role_row_active now row \<and> role_row_reaches casl unpack folder row" if "row \<in> set (pm_roles e)" for row
    using that cached_admin [of row] unfolding role_row_reaches_def
    by (cases "toCachedProjectMemberRole row") auto
  have "(\<exists>row \<in> set (pm_roles e). role_row_active now row \<and> role_row_reaches casl unpack folder row) \<longleftrightarrow>
      (\<exists>row \<in> set (pm_roles e). \<exists>c. toCachedProjectMemberRole row = Some c \<and> isRoleActiveAt c now \<and>
        (isBuiltInAdmin c \<or> folderAccessRoleKey c \<in> set granting))"
    using decide by (intro bex_cong) auto
  also have "\<dots> \<longleftrightarrow> list_ex isBuiltInAdmin ?roles \<or> list_ex (\<lambda>r. folderAccessRoleKey r \<in> set granting) ?roles"
    unfolding list_ex_filter_iff Bex_def in_map_filter by blast
  finally show ?thesis using admin grant by simp
qed

lemma split_filters:
  "splitFolderAccess fa shares actorIdOf membershipId now =
     (let es = map (access_entry (grantingRoleKeys fa) shares actorIdOf membershipId now) (actors fa)
      in (map snd (filter fst es), map snd (filter (\<lambda>e. \<not> fst e) es)))"
proof -
  let ?entry = "access_entry (grantingRoleKeys fa) shares actorIdOf membershipId now"
  have "foldl (\<lambda>(w, wo) a. case ?entry a of (True, e) \<Rightarrow> (w @ [e], wo) | (False, e) \<Rightarrow> (w, wo @ [e])) (w, wo) as =
      (w @ map snd (filter fst (map ?entry as)), wo @ map snd (filter (\<lambda>e. \<not> fst e) (map ?entry as)))" for w wo as
  proof (induction as arbitrary: w wo)
    case (Cons a as)
    obtain b e where "?entry a = (b, e)" by (cases "?entry a")
    with Cons.IH show ?case by (cases b) simp_all
  qed simp
  then show ?thesis by (simp add: splitFolderAccess_def Let_def)
qed

lemma access_entry_actor:
  "fe_actor (snd (access_entry granting shares actorIdOf membershipId now a)) = ca_actor a"
  by (simp add: access_entry_def Let_def)

lemma access_entry_grants:
  "fst (access_entry granting shares actorIdOf membershipId now a) \<longleftrightarrow>
     shares (actorIdOf (ca_actor a)) \<noteq> None \<or>
     list_ex isBuiltInAdmin (uniqueByKey (filter (\<lambda>role. isRoleActiveAt role now) (ca_roles a))) \<or>
     list_ex (\<lambda>r. folderAccessRoleKey r \<in> set granting)
       (uniqueByKey (filter (\<lambda>role. isRoleActiveAt role now) (ca_roles a)))"
  by (auto simp: access_entry_def Let_def list_ex_iff filter_empty_conv)

text \<open>
  The listing puts every member of the page in exactly one of its two lists, in the order of the
  page: with access are those who hold a share of the folder or, by a role that has not expired, are
  admin of the project or may do something under the folder that shares can grant.
\<close>

theorem folder_access_lists:
  assumes "keys_determine_roles entries"
    and "splitFolderAccess (buildFolderAccess casl unpack entries folder n) shares actorIdOf membershipId now =
      (withAccess, withoutAccess)"
  defines "reaches \<equiv> \<lambda>e. shares (actorIdOf (pm_actor e)) \<noteq> None \<or>
      (\<exists>row \<in> set (pm_roles e). role_row_active now row \<and> role_row_reaches casl unpack folder row)"
  shows "map fe_actor withAccess = map pm_actor (filter reaches entries) \<and>
    map fe_actor withoutAccess = map pm_actor (filter (\<lambda>e. \<not> reaches e) entries)"
proof -
  let ?fa = "buildFolderAccess casl unpack entries folder n"
  let ?as = "\<lambda>e. \<lparr>ca_actor = pm_actor e, ca_roles = List.map_filter toCachedProjectMemberRole (pm_roles e)\<rparr>"
  let ?entry = "access_entry (grantingRoleKeys ?fa) shares actorIdOf membershipId now"
  have actors: "actors ?fa = map ?as entries" by (simp add: buildFolderAccess_def)
  have decides: "fst (?entry (?as e)) \<longleftrightarrow> reaches e" if "e \<in> set entries" for e
    using active_roles_decide [OF assms(1) that, of now casl unpack folder n]
    by (simp add: access_entry_grants reaches_def)
  from assms(2) have "withAccess = map snd (filter fst (map ?entry (actors ?fa)))"
    "withoutAccess = map snd (filter (\<lambda>e. \<not> fst e) (map ?entry (actors ?fa)))"
    by (simp_all add: split_filters Let_def)
  then have "map fe_actor withAccess = map pm_actor (filter (\<lambda>e. fst (?entry (?as e))) entries)"
    "map fe_actor withoutAccess = map pm_actor (filter (\<lambda>e. \<not> fst (?entry (?as e))) entries)"
    by (simp_all add: actors filter_map comp_def access_entry_actor)
  moreover from decides have "filter (\<lambda>e. fst (?entry (?as e))) entries = filter reaches entries"
    "filter (\<lambda>e. \<not> fst (?entry (?as e))) entries = filter (\<lambda>e. \<not> reaches e) entries"
    by (auto intro: filter_cong)
  ultimately show ?thesis by simp
qed

definition example_members :: "(string, unit) TProjectMember list" where
  "example_members =
     (let row = \<lparr>row_role = ''no-access'', customRoleId = None, customRoleSlug = None, customRoleName = None,
            customRolePermissions = None, row_isTemporary = False, row_temporaryAccessEndTime = None\<rparr>
      in [\<lparr>pm_actor = ''root'', pm_roles = [row\<lparr>row_role := ''admin''\<rparr>]\<rparr>,
          \<lparr>pm_actor = ''late'', pm_roles = [row\<lparr>row_role := ''admin'', row_isTemporary := True,
              row_temporaryAccessEndTime := Some 5\<rparr>]\<rparr>,
          \<lparr>pm_actor = ''bob'', pm_roles = [row]\<rparr>, \<lparr>pm_actor = ''eve'', pm_roles = [row]\<rparr>])"

lemma admin_reaches: "row_role row = ''admin'' \<Longrightarrow> role_row_reaches casl unpack folder row"
  by (simp add: role_row_reaches_def)

lemma no_access_reaches_nothing:
  "\<not> role_row_reaches (last_match isM om) unpack folder
     \<lparr>row_role = ''no-access'', customRoleId = None, customRoleSlug = None, customRoleName = None,
      customRolePermissions = None, row_isTemporary = t, row_temporaryAccessEndTime = e\<rparr>"
  by (simp add: role_row_reaches_def distinct_role_of_def roleGrantsFolderAccess_def base_rules role_rules_def
      projectNoAccessPermissions_def buildNoAccessProjectPermission_def expandLegacyForbidActions_def denies_last_def list_ex_iff case_prod_unfold)

theorem folder_access_lists_witness:
  "\<exists>withAccess withoutAccess. map fe_actor withAccess = [''root'', ''bob''] \<and>
     map fe_actor (withoutAccess :: string TFolderAccessEntry list) = [''late'', ''eve''] \<and>
     splitFolderAccess (buildFolderAccess (last_match (\<lambda>v g. False) (\<lambda>k x v. False)) (\<lambda>u. []) example_members
       \<lparr>folder_id = ''f1'', folder_path = ''/a'', folder_env = ''dev''\<rparr> 4)
       (\<lambda>i. if i = ''bob'' then Some example_row else None) (\<lambda>a. a) (\<lambda>a. None) 9 = (withAccess, withoutAccess)"
proof -
  let ?split = "splitFolderAccess (buildFolderAccess (last_match (\<lambda>v g. False) (\<lambda>k x v. False)) (\<lambda>u. []) example_members
       \<lparr>folder_id = ''f1'', folder_path = ''/a'', folder_env = ''dev''\<rparr> 4)
       (\<lambda>i. if i = ''bob'' then Some example_row else None) (\<lambda>a. a) (\<lambda>a. None) 9"
  obtain w wo where split: "?split = (w, wo)" by (cases ?split)
  have keys: "keys_determine_roles example_members"
    by (simp add: keys_determine_roles_def example_members_def distinct_role_of_def Let_def)
  from folder_access_lists [OF keys split] split show ?thesis
    by (intro exI [of _ w] exI [of _ wo])
      (simp add: example_members_def role_row_active_def no_access_reaches_nothing admin_reaches Let_def)
qed

end
