(* ===== verification/SecretReference.thy ===== *)
theory SecretReference
  imports Prelude "HOL-Library.Multiset_Order"
begin

text \<open>
  References between secrets (\<open>backend/src/services/secret-v2-bridge/secret-reference-fns.ts\<close>): finding
  the references \<open>${...}\<close> of a value, reading the secrets they name through the cache of the factory,
  and expanding a value by a depth-first walk over an explicit stack.

  The database, the decryption and the permission check are the fields of \<^theory_text>\<open>reference_deps\<close>; a call
  that may throw returns \<open>Inl ()\<close> for the exception. They answer the same during one expansion. The
  objects of the code are taken as maps, so keys are meant to avoid the members of
  \<open>Object.prototype\<close>. Calls of one factory run one after the other.
\<close>

section \<open>References in a value\<close>

text \<open>The class \<open>[a-zA-Z0-9-_.@]\<close> and the pattern \<open>\${([a-zA-Z0-9-_.@]+)}\<close>.\<close>

definition ref_char :: "char \<Rightarrow> bool" where
  "ref_char c \<longleftrightarrow> (let n = of_char c :: nat in
     (97 \<le> n \<and> n \<le> 122) \<or> (65 \<le> n \<and> n \<le> 90) \<or> (48 \<le> n \<and> n \<le> 57) \<or> n = 45 \<or> n = 95 \<or> n = 46 \<or> n = 64)"

definition match_at :: "string \<Rightarrow> (string \<times> string) option" where
  "match_at s =
     (case s of
        a # b # r \<Rightarrow>
          if a = CHR ''$'' \<and> b = CHR ''{'' then
            (let name = takeWhile ref_char r
             in case dropWhile ref_char r of
                  c # rest \<Rightarrow> if c = CHR ''}'' \<and> name \<noteq> [] then Some (name, rest) else None
                | [] \<Rightarrow> None)
          else None
      | _ \<Rightarrow> None)"

lemma match_at_shorter: "match_at s = Some (name, rest) \<Longrightarrow> length rest < length s"
proof -
  assume m: "match_at s = Some (name, rest)"
  then obtain a b r where s: "s = a # b # r" by (auto simp: match_at_def split: list.splits)
  with m have "\<exists>c. dropWhile ref_char r = c # rest"
    by (auto simp: match_at_def Let_def split: list.splits if_splits)
  then have "length rest < length r" using length_dropWhile_le [of ref_char r] by auto
  with s show ?thesis by simp
qed

text \<open>The names captured by all matches, from left to right.\<close>

function references :: "string \<Rightarrow> string list" where
  "references [] = []"
| "references (c # s) =
     (case match_at (c # s) of
        Some (name, rest) \<Rightarrow> name # references rest
      | None \<Rightarrow> references s)"
  by pat_completeness auto
termination
  by (relation "measure length") (auto dest: match_at_shorter)

definition interpolation :: "string \<Rightarrow> string" where
  "interpolation name = ''${'' @ name @ ''}''"

definition containsSecretReference :: "string \<Rightarrow> bool" where
  "containsSecretReference v \<longleftrightarrow> references v \<noteq> []"

text \<open>\<open>path.posix.join("/", ...parts)\<close> for parts that contain neither a dot nor a slash.\<close>

definition path_join :: "string list \<Rightarrow> string" where
  "path_join parts = CHR ''/'' # join_char (CHR ''/'') (filter (\<lambda>p. p \<noteq> []) parts)"

record nested_reference =
  targetProjectSlug :: "string option"
  nr_environment :: "string option"
  nr_secretPath :: string
  nr_secretKey :: "string option"

definition nth_opt :: "'a list \<Rightarrow> nat \<Rightarrow> 'a option" where
  "nth_opt xs i = (if i < length xs then Some (xs ! i) else None)"

definition last_opt :: "'a list \<Rightarrow> 'a option" where
  "last_opt xs = (if xs = [] then None else Some (last xs))"

definition nested_reference_of :: "string \<Rightarrow> nested_reference" where
  "nested_reference_of el =
     (let parts = split_char (CHR ''.'') el
      in if starts_with (hd parts) ''@'' then
           \<lparr>targetProjectSlug = Some (tl (hd parts)), nr_environment = nth_opt parts 1,
            nr_secretPath = path_join (butlast (drop 2 parts)), nr_secretKey = last_opt (drop 2 parts)\<rparr>
         else
           \<lparr>targetProjectSlug = None, nr_environment = Some (hd parts),
            nr_secretPath = path_join (butlast (tl parts)), nr_secretKey = last_opt (tl parts)\<rparr>)"

definition getAllSecretReferences :: "string \<Rightarrow> nested_reference list \<times> string list" where
  "getAllSecretReferences v =
     (map nested_reference_of (filter (\<lambda>el. CHR ''.'' \<in> set el) (references v)),
      filter (\<lambda>el. CHR ''.'' \<notin> set el) (references v))"

text \<open>\<open>s.replaceAll(pattern, () => r)\<close> for a non-empty pattern.\<close>

function replaceAll :: "string \<Rightarrow> string \<Rightarrow> string \<Rightarrow> string" where
  "replaceAll pattern r [] = []"
| "replaceAll pattern r (c # s) =
     (if pattern \<noteq> [] \<and> starts_with (c # s) pattern then r @ replaceAll pattern r (drop (length pattern) (c # s))
      else c # replaceAll pattern r s)"
  by pat_completeness auto
termination
  by (relation "measure (\<lambda>(pattern, r, s). length s)") (auto simp: neq_Nil_conv)

definition formatMultiValueEnv :: "string option \<Rightarrow> string" where
  "formatMultiValueEnv val =
     (case val of None \<Rightarrow> []
      | Some v \<Rightarrow> if v = [] then [] else if CHR 0x0A \<notin> set v then v
          else ''\"'' @ replaceAll [CHR 0x0A] [CHR 0x5C, CHR ''n''] v @ ''\"'')"

section \<open>Reading secrets through the cache\<close>

record secret_read =
  sr_value :: string
  sr_tags :: "string list option"
  sr_exists :: bool

definition missing_secret :: secret_read where
  "missing_secret = \<lparr>sr_value = [], sr_tags = Some [], sr_exists = False\<rparr>"

record 'c secret_row =
  sec_key :: string
  sec_userId :: "string option"
  sec_encryptedValue :: "'c option"
  sec_tags :: "string list option"

text \<open>The six optional arguments that together allow references to other projects.\<close>

record 'c cross_project_deps =
  plan_crossProjectSecretSharing :: bool
  org_allowCrossProjectSecretSharing :: "bool option"
  orgProjects :: "(string \<times> string) list"
  findFolderGrants :: "string \<Rightarrow> string \<Rightarrow> unit + bool"
  sourceDecryptor :: "string \<Rightarrow> unit + ('c option \<Rightarrow> unit + string)"
  crossProjectSecrets :: "string \<Rightarrow> unit + 'c secret_row list"

record 'c reference_deps =
  decryptSecret :: "'c option \<Rightarrow> unit + string option"
  findByFolderId :: "string \<Rightarrow> string option \<Rightarrow> unit + 'c secret_row list"
  findBySecretPath :: "string \<Rightarrow> string \<Rightarrow> string \<Rightarrow> unit + string option"
  projectId :: string
  canExpandValue :: "string \<Rightarrow> string \<Rightarrow> string \<Rightarrow> string list option \<Rightarrow> bool"
  userId :: "string option"
  cross_project :: "'c cross_project_deps option"

type_synonym secret_folder = "string \<Rightarrow> secret_read option"

record ref_state =
  secretCache :: "string \<Rightarrow> secret_folder option"
  slugToProjectId :: "string \<Rightarrow> string option option"

definition isCrossProjectEnabled :: "'c cross_project_deps \<Rightarrow> bool" where
  "isCrossProjectEnabled cfg \<longleftrightarrow> plan_crossProjectSecretSharing cfg \<and>
     (case org_allowCrossProjectSecretSharing cfg of Some b \<Rightarrow> b | None \<Rightarrow> False)"

definition checkCrossProjectAllowed :: "'c reference_deps \<Rightarrow> bool" where
  "checkCrossProjectAllowed deps = (case cross_project deps of None \<Rightarrow> False | Some cfg \<Rightarrow> isCrossProjectEnabled cfg)"

definition getCacheUniqueKey :: "string \<Rightarrow> string \<Rightarrow> string option \<Rightarrow> string" where
  "getCacheUniqueKey environment secretPath srcProjectId =
     (if truthy srcProjectId then the srcProjectId @ '':'' @ environment @ ''-'' @ secretPath
      else environment @ ''-'' @ secretPath)"

text \<open>The query for the slugs that are not known yet; a slug without a project is remembered as such.\<close>

definition resolveProjectSlugs :: "'c reference_deps \<Rightarrow> string list \<Rightarrow> ref_state \<Rightarrow> ref_state" where
  "resolveProjectSlugs deps slugs st =
     (case cross_project deps of
        None \<Rightarrow> st
      | Some cfg \<Rightarrow>
          let uncached = filter (\<lambda>s. slugToProjectId st s = None) slugs;
              found = map_of (rev (filter (\<lambda>(slug, i). slug \<in> set uncached) (orgProjects cfg)))
          in if uncached = [] then st
             else st\<lparr>slugToProjectId := foldl (\<lambda>m s. m(s \<mapsto> found s)) (slugToProjectId st) uncached\<rparr>)"

text \<open>One folder, decrypted: with a user, a personal override wins over the shared secret of its name.\<close>

fun decrypt_rows :: "'c reference_deps \<Rightarrow> 'c secret_row list \<Rightarrow> secret_folder \<Rightarrow> unit + secret_folder" where
  "decrypt_rows deps [] prev = Inr prev"
| "decrypt_rows deps (secret # rows) prev =
     (if truthy (userId deps) \<and> prev (sec_key secret) \<noteq> None \<and> \<not> truthy (sec_userId secret)
      then decrypt_rows deps rows prev
      else rbind (decryptSecret deps (sec_encryptedValue secret)) (\<lambda>v.
        decrypt_rows deps rows (prev(sec_key secret \<mapsto>
          \<lparr>sr_value = (case v of Some x \<Rightarrow> x | None \<Rightarrow> []), sr_tags = sec_tags secret, sr_exists = True\<rparr>))))"

definition lookup_secret :: "secret_folder \<Rightarrow> string \<Rightarrow> secret_read" where
  "lookup_secret folder key = (case folder key of Some s \<Rightarrow> s | None \<Rightarrow> missing_secret)"

definition fetchSecret ::
  "'c reference_deps \<Rightarrow> string \<Rightarrow> string \<Rightarrow> string \<Rightarrow> ref_state \<Rightarrow> secret_read \<times> ref_state" where
  "fetchSecret deps environment secretPath secretKey st =
     (let cacheKey = getCacheUniqueKey environment secretPath None
      in case secretCache st cacheKey of
           Some folder \<Rightarrow> (lookup_secret folder secretKey, st)
         | None \<Rightarrow>
             (case findBySecretPath deps (projectId deps) environment secretPath of
                Inr None \<Rightarrow> (missing_secret, st)
              | found \<Rightarrow>
                 (case rbind found (\<lambda>folderId. rbind (findByFolderId deps (the folderId) (userId deps))
                          (\<lambda>rows. decrypt_rows deps rows Map.empty)) of
                    Inl e \<Rightarrow> (missing_secret, st\<lparr>secretCache := (secretCache st)(cacheKey \<mapsto> Map.empty)\<rparr>)
                  | Inr folder \<Rightarrow> (lookup_secret folder secretKey,
                      st\<lparr>secretCache := (secretCache st)(cacheKey \<mapsto> folder)\<rparr>))))"

text \<open>The write after the permission check of a reference of the own project.\<close>

definition remember_secret :: "string \<Rightarrow> string \<Rightarrow> string \<Rightarrow> secret_read \<Rightarrow> ref_state \<Rightarrow> ref_state" where
  "remember_secret environment secretPath secretKey s st =
     (let cacheKey = getCacheUniqueKey environment secretPath None;
          folder = (case secretCache st cacheKey of Some f \<Rightarrow> f | None \<Rightarrow> Map.empty)
      in st\<lparr>secretCache := (secretCache st)(cacheKey \<mapsto> folder(secretKey \<mapsto> s))\<rparr>)"

text \<open>Secrets of another project: only shared ones, and only from a folder granted to this project.\<close>

fun decrypt_shared :: "('c option \<Rightarrow> unit + string) \<Rightarrow> 'c secret_row list \<Rightarrow> secret_folder \<Rightarrow> unit + secret_folder" where
  "decrypt_shared decrypt [] prev = Inr prev"
| "decrypt_shared decrypt (secret # rows) prev =
     (if truthy (sec_userId secret) then decrypt_shared decrypt rows prev
      else rbind (decrypt (sec_encryptedValue secret)) (\<lambda>v.
        decrypt_shared decrypt rows (prev(sec_key secret \<mapsto>
          \<lparr>sr_value = v, sr_tags = Some (case sec_tags secret of Some ts \<Rightarrow> ts | None \<Rightarrow> []), sr_exists = True\<rparr>))))"

definition cross_folder ::
  "'c reference_deps \<Rightarrow> 'c cross_project_deps \<Rightarrow> string \<Rightarrow> string \<Rightarrow> string \<Rightarrow> unit + secret_folder" where
  "cross_folder deps cfg sourceProjectId env path =
     rbind (findBySecretPath deps sourceProjectId env path) (\<lambda>found.
       case found of
         None \<Rightarrow> Inr Map.empty
       | Some sourceFolder \<Rightarrow> rbind (findFolderGrants cfg sourceProjectId sourceFolder) (\<lambda>granted.
           if \<not> granted then Inr Map.empty
           else rbind (sourceDecryptor cfg sourceProjectId) (\<lambda>decrypt.
             rbind (crossProjectSecrets cfg sourceFolder) (\<lambda>rows. decrypt_shared decrypt rows Map.empty))))"

definition fetch_cross_project ::
  "'c reference_deps \<Rightarrow> 'c cross_project_deps \<Rightarrow> string \<Rightarrow> string \<Rightarrow> string \<Rightarrow> string \<Rightarrow> ref_state \<Rightarrow>
   secret_read \<times> ref_state" where
  "fetch_cross_project deps cfg sourceProjectId env path key st =
     (let cacheKey = getCacheUniqueKey env path (Some sourceProjectId)
      in case secretCache st cacheKey of
           Some folder \<Rightarrow> (lookup_secret folder key, st)
         | None \<Rightarrow>
            (let folder = (case cross_folder deps cfg sourceProjectId env path of Inr f \<Rightarrow> f | Inl e \<Rightarrow> Map.empty)
             in (lookup_secret folder key, st\<lparr>secretCache := (secretCache st)(cacheKey \<mapsto> folder)\<rparr>)))"

section \<open>Expanding a value\<close>

text \<open>The trace is a tree that grows under a node already placed; a node is addressed by its path.\<close>

datatype TSecretReferenceTraceNode =
  TraceNode (tn_key: string) (tn_value: "string option") (tn_environment: string) (tn_secretPath: string)
    (tn_projectSlug: "string option") (tn_children: "TSecretReferenceTraceNode list")

fun add_child :: "nat list \<Rightarrow> TSecretReferenceTraceNode \<Rightarrow> TSecretReferenceTraceNode \<Rightarrow> TSecretReferenceTraceNode" where
  "add_child [] c (TraceNode k v e p s cs) = TraceNode k v e p s (cs @ [c])"
| "add_child (i # is) c (TraceNode k v e p s cs) =
     TraceNode k v e p s (if i < length cs then cs[i := add_child is c (cs ! i)] else cs)"

fun child_count :: "nat list \<Rightarrow> TSecretReferenceTraceNode \<Rightarrow> nat" where
  "child_count [] (TraceNode k v e p s cs) = length cs"
| "child_count (i # is) (TraceNode k v e p s cs) = (if i < length cs then child_count is (cs ! i) else 0)"

record secret_dto =
  dto_value :: "string option"
  dto_secretPath :: string
  dto_environment :: string
  dto_secretKey :: string

record stack_item =
  it_value :: string
  it_secretPath :: string
  it_environment :: string
  it_depth :: nat
  it_trace :: "nat list"
  it_visited :: "string set"

record expansion =
  expandedValue :: string
  stackTrace :: TSecretReferenceTraceNode
  ref_st :: ref_state

text \<open>The secret that may not be read.\<close>

datatype reference_error = ForbiddenReference string string string

text \<open>An error comes with the cache as it was when it was thrown, which the factory goes on with.\<close>

type_synonym thrown = "reference_error \<times> ref_state"

record resolved_reference =
  rr_value :: string
  rr_exists :: bool
  rr_key :: string
  rr_path :: string
  rr_env :: string
  rr_projectSlug :: "string option"

definition MAX_SECRET_REFERENCE_DEPTH :: nat where
  "MAX_SECRET_REFERENCE_DEPTH = 10"

definition createSecretId :: "string \<Rightarrow> string \<Rightarrow> string \<Rightarrow> string" where
  "createSecretId env secretPath key = env @ '':'' @ secretPath @ '':'' @ key"

text \<open>A reference into the own project: fetched, checked, remembered.\<close>

definition resolve_own ::
  "'c reference_deps \<Rightarrow> string \<Rightarrow> string \<Rightarrow> string \<Rightarrow> ref_state \<Rightarrow>
   thrown + resolved_reference option \<times> ref_state" where
  "resolve_own deps environment secretPath secretKey st =
     (case fetchSecret deps environment secretPath secretKey st of
        (s, st1) \<Rightarrow>
          if \<not> canExpandValue deps environment secretPath secretKey (sr_tags s)
          then Inl (ForbiddenReference environment secretPath secretKey, st1)
          else Inr (Some \<lparr>rr_value = sr_value s, rr_exists = sr_exists s, rr_key = secretKey, rr_path = secretPath,
                          rr_env = environment, rr_projectSlug = None\<rparr>,
                    remember_secret environment secretPath secretKey s st1))"

definition resolve_cross ::
  "'c reference_deps \<Rightarrow> bool \<Rightarrow> string list \<Rightarrow> ref_state \<Rightarrow>
   thrown + resolved_reference option \<times> ref_state" where
  "resolve_cross deps enabled entities st =
     (case cross_project deps of
        None \<Rightarrow> Inr (None, st)
      | Some cfg \<Rightarrow>
          if \<not> enabled then Inr (None, st)
          else let slug = tl (hd entities);
                   env = entities ! 1;
                   path = path_join (drop 2 (butlast entities));
                   key = last entities;
                   sourceProjectId = (case slugToProjectId st slug of Some i \<Rightarrow> i | None \<Rightarrow> None)
               in if \<not> truthy sourceProjectId then Inr (None, st)
                  else case fetch_cross_project deps cfg (the sourceProjectId) env path key st of
                    (s, st') \<Rightarrow> Inr (Some \<lparr>rr_value = sr_value s, rr_exists = sr_exists s, rr_key = key, rr_path = path,
                                      rr_env = env, rr_projectSlug = Some slug\<rparr>, st'))"

definition resolve_reference ::
  "'c reference_deps \<Rightarrow> bool \<Rightarrow> string \<Rightarrow> string \<Rightarrow> string \<Rightarrow> ref_state \<Rightarrow>
   thrown + resolved_reference option \<times> ref_state" where
  "resolve_reference deps enabled environment secretPath name st =
     (let entities = split_char (CHR ''.'') (trim name)
      in if length entities = 1 then resolve_own deps environment secretPath (hd entities) st
         else if starts_with (hd entities) ''@'' then resolve_cross deps enabled entities st
         else resolve_own deps (hd entities) (path_join (butlast (tl entities))) (last entities) st)"

text \<open>The body of the loop over the references of one value; the result is what it pushes.\<close>

definition expand_reference ::
  "'c reference_deps \<Rightarrow> bool \<Rightarrow> bool \<Rightarrow> stack_item \<Rightarrow> string \<Rightarrow> expansion \<Rightarrow>
   thrown + stack_item list \<times> expansion" where
  "expand_reference deps enabled shouldStackTrace item name ex =
     rbind (resolve_reference deps enabled (it_environment item) (it_secretPath item) name (ref_st ex)) (\<lambda>(found, st).
       case found of
         None \<Rightarrow> Inr ([], ex\<lparr>ref_st := st\<rparr>)
       | Some r \<Rightarrow>
          let i = createSecretId (rr_env r) (rr_path r) (rr_key r);
              isCircular = i \<in> it_visited item;
              shouldExpandMore = containsSecretReference (rr_value r) \<and> \<not> isCircular \<and> rr_projectSlug r = None;
              node = TraceNode (rr_key r) (Some (rr_value r)) (rr_env r) (rr_path r)
                (if truthy (rr_projectSlug r) then rr_projectSlug r else None) [];
              trace' = (if shouldStackTrace then add_child (it_trace item) node (stackTrace ex) else stackTrace ex);
              below = (if shouldStackTrace then it_trace item @ [child_count (it_trace item) (stackTrace ex)]
                       else it_trace item);
              value' = (if rr_exists r then replaceAll (interpolation name) (rr_value r) (expandedValue ex)
                        else expandedValue ex)
          in Inr (if shouldExpandMore
                  then [\<lparr>it_value = rr_value r, it_secretPath = rr_path r, it_environment = rr_env r,
                         it_depth = it_depth item + 1, it_trace = below, it_visited = insert i (it_visited item)\<rparr>]
                  else [],
                \<lparr>expandedValue = value', stackTrace = trace', ref_st = st\<rparr>))"

fun expand_references ::
  "'c reference_deps \<Rightarrow> bool \<Rightarrow> bool \<Rightarrow> stack_item \<Rightarrow> string list \<Rightarrow> stack_item list \<Rightarrow> expansion \<Rightarrow>
   thrown + stack_item list \<times> expansion" where
  "expand_references deps enabled shouldStackTrace item [] pushed ex = Inr (pushed, ex)"
| "expand_references deps enabled shouldStackTrace item (name # names) pushed ex =
     rbind (expand_reference deps enabled shouldStackTrace item name ex) (\<lambda>(ps, ex').
       expand_references deps enabled shouldStackTrace item names (ps @ pushed) ex')"

definition cross_slugs :: "string list \<Rightarrow> string list" where
  "cross_slugs names = map tl (filter (\<lambda>p. starts_with p ''@'')
     (map (\<lambda>name. hd (split_char (CHR ''.'') (trim name))) names))"

definition expand_item ::
  "'c reference_deps \<Rightarrow> bool \<Rightarrow> bool \<Rightarrow> stack_item \<Rightarrow> expansion \<Rightarrow> thrown + stack_item list \<times> expansion" where
  "expand_item deps enabled shouldStackTrace item ex =
     (if it_depth item > MAX_SECRET_REFERENCE_DEPTH then Inr ([], ex)
      else let names = references (it_value item);
               slugs = cross_slugs names;
               ex1 = (if slugs = [] then ex else ex\<lparr>ref_st := resolveProjectSlugs deps slugs (ref_st ex)\<rparr>)
           in expand_references deps enabled shouldStackTrace item names [] ex1)"

lemma expand_reference_step:
  assumes "expand_reference deps enabled tr item name ex = Inr (ps, ex')"
  shows "ps = [] \<and> stackTrace ex' = stackTrace ex \<or>
    (\<exists>node. tn_children node = [] \<and>
      stackTrace ex' = (if tr then add_child (it_trace item) node (stackTrace ex) else stackTrace ex) \<and>
      (\<forall>p \<in> set ps. it_depth p = Suc (it_depth item) \<and>
        (tr \<longrightarrow> length (it_trace p) = Suc (length (it_trace item)))))"
proof -
  from assms obtain found st where
    r: "resolve_reference deps enabled (it_environment item) (it_secretPath item) name (ref_st ex) = Inr (found, st)"
    by (cases "resolve_reference deps enabled (it_environment item) (it_secretPath item) name (ref_st ex)")
      (auto simp: expand_reference_def)
  show ?thesis
  proof (cases found)
    case None
    with r assms show ?thesis by (auto simp: expand_reference_def)
  next
    case (Some q)
    define node where "node = TraceNode (rr_key q) (Some (rr_value q)) (rr_env q) (rr_path q)
      (if truthy (rr_projectSlug q) then rr_projectSlug q else None) []"
    have leaf: "tn_children node = []" by (simp add: node_def)
    note eqs = assms [unfolded expand_reference_def r [unfolded Some] rbind.simps Let_def prod.case option.case
        sum.inject prod.inject]
    have "stackTrace ex' = (if tr then add_child (it_trace item) node (stackTrace ex) else stackTrace ex)"
      using arg_cong [OF conjunct2 [OF eqs], of stackTrace] unfolding node_def expansion.select_convs by (rule sym)
    moreover from conjunct1 [OF eqs]
    have "\<forall>p \<in> set ps. it_depth p = Suc (it_depth item) \<and> (tr \<longrightarrow> length (it_trace p) = Suc (length (it_trace item)))"
      by (cases tr) (auto split: if_splits)
    ultimately show ?thesis using leaf by blast
  qed
qed

lemma expand_reference_pushed:
  "expand_reference deps enabled tr item name ex = Inr (ps, ex') \<Longrightarrow>
     \<forall>p \<in> set ps. it_depth p = Suc (it_depth item)"
  using expand_reference_step [of deps enabled tr item name ex ps ex'] by auto

lemma expand_references_pushed:
  "expand_references deps enabled tr item names pushed ex = Inr (ps, ex') \<Longrightarrow>
     \<forall>p \<in> set pushed. it_depth p = Suc (it_depth item) \<Longrightarrow> \<forall>p \<in> set ps. it_depth p = Suc (it_depth item)"
proof (induction names arbitrary: pushed ex)
  case (Cons name names)
  then obtain qs ex1 where "expand_reference deps enabled tr item name ex = Inr (qs, ex1)"
    "expand_references deps enabled tr item names (qs @ pushed) ex1 = Inr (ps, ex')"
    by (auto simp: rbind_Inr_iff)
  with Cons.IH [of "qs @ pushed" ex1] Cons.prems(2) expand_reference_pushed show ?case by fastforce
qed simp

lemma expand_item_pushed:
  "expand_item deps enabled tr item ex = Inr (ps, ex') \<Longrightarrow>
     ps = [] \<or> it_depth item \<le> MAX_SECRET_REFERENCE_DEPTH \<and> (\<forall>p \<in> set ps. it_depth p = Suc (it_depth item))"
  using expand_references_pushed [of deps enabled tr item "references (it_value item)" "[]" _ ps ex']
  by (fastforce simp: expand_item_def Let_def split: if_splits)

text \<open>
  The loop. Popping an item removes its depth from the stack and pushes finitely many greater ones,
  none above the bound, so the multiset of the depths left to the bound decreases.
\<close>

lemma deeper_items_decrease:
  assumes "ps = [] \<or> d item \<le> n \<and> (\<forall>p \<in> set ps. d p = Suc (d item))"
  shows "mset (map (\<lambda>x. Suc n - d x) (ps @ rest)) < mset (map (\<lambda>x. Suc n - d x) (item # rest))"
proof -
  have "image_mset (\<lambda>x. Suc n - d x) (mset ps) < {#Suc n - d item#}"
    using assms by (intro ex_gt_imp_less_multiset) auto
  then show ?thesis by simp
qed

definition depth_left :: "stack_item \<Rightarrow> nat" where
  "depth_left item = Suc MAX_SECRET_REFERENCE_DEPTH - it_depth item"

lemma expand_item_decreases:
  assumes "expand_item deps enabled tr item ex = Inr (ps, ex')"
  shows "mset (map depth_left (ps @ rest)) < mset (map depth_left (item # rest))"
  using deeper_items_decrease [OF expand_item_pushed [OF assms], of rest] by (simp add: depth_left_def [abs_def])

function expand_loop ::
  "'c reference_deps \<Rightarrow> bool \<Rightarrow> bool \<Rightarrow> stack_item list \<Rightarrow> expansion \<Rightarrow> thrown + expansion" where
  "expand_loop deps enabled tr [] ex = Inr ex"
| "expand_loop deps enabled tr (item # stack) ex =
     (case expand_item deps enabled tr item ex of
        Inl e \<Rightarrow> Inl e
      | Inr (pushed, ex') \<Rightarrow> expand_loop deps enabled tr (pushed @ stack) ex')"
  by pat_completeness auto
termination
  by (relation "inv_image {(x, y). x < y} (\<lambda>(deps, enabled, tr, stack, ex). mset (map depth_left stack))")
    (auto intro: wf simp del: map_append dest: expand_item_decreases)

definition recursivelyExpandSecret ::
  "'c reference_deps \<Rightarrow> bool \<Rightarrow> secret_dto \<Rightarrow> ref_state \<Rightarrow> thrown + expansion" where
  "recursivelyExpandSecret deps shouldStackTrace dto st =
     (let root = TraceNode ''root'' (dto_value dto) (dto_environment dto) (dto_secretPath dto) None []
      in if \<not> truthy (dto_value dto) then Inr \<lparr>expandedValue = [], stackTrace = root, ref_st = st\<rparr>
         else case fetchSecret deps (dto_environment dto) (dto_secretPath dto) (dto_secretKey dto) st of
           (currentSecret, st1) \<Rightarrow>
             if \<not> canExpandValue deps (dto_environment dto) (dto_secretPath dto) (dto_secretKey dto)
                    (sr_tags currentSecret)
             then Inl (ForbiddenReference (dto_environment dto) (dto_secretPath dto) (dto_secretKey dto), st1)
             else expand_loop deps (checkCrossProjectAllowed deps) shouldStackTrace
               [\<lparr>it_value = the (dto_value dto), it_secretPath = dto_secretPath dto,
                 it_environment = dto_environment dto, it_depth = 0, it_trace = [],
                 it_visited = {createSecretId (dto_environment dto) (dto_secretPath dto) (dto_secretKey dto)}\<rparr>]
               \<lparr>expandedValue = the (dto_value dto), stackTrace = root, ref_st = st1\<rparr>)"

definition expandSecret ::
  "'c reference_deps \<Rightarrow> bool \<Rightarrow> secret_dto \<Rightarrow> ref_state \<Rightarrow> thrown + string option \<times> ref_state" where
  "expandSecret deps skipMultilineEncoding dto st =
     (if \<not> truthy (dto_value dto) \<or> \<not> containsSecretReference (the (dto_value dto))
      then Inr (dto_value dto, st)
      else rbind (recursivelyExpandSecret deps False dto st) (\<lambda>ex.
        Inr (Some (if skipMultilineEncoding then formatMultiValueEnv (Some (expandedValue ex)) else expandedValue ex),
          ref_st ex)))"

definition getExpandedSecretStackTrace ::
  "'c reference_deps \<Rightarrow> secret_dto \<Rightarrow> ref_state \<Rightarrow> thrown + expansion" where
  "getExpandedSecretStackTrace deps dto st = recursivelyExpandSecret deps True dto st"

end
