(* ===== verification/ReferenceExpansion.thy ===== *)
theory ReferenceExpansion
  imports SecretReference
begin

text \<open>
  What expanding a value does: the cache of the factory is transparent, the result depends only on
  secrets that the caller may read or that another project granted, the loop ends, and the trace of
  references is at most as deep as the bound.
\<close>

section \<open>Names of references\<close>

lemma match_at_name: "match_at s = Some (name, rest) \<Longrightarrow> name \<noteq> [] \<and> (\<forall>c \<in> set name. ref_char c)"
  by (auto simp: match_at_def Let_def dest: set_takeWhileD split: list.splits if_splits)

lemma references_names: "name \<in> set (references v) \<Longrightarrow> name \<noteq> [] \<and> (\<forall>c \<in> set name. ref_char c)"
proof (induction v rule: references.induct)
  case (2 c s)
  show ?case
  proof (cases "match_at (c # s)")
    case None
    with 2 show ?thesis by simp
  next
    case (Some p)
    then obtain n rest where m: "match_at (c # s) = Some (n, rest)" by (cases p) simp
    with "2.prems" have "name = n \<or> name \<in> set (references rest)" by simp
    with match_at_name [OF m] "2.IH"(2) [OF m refl] show ?thesis by blast
  qed
qed simp

definition slug_ok :: "string \<Rightarrow> bool" where
  "slug_ok s \<longleftrightarrow> CHR ''/'' \<notin> set s \<and> CHR '':'' \<notin> set s"

definition path_ok :: "string \<Rightarrow> bool" where
  "path_ok p \<longleftrightarrow> (\<exists>q. p = CHR ''/'' # q)"

lemma ref_char_simps [simp]: "\<not> ref_char (CHR ''/'')" "\<not> ref_char (CHR '':'')"
  by (simp_all add: ref_char_def)

lemma ref_char_not_ws: "ref_char c \<Longrightarrow> \<not> is_ws c"
  by (auto simp: ref_char_def is_ws_def Let_def)

lemma trim_no_ws: "(\<forall>c \<in> set s. \<not> is_ws c) \<Longrightarrow> trim s = s"
proof -
  have drop: "dropWhile is_ws t = t" if "\<forall>c \<in> set t. \<not> is_ws c" for t using that by (cases t) auto
  assume "\<forall>c \<in> set s. \<not> is_ws c"
  with drop [of s] drop [of "rev s"] show "trim s = s" by (simp add: trim_def trim_left_def)
qed

lemma split_char_chars: "p \<in> set (split_char c s) \<Longrightarrow> set p \<subseteq> set s"
proof (induction s arbitrary: p)
  case (Cons x s)
  obtain y ys where ys: "split_char c s = y # ys" using split_char_not_Nil [of c s] by (cases "split_char c s") auto
  with Cons.IH [of y] Cons.IH [of p] Cons.prems show ?case by (auto split: if_splits)
qed simp

lemma entity_ok: "name \<in> set (references v) \<Longrightarrow> p \<in> set (split_char (CHR ''.'') (trim name)) \<Longrightarrow> slug_ok p"
  using references_names [of name v] trim_no_ws [of name] split_char_chars [of p] ref_char_not_ws
  by (fastforce simp: slug_ok_def)

lemma path_join_ok [simp]: "path_ok (path_join ps)"
  by (simp add: path_ok_def path_join_def)

section \<open>Keys of the cache\<close>

lemma split_at_first:
  "xs @ c # ys = xs' @ c # ys' \<Longrightarrow> c \<notin> set xs \<Longrightarrow> c \<notin> set xs' \<Longrightarrow> xs = xs' \<and> ys = ys'"
proof (induction xs arbitrary: xs')
  case Nil
  then show ?case by (cases xs') auto
next
  case (Cons x xs)
  then show ?case by (cases xs') auto
qed

lemma place_key_inject:
  assumes "env @ ''-'' @ path = env' @ ''-'' @ path'" "slug_ok env" "slug_ok env'" "path_ok path" "path_ok path'"
  shows "env = env' \<and> path = path'"
proof -
  from assms(4,5) obtain q q' where q: "path = CHR ''/'' # q" "path' = CHR ''/'' # q'" by (auto simp: path_ok_def)
  with assms(1) have "(env @ ''-'') @ CHR ''/'' # q = (env' @ ''-'') @ CHR ''/'' # q'" by simp
  from split_at_first [OF this] assms(2,3) q show ?thesis by (auto simp: slug_ok_def)
qed

lemma own_key_inject:
  assumes "slug_ok env" "slug_ok env'" "path_ok path" "path_ok path'"
  shows "getCacheUniqueKey env path None = getCacheUniqueKey env' path' None \<longleftrightarrow> env = env' \<and> path = path'"
  using place_key_inject [of env path env' path'] assms by (auto simp: getCacheUniqueKey_def)

lemma cross_key_inject:
  assumes "slug_ok src" "slug_ok src'" "src \<noteq> []" "src' \<noteq> []"
    "slug_ok env" "slug_ok env'" "path_ok path" "path_ok path'"
  shows "getCacheUniqueKey env path (Some src) = getCacheUniqueKey env' path' (Some src') \<longleftrightarrow>
    src = src' \<and> env = env' \<and> path = path'"
proof
  assume "getCacheUniqueKey env path (Some src) = getCacheUniqueKey env' path' (Some src')"
  with assms(3,4) have "src @ CHR '':'' # env @ ''-'' @ path = src' @ CHR '':'' # env' @ ''-'' @ path'"
    by (simp add: getCacheUniqueKey_def)
  from split_at_first [OF this] assms(1,2) have "src = src'" "env @ ''-'' @ path = env' @ ''-'' @ path'"
    by (simp_all add: slug_ok_def)
  with place_key_inject [of env path env' path'] assms show "src = src' \<and> env = env' \<and> path = path'" by simp
qed simp

lemma own_cross_key:
  assumes "slug_ok src" "src \<noteq> []" "slug_ok env" "slug_ok env'" "path_ok path" "path_ok path'"
  shows "getCacheUniqueKey env path None \<noteq> getCacheUniqueKey env' path' (Some src)"
proof
  assume "getCacheUniqueKey env path None = getCacheUniqueKey env' path' (Some src)"
  with assms(2) have e: "env @ ''-'' @ path = src @ '':'' @ env' @ ''-'' @ path'" by (simp add: getCacheUniqueKey_def)
  from assms(5,6) obtain q q' where "path = CHR ''/'' # q" "path' = CHR ''/'' # q'" by (auto simp: path_ok_def)
  with e have "(env @ ''-'') @ CHR ''/'' # q = (src @ '':'' @ env' @ ''-'') @ CHR ''/'' # q'" by simp
  from split_at_first [OF this] assms(1,3,4) have "env @ ''-'' = src @ '':'' @ env' @ ''-''"
    by (simp add: slug_ok_def)
  then have "CHR '':'' \<in> set (env @ ''-'')" by simp
  with assms(3) show False by (simp add: slug_ok_def)
qed

section \<open>Reading without the cache\<close>

definition local_contents :: "'c reference_deps \<Rightarrow> string \<Rightarrow> string \<Rightarrow> secret_folder" where
  "local_contents deps env path =
     (case findBySecretPath deps (projectId deps) env path of
        Inr (Some f) \<Rightarrow>
          (case rbind (findByFolderId deps f (userId deps)) (\<lambda>rows. decrypt_rows deps rows Map.empty) of
             Inr m \<Rightarrow> m | Inl e \<Rightarrow> Map.empty)
      | _ \<Rightarrow> Map.empty)"

definition read_secret :: "'c reference_deps \<Rightarrow> string \<Rightarrow> string \<Rightarrow> string \<Rightarrow> secret_read" where
  "read_secret deps env path key = lookup_secret (local_contents deps env path) key"

definition read_cross :: "'c reference_deps \<Rightarrow> string \<Rightarrow> string \<Rightarrow> string \<Rightarrow> string \<Rightarrow> secret_read" where
  "read_cross deps src env path key =
     (case cross_project deps of None \<Rightarrow> missing_secret
      | Some cfg \<Rightarrow> (case cross_folder deps cfg src env path of
           Inr f \<Rightarrow> lookup_secret f key | Inl e \<Rightarrow> missing_secret))"

definition project_of :: "'c reference_deps \<Rightarrow> string \<Rightarrow> string option" where
  "project_of deps slug =
     (case cross_project deps of None \<Rightarrow> None | Some cfg \<Rightarrow> map_of (rev (orgProjects cfg)) slug)"

definition projects_ok :: "'c reference_deps \<Rightarrow> bool" where
  "projects_ok deps \<longleftrightarrow>
     (case cross_project deps of None \<Rightarrow> True | Some cfg \<Rightarrow> list_all (\<lambda>(slug, i). slug_ok i) (orgProjects cfg))"

text \<open>What the factory has cached is what it would read.\<close>

definition cache_ok :: "'c reference_deps \<Rightarrow> ref_state \<Rightarrow> bool" where
  "cache_ok deps st \<longleftrightarrow>
     (\<forall>env path m key. slug_ok env \<longrightarrow> path_ok path \<longrightarrow>
        secretCache st (getCacheUniqueKey env path None) = Some m \<longrightarrow>
        lookup_secret m key = read_secret deps env path key) \<and>
     (\<forall>src env path m key. slug_ok src \<longrightarrow> src \<noteq> [] \<longrightarrow> slug_ok env \<longrightarrow> path_ok path \<longrightarrow>
        secretCache st (getCacheUniqueKey env path (Some src)) = Some m \<longrightarrow>
        lookup_secret m key = read_cross deps src env path key) \<and>
     (\<forall>slug i. slugToProjectId st slug = Some i \<longrightarrow> i = project_of deps slug)"

definition no_cache :: ref_state where
  "no_cache = \<lparr>secretCache = Map.empty, slugToProjectId = Map.empty\<rparr>"

lemma no_cache_ok [simp]: "cache_ok deps no_cache"
  by (simp add: cache_ok_def no_cache_def)

lemma lookup_empty [simp]: "lookup_secret Map.empty key = missing_secret"
  by (simp add: lookup_secret_def)

lemma lookup_update [simp]: "lookup_secret (m(k \<mapsto> s)) k' = (if k' = k then s else lookup_secret m k')"
  by (simp add: lookup_secret_def)

lemma cache_ok_own:
  assumes "cache_ok deps st" "slug_ok env" "path_ok path" "\<And>key. lookup_secret m key = read_secret deps env path key"
  shows "cache_ok deps (st\<lparr>secretCache := (secretCache st)(getCacheUniqueKey env path None \<mapsto> m)\<rparr>)"
  unfolding cache_ok_def
proof (intro conjI allI impI)
  fix env' path' m' key
  assume "slug_ok env'" "path_ok path'"
    "secretCache (st\<lparr>secretCache := (secretCache st)(getCacheUniqueKey env path None \<mapsto> m)\<rparr>)
       (getCacheUniqueKey env' path' None) = Some m'"
  with assms own_key_inject [of env' env path' path] show "lookup_secret m' key = read_secret deps env' path' key"
    by (auto simp: cache_ok_def split: if_splits)
next
  fix src env' path' m' key
  assume "slug_ok src" "src \<noteq> []" "slug_ok env'" "path_ok path'"
    "secretCache (st\<lparr>secretCache := (secretCache st)(getCacheUniqueKey env path None \<mapsto> m)\<rparr>)
       (getCacheUniqueKey env' path' (Some src)) = Some m'"
  with assms own_cross_key [of src env env' path path'] show "lookup_secret m' key = read_cross deps src env' path' key"
    by (auto simp: cache_ok_def split: if_splits)
qed (use assms(1) in \<open>simp add: cache_ok_def\<close>)

lemma cache_ok_cross:
  assumes "cache_ok deps st" "slug_ok src" "src \<noteq> []" "slug_ok env" "path_ok path"
    "\<And>key. lookup_secret m key = read_cross deps src env path key"
  shows "cache_ok deps (st\<lparr>secretCache := (secretCache st)(getCacheUniqueKey env path (Some src) \<mapsto> m)\<rparr>)"
  unfolding cache_ok_def
proof (intro conjI allI impI)
  fix env' path' m' key
  assume "slug_ok env'" "path_ok path'"
    "secretCache (st\<lparr>secretCache := (secretCache st)(getCacheUniqueKey env path (Some src) \<mapsto> m)\<rparr>)
       (getCacheUniqueKey env' path' None) = Some m'"
  with assms own_cross_key [of src env' env path' path] show "lookup_secret m' key = read_secret deps env' path' key"
    by (auto simp: cache_ok_def split: if_splits)
next
  fix src' env' path' m' key
  assume "slug_ok src'" "src' \<noteq> []" "slug_ok env'" "path_ok path'"
    "secretCache (st\<lparr>secretCache := (secretCache st)(getCacheUniqueKey env path (Some src) \<mapsto> m)\<rparr>)
       (getCacheUniqueKey env' path' (Some src')) = Some m'"
  with assms cross_key_inject [of src' src env' env path' path]
  show "lookup_secret m' key = read_cross deps src' env' path' key"
    by (auto simp: cache_ok_def split: if_splits)
qed (use assms(1) in \<open>simp add: cache_ok_def\<close>)

lemma fetchSecret_reads:
  assumes "cache_ok deps st" "slug_ok env" "path_ok path"
  shows "\<exists>st'. fetchSecret deps env path key st = (read_secret deps env path key, st') \<and> cache_ok deps st' \<and>
    slugToProjectId st' = slugToProjectId st \<and>
    (secretCache st' (getCacheUniqueKey env path None) = None \<longrightarrow> (\<forall>k. read_secret deps env path k = missing_secret))"
proof (cases "secretCache st (getCacheUniqueKey env path None)")
  case (Some m)
  with assms show ?thesis by (auto simp: fetchSecret_def Let_def cache_ok_def)
next
  case None
  show ?thesis
  proof (cases "findBySecretPath deps (projectId deps) env path = Inr None")
    case True
    with None assms(1) show ?thesis by (simp add: fetchSecret_def read_secret_def local_contents_def Let_def)
  next
    case False
    define m where "m = local_contents deps env path"
    have "fetchSecret deps env path key st =
        (lookup_secret m key, st\<lparr>secretCache := (secretCache st)(getCacheUniqueKey env path None \<mapsto> m)\<rparr>)"
      using None False
      by (auto simp: fetchSecret_def m_def local_contents_def Let_def split: sum.splits option.splits)
    with cache_ok_own [OF assms, of m] show ?thesis by (simp add: m_def read_secret_def)
  qed
qed

lemma fetchSecret_facts:
  assumes "cache_ok deps st" "slug_ok env" "path_ok path"
  shows "fetchSecret deps env path key st = (read_secret deps env path key, snd (fetchSecret deps env path key st))"
    and "cache_ok deps (snd (fetchSecret deps env path key st))"
    and "slugToProjectId (snd (fetchSecret deps env path key st)) = slugToProjectId st"
    and "secretCache (snd (fetchSecret deps env path key st)) (getCacheUniqueKey env path None) = None \<Longrightarrow>
      \<forall>k. read_secret deps env path k = missing_secret"
  using fetchSecret_reads [OF assms, of key] by auto

lemma remember_ok:
  assumes "cache_ok deps st" "slug_ok env" "path_ok path" "s = read_secret deps env path key"
    "secretCache st (getCacheUniqueKey env path None) = None \<Longrightarrow> \<forall>k. read_secret deps env path k = missing_secret"
  shows "cache_ok deps (remember_secret env path key s st)"
  unfolding remember_secret_def Let_def using assms
  by (intro cache_ok_own) (auto simp: cache_ok_def split: option.splits)

lemma fetch_cross_reads:
  assumes "cache_ok deps st" "slug_ok src" "src \<noteq> []" "slug_ok env" "path_ok path" "cross_project deps = Some cfg"
  shows "\<exists>st'. fetch_cross_project deps cfg src env path key st = (read_cross deps src env path key, st') \<and>
    cache_ok deps st' \<and> slugToProjectId st' = slugToProjectId st"
proof (cases "secretCache st (getCacheUniqueKey env path (Some src))")
  case (Some m)
  with assms show ?thesis by (auto simp: fetch_cross_project_def Let_def cache_ok_def)
next
  case None
  define m where "m = (case cross_folder deps cfg src env path of Inr f \<Rightarrow> f | Inl e \<Rightarrow> Map.empty)"
  have m: "lookup_secret m key = read_cross deps src env path key" for key
    using assms(6) by (simp add: m_def read_cross_def split: sum.splits)
  with cache_ok_cross [OF assms(1-5) m] None show ?thesis
    by (simp add: fetch_cross_project_def Let_def flip: m_def)
qed

text \<open>The query for slugs answers every slug it is asked for.\<close>

lemma foldl_updates: "foldl (\<lambda>m s. m(s \<mapsto> f s)) m ss x = (if x \<in> set ss then Some (f x) else m x)"
  by (induction ss arbitrary: m) auto

lemma map_of_filter_keys: "P k \<Longrightarrow> map_of (filter (\<lambda>(k, v). P k) xs) k = map_of xs k"
  by (induction xs) auto

lemma map_of_rev_filter: "P k \<Longrightarrow> map_of (rev (filter (\<lambda>(k, v). P k) xs)) k = map_of (rev xs) k"
  by (simp only: rev_filter map_of_filter_keys)

lemma resolveProjectSlugs_ok:
  assumes "cache_ok deps st"
  shows "cache_ok deps (resolveProjectSlugs deps slugs st)"
    and "cross_project deps \<noteq> None \<Longrightarrow> s \<in> set slugs \<Longrightarrow>
      slugToProjectId (resolveProjectSlugs deps slugs st) s = Some (project_of deps s)"
proof -
  have known: "slugToProjectId (resolveProjectSlugs deps slugs st) x =
      (if cross_project deps \<noteq> None \<and> slugToProjectId st x = None \<and> x \<in> set slugs
       then Some (project_of deps x) else slugToProjectId st x)" for x
    using map_of_rev_filter [of "\<lambda>s. s \<in> set slugs \<and> slugToProjectId st s = None" x]
    by (auto simp: resolveProjectSlugs_def Let_def foldl_updates project_of_def filter_empty_conv
        split: option.splits)
  have "secretCache (resolveProjectSlugs deps slugs st) = secretCache st"
    by (simp add: resolveProjectSlugs_def Let_def split: option.splits)
  with assms known show "cache_ok deps (resolveProjectSlugs deps slugs st)"
    unfolding cache_ok_def by (auto split: if_splits)
  assume "cross_project deps \<noteq> None" "s \<in> set slugs"
  with assms known [of s] show "slugToProjectId (resolveProjectSlugs deps slugs st) s = Some (project_of deps s)"
    unfolding cache_ok_def by (cases "slugToProjectId st s") auto
qed

section \<open>Two runs that read the same\<close>

text \<open>
  Two databases look the same to the caller when they agree on which secrets exist with which tags,
  on the values that the caller may read, and on what other projects granted.
\<close>

definition cross_granted :: "'c reference_deps \<Rightarrow> string \<Rightarrow> string \<Rightarrow> string \<Rightarrow> bool" where
  "cross_granted deps src env path \<longleftrightarrow>
     (case cross_project deps of None \<Rightarrow> False
      | Some cfg \<Rightarrow> (case findBySecretPath deps src env path of
           Inr (Some f) \<Rightarrow> findFolderGrants cfg src f = Inr True | _ \<Rightarrow> False))"

definition same_readable :: "'c reference_deps \<Rightarrow> 'd reference_deps \<Rightarrow> bool" where
  "same_readable d1 d2 \<longleftrightarrow>
     canExpandValue d1 = canExpandValue d2 \<and>
     checkCrossProjectAllowed d1 = checkCrossProjectAllowed d2 \<and>
     project_of d1 = project_of d2 \<and>
     (\<forall>env path key. sr_tags (read_secret d1 env path key) = sr_tags (read_secret d2 env path key)) \<and>
     (\<forall>env path key. canExpandValue d1 env path key (sr_tags (read_secret d1 env path key)) \<longrightarrow>
        read_secret d1 env path key = read_secret d2 env path key) \<and>
     (\<forall>src env path key. cross_granted d1 src env path = cross_granted d2 src env path \<and>
        (cross_granted d1 src env path \<longrightarrow> read_cross d1 src env path key = read_cross d2 src env path key))"

lemma cross_folder_not_granted:
  assumes "cross_project deps = Some cfg" "\<not> cross_granted deps src env path"
  shows "cross_folder deps cfg src env path = Inl () \<or> cross_folder deps cfg src env path = Inr Map.empty"
proof (cases "findBySecretPath deps src env path")
  case (Inr found)
  with assms show ?thesis
    by (cases found; cases "findFolderGrants cfg src (the found)") (auto simp: cross_granted_def cross_folder_def)
qed (simp add: cross_folder_def)

lemma read_cross_not_granted: "\<not> cross_granted deps src env path \<Longrightarrow> read_cross deps src env path key = missing_secret"
  using cross_folder_not_granted [of deps _ src env path] by (fastforce simp: read_cross_def split: option.splits)

lemma same_readableD:
  assumes "same_readable d1 d2"
  shows "canExpandValue d1 = canExpandValue d2"
    and "checkCrossProjectAllowed d1 = checkCrossProjectAllowed d2"
    and "project_of d1 = project_of d2"
    and "sr_tags (read_secret d1 env path key) = sr_tags (read_secret d2 env path key)"
    and "canExpandValue d1 env path key (sr_tags (read_secret d1 env path key)) \<Longrightarrow>
      read_secret d1 env path key = read_secret d2 env path key"
  using assms unfolding same_readable_def by blast+

lemma same_readable_cross:
  assumes "same_readable d1 d2"
  shows "read_cross d1 src env path key = read_cross d2 src env path key"
proof (cases "cross_granted d1 src env path")
  case True
  with assms show ?thesis unfolding same_readable_def by blast
next
  case False
  with assms have "\<not> cross_granted d2 src env path" unfolding same_readable_def by blast
  with False show ?thesis by (simp add: read_cross_not_granted)
qed

lemma same_readable_refl [simp]: "same_readable deps deps"
  by (simp add: same_readable_def)

text \<open>Equal outcomes up to the cache, and both caches valid.\<close>

definition failures_agree :: "'c reference_deps \<Rightarrow> 'd reference_deps \<Rightarrow> thrown \<Rightarrow> thrown \<Rightarrow> bool" where
  "failures_agree d1 d2 e1 e2 \<longleftrightarrow> fst e1 = fst e2 \<and> cache_ok d1 (snd e1) \<and> cache_ok d2 (snd e2)"

definition same_outcome ::
  "'c reference_deps \<Rightarrow> 'd reference_deps \<Rightarrow> (string \<Rightarrow> string option option) \<times> (string \<Rightarrow> string option option) \<Rightarrow>
   thrown + 'x \<times> ref_state \<Rightarrow> thrown + 'x \<times> ref_state \<Rightarrow> bool" where
  "same_outcome d1 d2 slugs r1 r2 \<longleftrightarrow>
     (case (r1, r2) of
        (Inl e1, Inl e2) \<Rightarrow> failures_agree d1 d2 e1 e2
      | (Inr (x1, s1), Inr (x2, s2)) \<Rightarrow> x1 = x2 \<and> cache_ok d1 s1 \<and> cache_ok d2 s2 \<and>
          (slugToProjectId s1, slugToProjectId s2) = slugs
      | _ \<Rightarrow> False)"

lemma resolve_own_same:
  assumes "same_readable d1 d2" "cache_ok d1 s1" "cache_ok d2 s2" "slug_ok env" "path_ok path"
  shows "same_outcome d1 d2 (slugToProjectId s1, slugToProjectId s2)
    (resolve_own d1 env path key s1) (resolve_own d2 env path key s2)"
proof -
  define t1 t2 where "t1 = snd (fetchSecret d1 env path key s1)" and "t2 = snd (fetchSecret d2 env path key s2)"
  note 1 = fetchSecret_facts [OF assms(2,4,5), of key, folded t1_def]
  note 2 = fetchSecret_facts [OF assms(3-5), of key, folded t2_def]
  have ok: "cache_ok d1 (remember_secret env path key (read_secret d1 env path key) t1)"
    "cache_ok d2 (remember_secret env path key (read_secret d2 env path key) t2)"
    using remember_ok [OF 1(2) assms(4,5) refl 1(4)] remember_ok [OF 2(2) assms(4,5) refl 2(4)] by simp_all
  have slugs: "slugToProjectId (remember_secret env path key s t) = slugToProjectId t" for s t
    by (simp add: remember_secret_def Let_def)
  let ?r1 = "read_secret d1 env path key" and ?r2 = "read_secret d2 env path key"
  note may = same_readableD(1) [OF assms(1)] same_readableD(4,5) [OF assms(1), of env path key]
  show ?thesis
  proof (cases "canExpandValue d1 env path key (sr_tags ?r1)")
    case True
    from may(3) [OF True] may True ok 1(3) 2(3) show ?thesis
      by (simp add: resolve_own_def same_outcome_def 1(1) 2(1) slugs)
  next
    case False
    with may 1(2) 2(2) show ?thesis by (simp add: resolve_own_def same_outcome_def failures_agree_def 1(1) 2(1))
  qed
qed

lemma resolve_cross_same:
  assumes "same_readable d1 d2" "cache_ok d1 s1" "cache_ok d2 s2" "projects_ok d1" "projects_ok d2"
    "list_all slug_ok entities" "length entities > 1"
    "cross_project d1 \<noteq> None \<longrightarrow> slugToProjectId s1 (tl (hd entities)) \<noteq> None"
    "cross_project d2 \<noteq> None \<longrightarrow> slugToProjectId s2 (tl (hd entities)) \<noteq> None"
  shows "same_outcome d1 d2 (slugToProjectId s1, slugToProjectId s2)
    (resolve_cross d1 (checkCrossProjectAllowed d1) entities s1)
    (resolve_cross d2 (checkCrossProjectAllowed d2) entities s2)"
proof (cases "checkCrossProjectAllowed d1")
  case False
  with same_readableD(2) [OF assms(1)] assms(2,3) show ?thesis
    by (auto simp: resolve_cross_def same_outcome_def split: option.splits)
next
  case True
  with same_readableD(2) [OF assms(1)] have both: "checkCrossProjectAllowed d2" by simp
  from True both obtain c1 c2 where c: "cross_project d1 = Some c1" "cross_project d2 = Some c2"
    by (auto simp: checkCrossProjectAllowed_def split: option.splits)
  let ?slug = "tl (hd entities)"
  from same_readableD(3) [OF assms(1)] have p: "project_of d1 ?slug = project_of d2 ?slug" by simp
  have s: "slugToProjectId s1 ?slug = Some (project_of d1 ?slug)" "slugToProjectId s2 ?slug = Some (project_of d2 ?slug)"
    using assms(2,3,8,9) c by (auto simp: cache_ok_def)
  have env: "slug_ok (entities ! 1)" using assms(6,7) by (simp add: list_all_length)
  show ?thesis
  proof (cases "truthy (project_of d1 ?slug)")
    case False
    with True both c p s assms(2,3) show ?thesis
      by (simp add: resolve_cross_def same_outcome_def Let_def)
  next
    case True
    then obtain src where src: "project_of d1 ?slug = Some src" "src \<noteq> []" by (auto simp: truthy_iff)
    with c(1) assms(4) have "slug_ok src"
      by (fastforce simp: project_of_def projects_ok_def list_all_iff dest: map_of_SomeD)
    note ok = this
    let ?path = "path_join (drop 2 (butlast entities))" and ?key = "last entities"
    from fetch_cross_reads [OF assms(2) ok src(2) env path_join_ok c(1)] obtain t1 where
      t1: "fetch_cross_project d1 c1 src (entities ! 1) ?path ?key s1 = (read_cross d1 src (entities ! 1) ?path ?key, t1)"
        "cache_ok d1 t1" "slugToProjectId t1 = slugToProjectId s1" by blast
    from fetch_cross_reads [OF assms(3) ok src(2) env path_join_ok c(2)] obtain t2 where
      t2: "fetch_cross_project d2 c2 src (entities ! 1) ?path ?key s2 = (read_cross d2 src (entities ! 1) ?path ?key, t2)"
        "cache_ok d2 t2" "slugToProjectId t2 = slugToProjectId s2" by blast
    have "slugToProjectId s1 ?slug = Some (Some src)" "slugToProjectId s2 ?slug = Some (Some src)"
      using s p src(1) by simp_all
    with same_readable_cross [OF assms(1)] \<open>checkCrossProjectAllowed d1\<close> both src(2) c t1 t2
    show ?thesis by (simp add: resolve_cross_def same_outcome_def Let_def)
  qed
qed

lemma resolve_reference_same:
  assumes "same_readable d1 d2" "cache_ok d1 s1" "cache_ok d2 s2" "projects_ok d1" "projects_ok d2"
    "name \<in> set (references v)" "slug_ok env" "path_ok path"
    "\<forall>slug \<in> set (cross_slugs [name]). (cross_project d1 \<noteq> None \<longrightarrow> slugToProjectId s1 slug \<noteq> None) \<and>
       (cross_project d2 \<noteq> None \<longrightarrow> slugToProjectId s2 slug \<noteq> None)"
  shows "same_outcome d1 d2 (slugToProjectId s1, slugToProjectId s2)
    (resolve_reference d1 (checkCrossProjectAllowed d1) env path name s1)
    (resolve_reference d2 (checkCrossProjectAllowed d2) env path name s2)"
proof -
  let ?es = "split_char (CHR ''.'') (trim name)"
  have es: "list_all slug_ok ?es" "hd ?es \<in> set ?es" "?es \<noteq> []"
    using entity_ok [OF assms(6)] by (auto simp: list_all_iff)
  have ends: "slug_ok (hd ?es)" using es by (auto simp: list_all_iff)
  have cross: "tl (hd ?es) \<in> set (cross_slugs [name])" if "starts_with (hd ?es) ''@''"
    using that by (simp add: cross_slugs_def)
  consider "length ?es = 1" | "length ?es > 1" using es(3) by (cases ?es) auto
  then show ?thesis
  proof cases
    case 1
    with resolve_own_same [OF assms(1-3,7,8)] show ?thesis by (simp add: resolve_reference_def Let_def)
  next
    case 2
    show ?thesis
    proof (cases "starts_with (hd ?es) ''@''")
      case True
      with resolve_cross_same [OF assms(1-5) es(1) 2] cross assms(9) 2 show ?thesis
        by (simp add: resolve_reference_def Let_def)
    next
      case False
      with resolve_own_same [OF assms(1-3) ends path_join_ok] 2 show ?thesis
        by (simp add: resolve_reference_def Let_def)
    qed
  qed
qed

definition expansions_agree ::
  "'c reference_deps \<Rightarrow> 'd reference_deps \<Rightarrow> expansion \<Rightarrow> expansion \<Rightarrow> bool" where
  "expansions_agree d1 d2 e1 e2 \<longleftrightarrow>
     expandedValue e1 = expandedValue e2 \<and> stackTrace e1 = stackTrace e2 \<and>
     cache_ok d1 (ref_st e1) \<and> cache_ok d2 (ref_st e2)"

definition outcomes_agree ::
  "'c reference_deps \<Rightarrow> 'd reference_deps \<Rightarrow> thrown + 'x \<times> expansion \<Rightarrow> thrown + 'x \<times> expansion \<Rightarrow> bool"
  where
  "outcomes_agree d1 d2 r1 r2 \<longleftrightarrow>
     (case (r1, r2) of
        (Inl e1, Inl e2) \<Rightarrow> failures_agree d1 d2 e1 e2
      | (Inr (p1, e1), Inr (p2, e2)) \<Rightarrow> p1 = p2 \<and> expansions_agree d1 d2 e1 e2
      | _ \<Rightarrow> False)"

definition item_ok :: "stack_item \<Rightarrow> bool" where
  "item_ok item \<longleftrightarrow> slug_ok (it_environment item) \<and> path_ok (it_secretPath item)"

lemma same_outcomeE:
  assumes "same_outcome d1 d2 slugs r1 r2"
  obtains f1 f2 where "r1 = Inl f1" "r2 = Inl f2" "failures_agree d1 d2 f1 f2"
  | x t1 t2 where "r1 = Inr (x, t1)" "r2 = Inr (x, t2)" "cache_ok d1 t1" "cache_ok d2 t2"
      "(slugToProjectId t1, slugToProjectId t2) = slugs"
  using assms by (cases r1; cases r2) (auto simp: same_outcome_def)

text \<open>What an expansion pushes, in terms of the reference it resolved.\<close>

lemma resolved_place:
  assumes "resolve_reference deps enabled env path name st = Inr (Some r, st')" "rr_projectSlug r = None"
    "name \<in> set (references v)" "slug_ok env" "path_ok path"
  shows "slug_ok (rr_env r) \<and> path_ok (rr_path r)"
proof -
  let ?es = "split_char (CHR ''.'') (trim name)"
  have "hd ?es \<in> set ?es" by simp
  from entity_ok [OF assms(3) this] assms show ?thesis
    by (auto simp: resolve_reference_def resolve_own_def resolve_cross_def Let_def
        split: if_splits prod.splits option.splits)
qed

text \<open>Both runs have asked for the projects that the references name.\<close>

definition slugs_known ::
  "'c reference_deps \<Rightarrow> 'd reference_deps \<Rightarrow> string list \<Rightarrow> expansion \<Rightarrow> expansion \<Rightarrow> bool" where
  "slugs_known d1 d2 names e1 e2 \<longleftrightarrow>
     (\<forall>slug \<in> set (cross_slugs names).
       (cross_project d1 \<noteq> None \<longrightarrow> slugToProjectId (ref_st e1) slug \<noteq> None) \<and>
       (cross_project d2 \<noteq> None \<longrightarrow> slugToProjectId (ref_st e2) slug \<noteq> None))"

lemma expand_reference_agree:
  assumes "same_readable d1 d2" "expansions_agree d1 d2 e1 e2" "projects_ok d1" "projects_ok d2" "item_ok item"
    "name \<in> set (references v)"
    "slugs_known d1 d2 [name] e1 e2"
  shows "outcomes_agree d1 d2 (expand_reference d1 (checkCrossProjectAllowed d1) tr item name e1)
      (expand_reference d2 (checkCrossProjectAllowed d2) tr item name e2) \<and>
    (\<forall>ps e. expand_reference d1 (checkCrossProjectAllowed d1) tr item name e1 = Inr (ps, e) \<longrightarrow>
       list_all item_ok ps \<and> slugToProjectId (ref_st e) = slugToProjectId (ref_st e1)) \<and>
    (\<forall>ps e. expand_reference d2 (checkCrossProjectAllowed d2) tr item name e2 = Inr (ps, e) \<longrightarrow>
       slugToProjectId (ref_st e) = slugToProjectId (ref_st e2))"
proof -
  let ?r1 = "resolve_reference d1 (checkCrossProjectAllowed d1) (it_environment item) (it_secretPath item) name (ref_st e1)"
  let ?r2 = "resolve_reference d2 (checkCrossProjectAllowed d2) (it_environment item) (it_secretPath item) name (ref_st e2)"
  from assms(2) have e: "expandedValue e1 = expandedValue e2" "stackTrace e1 = stackTrace e2"
    "cache_ok d1 (ref_st e1)" "cache_ok d2 (ref_st e2)" by (simp_all add: expansions_agree_def)
  from assms(5) have item: "slug_ok (it_environment item)" "path_ok (it_secretPath item)" by (simp_all add: item_ok_def)
  from resolve_reference_same [OF assms(1) e(3,4) assms(3,4,6) item assms(7) [unfolded slugs_known_def]]
  have "same_outcome d1 d2 (slugToProjectId (ref_st e1), slugToProjectId (ref_st e2)) ?r1 ?r2" .
  then show ?thesis
  proof (cases rule: same_outcomeE)
    case (1 f1 f2)
    then show ?thesis by (simp add: expand_reference_def outcomes_agree_def)
  next
    case (2 x t1 t2)
    note r = 2
    show ?thesis
    proof (cases x)
      case None
      with r e show ?thesis by (simp add: expand_reference_def outcomes_agree_def expansions_agree_def)
    next
      case (Some q)
      have "rr_projectSlug q = None \<Longrightarrow> slug_ok (rr_env q) \<and> path_ok (rr_path q)"
        using resolved_place [OF _ _ assms(6) item] r(1) Some by blast
      with r e Some show ?thesis
        by (simp add: expand_reference_def outcomes_agree_def expansions_agree_def Let_def item_ok_def)
    qed
  qed
qed

lemma slugs_known_Cons:
  "slugs_known d1 d2 (name # names) e1 e2 \<longleftrightarrow> slugs_known d1 d2 [name] e1 e2 \<and> slugs_known d1 d2 names e1 e2"
  by (auto simp: slugs_known_def cross_slugs_def)

lemma outcomes_agreeE:
  assumes "outcomes_agree d1 d2 r1 r2"
  obtains f1 f2 where "r1 = Inl f1" "r2 = Inl f2" "failures_agree d1 d2 f1 f2"
  | x e1 e2 where "r1 = Inr (x, e1)" "r2 = Inr (x, e2)" "expansions_agree d1 d2 e1 e2"
  using assms by (cases r1; cases r2) (auto simp: outcomes_agree_def)

lemma expand_references_agree:
  assumes "same_readable d1 d2" "projects_ok d1" "projects_ok d2" "item_ok item"
  shows "expansions_agree d1 d2 e1 e2 \<Longrightarrow> set names \<subseteq> set (references v) \<Longrightarrow> list_all item_ok pushed \<Longrightarrow>
    slugs_known d1 d2 names e1 e2 \<Longrightarrow>
    outcomes_agree d1 d2 (expand_references d1 (checkCrossProjectAllowed d1) tr item names pushed e1)
      (expand_references d2 (checkCrossProjectAllowed d2) tr item names pushed e2) \<and>
    (\<forall>ps e. expand_references d1 (checkCrossProjectAllowed d1) tr item names pushed e1 = Inr (ps, e) \<longrightarrow>
       list_all item_ok ps)"
proof (induction names arbitrary: pushed e1 e2)
  case Nil
  then show ?case by (simp add: outcomes_agree_def)
next
  case (Cons name names)
  from Cons.prems(2) have name: "name \<in> set (references v)" by simp
  from Cons.prems(4) have known: "slugs_known d1 d2 [name] e1 e2" "slugs_known d1 d2 names e1 e2"
    by (simp_all add: slugs_known_Cons [of _ _ name names])
  note step = expand_reference_agree [OF assms(1) Cons.prems(1) assms(2-4) name known(1), of tr]
  from step [THEN conjunct1] show ?case
  proof (cases rule: outcomes_agreeE)
    case (1 x1 x2)
    then show ?thesis by (simp add: outcomes_agree_def)
  next
    case (2 ps f1 f2)
    with step have kept: "list_all item_ok ps" "slugToProjectId (ref_st f1) = slugToProjectId (ref_st e1)"
      "slugToProjectId (ref_st f2) = slugToProjectId (ref_st e2)" by blast+
    with known(2) have "slugs_known d1 d2 names f1 f2" by (simp add: slugs_known_def)
    with Cons.IH [OF 2(3), of "ps @ pushed"] Cons.prems(2,3) kept(1) 2 show ?thesis by simp
  qed
qed

lemma expand_item_agree:
  assumes "same_readable d1 d2" "projects_ok d1" "projects_ok d2" "item_ok item" "expansions_agree d1 d2 e1 e2"
  shows "outcomes_agree d1 d2 (expand_item d1 (checkCrossProjectAllowed d1) tr item e1)
      (expand_item d2 (checkCrossProjectAllowed d2) tr item e2) \<and>
    (\<forall>ps e. expand_item d1 (checkCrossProjectAllowed d1) tr item e1 = Inr (ps, e) \<longrightarrow> list_all item_ok ps)"
proof (cases "it_depth item > MAX_SECRET_REFERENCE_DEPTH")
  case True
  with assms(5) show ?thesis by (simp add: expand_item_def outcomes_agree_def)
next
  case False
  let ?names = "references (it_value item)"
  let ?slugs = "cross_slugs ?names"
  let ?ex = "\<lambda>d e. if ?slugs = [] then e else e\<lparr>ref_st := resolveProjectSlugs d ?slugs (ref_st e)\<rparr>"
  from assms(5) have ok: "cache_ok d1 (ref_st e1)" "cache_ok d2 (ref_st e2)" by (simp_all add: expansions_agree_def)
  have agree: "expansions_agree d1 d2 (?ex d1 e1) (?ex d2 e2)"
    using assms(5) resolveProjectSlugs_ok(1) [OF ok(1)] resolveProjectSlugs_ok(1) [OF ok(2)]
    by (auto simp: expansions_agree_def)
  have known: "slugs_known d1 d2 ?names (?ex d1 e1) (?ex d2 e2)"
    using resolveProjectSlugs_ok(2) [OF ok(1)] resolveProjectSlugs_ok(2) [OF ok(2)] by (auto simp: slugs_known_def)
  have unfold: "expand_item d enabled tr item e = expand_references d enabled tr item ?names [] (?ex d e)"
    for d :: "'x reference_deps" and enabled e
    using False by (simp add: expand_item_def Let_def)
  have "list_all item_ok []" by simp
  from expand_references_agree [OF assms(1-4) agree subset_refl this known] show ?thesis
    unfolding unfold .
qed

definition results_agree ::
  "'c reference_deps \<Rightarrow> 'd reference_deps \<Rightarrow> thrown + expansion \<Rightarrow> thrown + expansion \<Rightarrow> bool" where
  "results_agree d1 d2 r1 r2 \<longleftrightarrow>
     (case (r1, r2) of (Inl e1, Inl e2) \<Rightarrow> failures_agree d1 d2 e1 e2 | (Inr e1, Inr e2) \<Rightarrow> expansions_agree d1 d2 e1 e2 | _ \<Rightarrow> False)"

lemma expand_loop_agree:
  "same_readable d1 d2 \<Longrightarrow> projects_ok d1 \<Longrightarrow> projects_ok d2 \<Longrightarrow> enabled = checkCrossProjectAllowed d1 \<Longrightarrow>
    expansions_agree d1 d2 e1 e2 \<Longrightarrow> list_all item_ok stack \<Longrightarrow>
    results_agree d1 d2 (expand_loop d1 enabled tr stack e1)
      (expand_loop d2 (checkCrossProjectAllowed d2) tr stack e2)"
proof (induction d1 enabled tr stack e1 arbitrary: e2 rule: expand_loop.induct)
  case (1 deps enabled tr ex)
  then show ?case by (simp add: results_agree_def)
next
  case (2 deps enabled tr item stack ex)
  from "2.prems"(6) have item: "item_ok item" by simp
  note step = expand_item_agree [OF "2.prems"(1-3) item "2.prems"(5), of tr]
  from step [THEN conjunct1] show ?case
  proof (cases rule: outcomes_agreeE)
    case (1 x1 x2)
    with "2.prems"(4) show ?thesis by (simp add: results_agree_def)
  next
    case (2 ps f1 f2)
    with step "2.prems"(6) have stack: "list_all item_ok (ps @ stack)" by simp
    from 2(1) "2.prems"(4) have "expand_item deps enabled tr item ex = Inr (ps, f1)" by simp
    from "2.IH" [OF this refl "2.prems"(1-4) 2(3) stack] this 2(2) show ?thesis by simp
  qed
qed

lemma recursivelyExpandSecret_agree:
  assumes "same_readable d1 d2" "projects_ok d1" "projects_ok d2" "cache_ok d1 st1" "cache_ok d2 st2"
    "slug_ok (dto_environment dto)" "path_ok (dto_secretPath dto)"
  shows "results_agree d1 d2 (recursivelyExpandSecret d1 tr dto st1) (recursivelyExpandSecret d2 tr dto st2)"
proof -
  let ?env = "dto_environment dto" and ?path = "dto_secretPath dto" and ?key = "dto_secretKey dto"
  define t1 t2 where "t1 = snd (fetchSecret d1 ?env ?path ?key st1)" and "t2 = snd (fetchSecret d2 ?env ?path ?key st2)"
  note f1 = fetchSecret_facts [OF assms(4,6,7), of ?key, folded t1_def]
  note f2 = fetchSecret_facts [OF assms(5-7), of ?key, folded t2_def]
  note may = same_readableD(1) [OF assms(1)] same_readableD(4) [OF assms(1), of ?env ?path ?key]
  have unfold: "recursivelyExpandSecret d tr dto st =
      (if \<not> truthy (dto_value dto)
       then Inr \<lparr>expandedValue = [], stackTrace = TraceNode ''root'' (dto_value dto) ?env ?path None [], ref_st = st\<rparr>
       else if \<not> canExpandValue d ?env ?path ?key (sr_tags s) then Inl (ForbiddenReference ?env ?path ?key, t)
       else expand_loop d (checkCrossProjectAllowed d) tr
         [\<lparr>it_value = the (dto_value dto), it_secretPath = ?path, it_environment = ?env, it_depth = 0, it_trace = [],
           it_visited = {createSecretId ?env ?path ?key}\<rparr>]
         \<lparr>expandedValue = the (dto_value dto),
          stackTrace = TraceNode ''root'' (dto_value dto) ?env ?path None [], ref_st = t\<rparr>)"
    if "fetchSecret d ?env ?path ?key st = (s, t)" for d :: "'x reference_deps" and st s t
    using that by (simp only: recursivelyExpandSecret_def Let_def prod.case)
  have "results_agree d1 d2
      (expand_loop d1 (checkCrossProjectAllowed d1) tr
         [\<lparr>it_value = the (dto_value dto), it_secretPath = ?path, it_environment = ?env, it_depth = 0, it_trace = [],
           it_visited = {createSecretId ?env ?path ?key}\<rparr>]
         \<lparr>expandedValue = the (dto_value dto),
          stackTrace = TraceNode ''root'' (dto_value dto) ?env ?path None [], ref_st = t1\<rparr>)
      (expand_loop d2 (checkCrossProjectAllowed d2) tr
         [\<lparr>it_value = the (dto_value dto), it_secretPath = ?path, it_environment = ?env, it_depth = 0, it_trace = [],
           it_visited = {createSecretId ?env ?path ?key}\<rparr>]
         \<lparr>expandedValue = the (dto_value dto),
          stackTrace = TraceNode ''root'' (dto_value dto) ?env ?path None [], ref_st = t2\<rparr>)"
    by (rule expand_loop_agree [OF assms(1-3) refl])
      (use f1(2) f2(2) assms(6,7) in \<open>simp_all add: expansions_agree_def item_ok_def\<close>)
  with may assms(4,5) f1(2) f2(2) show ?thesis
    unfolding unfold [OF f1(1)] unfold [OF f2(1)]
    by (simp add: results_agree_def expansions_agree_def failures_agree_def del: expand_loop.simps)
qed

section \<open>What a caller learns\<close>

lemma expandSecret_agree:
  assumes "results_agree d1 d2 (recursivelyExpandSecret d1 False dto st1) (recursivelyExpandSecret d2 False dto st2)"
  shows "map_sum fst fst (expandSecret d1 skip dto st1) = map_sum fst fst (expandSecret d2 skip dto st2)"
  using assms
  by (cases "recursivelyExpandSecret d1 False dto st1"; cases "recursivelyExpandSecret d2 False dto st2")
    (auto simp: expandSecret_def results_agree_def expansions_agree_def failures_agree_def)

lemma getExpandedSecretStackTrace_agree:
  assumes "results_agree d1 d2 (recursivelyExpandSecret d1 True dto st1) (recursivelyExpandSecret d2 True dto st2)"
  shows "map_sum fst (\<lambda>e. (expandedValue e, stackTrace e)) (getExpandedSecretStackTrace d1 dto st1) =
    map_sum fst (\<lambda>e. (expandedValue e, stackTrace e)) (getExpandedSecretStackTrace d2 dto st2)"
  using assms
  by (cases "recursivelyExpandSecret d1 True dto st1"; cases "recursivelyExpandSecret d2 True dto st2")
    (auto simp: getExpandedSecretStackTrace_def results_agree_def expansions_agree_def failures_agree_def)

text \<open>
  C9: Expanding a secret reveals nothing that its reader may not read: on two databases that agree
  on the secrets the reader may read and on the folders other projects granted, it gives the same
  value, the same trace and the same error, whatever the hidden values are.
\<close>

theorem expansion_reveals_only_readable:
  assumes "same_readable d1 d2" "projects_ok d1" "projects_ok d2"
    "slug_ok (dto_environment dto)" "path_ok (dto_secretPath dto)"
  shows "map_sum fst fst (expandSecret d1 skip dto no_cache) = map_sum fst fst (expandSecret d2 skip dto no_cache) \<and>
    map_sum fst (\<lambda>e. (expandedValue e, stackTrace e)) (getExpandedSecretStackTrace d1 dto no_cache) =
    map_sum fst (\<lambda>e. (expandedValue e, stackTrace e)) (getExpandedSecretStackTrace d2 dto no_cache)"
  using recursivelyExpandSecret_agree [OF assms(1-3) no_cache_ok no_cache_ok assms(4,5)]
    expandSecret_agree getExpandedSecretStackTrace_agree by blast

text \<open>A small database: one folder, whose secret HIDDEN the reader may not read.\<close>

definition example_refs :: "string \<Rightarrow> string reference_deps" where
  "example_refs hidden =
     \<lparr>decryptSecret = (\<lambda>c. Inr c),
      findByFolderId = (\<lambda>f u. Inr [\<lparr>sec_key = ''A'', sec_userId = None, sec_encryptedValue = Some ''1'', sec_tags = None\<rparr>,
         \<lparr>sec_key = ''H'', sec_userId = None, sec_encryptedValue = Some hidden, sec_tags = None\<rparr>]),
      findBySecretPath = (\<lambda>p env path. Inr (if env = ''dev'' then Some ''f'' else None)),
      projectId = ''p'', canExpandValue = (\<lambda>env path key tags. key \<noteq> ''H''), userId = None, cross_project = None\<rparr>"

definition example_secret :: secret_dto where
  "example_secret = \<lparr>dto_value = Some ''x${A}'', dto_secretPath = ''/'', dto_environment = ''dev'', dto_secretKey = ''R''\<rparr>"

lemma example_read:
  "read_secret (example_refs hidden) env path key =
     (if env = ''dev'' \<and> key = ''A'' then \<lparr>sr_value = ''1'', sr_tags = None, sr_exists = True\<rparr>
      else if env = ''dev'' \<and> key = ''H'' then \<lparr>sr_value = hidden, sr_tags = None, sr_exists = True\<rparr>
      else missing_secret)"
  by (simp add: read_secret_def local_contents_def example_refs_def)

lemma example_same_readable: "same_readable (example_refs h1) (example_refs h2)"
  unfolding same_readable_def
  by (simp add: example_read cross_granted_def checkCrossProjectAllowed_def)
    (simp add: example_refs_def project_of_def fun_eq_iff)

theorem expansion_reveals_only_readable_witness:
  "map_sum fst fst (expandSecret (example_refs ''1'') False example_secret no_cache) =
   map_sum fst fst (expandSecret (example_refs ''2'') False example_secret no_cache)"
proof -
  have "projects_ok (example_refs h)" for h by (simp add: projects_ok_def example_refs_def)
  moreover have "slug_ok (dto_environment example_secret)" "path_ok (dto_secretPath example_secret)"
    by (simp_all add: example_secret_def slug_ok_def path_ok_def)
  ultimately show ?thesis
    using expansion_reveals_only_readable [OF example_same_readable] by blast
qed

text \<open>The states that a factory reaches by expanding secrets one after the other, with success or not.\<close>

inductive factory_state :: "'c reference_deps \<Rightarrow> ref_state \<Rightarrow> bool" for deps where
  fresh: "factory_state deps no_cache"
| expanded: "factory_state deps st \<Longrightarrow> slug_ok (dto_environment dto) \<Longrightarrow> path_ok (dto_secretPath dto) \<Longrightarrow>
     expandSecret deps skip dto st = Inr (v, st') \<Longrightarrow> factory_state deps st'"
| traced: "factory_state deps st \<Longrightarrow> slug_ok (dto_environment dto) \<Longrightarrow> path_ok (dto_secretPath dto) \<Longrightarrow>
     getExpandedSecretStackTrace deps dto st = Inr e \<Longrightarrow> factory_state deps (ref_st e)"
| expansion_failed: "factory_state deps st \<Longrightarrow> slug_ok (dto_environment dto) \<Longrightarrow> path_ok (dto_secretPath dto) \<Longrightarrow>
     expandSecret deps skip dto st = Inl (err, st') \<Longrightarrow> factory_state deps st'"
| trace_failed: "factory_state deps st \<Longrightarrow> slug_ok (dto_environment dto) \<Longrightarrow> path_ok (dto_secretPath dto) \<Longrightarrow>
     getExpandedSecretStackTrace deps dto st = Inl (err, st') \<Longrightarrow> factory_state deps st'"

lemma factory_state_ok:
  assumes "projects_ok deps" "factory_state deps st"
  shows "cache_ok deps st"
  using assms(2)
proof (induction rule: factory_state.induct)
  case fresh
  show ?case by simp
next
  case (expanded st dto skip v st')
  from recursivelyExpandSecret_agree [OF same_readable_refl assms(1,1) expanded.IH expanded.IH expanded(2,3), of False]
    expanded.IH expanded(4) show ?case
    by (auto simp: expandSecret_def rbind_Inr_iff results_agree_def expansions_agree_def split: if_splits)
next
  case (traced st dto e)
  from recursivelyExpandSecret_agree [OF same_readable_refl assms(1,1) traced.IH traced.IH traced(2,3), of True]
    traced(4) show ?case
    by (auto simp: getExpandedSecretStackTrace_def results_agree_def expansions_agree_def)
next
  case (expansion_failed st dto skip err st')
  from expansion_failed(4) have "recursivelyExpandSecret deps False dto st = Inl (err, st')"
    by (cases "recursivelyExpandSecret deps False dto st") (auto simp: expandSecret_def split: if_splits)
  with recursivelyExpandSecret_agree [OF same_readable_refl assms(1,1) expansion_failed.IH expansion_failed.IH expansion_failed(2,3), of False]
  show ?case by (simp add: results_agree_def failures_agree_def)
next
  case (trace_failed st dto err st')
  from recursivelyExpandSecret_agree [OF same_readable_refl assms(1,1) trace_failed.IH trace_failed.IH trace_failed(2,3), of True]
    trace_failed(4) show ?case
    by (auto simp: getExpandedSecretStackTrace_def results_agree_def failures_agree_def)
qed

text \<open>
  C34: The cache of the factory is transparent: whatever secrets it expanded before, or failed to expand, a secret expands
  to the value, and fails with the error, that a fresh factory gives.
\<close>

theorem factory_cache_transparent:
  assumes "factory_state deps st" "projects_ok deps" "slug_ok (dto_environment dto)" "path_ok (dto_secretPath dto)"
  shows "map_sum fst fst (expandSecret deps skip dto st) = map_sum fst fst (expandSecret deps skip dto no_cache)"
  using recursivelyExpandSecret_agree [OF same_readable_refl assms(2,2) factory_state_ok [OF assms(2,1)] no_cache_ok assms(3,4)]
  by (rule expandSecret_agree)

lemma example_expands: "map_sum fst fst (expandSecret (example_refs ''1'') False example_secret no_cache) = Inr (Some ''x1'')"
  by code_simp

theorem factory_cache_transparent_witness:
  "\<exists>st. factory_state (example_refs ''1'') st \<and>
     map_sum fst fst (expandSecret (example_refs ''1'') False example_secret st) = Inr (Some ''x1'')"
proof -
  have ok: "projects_ok (example_refs ''1'')" "slug_ok (dto_environment example_secret)"
    "path_ok (dto_secretPath example_secret)"
    by (simp_all add: projects_ok_def example_refs_def example_secret_def slug_ok_def path_ok_def)
  from example_expands obtain v st where "expandSecret (example_refs ''1'') False example_secret no_cache = Inr (v, st)"
    by (cases "expandSecret (example_refs ''1'') False example_secret no_cache") auto
  with ok have "factory_state (example_refs ''1'') st" by (auto intro: factory_state.intros)
  with factory_cache_transparent [OF this ok, of False] example_expands show ?thesis by auto
qed

section \<open>The loop ends\<close>

text \<open>
  C38: The expansion always ends: no run of its loop is infinite, whatever the secrets refer to, also
  when they refer to each other in a circle.
\<close>

theorem expansion_terminates:
  "wfP (\<lambda>(stack', ex') (stack, ex). \<exists>item rest pushed. stack = item # rest \<and>
     expand_item deps enabled tr item ex = Inr (pushed, ex') \<and> stack' = pushed @ rest)"
proof -
  have "wf (inv_image {(x, y). x < y} (\<lambda>(stack, ex). mset (map depth_left stack)))"
    by (intro wf_inv_image wf)
  then show ?thesis
    unfolding wfp_def by (rule wf_subset) (auto simp del: map_append mset_map dest: expand_item_decreases)
qed

section \<open>The depth of the trace\<close>

fun trace_height :: "TSecretReferenceTraceNode \<Rightarrow> nat" where
  "trace_height (TraceNode k v e p s cs) = foldr max (map (\<lambda>c. Suc (trace_height c)) cs) 0"

lemma foldr_max_le: "foldr max (map f xs) (0 :: nat) \<le> n \<longleftrightarrow> (\<forall>x \<in> set xs. f x \<le> n)"
  by (induction xs) auto

lemma trace_height_le: "trace_height (TraceNode k v e p s cs) \<le> n \<longleftrightarrow> (\<forall>c \<in> set cs. Suc (trace_height c) \<le> n)"
  by (simp add: foldr_max_le)

lemma trace_height_add_child:
  "trace_height t \<le> n \<Longrightarrow> length path < n \<Longrightarrow> trace_height c = 0 \<Longrightarrow> trace_height (add_child path c t) \<le> n"
proof (induction path c t arbitrary: n rule: add_child.induct)
  case (1 c k v e p s cs)
  then show ?case by (auto simp: trace_height_le simp del: trace_height.simps)
next
  case (2 i path c k v e p s cs)
  show ?case
  proof (cases "i < length cs")
    case True
    from "2.prems" obtain m where n: "n = Suc m" by (cases n) auto
    with "2.prems" True have "trace_height (add_child path c (cs ! i)) \<le> m"
      by (intro "2.IH" [OF True]) (auto simp: trace_height_le simp del: trace_height.simps)
    with "2.prems"(1) True n show ?thesis
      by (auto simp: trace_height_le simp del: trace_height.simps dest!: set_update_subset_insert [THEN subsetD])
  next
    case False
    with "2.prems" show ?thesis by simp
  qed
qed

definition traced_item :: "bool \<Rightarrow> stack_item \<Rightarrow> bool" where
  "traced_item tr item \<longleftrightarrow> (tr \<longrightarrow> length (it_trace item) = it_depth item)"

definition MAX_TRACE_HEIGHT :: nat where
  "MAX_TRACE_HEIGHT = Suc MAX_SECRET_REFERENCE_DEPTH"

lemma expand_reference_trace:
  assumes "expand_reference deps enabled tr item name ex = Inr (ps, ex')" "traced_item tr item"
    "it_depth item \<le> MAX_SECRET_REFERENCE_DEPTH" "trace_height (stackTrace ex) \<le> MAX_TRACE_HEIGHT"
  shows "list_all (traced_item tr) ps \<and> trace_height (stackTrace ex') \<le> MAX_TRACE_HEIGHT"
proof -
  have leaf: "trace_height node = 0" if "tn_children node = []" for node
    using that by (cases node) simp
  from expand_reference_step [OF assms(1)] show ?thesis
  proof (elim disjE exE conjE)
    fix node
    assume node: "tn_children node = []"
      "stackTrace ex' = (if tr then add_child (it_trace item) node (stackTrace ex) else stackTrace ex)"
      "\<forall>p \<in> set ps. it_depth p = Suc (it_depth item) \<and> (tr \<longrightarrow> length (it_trace p) = Suc (length (it_trace item)))"
    with assms(2) have "list_all (traced_item tr) ps" by (auto simp: list_all_iff traced_item_def)
    moreover have "trace_height (stackTrace ex') \<le> MAX_TRACE_HEIGHT"
      using trace_height_add_child [OF assms(4) _ leaf [OF node(1)], of "it_trace item"] assms(2-4)
      by (simp add: node(2) traced_item_def MAX_TRACE_HEIGHT_def)
    ultimately show ?thesis ..
  qed (use assms(4) in simp)
qed

lemma expand_references_trace:
  "expand_references deps enabled tr item names pushed ex = Inr (ps, ex') \<Longrightarrow> traced_item tr item \<Longrightarrow>
    it_depth item \<le> MAX_SECRET_REFERENCE_DEPTH \<Longrightarrow> trace_height (stackTrace ex) \<le> MAX_TRACE_HEIGHT \<Longrightarrow>
    list_all (traced_item tr) pushed \<Longrightarrow>
    list_all (traced_item tr) ps \<and> trace_height (stackTrace ex') \<le> MAX_TRACE_HEIGHT"
proof (induction names arbitrary: pushed ex)
  case (Cons name names)
  then obtain qs e where q: "expand_reference deps enabled tr item name ex = Inr (qs, e)"
    and rest: "expand_references deps enabled tr item names (qs @ pushed) e = Inr (ps, ex')"
    by (auto simp: rbind_Inr_iff)
  from expand_reference_trace [OF q Cons.prems(2-4)] Cons.prems(5) show ?case
    by (intro Cons.IH [OF rest Cons.prems(2,3)]) simp_all
qed simp

lemma expand_loop_trace:
  "expand_loop deps enabled tr stack ex = Inr ex' \<Longrightarrow> list_all (traced_item tr) stack \<Longrightarrow>
    trace_height (stackTrace ex) \<le> MAX_TRACE_HEIGHT \<Longrightarrow> trace_height (stackTrace ex') \<le> MAX_TRACE_HEIGHT"
proof (induction deps enabled tr stack ex rule: expand_loop.induct)
  case (2 deps enabled tr item stack ex)
  from "2.prems"(1) obtain ps e where step: "expand_item deps enabled tr item ex = Inr (ps, e)"
    and rest: "expand_loop deps enabled tr (ps @ stack) e = Inr ex'"
    by (auto split: sum.splits)
  have "list_all (traced_item tr) ps \<and> trace_height (stackTrace e) \<le> MAX_TRACE_HEIGHT"
  proof (cases "it_depth item > MAX_SECRET_REFERENCE_DEPTH")
    case True
    with step "2.prems" show ?thesis by (simp add: expand_item_def)
  next
    case False
    let ?names = "references (it_value item)"
    let ?ex = "if cross_slugs ?names = [] then ex
      else ex\<lparr>ref_st := resolveProjectSlugs deps (cross_slugs ?names) (ref_st ex)\<rparr>"
    from step False have "expand_references deps enabled tr item ?names [] ?ex = Inr (ps, e)"
      by (simp add: expand_item_def Let_def)
    then show ?thesis by (rule expand_references_trace) (use "2.prems" False in auto)
  qed
  with "2.IH" [OF step refl rest] "2.prems"(2) show ?case by simp
qed simp

text \<open>
  The trace of references is at most eleven levels deep below the expanded secret, however the
  secrets refer to each other.
\<close>

theorem trace_depth_bounded:
  assumes "getExpandedSecretStackTrace deps dto st = Inr ex"
  shows "trace_height (stackTrace ex) \<le> 11"
proof -
  have "trace_height (stackTrace ex) \<le> MAX_TRACE_HEIGHT"
    using assms
    by (auto simp: getExpandedSecretStackTrace_def recursivelyExpandSecret_def Let_def traced_item_def
        simp del: expand_loop.simps elim!: expand_loop_trace split: if_splits prod.splits)
  then show ?thesis by (simp add: MAX_TRACE_HEIGHT_def MAX_SECRET_REFERENCE_DEPTH_def)
qed

text \<open>Two secrets that refer to each other: the second level repeats the first and stops there.\<close>

definition circular_refs :: "string reference_deps" where
  "circular_refs = (example_refs [])\<lparr>findByFolderId := (\<lambda>f u.
     Inr [\<lparr>sec_key = ''A'', sec_userId = None, sec_encryptedValue = Some ''${B}'', sec_tags = None\<rparr>,
          \<lparr>sec_key = ''B'', sec_userId = None, sec_encryptedValue = Some ''${A}'', sec_tags = None\<rparr>])\<rparr>"

lemma circular_trace:
  "map_sum fst (\<lambda>e. (expandedValue e, trace_height (stackTrace e)))
     (getExpandedSecretStackTrace circular_refs
        \<lparr>dto_value = Some ''${B}'', dto_secretPath = ''/'', dto_environment = ''dev'', dto_secretKey = ''A''\<rparr> no_cache) =
   Inr (''${B}'', 2)"
  by code_simp

theorem trace_depth_bounded_witness:
  "\<exists>ex. getExpandedSecretStackTrace circular_refs
     \<lparr>dto_value = Some ''${B}'', dto_secretPath = ''/'', dto_environment = ''dev'', dto_secretKey = ''A''\<rparr> no_cache = Inr ex \<and>
     trace_height (stackTrace ex) \<le> 11"
proof -
  let ?r = "getExpandedSecretStackTrace circular_refs
     \<lparr>dto_value = Some ''${B}'', dto_secretPath = ''/'', dto_environment = ''dev'', dto_secretKey = ''A''\<rparr> no_cache"
  from circular_trace obtain ex where ex: "?r = Inr ex" by (cases ?r) auto
  from trace_depth_bounded [OF this] ex show ?thesis by blast
qed

section \<open>Where the value of a reference depends on its neighbours\<close>

text \<open>Two environments with a secret A each; B of the second refers to its own A.\<close>

definition two_environments :: "string reference_deps" where
  "two_environments =
     (let row = (\<lambda>k v. \<lparr>sec_key = k, sec_userId = None, sec_encryptedValue = Some v, sec_tags = None\<rparr>)
      in (example_refs [])\<lparr>
        findBySecretPath := (\<lambda>p env path. Inr (if env = ''dev'' \<or> env = ''prod'' then Some env else None)),
        findByFolderId := (\<lambda>f u. Inr (if f = ''dev'' then [row ''A'' ''d'']
           else [row ''A'' ''p'', row ''B'' ''${A}'']))\<rparr>)"

definition dev_secret :: "string \<Rightarrow> secret_dto" where
  "dev_secret v = \<lparr>dto_value = Some v, dto_secretPath = ''/'', dto_environment = ''dev'', dto_secretKey = ''R''\<rparr>"

text \<open>
  A reference inside an inlined secret of another environment may be replaced by the secret of
  that name in the environment of the outer value: here the reference to B of the second environment,
  which stands for p, becomes d when the outer value refers to its own A after it, and p otherwise.
\<close>

theorem inlined_reference_captured:
  "map_sum fst fst (expandSecret two_environments False (dev_secret ''${prod.B}'') no_cache) = Inr (Some ''p'') \<and>
   map_sum fst fst (expandSecret two_environments False (dev_secret ''${A} ${prod.B}'') no_cache) = Inr (Some ''d p'') \<and>
   map_sum fst fst (expandSecret two_environments False (dev_secret ''${prod.B} ${A}'') no_cache) = Inr (Some ''d d'')"
  by code_simp

end
