(* ===== verification/SecretImport.thy ===== *)
theory SecretImport
  imports SecretReference
begin

text \<open>
  Secrets imported from other folders (\<open>backend/src/services/secret-import/secret-import-fns.ts\<close>): the
  walk over the imports of imports, the filter of what the reader may see, imports from other
  projects, replicated imports, and the expansion of the imported values.

  The code hands the array of secrets of one import to the work item of the imports below it, which
  appends to it later. Arrays are therefore cells of a store, named by their position, and an append
  changes the cell. Database reads, decryption and the access check are parameters; the reads return
  what the database holds and none of them fails, except the one whose failure the code handles. The tree
  of folders is the parameter \<open>folderAt\<close> (the folder that a list of names leads to in an environment), and the
  grants to other projects are the rows of their table. The objects that group rows are taken as maps.
\<close>

section \<open>Grouping\<close>

text \<open>\<open>groupBy(xs, f)[k]\<close> and \<open>?.[0]\<close> of it.\<close>

definition group_of :: "('a \<Rightarrow> 'k) \<Rightarrow> 'a list \<Rightarrow> 'k \<Rightarrow> 'a list" where
  "group_of f xs k = filter (\<lambda>x. f x = k) xs"

definition first_of :: "'a list \<Rightarrow> 'a option" where
  "first_of xs = (case xs of [] \<Rightarrow> None | x # _ \<Rightarrow> Some x)"

text \<open>\<open>Object.values\<close> lists the keys that are array indexes first, in numerical order.\<close>

definition is_digit :: "char \<Rightarrow> bool" where
  "is_digit c \<longleftrightarrow> (let n = of_char c :: nat in 48 \<le> n \<and> n \<le> 57)"

definition digits_value :: "string \<Rightarrow> nat" where
  "digits_value s = foldl (\<lambda>n c. 10 * n + (of_char c - 48)) 0 s"

definition is_array_index :: "string \<Rightarrow> bool" where
  "is_array_index s \<longleftrightarrow> s \<noteq> [] \<and> list_all is_digit s \<and> (s = ''0'' \<or> hd s \<noteq> CHR ''0'') \<and> digits_value s < 2 ^ 32 - 1"

fun first_by_key :: "('a \<Rightarrow> string) \<Rightarrow> 'a list \<Rightarrow> string set \<Rightarrow> 'a list" where
  "first_by_key f [] seen = []"
| "first_by_key f (x # xs) seen =
     (if f x \<in> seen then first_by_key f xs seen else x # first_by_key f xs (insert (f x) seen))"

definition unique :: "('a \<Rightarrow> string) \<Rightarrow> 'a list \<Rightarrow> 'a list" where
  "unique f xs =
     (let ys = first_by_key f xs {}
      in sort_key (\<lambda>x. digits_value (f x)) (filter (\<lambda>x. is_array_index (f x)) ys) @
         filter (\<lambda>x. \<not> is_array_index (f x)) ys)"

section \<open>Data\<close>

record import_env =
  ie_id :: string
  ie_slug :: string
  ie_name :: string
  ie_projectId :: "string option"

record secret_import =
  im_id :: string
  im_folderId :: string
  im_importPath :: string
  im_importEnv :: import_env
  im_isReserved :: bool
  im_isReplication :: bool

record import_folder =
  if_id :: string
  if_envId :: string
  if_path :: string

record 'c imported_secret =
  is_id :: string
  is_key :: string
  is_folderId :: string
  is_personal :: bool
  is_tags :: "string list"
  is_metadata :: "(string \<times> 'c option \<times> string option) list"
  is_encryptedValue :: "'c option"
  is_encryptedComment :: "'c option"
  is_skipMultilineEncoding :: bool

record import_secret =
  os_id :: string
  os_key :: string
  os_tags :: "string list"
  os_secretValue :: string
  os_secretValueHidden :: bool
  os_secretComment :: string
  os_metadata :: "(string \<times> string \<times> bool) list"
  os_environment :: string
  os_secretPath :: string
  os_skipMultilineEncoding :: bool

record access_scope =
  as_environment :: string
  as_secretPath :: string

record 's TSecretImportSecretsV2 =
  pi_secretPath :: string
  pi_environment :: string
  pi_accessScope :: access_scope
  pi_environmentInfo :: import_env
  pi_folderId :: "string option"
  pi_id :: string
  pi_importFolderId :: string
  pi_crossProjectImport :: bool
  pi_secrets :: 's

datatype PersonalOverridesBehavior = Priority | IncludeAll | NeverInclude

record 'c import_deps =
  folderAt :: "string \<Rightarrow> string list \<Rightarrow> string option"
  findSharedSecrets :: "string list \<Rightarrow> 'c imported_secret list"
  findSecretsWithPersonal :: "string list \<Rightarrow> string \<Rightarrow> 'c imported_secret list"
  sortByKey :: "'c imported_secret list \<Rightarrow> 'c imported_secret list"
  findImportsByFolderIds :: "string list \<Rightarrow> secret_import list"
  findImportsByIds :: "string list \<Rightarrow> unit + secret_import list"
  decryptor :: "'c option \<Rightarrow> string"
  projectDecryptor :: "string \<Rightarrow> 'c option \<Rightarrow> string"
  hasSecretAccess :: "string \<Rightarrow> string \<Rightarrow> string \<Rightarrow> string list \<Rightarrow> bool"
  importAccessScopeByFolderId :: "string \<Rightarrow> access_scope option"
  viewSecretValue :: bool
  im_userId :: "string option"
  personalOverridesBehavior :: "PersonalOverridesBehavior option"
  im_projectId :: "string option"
  folderGrants :: "(string \<times> string) list option"
  im_crossProjectAllowed :: bool

section \<open>Folders by their paths\<close>

definition removeTrailingSlash :: "string \<Rightarrow> string" where
  "removeTrailingSlash s =
     (if s = ''/'' then s else if s \<noteq> [] \<and> last s = CHR ''/'' then butlast s else s)"

definition path_names :: "string \<Rightarrow> string list" where
  "path_names p = filter (\<lambda>x. x \<noteq> []) (split_char (CHR ''/'') p)"

definition find_folder :: "'c import_deps \<Rightarrow> string \<Rightarrow> string \<Rightarrow> import_folder option" where
  "find_folder deps envId secretPath =
     (let path = removeTrailingSlash secretPath
      in map_option (\<lambda>i. \<lparr>if_id = i, if_envId = envId, if_path = path\<rparr>) (folderAt deps envId (path_names path)))"

definition findByManySecretPath :: "'c import_deps \<Rightarrow> (string \<times> string) list \<Rightarrow> import_folder option list" where
  "findByManySecretPath deps query = map (\<lambda>(envId, secretPath). find_folder deps envId secretPath) query"

section \<open>Reserved imports\<close>

definition LEVEL_BREAK :: nat where
  "LEVEL_BREAK = 10"

definition getImportUniqKey :: "string \<Rightarrow> string \<Rightarrow> string" where
  "getImportUniqKey envSlug path = envSlug @ ''='' @ path"

definition import_key :: "secret_import \<Rightarrow> string" where
  "import_key im = getImportUniqKey (ie_slug (im_importEnv im)) (im_importPath im)"

definition uuid_char :: "char \<Rightarrow> bool" where
  "uuid_char c \<longleftrightarrow> (let n = of_char c :: nat in (97 \<le> n \<and> n \<le> 102) \<or> (48 \<le> n \<and> n \<le> 57) \<or> n = 45)"

text \<open>The leftmost match of \<open>/__reserve_replication_([a-f0-9-]{36})\<close>.\<close>

definition reserved_prefix :: string where
  "reserved_prefix = ''/__reserve_replication_''"

fun reserved_match :: "string \<Rightarrow> string option" where
  "reserved_match [] = None"
| "reserved_match (c # s) =
     (let rest = drop (length reserved_prefix) (c # s);
          i = take 36 rest
      in if starts_with (c # s) reserved_prefix \<and> length i = 36 \<and> list_all uuid_char i then Some i
         else reserved_match s)"

definition reserved_id :: "secret_import \<Rightarrow> string option" where
  "reserved_id im = (if im_isReserved im then reserved_match (im_importPath im) else None)"

definition processReservedImports :: "'c import_deps \<Rightarrow> secret_import list \<Rightarrow> secret_import list" where
  "processReservedImports deps imports =
     (let reservedImportIds = List.map_filter reserved_id imports
      in if reservedImportIds = [] then imports
         else case findImportsByIds deps reservedImportIds of
           Inl e \<Rightarrow> imports
         | Inr referencedImports \<Rightarrow>
             (let importDetails = map_of (rev (map (\<lambda>r. (im_id r, r)) referencedImports))
              in map (\<lambda>im. case Option.bind (reserved_id im) importDetails of
                   None \<Rightarrow> im
                 | Some r \<Rightarrow> im\<lparr>im_importPath := im_importPath r, im_importEnv := im_importEnv r\<rparr>) imports))"

section \<open>The walk over imports\<close>

record import_item =
  wi_imports :: "secret_import list"
  wi_depth :: nat
  wi_parent :: nat
  wi_inherited :: "string option"

record import_state =
  cyclicDetector :: "string set"
  arrays :: "import_secret list list"
  processedImports :: "nat TSecretImportSecretsV2 list"

definition push_all :: "nat \<Rightarrow> import_secret list \<Rightarrow> import_state \<Rightarrow> import_state" where
  "push_all r xs st = st\<lparr>arrays := (arrays st)[r := (arrays st ! r) @ xs]\<rparr>"

definition MASK :: string where
  "MASK = ''<hidden-by-sanctum>''"

text \<open>With priority, a personal secret replaces the shared one of its name in its folder.\<close>

definition personal_first :: "'c imported_secret list \<Rightarrow> 'c imported_secret list" where
  "personal_first secrets =
     map snd (foldl (\<lambda>m el. let key = is_key el @ ''-'' @ is_folderId el
        in if map_of m key = None \<or> is_personal el then AList.update key el m else m) [] secrets)"

definition secrets_of_folders :: "'c import_deps \<Rightarrow> string list \<Rightarrow> 'c imported_secret list" where
  "secrets_of_folders deps folderIds =
     (if truthy (im_userId deps) \<and> (personalOverridesBehavior deps = Some Priority \<or>
           personalOverridesBehavior deps = Some IncludeAll)
      then let allSecrets = findSecretsWithPersonal deps folderIds (the (im_userId deps))
           in if personalOverridesBehavior deps = Some Priority then sortByKey deps (personal_first allSecrets)
              else allSecrets
      else findSharedSecrets deps folderIds)"

definition folder_place :: "import_folder option \<Rightarrow> string" where
  "folder_place f = (case f of None \<Rightarrow> ''undefined-undefined'' | Some x \<Rightarrow> if_envId x @ ''-'' @ if_path x)"

definition source_folder :: "import_folder option list \<Rightarrow> secret_import \<Rightarrow> import_folder option" where
  "source_folder folders im =
     (case first_of (group_of folder_place folders (ie_id (im_importEnv im) @ ''-'' @ im_importPath im)) of
        Some f \<Rightarrow> f | None \<Rightarrow> None)"

definition from_other_project :: "'c import_deps \<Rightarrow> secret_import \<Rightarrow> bool" where
  "from_other_project deps im \<longleftrightarrow> \<not> im_isReserved im \<and> truthy (im_projectId deps) \<and>
     truthy (ie_projectId (im_importEnv im)) \<and> ie_projectId (im_importEnv im) \<noteq> im_projectId deps"

definition granted_folders :: "'c import_deps \<Rightarrow> import_folder option list \<Rightarrow> secret_import list \<Rightarrow> string list" where
  "granted_folders deps folders imports =
     (case folderGrants deps of
        None \<Rightarrow> []
      | Some grants \<Rightarrow>
          if \<not> truthy (im_projectId deps) \<or> \<not> im_crossProjectAllowed deps then []
          else let items = List.map_filter (\<lambda>im. if from_other_project deps im
                     then (case source_folder folders im of
                             Some f \<Rightarrow> if if_id f = [] then None else Some (if_id f) | None \<Rightarrow> None)
                     else None) imports
               in if items = [] then []
                     else map fst (filter (\<lambda>(source, target). source \<in> set items \<and> target = the (im_projectId deps)) grants))"

definition access_scope_of :: "'c import_deps \<Rightarrow> secret_import \<Rightarrow> access_scope" where
  "access_scope_of deps im =
     (case (if from_other_project deps im then importAccessScopeByFolderId deps (im_folderId im) else None) of
        Some sc \<Rightarrow> sc
      | None \<Rightarrow> \<lparr>as_environment = ie_slug (im_importEnv im), as_secretPath = im_importPath im\<rparr>)"

definition inherited_path :: "'c import_deps \<Rightarrow> secret_import \<Rightarrow> string option \<Rightarrow> string option" where
  "inherited_path deps im inherited =
     (case importAccessScopeByFolderId deps (im_folderId im) of Some sc \<Rightarrow> Some (as_secretPath sc) | None \<Rightarrow> inherited)"

definition visible_secrets ::
  "'c import_deps \<Rightarrow> import_folder option list \<Rightarrow> 'c imported_secret list \<Rightarrow> string option \<Rightarrow> nat \<Rightarrow> secret_import \<Rightarrow>
   import_secret list" where
  "visible_secrets deps folders secrets inherited i im =
     (let decrypt = (if from_other_project deps im then projectDecryptor deps (the (ie_projectId (im_importEnv im)))
                     else decryptor deps);
          scope = access_scope_of deps im;
          own = (case nth_opt folders i of Some (Some f) \<Rightarrow> group_of is_folderId secrets (if_id f) | _ \<Rightarrow> [])
      in map (\<lambda>item. \<lparr>os_id = is_id item, os_key = is_key item, os_tags = is_tags item,
             os_secretValue = (if viewSecretValue deps then decrypt (is_encryptedValue item) else MASK),
             os_secretValueHidden = (\<not> viewSecretValue deps),
             os_secretComment = decrypt (is_encryptedComment item),
             os_metadata = map (\<lambda>(key, enc, v). (key,
                (case enc of Some c \<Rightarrow> decrypt (Some c) | None \<Rightarrow> (case v of Some x \<Rightarrow> x | None \<Rightarrow> [])), enc \<noteq> None))
                (is_metadata item),
             os_environment = ie_slug (im_importEnv im),
             os_secretPath = (case inherited_path deps im inherited of Some p \<Rightarrow> p | None \<Rightarrow> []),
             os_skipMultilineEncoding = is_skipMultilineEncoding item\<rparr>)
           (filter (\<lambda>item. hasSecretAccess deps (as_environment scope) (as_secretPath scope) (is_key item) (is_tags item))
              own))"

text \<open>One import of a batch. Its secrets become a new array, kept by what it pushes and by the result.\<close>

definition process_import ::
  "'c import_deps \<Rightarrow> import_folder option list \<Rightarrow> 'c imported_secret list \<Rightarrow> secret_import list \<Rightarrow> string list \<Rightarrow>
   import_item \<Rightarrow> bool \<Rightarrow> import_item list \<times> import_state \<Rightarrow> nat \<times> secret_import \<Rightarrow> import_item list \<times> import_state"
  where
  "process_import deps folders secrets deeperImports granted item isFirstIteration acc entry =
     (case acc of (pushed, st) \<Rightarrow> case entry of (i, im) \<Rightarrow>
       let source = source_folder folders im;
           sourceId = (case source of Some f \<Rightarrow> if_id f | None \<Rightarrow> []);
           isCrossProject = from_other_project deps im
       in if isCrossProject \<and> sourceId \<notin> set granted then acc
          else let own = visible_secrets deps folders secrets (wi_inherited item) i im;
                   r = length (arrays st);
                   st1 = st\<lparr>arrays := arrays st @ [own]\<rparr>;
                   below = group_of im_folderId deeperImports sourceId;
                   pushed1 = (if \<not> isCrossProject \<and> below \<noteq> []
                     then \<lparr>wi_imports = below, wi_depth = wi_depth item + 1, wi_parent = r,
                           wi_inherited = inherited_path deps im (wi_inherited item)\<rparr> # pushed
                     else pushed)
               in (pushed1,
                   if isFirstIteration
                   then st1\<lparr>processedImports := processedImports st1 @
                     [\<lparr>pi_secretPath = im_importPath im, pi_environment = ie_slug (im_importEnv im),
                       pi_accessScope = access_scope_of deps im, pi_environmentInfo = im_importEnv im,
                       pi_folderId = (case nth_opt folders i of Some (Some f) \<Rightarrow> Some (if_id f) | _ \<Rightarrow> None),
                       pi_id = im_id im, pi_importFolderId = im_folderId im,
                       pi_crossProjectImport = isCrossProject, pi_secrets = r\<rparr>]\<rparr>
                   else push_all (wi_parent item) own st1))"

definition process_item :: "'c import_deps \<Rightarrow> import_item \<Rightarrow> import_state \<Rightarrow> import_item list \<times> import_state" where
  "process_item deps item st =
     (if wi_depth item > LEVEL_BREAK then ([], st)
      else let sanitized = filter (\<lambda>im. import_key im \<notin> cyclicDetector st) (wi_imports item);
               uniqueImports = first_by_key import_key sanitized {};
               folders = findByManySecretPath deps
                 (map (\<lambda>im. (ie_id (im_importEnv im), im_importPath im)) uniqueImports);
               folderIds = map if_id (List.map_filter id folders)
           in if sanitized = [] \<or> folderIds = [] then ([], st)
              else let secrets = secrets_of_folders deps folderIds;
                       batch = processReservedImports deps uniqueImports;
                       st1 = st\<lparr>cyclicDetector := cyclicDetector st \<union> set (map import_key batch)\<rparr>;
                       granted = granted_folders deps folders batch;
                       deeperImports = findImportsByFolderIds deps folderIds;
                       isFirstIteration = (processedImports st = [])
                   in foldl (process_import deps folders secrets deeperImports granted item isFirstIteration)
                        ([], st1) (enumerate 0 batch))"

lemma process_import_pushed:
  "\<forall>p \<in> set (fst acc). wi_depth p = Suc (wi_depth item) \<Longrightarrow>
     \<forall>p \<in> set (fst (process_import deps folders secrets deeper granted item first acc entry)).
       wi_depth p = Suc (wi_depth item)"
  by (cases acc; cases entry) (simp add: process_import_def Let_def)

lemma process_imports_pushed:
  "\<forall>p \<in> set (fst acc). wi_depth p = Suc (wi_depth item) \<Longrightarrow>
     \<forall>p \<in> set (fst (foldl (process_import deps folders secrets deeper granted item first) acc es)).
       wi_depth p = Suc (wi_depth item)"
proof (induction es arbitrary: acc)
  case (Cons e es)
  from Cons.IH [OF process_import_pushed [OF Cons.prems]] show ?case by simp
qed simp

lemma process_item_pushed:
  "fst (process_item deps item st) = [] \<or>
     wi_depth item \<le> LEVEL_BREAK \<and> (\<forall>p \<in> set (fst (process_item deps item st)). wi_depth p = Suc (wi_depth item))"
proof (cases "wi_depth item > LEVEL_BREAK")
  case True
  then show ?thesis by (simp add: process_item_def)
next
  case False
  have "\<forall>p \<in> set (fst (process_item deps item st)). wi_depth p = Suc (wi_depth item)"
    unfolding process_item_def Let_def by (auto dest!: process_imports_pushed [THEN bspec, rotated])
  with False show ?thesis by simp
qed

function import_loop :: "'c import_deps \<Rightarrow> import_item list \<Rightarrow> import_state \<Rightarrow> import_state" where
  "import_loop deps [] st = st"
| "import_loop deps (item # stack) st =
     import_loop deps (fst (process_item deps item st) @ stack) (snd (process_item deps item st))"
  by pat_completeness auto
termination
proof (relation "inv_image {(x, y). x < y} (\<lambda>(deps, stack, st). mset (map (\<lambda>x. Suc LEVEL_BREAK - wi_depth x) stack))")
  show "wf (inv_image {(x, y). x < y}
      (\<lambda>(deps, stack, st). mset (map (\<lambda>x. Suc LEVEL_BREAK - wi_depth x) stack)))"
    by (intro wf_inv_image wf)
qed (use deeper_items_decrease [OF process_item_pushed] in \<open>simp del: map_append mset_map\<close>)

text \<open>The expansion of the imported values; an expansion that fails leaves its value.\<close>

definition expand_import ::
  "(secret_dto \<Rightarrow> bool \<Rightarrow> unit + string option) \<Rightarrow> import_secret list TSecretImportSecretsV2 \<Rightarrow>
   import_secret list TSecretImportSecretsV2" where
  "expand_import expand p =
     p\<lparr>pi_secrets := map (\<lambda>s.
         if os_secretValueHidden s then s
         else case expand \<lparr>dto_value = Some (os_secretValue s), dto_secretPath = pi_secretPath p,
                 dto_environment = pi_environment p, dto_secretKey = os_key s\<rparr> (os_skipMultilineEncoding s) of
             Inl e \<Rightarrow> s
           | Inr v \<Rightarrow> s\<lparr>os_secretValue := (case v of Some x \<Rightarrow> x | None \<Rightarrow> [])\<rparr>)
         (unique os_key (pi_secrets p))\<rparr>"

definition fnSecretsV2FromImports ::
  "'c import_deps \<Rightarrow> (secret_dto \<Rightarrow> bool \<Rightarrow> unit + string option) option \<Rightarrow> secret_import list \<Rightarrow>
   import_secret list TSecretImportSecretsV2 list" where
  "fnSecretsV2FromImports deps expandSecretReferences rootSecretImports =
     (let st = import_loop deps
                 [\<lparr>wi_imports = rootSecretImports, wi_depth = 0, wi_parent = 0, wi_inherited = None\<rparr>]
                 \<lparr>cyclicDetector = {}, arrays = [[]], processedImports = []\<rparr>;
          result = map (\<lambda>p. \<lparr>pi_secretPath = pi_secretPath p, pi_environment = pi_environment p,
             pi_accessScope = pi_accessScope p, pi_environmentInfo = pi_environmentInfo p,
             pi_folderId = pi_folderId p, pi_id = pi_id p, pi_importFolderId = pi_importFolderId p,
             pi_crossProjectImport = pi_crossProjectImport p, pi_secrets = arrays st ! pi_secrets p\<rparr>)
             (processedImports st)
      in case expandSecretReferences of None \<Rightarrow> result | Some expand \<Rightarrow> map (expand_import expand) result)"

section \<open>The walk of the older secrets\<close>

record 'c TSecretImportSecrets =
  ti_secretPath :: string
  ti_environment :: string
  ti_environmentInfo :: import_env
  ti_folderId :: "string option"
  ti_id :: string
  ti_importFolderId :: string
  ti_secrets :: "('c imported_secret \<times> string) list"

function fnSecretsFromImports ::
  "'c import_deps \<Rightarrow> nat \<Rightarrow> secret_import list \<Rightarrow> string set \<Rightarrow> 'c TSecretImportSecrets list \<times> string set" where
  "fnSecretsFromImports deps depth possibleCyclicImports cyclic =
     (if depth \<ge> LEVEL_BREAK then ([], cyclic)
      else let uniqueImports = first_by_key import_key
                 (filter (\<lambda>im. import_key im \<notin> cyclic) possibleCyclicImports) {};
               importedFolders = List.map_filter id (findByManySecretPath deps
                 (map (\<lambda>im. (ie_id (im_importEnv im), im_importPath im)) uniqueImports))
           in if importedFolders = [] then ([], cyclic)
              else let folderIds = map if_id importedFolders;
                       importedSecrets = findSharedSecrets deps folderIds;
                       cyclic1 = cyclic \<union> set (map import_key uniqueImports);
                       deeperImports = findImportsByFolderIds deps folderIds;
                       (deeper, cyclic2) = (if deeperImports = [] then ([], cyclic1)
                         else fnSecretsFromImports deps (depth + 1)
                           (filter (\<lambda>im. \<not> im_isReplication im) deeperImports) cyclic1)
                   in (map (\<lambda>(i, im).
                         let sourceId = (case source_folder (map Some importedFolders) im of
                               Some f \<Rightarrow> if_id f | None \<Rightarrow> []);
                             nested = (case first_of (group_of ti_importFolderId deeper sourceId) of
                               Some d \<Rightarrow> ti_secrets d | None \<Rightarrow> []);
                             folderId = map_option if_id (nth_opt importedFolders i);
                             own = (case folderId of
                               Some f \<Rightarrow> group_of is_folderId importedSecrets f | None \<Rightarrow> [])
                         in \<lparr>ti_secretPath = im_importPath im, ti_environment = ie_slug (im_importEnv im),
                             ti_environmentInfo = im_importEnv im, ti_folderId = folderId, ti_id = im_id im,
                             ti_importFolderId = im_folderId im,
                             ti_secrets = map (\<lambda>x. (x, ie_slug (im_importEnv im))) own @ nested\<rparr>)
                       (enumerate 0 uniqueImports), cyclic2))"
  by pat_completeness auto
termination
  by (relation "measure (\<lambda>(deps, depth, imports, cyclic). LEVEL_BREAK - depth)") auto

declare fnSecretsFromImports.simps [simp del]

end
