(* ===== verification/ImportedSecrets.thy ===== *)
theory ImportedSecrets
  imports SecretImport
begin

text \<open>
  What a reader gets from imports: only secrets that the access check lets through, masked where
  values may not be seen, and from another project only out of a folder it granted. Also where the
  two walks lose or misplace secrets.
\<close>

section \<open>Secrets that a reader may see\<close>

text \<open>
  The imports that the walk meets: the ones it is given, those of a folder, and a replicated import
  with the place of the import it stands for.
\<close>

inductive import_met :: "'c import_deps \<Rightarrow> secret_import list \<Rightarrow> secret_import \<Rightarrow> bool" for deps roots where
  root: "im \<in> set roots \<Longrightarrow> import_met deps roots im"
| below: "im \<in> set (findImportsByFolderIds deps ids) \<Longrightarrow> import_met deps roots im"
| replicated: "import_met deps roots im \<Longrightarrow> findImportsByIds deps ids = Inr rs \<Longrightarrow> r \<in> set rs \<Longrightarrow>
     import_met deps roots (im\<lparr>im_importPath := im_importPath r, im_importEnv := im_importEnv r\<rparr>)"

text \<open>The table of grants names the folder, and the target is the project of the reader.\<close>

definition folder_granted :: "'c import_deps \<Rightarrow> string \<Rightarrow> bool" where
  "folder_granted deps folderId \<longleftrightarrow> im_crossProjectAllowed deps \<and>
     (\<exists>grants. folderGrants deps = Some grants \<and> (folderId, the (im_projectId deps)) \<in> set grants)"

text \<open>
  A secret that may be shown: a stored secret that passed the access check at the place of an import that the walk
  met. When that import is from another project, the folder the secret is stored in is the one at the place of the
  import, and it is granted.
\<close>

definition imported_from ::
  "'c import_deps \<Rightarrow> secret_import list \<Rightarrow> import_secret \<Rightarrow> secret_import \<Rightarrow> 'c imported_secret \<Rightarrow> bool" where
  "imported_from deps roots s im item \<longleftrightarrow> import_met deps roots im \<and> os_environment s = ie_slug (im_importEnv im) \<and>
     (\<exists>ids. item \<in> set (secrets_of_folders deps ids)) \<and>
     os_id s = is_id item \<and> os_key s = is_key item \<and> os_tags s = is_tags item \<and>
     hasSecretAccess deps (as_environment (access_scope_of deps im)) (as_secretPath (access_scope_of deps im))
       (os_key s) (os_tags s) \<and>
     (from_other_project deps im \<longrightarrow> folder_granted deps (is_folderId item) \<and>
       map_option if_id (find_folder deps (ie_id (im_importEnv im)) (im_importPath im)) = Some (is_folderId item))"

definition visible_secret :: "'c import_deps \<Rightarrow> secret_import list \<Rightarrow> import_secret \<Rightarrow> bool" where
  "visible_secret deps roots s \<longleftrightarrow>
     (\<exists>im item. imported_from deps roots s im item) \<and>
     os_secretValueHidden s = (\<not> viewSecretValue deps) \<and>
     (viewSecretValue deps \<or> os_secretValue s = MASK)"

definition listed_ok :: "'c import_deps \<Rightarrow> 's TSecretImportSecretsV2 \<Rightarrow> bool" where
  "listed_ok deps p \<longleftrightarrow> (pi_crossProjectImport p \<longrightarrow> (\<exists>f. pi_folderId p = Some f \<and> folder_granted deps f \<and>
     map_option if_id (find_folder deps (ie_id (pi_environmentInfo p)) (pi_secretPath p)) = Some f))"

definition import_ok :: "'c import_deps \<Rightarrow> secret_import list \<Rightarrow> import_state \<Rightarrow> bool" where
  "import_ok deps roots st \<longleftrightarrow>
     list_all (list_all (visible_secret deps roots)) (arrays st) \<and>
     list_all (\<lambda>p. pi_secrets p < length (arrays st) \<and> listed_ok deps p) (processedImports st)"

text \<open>Identifiers of environments have one length (they are UUIDs), so a place can be read only one way.\<close>

definition ids_ok :: "'c import_deps \<Rightarrow> secret_import list \<Rightarrow> bool" where
  "ids_ok deps roots \<longleftrightarrow> (\<exists>n. \<forall>im. import_met deps roots im \<longrightarrow> length (ie_id (im_importEnv im)) = n)"

lemma split_char_snoc: "split_char c (xs @ [c]) = split_char c xs @ [[]]"
proof (induction xs)
  case (Cons x xs)
  obtain y ys where ys: "split_char c xs = y # ys" using split_char_not_Nil [of c xs] by (cases "split_char c xs") auto
  with Cons show ?case by simp
qed simp

lemma path_names_stripped [simp]: "path_names (removeTrailingSlash p) = path_names p"
proof (cases "p = ''/'' \<or> p = [] \<or> last p \<noteq> CHR ''/''")
  case True
  then show ?thesis by (auto simp: removeTrailingSlash_def)
next
  case False
  then obtain q where "p = q @ [CHR ''/'']" by (metis append_butlast_last_id)
  with False show ?thesis by (simp add: removeTrailingSlash_def path_names_def split_char_snoc)
qed

lemma find_folder_Some:
  "find_folder deps e p = Some f \<longleftrightarrow>
     folderAt deps e (path_names p) = Some (if_id f) \<and> if_envId f = e \<and> if_path f = removeTrailingSlash p"
  by (cases f) (auto simp: find_folder_def Let_def)

text \<open>The folders that were read, one for each import of the batch that is not replicated.\<close>

definition folders_read ::
  "'c import_deps \<Rightarrow> secret_import list \<Rightarrow> import_folder option list \<Rightarrow> bool" where
  "folders_read deps roots folders \<longleftrightarrow> (\<forall>f. Some f \<in> set folders \<longrightarrow>
     (\<exists>x. import_met deps roots x \<and> find_folder deps (ie_id (im_importEnv x)) (im_importPath x) = Some f))"

definition entry_ok ::
  "'c import_deps \<Rightarrow> secret_import list \<Rightarrow> import_folder option list \<Rightarrow> nat \<times> secret_import \<Rightarrow> bool" where
  "entry_ok deps roots folders entry \<longleftrightarrow> import_met deps roots (snd entry) \<and>
     (\<not> im_isReserved (snd entry) \<longrightarrow>
        nth_opt folders (fst entry) = Some (find_folder deps (ie_id (im_importEnv (snd entry))) (im_importPath (snd entry))))"

lemma source_folderD:
  assumes "source_folder folders im = Some f"
  shows "Some f \<in> set folders" "if_envId f @ ''-'' @ if_path f = ie_id (im_importEnv im) @ ''-'' @ im_importPath im"
proof -
  have "Some f \<in> set (group_of folder_place folders (ie_id (im_importEnv im) @ ''-'' @ im_importPath im))"
    using assms by (auto simp: source_folder_def first_of_def split: list.splits)
  then show "Some f \<in> set folders" "if_envId f @ ''-'' @ if_path f = ie_id (im_importEnv im) @ ''-'' @ im_importPath im"
    by (auto simp: group_of_def folder_place_def)
qed

text \<open>The folder whose grant is looked up is the folder that is read.\<close>

lemma source_is_read:
  assumes "ids_ok deps roots" "folders_read deps roots folders" "import_met deps roots im" "source_folder folders im = Some g"
  shows "\<exists>f. find_folder deps (ie_id (im_importEnv im)) (im_importPath im) = Some f \<and> if_id f = if_id g"
proof -
  note g = source_folderD [OF assms(4)]
  obtain x where x: "import_met deps roots x" "find_folder deps (ie_id (im_importEnv x)) (im_importPath x) = Some g"
    using assms(2) g(1) by (auto simp: folders_read_def)
  have "length (ie_id (im_importEnv x)) = length (ie_id (im_importEnv im))"
    using assms(1,3) x(1) by (auto simp: ids_ok_def)
  with g(2) x(2) have same: "ie_id (im_importEnv x) = ie_id (im_importEnv im)" "removeTrailingSlash (im_importPath x) = im_importPath im"
    by (simp_all add: find_folder_Some)
  have "path_names (im_importPath im) = path_names (im_importPath x)" using path_names_stripped [of "im_importPath x"] same(2) by simp
  with same x(2) show ?thesis
    by (intro exI [of _ "\<lparr>if_id = if_id g, if_envId = ie_id (im_importEnv im), if_path = removeTrailingSlash (im_importPath im)\<rparr>"])
      (simp add: find_folder_Some)
qed

lemma granted_import:
  assumes "ids_ok deps roots" "folders_read deps roots folders" "import_met deps roots im"
    and granted: "(case source_folder folders im of Some f \<Rightarrow> if_id f | None \<Rightarrow> []) \<in> set (granted_folders deps folders batch)"
  shows "\<exists>f. find_folder deps (ie_id (im_importEnv im)) (im_importPath im) = Some f \<and> folder_granted deps (if_id f)"
proof -
  have "[] \<notin> set (granted_folders deps folders batch)"
    by (auto simp: granted_folders_def Let_def map_filter_def split: option.splits if_splits)
  with granted obtain g where g: "source_folder folders im = Some g" "if_id g \<in> set (granted_folders deps folders batch)"
    by (cases "source_folder folders im") auto
  have "folder_granted deps (if_id g)"
    using g(2) by (cases "folderGrants deps") (auto simp: granted_folders_def folder_granted_def Let_def split: if_splits)
  with source_is_read [OF assms(1-3) g(1)] show ?thesis by auto
qed

lemma visible_secrets_visible:
  assumes "entry_ok deps roots folders (i, im)" "secrets = secrets_of_folders deps ids"
    and "from_other_project deps im \<longrightarrow>
      (\<exists>f. find_folder deps (ie_id (im_importEnv im)) (im_importPath im) = Some f \<and> folder_granted deps (if_id f))"
  shows "list_all (visible_secret deps roots) (visible_secrets deps folders secrets inherited i im)"
  unfolding list_all_iff
proof
  fix s assume "s \<in> set (visible_secrets deps folders secrets inherited i im)"
  then obtain item where own: "item \<in> set (case nth_opt folders i of Some (Some f) \<Rightarrow> group_of is_folderId secrets (if_id f) | _ \<Rightarrow> [])"
    "hasSecretAccess deps (as_environment (access_scope_of deps im)) (as_secretPath (access_scope_of deps im)) (is_key item) (is_tags item)"
    and s: "os_id s = is_id item" "os_key s = is_key item" "os_tags s = is_tags item" "os_environment s = ie_slug (im_importEnv im)"
      "os_secretValueHidden s = (\<not> viewSecretValue deps)" "viewSecretValue deps \<or> os_secretValue s = MASK"
    unfolding visible_secrets_def Let_def by fastforce
  from own(1) obtain f where f: "nth_opt folders i = Some (Some f)" and mem: "item \<in> set secrets" "is_folderId item = if_id f"
    by (cases "nth_opt folders i") (auto simp: group_of_def split: option.splits)
  note item = mem own(2)
  have "map_option if_id (find_folder deps (ie_id (im_importEnv im)) (im_importPath im)) = Some (is_folderId item) \<and>
      folder_granted deps (is_folderId item)" if "from_other_project deps im"
    using that assms(1,3) f item(2) by (auto simp: entry_ok_def from_other_project_def)
  then have "imported_from deps roots s im item"
    using assms(1,2) item s by (auto simp: imported_from_def entry_ok_def)
  with s(5,6) show "visible_secret deps roots s" by (auto simp: visible_secret_def)
qed

lemma push_all_ok:
  assumes "import_ok deps roots st" "list_all (visible_secret deps roots) xs"
  shows "import_ok deps roots (push_all r xs st)"
proof (cases "r < length (arrays st)")
  case True
  then have "arrays st ! r \<in> set (arrays st)" by simp
  with assms(1) have "list_all (visible_secret deps roots) (arrays st ! r)" by (simp add: import_ok_def list_all_iff)
  with assms True show ?thesis
    by (auto simp: import_ok_def push_all_def list_all_iff dest!: set_update_subset_insert [THEN subsetD])
qed (use assms in \<open>simp add: import_ok_def push_all_def list_update_beyond\<close>)

lemma process_import_ok:
  assumes "ids_ok deps roots" "folders_read deps roots folders" "import_ok deps roots (snd acc)"
    "granted = granted_folders deps folders batch" "secrets = secrets_of_folders deps ids" "entry_ok deps roots folders entry"
  shows "import_ok deps roots (snd (process_import deps folders secrets deeper granted item first acc entry))"
proof -
  obtain pushed st where acc: "acc = (pushed, st)" by (cases acc)
  obtain i im where entry: "entry = (i, im)" by (cases entry)
  from assms(6) entry have met: "import_met deps roots im" and e: "entry_ok deps roots folders (i, im)"
    by (simp_all add: entry_ok_def)
  let ?own = "visible_secrets deps folders secrets (wi_inherited item) i im"
  let ?id = "case source_folder folders im of Some f \<Rightarrow> if_id f | None \<Rightarrow> []"
  show ?thesis
  proof (cases "from_other_project deps im \<and> ?id \<notin> set granted")
    case True
    with assms(3) acc entry show ?thesis by (simp add: process_import_def Let_def)
  next
    case False
    then have grant: "from_other_project deps im \<longrightarrow>
        (\<exists>f. find_folder deps (ie_id (im_importEnv im)) (im_importPath im) = Some f \<and> folder_granted deps (if_id f))"
      using granted_import [OF assms(1,2) met] assms(4) by blast
    note own = visible_secrets_visible [OF e assms(5) grant, of "wi_inherited item"]
    have ok: "import_ok deps roots (st\<lparr>arrays := arrays st @ [?own]\<rparr>)"
      using own assms(3) acc by (auto simp: import_ok_def list_all_iff)
    have listed: "from_other_project deps im \<longrightarrow>
        (\<exists>f. nth_opt folders i = Some (Some f) \<and> folder_granted deps (if_id f) \<and>
           map_option if_id (find_folder deps (ie_id (im_importEnv im)) (im_importPath im)) = Some (if_id f))"
      using grant e by (auto simp: entry_ok_def from_other_project_def)
    from False ok push_all_ok [OF ok own] acc entry show ?thesis
      by (auto simp: process_import_def Let_def) (use listed in \<open>auto simp: import_ok_def listed_ok_def\<close>)
  qed
qed

lemma process_imports_ok:
  assumes "ids_ok deps roots" "folders_read deps roots folders" "granted = granted_folders deps folders batch"
    "secrets = secrets_of_folders deps ids"
  shows "import_ok deps roots (snd acc) \<Longrightarrow> \<forall>e \<in> set es. entry_ok deps roots folders e \<Longrightarrow>
    import_ok deps roots (snd (foldl (process_import deps folders secrets deeper granted item first) acc es))"
proof (induction es arbitrary: acc)
  case (Cons e es)
  from Cons.prems(2) have e: "entry_ok deps roots folders e" by simp
  from Cons.IH [OF process_import_ok [OF assms(1,2) Cons.prems(1) assms(3,4) e]] Cons.prems(2) show ?case by simp
qed simp

definition item_met :: "'c import_deps \<Rightarrow> secret_import list \<Rightarrow> import_item \<Rightarrow> bool" where
  "item_met deps roots item \<longleftrightarrow> list_all (import_met deps roots) (wi_imports item)"

lemma processReservedImports_met:
  assumes "list_all (import_met deps roots) ims"
  shows "list_all (import_met deps roots) (processReservedImports deps ims)"
proof (cases "findImportsByIds deps (List.map_filter reserved_id ims)")
  case (Inr rs)
  have met: "import_met deps roots (im\<lparr>im_importPath := im_importPath r, im_importEnv := im_importEnv r\<rparr>)"
    if "im \<in> set ims" "map_of (rev (map (\<lambda>r. (im_id r, r)) rs)) i = Some r" for im i r
  proof -
    from that(2) have "r \<in> set rs" by (auto dest!: map_of_SomeD)
    with that(1) assms Inr show ?thesis by (auto intro: import_met.replicated simp: list_all_iff)
  qed
  have "import_met deps roots
      (case Option.bind (reserved_id im) (map_of (rev (map (\<lambda>r. (im_id r, r)) rs))) of None \<Rightarrow> im
       | Some r \<Rightarrow> im\<lparr>im_importPath := im_importPath r, im_importEnv := im_importEnv r\<rparr>)" if "im \<in> set ims" for im
    using that met [OF that] assms by (cases "reserved_id im") (auto simp: list_all_iff split: option.splits)
  with assms Inr show ?thesis by (simp add: processReservedImports_def list_all_iff Let_def)
qed (use assms in \<open>simp add: processReservedImports_def Let_def\<close>)

lemma process_import_met:
  assumes "list_all (item_met deps roots) (fst acc)" "set deeper \<subseteq> set (findImportsByFolderIds deps ids)"
  shows "list_all (item_met deps roots)
    (fst (process_import deps folders secrets deeper granted item first acc entry))"
proof -
  have "list_all (import_met deps roots) (group_of im_folderId deeper i)" for i
    using assms(2) by (auto simp: group_of_def list_all_iff intro: import_met.below)
  with assms(1) show ?thesis
    by (cases acc; cases entry) (simp add: process_import_def Let_def item_met_def)
qed

lemma process_imports_met:
  "list_all (item_met deps roots) (fst acc) \<Longrightarrow> set deeper \<subseteq> set (findImportsByFolderIds deps ids) \<Longrightarrow>
    list_all (item_met deps roots)
      (fst (foldl (process_import deps folders secrets deeper granted item first) acc es))"
proof (induction es arbitrary: acc)
  case (Cons e es)
  from Cons.IH [OF process_import_met [OF Cons.prems] Cons.prems(2)] show ?case by simp
qed simp

lemma process_item_met: "list_all (item_met deps roots) (fst (process_item deps item st))"
  unfolding process_item_def Let_def
  by (simp del: foldl_Cons) (blast intro: process_imports_met [OF _ subset_refl, of _ _ "([], _)", simplified])

lemma first_by_key_subset: "x \<in> set (first_by_key f xs seen) \<Longrightarrow> x \<in> set xs"
  by (induction f xs seen rule: first_by_key.induct) (auto split: if_splits)

lemma import_ok_cyclic: "import_ok deps roots (st\<lparr>cyclicDetector := c\<rparr>) = import_ok deps roots st"
  by (simp add: import_ok_def)

lemma processReservedImports_length [simp]: "length (processReservedImports deps ims) = length ims"
  by (simp add: processReservedImports_def Let_def split: sum.split)

lemma processReservedImports_own:
  assumes "i < length ims" "\<not> im_isReserved (processReservedImports deps ims ! i)"
  shows "processReservedImports deps ims ! i = ims ! i"
  using assms
  by (auto simp: processReservedImports_def Let_def reserved_id_def split: sum.splits if_splits option.splits)

lemma process_item_ok:
  assumes "ids_ok deps roots" "import_ok deps roots st" "item_met deps roots item"
  shows "import_ok deps roots (snd (process_item deps item st))"
proof -
  let ?unique = "first_by_key import_key (filter (\<lambda>im. import_key im \<notin> cyclicDetector st) (wi_imports item)) {}"
  let ?folders = "findByManySecretPath deps (map (\<lambda>im. (ie_id (im_importEnv im), im_importPath im)) ?unique)"
  have unique: "list_all (import_met deps roots) ?unique"
    using assms(3) first_by_key_subset by (fastforce simp: item_met_def list_all_iff)
  then have read: "folders_read deps roots ?folders"
    by (auto simp: folders_read_def findByManySecretPath_def list_all_iff)
  have "entry_ok deps roots ?folders (i, processReservedImports deps ?unique ! i)" if "i < length ?unique" for i
    using processReservedImports_met [OF unique] processReservedImports_own [OF that, of deps] that
    by (auto simp: entry_ok_def list_all_length nth_opt_def findByManySecretPath_def)
  then have entries: "\<forall>e \<in> set (enumerate 0 (processReservedImports deps ?unique)). entry_ok deps roots ?folders e"
    by (auto simp: enumerate_eq_zip set_zip)
  show ?thesis
    using assms(2) entries unfolding process_item_def Let_def
    by (auto intro!: process_imports_ok [OF assms(1) read refl refl] simp: import_ok_cyclic simp del: foldl_Cons)
qed

lemma import_loop_ok:
  "ids_ok deps roots \<Longrightarrow> import_ok deps roots st \<Longrightarrow> list_all (item_met deps roots) stack \<Longrightarrow>
    import_ok deps roots (import_loop deps stack st)"
proof (induction deps stack st rule: import_loop.induct)
  case (2 deps item stack st)
  from "2.prems"(3) have item: "item_met deps roots item" by simp
  from "2.IH" [OF "2.prems"(1) process_item_ok [OF "2.prems"(1,2) item]] process_item_met [of deps roots item st] "2.prems"(3)
  show ?case by simp
qed simp

lemma unique_subset: "set (unique f xs) \<subseteq> set xs"
  using first_by_key_subset by (fastforce simp: unique_def Let_def)

lemma expand_import_secrets:
  assumes "s \<in> set (pi_secrets (expand_import expand p))"
  shows "\<exists>t \<in> set (pi_secrets p). os_id s = os_id t \<and> os_environment s = os_environment t \<and> os_key s = os_key t \<and>
    os_tags s = os_tags t \<and> os_secretValueHidden s = os_secretValueHidden t \<and>
    (os_secretValueHidden t \<longrightarrow> os_secretValue s = os_secretValue t)"
  using assms unique_subset [of os_key "pi_secrets p"]
  by (fastforce simp: expand_import_def split: sum.splits)

lemma visible_after_expansion:
  assumes "list_all (visible_secret deps roots) (pi_secrets p)"
  shows "list_all (visible_secret deps roots) (pi_secrets (expand_import expand p))"
  unfolding list_all_iff
proof
  fix s assume "s \<in> set (pi_secrets (expand_import expand p))"
  from expand_import_secrets [OF this] obtain t where t: "t \<in> set (pi_secrets p)"
    "os_id s = os_id t" "os_environment s = os_environment t" "os_key s = os_key t" "os_tags s = os_tags t"
    "os_secretValueHidden s = os_secretValueHidden t" "os_secretValueHidden t \<longrightarrow> os_secretValue s = os_secretValue t"
    by blast
  from assms t(1) have "visible_secret deps roots t" by (simp add: list_all_iff)
  with t(2-7) show "visible_secret deps roots s" unfolding visible_secret_def imported_from_def by auto
qed

lemma expand_import_place [simp]: "listed_ok deps (expand_import expand p) = listed_ok deps p"
  by (simp add: expand_import_def listed_ok_def)

text \<open>
  C21: Every imported secret is a stored secret that passed the access check at the place of an import that the walk
  met; when that import is from another project, the secret is stored in the folder at that place, and the table of
  grants gives this very folder to the project of the reader. A listed import from another project is of such
  a folder too. When the reader may not see values, secrets are masked, also after references are expanded.
\<close>

theorem imported_secrets_are_visible:
  assumes "ids_ok deps roots" "p \<in> set (fnSecretsV2FromImports deps expand roots)"
  shows "(\<forall>s \<in> set (pi_secrets p). (\<exists>im item. imported_from deps roots s im item) \<and>
      (viewSecretValue deps \<or> os_secretValue s = ''<hidden-by-sanctum>'')) \<and>
    (pi_crossProjectImport p \<longrightarrow> (\<exists>f. pi_folderId p = Some f \<and> folder_granted deps f \<and>
       map_option if_id (find_folder deps (ie_id (pi_environmentInfo p)) (pi_secretPath p)) = Some f))"
proof -
  define st where "st = import_loop deps
      [\<lparr>wi_imports = roots, wi_depth = 0, wi_parent = 0, wi_inherited = None\<rparr>]
      \<lparr>cyclicDetector = {}, arrays = [[]], processedImports = []\<rparr>"
  have ok: "import_ok deps roots st"
    unfolding st_def
    by (rule import_loop_ok [OF assms(1)]) (auto simp: import_ok_def item_met_def list_all_iff intro: import_met.root)
  define result where "result = map (\<lambda>p. \<lparr>pi_secretPath = pi_secretPath p, pi_environment = pi_environment p,
      pi_accessScope = pi_accessScope p, pi_environmentInfo = pi_environmentInfo p,
      pi_folderId = pi_folderId p, pi_id = pi_id p, pi_importFolderId = pi_importFolderId p,
      pi_crossProjectImport = pi_crossProjectImport p, pi_secrets = arrays st ! pi_secrets p\<rparr>) (processedImports st)"
  have good: "list_all (visible_secret deps roots) (pi_secrets q) \<and> listed_ok deps q" if "q \<in> set result" for q
    using ok that by (fastforce simp: result_def import_ok_def list_all_iff listed_ok_def)
  have "fnSecretsV2FromImports deps expand roots =
      (case expand of None \<Rightarrow> result | Some e \<Rightarrow> map (expand_import e) result)"
    unfolding fnSecretsV2FromImports_def Let_def result_def st_def ..
  with assms(2) obtain q where q: "q \<in> set result" "p = q \<or> (\<exists>e. p = expand_import e q)"
    by (cases expand) auto
  with good [OF q(1)] visible_after_expansion [of deps roots q]
  have "list_all (visible_secret deps roots) (pi_secrets p)" "listed_ok deps p" by auto
  then show ?thesis by (auto simp: list_all_iff visible_secret_def listed_ok_def MASK_def)
qed

section \<open>Examples\<close>

text \<open>Folders named by their path; each holds one secret, named like it. The folder b imports c, and c imports d.\<close>

definition example_import :: "string \<Rightarrow> string \<Rightarrow> secret_import" where
  "example_import source path = \<lparr>im_id = path, im_folderId = source, im_importPath = path,
     im_importEnv = \<lparr>ie_id = ''e'', ie_slug = ''dev'', ie_name = ''Dev'', ie_projectId = None\<rparr>,
     im_isReserved = False, im_isReplication = False\<rparr>"

definition chain_deps :: "secret_import list \<Rightarrow> string import_deps" where
  "chain_deps imports =
     \<lparr>folderAt = (\<lambda>e names. if names = [''gone''] then None else Some (concat (map (\<lambda>n. CHR ''/'' # n) names))),
      findSharedSecrets = map (\<lambda>f. \<lparr>is_id = f, is_key = f, is_folderId = f, is_personal = False, is_tags = [],
         is_metadata = [], is_encryptedValue = Some f, is_encryptedComment = None, is_skipMultilineEncoding = False\<rparr>),
      findSecretsWithPersonal = (\<lambda>ids u. []), sortByKey = (\<lambda>xs. xs),
      findImportsByFolderIds = (\<lambda>ids. filter (\<lambda>im. im_folderId im \<in> set ids) imports),
      findImportsByIds = (\<lambda>ids. Inr []), decryptor = (\<lambda>c. case c of Some v \<Rightarrow> v | None \<Rightarrow> []),
      projectDecryptor = (\<lambda>p c. []), hasSecretAccess = (\<lambda>env path key tags. key \<noteq> ''/h''),
      importAccessScopeByFolderId = (\<lambda>f. None), viewSecretValue = True, im_userId = None,
      personalOverridesBehavior = None, im_projectId = None, folderGrants = None,
      im_crossProjectAllowed = False\<rparr>"

definition imported_keys :: "secret_import list \<Rightarrow> secret_import list \<Rightarrow> string list list" where
  "imported_keys imports roots =
     map (\<lambda>p. map os_key (pi_secrets p)) (fnSecretsV2FromImports (chain_deps imports) None roots)"

text \<open>Two imports from another project, which granted one of the folders.\<close>

definition foreign_import :: "string \<Rightarrow> secret_import" where
  "foreign_import path = (example_import ''/a'' path)\<lparr>im_importEnv :=
     \<lparr>ie_id = ''g'', ie_slug = ''prod'', ie_name = ''Prod'', ie_projectId = Some ''q''\<rparr>\<rparr>"

definition foreign_deps :: "string import_deps" where
  "foreign_deps = (chain_deps [])\<lparr>im_projectId := Some ''p'', im_crossProjectAllowed := True,
     folderGrants := Some [(''/b'', ''p''), (''/c'', ''r'')]\<rparr>"

lemma foreign_met: "import_met foreign_deps [foreign_import ''/b'', foreign_import ''/c''] im \<Longrightarrow> length (ie_id (im_importEnv im)) = 1"
  by (induction rule: import_met.induct)
    (auto simp: foreign_import_def foreign_deps_def chain_deps_def example_import_def)

theorem imported_secrets_are_visible_witness:
  "\<exists>p. map (\<lambda>p. map os_key (pi_secrets p)) (fnSecretsV2FromImports foreign_deps None [foreign_import ''/b'', foreign_import ''/c'']) = [[''/b'']] \<and>
     p \<in> set (fnSecretsV2FromImports foreign_deps None [foreign_import ''/b'', foreign_import ''/c'']) \<and>
     (\<exists>f. pi_folderId p = Some f \<and> folder_granted foreign_deps f) \<and>
     (\<exists>s im item. s \<in> set (pi_secrets p) \<and> imported_from foreign_deps [foreign_import ''/b'', foreign_import ''/c''] s im item)"
proof -
  let ?r = "fnSecretsV2FromImports foreign_deps None [foreign_import ''/b'', foreign_import ''/c'']"
  have keys: "map (\<lambda>p. map os_key (pi_secrets p)) ?r = [[''/b'']]" "map pi_crossProjectImport ?r = [True]" by code_simp+
  then obtain p s where p: "p \<in> set ?r" "s \<in> set (pi_secrets p)" "pi_crossProjectImport p"
    by (cases ?r) (auto simp: map_eq_Cons_conv)
  have "ids_ok foreign_deps [foreign_import ''/b'', foreign_import ''/c'']" using foreign_met by (auto simp: ids_ok_def)
  note good = imported_secrets_are_visible [OF this p(1)]
  from good [THEN conjunct2] p(3) have "\<exists>f. pi_folderId p = Some f \<and> folder_granted foreign_deps f" by blast
  moreover from good [THEN conjunct1] p(2)
  have "\<exists>s im item. s \<in> set (pi_secrets p) \<and> imported_from foreign_deps [foreign_import ''/b'', foreign_import ''/c''] s im item" by blast
  ultimately show ?thesis using keys(1) p(1) by (intro exI [of _ p] conjI)
qed

text \<open>
  Secrets are imported through at most two levels: of a folder that imports b, which imports c,
  which imports d, the walk finds the secrets of b and c but not those of d, though it visits d,
  because they are added to an array that was copied before.
\<close>

theorem third_level_imports_lost:
  "imported_keys [example_import ''/b'' ''/c'', example_import ''/c'' ''/d''] [example_import ''/b'' ''/c''] =
     [[''/c'', ''/d'']] \<and>
   imported_keys [example_import ''/b'' ''/c'', example_import ''/c'' ''/d''] [example_import ''/a'' ''/b''] =
     [[''/b'', ''/c'']] \<and>
   cyclicDetector (import_loop (chain_deps [example_import ''/b'' ''/c'', example_import ''/c'' ''/d''])
     [\<lparr>wi_imports = [example_import ''/a'' ''/b''], wi_depth = 0, wi_parent = 0, wi_inherited = None\<rparr>]
     \<lparr>cyclicDetector = {}, arrays = [[]], processedImports = []\<rparr>) = {''dev=/b'', ''dev=/c'', ''dev=/d''}"
  by code_simp

text \<open>In the older walk a missing folder shifts the secrets of the imports after it.\<close>

lemma legacy_missing_folder_shifts:
  "map (\<lambda>t. (ti_secretPath t, map (is_key \<circ> fst) (ti_secrets t)))
     (fst (fnSecretsFromImports (chain_deps []) 0
        [example_import ''/a'' ''/gone'', example_import ''/a'' ''/b''] {})) =
   [(''/gone'', [''/b'']), (''/b'', [])]"
  by code_simp

text \<open>Of the imports of an imported folder the older walk keeps the first only.\<close>

lemma legacy_keeps_first_nested:
  "map (\<lambda>t. (ti_secretPath t, map (is_key \<circ> fst) (ti_secrets t)))
     (fst (fnSecretsFromImports (chain_deps [example_import ''/b'' ''/c'', example_import ''/b'' ''/d'']) 0
        [example_import ''/a'' ''/b''] {})) =
   [(''/b'', [''/b'', ''/c''])]"
  by code_simp

end
