(* ===== verification/Dotenv.thy ===== *)
theory Dotenv
  imports SecretReference
begin

text \<open>
  Environment files (\<open>backend/src/lib/dotenv/index.ts\<close>): secrets written as lines \<open>KEY=value\<close>, with
  values quoted and escaped where they need it, and read back. An object is the list of its entries
  in the order of \<open>Object.entries\<close>; white space is that of ASCII.
\<close>

section \<open>Writing and reading\<close>

abbreviation LF :: char where "LF \<equiv> CHR 0x0A"
abbreviation CR :: char where "CR \<equiv> CHR 0x0D"
abbreviation QUOTE :: char where "QUOTE \<equiv> CHR 0x22"
abbreviation BACKSLASH :: char where "BACKSLASH \<equiv> CHR 0x5C"

definition valid_env_key :: "string \<Rightarrow> bool" where
  "valid_env_key key \<longleftrightarrow> key \<noteq> [] \<and> list_all (\<lambda>c. c \<noteq> LF \<and> c \<noteq> CR \<and> c \<noteq> CHR ''='') key"

definition needs_quotes :: "string \<Rightarrow> bool" where
  "needs_quotes value \<longleftrightarrow>
     list_ex (\<lambda>c. c = LF \<or> c = CR \<or> c = QUOTE \<or> c = BACKSLASH \<or> c = CHR ''#'' \<or> c = CHR ''='') value \<or>
     value \<noteq> trim value"

definition escapeValue :: "string \<Rightarrow> string" where
  "escapeValue value =
     (if needs_quotes value
      then [QUOTE] @
           replaceAll [CR] [BACKSLASH, CHR ''r'']
             (replaceAll [LF] [BACKSLASH, CHR ''n'']
               (replaceAll [QUOTE] [BACKSLASH, QUOTE]
                 (replaceAll [BACKSLASH] [BACKSLASH, BACKSLASH] value))) @ [QUOTE]
      else value)"

definition unescapeValue :: "string \<Rightarrow> string" where
  "unescapeValue raw =
     (if starts_with raw [QUOTE] \<and> ends_with raw [QUOTE] \<and> length raw \<ge> 2
      then replaceAll [BACKSLASH, BACKSLASH] [BACKSLASH]
             (replaceAll [BACKSLASH, QUOTE] [QUOTE]
               (replaceAll [BACKSLASH, CHR ''n''] [LF]
                 (replaceAll [BACKSLASH, CHR ''r''] [CR] (butlast (tl raw)))))
      else raw)"

datatype dotenv_error = InvalidName string

fun serialize_lines :: "(string \<times> string) list \<Rightarrow> dotenv_error + string list" where
  "serialize_lines [] = Inr []"
| "serialize_lines ((key, value) # entries) =
     (if \<not> valid_env_key key then Inl (InvalidName key)
      else rbind (serialize_lines entries) (\<lambda>ls. Inr ((key @ CHR ''='' # escapeValue value) # ls)))"

definition serializeEnvFile :: "(string \<times> string) list \<Rightarrow> dotenv_error + string" where
  "serializeEnvFile entries = rbind (serialize_lines entries) (\<lambda>ls. Inr (join_char LF ls))"

definition parse_line :: "string \<Rightarrow> (string \<times> string) option" where
  "parse_line line =
     (let trimmed = trim line
      in if trimmed \<noteq> [] \<and> \<not> starts_with trimmed ''#''
         then (case dropWhile (\<lambda>c. c \<noteq> CHR ''='') line of
                 [] \<Rightarrow> None
               | eq # rest \<Rightarrow> Some (trim (takeWhile (\<lambda>c. c \<noteq> CHR ''='') line), unescapeValue rest))
         else None)"

definition parseEnvFile :: "string \<Rightarrow> (string \<times> string) list" where
  "parseEnvFile content =
     foldl (\<lambda>result (key, value). AList.update key value result) []
       (List.map_filter parse_line (split_char LF content))"

section \<open>Replacing\<close>

lemma replaceAll_char: "replaceAll [a] r s = concat (map (\<lambda>c. if c = a then r else [c]) s)"
  by (induction s) (auto simp: starts_with_def)

text \<open>Replacing a two-letter escape in a text that is a sequence of letters and escapes.\<close>

lemma replaceAll_blocks:
  assumes "b \<noteq> x"
  shows "(\<forall>c \<in> set cs. e c = [b, x] \<and> f c = r \<or> (\<exists>d. d \<noteq> b \<and> e c = [d] \<and> f c = [d]) \<or>
      (\<exists>y. y \<noteq> x \<and> e c = [b, y] \<and> f c = [b, y])) \<Longrightarrow>
    successively (\<lambda>c d. e c = [b, b] \<longrightarrow> hd (e d) \<noteq> x) cs \<Longrightarrow>
    replaceAll [b, x] r (concat (map e cs)) = concat (map f cs)"
proof (induction cs)
  case (Cons c cs)
  have tail: "replaceAll [b, x] r (concat (map e cs)) = concat (map f cs)"
    using Cons by (auto simp: successively_Cons)
  have nonempty: "d \<in> set cs \<Longrightarrow> e d \<noteq> []" for d using Cons.prems(1) by fastforce
  have stop: "\<not> starts_with (b # concat (map e cs)) [b, x]" if "e c = [b, b]"
  proof (cases cs)
    case (Cons d ds)
    with Cons.prems(2) that nonempty [of d] show ?thesis
      by (cases "e d") (auto simp: starts_with_def)
  qed (simp add: starts_with_def)
  from Cons.prems(1) consider (hit) "e c = [b, x]" "f c = r" | (letter) d where "d \<noteq> b" "e c = [d]" "f c = [d]" |
    (other) y where "y \<noteq> x" "e c = [b, y]" "f c = [b, y]" by auto
  then show ?case
  proof cases
    case hit
    with tail show ?thesis by (simp add: starts_with_def)
  next
    case letter
    with tail show ?thesis by (simp add: starts_with_def)
  next
    case other
    with tail stop show ?thesis by (cases "y = b") (auto simp: starts_with_def)
  qed
qed simp

lemma replaceAll_pairs: "replaceAll [b, b] [b] (concat (map (\<lambda>c. if c = b then [b, b] else [c]) cs)) = cs"
  by (induction cs) (auto simp: starts_with_def)

section \<open>Escapes\<close>

text \<open>The text after the escapes, letter by letter, as the four replacements undo them.\<close>

definition esc :: "bool \<Rightarrow> bool \<Rightarrow> bool \<Rightarrow> char \<Rightarrow> string" where
  "esc r n q c =
     (if c = BACKSLASH then [BACKSLASH, BACKSLASH]
      else if c = CR \<and> r then [BACKSLASH, CHR ''r'']
      else if c = LF \<and> n then [BACKSLASH, CHR ''n'']
      else if c = QUOTE \<and> q then [BACKSLASH, QUOTE]
      else [c])"

lemma concat_map_concat: "concat (map f (concat (map g xs))) = concat (map (\<lambda>x. concat (map f (g x))) xs)"
  by (induction xs) auto

lemma escape_chain:
  "replaceAll [CR] [BACKSLASH, CHR ''r''] (replaceAll [LF] [BACKSLASH, CHR ''n'']
     (replaceAll [QUOTE] [BACKSLASH, QUOTE] (replaceAll [BACKSLASH] [BACKSLASH, BACKSLASH] v))) =
   concat (map (esc True True True) v)"
  unfolding replaceAll_char concat_map_concat by (rule arg_cong [of _ _ concat]) (simp add: esc_def)

text \<open>A letter n or r right after a backslash is what the reader takes for an escape.\<close>

definition escape_safe :: "string \<Rightarrow> bool" where
  "escape_safe v \<longleftrightarrow> successively (\<lambda>c d. c = BACKSLASH \<longrightarrow> d \<noteq> CHR ''n'' \<and> d \<noteq> CHR ''r'') v"

lemma unescape_chain:
  assumes "escape_safe v"
  shows "replaceAll [BACKSLASH, BACKSLASH] [BACKSLASH] (replaceAll [BACKSLASH, QUOTE] [QUOTE]
      (replaceAll [BACKSLASH, CHR ''n''] [LF]
        (replaceAll [BACKSLASH, CHR ''r''] [CR] (concat (map (esc True True True) v))))) = v"
proof -
  have 1: "replaceAll [BACKSLASH, CHR ''r''] [CR] (concat (map (esc True True True) v)) =
      concat (map (esc False True True) v)"
    by (rule replaceAll_blocks)
      (use assms in \<open>auto simp: esc_def escape_safe_def elim!: successively_mono\<close>)
  have 2: "replaceAll [BACKSLASH, CHR ''n''] [LF] (concat (map (esc False True True) v)) =
      concat (map (esc False False True) v)"
    by (rule replaceAll_blocks)
      (use assms in \<open>auto simp: esc_def escape_safe_def elim!: successively_mono\<close>)
  have 3: "replaceAll [BACKSLASH, QUOTE] [QUOTE] (concat (map (esc False False True) v)) =
      concat (map (esc False False False) v)"
    by (rule replaceAll_blocks)
      (use assms in \<open>auto simp: esc_def escape_safe_def elim!: successively_mono\<close>)
  have "esc False False False = (\<lambda>c. if c = BACKSLASH then [BACKSLASH, BACKSLASH] else [c])"
    by (auto simp: esc_def)
  then show ?thesis by (simp only: 1 2 3 replaceAll_pairs)
qed

lemma unescape_escape:
  assumes "escape_safe v"
  shows "unescapeValue (escapeValue v) = v"
proof (cases "needs_quotes v")
  case True
  have "ends_with (QUOTE # s @ [QUOTE]) [QUOTE]" for s by (simp add: ends_with_def starts_with_def)
  with True unescape_chain [OF assms] show ?thesis
    by (simp add: escapeValue_def unescapeValue_def escape_chain starts_with_def del: replaceAll.simps)
next
  case False
  then have "\<not> starts_with v [QUOTE]" by (cases v) (auto simp: needs_quotes_def starts_with_def)
  with False show ?thesis by (simp add: escapeValue_def unescapeValue_def)
qed

lemma escaped_one_line: "LF \<notin> set (escapeValue v)"
  by (auto simp: escapeValue_def escape_chain esc_def needs_quotes_def list_ex_iff split: if_splits
      simp del: replaceAll.simps)

section \<open>Files\<close>

text \<open>Names that survive the reader, which trims them and skips comments.\<close>

definition env_entry_ok :: "string \<times> string \<Rightarrow> bool" where
  "env_entry_ok entry \<longleftrightarrow> (case entry of (key, value) \<Rightarrow>
     valid_env_key key \<and> trim key = key \<and> hd key \<noteq> CHR ''#'' \<and> escape_safe value)"

lemma trim_keeps_head:
  assumes "s \<noteq> []" "\<not> is_ws (hd s)"
  shows "trim s \<noteq> [] \<and> hd (trim s) = hd s"
proof -
  obtain c t where s: "s = c # t" using assms(1) by (cases s) auto
  have "dropWhile is_ws (rev t @ [c]) = dropWhile is_ws (rev t) @ [c]"
    using assms(2) s by (induction "rev t" arbitrary: t rule: list.induct) (auto simp: dropWhile_append)
  with s assms(2) show ?thesis by (simp add: trim_def trim_left_def)
qed

lemma trimmed_head:
  assumes "trim s = s" "s \<noteq> []"
  shows "\<not> is_ws (hd s)"
proof
  assume "is_ws (hd s)"
  with assms(2) have "length (trim_left s) < length s"
    by (cases s) (auto simp: trim_left_def less_Suc_eq_le length_dropWhile_le)
  moreover have "length (trim s) \<le> length (trim_left s)"
    using length_dropWhile_le [of is_ws "rev (trim_left s)"] by (simp add: trim_def)
  ultimately show False using assms(1) by simp
qed

lemma parse_written_line:
  assumes "env_entry_ok (key, value)"
  shows "parse_line (key @ CHR ''='' # escapeValue value) = Some (key, value)"
proof -
  let ?line = "key @ CHR ''='' # escapeValue value"
  from assms have key: "key \<noteq> []" "trim key = key" "hd key \<noteq> CHR ''#''" "CHR ''='' \<notin> set key" "escape_safe value"
    by (auto simp: env_entry_ok_def valid_env_key_def list_all_iff)
  have "\<not> is_ws (hd ?line)" using trimmed_head [OF key(2,1)] key(1) by simp
  from trim_keeps_head [OF _ this] key(1) have "trim ?line \<noteq> [] \<and> hd (trim ?line) = hd key" by simp
  then have "trim ?line \<noteq> [] \<and> \<not> starts_with (trim ?line) ''#''"
    using key(3) by (cases "trim ?line") (auto simp: starts_with_def)
  moreover have "takeWhile (\<lambda>c. c \<noteq> CHR ''='') ?line = key"
    "dropWhile (\<lambda>c. c \<noteq> CHR ''='') ?line = CHR ''='' # escapeValue value"
    using key(4) by (induction key) auto
  ultimately show ?thesis by (simp add: parse_line_def key(2) unescape_escape [OF key(5)])
qed

lemma split_join_char:
  "ls \<noteq> [] \<Longrightarrow> \<forall>l \<in> set ls. c \<notin> set l \<Longrightarrow> split_char c (join_char c ls) = ls"
proof (induction ls)
  case (Cons l ls)
  have app: "split_char c (l @ c # s) = l # split_char c s" if "c \<notin> set l" for s
    using that by (induction l) auto
  show ?case
  proof (cases ls)
    case Nil
    with Cons.prems show ?thesis by (simp add: split_char_no_sep)
  next
    case (Cons m ms)
    with Cons.prems Cons.IH app show ?thesis by simp
  qed
qed simp

lemma serialize_lines_ok:
  "\<forall>entry \<in> set entries. env_entry_ok entry \<Longrightarrow>
     serialize_lines entries = Inr (map (\<lambda>(key, value). key @ CHR ''='' # escapeValue value) entries)"
  by (induction entries) (auto simp: env_entry_ok_def)

lemma update_new_key: "key \<notin> fst ` set m \<Longrightarrow> AList.update key value m = m @ [(key, value)]"
  by (induction m) auto

lemma foldl_update_distinct:
  "distinct (map fst (m @ entries)) \<Longrightarrow> foldl (\<lambda>r (key, value). AList.update key value r) m entries = m @ entries"
  by (induction entries arbitrary: m) (auto simp: update_new_key)

text \<open>
  C40: What is written is read back: for distinct names that the writer accepts, that are not blank at their ends and
  do not begin with #, and values in which no backslash stands before n or r, the file that is written
  parses to the entries it was written from.
\<close>

theorem env_file_round_trip:
  assumes "distinct (map fst entries)" "\<forall>entry \<in> set entries. env_entry_ok entry"
  shows "\<exists>text. serializeEnvFile entries = Inr text \<and> parseEnvFile text = entries"
proof -
  let ?line = "\<lambda>(key, value). key @ CHR ''='' # escapeValue value"
  let ?text = "join_char LF (map ?line entries)"
  have "LF \<notin> set (?line entry)" if "entry \<in> set entries" for entry
    using assms(2) that escaped_one_line by (auto simp: env_entry_ok_def valid_env_key_def list_all_iff)
  then have split: "split_char LF ?text = (if entries = [] then [[]] else map ?line entries)"
    using split_join_char [of "map ?line entries" LF] by auto
  have "parse_line (?line entry) = Some entry" if "entry \<in> set entries" for entry
    using assms(2) that parse_written_line by (cases entry) auto
  then have "List.map_filter parse_line (map ?line entries) = entries"
    by (induction entries) (auto simp: map_filter_simps)
  then have "List.map_filter parse_line (split_char LF ?text) = entries"
    by (simp add: split map_filter_simps parse_line_def)
  with foldl_update_distinct [of "[]" entries] assms(1) serialize_lines_ok [OF assms(2)] show ?thesis
    by (simp add: serializeEnvFile_def parseEnvFile_def)
qed

theorem env_file_round_trip_witness:
  "\<exists>text. serializeEnvFile [(''A'', ''say '' @ [QUOTE] @ ''hi''), (''B'', ''x'' @ [LF] @ '' y'')] = Inr text \<and>
     parseEnvFile text = [(''A'', ''say '' @ [QUOTE] @ ''hi''), (''B'', ''x'' @ [LF] @ '' y'')]"
  by (rule env_file_round_trip)
    (simp_all add: env_entry_ok_def valid_env_key_def trim_def trim_left_def is_ws_def escape_safe_def)

text \<open>A Windows path is read back with a line break in it.\<close>

lemma env_file_breaks_paths:
  "serializeEnvFile [(''A'', ''C:'' @ [BACKSLASH] @ ''new'')] = Inr (''A='' @ [QUOTE] @ ''C:'' @ [BACKSLASH, BACKSLASH] @ ''new'' @ [QUOTE]) \<and>
   parseEnvFile (''A='' @ [QUOTE] @ ''C:'' @ [BACKSLASH, BACKSLASH] @ ''new'' @ [QUOTE]) =
     [(''A'', ''C:'' @ [BACKSLASH, LF] @ ''ew'')]"
  by code_simp

text \<open>The writer accepts names that the reader drops or changes.\<close>

lemma env_file_loses_names:
  "map_sum id parseEnvFile (serializeEnvFile [(''#A'', ''1''), ('' B'', ''2'')]) = Inr [(''B'', ''2'')]"
  by code_simp

end
