(* ===== verification/ApprovalTypes.thy ===== *)
theory ApprovalTypes
  imports Prelude
begin

text \<open>
  Approval policies and requests (\<open>backend/src/services/approval-policy\<close>): the enumerations, the rows of
  the tables, and the reads and writes of the two data access layers (\<open>approval-policy-dal.ts\<close>,
  \<open>approval-request-dal.ts\<close>).

  The tables are lists in the order of insertion. Ids of rows come from one counter, of which only
  freshness matters; users, groups, projects and organizations are strings. A read that sorts by
  \<open>createdAt\<close> descending is the reverse of the table, a read without an order is the order of the
  table. Reads of the replica are reads of the state: a replica that lags is not modelled. The \<open>uuid\<close>
  columns are never empty strings, and the check constraints of the tables give an approver row either a
  user or a group.
\<close>

section \<open>Enumerations\<close>

datatype ApprovalPolicyType = PamAccess | CertRequest | CertCodeSigning

datatype ApprovalPolicyScope = Project | PkiApplication | Signer | PamFolder

datatype ApproverType = Group | User

datatype ApprovalRequestStatus = Pending | Approved | Rejected | Expired | Cancelled

datatype ApprovalRequestStepStatus = Pending | InProgress | Completed

datatype ApprovalRequestApprovalDecision = Approved | Rejected

datatype ApprovalRequestGrantStatus = Active | Expired | Revoked

datatype EnforcementLevel = Hard | Soft

text \<open>What a handler may throw; \<open>TypeError\<close> is a field read off data of another type.\<close>

datatype approval_error =
    ForbiddenRequest string
  | BadRequest string
  | NotFound string
  | CaslForbidden string string
  | TypeError

section \<open>What requests ask for and policies say\<close>

record code_signing_scope =
  command :: "string option"
  signingApplication :: "string option"
  signingApplicationHash :: "string option"
  hostname :: "string option"
  osUsername :: "string option"
  ipAddress :: "string option"
  dataHash :: "string option"

record pam_data =
  accessDuration :: string
  resourceName :: "string option"
  accountName :: "string option"

record signing_data =
  signerId :: string
  approvalPolicyId :: nat
  signerName :: string
  requestedWindowDuration :: "string option"
  requestedWindowStart :: "int option"
  requestedWindowEnd :: "int option"
  requestedSignings :: "nat option"
  requestScope :: "code_signing_scope option"

record cert_data =
  profileName :: string
  applicationId :: "string option"
  certificateRequestId :: string

text \<open>The request data and the inputs of a check are one type per kind of policy: the code casts between
  them, and the constructor says what the stored value really is.\<close>

datatype request_data = PamData pam_data | CertData cert_data | SigningData signing_data

record pam_condition =
  resourceNames :: "string list option"
  accountNames :: "string list option"

datatype policy_conditions =
    PamConditions "pam_condition list"
  | CertConditions "string list list"
  | SigningConditions

datatype policy_constraints =
    PamConstraints string string
  | CertConstraints
  | SigningConstraints "string option" "nat option"

record signing_grant =
  sg_signerId :: string
  sg_signerName :: string
  sg_maxSignings :: "nat option"
  sg_windowStart :: "int option"
  sg_scope :: "code_signing_scope option"

datatype grant_attributes = PamAttributes pam_data | SigningAttributes signing_grant

section \<open>Rows\<close>

record approver =
  ap_type :: ApproverType
  ap_id :: string

text \<open>An approver or bypasser as the tables have it: the owner's id, a user or a group.\<close>

record subject_row =
  sb_owner :: nat
  sb_userId :: "string option"
  sb_groupId :: "string option"

record policy_step =
  ps_name :: "string option"
  ps_requiredApprovals :: nat
  ps_notifyApprovers :: "bool option"
  ps_approvers :: "approver list"

record policy_row =
  pl_id :: nat
  pl_projectId :: string
  pl_organizationId :: string
  pl_type :: ApprovalPolicyType
  pl_name :: string
  pl_isActive :: bool
  pl_maxRequestTtl :: "string option"
  pl_conditions :: policy_conditions
  pl_constraints :: policy_constraints
  pl_bypassForMachineIdentities :: bool
  pl_enforcementLevel :: EnforcementLevel
  pl_scopeType :: "ApprovalPolicyScope option"
  pl_scopeId :: "string option"

record policy_step_row =
  psr_id :: nat
  psr_policyId :: nat
  psr_stepNumber :: nat
  psr_name :: "string option"
  psr_requiredApprovals :: nat
  psr_notifyApprovers :: "bool option"

record policy_view = policy_row +
  pv_steps :: "policy_step list"
  pv_bypassers :: "approver list"

record request_row =
  rq_id :: nat
  rq_projectId :: string
  rq_organizationId :: string
  rq_policyId :: "nat option"
  rq_requesterId :: "string option"
  rq_machineIdentityId :: "string option"
  rq_requesterName :: string
  rq_requesterEmail :: string
  rq_type :: ApprovalPolicyType
  rq_status :: ApprovalRequestStatus
  rq_justification :: "string option"
  rq_currentStep :: nat
  rq_requestData :: request_data
  rq_expiresAt :: "int option"
  rq_scopeType :: "ApprovalPolicyScope option"
  rq_scopeId :: "string option"

record step_row =
  st_id :: nat
  st_requestId :: nat
  st_stepNumber :: nat
  st_name :: "string option"
  st_status :: ApprovalRequestStepStatus
  st_requiredApprovals :: nat
  st_notifyApprovers :: bool
  st_startedAt :: "int option"
  st_completedAt :: "int option"

record approval_row =
  av_stepId :: nat
  av_approverUserId :: string
  av_decision :: ApprovalRequestApprovalDecision
  av_comment :: "string option"

record step_view = step_row +
  sv_approvers :: "approver list"
  sv_approvals :: "approval_row list"

record grant_row =
  gr_id :: nat
  gr_projectId :: string
  gr_requestId :: "nat option"
  gr_granteeUserId :: "string option"
  gr_granteeMachineIdentityId :: "string option"
  gr_status :: ApprovalRequestGrantStatus
  gr_type :: ApprovalPolicyType
  gr_attributes :: grant_attributes
  gr_expiresAt :: "int option"
  gr_revokedAt :: "int option"
  gr_revokedByUserId :: "string option"
  gr_revocationReason :: "string option"
  gr_isBreakGlass :: bool
  gr_bypassReason :: "string option"

datatype cert_request_status = CertPendingApproval | CertPending | CertFailed string | CertRejected

record cert_request_row =
  cr_status :: cert_request_status
  cr_approvalRequestId :: "nat option"

text \<open>A notification of the approvers of a step: the step's number, the request and the users told.\<close>

record notification =
  nt_requestId :: nat
  nt_users :: "string list"

record approval_db =
  db_policies :: "policy_row list"
  db_policySteps :: "policy_step_row list"
  db_policyApprovers :: "subject_row list"
  db_policyBypassers :: "subject_row list"
  db_requests :: "request_row list"
  db_steps :: "step_row list"
  db_eligible :: "subject_row list"
  db_approvals :: "approval_row list"
  db_grants :: "grant_row list"
  db_certRequests :: "string \<Rightarrow> cert_request_row option"
  db_outbox :: "notification list"
  db_next :: nat

definition empty_db :: approval_db where
  "empty_db = \<lparr>db_policies = [], db_policySteps = [], db_policyApprovers = [], db_policyBypassers = [],
     db_requests = [], db_steps = [], db_eligible = [], db_approvals = [], db_grants = [],
     db_certRequests = Map.empty, db_outbox = [], db_next = 1\<rparr>"

section \<open>Reading and writing rows\<close>

definition approver_of_row :: "subject_row \<Rightarrow> approver" where
  "approver_of_row row = (case sb_userId row of
       Some u \<Rightarrow> \<lparr>ap_type = ApproverType.User, ap_id = u\<rparr>
     | None \<Rightarrow> \<lparr>ap_type = ApproverType.Group, ap_id = (case sb_groupId row of Some g \<Rightarrow> g | None \<Rightarrow> [])\<rparr>)"

definition row_of_approver :: "nat \<Rightarrow> approver \<Rightarrow> subject_row" where
  "row_of_approver owner a = \<lparr>sb_owner = owner,
     sb_userId = (if ap_type a = ApproverType.User then Some (ap_id a) else None),
     sb_groupId = (if ap_type a = ApproverType.Group then Some (ap_id a) else None)\<rparr>"

definition subjectsOf :: "nat \<Rightarrow> subject_row list \<Rightarrow> approver list" where
  "subjectsOf owner rows = map approver_of_row (filter (\<lambda>r. sb_owner r = owner) rows)"

definition findRequestById :: "approval_db \<Rightarrow> nat \<Rightarrow> request_row option" where
  "findRequestById db rid = find (\<lambda>r. rq_id r = rid) (db_requests db)"

definition join_step :: "approval_db \<Rightarrow> step_row \<Rightarrow> step_view" where
  "join_step db s = step_row.extend s
     \<lparr>sv_approvers = subjectsOf (st_id s) (db_eligible db),
      sv_approvals = filter (\<lambda>a. av_stepId a = st_id s) (db_approvals db)\<rparr>"

definition findStepsByRequestId :: "approval_db \<Rightarrow> nat \<Rightarrow> step_view list" where
  "findStepsByRequestId db rid =
     map (join_step db) (sort_key st_stepNumber (filter (\<lambda>s. st_requestId s = rid) (db_steps db)))"

text \<open>The filter \<open>options\<close>: no options, rows without a scope, or rows of a scope (and of its id, when one
  is given).\<close>

datatype scope_filter = AnyScope | NoScope | OfScope ApprovalPolicyScope "string option"

fun scope_passes :: "scope_filter \<Rightarrow> ApprovalPolicyScope option \<Rightarrow> string option \<Rightarrow> bool" where
  "scope_passes AnyScope sct sci = True"
| "scope_passes NoScope sct sci = (sct = None)"
| "scope_passes (OfScope t i) sct sci = (sct = Some t \<and> (case i of None \<Rightarrow> True | Some j \<Rightarrow> sci = Some j))"

definition scope_options :: "ApprovalPolicyScope option \<Rightarrow> string option \<Rightarrow> scope_filter" where
  "scope_options sct sci = (case sct of None \<Rightarrow> NoScope | Some t \<Rightarrow> OfScope t sci)"

definition findRequestsByProjectId ::
  "approval_db \<Rightarrow> ApprovalPolicyType \<Rightarrow> string \<Rightarrow> scope_filter \<Rightarrow> (request_row \<times> step_view list) list" where
  "findRequestsByProjectId db policyType projectId options =
     map (\<lambda>r. (r, findStepsByRequestId db (rq_id r)))
       (filter (\<lambda>r. rq_type r = policyType \<and> rq_projectId r = projectId \<and>
                    scope_passes options (rq_scopeType r) (rq_scopeId r)) (rev (db_requests db)))"

definition markExpiredRequests :: "int \<Rightarrow> approval_db \<Rightarrow> approval_db" where
  "markExpiredRequests now db = db\<lparr>db_requests := map (\<lambda>r.
     if rq_status r = ApprovalRequestStatus.Pending \<and> (case rq_expiresAt r of None \<Rightarrow> False | Some e \<Rightarrow> e < now)
     then r\<lparr>rq_status := ApprovalRequestStatus.Expired\<rparr> else r) (db_requests db)\<rparr>"

definition markExpiredGrants :: "int \<Rightarrow> approval_db \<Rightarrow> approval_db" where
  "markExpiredGrants now db = db\<lparr>db_grants := map (\<lambda>g.
     if gr_status g = ApprovalRequestGrantStatus.Active \<and> (case gr_expiresAt g of None \<Rightarrow> False | Some e \<Rightarrow> e < now)
     then g\<lparr>gr_status := ApprovalRequestGrantStatus.Expired\<rparr> else g) (db_grants db)\<rparr>"

definition findGrantById :: "approval_db \<Rightarrow> nat \<Rightarrow> grant_row option" where
  "findGrantById db gid = find (\<lambda>g. gr_id g = gid) (db_grants db)"

definition grant_scope :: "approval_db \<Rightarrow> grant_row \<Rightarrow> ApprovalPolicyScope option \<times> string option" where
  "grant_scope db g = (case gr_requestId g of
       None \<Rightarrow> (None, None)
     | Some rid \<Rightarrow> (case findRequestById db rid of None \<Rightarrow> (None, None) | Some r \<Rightarrow> (rq_scopeType r, rq_scopeId r)))"

definition findGrantsByProjectAndScope :: "approval_db \<Rightarrow> string \<Rightarrow> ApprovalPolicyType \<Rightarrow>
    ApprovalPolicyScope option \<Rightarrow> string option \<Rightarrow> grant_row list" where
  "findGrantsByProjectAndScope db projectId policyType sct sci =
     filter (\<lambda>g. gr_projectId g = projectId \<and> gr_type g = policyType \<and>
       (case sct of
          None \<Rightarrow> fst (grant_scope db g) = None
        | Some t \<Rightarrow> fst (grant_scope db g) = Some t \<and> sci \<noteq> None \<and> snd (grant_scope db g) = sci)) (db_grants db)"

definition updateRequest :: "nat \<Rightarrow> (request_row \<Rightarrow> request_row) \<Rightarrow> approval_db \<Rightarrow> approval_db" where
  "updateRequest rid f db = db\<lparr>db_requests := map (\<lambda>r. if rq_id r = rid then f r else r) (db_requests db)\<rparr>"

definition updateStep :: "nat \<Rightarrow> (step_row \<Rightarrow> step_row) \<Rightarrow> approval_db \<Rightarrow> approval_db" where
  "updateStep sid f db = db\<lparr>db_steps := map (\<lambda>s. if st_id s = sid then f s else s) (db_steps db)\<rparr>"

definition createApproval :: "approval_row \<Rightarrow> approval_db \<Rightarrow> approval_db" where
  "createApproval a db = db\<lparr>db_approvals := db_approvals db @ [a]\<rparr>"

definition createGrant :: "grant_row \<Rightarrow> approval_db \<Rightarrow> grant_row \<times> approval_db" where
  "createGrant g db = (let g' = g\<lparr>gr_id := db_next db\<rparr>
     in (g', db\<lparr>db_grants := db_grants db @ [g'], db_next := Suc (db_next db)\<rparr>))"

definition updateGrant :: "nat \<Rightarrow> (grant_row \<Rightarrow> grant_row) \<Rightarrow> approval_db \<Rightarrow> approval_db" where
  "updateGrant gid f db = db\<lparr>db_grants := map (\<lambda>g. if gr_id g = gid then f g else g) (db_grants db)\<rparr>"

section \<open>Reading policies\<close>

definition findPolicyById :: "approval_db \<Rightarrow> nat \<Rightarrow> policy_row option" where
  "findPolicyById db pid = find (\<lambda>p. pl_id p = pid) (db_policies db)"

definition format_policy_step :: "approval_db \<Rightarrow> policy_step_row \<Rightarrow> policy_step" where
  "format_policy_step db s = \<lparr>ps_name = (if truthy (psr_name s) then psr_name s else None),
     ps_requiredApprovals = psr_requiredApprovals s, ps_notifyApprovers = psr_notifyApprovers s,
     ps_approvers = subjectsOf (psr_id s) (db_policyApprovers db)\<rparr>"

definition findStepsByPolicyId :: "approval_db \<Rightarrow> nat \<Rightarrow> policy_step list" where
  "findStepsByPolicyId db pid =
     map (format_policy_step db) (sort_key psr_stepNumber (filter (\<lambda>s. psr_policyId s = pid) (db_policySteps db)))"

definition findBypassersByPolicyId :: "approval_db \<Rightarrow> nat \<Rightarrow> approver list" where
  "findBypassersByPolicyId db pid = subjectsOf pid (db_policyBypassers db)"

definition view_policy :: "approval_db \<Rightarrow> policy_row \<Rightarrow> policy_view" where
  "view_policy db p = policy_row.extend p
     \<lparr>pv_steps = findStepsByPolicyId db (pl_id p), pv_bypassers = findBypassersByPolicyId db (pl_id p)\<rparr>"

definition findPoliciesByProjectId ::
  "approval_db \<Rightarrow> ApprovalPolicyType \<Rightarrow> string \<Rightarrow> scope_filter \<Rightarrow> policy_view list" where
  "findPoliciesByProjectId db policyType projectId options =
     map (view_policy db) (sort_key pl_id (filter (\<lambda>p. pl_type p = policyType \<and> pl_projectId p = projectId \<and>
       scope_passes options (pl_scopeType p) (pl_scopeId p)) (db_policies db)))"

definition policy_approver_rows :: "approval_db \<Rightarrow> nat \<Rightarrow> subject_row list" where
  "policy_approver_rows db pid = concat (map (\<lambda>s. filter (\<lambda>r. sb_owner r = psr_id s) (db_policyApprovers db))
     (filter (\<lambda>s. psr_policyId s = pid) (db_policySteps db)))"

definition findPoliciesWhereSubjectIsApprover :: "approval_db \<Rightarrow> string \<Rightarrow> scope_filter \<Rightarrow>
    string option \<Rightarrow> string option \<Rightarrow> (nat \<times> string) list" where
  "findPoliciesWhereSubjectIsApprover db projectId options userId groupId =
     (if truthy userId \<or> truthy groupId
      then map (\<lambda>p. (pl_id p, pl_name p)) (filter (\<lambda>p. pl_projectId p = projectId \<and>
             scope_passes options (pl_scopeType p) (pl_scopeId p) \<and>
             list_ex (\<lambda>r. if truthy userId then sb_userId r = userId else sb_groupId r = groupId)
               (policy_approver_rows db (pl_id p))) (db_policies db))
      else [])"

definition isProjectApprover :: "approval_db \<Rightarrow> string \<Rightarrow> string \<Rightarrow> string list \<Rightarrow>
    ApprovalPolicyType option \<Rightarrow> ApprovalPolicyScope option \<Rightarrow> bool" where
  "isProjectApprover db projectId userId groupIds policyType sct =
     list_ex (\<lambda>p. pl_projectId p = projectId \<and> (policyType = None \<or> policyType = Some (pl_type p)) \<and>
         (sct = None \<or> pl_scopeType p = sct) \<and>
         list_ex (\<lambda>r. sb_userId r = Some userId \<or> (\<exists>g \<in> set groupIds. sb_groupId r = Some g))
           (policy_approver_rows db (pl_id p))) (db_policies db)"

section \<open>Who is an approver\<close>

text \<open>The test the services repeat: the actor is named, or one of its groups is.\<close>

definition names_actor :: "string \<Rightarrow> string list \<Rightarrow> approver \<Rightarrow> bool" where
  "names_actor actorId userGroupIds a \<longleftrightarrow>
     (ap_type a = ApproverType.User \<and> ap_id a = actorId) \<or>
     (ap_type a = ApproverType.Group \<and> ap_id a \<in> set userGroupIds)"

definition isEligible :: "string \<Rightarrow> string list \<Rightarrow> approver list \<Rightarrow> bool" where
  "isEligible actorId userGroupIds approvers \<longleftrightarrow> list_ex (names_actor actorId userGroupIds) approvers"

section \<open>Lemmas about the tables\<close>

named_theorems table_simps \<open>reads of the tables after writes\<close>

lemma approver_of_row_of_approver [simp]: "approver_of_row (row_of_approver n a) = a"
  by (cases "ap_type a") (simp_all add: approver_of_row_def row_of_approver_def)

lemma sb_owner_row_of_approver [simp]: "sb_owner (row_of_approver n a) = n"
  by (simp add: row_of_approver_def)

lemma subjectsOf_append [simp]: "subjectsOf n (xs @ ys) = subjectsOf n xs @ subjectsOf n ys"
  by (simp add: subjectsOf_def)

lemma subjectsOf_Nil [simp]: "subjectsOf n [] = []"
  by (simp add: subjectsOf_def)

lemma subjectsOf_written [simp]:
  "subjectsOf n (map (row_of_approver m) as) = (if n = m then as else [])"
  by (induction as) (auto simp: subjectsOf_def)

lemma subjectsOf_fresh: "(\<forall>r \<in> set rows. sb_owner r < m) \<Longrightarrow> subjectsOf m rows = []"
  by (auto simp: subjectsOf_def filter_empty_conv)

lemma insort_key_map: "insort_key f (g x) (map g xs) = map g (insort_key (\<lambda>y. f (g y)) x xs)"
  by (induction xs) auto

lemma sort_key_map: "sort_key f (map g xs) = map g (sort_key (\<lambda>y. f (g y)) xs)"
  by (induction xs) (simp_all add: insort_key_map)

lemma find_map_id:
  assumes "\<And>x. key (f x) = key x"
  shows "find (\<lambda>r. key r = i) (map (\<lambda>r. if key r = j then f r else r) rs) =
    (if i = j then map_option f (find (\<lambda>r. key r = i) rs) else find (\<lambda>r. key r = i) rs)"
  using assms by (induction rs) auto

lemma findRequestById_update:
  assumes "\<And>r. rq_id (f r) = rq_id r"
  shows "findRequestById (updateRequest rid f db) i =
    (if i = rid then map_option f (findRequestById db i) else findRequestById db i)"
  using find_map_id [of rq_id f] assms by (simp add: findRequestById_def updateRequest_def)

lemma findRequestById_id: "findRequestById db rid = Some r \<Longrightarrow> rq_id r = rid"
  by (auto simp: findRequestById_def find_Some_iff)

lemma findRequestById_others [table_simps]:
  "findRequestById (updateStep sid g db) i = findRequestById db i"
  "findRequestById (createApproval a db) i = findRequestById db i"
  "findRequestById (snd (createGrant gr db)) i = findRequestById db i"
  "findRequestById (updateGrant gid h db) i = findRequestById db i"
  by (simp_all add: findRequestById_def updateStep_def createApproval_def createGrant_def updateGrant_def Let_def)

lemma findSteps_others [table_simps]:
  "findStepsByRequestId (updateRequest rid f db) i = findStepsByRequestId db i"
  "findStepsByRequestId (snd (createGrant gr db)) i = findStepsByRequestId db i"
  "findStepsByRequestId (updateGrant gid h db) i = findStepsByRequestId db i"
  by (simp_all add: findStepsByRequestId_def join_step_def [abs_def] updateRequest_def createGrant_def updateGrant_def Let_def)

lemma findSteps_update:
  assumes key: "\<And>s. st_id (f s) = st_id s" "\<And>s. st_requestId (f s) = st_requestId s"
      "\<And>s. st_stepNumber (f s) = st_stepNumber s"
    and lift: "\<And>s. join_step db (f s) = g (join_step db s)"
  shows "findStepsByRequestId (updateStep sid f db) rid =
    map (\<lambda>v. if st_id v = sid then g v else v) (findStepsByRequestId db rid)"
proof -
  let ?h = "\<lambda>s. if st_id s = sid then f s else s"
  have "filter (\<lambda>s. st_requestId s = rid) (map ?h ss) = map ?h (filter (\<lambda>s. st_requestId s = rid) ss)" for ss
    using key by (induction ss) auto
  moreover have "join_step (updateStep sid f db) (?h s) = (if st_id s = sid then g (join_step db s) else join_step db s)" for s
    using lift [of s] by (auto simp: join_step_def updateStep_def)
  moreover have "st_id (join_step db s) = st_id s" for s
    by (simp add: join_step_def step_row.defs)
  moreover have "(\<lambda>y. st_stepNumber (?h y)) = st_stepNumber"
    using key by auto
  ultimately show ?thesis
    unfolding findStepsByRequestId_def by (simp add: updateStep_def sort_key_map comp_def)
qed

lemma findSteps_createApproval:
  "findStepsByRequestId (createApproval a db) rid =
     map (\<lambda>v. if st_id v = av_stepId a then v\<lparr>sv_approvals := sv_approvals v @ [a]\<rparr> else v)
       (findStepsByRequestId db rid)"
  by (auto simp: findStepsByRequestId_def join_step_def createApproval_def step_row.defs)

end
