(* ===== verification/PolicyFactories.thy ===== *)
theory PolicyFactories
  imports ApprovalTypes
begin

text \<open>
  The three kinds of approval policy (\<open>pam-access-policy-factory.ts\<close>, \<open>cert-request-policy-factory.ts\<close>,
  \<open>code-signing-policy-factory.ts\<close>): which policy governs an input, which grant admits it, which
  constraints a request must meet, and what an approval leaves behind; and the comparison of what an
  approval of a signing was bound to with what is signed (\<open>code-signing-policy-fns.ts\<close>).

  The glob matcher \<open>pm pattern text\<close> (\<open>picomatch\<close>), the parser of durations \<open>ms\<close> and the redaction of
  credentials by regular expressions (\<open>RE2\<close>) are parameters. Durations have passed a schema that parses
  them, so \<open>ms\<close> returns a number of milliseconds. Instants are milliseconds.
\<close>

section \<open>Privileged access: which policy\<close>

definition matchesAnyPattern :: "(string \<Rightarrow> string \<Rightarrow> bool) \<Rightarrow> string \<Rightarrow> string list \<Rightarrow> bool" where
  "matchesAnyPattern pm v patterns = list_ex (\<lambda>p. pm p v) patterns"

definition calculateSpecificity :: "string \<Rightarrow> nat \<times> nat" where
  "calculateSpecificity pattern = (length (filter (\<lambda>c. c = CHR ''*'') pattern), length pattern)"

definition given_patterns :: "string list option \<Rightarrow> bool" where
  "given_patterns ps = (case ps of None \<Rightarrow> False | Some xs \<Rightarrow> xs \<noteq> [])"

text \<open>One of the two fields: whether it matches, and the specificity of the first pattern that does.\<close>

definition field_match ::
  "(string \<Rightarrow> string \<Rightarrow> bool) \<Rightarrow> string list option \<Rightarrow> string option \<Rightarrow> bool \<times> nat \<times> nat" where
  "field_match pm patterns v =
     (if given_patterns patterns \<and> truthy v
      then (matchesAnyPattern pm (the v) (the patterns),
            (case find (\<lambda>p. pm p (the v)) (the patterns) of Some p \<Rightarrow> calculateSpecificity p | None \<Rightarrow> (0, 0)))
      else if given_patterns patterns \<and> \<not> truthy v then (False, 0, 0)
      else (True, 0, 0))"

text \<open>A condition: no score when it does not match.\<close>

definition condition_score ::
  "(string \<Rightarrow> string \<Rightarrow> bool) \<Rightarrow> pam_data \<Rightarrow> pam_condition \<Rightarrow> (nat \<times> nat) option" where
  "condition_score pm inputs c =
     (if given_patterns (resourceNames c) \<or> given_patterns (accountNames c)
      then (case field_match pm (resourceNames c) (resourceName inputs) of (resourceMatches, rw, rl) \<Rightarrow>
            case field_match pm (accountNames c) (accountName inputs) of (accountMatches, aw, al) \<Rightarrow>
              if resourceMatches \<and> accountMatches then Some (rw + aw, rl + al) else None)
      else None)"

definition better :: "nat \<times> nat \<Rightarrow> nat \<times> nat \<Rightarrow> bool" where
  "better s t \<longleftrightarrow> fst s < fst t \<or> (fst s = fst t \<and> snd s > snd t)"

definition pam_try_condition :: "(string \<Rightarrow> string \<Rightarrow> bool) \<Rightarrow> pam_data \<Rightarrow> policy_view \<Rightarrow>
    (policy_view \<times> nat \<times> nat) option \<Rightarrow> pam_condition \<Rightarrow> (policy_view \<times> nat \<times> nat) option" where
  "pam_try_condition pm inputs p bestMatch c = (case condition_score pm inputs c of
       None \<Rightarrow> bestMatch
     | Some s \<Rightarrow> (case bestMatch of
          None \<Rightarrow> Some (p, s)
        | Some (q, t) \<Rightarrow> if better s t then Some (p, s) else bestMatch))"

definition pam_conditions_of :: "policy_view \<Rightarrow> pam_condition list" where
  "pam_conditions_of p = (case pl_conditions p of PamConditions cs \<Rightarrow> cs | _ \<Rightarrow> [])"

definition pam_best :: "(string \<Rightarrow> string \<Rightarrow> bool) \<Rightarrow> pam_data \<Rightarrow> policy_view list \<Rightarrow>
    (policy_view \<times> nat \<times> nat) option" where
  "pam_best pm inputs policies =
     foldl (\<lambda>best p. foldl (pam_try_condition pm inputs p) best (pam_conditions_of p)) None policies"

definition pam_matchPolicy ::
  "(string \<Rightarrow> string \<Rightarrow> bool) \<Rightarrow> approval_db \<Rightarrow> string \<Rightarrow> pam_data \<Rightarrow> policy_view option" where
  "pam_matchPolicy pm db projectId inputs =
     map_option fst (pam_best pm inputs (findPoliciesByProjectId db PamAccess projectId AnyScope))"

section \<open>Privileged access: grants, constraints, approval\<close>

definition not_after :: "int \<Rightarrow> int option \<Rightarrow> bool" where
  "not_after now expiresAt = (case expiresAt of None \<Rightarrow> True | Some e \<Rightarrow> e > now)"

definition attribute_matches ::
  "(string \<Rightarrow> string \<Rightarrow> bool) \<Rightarrow> string option \<Rightarrow> string option \<Rightarrow> bool" where
  "attribute_matches pm granted wanted =
     (if truthy wanted \<and> truthy granted then pm (the granted) (the wanted)
      else if truthy wanted \<and> \<not> truthy granted then False else True)"

text \<open>Attributes of a signing grant have neither name, so whatever is wanted does not match them.\<close>

definition pam_grant_admits :: "(string \<Rightarrow> string \<Rightarrow> bool) \<Rightarrow> int \<Rightarrow> pam_data \<Rightarrow> grant_row \<Rightarrow> bool" where
  "pam_grant_admits pm now inputs g = (case gr_attributes g of
       PamAttributes a \<Rightarrow>
         (truthy (resourceName inputs) \<or> truthy (accountName inputs)) \<and>
         attribute_matches pm (resourceName a) (resourceName inputs) \<and>
         attribute_matches pm (accountName a) (accountName inputs) \<and>
         not_after now (gr_expiresAt g)
     | SigningAttributes a \<Rightarrow> False)"

definition find_active_grants :: "approval_db \<Rightarrow> (grant_row \<Rightarrow> bool) \<Rightarrow> ApprovalPolicyType \<Rightarrow> string \<Rightarrow> grant_row list" where
  "find_active_grants db grantee policyType projectId =
     filter (\<lambda>g. grantee g \<and> gr_type g = policyType \<and> gr_status g = ApprovalRequestGrantStatus.Active \<and>
       gr_projectId g = projectId \<and> gr_revokedAt g = None) (db_grants db)"

definition pam_canAccess :: "(string \<Rightarrow> string \<Rightarrow> bool) \<Rightarrow> int \<Rightarrow> approval_db \<Rightarrow> string \<Rightarrow> string \<Rightarrow> pam_data \<Rightarrow>
    grant_row option" where
  "pam_canAccess pm now db projectId userId inputs =
     find (pam_grant_admits pm now inputs)
       (find_active_grants db (\<lambda>g. gr_granteeUserId g = Some userId) PamAccess projectId)"

datatype constraint_error =
    DurationBelow string string
  | DurationAbove string string
  | WindowMissing string
  | WindowAbove string
  | CountMissing nat
  | CountAbove nat nat

definition pam_validateConstraints ::
  "(string \<Rightarrow> int) \<Rightarrow> string \<Rightarrow> string \<Rightarrow> pam_data \<Rightarrow> constraint_error list" where
  "pam_validateConstraints ms minDuration maxDuration inputs =
     (if ms (accessDuration inputs) < ms minDuration then [DurationBelow (accessDuration inputs) minDuration] else []) @
     (if ms (accessDuration inputs) > ms maxDuration then [DurationAbove (accessDuration inputs) maxDuration] else [])"

definition blank_grant :: "request_row \<Rightarrow> grant_attributes \<Rightarrow> int option \<Rightarrow> grant_row" where
  "blank_grant r attributes expiresAt = \<lparr>gr_id = 0, gr_projectId = rq_projectId r, gr_requestId = Some (rq_id r),
     gr_granteeUserId = rq_requesterId r, gr_granteeMachineIdentityId = None,
     gr_status = ApprovalRequestGrantStatus.Active, gr_type = rq_type r, gr_attributes = attributes,
     gr_expiresAt = expiresAt, gr_revokedAt = None, gr_revokedByUserId = None, gr_revocationReason = None,
     gr_isBreakGlass = False, gr_bypassReason = None\<rparr>"

definition pam_postApproval :: "(string \<Rightarrow> int) \<Rightarrow> int \<Rightarrow> request_row \<Rightarrow> pam_data \<Rightarrow> approval_db \<Rightarrow> approval_db" where
  "pam_postApproval ms now r inputs db =
     snd (createGrant (blank_grant r (PamAttributes inputs) (Some (now + ms (accessDuration inputs)))) db)"

section \<open>Certificate requests\<close>

definition cert_matches :: "cert_data \<Rightarrow> policy_view \<Rightarrow> bool" where
  "cert_matches inputs p = (case pl_conditions p of
       CertConditions cs \<Rightarrow> list_ex (\<lambda>names. profileName inputs \<in> set names) cs
     | _ \<Rightarrow> False)"

definition cert_matchPolicy :: "approval_db \<Rightarrow> string \<Rightarrow> cert_data \<Rightarrow> policy_view option" where
  "cert_matchPolicy db projectId inputs =
     (let inputAppId = applicationId inputs;
          expectedScopeType = (if truthy inputAppId then Some PkiApplication else None);
          expectedScopeId = inputAppId;
          candidates = filter (\<lambda>p. pl_isActive p \<and> pl_scopeType p = expectedScopeType \<and> pl_scopeId p = expectedScopeId)
            (findPoliciesByProjectId db CertRequest projectId AnyScope)
      in find (cert_matches inputs) candidates)"

definition set_cert_request :: "string \<Rightarrow> cert_request_row \<Rightarrow> approval_db \<Rightarrow> approval_db" where
  "set_cert_request i row db =
     (case db_certRequests db i of None \<Rightarrow> db | Some _ \<Rightarrow> db\<lparr>db_certRequests := (db_certRequests db)(i \<mapsto> row)\<rparr>)"

text \<open>The certificate is issued by another service; \<open>issue\<close> gives the message of its error, if any.\<close>

definition cert_postApproval ::
  "(string \<Rightarrow> string option) \<Rightarrow> request_row \<Rightarrow> cert_data \<Rightarrow> approval_db \<Rightarrow> approval_db" where
  "cert_postApproval issue r inputs db =
     (let i = certificateRequestId inputs;
          db1 = set_cert_request i \<lparr>cr_status = CertPending, cr_approvalRequestId = Some (rq_id r)\<rparr> db
      in case issue i of
           None \<Rightarrow> db1
         | Some e \<Rightarrow> set_cert_request i \<lparr>cr_status = CertFailed e, cr_approvalRequestId = Some (rq_id r)\<rparr> db1)"

definition cert_postRejection :: "request_row \<Rightarrow> cert_data \<Rightarrow> approval_db \<Rightarrow> approval_db" where
  "cert_postRejection r inputs db = set_cert_request (certificateRequestId inputs)
     \<lparr>cr_status = CertRejected, cr_approvalRequestId = Some (rq_id r)\<rparr> db"

section \<open>Code signing\<close>

definition signing_matchPolicy :: "approval_db \<Rightarrow> string \<Rightarrow> signing_data \<Rightarrow> policy_view option" where
  "signing_matchPolicy db projectId inputs =
     (case find (\<lambda>p. pl_id p = approvalPolicyId inputs) (findPoliciesByProjectId db CertCodeSigning projectId AnyScope) of
        None \<Rightarrow> None
      | Some p \<Rightarrow> if pl_isActive p then Some p else None)"

definition signing_grant_admits :: "int \<Rightarrow> string \<Rightarrow> grant_row \<Rightarrow> bool" where
  "signing_grant_admits now signer g = (case gr_attributes g of
       PamAttributes a \<Rightarrow> False
     | SigningAttributes a \<Rightarrow> sg_signerId a = signer \<and>
         \<not> (case sg_windowStart a of None \<Rightarrow> False | Some w \<Rightarrow> w > now) \<and>
         \<not> (case gr_expiresAt g of None \<Rightarrow> False | Some e \<Rightarrow> e < now))"

definition signing_canAccess :: "int \<Rightarrow> approval_db \<Rightarrow> string \<Rightarrow> string \<Rightarrow> signing_data \<Rightarrow> grant_row option" where
  "signing_canAccess now db projectId userId inputs =
     (let userGrants = find_active_grants db (\<lambda>g. gr_granteeUserId g = Some userId) CertCodeSigning projectId;
          identityGrants = find_active_grants db (\<lambda>g. gr_granteeMachineIdentityId g = Some userId) CertCodeSigning projectId
      in find (signing_grant_admits now (signerId inputs)) (userGrants @ identityGrants))"

definition truthy_count :: "nat option \<Rightarrow> bool" where
  "truthy_count n = (case n of None \<Rightarrow> False | Some k \<Rightarrow> k \<noteq> 0)"

definition signing_validateConstraints ::
  "(string \<Rightarrow> int) \<Rightarrow> string option \<Rightarrow> nat option \<Rightarrow> signing_data \<Rightarrow> constraint_error list" where
  "signing_validateConstraints ms maxWindowDuration maxSignings inputs =
     (if truthy maxWindowDuration \<and> \<not> truthy (requestedWindowDuration inputs) then [WindowMissing (the maxWindowDuration)]
      else if truthy maxWindowDuration \<and> truthy (requestedWindowDuration inputs) \<and>
              ms (the (requestedWindowDuration inputs)) > ms (the maxWindowDuration)
           then [WindowAbove (the maxWindowDuration)] else []) @
     (if truthy_count maxSignings \<and> \<not> truthy_count (requestedSignings inputs) then [CountMissing (the maxSignings)]
      else if truthy_count maxSignings \<and> truthy_count (requestedSignings inputs) \<and>
              the (requestedSignings inputs) > the maxSignings
           then [CountAbove (the (requestedSignings inputs)) (the maxSignings)] else [])"

datatype CodeSigningScopeField =
    Command | SigningApplication | SigningApplicationHash | Hostname | OsUsername | IpAddress | DataHash

definition scope_fields :: "CodeSigningScopeField list" where
  "scope_fields = [Command, SigningApplication, SigningApplicationHash, Hostname, OsUsername, IpAddress, DataHash]"

fun scope_field :: "CodeSigningScopeField \<Rightarrow> code_signing_scope \<Rightarrow> string option" where
  "scope_field Command s = command s"
| "scope_field SigningApplication s = signingApplication s"
| "scope_field SigningApplicationHash s = signingApplicationHash s"
| "scope_field Hostname s = hostname s"
| "scope_field OsUsername s = osUsername s"
| "scope_field IpAddress s = ipAddress s"
| "scope_field DataHash s = dataHash s"

fun set_scope_field :: "CodeSigningScopeField \<Rightarrow> string \<Rightarrow> code_signing_scope \<Rightarrow> code_signing_scope" where
  "set_scope_field Command v s = s\<lparr>command := Some v\<rparr>"
| "set_scope_field SigningApplication v s = s\<lparr>signingApplication := Some v\<rparr>"
| "set_scope_field SigningApplicationHash v s = s\<lparr>signingApplicationHash := Some v\<rparr>"
| "set_scope_field Hostname v s = s\<lparr>hostname := Some v\<rparr>"
| "set_scope_field OsUsername v s = s\<lparr>osUsername := Some v\<rparr>"
| "set_scope_field IpAddress v s = s\<lparr>ipAddress := Some v\<rparr>"
| "set_scope_field DataHash v s = s\<lparr>dataHash := Some v\<rparr>"

definition empty_scope :: code_signing_scope where
  "empty_scope = \<lparr>command = None, signingApplication = None, signingApplicationHash = None, hostname = None,
     osUsername = None, ipAddress = None, dataHash = None\<rparr>"

definition declare_field :: "(string \<Rightarrow> string) \<Rightarrow> code_signing_scope \<Rightarrow> code_signing_scope \<times> bool \<Rightarrow>
    CodeSigningScopeField \<Rightarrow> code_signing_scope \<times> bool" where
  "declare_field redact scope acc field =
     (let v = map_option trim (scope_field field scope)
      in if truthy v
         then (set_scope_field field (if field = Command then redact (the v) else the v) (fst acc), True)
         else acc)"

definition normalizeCodeSigningScope ::
  "(string \<Rightarrow> string) \<Rightarrow> code_signing_scope option \<Rightarrow> code_signing_scope option" where
  "normalizeCodeSigningScope redact scope = (case scope of
       None \<Rightarrow> None
     | Some s \<Rightarrow> (case foldl (declare_field redact s) (empty_scope, False) scope_fields of
          (declared, hasAny) \<Rightarrow> if hasAny then Some declared else None))"

definition signing_postApproval ::
  "(string \<Rightarrow> int) \<Rightarrow> (string \<Rightarrow> string) \<Rightarrow> int \<Rightarrow> request_row \<Rightarrow> signing_data \<Rightarrow> approval_db \<Rightarrow> approval_db" where
  "signing_postApproval ms redact now r d db =
     (let window = (if truthy (requestedWindowDuration d)
                    then (Some now, Some (now + ms (the (requestedWindowDuration d))))
                    else case requestedWindowEnd d of
                        None \<Rightarrow> (None, None)
                      | Some e \<Rightarrow> (Some (case requestedWindowStart d of None \<Rightarrow> now | Some s \<Rightarrow> s), Some e));
          attributes = \<lparr>sg_signerId = signerId d, sg_signerName = signerName d,
             sg_maxSignings = (if truthy_count (requestedSignings d) then requestedSignings d else None),
             sg_windowStart = fst window, sg_scope = normalizeCodeSigningScope redact (requestScope d)\<rparr>
      in snd (createGrant ((blank_grant r (SigningAttributes attributes) (snd window))
           \<lparr>gr_granteeMachineIdentityId := rq_machineIdentityId r\<rparr>) db))"

section \<open>What a signing was approved for\<close>

text \<open>The white space of \<open>RE2\<close>'s \<open>\s\<close>: no vertical tab, unlike \<open>trim\<close>.\<close>

definition re2_ws :: "char \<Rightarrow> bool" where
  "re2_ws c \<longleftrightarrow> c \<in> {CHR '' '', CHR 0x09, CHR 0x0A, CHR 0x0C, CHR 0x0D}"

function collapse_ws :: "string \<Rightarrow> string" where
  "collapse_ws [] = []"
| "collapse_ws (c # s) =
     (if re2_ws c then CHR '' '' # collapse_ws (dropWhile re2_ws s) else c # collapse_ws s)"
  by pat_completeness auto

termination collapse_ws
  by (relation "measure length") (auto simp: less_Suc_eq_le length_dropWhile_le)

definition commandsMatch :: "string \<Rightarrow> string \<Rightarrow> bool" where
  "commandsMatch bound observed \<longleftrightarrow> collapse_ws (trim bound) = collapse_ws (trim observed)"

definition CASE_INSENSITIVE_FIELDS :: "CodeSigningScopeField list" where
  "CASE_INSENSITIVE_FIELDS = [Hostname, DataHash, SigningApplicationHash, IpAddress]"

record client_metadata =
  cm_command :: "string option"
  cm_tool :: "string option"
  cm_signingApplicationHash :: "string option"
  cm_hostname :: "string option"
  cm_osUsername :: "string option"

definition buildObservedSigningContext ::
  "(string \<Rightarrow> string) \<Rightarrow> client_metadata option \<Rightarrow> string option \<Rightarrow> string \<Rightarrow> code_signing_scope" where
  "buildObservedSigningContext redact clientMetadata ip hash =
     (let get = (\<lambda>f. case clientMetadata of None \<Rightarrow> None | Some m \<Rightarrow> f m)
      in \<lparr>command = (if truthy (get cm_command) then map_option redact (get cm_command) else get cm_command),
          signingApplication = get cm_tool, signingApplicationHash = get cm_signingApplicationHash,
          hostname = get cm_hostname, osUsername = get cm_osUsername, ipAddress = ip, dataHash = Some hash\<rparr>)"

definition field_mismatch :: "code_signing_scope \<Rightarrow> code_signing_scope \<Rightarrow> CodeSigningScopeField \<Rightarrow> bool" where
  "field_mismatch bound observed field =
     (let boundValue = map_option trim (scope_field field bound);
          observedValue = map_option trim (scope_field field observed)
      in if \<not> truthy boundValue then False
         else if \<not> truthy observedValue then True
         else if field = Command then \<not> commandsMatch (the boundValue) (the observedValue)
         else if field \<in> set CASE_INSENSITIVE_FIELDS
              then to_lower (the boundValue) \<noteq> to_lower (the observedValue)
         else the boundValue \<noteq> the observedValue)"

definition getCodeSigningScopeMismatches ::
  "code_signing_scope option \<Rightarrow> code_signing_scope \<Rightarrow> CodeSigningScopeField list" where
  "getCodeSigningScopeMismatches bound observed =
     (case bound of None \<Rightarrow> [] | Some b \<Rightarrow> filter (field_mismatch b observed) scope_fields)"

section \<open>The most specific policy governs\<close>

lemma better_trans: "better s t \<Longrightarrow> better t u \<Longrightarrow> better s u"
  by (auto simp: better_def)

lemma better_irrefl [simp]: "\<not> better s s"
  by (simp add: better_def)

lemma not_better_trans: "\<not> better t s \<Longrightarrow> \<not> better u t \<Longrightarrow> \<not> better u s"
  by (auto simp: better_def)

definition scored :: "(string \<Rightarrow> string \<Rightarrow> bool) \<Rightarrow> pam_data \<Rightarrow> policy_view list \<Rightarrow> (policy_view \<times> nat \<times> nat) list" where
  "scored pm inputs policies = concat (map (\<lambda>p. concat (map (\<lambda>c.
     case condition_score pm inputs c of None \<Rightarrow> [] | Some s \<Rightarrow> [(p, s)]) (pam_conditions_of p))) policies)"

definition keep_better :: "('a \<times> nat \<times> nat) option \<Rightarrow> 'a \<times> nat \<times> nat \<Rightarrow> ('a \<times> nat \<times> nat) option" where
  "keep_better best x = (case best of None \<Rightarrow> Some x | Some b \<Rightarrow> if better (snd x) (snd b) then Some x else best)"

lemma keep_better_simps [simp]:
  "keep_better None x = Some x"
  "keep_better (Some b) x = (if better (snd x) (snd b) then Some x else Some b)"
  by (simp_all add: keep_better_def)

lemma conditions_keep_better:
  "foldl (pam_try_condition pm inputs p) best cs =
     foldl keep_better best (concat (map (\<lambda>c.
       case condition_score pm inputs c of None \<Rightarrow> [] | Some s \<Rightarrow> [(p, s)]) cs))"
  by (induction cs arbitrary: best)
    (auto simp: pam_try_condition_def keep_better_def split: option.splits)

lemma pam_best_scored: "pam_best pm inputs policies = foldl keep_better None (scored pm inputs policies)"
proof -
  have "foldl (\<lambda>best p. foldl (pam_try_condition pm inputs p) best (pam_conditions_of p)) b ps =
      foldl keep_better b (scored pm inputs ps)" for b ps
    by (induction ps arbitrary: b) (simp_all add: scored_def conditions_keep_better)
  then show ?thesis by (simp add: pam_best_def)
qed

lemma keep_better_some:
  "foldl keep_better (Some b) xs = Some y \<Longrightarrow>
     y \<in> set (b # xs) \<and> (\<forall>x \<in> set (b # xs). \<not> better (snd x) (snd y))"
proof (induction xs arbitrary: b)
  case Nil
  then show ?case by simp
next
  case (Cons x xs)
  show ?case
  proof (cases "better (snd x) (snd b)")
    case True
    with Cons.prems have "foldl keep_better (Some x) xs = Some y" by simp
    from Cons.IH [OF this] have y: "y \<in> set (x # xs)" "\<forall>z \<in> set (x # xs). \<not> better (snd z) (snd y)" by auto
    moreover have "\<not> better (snd b) (snd y)" using y(2) True by (auto dest: better_trans)
    ultimately show ?thesis by auto
  next
    case False
    with Cons.prems have "foldl keep_better (Some b) xs = Some y" by simp
    from Cons.IH [OF this] have y: "y \<in> set (b # xs)" "\<forall>z \<in> set (b # xs). \<not> better (snd z) (snd y)" by auto
    moreover have "\<not> better (snd x) (snd y)" using y(2) False not_better_trans [of "snd b" "snd y" "snd x"] by auto
    ultimately show ?thesis by auto
  qed
qed

lemma keep_better_none: "foldl keep_better None xs = None \<longleftrightarrow> xs = []"
proof (cases xs)
  case (Cons x ys)
  have "foldl keep_better (Some b) ys \<noteq> None" for b
    by (induction ys arbitrary: b) auto
  with Cons show ?thesis by simp
qed simp

lemma keep_better_best:
  assumes "foldl keep_better None xs = Some y"
  shows "y \<in> set xs \<and> (\<forall>x \<in> set xs. \<not> better (snd x) (snd y))"
proof (cases xs)
  case Nil
  with assms show ?thesis by simp
next
  case (Cons x ys)
  with assms have "foldl keep_better (Some x) ys = Some y" by simp
  from keep_better_some [OF this] Cons show ?thesis by simp
qed

lemma in_scored: "(p, s) \<in> set (scored pm inputs policies) \<longleftrightarrow>
    p \<in> set policies \<and> (\<exists>c \<in> set (pam_conditions_of p). condition_score pm inputs c = Some s)"
proof -
  have "(p, s) \<in> set (case x of None \<Rightarrow> [] | Some t \<Rightarrow> [(q, t)]) \<longleftrightarrow> q = p \<and> x = Some s" for q x
    by (cases x) auto
  then show ?thesis by (auto simp: scored_def)
qed

text \<open>
  The policy that governs a privileged access request is one of the project's whose condition
  matches, and no matching condition of any policy is more specific (fewer wildcards, then longer
  patterns). No policy governs exactly when no condition matches.
\<close>

theorem most_specific_policy_governs:
  "(case pam_matchPolicy pm db projectId inputs of
      None \<Rightarrow> (\<forall>p \<in> set (findPoliciesByProjectId db PamAccess projectId AnyScope).
                \<forall>c \<in> set (pam_conditions_of p). condition_score pm inputs c = None)
    | Some p \<Rightarrow> p \<in> set (findPoliciesByProjectId db PamAccess projectId AnyScope) \<and>
        (\<exists>s. (\<exists>c \<in> set (pam_conditions_of p). condition_score pm inputs c = Some s) \<and>
          (\<forall>q \<in> set (findPoliciesByProjectId db PamAccess projectId AnyScope).
            \<forall>d \<in> set (pam_conditions_of q). \<forall>t. condition_score pm inputs d = Some t \<longrightarrow> \<not> better t s)))"
proof -
  define ps where "ps = findPoliciesByProjectId db PamAccess projectId AnyScope"
  show ?thesis
  proof (cases "pam_best pm inputs ps")
    case None
    then have "scored pm inputs ps = []" by (simp add: pam_best_scored keep_better_none)
    then have "\<forall>p \<in> set ps. \<forall>c \<in> set (pam_conditions_of p). condition_score pm inputs c = None"
      by (metis empty_iff in_scored list.set(1) not_None_eq)
    with None show ?thesis by (simp add: pam_matchPolicy_def ps_def)
  next
    case (Some y)
    obtain p s where y: "y = (p, s)" by (cases y)
    from Some keep_better_best [of "scored pm inputs ps" y]
    have best: "(p, s) \<in> set (scored pm inputs ps)" "\<forall>x \<in> set (scored pm inputs ps). \<not> better (snd x) s"
      by (simp_all add: pam_best_scored y)
    have "\<forall>q \<in> set ps. \<forall>d \<in> set (pam_conditions_of q). \<forall>t. condition_score pm inputs d = Some t \<longrightarrow> \<not> better t s"
      using best(2) by (metis in_scored snd_conv)
    with best(1) have "p \<in> set ps \<and> (\<exists>s. (\<exists>c \<in> set (pam_conditions_of p). condition_score pm inputs c = Some s) \<and>
        (\<forall>q \<in> set ps. \<forall>d \<in> set (pam_conditions_of q). \<forall>t. condition_score pm inputs d = Some t \<longrightarrow> \<not> better t s))"
      unfolding in_scored by blast
    with Some y show ?thesis
      by (simp add: pam_matchPolicy_def ps_def del: split_paired_Ex split_paired_All)
  qed
qed

text \<open>A project with a lenient policy for everything and a strict one for the database.\<close>

definition sample_policy :: "nat \<Rightarrow> string \<Rightarrow> policy_row" where
  "sample_policy i pat = \<lparr>pl_id = i, pl_projectId = ''p'', pl_organizationId = ''o'', pl_type = PamAccess,
     pl_name = ''policy'', pl_isActive = True, pl_maxRequestTtl = None,
     pl_conditions = PamConditions [\<lparr>resourceNames = Some [pat], accountNames = None\<rparr>],
     pl_constraints = PamConstraints ''1h'' ''2h'', pl_bypassForMachineIdentities = False,
     pl_enforcementLevel = Hard, pl_scopeType = None, pl_scopeId = None\<rparr>"

definition sample_policies :: approval_db where
  "sample_policies = empty_db\<lparr>db_policies := [sample_policy 1 ''*'', sample_policy 2 ''db'']\<rparr>"

definition wants :: "string \<Rightarrow> pam_data" where
  "wants res = \<lparr>accessDuration = ''1h'', resourceName = Some res, accountName = None\<rparr>"

definition star_or_same :: "string \<Rightarrow> string \<Rightarrow> bool" where
  "star_or_same p t \<longleftrightarrow> p = ''*'' \<or> p = t"

lemma most_specific_policy_governs_witness:
  "map_option pl_id (pam_matchPolicy star_or_same sample_policies ''p'' (wants ''db'')) = Some 2 \<and>
   (\<exists>p. pam_matchPolicy star_or_same sample_policies ''p'' (wants ''db'') = Some p \<and>
      p \<in> set (findPoliciesByProjectId sample_policies PamAccess ''p'' AnyScope))"
proof -
  have m: "map_option pl_id (pam_matchPolicy star_or_same sample_policies ''p'' (wants ''db'')) = Some 2"
    by code_simp
  then obtain p where p: "pam_matchPolicy star_or_same sample_policies ''p'' (wants ''db'') = Some p" by auto
  with most_specific_policy_governs [where pm = star_or_same and db = sample_policies and projectId = "''p''"
      and inputs = "wants ''db''"]
  have "p \<in> set (findPoliciesByProjectId sample_policies PamAccess ''p'' AnyScope)" by simp
  with m p show ?thesis by blast
qed

text \<open>
  The requested name is compared with the policies as a name and stored in the grant as a pattern:
  once a request is approved, its grant admits the requester to every resource that the requested text
  matches as a pattern, whichever policy governs that resource. A request for \<open>*\<close>, governed by a
  lenient catch-all policy, opens the resources of the strict ones.
\<close>

theorem requested_name_is_a_pattern:
  assumes "resourceName d = Some pat" "pat \<noteq> []" "accountName d = None" "pm pat res" "res \<noteq> []"
    and "rq_requesterId r = Some u" "rq_type r = PamAccess" "t < now + ms (accessDuration d)"
  shows "pam_canAccess pm t (pam_postApproval ms now r d db) (rq_projectId r) u
    \<lparr>accessDuration = dur, resourceName = Some res, accountName = None\<rparr> \<noteq> None"
proof -
  let ?i = "\<lparr>accessDuration = dur, resourceName = Some res, accountName = None\<rparr>"
  let ?g = "blank_grant r (PamAttributes d) (Some (now + ms (accessDuration d)))\<lparr>gr_id := db_next db\<rparr>"
  have "?g \<in> set (find_active_grants (pam_postApproval ms now r d db)
      (\<lambda>g. gr_granteeUserId g = Some u) PamAccess (rq_projectId r))"
    using assms by (simp add: find_active_grants_def pam_postApproval_def createGrant_def Let_def blank_grant_def)
  moreover have "pam_grant_admits pm t ?i ?g"
    using assms by (simp add: pam_grant_admits_def blank_grant_def attribute_matches_def not_after_def)
  ultimately show ?thesis
    unfolding pam_canAccess_def by (metis find_None_iff2)
qed

definition sample_request :: "string \<Rightarrow> request_row" where
  "sample_request res = \<lparr>rq_id = 5, rq_projectId = ''p'', rq_organizationId = ''o'', rq_policyId = Some 1,
     rq_requesterId = Some ''u'', rq_machineIdentityId = None, rq_requesterName = ''U'', rq_requesterEmail = ''u@o'',
     rq_type = PamAccess, rq_status = ApprovalRequestStatus.Pending, rq_justification = None, rq_currentStep = 1,
     rq_requestData = PamData (wants res), rq_expiresAt = None, rq_scopeType = None, rq_scopeId = None\<rparr>"

text \<open>The lenient policy governs the request for \<open>*\<close>, the strict one the database that it opens.\<close>

lemma requested_name_is_a_pattern_witness:
  "map_option pl_id (pam_matchPolicy star_or_same sample_policies ''p'' (wants ''*'')) = Some 1 \<and>
   map_option pl_id (pam_matchPolicy star_or_same sample_policies ''p'' (wants ''db'')) = Some 2 \<and>
   pam_canAccess star_or_same 1 (pam_postApproval (\<lambda>_. 10) 0 (sample_request ''*'') (wants ''*'') sample_policies)
     ''p'' ''u'' (wants ''db'') \<noteq> None"
proof -
  have "map_option pl_id (pam_matchPolicy star_or_same sample_policies ''p'' (wants ''*'')) = Some 1"
    "map_option pl_id (pam_matchPolicy star_or_same sample_policies ''p'' (wants ''db'')) = Some 2"
    by code_simp+
  then show ?thesis
    using requested_name_is_a_pattern [where d = "wants ''*''" and pat = "''*''" and pm = star_or_same and res = "''db''"
        and r = "sample_request ''*''" and u = "''u''" and t = 1 and now = 0 and ms = "\<lambda>_. 10" and dur = "''1h''"
        and db = sample_policies]
    by (simp add: wants_def star_or_same_def sample_request_def)
qed

section \<open>What a signing was approved for\<close>

text \<open>The form in which the values of a field are compared.\<close>

definition comparable :: "CodeSigningScopeField \<Rightarrow> string \<Rightarrow> string" where
  "comparable field v = (if field = Command then collapse_ws (trim v)
     else if field \<in> set CASE_INSENSITIVE_FIELDS then to_lower (trim v) else trim v)"

lemma dropWhile_idem: "dropWhile P (dropWhile P xs) = dropWhile P xs"
  by (induction xs) auto

lemma trim_ends:
  "trim s = [] \<or> (\<not> is_ws (hd (trim s)) \<and> \<not> is_ws (last (trim s)))"
proof (cases "trim s = []")
  case False
  let ?t = "trim_left s" and ?r = "dropWhile is_ws (rev (trim_left s))"
  have r: "?r \<noteq> []" using False by (simp add: trim_def)
  then have "\<not> is_ws (hd ?r)" by (simp add: hd_dropWhile)
  then have last: "\<not> is_ws (last (trim s))" using r by (simp add: trim_def last_rev)
  have "rev (takeWhile is_ws (rev ?t)) = drop (length (trim s)) ?t" "trim s = take (length (trim s)) ?t"
    by (metis append_eq_conv_conj rev_append rev_rev_ident takeWhile_dropWhile_id trim_def)+
  then have "hd (trim s) = hd ?t" using False by (metis hd_take length_greater_0_conv)
  moreover have "?t \<noteq> []" using r by auto
  ultimately have "\<not> is_ws (hd (trim s))" by (simp add: trim_left_def hd_dropWhile)
  with last show ?thesis by simp
qed simp

lemma trim_trim [simp]: "trim (trim s) = trim s"
proof (cases "trim s = []")
  case False
  with trim_ends [of s] have "\<not> is_ws (hd (trim s))" "\<not> is_ws (last (trim s))" by auto
  with False have "dropWhile is_ws (trim s) = trim s" "dropWhile is_ws (rev (trim s)) = rev (trim s)"
    by (metis dropWhile_eq_self_iff, metis dropWhile_eq_self_iff hd_rev)
  then show ?thesis by (simp add: trim_def [of "trim s"] trim_left_def)
qed simp

lemma field_mismatch_comparable:
  "\<not> field_mismatch b obs field \<longleftrightarrow>
     (truthy (map_option trim (scope_field field b)) \<longrightarrow>
      truthy (map_option trim (scope_field field obs)) \<and>
      comparable field (the (scope_field field b)) = comparable field (the (scope_field field obs)))"
  by (cases "scope_field field b"; cases "scope_field field obs")
    (auto simp: field_mismatch_def comparable_def commandsMatch_def Let_def)

lemma scope_fields_all: "field \<in> set scope_fields"
  by (cases field) (simp_all add: scope_fields_def)

lemma no_mismatches: "getCodeSigningScopeMismatches (Some b) obs = [] \<longleftrightarrow> (\<forall>field. \<not> field_mismatch b obs field)"
  using scope_fields_all by (auto simp: getCodeSigningScopeMismatches_def filter_empty_conv)

lemma scope_field_set [simp]:
  "scope_field f (set_scope_field g v s) = (if f = g then Some v else scope_field f s)"
  by (cases g; cases f) simp_all

lemma scope_field_empty [simp]: "scope_field f empty_scope = None"
  by (cases f) (simp_all add: empty_scope_def)

definition as_declared :: "(string \<Rightarrow> string) \<Rightarrow> CodeSigningScopeField \<Rightarrow> string \<Rightarrow> string" where
  "as_declared redact field v = (if field = Command then redact (trim v) else trim v)"

abbreviation declared :: "code_signing_scope \<Rightarrow> CodeSigningScopeField \<Rightarrow> bool" where
  "declared s field \<equiv> truthy (map_option trim (scope_field field s))"

lemma foldl_declare:
  "scope_field f (fst (foldl (declare_field redact s) acc fs)) =
     (if f \<in> set fs \<and> declared s f then Some (as_declared redact f (the (scope_field f s)))
      else scope_field f (fst acc)) \<and>
   (snd (foldl (declare_field redact s) acc fs) \<longleftrightarrow> snd acc \<or> (\<exists>g \<in> set fs. declared s g))"
proof (induction fs arbitrary: acc)
  case Nil
  then show ?case by simp
next
  case (Cons g fs)
  have "scope_field f (fst (declare_field redact s acc g)) =
      (if f = g \<and> declared s f then Some (as_declared redact f (the (scope_field f s))) else scope_field f (fst acc))"
    by (auto simp: declare_field_def Let_def as_declared_def truthy_iff simp del: set_scope_field.simps scope_field.simps)
  moreover have "snd (declare_field redact s acc g) \<longleftrightarrow> snd acc \<or> declared s g"
    by (auto simp: declare_field_def Let_def)
  ultimately show ?case
    using Cons.IH [of "declare_field redact s acc g"] by auto
qed

lemma normalize_fields:
  "(case normalizeCodeSigningScope redact (Some s) of
      None \<Rightarrow> (\<forall>f. \<not> declared s f)
    | Some b \<Rightarrow> (\<forall>f. scope_field f b =
        (if declared s f then Some (as_declared redact f (the (scope_field f s))) else None)))"
proof -
  obtain b has where bh: "foldl (declare_field redact s) (empty_scope, False) scope_fields = (b, has)" by fastforce
  have "scope_field f b = (if declared s f then Some (as_declared redact f (the (scope_field f s))) else None)"
    "has \<longleftrightarrow> (\<exists>g. declared s g)" for f
    using foldl_declare [of f redact s "(empty_scope, False)" scope_fields] scope_fields_all
    by (auto simp: bh)
  then show ?thesis by (simp add: normalizeCodeSigningScope_def bh)
qed

definition same_value :: "(string \<Rightarrow> string) \<Rightarrow> CodeSigningScopeField \<Rightarrow> string \<Rightarrow> string \<Rightarrow> bool" where
  "same_value redact field v w \<longleftrightarrow>
     (if field = Command then comparable Command (redact v) = comparable Command (redact w)
      else comparable field v = comparable field w)"

lemma observed_field:
  "scope_field f (buildObservedSigningContext redact m ip h) =
     (if f = Command then map_option (\<lambda>c. if c = [] then c else redact c)
        (scope_field f (buildObservedSigningContext (\<lambda>c. c) m ip h))
      else scope_field f (buildObservedSigningContext (\<lambda>c. c) m ip h))"
  by (cases f; cases m)
    (auto simp: buildObservedSigningContext_def Let_def truthy_def option.map_ident split: option.splits)

text \<open>
  A signing is allowed by the scope an approval was bound to exactly when every parameter that the
  request declared is reported at signing time with the same value: white space around a value does not
  count, runs of it inside a command neither, the case of hosts, hashes and addresses neither, and
  commands are compared after their credentials are redacted on both sides. The redaction is assumed to
  ignore surrounding white space and to leave no command empty but the empty one.
\<close>

theorem signing_matches_declaration:
  assumes redact: "\<And>c. trim (redact c) = redact (trim c)" "\<And>c. redact c = [] \<longleftrightarrow> c = []"
  shows "getCodeSigningScopeMismatches (normalizeCodeSigningScope redact (Some s))
      (buildObservedSigningContext redact m ip h) = [] \<longleftrightarrow>
    (\<forall>field. declared s field \<longrightarrow>
       (\<exists>v. scope_field field (buildObservedSigningContext (\<lambda>c. c) m ip h) = Some v \<and> trim v \<noteq> [] \<and>
         same_value redact field (the (scope_field field s)) v))"
proof (cases "normalizeCodeSigningScope redact (Some s)")
  case None
  with normalize_fields [where redact = redact and s = s] show ?thesis by (simp add: getCodeSigningScopeMismatches_def)
next
  case (Some b)
  let ?o = "buildObservedSigningContext redact m ip h" and ?r = "buildObservedSigningContext (\<lambda>c. c) m ip h"
  from normalize_fields [where redact = redact and s = s] Some
  have b: "scope_field f b = (if declared s f then Some (as_declared redact f (the (scope_field f s))) else None)" for f
    by simp
  have "\<not> field_mismatch b ?o f \<longleftrightarrow> (declared s f \<longrightarrow>
      (\<exists>v. scope_field f ?r = Some v \<and> trim v \<noteq> [] \<and> same_value redact f (the (scope_field f s)) v))" for f
  proof (cases "declared s f")
    case False
    then show ?thesis by (simp add: field_mismatch_comparable b)
  next
    case True
    then obtain w where w: "scope_field f s = Some w" "trim w \<noteq> []" by (auto simp: truthy_iff)
    have bw: "scope_field f b = Some (as_declared redact f w)" using True w by (simp add: b)
    have ne: "trim (as_declared redact f w) \<noteq> []" using w redact by (simp add: as_declared_def)
    have cw: "comparable f (as_declared redact f w) = comparable f (if f = Command then redact w else w)"
      using redact(1) by (simp add: comparable_def as_declared_def CASE_INSENSITIVE_FIELDS_def)
    have tr: "trim (redact v) \<noteq> [] \<longleftrightarrow> trim v \<noteq> []" for v
      by (simp add: redact)
    define r where "r = scope_field f ?r"
    have o: "scope_field f ?o = (if f = Command then map_option (\<lambda>c. if c = [] then c else redact c) r else r)"
      unfolding r_def by (rule observed_field)
    have m: "\<not> field_mismatch b ?o f \<longleftrightarrow> truthy (map_option trim (scope_field f ?o)) \<and>
        comparable f (if f = Command then redact w else w) = comparable f (the (scope_field f ?o))"
      by (simp add: field_mismatch_comparable bw ne cw)
    have "\<not> field_mismatch b ?o f \<longleftrightarrow> (\<exists>v. r = Some v \<and> trim v \<noteq> [] \<and> same_value redact f w v)"
      unfolding m o by (cases r) (auto simp: same_value_def tr redact)
    with True w show ?thesis by (simp add: r_def)
  qed
  then show ?thesis by (simp add: Some no_mismatches)
qed

lemma signing_matches_declaration_witness:
  "getCodeSigningScopeMismatches
     (normalizeCodeSigningScope (\<lambda>c. c) (Some (empty_scope\<lparr>command := Some ''sign  a.exe '', hostname := Some ''CI''\<rparr>)))
     (buildObservedSigningContext (\<lambda>c. c) (Some \<lparr>cm_command = Some ''sign a.exe'', cm_tool = None,
        cm_signingApplicationHash = None, cm_hostname = Some ''ci'', cm_osUsername = None\<rparr>) None ''ff'') = []"
proof -
  let ?s = "empty_scope\<lparr>command := Some ''sign  a.exe '', hostname := Some ''CI''\<rparr>"
  let ?m = "Some \<lparr>cm_command = Some ''sign a.exe'', cm_tool = None,
        cm_signingApplicationHash = None, cm_hostname = Some ''ci'', cm_osUsername = None\<rparr>"
  have vals: "trim ''sign a.exe'' \<noteq> []" "same_value (\<lambda>c. c) Command ''sign  a.exe '' ''sign a.exe''"
    "trim ''ci'' \<noteq> []" "same_value (\<lambda>c. c) Hostname ''CI'' ''ci''"
    by code_simp+
  have "declared ?s field \<longrightarrow> (\<exists>v. scope_field field (buildObservedSigningContext (\<lambda>c. c) ?m None ''ff'') = Some v \<and>
      trim v \<noteq> [] \<and> same_value (\<lambda>c. c) field (the (scope_field field ?s)) v)" for field
    by (cases field) (simp_all add: buildObservedSigningContext_def empty_scope_def vals)
  then show ?thesis by (subst signing_matches_declaration) auto
qed

end
