(* ===== verification/ApprovalRequests.thy ===== *)
theory ApprovalRequests
  imports PolicyFactories PermissionChecks
begin

text \<open>
  Requests under approval policies: the handlers of \<open>approval-policy-service.ts\<close> on requests and grants,
  and the creation of requests (\<open>approval-request-fns.ts\<close>).

  A handler takes the environment and the tables and returns the result, or the error it throws, with
  the tables as it leaves them: some handlers write before they throw. The environment holds what other
  services answer (permissions, memberships, groups), the clock, and the library functions. One clock
  reading serves a handler. What the handlers do inside a database transaction is one function here
  (\<open>approve_write\<close>, \<open>reject_write\<close>, \<open>break_glass_write\<close>), applied to the rows that were read before it.
  Emails are left out; in-app notifications go to an outbox.
\<close>

datatype actor_kind = UserActor | IdentityActor | OtherActor

record actor =
  ac_type :: actor_kind
  ac_id :: string
  ac_orgId :: string

record approval_env =
  e_now :: int
  e_ms :: "string \<Rightarrow> int"
  e_picomatch :: "string \<Rightarrow> string \<Rightarrow> bool"
  e_redact :: "string \<Rightarrow> string"
  e_issueCertificate :: "string \<Rightarrow> string option"
  e_userGroups :: "string \<Rightarrow> string \<Rightarrow> string list"
  e_groupMembers :: "string \<Rightarrow> string list"
  e_projectMemberships :: "string \<Rightarrow> string list \<Rightarrow> (string \<times> string) list"
  e_applicationMembers :: "string \<Rightarrow> string \<Rightarrow> (string option \<times> string option) list"
  e_application :: "string \<Rightarrow> string option"
  e_projectPermission :: "actor \<Rightarrow> string \<Rightarrow> approval_error + ability_fn"
  e_isProjectAdmin :: "actor \<Rightarrow> string \<Rightarrow> bool"
  e_resourcePermission :: "actor \<Rightarrow> string \<Rightarrow> string \<Rightarrow> approval_error + ability_fn"

type_synonym 'a outcome = "(approval_error + 'a) \<times> approval_db"

definition throw_unless :: "ability_fn \<Rightarrow> string \<Rightarrow> string \<Rightarrow> approval_error + unit" where
  "throw_unless may act sub = (case throwUnlessCan may act sub None of
     Inr u \<Rightarrow> Inr u | Inl (Forbidden a s) \<Rightarrow> Inl (CaslForbidden a s))"

section \<open>Shared checks\<close>

definition isRequester :: "request_row \<Rightarrow> actor \<Rightarrow> bool" where
  "isRequester r a \<longleftrightarrow>
     (if rq_organizationId r \<noteq> ac_orgId a then False
      else if ac_type a = IdentityActor then rq_machineIdentityId r = Some (ac_id a)
      else rq_requesterId r = Some (ac_id a))"

definition resolveScope :: "approval_env \<Rightarrow> ApprovalPolicyScope \<Rightarrow> string \<Rightarrow>
    approval_error + string \<times> ApprovalPolicyScope option \<times> string option" where
  "resolveScope env scope scopeId = (case scope of
       ApprovalPolicyScope.Project \<Rightarrow> Inr (scopeId, None, None)
     | ApprovalPolicyScope.PkiApplication \<Rightarrow> (case e_application env scopeId of
          None \<Rightarrow> Inl (NotFound ''Application not found'')
        | Some projectId \<Rightarrow> Inr (projectId, Some ApprovalPolicyScope.PkiApplication, Some scopeId))
     | _ \<Rightarrow> Inl (BadRequest ''Unsupported scope''))"

definition verifyProjectUserMembership ::
  "approval_env \<Rightarrow> string list \<Rightarrow> string \<Rightarrow> string \<Rightarrow> approval_error + unit" where
  "verifyProjectUserMembership env userIds orgId projectId =
     (let uniqueUserIds = set_add_all userIds [] in
      if uniqueUserIds = [] then Inr ()
      else let projectMemberships = filter (\<lambda>(p, u). p = projectId) (e_projectMemberships env orgId uniqueUserIds)
           in rguard (length projectMemberships = length uniqueUserIds)
                (BadRequest ''Some users are not members of the project''))"

definition matchPolicy :: "approval_env \<Rightarrow> approval_db \<Rightarrow> ApprovalPolicyType \<Rightarrow> string \<Rightarrow> request_data \<Rightarrow> policy_view option" where
  "matchPolicy env db policyType projectId inputs = (case (policyType, inputs) of
       (PamAccess, PamData d) \<Rightarrow> pam_matchPolicy (e_picomatch env) db projectId d
     | (CertRequest, CertData d) \<Rightarrow> cert_matchPolicy db projectId d
     | (CertCodeSigning, SigningData d) \<Rightarrow> signing_matchPolicy db projectId d
     | _ \<Rightarrow> None)"

definition validateConstraints ::
  "approval_env \<Rightarrow> ApprovalPolicyType \<Rightarrow> policy_constraints \<Rightarrow> request_data \<Rightarrow> approval_error + constraint_error list" where
  "validateConstraints env policyType constraints inputs = (case (policyType, constraints, inputs) of
       (PamAccess, PamConstraints lo hi, PamData d) \<Rightarrow> Inr (pam_validateConstraints (e_ms env) lo hi d)
     | (CertRequest, _, _) \<Rightarrow> Inr []
     | (CertCodeSigning, SigningConstraints w n, SigningData d) \<Rightarrow> Inr (signing_validateConstraints (e_ms env) w n d)
     | _ \<Rightarrow> Inl TypeError)"

definition postApprovalRoutine :: "approval_env \<Rightarrow> request_row \<Rightarrow> approval_db \<Rightarrow> unit outcome" where
  "postApprovalRoutine env r db = (case (rq_type r, rq_requestData r) of
       (PamAccess, PamData d) \<Rightarrow> (Inr (), pam_postApproval (e_ms env) (e_now env) r d db)
     | (CertRequest, CertData d) \<Rightarrow> (Inr (), cert_postApproval (e_issueCertificate env) r d db)
     | (CertCodeSigning, SigningData d) \<Rightarrow> (Inr (), signing_postApproval (e_ms env) (e_redact env) (e_now env) r d db)
     | _ \<Rightarrow> (Inl TypeError, db))"

definition postRejectionRoutine :: "request_row \<Rightarrow> approval_db \<Rightarrow> unit outcome" where
  "postRejectionRoutine r db = (case (rq_type r, rq_requestData r) of
       (CertRequest, CertData d) \<Rightarrow> (Inr (), cert_postRejection r d db)
     | (CertRequest, _) \<Rightarrow> (Inl TypeError, db)
     | _ \<Rightarrow> (Inr (), db))"

definition expired :: "int \<Rightarrow> request_row \<Rightarrow> bool" where
  "expired now r = (case rq_expiresAt r of None \<Rightarrow> False | Some e \<Rightarrow> e < now)"

definition set_status :: "ApprovalRequestStatus \<Rightarrow> request_row \<Rightarrow> request_row" where
  "set_status st r = r\<lparr>rq_status := st\<rparr>"

section \<open>Notifications\<close>

definition resolveStepApproverUserIds :: "approval_env \<Rightarrow> approver list \<Rightarrow> string list" where
  "resolveStepApproverUserIds env approvers = foldl (\<lambda>userIds a.
     if ap_type a = ApproverType.User then set_add (ap_id a) userIds
     else set_add_all (e_groupMembers env (ap_id a)) userIds) [] approvers"

definition notifyStepApprovers :: "approval_env \<Rightarrow> approver list \<Rightarrow> nat \<Rightarrow> approval_db \<Rightarrow> approval_db" where
  "notifyStepApprovers env approvers rid db =
     (let userIds = resolveStepApproverUserIds env approvers
      in if userIds = [] then db
         else db\<lparr>db_outbox := db_outbox db @ [\<lparr>nt_requestId = rid, nt_users = userIds\<rparr>]\<rparr>)"

section \<open>Creating a request\<close>

record new_request =
  nq_projectId :: string
  nq_organizationId :: string
  nq_policyId :: nat
  nq_policyType :: ApprovalPolicyType
  nq_policySteps :: "policy_step list"
  nq_requestData :: request_data
  nq_justification :: "string option"
  nq_expiresAt :: "int option"
  nq_requesterUserId :: "string option"
  nq_machineIdentityId :: "string option"
  nq_requesterName :: string
  nq_requesterEmail :: string
  nq_scopeType :: "ApprovalPolicyScope option"
  nq_scopeId :: "string option"

definition new_step :: "int \<Rightarrow> nat \<Rightarrow> nat \<Rightarrow> nat \<Rightarrow> policy_step \<Rightarrow> step_row" where
  "new_step now sid rid stepNum step = \<lparr>st_id = sid, st_requestId = rid, st_stepNumber = stepNum,
     st_name = ps_name step,
     st_status = (if stepNum = 1 then ApprovalRequestStepStatus.InProgress else ApprovalRequestStepStatus.Pending),
     st_requiredApprovals = ps_requiredApprovals step,
     st_notifyApprovers = (case ps_notifyApprovers step of None \<Rightarrow> False | Some b \<Rightarrow> b),
     st_startedAt = (if stepNum = 1 then Some now else None), st_completedAt = None\<rparr>"

fun create_steps :: "int \<Rightarrow> nat \<Rightarrow> nat \<Rightarrow> policy_step list \<Rightarrow> approval_db \<Rightarrow> approval_db" where
  "create_steps now rid stepNum [] db = db"
| "create_steps now rid stepNum (step # rest) db =
     create_steps now rid (Suc stepNum) rest
       (db\<lparr>db_steps := db_steps db @ [new_step now (db_next db) rid stepNum step],
           db_eligible := db_eligible db @ map (row_of_approver (db_next db)) (ps_approvers step),
           db_next := Suc (db_next db)\<rparr>)"

definition new_request_row :: "nat \<Rightarrow> new_request \<Rightarrow> request_row" where
  "new_request_row rid q = \<lparr>rq_id = rid, rq_projectId = nq_projectId q, rq_organizationId = nq_organizationId q,
     rq_policyId = Some (nq_policyId q), rq_requesterId = nq_requesterUserId q,
     rq_machineIdentityId = nq_machineIdentityId q, rq_requesterName = nq_requesterName q,
     rq_requesterEmail = nq_requesterEmail q, rq_type = nq_policyType q,
     rq_status = ApprovalRequestStatus.Pending, rq_justification = nq_justification q, rq_currentStep = 1,
     rq_requestData = nq_requestData q, rq_expiresAt = nq_expiresAt q, rq_scopeType = nq_scopeType q,
     rq_scopeId = nq_scopeId q\<rparr>"

definition createApprovalRequestWithSteps :: "int \<Rightarrow> new_request \<Rightarrow> approval_db \<Rightarrow> request_row \<times> approval_db" where
  "createApprovalRequestWithSteps now q db =
     (let r = new_request_row (db_next db) q
      in (r, create_steps now (rq_id r) 1 (nq_policySteps q)
               (db\<lparr>db_requests := db_requests db @ [r], db_next := Suc (db_next db)\<rparr>)))"

definition createRequestFromPolicy :: "approval_env \<Rightarrow> new_request \<Rightarrow> approval_db \<Rightarrow> request_row \<times> approval_db" where
  "createRequestFromPolicy env q db =
     (case createApprovalRequestWithSteps (e_now env) q db of (r, db1) \<Rightarrow>
        (r, case nq_policySteps q of [] \<Rightarrow> db1 | s # _ \<Rightarrow> notifyStepApprovers env (ps_approvers s) (rq_id r) db1))"

section \<open>Decorating a request with what the actor may bypass\<close>

record decorated =
  dc_request :: request_row
  dc_steps :: "step_view list"
  dc_canBreakGlass :: bool
  dc_isBreakGlass :: bool
  dc_bypassReason :: "string option"

text \<open>What the listing fetches for all requests at once; a request it holds nothing for is looked up.\<close>

record decoration_context =
  cx_grants :: "nat \<Rightarrow> (bool \<times> string option) option"
  cx_policies :: "nat \<Rightarrow> policy_row option"
  cx_bypassers :: "nat \<Rightarrow> approver list option"

definition no_context :: decoration_context where
  "no_context = \<lparr>cx_grants = \<lambda>_. None, cx_policies = \<lambda>_. None, cx_bypassers = \<lambda>_. None\<rparr>"

definition bypass_listed :: "approval_env \<Rightarrow> actor \<Rightarrow> approver list \<Rightarrow> bool" where
  "bypass_listed env a bypassers \<longleftrightarrow>
     bypassers = [] \<or> isEligible (ac_id a) (e_userGroups env (ac_id a) (ac_orgId a)) bypassers"

definition can_break_glass :: "approval_env \<Rightarrow> approval_db \<Rightarrow> decoration_context \<Rightarrow> request_row \<Rightarrow> actor \<Rightarrow> bool" where
  "can_break_glass env db ctx r a =
     (if ac_type a = UserActor \<and> rq_status r = ApprovalRequestStatus.Pending \<and> rq_requesterId r = Some (ac_id a)
      then (case rq_policyId r of
          None \<Rightarrow> False
        | Some pid \<Rightarrow> (case (case cx_policies ctx pid of Some p \<Rightarrow> Some p | None \<Rightarrow> findPolicyById db pid) of
             None \<Rightarrow> False
           | Some p \<Rightarrow> pl_enforcementLevel p = Soft \<and>
               bypass_listed env a (case cx_bypassers ctx pid of Some bs \<Rightarrow> bs | None \<Rightarrow> findBypassersByPolicyId db pid)))
      else False)"

definition break_glass_grant :: "approval_db \<Rightarrow> decoration_context \<Rightarrow> request_row \<Rightarrow> bool \<times> string option" where
  "break_glass_grant db ctx r = (case cx_grants ctx (rq_id r) of
       Some g \<Rightarrow> g
     | None \<Rightarrow> (case rq_requesterId r of
          None \<Rightarrow> (False, None)
        | Some u \<Rightarrow> (case find (\<lambda>g. gr_requestId g = Some (rq_id r) \<and> gr_granteeUserId g = Some u) (db_grants db) of
             None \<Rightarrow> (False, None)
           | Some g \<Rightarrow> (gr_isBreakGlass g, gr_bypassReason g))))"

definition decorateRequest ::
  "approval_env \<Rightarrow> approval_db \<Rightarrow> decoration_context \<Rightarrow> actor \<Rightarrow> request_row \<Rightarrow> step_view list \<Rightarrow> decorated" where
  "decorateRequest env db ctx a r steps =
     (if rq_type r \<noteq> PamAccess
      then \<lparr>dc_request = r, dc_steps = steps, dc_canBreakGlass = False, dc_isBreakGlass = False, dc_bypassReason = None\<rparr>
      else \<lparr>dc_request = r, dc_steps = steps, dc_canBreakGlass = can_break_glass env db ctx r a,
             dc_isBreakGlass = fst (break_glass_grant db ctx r), dc_bypassReason = snd (break_glass_grant db ctx r)\<rparr>)"

definition fresh_view :: "approval_env \<Rightarrow> actor \<Rightarrow> nat \<Rightarrow> approval_db \<Rightarrow> approval_error + decorated" where
  "fresh_view env a rid db = (case findRequestById db rid of
       None \<Rightarrow> Inl TypeError
     | Some r \<Rightarrow> Inr (decorateRequest env db no_context a r (findStepsByRequestId db rid)))"

section \<open>Creating and reading requests\<close>

record create_request_dto =
  cd_scope :: ApprovalPolicyScope
  cd_scopeId :: string
  cd_requestData :: request_data
  cd_requestDuration :: "string option"
  cd_justification :: "string option"
  cd_requesterName :: string
  cd_requesterEmail :: string
  cd_machineIdentityId :: "string option"

definition create_permission :: "ApprovalPolicyType \<Rightarrow> ability_fn \<Rightarrow> approval_error + unit" where
  "create_permission policyType may =
     (if policyType = CertCodeSigning
      then throw_unless may (codeSigningActions ProjectPermissionCodeSigningActions.Sign)
             (projectSub ProjectPermissionSub.CodeSigners)
      else throw_unless may (approvalRequestActions ProjectPermissionApprovalRequestActions.Create)
             (projectSub ProjectPermissionSub.ApprovalRequests))"

text \<open>The instant at which the request expires: none when no duration is asked for.\<close>

definition request_expiry ::
  "approval_env \<Rightarrow> string option \<Rightarrow> string option \<Rightarrow> approval_error + int option" where
  "request_expiry env requestDuration maxRequestTtl =
     (if truthy requestDuration
      then let ttlMs = e_ms env (the requestDuration) in
           if truthy maxRequestTtl \<and> ttlMs > e_ms env (the maxRequestTtl)
           then Inl (BadRequest ''Expiration time exceeds the maximum allowed TTL'')
           else Inr (Some (e_now env + ttlMs))
      else Inr None)"

definition request_of_dto ::
  "actor \<Rightarrow> string \<Rightarrow> policy_view \<Rightarrow> create_request_dto \<Rightarrow> int option \<Rightarrow> new_request" where
  "request_of_dto a projectId policy dto expiresAt = \<lparr>nq_projectId = projectId, nq_organizationId = ac_orgId a,
     nq_policyId = pl_id policy, nq_policyType = pl_type policy, nq_policySteps = pv_steps policy,
     nq_requestData = cd_requestData dto, nq_justification = cd_justification dto, nq_expiresAt = expiresAt,
     nq_requesterUserId = (if ac_type a = IdentityActor then None else Some (ac_id a)),
     nq_machineIdentityId = cd_machineIdentityId dto, nq_requesterName = cd_requesterName dto,
     nq_requesterEmail = cd_requesterEmail dto, nq_scopeType = pl_scopeType policy, nq_scopeId = pl_scopeId policy\<rparr>"

text \<open>Everything \<open>createRequest\<close> checks before it writes.\<close>

definition admit_request :: "approval_env \<Rightarrow> approval_db \<Rightarrow> ApprovalPolicyType \<Rightarrow> create_request_dto \<Rightarrow> actor \<Rightarrow>
    approval_error + new_request" where
  "admit_request env db policyType dto a =
     rbind (resolveScope env (cd_scope dto) (cd_scopeId dto)) (\<lambda>(projectId, _).
     rbind (e_projectPermission env a projectId) (\<lambda>may.
     rbind (create_permission policyType may) (\<lambda>_.
     case matchPolicy env db policyType projectId (cd_requestData dto) of
       None \<Rightarrow> Inl (ForbiddenRequest ''No policies match the requested resource'')
     | Some policy \<Rightarrow>
         rbind (validateConstraints env policyType (pl_constraints policy) (cd_requestData dto)) (\<lambda>errors.
         rbind (rguard (errors = []) (ForbiddenRequest ''Policy constraints not met'')) (\<lambda>_.
         rbind (request_expiry env (cd_requestDuration dto) (pl_maxRequestTtl policy)) (\<lambda>expiresAt.
         Inr (request_of_dto a projectId policy dto expiresAt)))))))"

definition createRequest :: "approval_env \<Rightarrow> ApprovalPolicyType \<Rightarrow> create_request_dto \<Rightarrow> actor \<Rightarrow> approval_db \<Rightarrow>
    decorated outcome" where
  "createRequest env policyType dto a db = (case admit_request env db policyType dto a of
       Inl e \<Rightarrow> (Inl e, db)
     | Inr q \<Rightarrow> (case createRequestFromPolicy env q db of (r, db1) \<Rightarrow>
         (Inr (decorateRequest env db1 no_context a r (findStepsByRequestId db1 (rq_id r))), db1)))"

definition names_approver_of_steps :: "approval_env \<Rightarrow> actor \<Rightarrow> step_view list \<Rightarrow> bool" where
  "names_approver_of_steps env a steps \<longleftrightarrow>
     list_ex (\<lambda>s. isEligible (ac_id a) (e_userGroups env (ac_id a) (ac_orgId a)) (sv_approvers s)) steps"

definition read_permission :: "approval_env \<Rightarrow> request_row \<Rightarrow> actor \<Rightarrow> approval_error + unit" where
  "read_permission env r a =
     (if rq_scopeType r = Some ApprovalPolicyScope.PkiApplication \<and> truthy (rq_scopeId r)
      then rbind (e_resourcePermission env a (rq_projectId r) (the (rq_scopeId r))) (\<lambda>may.
             rguard (may (approvalRequestActions ProjectPermissionApprovalRequestActions.Read)
                         (resourceSub ResourcePermissionSub.ApprovalRequests) None)
               (ForbiddenRequest ''User has insufficient privileges''))
      else rbind (e_projectPermission env a (rq_projectId r)) (\<lambda>may.
             throw_unless may (approvalRequestActions ProjectPermissionApprovalRequestActions.Read)
               (projectSub ProjectPermissionSub.ApprovalRequests)))"

definition getRequestById :: "approval_env \<Rightarrow> nat \<Rightarrow> actor \<Rightarrow> approval_db \<Rightarrow> approval_error + decorated" where
  "getRequestById env rid a db = (case findRequestById db rid of
       None \<Rightarrow> Inl (ForbiddenRequest ''Request not found'')
     | Some r \<Rightarrow> (let steps = findStepsByRequestId db rid in
         rbind (if \<not> isRequester r a \<and> \<not> names_approver_of_steps env a steps then read_permission env r a else Inr ())
           (\<lambda>_. Inr (decorateRequest env db no_context a r steps))))"

definition list_context :: "approval_db \<Rightarrow> request_row list \<Rightarrow> decoration_context" where
  "list_context db visible = (
     let ids = map rq_id visible; policyIds = concat (map (\<lambda>r. case rq_policyId r of None \<Rightarrow> [] | Some p \<Rightarrow> [p]) visible);
         owner = (\<lambda>rid. case find (\<lambda>r. rq_id r = rid) visible of None \<Rightarrow> None | Some r \<Rightarrow> rq_requesterId r);
         enter = (\<lambda>m g. case gr_requestId g of
             None \<Rightarrow> m
           | Some rid \<Rightarrow> if rid \<in> set ids \<and> (owner rid = None \<or> gr_granteeUserId g = owner rid)
                         then m(rid \<mapsto> (gr_isBreakGlass g, gr_bypassReason g)) else m)
     in \<lparr>cx_grants = foldl enter Map.empty (db_grants db),
         cx_policies = (\<lambda>pid. if pid \<in> set policyIds then findPolicyById db pid else None),
         cx_bypassers = (\<lambda>pid. if pid \<in> set policyIds \<and> findBypassersByPolicyId db pid \<noteq> []
                              then Some (findBypassersByPolicyId db pid) else None)\<rparr>)"

definition list_read_permission ::
  "approval_env \<Rightarrow> ApprovalPolicyScope \<Rightarrow> string \<Rightarrow> string \<Rightarrow> actor \<Rightarrow> approval_error + bool" where
  "list_read_permission env scope inputScopeId projectId a =
     (if scope = ApprovalPolicyScope.PkiApplication \<and> inputScopeId \<noteq> []
      then rbind (e_resourcePermission env a projectId inputScopeId) (\<lambda>may.
             Inr (may (approvalRequestActions ProjectPermissionApprovalRequestActions.Read)
                      (resourceSub ResourcePermissionSub.ApprovalRequests) None))
      else rbind (e_projectPermission env a projectId) (\<lambda>may.
             Inr (may (approvalRequestActions ProjectPermissionApprovalRequestActions.Read)
                      (projectSub ProjectPermissionSub.ApprovalRequests) None)))"

definition listRequests :: "approval_env \<Rightarrow> ApprovalPolicyType \<Rightarrow> ApprovalPolicyScope \<Rightarrow> string \<Rightarrow> actor \<Rightarrow>
    approval_db \<Rightarrow> approval_error + decorated list" where
  "listRequests env policyType scope inputScopeId a db =
     rbind (resolveScope env scope inputScopeId) (\<lambda>(projectId, sct, sci).
     rbind (list_read_permission env scope inputScopeId projectId a) (\<lambda>hasReadPermission.
     let requests = findRequestsByProjectId db policyType projectId
           (if scope = ApprovalPolicyScope.Project then AnyScope else scope_options sct sci);
         visible = (if hasReadPermission then requests
           else filter (\<lambda>(r, steps). isRequester r a \<or> names_approver_of_steps env a steps) requests);
         ctx = (if visible = [] then no_context else list_context db (map fst visible))
     in Inr (map (\<lambda>(r, steps). decorateRequest env db ctx a r steps) visible)))"

section \<open>Approving\<close>

text \<open>The step with the request's number and the one after it (\<open>findIndex\<close>, then the next index).\<close>

definition step_at :: "nat \<Rightarrow> step_view list \<Rightarrow> (step_view \<times> step_view option) option" where
  "step_at n steps = (case dropWhile (\<lambda>s. st_stepNumber s \<noteq> n) steps of
       [] \<Rightarrow> None
     | s # rest \<Rightarrow> Some (s, case rest of [] \<Rightarrow> None | t # _ \<Rightarrow> Some t))"

definition complete_step :: "int \<Rightarrow> 'a step_row_scheme \<Rightarrow> 'a step_row_scheme" where
  "complete_step now s = s\<lparr>st_status := ApprovalRequestStepStatus.Completed, st_completedAt := Some now\<rparr>"

definition start_step :: "int \<Rightarrow> 'a step_row_scheme \<Rightarrow> 'a step_row_scheme" where
  "start_step now s = s\<lparr>st_status := ApprovalRequestStepStatus.InProgress, st_startedAt := Some now\<rparr>"

definition advance_request :: "nat \<Rightarrow> request_row \<Rightarrow> request_row" where
  "advance_request n r = r\<lparr>rq_currentStep := n\<rparr>"

definition completes :: "step_view \<Rightarrow> bool" where
  "completes cur \<longleftrightarrow> length (sv_approvals cur) + 1 \<ge> st_requiredApprovals cur"

text \<open>The transaction of an approval, on the request and the steps as they were read.\<close>

definition approve_write :: "int \<Rightarrow> request_row \<Rightarrow> step_view \<Rightarrow> step_view option \<Rightarrow> string \<Rightarrow> string option \<Rightarrow>
    approval_db \<Rightarrow> approval_db" where
  "approve_write now r cur nxt actorId comment db =
     (let db1 = createApproval \<lparr>av_stepId = st_id cur, av_approverUserId = actorId,
              av_decision = ApprovalRequestApprovalDecision.Approved, av_comment = comment\<rparr> db
      in if completes cur
         then let db2 = updateStep (st_id cur) (complete_step now) db1
              in (case nxt of
                    Some n \<Rightarrow> updateStep (st_id n) (start_step now)
                               (updateRequest (rq_id r) (advance_request (rq_currentStep r + 1)) db2)
                  | None \<Rightarrow> updateRequest (rq_id r) (set_status ApprovalRequestStatus.Approved) db2)
         else db1)"

definition approve_finish :: "approval_env \<Rightarrow> actor \<Rightarrow> nat \<Rightarrow> step_view \<Rightarrow> step_view option \<Rightarrow> approval_db \<Rightarrow>
    decorated outcome" where
  "approve_finish env a rid cur nxt db =
     (let db1 = (case nxt of
                   Some n \<Rightarrow> if completes cur then notifyStepApprovers env (sv_approvers n) rid db else db
                 | None \<Rightarrow> db)
      in case findRequestById db1 rid of
           None \<Rightarrow> (Inl TypeError, db1)
         | Some r \<Rightarrow>
             if rq_status r = ApprovalRequestStatus.Approved
             then (case postApprovalRoutine env r db1 of
                     (Inl e, db2) \<Rightarrow> (Inl e, db2)
                   | (Inr _, db2) \<Rightarrow> (Inr (decorateRequest env db2 no_context a r (findStepsByRequestId db1 rid)), db2))
             else (Inr (decorateRequest env db1 no_context a r (findStepsByRequestId db1 rid)), db1))"

text \<open>The checks of the standard branch, with the step to approve and its successor.\<close>

definition approve_check :: "approval_env \<Rightarrow> request_row \<Rightarrow> actor \<Rightarrow> ApprovalPolicyType \<Rightarrow> step_view list \<Rightarrow>
    approval_error + step_view \<times> step_view option" where
  "approve_check env r a policyType steps =
     (if rq_status r \<noteq> ApprovalRequestStatus.Pending then Inl (BadRequest ''Request is not pending'')
      else case step_at (rq_currentStep r) steps of
          None \<Rightarrow> Inl (BadRequest ''Current step not found'')
        | Some (cur, nxt) \<Rightarrow>
            if \<not> isEligible (ac_id a) (e_userGroups env (ac_id a) (ac_orgId a)) (sv_approvers cur)
            then Inl (ForbiddenRequest ''You are not an eligible approver for this step'')
            else if policyType = CertCodeSigning \<and> rq_requesterId r = Some (ac_id a)
            then Inl (ForbiddenRequest ''You cannot approve your own signing request'')
            else if list_ex (\<lambda>v. av_approverUserId v = ac_id a) (sv_approvals cur)
            then Inl (BadRequest ''You have already approved this request'')
            else Inr (cur, nxt))"

definition approve_standard :: "approval_env \<Rightarrow> request_row \<Rightarrow> string option \<Rightarrow> actor \<Rightarrow> ApprovalPolicyType \<Rightarrow>
    approval_db \<Rightarrow> decorated outcome" where
  "approve_standard env r comment a policyType db =
     (case approve_check env r a policyType (findStepsByRequestId db (rq_id r)) of
        Inl e \<Rightarrow> (Inl e, db)
      | Inr (cur, nxt) \<Rightarrow>
          approve_finish env a (rq_id r) cur nxt (approve_write (e_now env) r cur nxt (ac_id a) comment db))"

section \<open>Bypassing the approval\<close>

record bypass_metadata =
  bm_grantId :: nat
  bm_resourceName :: "string option"
  bm_accountName :: "string option"
  bm_accessDuration :: string
  bm_bypassReason :: string
  bm_approverCount :: nat

definition break_glass_check ::
  "approval_env \<Rightarrow> request_row \<Rightarrow> actor \<Rightarrow> policy_row \<Rightarrow> string \<Rightarrow> approval_error + pam_data" where
  "break_glass_check env r a policy reason =
     rbind (rguard (\<not> length (trim reason) < 10) (BadRequest ''A bypass reason of at least 10 characters is required'')) (\<lambda>_.
     rbind (verifyProjectUserMembership env [ac_id a] (ac_orgId a) (rq_projectId r)) (\<lambda>_.
     case (rq_requestData r, pl_constraints policy) of
       (PamData d, PamConstraints lo hi) \<Rightarrow>
         rbind (rguard (pam_validateConstraints (e_ms env) lo hi d = []) (BadRequest ''Policy constraints not met''))
           (\<lambda>_. Inr d)
     | _ \<Rightarrow> Inl TypeError))"

definition bypass_recipients :: "approval_env \<Rightarrow> actor \<Rightarrow> step_view list \<Rightarrow> string list" where
  "bypass_recipients env a steps =
     (let approvers = concat (map sv_approvers steps);
          users = set_add_all (map ap_id (filter (\<lambda>p. ap_type p = ApproverType.User) approvers)) [];
          groups = set_add_all (map ap_id (filter (\<lambda>p. ap_type p \<noteq> ApproverType.User) approvers)) []
      in filter (\<lambda>u. u \<noteq> ac_id a) (set_add_all (concat (map (e_groupMembers env) groups)) users))"

text \<open>The transaction, on the row it locks. What it writes before it throws is rolled back.\<close>

definition break_glass_write :: "approval_env \<Rightarrow> request_row \<Rightarrow> actor \<Rightarrow> pam_data \<Rightarrow> string \<Rightarrow> approval_db \<Rightarrow>
    grant_row outcome" where
  "break_glass_write env r a d reason db = (case findRequestById db (rq_id r) of
       None \<Rightarrow> (Inl (ForbiddenRequest ''Request not found''), db)
     | Some locked \<Rightarrow>
         if rq_status locked \<noteq> ApprovalRequestStatus.Pending then (Inl (BadRequest ''Request is not pending''), db)
         else if expired (e_now env) locked then (Inl (BadRequest ''Request has expired''), db)
         else (let steps = findStepsByRequestId db (rq_id r);
                   db1 = foldl (\<lambda>acc s. updateStep (st_id s) (complete_step (e_now env)) acc) db steps;
                   db2 = (case find (\<lambda>s. st_stepNumber s = rq_currentStep locked) steps of
                        None \<Rightarrow> db1
                      | Some cur \<Rightarrow> createApproval \<lparr>av_stepId = st_id cur, av_approverUserId = ac_id a,
                            av_decision = ApprovalRequestApprovalDecision.Approved, av_comment = None\<rparr> db1);
                   db3 = updateRequest (rq_id r) (set_status ApprovalRequestStatus.Approved) db2;
                   g = (blank_grant r (PamAttributes d) (Some (e_now env + e_ms env (accessDuration d))))
                         \<lparr>gr_granteeUserId := Some (ac_id a), gr_isBreakGlass := True, gr_bypassReason := Some (trim reason)\<rparr>
               in case createGrant g db3 of (g', db4) \<Rightarrow> (Inr g', db4)))"

definition approveRequestBreakGlass :: "approval_env \<Rightarrow> request_row \<Rightarrow> actor \<Rightarrow> policy_row \<Rightarrow> string \<Rightarrow> approval_db \<Rightarrow>
    (decorated \<times> bypass_metadata) outcome" where
  "approveRequestBreakGlass env r a policy reason db = (case break_glass_check env r a policy reason of
       Inl e \<Rightarrow> (Inl e, db)
     | Inr d \<Rightarrow> (let recipients = bypass_recipients env a (findStepsByRequestId db (rq_id r)) in
         case break_glass_write env r a d reason db of
           (Inl e, db1) \<Rightarrow> (Inl e, db1)
         | (Inr g, db1) \<Rightarrow>
             (let metadata = \<lparr>bm_grantId = gr_id g, bm_resourceName = resourceName d, bm_accountName = accountName d,
                    bm_accessDuration = accessDuration d, bm_bypassReason = trim reason,
                    bm_approverCount = length recipients\<rparr>;
                  db2 = (if recipients = [] then db1
                    else db1\<lparr>db_outbox := db_outbox db1 @ [\<lparr>nt_requestId = rq_id r, nt_users = recipients\<rparr>]\<rparr>)
              in (rbind (fresh_view env a (rq_id r) db2) (\<lambda>v. Inr (v, metadata)), db2))))"

definition is_break_glass :: "approval_env \<Rightarrow> approval_db \<Rightarrow> request_row \<Rightarrow> actor \<Rightarrow> policy_row \<Rightarrow> bool" where
  "is_break_glass env db r a policy \<longleftrightarrow>
     ac_type a = UserActor \<and> rq_requesterId r = Some (ac_id a) \<and> pl_enforcementLevel policy = Soft \<and>
     bypass_listed env a (findBypassersByPolicyId db (pl_id policy))"

definition approveRequest :: "approval_env \<Rightarrow> nat \<Rightarrow> string option \<Rightarrow> string option \<Rightarrow> actor \<Rightarrow> ApprovalPolicyType \<Rightarrow>
    approval_db \<Rightarrow> (decorated \<times> bypass_metadata option) outcome" where
  "approveRequest env rid comment bypassReason a policyType db = (case findRequestById db rid of
       None \<Rightarrow> (Inl (ForbiddenRequest ''Request not found''), db)
     | Some r \<Rightarrow>
         if rq_type r \<noteq> policyType then (Inl (BadRequest ''Request type mismatch''), db)
         else if bypassReason \<noteq> None \<and> policyType \<noteq> PamAccess
         then (Inl (BadRequest ''bypassReason is only supported for PAM access requests''), db)
         else if expired (e_now env) r
         then (Inl (BadRequest ''Request has expired''), updateRequest rid (set_status ApprovalRequestStatus.Expired) db)
         else case bypassReason of
             None \<Rightarrow> (case approve_standard env r comment a policyType db of (res, db1) \<Rightarrow>
                       (rbind res (\<lambda>v. Inr (v, None)), db1))
           | Some reason \<Rightarrow>
               (case Option.bind (rq_policyId r) (findPolicyById db) of
                  None \<Rightarrow> (Inl (BadRequest ''Policy no longer exists; cannot evaluate break-glass''), db)
                | Some policy \<Rightarrow>
                    if is_break_glass env db r a policy
                    then (case approveRequestBreakGlass env r a policy reason db of (res, db1) \<Rightarrow>
                            (rbind res (\<lambda>(v, m). Inr (v, Some m)), db1))
                    else (case approve_standard env r comment a policyType db of (res, db1) \<Rightarrow>
                            (rbind res (\<lambda>v. Inr (v, None)), db1))))"

section \<open>Rejecting and cancelling\<close>

definition reject_write :: "request_row \<Rightarrow> step_view \<Rightarrow> string \<Rightarrow> string option \<Rightarrow> approval_db \<Rightarrow> approval_db" where
  "reject_write r cur actorId comment db =
     updateRequest (rq_id r) (set_status ApprovalRequestStatus.Rejected)
       (createApproval \<lparr>av_stepId = st_id cur, av_approverUserId = actorId,
          av_decision = ApprovalRequestApprovalDecision.Rejected, av_comment = comment\<rparr> db)"

definition reject_finish :: "approval_env \<Rightarrow> actor \<Rightarrow> nat \<Rightarrow> approval_db \<Rightarrow> decorated outcome" where
  "reject_finish env a rid db = (case findRequestById db rid of
       None \<Rightarrow> (Inl TypeError, db)
     | Some r \<Rightarrow> (case postRejectionRoutine r db of
          (Inl e, db1) \<Rightarrow> (Inl e, db1)
        | (Inr _, db1) \<Rightarrow> (Inr (decorateRequest env db1 no_context a r (findStepsByRequestId db rid)), db1)))"

definition rejectRequest :: "approval_env \<Rightarrow> nat \<Rightarrow> string option \<Rightarrow> actor \<Rightarrow> approval_db \<Rightarrow> decorated outcome" where
  "rejectRequest env rid comment a db = (case findRequestById db rid of
       None \<Rightarrow> (Inl (ForbiddenRequest ''Request not found''), db)
     | Some r \<Rightarrow>
         if rq_status r \<noteq> ApprovalRequestStatus.Pending then (Inl (BadRequest ''Request is not pending''), db)
         else if expired (e_now env) r
         then (Inl (BadRequest ''Request has expired''), updateRequest rid (set_status ApprovalRequestStatus.Expired) db)
         else case find (\<lambda>s. st_stepNumber s = rq_currentStep r) (findStepsByRequestId db rid) of
             None \<Rightarrow> (Inl (BadRequest ''Current step not found''), db)
           | Some cur \<Rightarrow>
               if \<not> isEligible (ac_id a) (e_userGroups env (ac_id a) (ac_orgId a)) (sv_approvers cur)
               then (Inl (ForbiddenRequest ''You are not an eligible approver for this step''), db)
               else reject_finish env a rid (reject_write r cur (ac_id a) comment db))"

definition cancelRequest :: "approval_env \<Rightarrow> nat \<Rightarrow> actor \<Rightarrow> approval_db \<Rightarrow> decorated outcome" where
  "cancelRequest env rid a db = (case findRequestById db rid of
       None \<Rightarrow> (Inl (ForbiddenRequest ''Request not found''), db)
     | Some r \<Rightarrow>
         if rq_status r \<noteq> ApprovalRequestStatus.Pending then (Inl (BadRequest ''Request is not pending''), db)
         else if \<not> isRequester r a then (Inl (ForbiddenRequest ''You are not the requester of this request''), db)
         else (let db1 = updateRequest rid (set_status ApprovalRequestStatus.Cancelled) db
               in (Inr (decorateRequest env db1 no_context a (set_status ApprovalRequestStatus.Cancelled r)
                          (findStepsByRequestId db1 rid)), db1)))"

section \<open>Grants\<close>

text \<open>An active grant past its end is shown as expired, whatever the table says.\<close>

definition grant_view :: "int \<Rightarrow> grant_row \<Rightarrow> grant_row" where
  "grant_view now g =
     (if gr_status g = ApprovalRequestGrantStatus.Active \<and> (case gr_expiresAt g of None \<Rightarrow> False | Some e \<Rightarrow> e < now)
      then g\<lparr>gr_status := ApprovalRequestGrantStatus.Expired\<rparr> else g)"

definition listGrants :: "approval_env \<Rightarrow> ApprovalPolicyType \<Rightarrow> ApprovalPolicyScope \<Rightarrow> string \<Rightarrow> actor \<Rightarrow>
    approval_db \<Rightarrow> approval_error + grant_row list" where
  "listGrants env policyType scope inputScopeId a db =
     rbind (resolveScope env scope inputScopeId) (\<lambda>(projectId, sct, sci).
     rbind (if scope = ApprovalPolicyScope.PkiApplication \<and> inputScopeId \<noteq> []
            then rbind (e_resourcePermission env a projectId inputScopeId) (\<lambda>may.
                   rguard (may (approvalRequestGrantActions ProjectPermissionApprovalRequestGrantActions.Read)
                               (resourceSub ResourcePermissionSub.ApprovalRequestGrants) None)
                     (ForbiddenRequest ''User has insufficient privileges''))
            else rbind (e_projectPermission env a projectId) (\<lambda>may.
                   throw_unless may (approvalRequestGrantActions ProjectPermissionApprovalRequestGrantActions.Read)
                     (projectSub ProjectPermissionSub.ApprovalRequestGrants))) (\<lambda>_.
     Inr (map (grant_view (e_now env)) (findGrantsByProjectAndScope db projectId policyType sct sci))))"

definition getGrantById :: "approval_env \<Rightarrow> nat \<Rightarrow> actor \<Rightarrow> approval_db \<Rightarrow> approval_error + grant_row" where
  "getGrantById env gid a db = (case findGrantById db gid of
       None \<Rightarrow> Inl (NotFound ''Grant not found'')
     | Some g \<Rightarrow>
         rbind (e_projectPermission env a (gr_projectId g)) (\<lambda>may.
         rbind (throw_unless may (approvalRequestGrantActions ProjectPermissionApprovalRequestGrantActions.Read)
                  (projectSub ProjectPermissionSub.ApprovalRequestGrants)) (\<lambda>_.
         Inr (grant_view (e_now env) g))))"

definition revoke_permission ::
  "approval_env \<Rightarrow> approval_db \<Rightarrow> grant_row \<Rightarrow> actor \<Rightarrow> approval_error + unit" where
  "revoke_permission env db g a =
     rbind (e_projectPermission env a (gr_projectId g)) (\<lambda>may.
     if may (approvalRequestGrantActions ProjectPermissionApprovalRequestGrantActions.Revoke)
            (projectSub ProjectPermissionSub.ApprovalRequestGrants) None
     then Inr ()
     else if fst (grant_scope db g) = Some ApprovalPolicyScope.PkiApplication \<and> truthy (snd (grant_scope db g))
     then rbind (e_resourcePermission env a (gr_projectId g) (the (snd (grant_scope db g)))) (\<lambda>resourcePerm.
            throw_unless resourcePerm (approvalRequestGrantActions ProjectPermissionApprovalRequestGrantActions.Revoke)
              (resourceSub ResourcePermissionSub.ApprovalRequestGrants))
     else throw_unless may (approvalRequestGrantActions ProjectPermissionApprovalRequestGrantActions.Revoke)
            (projectSub ProjectPermissionSub.ApprovalRequestGrants))"

definition revoke_row :: "int \<Rightarrow> string \<Rightarrow> string option \<Rightarrow> grant_row \<Rightarrow> grant_row" where
  "revoke_row now actorId reason g = g\<lparr>gr_status := ApprovalRequestGrantStatus.Revoked, gr_revokedAt := Some now,
     gr_revokedByUserId := Some actorId, gr_revocationReason := reason\<rparr>"

definition revokeGrant :: "approval_env \<Rightarrow> nat \<Rightarrow> string option \<Rightarrow> actor \<Rightarrow> approval_db \<Rightarrow> grant_row outcome" where
  "revokeGrant env gid reason a db = (case findGrantById db gid of
       None \<Rightarrow> (Inl (NotFound ''Grant not found''), db)
     | Some g \<Rightarrow> (case revoke_permission env db g a of
          Inl e \<Rightarrow> (Inl e, db)
        | Inr _ \<Rightarrow>
            if gr_status g \<noteq> ApprovalRequestGrantStatus.Active then (Inl (BadRequest ''Grant is not active''), db)
            else (Inr (revoke_row (e_now env) (ac_id a) reason g),
                  updateGrant gid (revoke_row (e_now env) (ac_id a) reason) db)))"

record policy_match =
  pm_requiresApproval :: bool
  pm_hasActiveGrant :: bool
  pm_maxDuration :: "string option"

definition canAccess :: "approval_env \<Rightarrow> approval_db \<Rightarrow> ApprovalPolicyType \<Rightarrow> string \<Rightarrow> string \<Rightarrow> request_data \<Rightarrow>
    grant_row option" where
  "canAccess env db policyType projectId userId inputs = (case (policyType, inputs) of
       (PamAccess, PamData d) \<Rightarrow> pam_canAccess (e_picomatch env) (e_now env) db projectId userId d
     | (CertCodeSigning, SigningData d) \<Rightarrow> signing_canAccess (e_now env) db projectId userId d
     | _ \<Rightarrow> None)"

definition checkPolicyMatch :: "approval_env \<Rightarrow> ApprovalPolicyType \<Rightarrow> string \<Rightarrow> request_data \<Rightarrow> actor \<Rightarrow>
    approval_db \<Rightarrow> approval_error + policy_match" where
  "checkPolicyMatch env policyType projectId inputs a db =
     rbind (e_projectPermission env a projectId) (\<lambda>_.
     case matchPolicy env db policyType projectId inputs of
       None \<Rightarrow> Inr \<lparr>pm_requiresApproval = False, pm_hasActiveGrant = False, pm_maxDuration = None\<rparr>
     | Some policy \<Rightarrow> (let activeGrant = canAccess env db policyType projectId (ac_id a) inputs in
         Inr \<lparr>pm_requiresApproval = (activeGrant = None), pm_hasActiveGrant = (activeGrant \<noteq> None),
              pm_maxDuration = (case pl_constraints policy of PamConstraints lo hi \<Rightarrow> Some hi | _ \<Rightarrow> None)\<rparr>))"

end
