(* ===== verification/ApprovalPolicies.thy ===== *)
theory ApprovalPolicies
  imports ApprovalRequests
begin

text \<open>
  The administration of approval policies (\<open>create\<close>, \<open>list\<close>, \<open>getById\<close>, \<open>updateById\<close>, \<open>deleteById\<close> of
  \<open>approval-policy-service.ts\<close>): who may change a policy, what a policy may say, and the rows it is
  stored in. Deleting a step deletes its approvers and deleting a policy deletes its steps and bypassers
  and clears the reference of its requests, as the foreign keys of the tables do.
\<close>

section \<open>Who may, and who may be named\<close>

definition assertCanManagePolicy :: "approval_env \<Rightarrow> string \<Rightarrow> ApprovalPolicyScope option \<Rightarrow> string option \<Rightarrow>
    actor \<Rightarrow> ResourcePermissionApprovalPolicyActions \<Rightarrow> approval_error + unit" where
  "assertCanManagePolicy env projectId sct sci a act =
     (if sct = Some ApprovalPolicyScope.PkiApplication \<and> truthy sci
      then rbind (e_resourcePermission env a projectId (the sci)) (\<lambda>may.
             throw_unless may (resourceApprovalPolicyActions act) (resourceSub ResourcePermissionSub.ApprovalPolicies))
      else rbind (e_projectPermission env a projectId) (\<lambda>_.
             rguard (e_isProjectAdmin env a projectId) (ForbiddenRequest ''User has insufficient privileges'')))"

definition verifyApplicationApproverMembership ::
  "approval_env \<Rightarrow> approver list \<Rightarrow> string \<Rightarrow> string \<Rightarrow> approval_error + unit" where
  "verifyApplicationApproverMembership env approvers projectId appId =
     (let userIds = set_add_all (map ap_id (filter (\<lambda>p. ap_type p = ApproverType.User) approvers)) [];
          groupIds = set_add_all (map ap_id (filter (\<lambda>p. ap_type p = ApproverType.Group) approvers)) []
      in if userIds = [] \<and> groupIds = [] then Inr ()
         else let memberships = e_applicationMembers env projectId appId;
                  usersNotInApp = filter (\<lambda>u. \<not> list_ex (\<lambda>m. fst m = Some u \<and> u \<noteq> []) memberships) userIds;
                  groupsNotInApp = filter (\<lambda>g. \<not> list_ex (\<lambda>m. snd m = Some g \<and> g \<noteq> []) memberships) groupIds
              in rguard (usersNotInApp = [] \<and> groupsNotInApp = [])
                   (BadRequest ''Approvers must be members of the Application''))"

definition bypass_supported ::
  "ApprovalPolicyType \<Rightarrow> EnforcementLevel option \<Rightarrow> approver list option \<Rightarrow> approval_error + unit" where
  "bypass_supported policyType level bypassers =
     rguard (\<not> (policyType \<noteq> PamAccess \<and> (level = Some Soft \<or> (case bypassers of None \<Rightarrow> False | Some bs \<Rightarrow> bs \<noteq> []))))
       (BadRequest ''Bypass approvals are only supported on PAM access policies'')"

definition verify_approvers :: "approval_env \<Rightarrow> policy_step list \<Rightarrow> string \<Rightarrow> string \<Rightarrow> ApprovalPolicyScope option \<Rightarrow>
    string option \<Rightarrow> approval_error + unit" where
  "verify_approvers env steps orgId projectId sct sci =
     (let allApprovers = concat (map ps_approvers steps) in
      if sct = Some ApprovalPolicyScope.PkiApplication \<and> truthy sci
      then verifyApplicationApproverMembership env allApprovers projectId (the sci)
      else verifyProjectUserMembership env
             (map ap_id (filter (\<lambda>p. ap_type p = ApproverType.User) allApprovers)) orgId projectId)"

definition verify_bypassers ::
  "approval_env \<Rightarrow> approver list \<Rightarrow> string \<Rightarrow> string \<Rightarrow> approval_error + unit" where
  "verify_bypassers env bypassers orgId projectId =
     verifyProjectUserMembership env (map ap_id (filter (\<lambda>p. ap_type p = ApproverType.User) bypassers)) orgId projectId"

section \<open>Writing a policy\<close>

record create_policy_dto =
  cp_scope :: ApprovalPolicyScope
  cp_scopeId :: string
  cp_name :: string
  cp_maxRequestTtl :: "string option"
  cp_conditions :: policy_conditions
  cp_constraints :: policy_constraints
  cp_steps :: "policy_step list"
  cp_bypassForMachineIdentities :: "bool option"
  cp_enforcementLevel :: "EnforcementLevel option"
  cp_bypassers :: "approver list option"

record update_policy_dto =
  up_name :: "string option"
  up_maxRequestTtl :: "string option option"
  up_conditions :: "policy_conditions option"
  up_constraints :: "policy_constraints option"
  up_steps :: "policy_step list option"
  up_bypassForMachineIdentities :: "bool option"
  up_enforcementLevel :: "EnforcementLevel option"
  up_bypassers :: "approver list option"

fun insert_policy_steps :: "nat \<Rightarrow> nat \<Rightarrow> policy_step list \<Rightarrow> approval_db \<Rightarrow> approval_db" where
  "insert_policy_steps pid stepNum [] db = db"
| "insert_policy_steps pid stepNum (step # rest) db =
     insert_policy_steps pid (Suc stepNum) rest
       (db\<lparr>db_policySteps := db_policySteps db @ [\<lparr>psr_id = db_next db, psr_policyId = pid, psr_stepNumber = stepNum,
             psr_name = ps_name step, psr_requiredApprovals = ps_requiredApprovals step,
             psr_notifyApprovers = ps_notifyApprovers step\<rparr>],
           db_policyApprovers := db_policyApprovers db @ map (row_of_approver (db_next db)) (ps_approvers step),
           db_next := Suc (db_next db)\<rparr>)"

definition insert_bypassers :: "nat \<Rightarrow> approver list \<Rightarrow> approval_db \<Rightarrow> approval_db" where
  "insert_bypassers pid bypassers db =
     db\<lparr>db_policyBypassers := db_policyBypassers db @ map (row_of_approver pid) bypassers\<rparr>"

definition delete_policy_steps :: "nat \<Rightarrow> approval_db \<Rightarrow> approval_db" where
  "delete_policy_steps pid db =
     (let gone = map psr_id (filter (\<lambda>s. psr_policyId s = pid) (db_policySteps db))
      in db\<lparr>db_policySteps := filter (\<lambda>s. psr_policyId s \<noteq> pid) (db_policySteps db),
            db_policyApprovers := filter (\<lambda>r. sb_owner r \<notin> set gone) (db_policyApprovers db)\<rparr>)"

definition delete_bypassers :: "nat \<Rightarrow> approval_db \<Rightarrow> approval_db" where
  "delete_bypassers pid db =
     db\<lparr>db_policyBypassers := filter (\<lambda>r. sb_owner r \<noteq> pid) (db_policyBypassers db)\<rparr>"

definition new_policy_row ::
  "nat \<Rightarrow> string \<Rightarrow> string \<Rightarrow> ApprovalPolicyType \<Rightarrow> create_policy_dto \<Rightarrow> ApprovalPolicyScope option \<Rightarrow> string option \<Rightarrow> policy_row" where
  "new_policy_row pid projectId orgId policyType dto sct sci = \<lparr>pl_id = pid, pl_projectId = projectId,
     pl_organizationId = orgId, pl_type = policyType, pl_name = cp_name dto, pl_isActive = True,
     pl_maxRequestTtl = cp_maxRequestTtl dto, pl_conditions = cp_conditions dto, pl_constraints = cp_constraints dto,
     pl_bypassForMachineIdentities = (case cp_bypassForMachineIdentities dto of None \<Rightarrow> False | Some b \<Rightarrow> b),
     pl_enforcementLevel = (case cp_enforcementLevel dto of None \<Rightarrow> Hard | Some l \<Rightarrow> l),
     pl_scopeType = sct, pl_scopeId = sci\<rparr>"

definition check_create :: "approval_env \<Rightarrow> ApprovalPolicyType \<Rightarrow> create_policy_dto \<Rightarrow> actor \<Rightarrow>
    approval_error + string \<times> ApprovalPolicyScope option \<times> string option" where
  "check_create env policyType dto a =
     rbind (resolveScope env (cp_scope dto) (cp_scopeId dto)) (\<lambda>(projectId, sct, sci).
     rbind (assertCanManagePolicy env projectId sct sci a ResourcePermissionApprovalPolicyActions.Create) (\<lambda>_.
     rbind (bypass_supported policyType (cp_enforcementLevel dto) (cp_bypassers dto)) (\<lambda>_.
     rbind (verify_approvers env (cp_steps dto) (ac_orgId a) projectId sct sci) (\<lambda>_.
     rbind (verify_bypassers env (case cp_bypassers dto of None \<Rightarrow> [] | Some bs \<Rightarrow> bs) (ac_orgId a) projectId) (\<lambda>_.
     Inr (projectId, sct, sci))))))"

definition createPolicy :: "approval_env \<Rightarrow> ApprovalPolicyType \<Rightarrow> create_policy_dto \<Rightarrow> actor \<Rightarrow> approval_db \<Rightarrow>
    policy_view outcome" where
  "createPolicy env policyType dto a db = (case check_create env policyType dto a of
       Inl e \<Rightarrow> (Inl e, db)
     | Inr (projectId, sct, sci) \<Rightarrow>
         (let p = new_policy_row (db_next db) projectId (ac_orgId a) policyType dto sct sci;
              bypassers = (case cp_bypassers dto of None \<Rightarrow> [] | Some bs \<Rightarrow> bs);
              db1 = db\<lparr>db_policies := db_policies db @ [p], db_next := Suc (db_next db)\<rparr>
          in (Inr (policy_row.extend p \<lparr>pv_steps = cp_steps dto, pv_bypassers = bypassers\<rparr>),
              insert_bypassers (pl_id p) bypassers (insert_policy_steps (pl_id p) 1 (cp_steps dto) db1))))"

definition listPolicies :: "approval_env \<Rightarrow> ApprovalPolicyType \<Rightarrow> ApprovalPolicyScope \<Rightarrow> string \<Rightarrow> actor \<Rightarrow>
    approval_db \<Rightarrow> approval_error + policy_view list" where
  "listPolicies env policyType scope inputScopeId a db =
     rbind (resolveScope env scope inputScopeId) (\<lambda>(projectId, sct, sci).
     rbind (assertCanManagePolicy env projectId sct sci a ResourcePermissionApprovalPolicyActions.Read) (\<lambda>_.
     Inr (findPoliciesByProjectId db policyType projectId (scope_options sct sci))))"

definition getPolicyById :: "approval_env \<Rightarrow> nat \<Rightarrow> actor \<Rightarrow> approval_db \<Rightarrow> approval_error + policy_view" where
  "getPolicyById env pid a db = (case findPolicyById db pid of
       None \<Rightarrow> Inl (ForbiddenRequest ''Policy not found'')
     | Some p \<Rightarrow> rbind (assertCanManagePolicy env (pl_projectId p) (pl_scopeType p) (pl_scopeId p) a
                         ResourcePermissionApprovalPolicyActions.Read) (\<lambda>_. Inr (view_policy db p)))"

definition update_policy_row :: "update_policy_dto \<Rightarrow> policy_row \<Rightarrow> policy_row" where
  "update_policy_row dto p = p\<lparr>
     pl_name := (case up_name dto of None \<Rightarrow> pl_name p | Some v \<Rightarrow> v),
     pl_maxRequestTtl := (case up_maxRequestTtl dto of None \<Rightarrow> pl_maxRequestTtl p | Some v \<Rightarrow> v),
     pl_conditions := (case up_conditions dto of None \<Rightarrow> pl_conditions p | Some v \<Rightarrow> v),
     pl_constraints := (case up_constraints dto of None \<Rightarrow> pl_constraints p | Some v \<Rightarrow> v),
     pl_bypassForMachineIdentities :=
       (case up_bypassForMachineIdentities dto of None \<Rightarrow> pl_bypassForMachineIdentities p | Some v \<Rightarrow> v),
     pl_enforcementLevel := (case up_enforcementLevel dto of None \<Rightarrow> pl_enforcementLevel p | Some v \<Rightarrow> v)\<rparr>"

definition check_update :: "approval_env \<Rightarrow> policy_row \<Rightarrow> update_policy_dto \<Rightarrow> actor \<Rightarrow> approval_error + unit" where
  "check_update env p dto a =
     rbind (assertCanManagePolicy env (pl_projectId p) (pl_scopeType p) (pl_scopeId p) a
              ResourcePermissionApprovalPolicyActions.Edit) (\<lambda>_.
     rbind (bypass_supported (pl_type p) (up_enforcementLevel dto) (up_bypassers dto)) (\<lambda>_.
     rbind (case up_steps dto of None \<Rightarrow> Inr ()
            | Some steps \<Rightarrow> verify_approvers env steps (ac_orgId a) (pl_projectId p) (pl_scopeType p) (pl_scopeId p)) (\<lambda>_.
     case up_bypassers dto of None \<Rightarrow> Inr ()
     | Some bs \<Rightarrow> verify_bypassers env bs (ac_orgId a) (pl_projectId p))))"

definition replace_steps :: "nat \<Rightarrow> policy_step list option \<Rightarrow> approval_db \<Rightarrow> approval_db" where
  "replace_steps pid steps db = (case steps of None \<Rightarrow> db
     | Some ss \<Rightarrow> insert_policy_steps pid 1 ss (delete_policy_steps pid db))"

definition replace_bypassers :: "nat \<Rightarrow> approver list option \<Rightarrow> approval_db \<Rightarrow> approval_db" where
  "replace_bypassers pid bypassers db = (case bypassers of None \<Rightarrow> db
     | Some bs \<Rightarrow> insert_bypassers pid bs (delete_bypassers pid db))"

definition updatePolicyById :: "approval_env \<Rightarrow> nat \<Rightarrow> update_policy_dto \<Rightarrow> actor \<Rightarrow> approval_db \<Rightarrow>
    policy_view outcome" where
  "updatePolicyById env pid dto a db = (case findPolicyById db pid of
       None \<Rightarrow> (Inl (ForbiddenRequest ''Policy not found''), db)
     | Some p \<Rightarrow> (case check_update env p dto a of
          Inl e \<Rightarrow> (Inl e, db)
        | Inr _ \<Rightarrow>
            (let db1 = db\<lparr>db_policies := map (\<lambda>q. if pl_id q = pid then update_policy_row dto q else q) (db_policies db)\<rparr>;
                 db2 = replace_bypassers pid (up_bypassers dto) (replace_steps pid (up_steps dto) db1)
             in (Inr (view_policy db2 (update_policy_row dto p)), db2))))"

definition clear_policy :: "nat \<Rightarrow> request_row \<Rightarrow> request_row" where
  "clear_policy pid r = (if rq_policyId r = Some pid then r\<lparr>rq_policyId := None\<rparr> else r)"

definition deletePolicyById :: "approval_env \<Rightarrow> nat \<Rightarrow> actor \<Rightarrow> approval_db \<Rightarrow> nat outcome" where
  "deletePolicyById env pid a db = (case findPolicyById db pid of
       None \<Rightarrow> (Inl (ForbiddenRequest ''Policy not found''), db)
     | Some p \<Rightarrow> (case assertCanManagePolicy env (pl_projectId p) (pl_scopeType p) (pl_scopeId p) a
                        ResourcePermissionApprovalPolicyActions.Delete of
          Inl e \<Rightarrow> (Inl e, db)
        | Inr _ \<Rightarrow>
            (let db1 = delete_bypassers pid (delete_policy_steps pid db)
             in (Inr pid, db1\<lparr>db_policies := filter (\<lambda>q. pl_id q \<noteq> pid) (db_policies db1),
                              db_requests := map (clear_policy pid) (db_requests db1)\<rparr>))))"

section \<open>Removing approvers\<close>

text \<open>
  When a member leaves an application, a signer or a project, its rows as an approver of the policies
  there are deleted. Whether a row names the subject is tested by user, or by group when no user is given.
\<close>

definition row_names :: "string option \<Rightarrow> string option \<Rightarrow> subject_row \<Rightarrow> bool" where
  "row_names userId groupId r \<longleftrightarrow> (if truthy userId then sb_userId r = userId else sb_groupId r = groupId)"

definition deleteStepApproversBySubject :: "string \<Rightarrow> scope_filter \<Rightarrow> string option \<Rightarrow> string option \<Rightarrow> approval_db \<Rightarrow>
    (nat \<times> string) list \<times> approval_db" where
  "deleteStepApproversBySubject projectId options userId groupId db =
     (if \<not> truthy userId \<and> \<not> truthy groupId then ([], db)
      else let affected = filter (\<lambda>p. pl_projectId p = projectId \<and> scope_passes options (pl_scopeType p) (pl_scopeId p) \<and>
                 list_ex (row_names userId groupId) (policy_approver_rows db (pl_id p))) (db_policies db);
               stepIds = map psr_id (filter (\<lambda>s. psr_policyId s \<in> set (map pl_id affected)) (db_policySteps db))
           in (map (\<lambda>p. (pl_id p, pl_name p)) affected,
               if affected = [] \<or> stepIds = [] then db
               else db\<lparr>db_policyApprovers := filter (\<lambda>r. \<not> (sb_owner r \<in> set stepIds \<and> row_names userId groupId r))
                      (db_policyApprovers db)\<rparr>))"

definition deleteUserStepApproversInProjects :: "string list \<Rightarrow> string list \<Rightarrow> ApprovalPolicyScope list \<Rightarrow> approval_db \<Rightarrow>
    approval_db" where
  "deleteUserStepApproversInProjects projectIds userIds scopeTypes db =
     (if projectIds = [] \<or> userIds = [] \<or> scopeTypes = [] then db
      else let policyIds = map pl_id (filter (\<lambda>p. pl_projectId p \<in> set projectIds \<and> pl_scopeType p \<in> Some ` set scopeTypes)
                 (db_policies db));
               stepIds = map psr_id (filter (\<lambda>s. psr_policyId s \<in> set policyIds) (db_policySteps db))
           in db\<lparr>db_policyApprovers := filter (\<lambda>r. \<not> (sb_owner r \<in> set stepIds \<and> sb_userId r \<in> Some ` set userIds))
                (db_policyApprovers db)\<rparr>)"

text \<open>The scopes (of those given) that have a policy with an approver, without repetitions.\<close>

definition findScopeIdsWithApprovers ::
  "approval_db \<Rightarrow> ApprovalPolicyType \<Rightarrow> ApprovalPolicyScope \<Rightarrow> string list \<Rightarrow> string list" where
  "findScopeIdsWithApprovers db policyType sct scopeIds =
     (if scopeIds = [] then []
      else filter (\<lambda>i. i \<noteq> []) (remdups (map (\<lambda>p. the (pl_scopeId p))
             (filter (\<lambda>p. pl_type p = policyType \<and> pl_scopeType p = Some sct \<and> pl_scopeId p \<in> Some ` set scopeIds \<and>
                policy_approver_rows db (pl_id p) \<noteq> []) (db_policies db)))))"

end
