(* ===== verification/ApprovalClients.thy ===== *)
theory ApprovalClients
  imports ApprovalPolicies
begin

text \<open>
  The services that open requests without the handler \<open>createRequest\<close>, and the other writers of requests
  and grants: certificates (\<open>certificate-v3-service.ts\<close>, \<open>pki-acme-service.ts\<close>), which open a request when
  a policy matches their profile, and signers (\<open>signer-policy-service.ts\<close>), where a member asks for
  signings, a manager approves signings in advance, without a review, or revokes a request.

  The rows of signers, members, roles, users and identities are read only and come with the
  environment, as do the answers of the permission service. \<open>se_ms\<close> is \<open>ms\<close> with the empty result when
  it throws or gives no finite number.
\<close>

section \<open>Requests of certificates\<close>

text \<open>What the three ways to a certificate of \<open>certificate-v3-service.ts\<close> and the ACME service hand over.\<close>

record certificate_order =
  co_projectId :: string
  co_organizationId :: string
  co_profileName :: string
  co_applicationId :: "string option"
  co_certificateRequestId :: string
  co_justification :: "string option"
  co_actor :: "actor option"
  co_requesterName :: string
  co_requesterEmail :: string

definition shouldBypassApproval :: "actor option \<Rightarrow> policy_view \<Rightarrow> bool" where
  "shouldBypassApproval a policy \<longleftrightarrow>
     (case a of None \<Rightarrow> False | Some x \<Rightarrow> ac_type x = IdentityActor \<and> pl_bypassForMachineIdentities policy)"

definition certificate_request_of :: "approval_env \<Rightarrow> certificate_order \<Rightarrow> policy_view \<Rightarrow> new_request" where
  "certificate_request_of env c policy = \<lparr>nq_projectId = co_projectId c, nq_organizationId = co_organizationId c,
     nq_policyId = pl_id policy, nq_policyType = pl_type policy, nq_policySteps = pv_steps policy,
     nq_requestData = CertData \<lparr>profileName = co_profileName c, applicationId = None,
        certificateRequestId = co_certificateRequestId c\<rparr>,
     nq_justification = co_justification c,
     nq_expiresAt = (if truthy (pl_maxRequestTtl policy)
                     then Some (e_now env + e_ms env (the (pl_maxRequestTtl policy))) else None),
     nq_requesterUserId = (case co_actor c of
        Some a \<Rightarrow> if ac_type a = UserActor then Some (ac_id a) else None | None \<Rightarrow> None),
     nq_machineIdentityId = (case co_actor c of
        Some a \<Rightarrow> if ac_type a = IdentityActor then Some (ac_id a) else None | None \<Rightarrow> None),
     nq_requesterName = co_requesterName c, nq_requesterEmail = co_requesterEmail c,
     nq_scopeType = pl_scopeType policy, nq_scopeId = pl_scopeId policy\<rparr>"

text \<open>The policy that asks for an approval: none matches, or the caller bypasses it, and none is needed.\<close>

definition policy_to_ask ::
  "approval_env \<Rightarrow> certificate_order \<Rightarrow> approval_db \<Rightarrow> policy_view option" where
  "policy_to_ask env c db =
     (case matchPolicy env db CertRequest (co_projectId c)
             (CertData \<lparr>profileName = co_profileName c, applicationId = co_applicationId c, certificateRequestId = []\<rparr>) of
        None \<Rightarrow> None
      | Some policy \<Rightarrow> if shouldBypassApproval (co_actor c) policy then None else Some policy)"

text \<open>The request is empty when no approval is needed: the certificate is issued at once.\<close>

definition requestCertificateApproval ::
  "approval_env \<Rightarrow> certificate_order \<Rightarrow> approval_db \<Rightarrow> request_row option \<times> approval_db" where
  "requestCertificateApproval env c db = (case policy_to_ask env c db of
       None \<Rightarrow> (None, db)
     | Some policy \<Rightarrow>
         let created = db\<lparr>db_certRequests := (db_certRequests db)(co_certificateRequestId c \<mapsto>
               \<lparr>cr_status = CertPendingApproval, cr_approvalRequestId = None\<rparr>)\<rparr>
         in case createRequestFromPolicy env (certificate_request_of env c policy) created of (r, db1) \<Rightarrow>
              (Some r, set_cert_request (co_certificateRequestId c)
                 \<lparr>cr_status = CertPendingApproval, cr_approvalRequestId = Some (rq_id r)\<rparr> db1))"

section \<open>Signers\<close>

record signer_row =
  sn_id :: string
  sn_name :: string
  sn_projectId :: string
  sn_approvalPolicyId :: "nat option"

record member_row =
  mb_id :: nat
  mb_userId :: "string option"
  mb_identityId :: "string option"
  mb_groupId :: "string option"

record user_names =
  un_firstName :: "string option"
  un_lastName :: "string option"
  un_username :: "string option"
  un_email :: "string option"

record signer_env =
  se_approvals :: approval_env
  se_ms :: "string \<Rightarrow> int option"
  se_signers :: "string \<Rightarrow> signer_row option"
  se_permission :: "actor \<Rightarrow> string \<Rightarrow> string \<Rightarrow> approval_error + ability_fn"
  se_members :: "string \<Rightarrow> string \<Rightarrow> member_row list"
  se_roles :: "(nat \<times> string option) list"
  se_userGroups :: "string \<Rightarrow> string list"
  se_identityGroups :: "string \<Rightarrow> string list"
  se_users :: "string \<Rightarrow> user_names option"
  se_identities :: "string \<Rightarrow> string option"

definition parseDurationMs :: "signer_env \<Rightarrow> string \<Rightarrow> int option" where
  "parseDurationMs env duration =
     (case se_ms env duration of None \<Rightarrow> None | Some parsed \<Rightarrow> if 0 < parsed then Some parsed else None)"

definition loadSignerOrThrow :: "signer_env \<Rightarrow> string \<Rightarrow> approval_error + signer_row \<times> nat" where
  "loadSignerOrThrow env sid = (case se_signers env sid of
       None \<Rightarrow> Inl (NotFound ''Signer not found'')
     | Some s \<Rightarrow> (case sn_approvalPolicyId s of
          None \<Rightarrow> Inl (BadRequest ''Signer does not have an approval policy'')
        | Some pid \<Rightarrow> Inr (s, pid)))"

definition assertResourcePermission ::
  "signer_env \<Rightarrow> signer_row \<Rightarrow> actor \<Rightarrow> ResourcePermissionSignerActions \<Rightarrow> approval_error + unit" where
  "assertResourcePermission env s a action =
     rbind (se_permission env a (sn_projectId s) (sn_id s)) (\<lambda>may.
       throw_unless may (resourceSignerActions action) (resourceSub ResourcePermissionSub.Signer))"

text \<open>The first value that is given and not empty; \<open>a || b\<close> over optional strings.\<close>

fun first_given :: "string option list \<Rightarrow> string \<Rightarrow> string" where
  "first_given [] d = d"
| "first_given (x # xs) d = (if truthy x then the x else first_given xs d)"

definition resolveActorDisplay :: "signer_env \<Rightarrow> string option \<Rightarrow> string option \<Rightarrow> string \<times> string" where
  "resolveActorDisplay env userId identityId =
     (if truthy userId then (case se_users env (the userId) of
          None \<Rightarrow> (the userId, [])
        | Some u \<Rightarrow> let fullName = trim (join_char CHR '' '' (map the (filter (\<lambda>p. truthy (map_option trim p))
                       [un_firstName u, un_lastName u])))
                   in (first_given [Some fullName, un_username u, un_email u] (the userId),
                       case un_email u of None \<Rightarrow> [] | Some e \<Rightarrow> e))
      else if truthy identityId then (first_given [se_identities env (the identityId)] (the identityId), [])
      else ([], []))"

definition constraints_blob :: "policy_constraints \<Rightarrow> nat option \<times> string option" where
  "constraints_blob c = (case c of SigningConstraints maxWindow maxSignings \<Rightarrow> (maxSignings, maxWindow) | _ \<Rightarrow> (None, None))"

definition resolveRequestEffectiveLimits :: "signer_env \<Rightarrow> policy_constraints \<Rightarrow> nat option \<Rightarrow> string option \<Rightarrow>
    approval_error + nat option \<times> string option" where
  "resolveRequestEffectiveLimits env constraints asked window =
     (case constraints_blob constraints of (maxSignings, maxWindowDuration) \<Rightarrow>
        rbind (rguard (asked \<noteq> Some 0) (BadRequest ''requestedSignings must be at least 1.'')) (\<lambda>_.
        rbind (rguard (maxSignings = None \<or> asked = None \<or> the asked \<le> the maxSignings)
                 (BadRequest ''Requested signatures exceed the policy limit'')) (\<lambda>_.
        rbind (if truthy window then (case parseDurationMs env (the window) of
                   None \<Rightarrow> Inl (BadRequest ''Invalid signing window duration'')
                 | Some requestedMs \<Rightarrow>
                     (case (if truthy maxWindowDuration then parseDurationMs env (the maxWindowDuration) else None) of
                        None \<Rightarrow> Inr window
                      | Some allowedMs \<Rightarrow> if requestedMs > allowedMs
                          then Inl (BadRequest ''Requested signing window exceeds the policy maximum'') else Inr window))
               else if truthy maxWindowDuration then Inr maxWindowDuration else Inr None) (\<lambda>effectiveWindow.
        Inr (if asked = None \<and> maxSignings \<noteq> None then maxSignings else asked, effectiveWindow)))))"

text \<open>The scope a request names: its address may be left out, declared as none, or given.\<close>

datatype declared_ip = IpLeftOut | IpDeclaredNone | IpDeclared string

definition resolveRequestedScope :: "(code_signing_scope \<times> declared_ip) option \<Rightarrow> actor_kind \<Rightarrow> string option \<Rightarrow>
    code_signing_scope option" where
  "resolveRequestedScope scope kind requestIp = (case scope of
       None \<Rightarrow> None
     | Some (rest, IpDeclaredNone) \<Rightarrow> Some (rest\<lparr>ipAddress := None\<rparr>)
     | Some (rest, IpDeclared ip) \<Rightarrow> Some (rest\<lparr>ipAddress := Some ip\<rparr>)
     | Some (rest, IpLeftOut) \<Rightarrow> Some (rest\<lparr>ipAddress :=
         if kind = IdentityActor \<and> truthy requestIp then requestIp else None\<rparr>))"

definition same_request :: "code_signing_scope \<Rightarrow> nat option \<Rightarrow> string option \<Rightarrow> request_row \<Rightarrow> bool" where
  "same_request scope signings window r = (case rq_requestData r of
       SigningData d \<Rightarrow> (case requestScope d of
            None \<Rightarrow> False
          | Some pendingScope \<Rightarrow> requestedSignings d = signings \<and> requestedWindowDuration d = window \<and>
              list_all (\<lambda>field. scope_field field pendingScope = scope_field field scope) scope_fields)
     | _ \<Rightarrow> False)"

definition findDuplicatePendingRequest :: "nat \<Rightarrow> string \<Rightarrow> actor \<Rightarrow> code_signing_scope \<Rightarrow> nat option \<Rightarrow>
    string option \<Rightarrow> approval_db \<Rightarrow> request_row option" where
  "findDuplicatePendingRequest pid sid a scope signings window db =
     find (same_request scope signings window) (filter (\<lambda>r. rq_policyId r = Some pid \<and>
       rq_status r = ApprovalRequestStatus.Pending \<and> rq_scopeType r = Some ApprovalPolicyScope.Signer \<and>
       rq_scopeId r = Some sid \<and>
       (if ac_type a = UserActor then rq_requesterId r = Some (ac_id a) else rq_machineIdentityId r = Some (ac_id a)))
       (db_requests db))"

definition resolveGranteeEffectiveRoles ::
  "signer_env \<Rightarrow> signer_row \<Rightarrow> string option \<Rightarrow> string option \<Rightarrow> string list" where
  "resolveGranteeEffectiveRoles env s userId identityId =
     (let members = se_members env (sn_projectId s) (sn_id s);
          directMemberships = filter (\<lambda>m. if truthy userId then mb_userId m = userId else mb_identityId m = identityId) members;
          memberGroupIds = (if truthy userId then se_userGroups env (the userId) else se_identityGroups env (the identityId));
          groupMemberships = filter (\<lambda>m. case mb_groupId m of None \<Rightarrow> False | Some g \<Rightarrow> g \<in> set memberGroupIds) members;
          membershipIds = map mb_id (directMemberships @ groupMemberships)
      in map the (filter truthy (map snd (filter (\<lambda>(m, _). m \<in> set membershipIds) (se_roles env)))))"

section \<open>Asking for signings\<close>

record sign_request_dto =
  sr_signerId :: string
  sr_justification :: string
  sr_requestedSignings :: "nat option"
  sr_requestedWindowDuration :: "string option"
  sr_scope :: "(code_signing_scope \<times> declared_ip) option"
  sr_ipAddress :: "string option"

definition signing_data_of :: "signer_row \<Rightarrow> nat \<Rightarrow> nat option \<Rightarrow> string option \<Rightarrow> code_signing_scope option \<Rightarrow> signing_data" where
  "signing_data_of s pid signings window scope = \<lparr>signerId = sn_id s, approvalPolicyId = pid, signerName = sn_name s,
     requestedWindowDuration = window, requestedWindowStart = None, requestedWindowEnd = None,
     requestedSignings = signings, requestScope = scope\<rparr>"

definition some_limit :: "nat option \<Rightarrow> string option \<Rightarrow> approval_error + unit" where
  "some_limit signings window = rguard (truthy_count signings \<or> truthy window)
     (BadRequest ''Provide at least one of requestedSignings or requestedWindowDuration.'')"

definition policy_of_signer :: "nat \<Rightarrow> approval_db \<Rightarrow> approval_error + policy_row" where
  "policy_of_signer pid db = (case findPolicyById db pid of
     None \<Rightarrow> Inl (NotFound ''Policy for signer has been removed.'') | Some p \<Rightarrow> Inr p)"

text \<open>A pending request that asks for the same, or the request to store.\<close>

definition admit_sign_request ::
  "signer_env \<Rightarrow> sign_request_dto \<Rightarrow> actor \<Rightarrow> approval_db \<Rightarrow> approval_error + (request_row + new_request)" where
  "admit_sign_request env dto a db =
     rbind (loadSignerOrThrow env (sr_signerId dto)) (\<lambda>(s, pid).
     rbind (assertResourcePermission env s a ResourcePermissionSignerActions.RequestSign) (\<lambda>_.
     rbind (rguard (findStepsByPolicyId db pid \<noteq> [])
              (BadRequest ''This signer does not require approval. You can sign directly.'')) (\<lambda>_.
     rbind (some_limit (sr_requestedSignings dto) (sr_requestedWindowDuration dto)) (\<lambda>_.
     rbind (policy_of_signer pid db) (\<lambda>p.
     rbind (resolveRequestEffectiveLimits env (pl_constraints p) (sr_requestedSignings dto)
              (sr_requestedWindowDuration dto)) (\<lambda>(signings, window).
     let scope = normalizeCodeSigningScope (e_redact (se_approvals env))
                   (resolveRequestedScope (sr_scope dto) (ac_type a) (sr_ipAddress dto));
         userId = (if ac_type a = UserActor then Some (ac_id a) else None);
         identityId = (if ac_type a = IdentityActor then Some (ac_id a) else None)
     in case (case scope of None \<Rightarrow> None
              | Some sc \<Rightarrow> findDuplicatePendingRequest pid (sn_id s) a sc signings window db) of
          Some duplicate \<Rightarrow> Inr (Inl duplicate)
        | None \<Rightarrow> Inr (Inr \<lparr>nq_projectId = sn_projectId s, nq_organizationId = ac_orgId a, nq_policyId = pid,
             nq_policyType = CertCodeSigning, nq_policySteps = findStepsByPolicyId db pid,
             nq_requestData = SigningData (signing_data_of s pid signings window scope),
             nq_justification = Some (sr_justification dto), nq_expiresAt = None, nq_requesterUserId = userId,
             nq_machineIdentityId = identityId, nq_requesterName = fst (resolveActorDisplay env userId identityId),
             nq_requesterEmail = snd (resolveActorDisplay env userId identityId),
             nq_scopeType = Some ApprovalPolicyScope.Signer, nq_scopeId = Some (sn_id s)\<rparr>)))))))"

text \<open>The request is stored and its first step told as in \<open>createRequestFromPolicy\<close>.\<close>

definition requestToSign :: "signer_env \<Rightarrow> sign_request_dto \<Rightarrow> actor \<Rightarrow> approval_db \<Rightarrow>
    (request_row \<times> step_view list) outcome" where
  "requestToSign env dto a db = (case admit_sign_request env dto a db of
       Inl e \<Rightarrow> (Inl e, db)
     | Inr (Inl duplicate) \<Rightarrow> (Inr (duplicate, findStepsByRequestId db (rq_id duplicate)), db)
     | Inr (Inr q) \<Rightarrow> (case createRequestFromPolicy (se_approvals env) q db of (r, db1) \<Rightarrow>
         (Inr (r, findStepsByRequestId db1 (rq_id r)), db1)))"

section \<open>Approving in advance\<close>

record pre_approve_dto =
  pa_signerId :: string
  pa_granteeUserId :: "string option"
  pa_granteeIdentityId :: "string option"
  pa_justification :: string
  pa_requestedSignings :: "nat option"
  pa_requestedWindowDuration :: "string option"
  pa_scope :: "code_signing_scope option"

definition pre_approve_check :: "signer_env \<Rightarrow> pre_approve_dto \<Rightarrow> actor \<Rightarrow> approval_db \<Rightarrow>
    approval_error + signer_row \<times> nat \<times> nat option \<times> string option" where
  "pre_approve_check env dto a db =
     rbind (loadSignerOrThrow env (pa_signerId dto)) (\<lambda>(s, pid).
     rbind (assertResourcePermission env s a ResourcePermissionSignerActions.PreApprove) (\<lambda>_.
     rbind (rguard (truthy (pa_granteeUserId dto) \<or> truthy (pa_granteeIdentityId dto))
              (BadRequest ''granteeUserId or granteeIdentityId is required.'')) (\<lambda>_.
     rbind (some_limit (pa_requestedSignings dto) (pa_requestedWindowDuration dto)) (\<lambda>_.
     rbind (policy_of_signer pid db) (\<lambda>p.
     rbind (resolveRequestEffectiveLimits env (pl_constraints p) (pa_requestedSignings dto)
              (pa_requestedWindowDuration dto)) (\<lambda>(signings, window).
     let granteeRoles = resolveGranteeEffectiveRoles env s (pa_granteeUserId dto) (pa_granteeIdentityId dto)
     in rbind (rguard (granteeRoles \<noteq> []) (BadRequest ''Grantee is not a member of this signer.'')) (\<lambda>_.
        rbind (rguard (list_ex (\<lambda>r. r \<noteq> ''auditor'') granteeRoles)
                 (BadRequest ''Grantee must be an Administrator or Operator on this signer.'')) (\<lambda>_.
        Inr (s, pid, signings, window)))))))))"

definition pre_approved_request :: "signer_env \<Rightarrow> pre_approve_dto \<Rightarrow> actor \<Rightarrow> signer_row \<Rightarrow> nat \<Rightarrow> nat option \<Rightarrow>
    string option \<Rightarrow> nat \<Rightarrow> request_row" where
  "pre_approved_request env dto a s pid signings window rid =
     (case resolveActorDisplay env (pa_granteeUserId dto) (pa_granteeIdentityId dto) of (name, email) \<Rightarrow>
        \<lparr>rq_id = rid, rq_projectId = sn_projectId s, rq_organizationId = ac_orgId a, rq_policyId = Some pid,
         rq_requesterId = pa_granteeUserId dto, rq_machineIdentityId = pa_granteeIdentityId dto,
         rq_requesterName = name, rq_requesterEmail = email, rq_type = CertCodeSigning,
         rq_status = ApprovalRequestStatus.Approved, rq_justification = Some (pa_justification dto),
         rq_currentStep = 1,
         rq_requestData = SigningData (signing_data_of s pid signings window
           (normalizeCodeSigningScope (e_redact (se_approvals env)) (pa_scope dto))),
         rq_expiresAt = None, rq_scopeType = Some ApprovalPolicyScope.Signer, rq_scopeId = Some (sn_id s)\<rparr>)"

definition pre_approved_grant :: "signer_env \<Rightarrow> pre_approve_dto \<Rightarrow> signer_row \<Rightarrow> nat option \<Rightarrow> string option \<Rightarrow>
    request_row \<Rightarrow> grant_row" where
  "pre_approved_grant env dto s signings window r =
     (let windowStart = e_now (se_approvals env);
          windowDurationMs = (if truthy window then parseDurationMs env (the window) else None)
      in \<lparr>gr_id = 0, gr_projectId = sn_projectId s, gr_requestId = Some (rq_id r),
          gr_granteeUserId = pa_granteeUserId dto, gr_granteeMachineIdentityId = pa_granteeIdentityId dto,
          gr_status = ApprovalRequestGrantStatus.Active, gr_type = CertCodeSigning,
          gr_attributes = SigningAttributes \<lparr>sg_signerId = sn_id s, sg_signerName = sn_name s, sg_maxSignings = signings,
             sg_windowStart = (if windowDurationMs = None then None else Some windowStart),
             sg_scope = normalizeCodeSigningScope (e_redact (se_approvals env)) (pa_scope dto)\<rparr>,
          gr_expiresAt = map_option (\<lambda>d. windowStart + d) windowDurationMs, gr_revokedAt = None,
          gr_revokedByUserId = None, gr_revocationReason = None, gr_isBreakGlass = False, gr_bypassReason = None\<rparr>)"

definition addRequest :: "request_row \<Rightarrow> approval_db \<Rightarrow> approval_db" where
  "addRequest r db = db\<lparr>db_requests := db_requests db @ [r], db_next := Suc (db_next db)\<rparr>"

definition preApproveSigning :: "signer_env \<Rightarrow> pre_approve_dto \<Rightarrow> actor \<Rightarrow> approval_db \<Rightarrow>
    (request_row \<times> grant_row) outcome" where
  "preApproveSigning env dto a db = (case pre_approve_check env dto a db of
       Inl e \<Rightarrow> (Inl e, db)
     | Inr (s, pid, signings, window) \<Rightarrow>
         let r = pre_approved_request env dto a s pid signings window (db_next db)
         in case createGrant (pre_approved_grant env dto s signings window r) (addRequest r db) of
              (g, db1) \<Rightarrow> (Inr (r, g), db1))"

section \<open>Revoking a request, and using grants up\<close>

definition withdraw_grant :: "int \<Rightarrow> actor \<Rightarrow> grant_row \<Rightarrow> grant_row" where
  "withdraw_grant now a g = g\<lparr>gr_status := ApprovalRequestGrantStatus.Revoked, gr_revokedAt := Some now,
     gr_revokedByUserId := (if ac_type a = UserActor then Some (ac_id a) else None)\<rparr>"

definition revoke_check :: "signer_env \<Rightarrow> string \<Rightarrow> nat \<Rightarrow> actor \<Rightarrow> approval_db \<Rightarrow> approval_error + request_row" where
  "revoke_check env sid rid a db =
     rbind (loadSignerOrThrow env sid) (\<lambda>(s, _).
     rbind (assertResourcePermission env s a ResourcePermissionSignerActions.RevokeRequest) (\<lambda>_.
     case findRequestById db rid of
       None \<Rightarrow> Inl (NotFound ''Request not found on this signer.'')
     | Some r \<Rightarrow> if rq_scopeId r = Some (sn_id s) then Inr r
                 else Inl (NotFound ''Request not found on this signer.'')))"

text \<open>All active grants of the request are withdrawn, then it is cancelled, whatever its status is.\<close>

definition withdraw_request :: "int \<Rightarrow> actor \<Rightarrow> nat \<Rightarrow> approval_db \<Rightarrow> approval_db" where
  "withdraw_request now a rid db = updateRequest rid (set_status ApprovalRequestStatus.Cancelled)
     (db\<lparr>db_grants := map (\<lambda>g. if gr_requestId g = Some rid \<and> gr_status g = ApprovalRequestGrantStatus.Active
        then withdraw_grant now a g else g) (db_grants db)\<rparr>)"

definition revokeRequest :: "signer_env \<Rightarrow> string \<Rightarrow> nat \<Rightarrow> actor \<Rightarrow> approval_db \<Rightarrow> nat outcome" where
  "revokeRequest env sid rid a db = (case revoke_check env sid rid a db of
       Inl e \<Rightarrow> (Inl e, db)
     | Inr _ \<Rightarrow> (Inr rid, withdraw_request (e_now (se_approvals env)) a rid db))"

text \<open>Signing marks a grant as expired when its time is over or its signings are used up.\<close>

definition expire_grant :: "nat \<Rightarrow> approval_db \<Rightarrow> approval_db" where
  "expire_grant gid db = updateGrant gid (\<lambda>g. g\<lparr>gr_status := ApprovalRequestGrantStatus.Expired\<rparr>) db"

end
