(* ===== verification/ApprovalInvariant.thy ===== *)
theory ApprovalInvariant
  imports ApprovalClients
begin

text \<open>
  What every request looks like in the states the services reach when their calls do not overlap.

  A request is seen through its row, its steps with approvers and approvals, and its grants
  (\<open>findRequestById\<close>, \<open>findStepsByRequestId\<close>, \<open>grantsOf\<close>). The lemmas of the first sections say how each
  write changes this view of one request and that it leaves the views of the others alone; the invariant
  speaks about one view at a time, and \<open>approval_step\<close> collects the operations.
\<close>

named_theorems view_simps \<open>views after writes\<close>

section \<open>Identifiers\<close>

definition grantsOf :: "approval_db \<Rightarrow> nat \<Rightarrow> grant_row list" where
  "grantsOf db rid = filter (\<lambda>g. gr_requestId g = Some rid) (db_grants db)"

definition ids_ok :: "approval_db \<Rightarrow> bool" where
  "ids_ok db \<longleftrightarrow>
     distinct (map rq_id (db_requests db)) \<and> distinct (map st_id (db_steps db)) \<and>
     (\<forall>r \<in> set (db_requests db). rq_id r < db_next db) \<and>
     (\<forall>s \<in> set (db_steps db). st_id s < db_next db \<and> st_requestId s < db_next db) \<and>
     (\<forall>e \<in> set (db_eligible db). sb_owner e < db_next db) \<and>
     (\<forall>v \<in> set (db_approvals db). av_stepId v < db_next db) \<and>
     (\<forall>g \<in> set (db_grants db). \<exists>rid. gr_requestId g = Some rid \<and> rid < db_next db)"

lemma ids_ok_empty [simp]: "ids_ok empty_db"
  by (simp add: ids_ok_def empty_db_def)

lemma ids_ok_updateRequest [inv_intros]:
  assumes "ids_ok db" "\<And>r. rq_id (f r) = rq_id r"
  shows "ids_ok (updateRequest rid f db)"
proof -
  have "map rq_id (map (\<lambda>r. if rq_id r = rid then f r else r) rs) = map rq_id rs" for rs
    using assms(2) by (induction rs) auto
  with assms show ?thesis
    by (auto simp: ids_ok_def updateRequest_def simp del: map_map)
qed

lemma ids_ok_updateStep [inv_intros]:
  assumes "ids_ok db" "\<And>s. st_id (f s) = st_id s" "\<And>s. st_requestId (f s) = st_requestId s"
  shows "ids_ok (updateStep sid f db)"
proof -
  have "map st_id (map (\<lambda>s. if st_id s = sid then f s else s) ss) = map st_id ss" for ss
    using assms(2) by (induction ss) auto
  with assms show ?thesis
    by (auto simp: ids_ok_def updateStep_def simp del: map_map)
qed

lemma ids_ok_createApproval [inv_intros]:
  "ids_ok db \<Longrightarrow> av_stepId a < db_next db \<Longrightarrow> ids_ok (createApproval a db)"
  by (auto simp: ids_ok_def createApproval_def)

lemma ids_ok_createGrant [inv_intros]:
  "ids_ok db \<Longrightarrow> gr_requestId g = Some rid \<Longrightarrow> rid < db_next db \<Longrightarrow> ids_ok (snd (createGrant g db))"
  by (fastforce simp: ids_ok_def createGrant_def Let_def less_SucI)

lemma findRequestById_in: "findRequestById db rid = Some r \<Longrightarrow> r \<in> set (db_requests db) \<and> rq_id r = rid"
  by (auto simp: findRequestById_def find_Some_iff)

lemma ids_ok_request: "ids_ok db \<Longrightarrow> findRequestById db rid = Some r \<Longrightarrow> rid < db_next db"
  using findRequestById_in by (fastforce simp: ids_ok_def)

section \<open>The steps of a request\<close>

lemma st_id_join [simp]: "st_id (join_step db s) = st_id s"
  and st_requestId_join [simp]: "st_requestId (join_step db s) = st_requestId s"
  and st_stepNumber_join [simp]: "st_stepNumber (join_step db s) = st_stepNumber s"
  and st_status_join [simp]: "st_status (join_step db s) = st_status s"
  and st_required_join [simp]: "st_requiredApprovals (join_step db s) = st_requiredApprovals s"
  by (simp_all add: join_step_def step_row.defs)

lemma findSteps_in:
  "v \<in> set (findStepsByRequestId db rid) \<longleftrightarrow> (\<exists>s \<in> set (db_steps db). st_requestId s = rid \<and> v = join_step db s)"
  by (auto simp: findStepsByRequestId_def)

lemma findSteps_request: "v \<in> set (findStepsByRequestId db rid) \<Longrightarrow> st_requestId v = rid"
  by (auto simp: findSteps_in)

lemma findSteps_id_less: "ids_ok db \<Longrightarrow> v \<in> set (findStepsByRequestId db rid) \<Longrightarrow> st_id v < db_next db"
  by (auto simp: findSteps_in ids_ok_def)

lemma findSteps_same_id:
  assumes "ids_ok db" "v \<in> set (findStepsByRequestId db i)" "w \<in> set (findStepsByRequestId db j)" "st_id v = st_id w"
  shows "i = j \<and> v = w"
proof -
  from assms(2,3) obtain s t where st: "s \<in> set (db_steps db)" "t \<in> set (db_steps db)"
      "v = join_step db s" "w = join_step db t" "st_requestId s = i" "st_requestId t = j"
    by (auto simp: findSteps_in)
  moreover have "distinct (map st_id (db_steps db))" using assms(1) by (simp add: ids_ok_def)
  ultimately have "s = t" using assms(4) by (simp add: distinct_map inj_on_def)
  with st show ?thesis by simp
qed

lemma map_other_steps:
  assumes "ids_ok db" "w \<in> set (findStepsByRequestId db j)" "i \<noteq> j"
  shows "map (\<lambda>v. if st_id v = st_id w then g v else v) (findStepsByRequestId db i) = findStepsByRequestId db i"
  using findSteps_same_id [OF assms(1) _ assms(2)] assms(3) by (intro map_idI) auto

lemma join_complete [simp]: "join_step db (complete_step now s) = complete_step now (join_step db s)"
  and join_start [simp]: "join_step db (start_step now s) = start_step now (join_step db s)"
  by (simp_all add: join_step_def complete_step_def start_step_def step_row.defs)

lemma step_updates [simp]:
  "st_id (complete_step now s) = st_id s" "st_id (start_step now s) = st_id s"
  "st_requestId (complete_step now s) = st_requestId s" "st_requestId (start_step now s) = st_requestId s"
  "st_stepNumber (complete_step now s) = st_stepNumber s" "st_stepNumber (start_step now s) = st_stepNumber s"
  "st_requiredApprovals (complete_step now s) = st_requiredApprovals s"
  "st_requiredApprovals (start_step now s) = st_requiredApprovals s"
  "st_status (complete_step now s) = ApprovalRequestStepStatus.Completed"
  "st_status (start_step now s) = ApprovalRequestStepStatus.InProgress"
  by (simp_all add: complete_step_def start_step_def)

lemma view_updates [simp]:
  "sv_approvals (complete_step now v) = sv_approvals v" "sv_approvals (start_step now v) = sv_approvals v"
  "sv_approvers (complete_step now v) = sv_approvers v" "sv_approvers (start_step now v) = sv_approvers v"
  by (simp_all add: complete_step_def start_step_def)

lemma findSteps_complete [view_simps]:
  "findStepsByRequestId (updateStep sid (complete_step now) db) rid =
     map (\<lambda>v. if st_id v = sid then complete_step now v else v) (findStepsByRequestId db rid)"
  by (rule findSteps_update) simp_all

lemma findSteps_start [view_simps]:
  "findStepsByRequestId (updateStep sid (start_step now) db) rid =
     map (\<lambda>v. if st_id v = sid then start_step now v else v) (findStepsByRequestId db rid)"
  by (rule findSteps_update) simp_all

lemmas [view_simps] = findSteps_createApproval findSteps_others findRequestById_others findRequestById_update

lemma set_status_simps [simp]:
  "rq_id (set_status st r) = rq_id r" "rq_status (set_status st r) = st"
  "rq_currentStep (set_status st r) = rq_currentStep r" "rq_type (set_status st r) = rq_type r"
  "rq_requestData (set_status st r) = rq_requestData r" "rq_requesterId (set_status st r) = rq_requesterId r"
  "rq_organizationId (set_status st r) = rq_organizationId r" "rq_scopeType (set_status st r) = rq_scopeType r"
  "rq_scopeId (set_status st r) = rq_scopeId r"
  by (simp_all add: set_status_def)

lemma advance_simps [simp]:
  "rq_id (advance_request n r) = rq_id r" "rq_status (advance_request n r) = rq_status r"
  "rq_currentStep (advance_request n r) = n" "rq_type (advance_request n r) = rq_type r"
  "rq_requestData (advance_request n r) = rq_requestData r" "rq_requesterId (advance_request n r) = rq_requesterId r"
  "rq_scopeType (advance_request n r) = rq_scopeType r" "rq_scopeId (advance_request n r) = rq_scopeId r"
  by (simp_all add: advance_request_def)

lemma grantsOf_others [view_simps]:
  "grantsOf (updateRequest i f db) rid = grantsOf db rid"
  "grantsOf (updateStep sid g db) rid = grantsOf db rid"
  "grantsOf (createApproval a db) rid = grantsOf db rid"
  by (simp_all add: grantsOf_def updateRequest_def updateStep_def createApproval_def)

lemma grantsOf_createGrant [view_simps]:
  "grantsOf (snd (createGrant g db)) rid =
     grantsOf db rid @ (if gr_requestId g = Some rid then [g\<lparr>gr_id := db_next db\<rparr>] else [])"
  by (simp add: grantsOf_def createGrant_def Let_def)

lemma db_next_writes [simp]:
  "db_next (updateRequest i f db) = db_next db" "db_next (updateStep sid g db) = db_next db"
  "db_next (createApproval a db) = db_next db"
  by (simp_all add: updateRequest_def updateStep_def createApproval_def)

section \<open>Writes elsewhere\<close>

definition untouched :: "approval_db \<Rightarrow> approval_db \<Rightarrow> bool" where
  "untouched db db' \<longleftrightarrow> db_requests db' = db_requests db \<and> db_steps db' = db_steps db \<and>
     db_eligible db' = db_eligible db \<and> db_approvals db' = db_approvals db \<and> db_grants db' = db_grants db \<and>
     db_next db \<le> db_next db'"

lemma untouched_views:
  assumes "untouched db db'"
  shows "findRequestById db' rid = findRequestById db rid" "findStepsByRequestId db' rid = findStepsByRequestId db rid"
    "grantsOf db' rid = grantsOf db rid" "ids_ok db \<Longrightarrow> ids_ok db'"
proof -
  have "join_step db' = join_step db" using assms by (auto simp: untouched_def join_step_def)
  then show "findStepsByRequestId db' rid = findStepsByRequestId db rid"
    using assms by (simp add: findStepsByRequestId_def untouched_def)
  show "findRequestById db' rid = findRequestById db rid" "grantsOf db' rid = grantsOf db rid"
    using assms by (simp_all add: findRequestById_def grantsOf_def untouched_def)
  show "ids_ok db \<Longrightarrow> ids_ok db'"
  proof -
    assume ok: "ids_ok db"
    have "k < db_next db'" if "k < db_next db" for k using that assms by (simp add: untouched_def)
    with ok assms show "ids_ok db'" by (auto simp: ids_ok_def untouched_def)
  qed
qed

lemma untouched_refl [simp]: "untouched db db"
  by (simp add: untouched_def)

lemma untouched_trans: "untouched db db1 \<Longrightarrow> untouched db1 db2 \<Longrightarrow> untouched db db2"
  by (auto simp: untouched_def)

lemma untouched_notify [simp]: "untouched db (notifyStepApprovers env aps rid db)"
  by (simp add: notifyStepApprovers_def untouched_def Let_def)

lemma untouched_outbox [simp]: "untouched db (db\<lparr>db_outbox := x\<rparr>)"
  by (simp add: untouched_def)

lemma untouched_cert [simp]: "untouched db (set_cert_request i row db)"
  by (simp add: set_cert_request_def untouched_def split: option.splits)

lemma untouched_cert_approval [simp]: "untouched db (cert_postApproval issue r d db)"
  by (auto simp: cert_postApproval_def Let_def split: option.splits intro: untouched_trans untouched_cert)

lemma untouched_cert_rejection [simp]: "untouched db (cert_postRejection r d db)"
  by (simp add: cert_postRejection_def)

section \<open>One view changes, the others stay\<close>

definition only :: "nat \<Rightarrow> approval_db \<Rightarrow> approval_db \<Rightarrow> bool" where
  "only rid db db' \<longleftrightarrow> (\<forall>i. i \<noteq> rid \<longrightarrow> findRequestById db' i = findRequestById db i \<and>
     findStepsByRequestId db' i = findStepsByRequestId db i \<and> grantsOf db' i = grantsOf db i)"

lemma only_refl [simp]: "only rid db db"
  by (simp add: only_def)

lemma only_trans: "only rid db db1 \<Longrightarrow> only rid db1 db2 \<Longrightarrow> only rid db db2"
  by (simp add: only_def)

lemma only_untouched: "untouched db db' \<Longrightarrow> only rid db db'"
  using untouched_views by (simp add: only_def)

lemma only_updateRequest: "(\<And>r. rq_id (f r) = rq_id r) \<Longrightarrow> only rid db (updateRequest rid f db)"
  by (simp add: only_def view_simps)

lemma only_createGrant: "gr_requestId g = Some rid \<Longrightarrow> only rid db (snd (createGrant g db))"
  by (simp add: only_def view_simps)

lemma only_createApproval:
  assumes "ids_ok db" "w \<in> set (findStepsByRequestId db rid)" "av_stepId a = st_id w"
  shows "only rid db (createApproval a db)"
  using map_other_steps [OF assms(1,2)] assms(3) by (simp add: only_def view_simps)

lemma only_complete:
  assumes "ids_ok db" "w \<in> set (findStepsByRequestId db rid)"
  shows "only rid db (updateStep (st_id w) (complete_step now) db)"
  using map_other_steps [OF assms] by (simp add: only_def view_simps)

lemma only_start:
  assumes "ids_ok db" "w \<in> set (findStepsByRequestId db rid)"
  shows "only rid db (updateStep (st_id w) (start_step now) db)"
  using map_other_steps [OF assms] by (simp add: only_def view_simps)

text \<open>Membership of a step in a request is kept by writes, up to the step's other fields.\<close>

lemma same_id_after:
  assumes "w \<in> set ss" "\<And>v. st_id (f v) = st_id v"
  shows "\<exists>w' \<in> set (map f ss). st_id w' = st_id w"
  using assms by force

section \<open>The effect of the transactions on the view\<close>

definition approved_row :: "request_row \<Rightarrow> step_view \<Rightarrow> step_view option \<Rightarrow> request_row" where
  "approved_row r cur nxt = (if completes cur
     then (case nxt of Some n \<Rightarrow> advance_request (rq_currentStep r + 1) r
                     | None \<Rightarrow> set_status ApprovalRequestStatus.Approved r)
     else r)"

definition approved_step ::
  "int \<Rightarrow> step_view \<Rightarrow> step_view option \<Rightarrow> approval_row \<Rightarrow> step_view \<Rightarrow> step_view" where
  "approved_step now cur nxt a v =
     (let v1 = (if st_id v = st_id cur then v\<lparr>sv_approvals := sv_approvals v @ [a]\<rparr> else v);
          v2 = (if completes cur \<and> st_id v = st_id cur then complete_step now v1 else v1)
      in case nxt of Some n \<Rightarrow> if completes cur \<and> st_id v = st_id n then start_step now v2 else v2 | None \<Rightarrow> v2)"

abbreviation approval_of :: "step_view \<Rightarrow> string \<Rightarrow> string option \<Rightarrow> approval_row" where
  "approval_of cur u comment \<equiv> \<lparr>av_stepId = st_id cur, av_approverUserId = u,
     av_decision = ApprovalRequestApprovalDecision.Approved, av_comment = comment\<rparr>"

lemma approve_write_view:
  assumes r: "findRequestById db rid = Some r" "rq_id r = rid"
  shows "findRequestById (approve_write now r cur nxt u comment db) rid = Some (approved_row r cur nxt)"
    "findStepsByRequestId (approve_write now r cur nxt u comment db) i =
       map (approved_step now cur nxt (approval_of cur u comment)) (findStepsByRequestId db i)"
    "grantsOf (approve_write now r cur nxt u comment db) i = grantsOf db i"
  using r by (auto simp: approve_write_def approved_row_def approved_step_def Let_def view_simps split: option.splits)

lemma ids_ok_approve_write:
  assumes "ids_ok db" "cur \<in> set (findStepsByRequestId db rid)"
  shows "ids_ok (approve_write now r cur nxt u comment db)"
  using assms findSteps_id_less [OF assms]
  by (auto simp: approve_write_def Let_def split: option.splits
      intro!: ids_ok_updateRequest ids_ok_updateStep ids_ok_createApproval)

lemma approved_step_other:
  assumes "st_id v \<noteq> st_id cur" "\<And>n. nxt = Some n \<Longrightarrow> st_id v \<noteq> st_id n"
  shows "approved_step now cur nxt a v = v"
  using assms by (auto simp: approved_step_def split: option.splits)

lemma only_approve_write:
  assumes "ids_ok db" "findRequestById db rid = Some r" "cur \<in> set (findStepsByRequestId db rid)"
    and "\<And>n. nxt = Some n \<Longrightarrow> n \<in> set (findStepsByRequestId db rid)"
  shows "only rid db (approve_write now r cur nxt u comment db)"
  unfolding only_def
proof (intro allI impI conjI)
  fix i assume i: "i \<noteq> rid"
  have rid: "rq_id r = rid" using assms(2) findRequestById_id by blast
  show "findRequestById (approve_write now r cur nxt u comment db) i = findRequestById db i"
    using i rid by (simp add: approve_write_def Let_def view_simps split: option.split)
  have "approved_step now cur nxt a v = v" if "v \<in> set (findStepsByRequestId db i)" for v a
    using findSteps_same_id [OF assms(1) that] assms(3,4) i by (intro approved_step_other) blast+
  then show "findStepsByRequestId (approve_write now r cur nxt u comment db) i = findStepsByRequestId db i"
    by (simp add: approve_write_view [OF assms(2) rid] map_idI)
  show "grantsOf (approve_write now r cur nxt u comment db) i = grantsOf db i"
    by (rule approve_write_view [OF assms(2) rid])
qed

lemma complete_all_view:
  "findStepsByRequestId (foldl (\<lambda>acc s. updateStep (st_id s) (complete_step now) acc) db ws) i =
     map (\<lambda>v. if st_id v \<in> st_id ` set ws then complete_step now v else v) (findStepsByRequestId db i)"
proof (induction ws arbitrary: db)
  case Nil
  then show ?case by simp
next
  case (Cons w ws)
  have "complete_step now (complete_step now v) = complete_step now v" for v :: step_view
    by (simp add: complete_step_def)
  then show ?case by (simp add: Cons.IH view_simps comp_def)
qed

lemma complete_all_others:
  "findRequestById (foldl (\<lambda>acc s. updateStep (st_id s) (complete_step now) acc) db ws) i = findRequestById db i"
  "grantsOf (foldl (\<lambda>acc s. updateStep (st_id s) (complete_step now) acc) db ws) i = grantsOf db i"
  "db_next (foldl (\<lambda>acc s. updateStep (st_id s) (complete_step now) acc) db ws) = db_next db"
  "ids_ok db \<Longrightarrow> ids_ok (foldl (\<lambda>acc s. updateStep (st_id s) (complete_step now) acc) db ws)"
  by (induction ws arbitrary: db) (simp_all add: view_simps ids_ok_updateStep)

section \<open>The invariant of one request\<close>

definition numbered :: "step_view list \<Rightarrow> bool" where
  "numbered ss \<longleftrightarrow> map st_stepNumber ss = [1..<Suc (length ss)]"

definition approved_by :: "step_view \<Rightarrow> string set" where
  "approved_by v = av_approverUserId ` {a \<in> set (sv_approvals v). av_decision a = ApprovalRequestApprovalDecision.Approved}"

text \<open>Enough different users have approved the step.\<close>

definition enough :: "step_view \<Rightarrow> bool" where
  "enough v \<longleftrightarrow> st_requiredApprovals v \<le> card (approved_by v)"

definition step_inv :: "nat \<Rightarrow> step_view \<Rightarrow> bool" where
  "step_inv c v \<longleftrightarrow>
     distinct (map av_approverUserId (sv_approvals v)) \<and>
     (\<forall>a \<in> set (sv_approvals v). av_decision a = ApprovalRequestApprovalDecision.Approved) \<and>
     (st_stepNumber v < c \<longrightarrow> st_status v = ApprovalRequestStepStatus.Completed \<and>
        st_requiredApprovals v \<le> length (sv_approvals v)) \<and>
     (st_stepNumber v = c \<longrightarrow> st_status v = ApprovalRequestStepStatus.InProgress \<and>
        (sv_approvals v = [] \<or> length (sv_approvals v) < st_requiredApprovals v)) \<and>
     (c < st_stepNumber v \<longrightarrow> st_status v = ApprovalRequestStepStatus.Pending \<and> sv_approvals v = [])"

definition data_typed :: "request_row \<Rightarrow> bool" where
  "data_typed r \<longleftrightarrow> (case rq_requestData r of
     PamData _ \<Rightarrow> rq_type r = PamAccess | CertData _ \<Rightarrow> rq_type r = CertRequest | SigningData _ \<Rightarrow> rq_type r = CertCodeSigning)"

definition all_completed :: "step_view list \<Rightarrow> bool" where
  "all_completed ss \<longleftrightarrow> (\<forall>v \<in> set ss. st_status v = ApprovalRequestStepStatus.Completed)"

text \<open>A request of a signer that was approved in advance: there is nobody to ask.\<close>

definition in_advance :: "request_row \<Rightarrow> step_view list \<Rightarrow> bool" where
  "in_advance r ss \<longleftrightarrow> ss = [] \<and> rq_type r = CertCodeSigning \<and> rq_scopeType r = Some ApprovalPolicyScope.Signer"

definition all_enough :: "request_row \<Rightarrow> step_view list \<Rightarrow> bool" where
  "all_enough r ss \<longleftrightarrow> (ss \<noteq> [] \<and> (\<forall>v \<in> set ss. enough v)) \<or> in_advance r ss"

definition grant_earned :: "request_row \<Rightarrow> step_view list \<Rightarrow> grant_row \<Rightarrow> bool" where
  "grant_earned r ss g \<longleftrightarrow> all_completed ss \<and> gr_granteeUserId g = rq_requesterId r \<and>
     (if gr_isBreakGlass g then rq_type r = PamAccess \<and> rq_requesterId r \<noteq> None else all_enough r ss)"

definition local_inv :: "request_row \<Rightarrow> step_view list \<Rightarrow> grant_row list \<Rightarrow> bool" where
  "local_inv r ss gs \<longleftrightarrow> numbered ss \<and> data_typed r \<and>
     (rq_status r = ApprovalRequestStatus.Pending \<longrightarrow> gs = [] \<and> 1 \<le> rq_currentStep r \<and>
        rq_currentStep r \<le> max 1 (length ss) \<and> (\<forall>v \<in> set ss. step_inv (rq_currentStep r) v)) \<and>
     (rq_status r = ApprovalRequestStatus.Rejected \<longrightarrow> gs = []) \<and>
     (rq_status r = ApprovalRequestStatus.Cancelled \<longrightarrow>
        (\<forall>g \<in> set gs. gr_status g \<noteq> ApprovalRequestGrantStatus.Active)) \<and>
     (rq_status r = ApprovalRequestStatus.Approved \<longrightarrow> all_completed ss \<and>
        (all_enough r ss \<or> (\<exists>g \<in> set gs. gr_isBreakGlass g))) \<and>
     length gs \<le> 1 \<and> (\<forall>g \<in> set gs. grant_earned r ss g)"

lemma all_enough_status [simp]:
  "all_enough (set_status st r) ss = all_enough r ss" "all_enough (advance_request n r) ss = all_enough r ss"
  "grant_earned (set_status st r) ss g = grant_earned r ss g"
  by (simp_all add: grant_earned_def all_enough_def in_advance_def)

lemma numbered_map [simp]: "(\<And>v. st_stepNumber (f v) = st_stepNumber v) \<Longrightarrow> numbered (map f ss) \<longleftrightarrow> numbered ss"
  by (simp add: numbered_def comp_def)

lemma numbered_bounds: "numbered ss \<Longrightarrow> v \<in> set ss \<Longrightarrow> 1 \<le> st_stepNumber v \<and> st_stepNumber v \<le> length ss"
proof -
  assume "numbered ss" "v \<in> set ss"
  then have "st_stepNumber v \<in> set [1..<Suc (length ss)]" unfolding numbered_def by (metis image_eqI set_map)
  then show ?thesis by (simp del: upt_Suc)
qed

lemma numbered_nth: "numbered ss \<Longrightarrow> i < length ss \<Longrightarrow> st_stepNumber (ss ! i) = Suc i"
  unfolding numbered_def by (metis One_nat_def length_map length_upt diff_Suc_Suc diff_zero nth_map nth_upt plus_1_eq_Suc add.commute Suc_less_eq)

lemma numbered_inj: "numbered ss \<Longrightarrow> v \<in> set ss \<Longrightarrow> w \<in> set ss \<Longrightarrow> st_stepNumber v = st_stepNumber w \<Longrightarrow> v = w"
  by (metis in_set_conv_nth numbered_nth Suc_inject)

lemma step_at_numbered:
  assumes "numbered ss" "step_at c ss = Some (cur, nxt)"
  shows "cur \<in> set ss" "st_stepNumber cur = c" "nxt = None \<Longrightarrow> length ss = c"
    "nxt = Some n \<Longrightarrow> n \<in> set ss \<and> st_stepNumber n = Suc c \<and> c < length ss"
proof -
  let ?p = "\<lambda>s. st_stepNumber s \<noteq> c"
  obtain rest where d: "dropWhile ?p ss = cur # rest" and nxt: "nxt = (case rest of [] \<Rightarrow> None | t # _ \<Rightarrow> Some t)"
    using assms(2) by (auto simp: step_at_def split: list.splits)
  define pre where "pre = takeWhile ?p ss"
  define k where "k = length pre"
  have ss: "ss = pre @ cur # rest" using takeWhile_dropWhile_id [of ?p ss] by (simp add: pre_def d)
  have len: "length ss = Suc (k + length rest)" by (simp add: ss k_def)
  have cur: "ss ! k = cur" by (simp add: ss k_def)
  show c0: "st_stepNumber cur = c" using d dropWhile_eq_Cons_conv [of ?p ss cur rest] by simp
  then have c: "c = Suc k" using numbered_nth [OF assms(1), of k] len cur c0 by simp
  show "cur \<in> set ss" using cur len by (metis less_add_Suc1 nth_mem)
  show "nxt = None \<Longrightarrow> length ss = c" using nxt len c by (simp split: list.splits)
  assume "nxt = Some n"
  then obtain ts where rest: "rest = n # ts" using nxt by (auto split: list.splits)
  have "ss ! Suc k = n" by (simp add: ss k_def rest nth_append)
  moreover have "Suc k < length ss" using len rest by simp
  ultimately show "n \<in> set ss \<and> st_stepNumber n = Suc c \<and> c < length ss"
    using numbered_nth [OF assms(1)] c by (metis nth_mem)
qed

lemma step_at_exists: "numbered ss \<Longrightarrow> 1 \<le> c \<Longrightarrow> c \<le> length ss \<Longrightarrow> step_at c ss \<noteq> None"
proof -
  assume n: "numbered ss" "1 \<le> c" "c \<le> length ss"
  then have "st_stepNumber (ss ! (c - 1)) = c" "ss ! (c - 1) \<in> set ss" using numbered_nth [of ss "c - 1"] by simp_all
  then have "\<not> (\<forall>s \<in> set ss. st_stepNumber s \<noteq> c)" by blast
  then have "dropWhile (\<lambda>s. st_stepNumber s \<noteq> c) ss \<noteq> []" by (simp add: dropWhile_eq_Nil_conv)
  then show ?thesis by (cases "dropWhile (\<lambda>s. st_stepNumber s \<noteq> c) ss") (simp_all add: step_at_def)
qed

lemma enough_length:
  assumes "distinct (map av_approverUserId (sv_approvals v))"
    "\<forall>a \<in> set (sv_approvals v). av_decision a = ApprovalRequestApprovalDecision.Approved"
  shows "card (approved_by v) = length (sv_approvals v)"
proof -
  have "approved_by v = set (map av_approverUserId (sv_approvals v))"
    using assms(2) by (auto simp: approved_by_def)
  with distinct_card [OF assms(1)] show ?thesis by simp
qed

lemma step_inv_enough: "step_inv c v \<Longrightarrow> st_stepNumber v < c \<Longrightarrow> enough v"
  by (simp add: step_inv_def enough_def enough_length)

section \<open>Approvals keep the invariant\<close>

lemma approved_step_keys [simp]:
  "st_id (approved_step now cur nxt a v) = st_id v"
  "st_stepNumber (approved_step now cur nxt a v) = st_stepNumber v"
  "st_requiredApprovals (approved_step now cur nxt a v) = st_requiredApprovals v"
  "sv_approvals (approved_step now cur nxt a v) =
     (if st_id v = st_id cur then sv_approvals v @ [a] else sv_approvals v)"
  by (auto simp: approved_step_def Let_def split: option.splits)

lemma approved_step_status:
  "st_status (approved_step now cur nxt a v) =
     (if \<not> completes cur then st_status v
      else if \<exists>n. nxt = Some n \<and> st_id v = st_id n then ApprovalRequestStepStatus.InProgress
      else if st_id v = st_id cur then ApprovalRequestStepStatus.Completed else st_status v)"
  by (auto simp: approved_step_def Let_def split: option.splits)

lemma ids_inj: "distinct (map st_id ss) \<Longrightarrow> v \<in> set ss \<Longrightarrow> w \<in> set ss \<Longrightarrow> st_id v = st_id w \<longleftrightarrow> v = w"
  by (auto simp: distinct_map inj_on_def)

definition approving :: "step_view list \<Rightarrow> step_view \<Rightarrow> step_view option \<Rightarrow> nat \<Rightarrow> bool" where
  "approving ss cur nxt c \<longleftrightarrow> numbered ss \<and> (\<forall>v \<in> set ss. step_inv c v) \<and> distinct (map st_id ss) \<and>
     step_at c ss = Some (cur, nxt)"

lemma approvingD:
  assumes "approving ss cur nxt c"
  shows "numbered ss" "v \<in> set ss \<Longrightarrow> step_inv c v" "distinct (map st_id ss)" "step_at c ss = Some (cur, nxt)"
  using assms by (auto simp: approving_def)

lemma approving_steps:
  assumes "approving ss cur nxt c"
  shows "cur \<in> set ss" "st_stepNumber cur = c" "nxt = None \<Longrightarrow> length ss = c"
    "nxt = Some n \<Longrightarrow> n \<in> set ss \<and> st_stepNumber n = Suc c \<and> c < length ss"
  using step_at_numbered [OF approvingD(1,4) [OF assms]] by blast+

lemma same_step:
  assumes ap: "approving ss cur nxt c" and "v \<in> set ss"
  shows "st_id v = st_id cur \<longleftrightarrow> st_stepNumber v = c" "st_stepNumber v = c \<longleftrightarrow> v = cur"
    "nxt = Some n \<Longrightarrow> st_id v = st_id n \<longleftrightarrow> st_stepNumber v = Suc c"
  using ids_inj [OF approvingD(3) [OF ap] assms(2)] numbered_inj [OF approvingD(1) [OF ap] assms(2)]
    approving_steps [OF ap] by metis+

text \<open>The actor has not approved the step yet.\<close>

abbreviation new_to :: "string \<Rightarrow> step_view \<Rightarrow> bool" where
  "new_to u cur \<equiv> \<forall>b \<in> set (sv_approvals cur). av_approverUserId b \<noteq> u"

lemma fresh_approval:
  assumes ap: "approving ss cur nxt c" and v: "v \<in> set ss" and u: "new_to u cur"
  shows "distinct (map av_approverUserId (sv_approvals (approved_step now cur nxt (approval_of cur u cm) v)))"
    "\<forall>b \<in> set (sv_approvals (approved_step now cur nxt (approval_of cur u cm) v)).
       av_decision b = ApprovalRequestApprovalDecision.Approved"
  using approvingD(2) [OF ap v] same_step(1,2) [OF ap v] u by (auto simp: step_inv_def)

lemma step_inv_stays:
  assumes ap: "approving ss cur nxt c" and v: "v \<in> set ss" and "\<not> completes cur" "new_to u cur"
  shows "step_inv c (approved_step now cur nxt (approval_of cur u cm) v)"
  using approvingD(2) [OF ap v] fresh_approval [OF ap v assms(4), of now cm] same_step(1,2) [OF ap v] assms(3)
  by (auto simp: step_inv_def approved_step_status completes_def)

lemma step_inv_advances:
  assumes ap: "approving ss cur (Some n) c" and v: "v \<in> set ss" and compl: "completes cur" and u: "new_to u cur"
  shows "step_inv (Suc c) (approved_step now cur (Some n) (approval_of cur u cm) v)"
proof -
  let ?w = "approved_step now cur (Some n) (approval_of cur u cm) v"
  note id = same_step [OF ap v]
  have old: "step_inv c v" by (rule approvingD(2) [OF ap v])
  have "st_status ?w = ApprovalRequestStepStatus.Completed \<and> st_requiredApprovals ?w \<le> length (sv_approvals ?w)"
    if "st_stepNumber v < Suc c"
    using that id old compl by (cases "st_stepNumber v = c") (auto simp: step_inv_def approved_step_status completes_def)
  moreover have "st_status ?w = ApprovalRequestStepStatus.InProgress \<and> sv_approvals ?w = []" if "st_stepNumber v = Suc c"
    using that id old compl by (auto simp: step_inv_def approved_step_status)
  moreover have "st_status ?w = ApprovalRequestStepStatus.Pending \<and> sv_approvals ?w = []" if "Suc c < st_stepNumber v"
    using that id old compl by (auto simp: step_inv_def approved_step_status)
  ultimately show ?thesis
    using fresh_approval [OF ap v u, of now cm] unfolding step_inv_def by auto
qed

lemma step_completed:
  assumes ap: "approving ss cur None c" and v: "v \<in> set ss" and compl: "completes cur" and u: "new_to u cur"
  shows "st_status (approved_step now cur None (approval_of cur u cm) v) = ApprovalRequestStepStatus.Completed"
    "enough (approved_step now cur None (approval_of cur u cm) v)"
proof -
  let ?w = "approved_step now cur None (approval_of cur u cm) v"
  have "st_stepNumber v \<le> c"
    using approving_steps(3) [OF ap] numbered_bounds [OF approvingD(1) [OF ap] v] by simp
  then have w: "st_status ?w = ApprovalRequestStepStatus.Completed \<and> st_requiredApprovals ?w \<le> length (sv_approvals ?w)"
    using approvingD(2) [OF ap v] same_step(1,2) [OF ap v] compl
    by (cases "st_stepNumber v = c") (auto simp: step_inv_def approved_step_status completes_def)
  then show "st_status ?w = ApprovalRequestStepStatus.Completed" by simp
  show "enough ?w"
    using w enough_length [OF fresh_approval [OF ap v u, of now cm]] by (simp add: enough_def)
qed

lemma data_typed_kept [simp]:
  "data_typed (set_status st r) = data_typed r" "data_typed (advance_request n r) = data_typed r"
  by (simp_all add: data_typed_def split: request_data.splits)

lemma approved_local_inv:
  assumes inv: "local_inv r ss []" and pend: "rq_status r = ApprovalRequestStatus.Pending"
    and ids: "distinct (map st_id ss)" and at: "step_at (rq_currentStep r) ss = Some (cur, nxt)" and u: "new_to u cur"
  shows "local_inv (approved_row r cur nxt) (map (approved_step now cur nxt (approval_of cur u cm)) ss) []"
proof -
  have ap: "approving ss cur nxt (rq_currentStep r)"
    using inv pend ids at by (auto simp: approving_def local_inv_def)
  have base: "numbered ss" "data_typed r" "1 \<le> rq_currentStep r" "rq_currentStep r \<le> max 1 (length ss)"
    using inv pend by (auto simp: local_inv_def)
  have ne: "ss \<noteq> []" using approving_steps(1) [OF ap] by auto
  show ?thesis
  proof (cases "completes cur")
    case False
    with base pend step_inv_stays [OF ap _ False u] show ?thesis
      by (simp add: local_inv_def approved_row_def)
  next
    case True
    show ?thesis
    proof (cases nxt)
      case None
      with base ne step_completed [OF ap [unfolded None] _ True u] True show ?thesis
        by (simp add: local_inv_def approved_row_def all_completed_def all_enough_def)
    next
      case (Some n)
      with base pend step_inv_advances [OF ap [unfolded Some] _ True u] True approving_steps(4) [OF ap Some] show ?thesis
        by (simp add: local_inv_def approved_row_def)
    qed
  qed
qed

section \<open>The invariant of the tables\<close>

definition approvals_inv :: "approval_db \<Rightarrow> bool" where
  "approvals_inv db \<longleftrightarrow> ids_ok db \<and>
     (\<forall>rid. findRequestById db rid = None \<longrightarrow> grantsOf db rid = []) \<and>
     (\<forall>rid r. findRequestById db rid = Some r \<longrightarrow> local_inv r (findStepsByRequestId db rid) (grantsOf db rid))"

lemma approvals_invD:
  assumes "approvals_inv db"
  shows "ids_ok db" "findRequestById db rid = Some r \<Longrightarrow> local_inv r (findStepsByRequestId db rid) (grantsOf db rid)"
    "findRequestById db rid = None \<Longrightarrow> grantsOf db rid = []"
  using assms by (auto simp: approvals_inv_def)

lemma approvals_inv_empty: "approvals_inv empty_db"
  by (simp add: approvals_inv_def) (simp add: findRequestById_def grantsOf_def empty_db_def)

lemma approvals_inv_only:
  assumes "approvals_inv db" "only rid db db'" "ids_ok db'" "findRequestById db' rid \<noteq> None"
    and "\<And>r. findRequestById db' rid = Some r \<Longrightarrow> local_inv r (findStepsByRequestId db' rid) (grantsOf db' rid)"
  shows "approvals_inv db'"
  unfolding approvals_inv_def
proof (intro conjI allI impI)
  fix i assume "findRequestById db' i = None"
  with assms(1,2,4) show "grantsOf db' i = []"
    by (cases "i = rid") (auto simp: only_def approvals_inv_def)
next
  fix i r assume "findRequestById db' i = Some r"
  with assms show "local_inv r (findStepsByRequestId db' i) (grantsOf db' i)"
    by (cases "i = rid") (auto simp: only_def approvals_inv_def)
qed (rule assms(3))

lemma approvals_inv_untouched: "approvals_inv db \<Longrightarrow> untouched db db' \<Longrightarrow> approvals_inv db'"
  using untouched_views by (simp add: approvals_inv_def)

lemma distinct_step_ids: "ids_ok db \<Longrightarrow> distinct (map st_id (findStepsByRequestId db rid))"
  by (auto simp: ids_ok_def findStepsByRequestId_def distinct_map inj_on_def comp_def intro: distinct_filter)

lemma approvals_inv_set_status:
  assumes inv: "approvals_inv db" and r: "findRequestById db rid = Some r"
    and st: "\<And>ss gs. local_inv r ss gs \<Longrightarrow> local_inv (set_status st r) ss gs"
  shows "approvals_inv (updateRequest rid (set_status st) db)"
proof (rule approvals_inv_only [OF inv only_updateRequest])
  show "ids_ok (updateRequest rid (set_status st) db)"
    using approvals_invD(1) [OF inv] by (rule ids_ok_updateRequest) simp
  fix r' assume "findRequestById (updateRequest rid (set_status st) db) rid = Some r'"
  with r have "r' = set_status st r" by (simp add: findRequestById_update)
  with st [OF approvals_invD(2) [OF inv r]]
  show "local_inv r' (findStepsByRequestId (updateRequest rid (set_status st) db) rid)
      (grantsOf (updateRequest rid (set_status st) db) rid)"
    by (simp add: view_simps)
qed (use r in \<open>simp_all add: findRequestById_update\<close>)

lemma local_inv_expire: "local_inv r ss gs \<Longrightarrow> local_inv (set_status ApprovalRequestStatus.Expired r) ss gs"
  by (simp add: local_inv_def grant_earned_def)

lemma local_inv_close:
  "local_inv r ss gs \<Longrightarrow> rq_status r = ApprovalRequestStatus.Pending \<Longrightarrow>
     st = ApprovalRequestStatus.Rejected \<or> st = ApprovalRequestStatus.Cancelled \<Longrightarrow> local_inv (set_status st r) ss gs"
  by (auto simp: local_inv_def)

text \<open>A closed request does not mind another approval row on a step: the rejection is one.\<close>

lemma local_inv_more_rows:
  assumes "local_inv r ss []" "rq_status r = ApprovalRequestStatus.Rejected"
    and "\<And>v. st_stepNumber (f v) = st_stepNumber v"
  shows "local_inv r (map f ss) []"
  using assms by (simp add: local_inv_def)

section \<open>What an approval leaves behind\<close>

text \<open>The contract of the routine that a kind of policy runs once a request is approved: it leaves the
  requests and their steps alone, and adds at most one grant, for the requester.\<close>

locale approval_routine =
  fixes routine :: "request_row \<Rightarrow> 'd \<Rightarrow> approval_db \<Rightarrow> approval_db"
  assumes keeps_requests: "findRequestById (routine r d db) i = findRequestById db i"
    and keeps_steps: "findStepsByRequestId (routine r d db) i = findStepsByRequestId db i"
    and adds_grant: "\<exists>gs. grantsOf (routine r d db) i = grantsOf db i @ gs \<and> length gs \<le> 1 \<and>
          (\<forall>g \<in> set gs. i = rq_id r \<and> gr_granteeUserId g = rq_requesterId r \<and> \<not> gr_isBreakGlass g)"
    and keeps_ids: "ids_ok db \<Longrightarrow> rq_id r < db_next db \<Longrightarrow> ids_ok (routine r d db)"
begin

lemma only_this: "only (rq_id r) db (routine r d db)"
  unfolding only_def using keeps_requests keeps_steps
proof (intro allI impI conjI)
  fix i assume "i \<noteq> rq_id r"
  then show "grantsOf (routine r d db) i = grantsOf db i"
    using adds_grant [of r d db i] by (metis append_Nil2 list.set_intros(1) neq_Nil_conv)
qed auto

lemma keeps_inv:
  assumes inv: "approvals_inv db" and r: "findRequestById db (rq_id r) = Some r"
    and st: "rq_status r = ApprovalRequestStatus.Approved" and none: "grantsOf db (rq_id r) = []"
  shows "approvals_inv (routine r d db)"
proof (rule approvals_inv_only [OF inv only_this])
  show "ids_ok (routine r d db)"
    using keeps_ids approvals_invD(1) [OF inv] ids_ok_request [OF _ r] by blast
  obtain gs where gs: "grantsOf (routine r d db) (rq_id r) = gs" "length gs \<le> 1"
      "\<forall>g \<in> set gs. gr_granteeUserId g = rq_requesterId r \<and> \<not> gr_isBreakGlass g"
    using adds_grant [of r d db "rq_id r"] none by auto
  have l: "local_inv r (findStepsByRequestId db (rq_id r)) []"
    using approvals_invD(2) [OF inv r] none by simp
  fix r' assume "findRequestById (routine r d db) (rq_id r) = Some r'"
  then have "r' = r" using r by (simp add: keeps_requests)
  with l gs st show "local_inv r' (findStepsByRequestId (routine r d db) (rq_id r)) (grantsOf (routine r d db) (rq_id r))"
    by (auto simp: local_inv_def grant_earned_def keeps_steps)
qed (use r in \<open>simp add: keeps_requests\<close>)

end

lemma blank_grant_simps [simp]:
  "gr_requestId (blank_grant r at e) = Some (rq_id r)" "gr_granteeUserId (blank_grant r at e) = rq_requesterId r"
  "gr_isBreakGlass (blank_grant r at e) = False"
  by (simp_all add: blank_grant_def)

interpretation pam_routine: approval_routine "pam_postApproval ms now" for ms now
  by unfold_locales (auto simp: pam_postApproval_def view_simps intro: ids_ok_createGrant)

interpretation signing_routine: approval_routine "signing_postApproval ms redact now" for ms redact now
  by unfold_locales (auto simp: signing_postApproval_def Let_def view_simps intro!: ids_ok_createGrant)

interpretation cert_routine: approval_routine "cert_postApproval issue" for issue
  using untouched_views [OF untouched_cert_approval]
  by unfold_locales auto

lemma postApproval_inv:
  assumes "approvals_inv db" "findRequestById db rid = Some r" "rq_status r = ApprovalRequestStatus.Approved"
    and "grantsOf db rid = []"
  shows "approvals_inv (snd (postApprovalRoutine env r db))"
proof -
  have rid: "rid = rq_id r" using assms(2) findRequestById_id by blast
  note keeps = pam_routine.keeps_inv cert_routine.keeps_inv signing_routine.keeps_inv
  show ?thesis
    using assms keeps [where r = r and db = db] unfolding rid
    by (simp add: postApprovalRoutine_def split: ApprovalPolicyType.split request_data.split)
qed

section \<open>Every operation keeps the invariant\<close>

lemma approve_check_ok:
  assumes "approve_check env r a t ss = Inr (cur, nxt)"
  shows "rq_status r = ApprovalRequestStatus.Pending" "step_at (rq_currentStep r) ss = Some (cur, nxt)"
    "isEligible (ac_id a) (e_userGroups env (ac_id a) (ac_orgId a)) (sv_approvers cur)"
    "new_to (ac_id a) cur" "t = CertCodeSigning \<Longrightarrow> rq_requesterId r \<noteq> Some (ac_id a)"
  using assms by (auto simp: approve_check_def list_ex_iff split: if_splits option.splits)

lemma pending_no_grants:
  "approvals_inv db \<Longrightarrow> findRequestById db rid = Some r \<Longrightarrow> rq_status r = ApprovalRequestStatus.Pending \<Longrightarrow>
     grantsOf db rid = []"
  using approvals_invD(2) [of db rid r] by (simp add: local_inv_def)

lemma step_at_in:
  assumes "step_at c ss = Some (cur, nxt)"
  shows "cur \<in> set ss" "nxt = Some n \<Longrightarrow> n \<in> set ss"
proof -
  obtain rest where d: "dropWhile (\<lambda>s. st_stepNumber s \<noteq> c) ss = cur # rest"
      and nxt: "nxt = (case rest of [] \<Rightarrow> None | t # _ \<Rightarrow> Some t)"
    using assms by (auto simp: step_at_def split: list.splits)
  then have "set (cur # rest) \<subseteq> set ss" by (metis set_dropWhileD subsetI)
  with nxt show "cur \<in> set ss" "nxt = Some n \<Longrightarrow> n \<in> set ss" by (auto split: list.splits)
qed

lemma approve_write_inv:
  assumes inv: "approvals_inv db" and r: "findRequestById db rid = Some r"
    and chk: "approve_check env r a t (findStepsByRequestId db rid) = Inr (cur, nxt)"
  shows "approvals_inv (approve_write now r cur nxt (ac_id a) comment db)"
proof (rule approvals_inv_only [OF inv])
  note ok = approve_check_ok [OF chk]
  note ids = approvals_invD(1) [OF inv]
  have rid: "rq_id r = rid" using r findRequestById_id by blast
  note at = step_at_in [OF ok(2)]
  show "only rid db (approve_write now r cur nxt (ac_id a) comment db)"
    by (rule only_approve_write [OF ids r at])
  show "ids_ok (approve_write now r cur nxt (ac_id a) comment db)"
    by (rule ids_ok_approve_write [OF ids at(1)])
  have gs: "grantsOf db rid = []" by (rule pending_no_grants [OF inv r ok(1)])
  with approvals_invD(2) [OF inv r] have "local_inv r (findStepsByRequestId db rid) []" by simp
  from approved_local_inv [OF this ok(1) distinct_step_ids [OF ids] ok(2,4)]
  show "local_inv r' (findStepsByRequestId (approve_write now r cur nxt (ac_id a) comment db) rid)
      (grantsOf (approve_write now r cur nxt (ac_id a) comment db) rid)"
    if "findRequestById (approve_write now r cur nxt (ac_id a) comment db) rid = Some r'" for r'
    using that by (simp add: approve_write_view [OF r rid] gs)
qed (simp add: approve_write_view [OF r findRequestById_id [OF r]])

lemma approve_finish_inv:
  assumes inv: "approvals_inv db"
    and gs: "\<And>r. findRequestById db rid = Some r \<Longrightarrow> rq_status r = ApprovalRequestStatus.Approved \<Longrightarrow> grantsOf db rid = []"
  shows "approvals_inv (snd (approve_finish env a rid cur nxt db))"
proof -
  define db1 where "db1 = (case nxt of
      Some n \<Rightarrow> if completes cur then notifyStepApprovers env (sv_approvers n) rid db else db | None \<Rightarrow> db)"
  have u: "untouched db db1" by (simp add: db1_def split: option.split)
  then have inv1: "approvals_inv db1" using approvals_inv_untouched inv by blast
  have gs1: "grantsOf db1 rid = []" if "findRequestById db1 rid = Some r" "rq_status r = ApprovalRequestStatus.Approved" for r
    using that gs untouched_views [OF u] by simp
  show ?thesis
    using inv1 gs1 postApproval_inv [OF inv1]
    by (auto simp: approve_finish_def db1_def [symmetric] split: option.split sum.split prod.split)
      (metis snd_conv)+
qed

lemma approve_standard_inv:
  assumes inv: "approvals_inv db" and r: "findRequestById db rid = Some r"
  shows "approvals_inv (snd (approve_standard env r comment a t db))"
proof (cases "approve_check env r a t (findStepsByRequestId db rid)")
  case (Inl e)
  with inv findRequestById_id [OF r] show ?thesis by (simp add: approve_standard_def)
next
  case (Inr cn)
  obtain cur nxt where cn: "cn = (cur, nxt)" by (cases cn)
  have rid: "rq_id r = rid" using r findRequestById_id by blast
  note chk = Inr [unfolded cn]
  have "grantsOf (approve_write (e_now env) r cur nxt (ac_id a) comment db) rid = []"
    using pending_no_grants [OF inv r approve_check_ok(1) [OF chk]] by (simp add: approve_write_view [OF r rid])
  with approve_finish_inv [OF approve_write_inv [OF inv r chk]] show ?thesis
    by (simp add: approve_standard_def rid chk)
qed

lemma complete_all_own:
  fixes db :: approval_db and rid :: nat and now :: int
  assumes "ids_ok db"
  defines "db1 \<equiv> foldl (\<lambda>acc s. updateStep (st_id s) (complete_step now) acc) db (findStepsByRequestId db rid)"
  shows "only rid db db1" "findStepsByRequestId db1 rid = map (complete_step now) (findStepsByRequestId db rid)"
    "ids_ok db1" "db_next db1 = db_next db" "grantsOf db1 i = grantsOf db i" "findRequestById db1 i = findRequestById db i"
proof -
  note steps = complete_all_view [of now db "findStepsByRequestId db rid", folded db1_def]
  note others = complete_all_others [where db = db and ws = "findStepsByRequestId db rid" and now = now, folded db1_def]
  have "findStepsByRequestId db1 i = findStepsByRequestId db i" if "i \<noteq> rid" for i
    unfolding steps using findSteps_same_id [OF assms(1)] that by (intro map_idI) auto
  then show "only rid db db1" by (simp add: only_def others)
  show "findStepsByRequestId db1 rid = map (complete_step now) (findStepsByRequestId db rid)"
    unfolding steps by simp
  show "ids_ok db1" "db_next db1 = db_next db" "grantsOf db1 i = grantsOf db i" "findRequestById db1 i = findRequestById db i"
    by (simp_all add: others assms(1))
qed

text \<open>The tables after the transaction, when its checks pass: one lemma for the other requests and the
  ids, one for the request itself.\<close>

definition broken_steps :: "int \<Rightarrow> string \<Rightarrow> nat \<Rightarrow> step_view list \<Rightarrow> step_view list" where
  "broken_steps now u c ss = (case find (\<lambda>s. st_stepNumber s = c) ss of
     None \<Rightarrow> map (complete_step now) ss
   | Some cur \<Rightarrow> map (\<lambda>v. if st_id v = st_id cur
       then (complete_step now v)\<lparr>sv_approvals := sv_approvals v @ [approval_of cur u None]\<rparr> else complete_step now v) ss)"

definition break_glass_row :: "approval_env \<Rightarrow> request_row \<Rightarrow> actor \<Rightarrow> pam_data \<Rightarrow> string \<Rightarrow> grant_row" where
  "break_glass_row env r a d reason = (blank_grant r (PamAttributes d) (Some (e_now env + e_ms env (accessDuration d))))
     \<lparr>gr_granteeUserId := Some (ac_id a), gr_isBreakGlass := True, gr_bypassReason := Some (trim reason)\<rparr>"

lemma break_glass_row_simps [simp]:
  "gr_requestId (break_glass_row env r a d reason) = Some (rq_id r)"
  "gr_granteeUserId (break_glass_row env r a d reason) = Some (ac_id a)"
  "gr_isBreakGlass (break_glass_row env r a d reason)"
  by (simp_all add: break_glass_row_def)

lemma break_glass_tables:
  fixes env :: approval_env and r :: request_row and a :: actor and d :: pam_data and reason :: string and db :: approval_db
  assumes ids: "ids_ok db" and r: "findRequestById db rid = Some r"
    and go: "rq_status r = ApprovalRequestStatus.Pending" "\<not> expired (e_now env) r"
  defines "db' \<equiv> snd (break_glass_write env r a d reason db)"
  shows "only rid db db'" "ids_ok db'" "findRequestById db' rid = Some (set_status ApprovalRequestStatus.Approved r)"
    "findStepsByRequestId db' rid = broken_steps (e_now env) (ac_id a) (rq_currentStep r) (findStepsByRequestId db rid)"
    "grantsOf db' rid = grantsOf db rid @ [(break_glass_row env r a d reason)\<lparr>gr_id := db_next db\<rparr>]"
proof -
  have rid: "rq_id r = rid" using r findRequestById_id by blast
  define ss where "ss = findStepsByRequestId db rid"
  define db1 where "db1 = foldl (\<lambda>acc s. updateStep (st_id s) (complete_step (e_now env)) acc) db ss"
  define found where "found = find (\<lambda>s. st_stepNumber s = rq_currentStep r) ss"
  define db2 where "db2 = (case found of None \<Rightarrow> db1 | Some cur \<Rightarrow> createApproval (approval_of cur (ac_id a) None) db1)"
  let ?db3 = "updateRequest rid (set_status ApprovalRequestStatus.Approved) db2" and ?g = "break_glass_row env r a d reason"
  have db': "db' = snd (createGrant ?g ?db3)"
    using go r by (simp add: db'_def break_glass_write_def rid ss_def db1_def db2_def break_glass_row_def found_def Let_def
        createGrant_def split: option.split)
  note one = complete_all_own [OF ids, where now = "e_now env" and rid = rid, folded ss_def, folded db1_def]
  have found: "cur \<in> set ss" if "found = Some cur" for cur
    using that by (auto simp: found_def find_Some_iff)
  have two: "only rid db1 db2 \<and> ids_ok db2 \<and> db_next db2 = db_next db \<and> grantsOf db2 rid = grantsOf db rid \<and>
      findRequestById db2 rid = Some r \<and>
      findStepsByRequestId db2 rid = broken_steps (e_now env) (ac_id a) (rq_currentStep r) ss"
  proof (cases found)
    case None
    then show ?thesis using one r by (simp add: db2_def broken_steps_def found_def)
  next
    case (Some cur)
    then have cur: "complete_step (e_now env) cur \<in> set (findStepsByRequestId db1 rid)" using found one(2) by simp
    have "st_id cur < db_next db" using findSteps_id_less [OF ids] found [OF Some] by (simp add: ss_def)
    with Some one r only_createApproval [OF one(3) cur] show ?thesis
      by (auto simp: db2_def view_simps ids_ok_createApproval broken_steps_def found_def comp_def)
  qed
  show "only rid db db'"
    unfolding db' using one(1) two only_updateRequest only_createGrant [of ?g rid] only_trans set_status_simps(1)
      break_glass_row_simps(1) rid by metis
  show "ids_ok db'"
    unfolding db' using two ids_ok_request [OF ids r] rid by (auto intro!: ids_ok_createGrant ids_ok_updateRequest)
  show "findRequestById db' rid = Some (set_status ApprovalRequestStatus.Approved r)"
    "findStepsByRequestId db' rid = broken_steps (e_now env) (ac_id a) (rq_currentStep r) (findStepsByRequestId db rid)"
    "grantsOf db' rid = grantsOf db rid @ [?g\<lparr>gr_id := db_next db\<rparr>]"
    unfolding db' using two rid by (simp_all add: view_simps ss_def)
qed

lemma broken_steps_completed:
  "numbered ss \<Longrightarrow> numbered (broken_steps now u c ss) \<and> all_completed (broken_steps now u c ss)"
  by (auto simp: broken_steps_def all_completed_def split: option.split)

lemma break_glass_write_inv:
  assumes inv: "approvals_inv db" and r: "findRequestById db rid = Some r"
    and a: "rq_requesterId r = Some (ac_id a)" "rq_type r = PamAccess"
  shows "approvals_inv (snd (break_glass_write env r a d reason db))"
proof (cases "rq_status r = ApprovalRequestStatus.Pending \<and> \<not> expired (e_now env) r")
  case False
  with inv r findRequestById_id [OF r] show ?thesis by (auto simp: break_glass_write_def)
next
  case True
  then have go: "rq_status r = ApprovalRequestStatus.Pending" "\<not> expired (e_now env) r" by auto
  note tables = break_glass_tables [OF approvals_invD(1) [OF inv] r go, of a d reason]
  have "numbered (findStepsByRequestId db rid)" "data_typed r"
    using approvals_invD(2) [OF inv r] by (auto simp: local_inv_def)
  with a broken_steps_completed pending_no_grants [OF inv r go(1)] show ?thesis
    by (intro approvals_inv_only [OF inv tables(1,2)])
      (auto simp: tables(3,4,5) local_inv_def grant_earned_def)
qed

lemma approve_break_glass_inv:
  assumes inv: "approvals_inv db" and r: "findRequestById db rid = Some r"
    and a: "rq_requesterId r = Some (ac_id a)" "rq_type r = PamAccess"
  shows "approvals_inv (snd (approveRequestBreakGlass env r a policy reason db))"
proof -
  have w: "approvals_inv db1" if "break_glass_write env r a d reason db = (res, db1)" for d res db1
    using break_glass_write_inv [OF assms, of env d reason] that by simp
  have o: "approvals_inv (db1\<lparr>db_outbox := x\<rparr>)" if "approvals_inv db1" for db1 x
    using approvals_inv_untouched [OF that untouched_outbox] .
  show ?thesis
    using inv w by (auto simp: approveRequestBreakGlass_def Let_def o split: sum.split prod.split)
qed

lemma approveRequest_inv:
  assumes inv: "approvals_inv db"
  shows "approvals_inv (snd (approveRequest env rid comment bypassReason a t db))"
proof (cases "findRequestById db rid")
  case None
  with inv show ?thesis by (simp add: approveRequest_def)
next
  case (Some r)
  have "approvals_inv (updateRequest rid (set_status ApprovalRequestStatus.Expired) db)"
    using approvals_inv_set_status [OF inv Some] local_inv_expire by blast
  moreover have "approvals_inv db1" if "approve_standard env r comment a t db = (res, db1)" for res db1
    using approve_standard_inv [OF inv Some, of env comment a t] that by simp
  moreover have "approvals_inv db1"
    if "rq_type r = PamAccess" "is_break_glass env db r a policy" "approveRequestBreakGlass env r a policy reason db = (res, db1)"
    for policy reason res db1
    using approve_break_glass_inv [OF inv Some, of a env policy reason] that by (simp add: is_break_glass_def)
  ultimately show ?thesis
    using inv Some by (auto simp: approveRequest_def split: option.split prod.split)
qed

lemma only_reject_write:
  assumes "ids_ok db" "findRequestById db rid = Some r" "cur \<in> set (findStepsByRequestId db rid)"
  shows "only rid db (reject_write r cur u comment db)" "ids_ok (reject_write r cur u comment db)"
    "findRequestById (reject_write r cur u comment db) rid = Some (set_status ApprovalRequestStatus.Rejected r)"
    "grantsOf (reject_write r cur u comment db) rid = grantsOf db rid"
    "\<exists>f. (\<forall>v. st_stepNumber (f v) = st_stepNumber v) \<and>
       findStepsByRequestId (reject_write r cur u comment db) rid = map f (findStepsByRequestId db rid)"
proof -
  have rid: "rq_id r = rid" using assms(2) findRequestById_id by blast
  show "only rid db (reject_write r cur u comment db)"
    unfolding reject_write_def rid using only_createApproval [OF assms(1,3)] only_updateRequest only_trans
    by (metis approval_row.select_convs(1) set_status_simps(1))
  show "ids_ok (reject_write r cur u comment db)"
    unfolding reject_write_def using assms(1) findSteps_id_less [OF assms(1,3)]
    by (auto intro!: ids_ok_updateRequest ids_ok_createApproval)
  show "findRequestById (reject_write r cur u comment db) rid = Some (set_status ApprovalRequestStatus.Rejected r)"
    "grantsOf (reject_write r cur u comment db) rid = grantsOf db rid"
    using assms(2) by (simp_all add: reject_write_def rid view_simps)
  show "\<exists>f. (\<forall>v. st_stepNumber (f v) = st_stepNumber v) \<and>
       findStepsByRequestId (reject_write r cur u comment db) rid = map f (findStepsByRequestId db rid)"
    unfolding reject_write_def view_simps by (intro exI conjI, rule_tac [2] refl) simp
qed

lemma rejectRequest_inv:
  assumes inv: "approvals_inv db"
  shows "approvals_inv (snd (rejectRequest env rid comment a db))"
proof (cases "findRequestById db rid")
  case None
  with inv show ?thesis by (simp add: rejectRequest_def)
next
  case (Some r)
  have "approvals_inv (updateRequest rid (set_status ApprovalRequestStatus.Expired) db)"
    using approvals_inv_set_status [OF inv Some] local_inv_expire by blast
  moreover have "approvals_inv (snd (reject_finish env a rid (reject_write r cur (ac_id a) comment db)))"
    if cur: "cur \<in> set (findStepsByRequestId db rid)" and pend: "rq_status r = ApprovalRequestStatus.Pending" for cur
  proof -
    note w = only_reject_write [OF approvals_invD(1) [OF inv] Some cur, of "ac_id a" comment]
    obtain f where f: "\<forall>v. st_stepNumber (f v) = st_stepNumber v"
        "findStepsByRequestId (reject_write r cur (ac_id a) comment db) rid = map f (findStepsByRequestId db rid)"
      using w(5) by blast
    have "local_inv (set_status ApprovalRequestStatus.Rejected r) (findStepsByRequestId db rid) []"
      using local_inv_close [OF approvals_invD(2) [OF inv Some] pend] pending_no_grants [OF inv Some pend] by simp
    then have inv1: "approvals_inv (reject_write r cur (ac_id a) comment db)"
      using f pending_no_grants [OF inv Some pend]
      by (intro approvals_inv_only [OF inv w(1,2)]) (auto simp: w(3,4) intro!: local_inv_more_rows)
    have "untouched db1 (snd (postRejectionRoutine r1 db1))" for db1 r1
      by (auto simp: postRejectionRoutine_def split: ApprovalPolicyType.split request_data.split)
    with inv1 show ?thesis
      by (auto simp: reject_finish_def split: option.split sum.split prod.split)
        (metis snd_conv approvals_inv_untouched)+
  qed
  ultimately show ?thesis
    using inv Some by (auto simp: rejectRequest_def find_Some_iff split: option.split)
qed

lemma cancelRequest_inv:
  assumes inv: "approvals_inv db"
  shows "approvals_inv (snd (cancelRequest env rid a db))"
proof (cases "findRequestById db rid")
  case None
  with inv show ?thesis by (simp add: cancelRequest_def)
next
  case (Some r)
  have "approvals_inv (updateRequest rid (set_status ApprovalRequestStatus.Cancelled) db)"
    if "rq_status r = ApprovalRequestStatus.Pending"
  proof -
    have "local_inv (set_status ApprovalRequestStatus.Cancelled r) (findStepsByRequestId db rid) (grantsOf db rid)"
      using local_inv_close [OF approvals_invD(2) [OF inv Some] that] by simp
    with Some show ?thesis
      by (intro approvals_inv_only [OF inv only_updateRequest]
          ids_ok_updateRequest approvals_invD(1) [OF inv]) (auto simp: view_simps)
  qed
  with inv Some show ?thesis by (simp add: cancelRequest_def Let_def)
qed

end
