(* ===== verification/ApprovalRuns.thy ===== *)
theory ApprovalRuns
  imports ApprovalInvariant
begin

text \<open>
  Runs of the approval service and of the services that use it: the creation of requests, the approvals
  in advance and the revocations of signers, the administration of policies and the scheduled jobs keep
  the invariant too. The operations together are a step relation; its runs start in the empty tables,
  and its calls do not overlap. That the data of a request has the kind of its type follows from the
  operations: each of them stores data of one kind under a policy of that kind.

  Three writers of these tables are not steps. The requests for accounts of \<open>pam-access-request-service.ts\<close>
  are another workflow, with its own approvals, on the same tables; deleting a signer
  (\<open>signer-service.ts\<close>, line 1076) or an application (\<open>pki-application-service.ts\<close>, line 394) deletes
  its requests, whose grants stay with an empty \<open>requestId\<close>; and the policy of a signer is written with
  the signer (\<open>signer-service.ts\<close>) and changed by \<open>updatePolicy\<close>, which touch no request.
\<close>

section \<open>The steps a request is created with\<close>

fun created_steps :: "int \<Rightarrow> nat \<Rightarrow> nat \<Rightarrow> nat \<Rightarrow> policy_step list \<Rightarrow> step_row list" where
  "created_steps now rid k n [] = []"
| "created_steps now rid k n (step # rest) = new_step now k rid n step # created_steps now rid (Suc k) (Suc n) rest"

fun created_eligible :: "nat \<Rightarrow> policy_step list \<Rightarrow> subject_row list" where
  "created_eligible k [] = []"
| "created_eligible k (step # rest) = map (row_of_approver k) (ps_approvers step) @ created_eligible (Suc k) rest"

fun created_views :: "int \<Rightarrow> nat \<Rightarrow> nat \<Rightarrow> nat \<Rightarrow> policy_step list \<Rightarrow> step_view list" where
  "created_views now rid k n [] = []"
| "created_views now rid k n (step # rest) =
     step_row.extend (new_step now k rid n step) \<lparr>sv_approvers = ps_approvers step, sv_approvals = []\<rparr>
       # created_views now rid (Suc k) (Suc n) rest"

lemma create_steps_eq:
  "create_steps now rid n ss db = db\<lparr>db_steps := db_steps db @ created_steps now rid (db_next db) n ss,
     db_eligible := db_eligible db @ created_eligible (db_next db) ss, db_next := db_next db + length ss\<rparr>"
  by (induction ss arbitrary: n db) simp_all

lemma created_steps_facts:
  "s \<in> set (created_steps now rid k n ss) \<Longrightarrow> st_requestId s = rid \<and> k \<le> st_id s \<and> st_id s < k + length ss"
  by (induction ss arbitrary: k n) (force simp: new_step_def)+

lemma upt_from: "k # [Suc k..<Suc (k + n)] = [k..<Suc (k + n)]"
  by (simp add: upt_conv_Cons)

lemma created_steps_ids: "map st_id (created_steps now rid k n ss) = [k..<k + length ss]"
  by (induction ss arbitrary: k n) (simp_all add: new_step_def upt_from del: upt_Suc)

lemma created_steps_numbers: "map st_stepNumber (created_steps now rid k n ss) = [n..<n + length ss]"
  by (induction ss arbitrary: k n) (simp_all add: new_step_def upt_from del: upt_Suc)

lemma created_eligible_owners: "e \<in> set (created_eligible k ss) \<Longrightarrow> k \<le> sb_owner e \<and> sb_owner e < k + length ss"
  by (induction ss arbitrary: k) force+

lemma subjectsOf_none: "\<forall>r \<in> set rows. sb_owner r \<noteq> m \<Longrightarrow> subjectsOf m rows = []"
  by (auto simp: subjectsOf_def filter_empty_conv)

lemma join_created:
  assumes "\<forall>e \<in> set E. sb_owner e < k" "db_eligible db = E @ created_eligible k ss"
    and "\<forall>v \<in> set (db_approvals db). av_stepId v < k"
  shows "map (join_step db) (created_steps now rid k n ss) = created_views now rid k n ss"
  using assms
proof (induction ss arbitrary: E k n)
  case Nil
  then show ?case by simp
next
  case (Cons s ss)
  have "subjectsOf k E = []" using Cons.prems(1) by (intro subjectsOf_none) auto
  moreover have "subjectsOf k (created_eligible (Suc k) ss) = []"
    using created_eligible_owners by (intro subjectsOf_none) fastforce
  moreover have "filter (\<lambda>a. av_stepId a = k) (db_approvals db) = []"
    using Cons.prems(3) by (auto simp: filter_empty_conv)
  ultimately have head: "join_step db (new_step now k rid n s) =
      step_row.extend (new_step now k rid n s) \<lparr>sv_approvers = ps_approvers s, sv_approvals = []\<rparr>"
    using Cons.prems(2) by (simp add: join_step_def new_step_def)
  have "map (join_step db) (created_steps now rid (Suc k) (Suc n) ss) = created_views now rid (Suc k) (Suc n) ss"
    using Cons.prems by (intro Cons.IH [of "E @ map (row_of_approver k) (ps_approvers s)"]) (auto simp: less_SucI)
  with head show ?case by simp
qed

lemma created_view_facts:
  "v \<in> set (created_views now rid k n ss) \<Longrightarrow> n \<le> st_stepNumber v \<and> sv_approvals v = [] \<and>
     st_status v = (if st_stepNumber v = 1 then ApprovalRequestStepStatus.InProgress else ApprovalRequestStepStatus.Pending)"
  by (induction ss arbitrary: k n) (fastforce simp: new_step_def step_row.defs)+

lemma created_views_numbers: "map st_stepNumber (created_views now rid k n ss) = [n..<n + length ss]"
  by (induction ss arbitrary: k n) (simp_all add: new_step_def step_row.defs upt_from del: upt_Suc)

lemma created_views_shape:
  "map sv_approvers (created_views now rid k n ss) = map ps_approvers ss"
  "map st_requiredApprovals (created_views now rid k n ss) = map ps_requiredApprovals ss"
  by (induction ss arbitrary: k n) (simp_all add: new_step_def step_row.defs)

lemma created_tables:
  fixes now :: int and q :: new_request and db :: approval_db
  assumes ids: "ids_ok db"
  defines "rid \<equiv> db_next db" and "db' \<equiv> snd (createApprovalRequestWithSteps now q db)"
  shows "only rid db db'" "ids_ok db'" "findRequestById db' rid = Some (new_request_row rid q)"
    "findStepsByRequestId db' rid = created_views now rid (Suc rid) 1 (nq_policySteps q)" "grantsOf db' rid = []"
proof -
  let ?ss = "nq_policySteps q"
  let ?new = "created_steps now rid (Suc rid) 1 ?ss"
  have db': "db' = db\<lparr>db_requests := db_requests db @ [new_request_row rid q], db_steps := db_steps db @ ?new,
      db_eligible := db_eligible db @ created_eligible (Suc rid) ?ss, db_next := Suc rid + length ?ss\<rparr>"
    by (simp add: db'_def createApprovalRequestWithSteps_def Let_def create_steps_eq rid_def new_request_row_def)
  have old: "st_requestId s < rid" "st_id s < rid" if "s \<in> set (db_steps db)" for s
    using ids that by (auto simp: ids_ok_def rid_def)
  have fresh: "filter (\<lambda>s. st_requestId s = rid) (db_steps db) = []" using old by (fastforce simp: filter_empty_conv)
  have "filter (\<lambda>s. st_requestId s = rid) ?new = ?new" using created_steps_facts by (intro filter_True) blast
  moreover have "sort_key st_stepNumber ?new = ?new"
    by (rule sort_key_id_if_sorted) (simp add: created_steps_numbers del: upt_Suc)
  moreover have "map (join_step db') ?new = created_views now rid (Suc rid) 1 ?ss"
    using ids by (intro join_created [of "db_eligible db"]) (auto simp: db' ids_ok_def rid_def less_SucI)
  ultimately show "findStepsByRequestId db' rid = created_views now rid (Suc rid) 1 ?ss"
    by (simp add: findStepsByRequestId_def db' fresh)
  show "ids_ok db'"
    using ids created_steps_facts [of _ now rid "Suc rid" 1 ?ss] created_eligible_owners [of _ "Suc rid" ?ss]
    by (fastforce simp: ids_ok_def db' rid_def created_steps_ids new_request_row_def)
  have none: "findRequestById db rid = None" using ids by (fastforce simp: findRequestById_def find_None_iff ids_ok_def rid_def)
  then show "findRequestById db' rid = Some (new_request_row rid q)"
    by (simp add: findRequestById_def db' find_append new_request_row_def)
  show "grantsOf db' rid = []" using ids by (fastforce simp: grantsOf_def db' filter_empty_conv ids_ok_def rid_def)
  show "only rid db db'"
    unfolding only_def
  proof (intro allI impI conjI)
    fix i assume i: "i \<noteq> rid"
    have "filter (\<lambda>s. st_requestId s = i) ?new = []" using created_steps_facts i by (fastforce simp: filter_empty_conv)
    moreover have "join_step db' s = join_step db s" if "s \<in> set (db_steps db)" for s
    proof -
      have "subjectsOf (st_id s) (created_eligible (Suc rid) ?ss) = []"
        using created_eligible_owners old(2) [OF that] by (intro subjectsOf_none) fastforce
      then show ?thesis by (simp add: join_step_def db')
    qed
    ultimately show "findStepsByRequestId db' i = findStepsByRequestId db i"
      by (simp add: findStepsByRequestId_def db')
    show "findRequestById db' i = findRequestById db i" "grantsOf db' i = grantsOf db i"
      using i by (simp_all add: findRequestById_def grantsOf_def db' find_append new_request_row_def split: option.split)
  qed
qed

section \<open>Creating a request keeps the invariant\<close>

definition request_typed :: "new_request \<Rightarrow> bool" where
  "request_typed q \<longleftrightarrow> data_typed (new_request_row 0 q)"

lemma new_request_row_simps [simp]:
  "rq_id (new_request_row rid q) = rid" "rq_status (new_request_row rid q) = ApprovalRequestStatus.Pending"
  "rq_currentStep (new_request_row rid q) = 1" "rq_type (new_request_row rid q) = nq_policyType q"
  "rq_requestData (new_request_row rid q) = nq_requestData q"
  by (simp_all add: new_request_row_def)

lemma created_local_inv:
  assumes "request_typed q"
  shows "local_inv (new_request_row rid q) (created_views now rid (Suc rid) 1 (nq_policySteps q)) []"
proof -
  define vs where "vs = created_views now rid (Suc rid) 1 (nq_policySteps q)"
  have n: "map st_stepNumber vs = [1..<1 + length (nq_policySteps q)]"
    unfolding vs_def by (rule created_views_numbers)
  from arg_cong [OF this, of length] have "length vs = length (nq_policySteps q)" by (simp del: upt_Suc)
  with n have "numbered vs" by (simp add: numbered_def del: upt_Suc)
  moreover have "step_inv 1 v" if "v \<in> set vs" for v
    using created_view_facts [OF that [unfolded vs_def]] by (auto simp: step_inv_def)
  moreover have "data_typed (new_request_row rid q)"
    using assms by (simp add: request_typed_def data_typed_def split: request_data.splits)
  ultimately show ?thesis by (simp add: local_inv_def vs_def)
qed

lemma createRequestFromPolicy_untouched:
  "untouched (snd (createApprovalRequestWithSteps (e_now env) q db)) (snd (createRequestFromPolicy env q db))"
  by (simp add: createRequestFromPolicy_def split: prod.split list.split)

lemma createRequestFromPolicy_inv:
  assumes inv: "approvals_inv db" and q: "request_typed q"
  shows "approvals_inv (snd (createRequestFromPolicy env q db))"
proof -
  note tables = created_tables [OF approvals_invD(1) [OF inv], where now = "e_now env" and q = q]
  have "approvals_inv (snd (createApprovalRequestWithSteps (e_now env) q db))"
    using created_local_inv [OF q] by (intro approvals_inv_only [OF inv tables(1,2)]) (auto simp: tables(3,4,5))
  with createRequestFromPolicy_untouched show ?thesis using approvals_inv_untouched by blast
qed

lemma findPolicies_in:
  "p \<in> set (findPoliciesByProjectId db t projectId options) \<Longrightarrow> pl_type p = t \<and> pl_projectId p = projectId"
  by (auto simp: findPoliciesByProjectId_def view_policy_def policy_row.defs)

lemma pam_match_in:
  assumes "pam_matchPolicy pm db projectId d = Some p"
  shows "p \<in> set (findPoliciesByProjectId db PamAccess projectId AnyScope)"
proof -
  obtain s where "foldl keep_better None (scored pm d (findPoliciesByProjectId db PamAccess projectId AnyScope)) = Some (p, s)"
    using assms by (auto simp: pam_matchPolicy_def pam_best_scored)
  with keep_better_best have "(p, s) \<in> set (scored pm d (findPoliciesByProjectId db PamAccess projectId AnyScope))" by blast
  then show ?thesis by (simp only: in_scored)
qed

lemma find_Some_in: "find P xs = Some x \<Longrightarrow> x \<in> set xs"
  by (auto simp: find_Some_iff)

lemma matchPolicy_typed:
  assumes "matchPolicy env db t projectId inputs = Some p"
  shows "pl_type p = t \<and> (case inputs of PamData _ \<Rightarrow> t = PamAccess | CertData _ \<Rightarrow> t = CertRequest | SigningData _ \<Rightarrow> t = CertCodeSigning)"
  using assms findPolicies_in [of p db t projectId AnyScope]
  by (cases t; cases inputs)
    (auto simp: matchPolicy_def cert_matchPolicy_def signing_matchPolicy_def Let_def
      dest!: pam_match_in find_Some_in split: option.splits if_splits)

lemma admit_request_typed:
  assumes "admit_request env db t dto a = Inr q"
  shows "request_typed q \<and> nq_policyType q = t"
proof -
  obtain projectId p expiresAt where m: "matchPolicy env db t projectId (cd_requestData dto) = Some p"
      and q: "q = request_of_dto a projectId p dto expiresAt"
    using assms by (auto simp: admit_request_def rbind_Inr_iff split: option.splits)
  from matchPolicy_typed [OF m] show ?thesis
    by (simp add: q request_of_dto_def request_typed_def data_typed_def split: request_data.splits)
qed

lemma createRequest_inv: "approvals_inv db \<Longrightarrow> approvals_inv (snd (createRequest env t dto a db))"
  using createRequestFromPolicy_inv [of db _ env] admit_request_typed [of env db t dto a]
  by (auto simp: createRequest_def split: sum.split prod.split) (metis snd_conv)

lemma certificate_request_typed:
  assumes "policy_to_ask env c db = Some policy"
  shows "request_typed (certificate_request_of env c policy)"
  using assms
  by (auto simp: policy_to_ask_def certificate_request_of_def request_typed_def data_typed_def
      dest!: matchPolicy_typed split: option.splits if_splits)

lemma untouched_cert_rows [simp]: "untouched db (db\<lparr>db_certRequests := x\<rparr>)"
  by (simp add: untouched_def)

lemma requestCertificateApproval_inv:
  assumes inv: "approvals_inv db"
  shows "approvals_inv (snd (requestCertificateApproval env c db))"
proof -
  have new: "approvals_inv (snd (createRequestFromPolicy env (certificate_request_of env c policy)
      (db\<lparr>db_certRequests := x\<rparr>)))"
    if "policy_to_ask env c db = Some policy" for policy x
    by (rule createRequestFromPolicy_inv [OF approvals_inv_untouched [OF inv untouched_cert_rows]
          certificate_request_typed [OF that]])
  have "approvals_inv (set_cert_request i row db1)"
    if "policy_to_ask env c db = Some policy"
      "createRequestFromPolicy env (certificate_request_of env c policy) (db\<lparr>db_certRequests := x\<rparr>) = (r, db1)"
    for i row db1 r policy x
    using new [OF that(1), of x] that(2) approvals_inv_untouched [OF _ untouched_cert] by simp
  then show ?thesis
    using inv by (auto simp: requestCertificateApproval_def Let_def split: option.split prod.split)
qed

lemma admit_sign_request_typed: "admit_sign_request env dto a db = Inr (Inr q) \<Longrightarrow> request_typed q"
  by (auto simp: admit_sign_request_def rbind_Inr_iff Let_def request_typed_def data_typed_def split: option.splits)

lemma requestToSign_inv: "approvals_inv db \<Longrightarrow> approvals_inv (snd (requestToSign env dto a db))"
  using createRequestFromPolicy_inv [of db _ "se_approvals env"] admit_sign_request_typed [of env dto a db]
  by (auto simp: requestToSign_def split: sum.split prod.split) (metis snd_conv)

section \<open>Approvals in advance keep the invariant\<close>

lemma pre_approved_simps [simp]:
  "rq_id (pre_approved_request env dto a s pid n w rid) = rid"
  "rq_type (pre_approved_request env dto a s pid n w rid) = CertCodeSigning"
  "rq_status (pre_approved_request env dto a s pid n w rid) = ApprovalRequestStatus.Approved"
  "rq_scopeType (pre_approved_request env dto a s pid n w rid) = Some ApprovalPolicyScope.Signer"
  "rq_requesterId (pre_approved_request env dto a s pid n w rid) = pa_granteeUserId dto"
  "data_typed (pre_approved_request env dto a s pid n w rid)"
  "gr_requestId (pre_approved_grant env dto s n w r) = Some (rq_id r)"
  "gr_granteeUserId (pre_approved_grant env dto s n w r) = pa_granteeUserId dto"
  "\<not> gr_isBreakGlass (pre_approved_grant env dto s n w r)"
  by (simp_all add: pre_approved_request_def pre_approved_grant_def data_typed_def Let_def split: prod.split)

lemma ids_ok_addRequest [inv_intros]: "ids_ok db \<Longrightarrow> rq_id r = db_next db \<Longrightarrow> ids_ok (addRequest r db)"
  by (fastforce simp: ids_ok_def addRequest_def)

lemma no_rows_yet:
  assumes "ids_ok db"
  shows "findRequestById db (db_next db) = None" "findStepsByRequestId db (db_next db) = []" "grantsOf db (db_next db) = []"
proof -
  show "findRequestById db (db_next db) = None"
    using assms by (fastforce simp: findRequestById_def find_None_iff ids_ok_def)
  have "filter (\<lambda>s. st_requestId s = db_next db) (db_steps db) = []"
    using assms by (fastforce simp: filter_empty_conv ids_ok_def)
  then show "findStepsByRequestId db (db_next db) = []" by (simp add: findStepsByRequestId_def)
  show "grantsOf db (db_next db) = []"
    using assms by (fastforce simp: grantsOf_def filter_empty_conv ids_ok_def)
qed

lemma addRequest_views:
  "findRequestById (addRequest r db) i =
     (case findRequestById db i of Some s \<Rightarrow> Some s | None \<Rightarrow> if i = rq_id r then Some r else None)"
  "findStepsByRequestId (addRequest r db) i = findStepsByRequestId db i" "grantsOf (addRequest r db) i = grantsOf db i"
  by (auto simp: findRequestById_def addRequest_def find_append findStepsByRequestId_def join_step_def [abs_def]
      grantsOf_def split: option.split)

lemma pre_approved_tables:
  fixes env :: signer_env and r :: request_row and g :: grant_row and db :: approval_db
  assumes ids: "ids_ok db" and r: "rq_id r = db_next db" and g: "gr_requestId g = Some (db_next db)"
  defines "db' \<equiv> snd (createGrant g (addRequest r db))"
  shows "only (db_next db) db db'" "ids_ok db'" "findRequestById db' (db_next db) = Some r"
    "findStepsByRequestId db' (db_next db) = []" "grantsOf db' (db_next db) = [g\<lparr>gr_id := Suc (db_next db)\<rparr>]"
proof -
  note new = no_rows_yet [OF ids]
  have nx: "db_next (addRequest r db) = Suc (db_next db)" by (simp add: addRequest_def)
  show "only (db_next db) db db'"
    using g r by (auto simp: only_def db'_def view_simps addRequest_views split: option.split)
  show "ids_ok db'"
    unfolding db'_def by (rule ids_ok_createGrant [OF ids_ok_addRequest [OF ids r] g]) (simp add: nx)
  show "findRequestById db' (db_next db) = Some r" "findStepsByRequestId db' (db_next db) = []"
    "grantsOf db' (db_next db) = [g\<lparr>gr_id := Suc (db_next db)\<rparr>]"
    using new r g by (simp_all add: db'_def view_simps addRequest_views nx)
qed

lemma preApproveSigning_tables:
  obtains "snd (preApproveSigning env dto a db) = db"
  | s pid n w where "snd (preApproveSigning env dto a db) =
      snd (createGrant (pre_approved_grant env dto s n w (pre_approved_request env dto a s pid n w (db_next db)))
        (addRequest (pre_approved_request env dto a s pid n w (db_next db)) db))"
proof (cases "pre_approve_check env dto a db")
  case (Inl e)
  then show ?thesis using that(1) by (simp add: preApproveSigning_def)
next
  case (Inr x)
  obtain s pid n w where "x = (s, pid, n, w)" by (cases x) auto
  with Inr show ?thesis using that(2) [of s n w pid]
    by (simp add: preApproveSigning_def Let_def case_prod_beta)
qed

lemma preApproveSigning_inv:
  assumes inv: "approvals_inv db"
  shows "approvals_inv (snd (preApproveSigning env dto a db))"
proof (cases rule: preApproveSigning_tables [of env dto a db])
  case 1
  with inv show ?thesis by simp
next
  case (2 s pid n w)
  let ?r = "pre_approved_request env dto a s pid n w (db_next db)"
  note tables = pre_approved_tables [OF approvals_invD(1) [OF inv], of ?r "pre_approved_grant env dto s n w ?r", simplified]
  show ?thesis
    unfolding 2 by (rule approvals_inv_only [OF inv tables(1,2)])
      (auto simp: tables(3-5) local_inv_def numbered_def all_completed_def all_enough_def in_advance_def grant_earned_def)
qed

section \<open>Everything else keeps it\<close>

lemma approvals_inv_map:
  assumes inv: "approvals_inv db" and "ids_ok db'"
    and "\<And>rid. findRequestById db' rid = map_option f (findRequestById db rid)"
    and "\<And>rid. findStepsByRequestId db' rid = findStepsByRequestId db rid"
    and "\<And>rid. grantsOf db' rid = map g (grantsOf db rid)"
    and "\<And>r ss gs. local_inv r ss gs \<Longrightarrow> local_inv (f r) ss (map g gs)"
  shows "approvals_inv db'"
  using assms by (auto simp: approvals_inv_def)

lemma find_map: "find P (map f xs) = map_option f (find (\<lambda>x. P (f x)) xs)"
  by (induction xs) auto

lemma local_inv_grants:
  assumes "local_inv r ss gs"
    and "\<And>x. gr_granteeUserId (g x) = gr_granteeUserId x" "\<And>x. gr_isBreakGlass (g x) = gr_isBreakGlass x"
    and "\<And>x. gr_status (g x) = ApprovalRequestGrantStatus.Active \<Longrightarrow> gr_status x = ApprovalRequestGrantStatus.Active"
  shows "local_inv r ss (map g gs)"
  using assms by (auto simp: local_inv_def grant_earned_def)

lemma approvals_inv_grants:
  assumes inv: "approvals_inv db"
    and g: "\<And>x. gr_requestId (g x) = gr_requestId x" "\<And>x. gr_granteeUserId (g x) = gr_granteeUserId x"
      "\<And>x. gr_isBreakGlass (g x) = gr_isBreakGlass x"
      "\<And>x. gr_status (g x) = ApprovalRequestGrantStatus.Active \<Longrightarrow> gr_status x = ApprovalRequestGrantStatus.Active"
  shows "approvals_inv (db\<lparr>db_grants := map g (db_grants db)\<rparr>)"
proof (rule approvals_inv_map [OF inv, where f = "\<lambda>r. r" and g = g])
  show "ids_ok (db\<lparr>db_grants := map g (db_grants db)\<rparr>)"
    using approvals_invD(1) [OF inv] g by (auto simp: ids_ok_def)
  show "findStepsByRequestId (db\<lparr>db_grants := map g (db_grants db)\<rparr>) rid = findStepsByRequestId db rid" for rid
    by (simp add: findStepsByRequestId_def join_step_def [abs_def])
  show "grantsOf (db\<lparr>db_grants := map g (db_grants db)\<rparr>) rid = map g (grantsOf db rid)" for rid
    using g by (simp add: grantsOf_def filter_map comp_def)
  show "local_inv r ss (map g gs)" if "local_inv r ss gs" for r ss gs
    by (rule local_inv_grants [OF that g(2,3,4)])
qed (simp add: findRequestById_def option.map_ident)

lemma revoke_row_simps [simp]:
  "gr_requestId (revoke_row now u reason g) = gr_requestId g"
  "gr_granteeUserId (revoke_row now u reason g) = gr_granteeUserId g"
  "gr_isBreakGlass (revoke_row now u reason g) = gr_isBreakGlass g"
  "gr_status (revoke_row now u reason g) = ApprovalRequestGrantStatus.Revoked"
  by (simp_all add: revoke_row_def)

lemma revokeGrant_inv: "approvals_inv db \<Longrightarrow> approvals_inv (snd (revokeGrant env gid reason a db))"
  by (auto simp: revokeGrant_def updateGrant_def split: option.split sum.split if_splits intro!: approvals_inv_grants)

lemma markExpiredGrants_inv: "approvals_inv db \<Longrightarrow> approvals_inv (markExpiredGrants now db)"
  unfolding markExpiredGrants_def by (rule approvals_inv_grants) (auto split: if_splits)

lemma approvals_inv_requests:
  assumes inv: "approvals_inv db" and f: "\<And>r. rq_id (f r) = rq_id r"
    and keep: "\<And>r ss gs. local_inv r ss gs \<Longrightarrow> local_inv (f r) ss gs"
  shows "approvals_inv (db\<lparr>db_requests := map f (db_requests db)\<rparr>)"
proof (rule approvals_inv_map [OF inv, where f = f and g = "\<lambda>g. g"])
  have "map rq_id (map f (db_requests db)) = map rq_id (db_requests db)" using f by simp
  then show "ids_ok (db\<lparr>db_requests := map f (db_requests db)\<rparr>)"
    using approvals_invD(1) [OF inv] f by (auto simp: ids_ok_def simp del: map_map)
  show "findStepsByRequestId (db\<lparr>db_requests := map f (db_requests db)\<rparr>) rid = findStepsByRequestId db rid" for rid
    by (simp add: findStepsByRequestId_def join_step_def [abs_def])
qed (auto simp: findRequestById_def grantsOf_def find_map f keep)

lemma markExpiredRequests_inv: "approvals_inv db \<Longrightarrow> approvals_inv (markExpiredRequests now db)"
  unfolding markExpiredRequests_def
  using local_inv_expire by (intro approvals_inv_requests) (auto simp: set_status_def)

lemma clear_policy_simps [simp]:
  "rq_id (clear_policy pid r) = rq_id r" "rq_status (clear_policy pid r) = rq_status r"
  "rq_currentStep (clear_policy pid r) = rq_currentStep r" "rq_type (clear_policy pid r) = rq_type r"
  "rq_requestData (clear_policy pid r) = rq_requestData r" "rq_requesterId (clear_policy pid r) = rq_requesterId r"
  "rq_scopeType (clear_policy pid r) = rq_scopeType r" "rq_scopeId (clear_policy pid r) = rq_scopeId r"
  by (simp_all add: clear_policy_def)

lemma all_enough_clear_policy [simp]:
  "all_enough (clear_policy pid r) ss = all_enough r ss" "grant_earned (clear_policy pid r) ss g = grant_earned r ss g"
  by (simp_all add: grant_earned_def all_enough_def in_advance_def)

lemma local_inv_clear_policy: "local_inv r ss gs \<Longrightarrow> local_inv (clear_policy pid r) ss gs"
proof -
  have "data_typed (clear_policy pid r) = data_typed r" by (simp add: data_typed_def split: request_data.split)
  then show "local_inv r ss gs \<Longrightarrow> local_inv (clear_policy pid r) ss gs"
    by (simp add: local_inv_def)
qed

text \<open>Withdrawing a request of a signer.\<close>

lemma withdraw_simps [simp]:
  "gr_requestId (withdraw_grant now a g) = gr_requestId g" "gr_granteeUserId (withdraw_grant now a g) = gr_granteeUserId g"
  "gr_isBreakGlass (withdraw_grant now a g) = gr_isBreakGlass g"
  "gr_status (withdraw_grant now a g) = ApprovalRequestGrantStatus.Revoked"
  by (simp_all add: withdraw_grant_def)

lemma withdraw_request_inv:
  assumes inv: "approvals_inv db" and r: "findRequestById db rid = Some r"
  shows "approvals_inv (withdraw_request now a rid db)"
proof -
  let ?g = "\<lambda>g. if gr_requestId g = Some rid \<and> gr_status g = ApprovalRequestGrantStatus.Active
           then withdraw_grant now a g else g"
  let ?db1 = "db\<lparr>db_grants := map ?g (db_grants db)\<rparr>"
  have inv1: "approvals_inv ?db1" by (rule approvals_inv_grants [OF inv]) (auto split: if_splits)
  have r1: "findRequestById ?db1 rid = Some r" using r by (simp add: findRequestById_def)
  have "gr_status g \<noteq> ApprovalRequestGrantStatus.Active" if "g \<in> set (grantsOf ?db1 rid)" for g
    using that by (auto simp: grantsOf_def split: if_splits)
  with approvals_invD(2) [OF inv1 r1]
  have "local_inv (set_status ApprovalRequestStatus.Cancelled r) (findStepsByRequestId ?db1 rid) (grantsOf ?db1 rid)"
    by (simp add: local_inv_def)
  then show ?thesis
    unfolding withdraw_request_def using r1
    by (intro approvals_inv_only [OF inv1 only_updateRequest] ids_ok_updateRequest approvals_invD(1) [OF inv1])
      (auto simp: view_simps)
qed

lemma revoke_check_found:
  "revoke_check env sid rid a db = Inr r \<Longrightarrow> findRequestById db rid = Some r \<and> rq_scopeId r \<noteq> None"
  by (auto simp: revoke_check_def rbind_Inr_iff split: option.splits if_splits)

lemma revokeRequest_inv: "approvals_inv db \<Longrightarrow> approvals_inv (snd (revokeRequest env sid rid a db))"
  by (auto simp: revokeRequest_def split: sum.split dest: revoke_check_found intro: withdraw_request_inv)

lemma expire_grant_inv: "approvals_inv db \<Longrightarrow> approvals_inv (expire_grant gid db)"
  by (auto simp: expire_grant_def updateGrant_def split: if_splits intro!: approvals_inv_grants)

lemma untouched_policy_writes [simp]:
  "untouched db (insert_bypassers pid bs db)" "untouched db (delete_policy_steps pid db)"
  "untouched db (delete_bypassers pid db)" "untouched db (db\<lparr>db_policies := x\<rparr>)"
  by (simp_all add: untouched_def insert_bypassers_def delete_policy_steps_def delete_bypassers_def Let_def)

lemma untouched_insert_steps [simp]: "untouched db (insert_policy_steps pid n ss db)"
proof (induction ss arbitrary: n db)
  case (Cons s ss)
  let ?db1 = "db\<lparr>db_policySteps := db_policySteps db @ [\<lparr>psr_id = db_next db, psr_policyId = pid, psr_stepNumber = n,
      psr_name = ps_name s, psr_requiredApprovals = ps_requiredApprovals s, psr_notifyApprovers = ps_notifyApprovers s\<rparr>],
      db_policyApprovers := db_policyApprovers db @ map (row_of_approver (db_next db)) (ps_approvers s),
      db_next := Suc (db_next db)\<rparr>"
  have "untouched db ?db1" by (simp add: untouched_def)
  with Cons.IH [of ?db1 "Suc n"] show ?case using untouched_trans by simp
qed simp

lemma untouched_replace [simp]: "untouched db (replace_steps pid ss db)" "untouched db (replace_bypassers pid bs db)"
  using untouched_trans [OF untouched_policy_writes(2) untouched_insert_steps]
    untouched_trans [OF untouched_policy_writes(3) untouched_policy_writes(1)]
  by (auto simp: replace_steps_def replace_bypassers_def split: option.split)

lemma createPolicy_untouched: "untouched db (snd (createPolicy env t dto a db))"
proof -
  have "untouched db (insert_bypassers pid bs (insert_policy_steps pid 1 ss (db\<lparr>db_policies := ps, db_next := Suc (db_next db)\<rparr>)))"
    for pid bs ss ps
    by (rule untouched_trans [OF untouched_trans [OF _ untouched_insert_steps] untouched_policy_writes(1)])
      (simp add: untouched_def)
  then show ?thesis by (auto simp: createPolicy_def Let_def split: sum.split)
qed

lemma updatePolicy_untouched: "untouched db (snd (updatePolicyById env pid dto a db))"
proof -
  have "untouched db (replace_bypassers pid bs (replace_steps pid ss (db\<lparr>db_policies := ps\<rparr>)))" for bs ss ps
    by (rule untouched_trans [OF untouched_trans [OF _ untouched_replace(1)] untouched_replace(2)]) simp
  then show ?thesis by (auto simp: updatePolicyById_def Let_def split: sum.split option.split)
qed

lemma removals_untouched [simp]:
  "untouched db (snd (deleteStepApproversBySubject projectId options userId groupId db))"
  "untouched db (deleteUserStepApproversInProjects projectIds userIds scopeTypes db)"
  by (simp_all add: deleteStepApproversBySubject_def deleteUserStepApproversInProjects_def untouched_def Let_def)

lemma deletePolicy_inv:
  assumes inv: "approvals_inv db"
  shows "approvals_inv (snd (deletePolicyById env pid a db))"
proof -
  let ?db1 = "delete_bypassers pid (delete_policy_steps pid db)"
  have "approvals_inv (?db1\<lparr>db_policies := ps\<rparr>)" for ps
    by (rule approvals_inv_untouched [OF inv], rule untouched_trans [OF untouched_trans [OF
        untouched_policy_writes(2) untouched_policy_writes(3)] untouched_policy_writes(4)])
  from approvals_inv_requests [OF this, of "clear_policy pid"]
  have "approvals_inv (?db1\<lparr>db_policies := ps, db_requests := map (clear_policy pid) (db_requests ?db1)\<rparr>)" for ps
    using local_inv_clear_policy by simp
  with inv show ?thesis by (simp add: deletePolicyById_def Let_def split: option.split sum.split)
qed

section \<open>Runs\<close>

inductive approval_step :: "approval_db \<Rightarrow> approval_db \<Rightarrow> bool" where
  created: "approval_step db (snd (createRequest env t dto a db))"
| created_for_certificate: "approval_step db (snd (requestCertificateApproval env c db))"
| signing_requested: "approval_step db (snd (requestToSign senv sdto a db))"
| signing_pre_approved: "approval_step db (snd (preApproveSigning senv padto a db))"
| signer_request_revoked: "approval_step db (snd (revokeRequest senv sid rid a db))"
| grant_used_up: "approval_step db (expire_grant gid db)"
| approved: "approval_step db (snd (approveRequest env rid comment bypassReason a t db))"
| rejected: "approval_step db (snd (rejectRequest env rid comment a db))"
| cancelled: "approval_step db (snd (cancelRequest env rid a db))"
| revoked: "approval_step db (snd (revokeGrant env gid reason a db))"
| policy_created: "approval_step db (snd (createPolicy env t pdto a db))"
| policy_updated: "approval_step db (snd (updatePolicyById env pid udto a db))"
| policy_deleted: "approval_step db (snd (deletePolicyById env pid a db))"
| approvers_removed: "approval_step db (snd (deleteStepApproversBySubject projectId options userId groupId db))"
| users_removed: "approval_step db (deleteUserStepApproversInProjects projectIds userIds scopeTypes db)"
| requests_expired: "approval_step db (markExpiredRequests now db)"
| grants_expired: "approval_step db (markExpiredGrants now db)"

inductive approval_run :: "approval_db \<Rightarrow> approval_db \<Rightarrow> bool" where
  no_step: "approval_run db db"
| more: "approval_run db db1 \<Longrightarrow> approval_step db1 db2 \<Longrightarrow> approval_run db db2"

definition reachable_approvals :: "approval_db \<Rightarrow> bool" where
  "reachable_approvals db \<longleftrightarrow> approval_run empty_db db"

lemmas operations_inv = createRequest_inv requestCertificateApproval_inv requestToSign_inv preApproveSigning_inv
  revokeRequest_inv expire_grant_inv approveRequest_inv rejectRequest_inv
  cancelRequest_inv revokeGrant_inv approvals_inv_untouched [OF _ createPolicy_untouched]
  approvals_inv_untouched [OF _ updatePolicy_untouched] approvals_inv_untouched [OF _ removals_untouched(1)]
  approvals_inv_untouched [OF _ removals_untouched(2)] deletePolicy_inv markExpiredRequests_inv markExpiredGrants_inv

lemma approval_step_inv: "approval_step db db' \<Longrightarrow> approvals_inv db \<Longrightarrow> approvals_inv db'"
  by (induction rule: approval_step.induct) (simp_all add: operations_inv)

lemma approval_run_inv: "approval_run db db' \<Longrightarrow> approvals_inv db \<Longrightarrow> approvals_inv db'"
  by (induction rule: approval_run.induct) (simp_all add: approval_step_inv)

lemma reachable_inv: "reachable_approvals db \<Longrightarrow> approvals_inv db"
  using approval_run_inv approvals_inv_empty by (auto simp: reachable_approvals_def)

lemma reachable_step: "reachable_approvals db \<Longrightarrow> approval_step db db' \<Longrightarrow> reachable_approvals db'"
  by (auto simp: reachable_approvals_def intro: approval_run.more)

lemma reachable_empty [simp]: "reachable_approvals empty_db"
  by (simp add: reachable_approvals_def approval_run.no_step)

end
