(* ===== verification/ApprovalProperties.thy ===== *)
theory ApprovalProperties
  imports ApprovalRuns
begin

text \<open>
  The properties of approval requests: what every reachable state satisfies (grants, types, statuses),
  the refinement of an approval to a step of a counter, its errors, and the liveness of requests that
  have enough approvers.
\<close>

section \<open>A sample run\<close>

definition sample_env :: approval_env where
  "sample_env = \<lparr>e_now = 100, e_ms = (\<lambda>_. 60), e_picomatch = (=), e_redact = (\<lambda>c. c), e_issueCertificate = (\<lambda>_. None),
     e_userGroups = (\<lambda>_ _. []), e_groupMembers = (\<lambda>_. []),
     e_projectMemberships = (\<lambda>_ us. map (\<lambda>u. (''p'', u)) us), e_applicationMembers = (\<lambda>_ _. []),
     e_application = (\<lambda>_. None), e_projectPermission = (\<lambda>_ _. Inr (\<lambda>_ _ _. True)),
     e_isProjectAdmin = (\<lambda>_ _. True), e_resourcePermission = (\<lambda>_ _ _. Inr (\<lambda>_ _ _. True))\<rparr>"

definition by_user :: "string \<Rightarrow> actor" where
  "by_user u = \<lparr>ac_type = UserActor, ac_id = u, ac_orgId = ''o''\<rparr>"

definition user_approver :: "string \<Rightarrow> approver" where
  "user_approver u = \<lparr>ap_type = ApproverType.User, ap_id = u\<rparr>"

definition sample_step :: "nat \<Rightarrow> string list \<Rightarrow> policy_step" where
  "sample_step n us = \<lparr>ps_name = None, ps_requiredApprovals = n, ps_notifyApprovers = None,
     ps_approvers = map user_approver us\<rparr>"

text \<open>A policy for privileged access with the given steps, and a request of user u under it. The policy
  and its steps take the first ids, the request the next one.\<close>

definition policy_with :: "policy_step list \<Rightarrow> create_policy_dto" where
  "policy_with ss = \<lparr>cp_scope = ApprovalPolicyScope.Project, cp_scopeId = ''p'', cp_name = ''n'', cp_maxRequestTtl = None,
     cp_conditions = PamConditions [\<lparr>resourceNames = Some [''db''], accountNames = None\<rparr>],
     cp_constraints = PamConstraints ''1h'' ''2h'', cp_steps = ss, cp_bypassForMachineIdentities = None,
     cp_enforcementLevel = None, cp_bypassers = None\<rparr>"

definition asks_for_db :: create_request_dto where
  "asks_for_db = \<lparr>cd_scope = ApprovalPolicyScope.Project, cd_scopeId = ''p'', cd_requestData = PamData (wants ''db''),
     cd_requestDuration = Some ''1h'', cd_justification = None, cd_requesterName = ''U'', cd_requesterEmail = ''u@o'',
     cd_machineIdentityId = None\<rparr>"

definition requested_under :: "policy_step list \<Rightarrow> approval_db" where
  "requested_under ss = snd (createRequest sample_env PamAccess asks_for_db (by_user ''u'')
     (snd (createPolicy sample_env PamAccess (policy_with ss) (by_user ''x'') empty_db)))"

definition sample_created :: approval_db where
  "sample_created = requested_under [sample_step 2 [''a'', ''b''], sample_step 1 [''c'']]"

definition user_approves :: "approval_env \<Rightarrow> nat \<Rightarrow> ApprovalPolicyType \<Rightarrow> string \<Rightarrow> string \<Rightarrow> approval_db \<Rightarrow> approval_db" where
  "user_approves env rid t orgId u db =
     snd (approveRequest env rid None None \<lparr>ac_type = UserActor, ac_id = u, ac_orgId = orgId\<rparr> t db)"

definition sample_approved :: approval_db where
  "sample_approved = fold (user_approves sample_env 4 PamAccess ''o'') [''a'', ''b'', ''c''] sample_created"

lemma reachable_requested: "reachable_approvals (requested_under ss)"
  unfolding requested_under_def
  by (rule reachable_step [OF reachable_step [OF reachable_empty approval_step.policy_created] approval_step.created])

lemma reachable_created: "reachable_approvals sample_created"
  unfolding sample_created_def by (rule reachable_requested)

lemma reachable_user_approves: "reachable_approvals db \<Longrightarrow> reachable_approvals (user_approves env rid t orgId u db)"
  unfolding user_approves_def using reachable_step approval_step.approved by blast

lemma reachable_fold_approves:
  "reachable_approvals db \<Longrightarrow> reachable_approvals (fold (user_approves env rid t orgId) us db)"
  by (induction us arbitrary: db) (simp_all add: reachable_user_approves)

lemma reachable_sample: "reachable_approvals sample_approved"
  unfolding sample_approved_def by (intro reachable_fold_approves reachable_created)

section \<open>Grants are earned\<close>

text \<open>
  C2: In every state reached by calls that do not overlap, every grant was earned: it names a stored
  request, is its only grant and belongs to the requester; all steps of the request are completed; and
  the requester of a privileged access broke the glass, or at least the required number of different
  users approved each step, or the request has no steps: then it is for signings of a signer, approved
  in advance by one who may. A grant of a cancelled request is not active.
\<close>

theorem grants_are_earned:
  assumes "reachable_approvals db" "g \<in> set (db_grants db)"
  shows "\<exists>rid r. gr_requestId g = Some rid \<and> findRequestById db rid = Some r \<and> grantsOf db rid = [g] \<and>
    gr_granteeUserId g = rq_requesterId r \<and>
    (\<forall>v \<in> set (findStepsByRequestId db rid). st_status v = ApprovalRequestStepStatus.Completed) \<and>
    (if gr_isBreakGlass g then rq_type r = PamAccess \<and> rq_requesterId r \<noteq> None
     else if findStepsByRequestId db rid = [] then rq_type r = CertCodeSigning \<and> rq_scopeType r = Some ApprovalPolicyScope.Signer
     else (\<forall>v \<in> set (findStepsByRequestId db rid). st_requiredApprovals v \<le> card (approved_by v))) \<and>
    (rq_status r = ApprovalRequestStatus.Cancelled \<longrightarrow> gr_status g \<noteq> ApprovalRequestGrantStatus.Active)"
proof -
  note inv = reachable_inv [OF assms(1)]
  obtain rid where rid: "gr_requestId g = Some rid"
    using approvals_invD(1) [OF inv] assms(2) by (auto simp: ids_ok_def)
  then have g: "g \<in> set (grantsOf db rid)" using assms(2) by (simp add: grantsOf_def)
  then obtain r where r: "findRequestById db rid = Some r" using approvals_invD(3) [OF inv] by fastforce
  note l = approvals_invD(2) [OF inv r]
  with g have "grantsOf db rid = [g]" by (cases "grantsOf db rid") (auto simp: local_inv_def)
  moreover have "grant_earned r (findStepsByRequestId db rid) g"
    "rq_status r = ApprovalRequestStatus.Cancelled \<Longrightarrow> gr_status g \<noteq> ApprovalRequestGrantStatus.Active"
    using l g by (simp_all add: local_inv_def)
  ultimately show ?thesis
    using rid r by (auto simp: grant_earned_def all_completed_def all_enough_def in_advance_def enough_def)
qed

text \<open>A signer, whose grants are approved in advance.\<close>

definition sample_signers :: signer_env where
  "sample_signers = \<lparr>se_approvals = sample_env, se_ms = (\<lambda>_. Some 60),
     se_signers = (\<lambda>s. if s = ''s'' then Some \<lparr>sn_id = ''s'', sn_name = ''S'', sn_projectId = ''p'',
        sn_approvalPolicyId = Some 1\<rparr> else None),
     se_permission = (\<lambda>_ _ _. Inr (\<lambda>_ _ _. True)),
     se_members = (\<lambda>_ _. [\<lparr>mb_id = 1, mb_userId = Some ''u'', mb_identityId = None, mb_groupId = None\<rparr>]),
     se_roles = [(1, Some ''operator'')], se_userGroups = (\<lambda>_. []), se_identityGroups = (\<lambda>_. []),
     se_users = (\<lambda>_. None), se_identities = (\<lambda>_. None)\<rparr>"

definition in_advance_dto :: pre_approve_dto where
  "in_advance_dto = \<lparr>pa_signerId = ''s'', pa_granteeUserId = Some ''u'', pa_granteeIdentityId = None,
     pa_justification = [], pa_requestedSignings = Some 2, pa_requestedWindowDuration = None, pa_scope = None\<rparr>"

definition sample_in_advance :: approval_db where
  "sample_in_advance = snd (preApproveSigning sample_signers in_advance_dto (by_user ''m'') sample_approved)"

lemma reachable_in_advance: "reachable_approvals sample_in_advance"
  unfolding sample_in_advance_def by (rule reachable_step [OF reachable_sample approval_step.signing_pre_approved])

lemma grants_are_earned_witness:
  "map gr_requestId (db_grants sample_in_advance) = [Some 4, Some 8] \<and>
   list_all (\<lambda>v. st_requiredApprovals v \<le> card (approved_by v)) (findStepsByRequestId sample_in_advance 4) \<and>
   map_option rq_type (findRequestById sample_in_advance 8) = Some CertCodeSigning"
proof -
  have run: "map gr_requestId (db_grants sample_in_advance) = [Some 4, Some 8]"
    "map gr_isBreakGlass (db_grants sample_in_advance) = [False, False]"
    "findStepsByRequestId sample_in_advance 4 \<noteq> []" "findStepsByRequestId sample_in_advance 8 = []"
    by code_simp+
  then obtain g h where gh: "db_grants sample_in_advance = [g, h]" "gr_requestId g = Some 4" "gr_requestId h = Some 8"
      "\<not> gr_isBreakGlass g" "\<not> gr_isBreakGlass h"
    by (auto simp: map_eq_Cons_conv)
  then have "g \<in> set (db_grants sample_in_advance)" "h \<in> set (db_grants sample_in_advance)" by simp_all
  from this [THEN grants_are_earned [OF reachable_in_advance]] show ?thesis
    using run gh by (auto simp: list_all_iff)
qed

section \<open>Statuses only advance\<close>

definition advances :: "request_row \<Rightarrow> request_row \<Rightarrow> bool" where
  "advances r r' \<longleftrightarrow> rq_id r' = rq_id r \<and> rq_type r' = rq_type r \<and> rq_requestData r' = rq_requestData r \<and>
     rq_requesterId r' = rq_requesterId r \<and> rq_machineIdentityId r' = rq_machineIdentityId r \<and>
     rq_organizationId r' = rq_organizationId r \<and> rq_projectId r' = rq_projectId r \<and>
     rq_scopeType r' = rq_scopeType r \<and> rq_scopeId r' = rq_scopeId r \<and>
     rq_currentStep r \<le> rq_currentStep r' \<and>
     (rq_status r' = rq_status r \<or> rq_status r = ApprovalRequestStatus.Pending \<or> rq_status r' = ApprovalRequestStatus.Expired \<or>
      (rq_status r' = ApprovalRequestStatus.Cancelled \<and> rq_scopeId r \<noteq> None))"

definition evolves :: "approval_db \<Rightarrow> approval_db \<Rightarrow> bool" where
  "evolves db db' \<longleftrightarrow> (\<forall>rid r. findRequestById db rid = Some r \<longrightarrow>
     (\<exists>r'. findRequestById db' rid = Some r' \<and> advances r r'))"

lemma advances_refl [simp]: "advances r r"
  by (simp add: advances_def)

lemma advances_trans: "advances r s \<Longrightarrow> advances s t \<Longrightarrow> advances r t"
  by (auto simp: advances_def)

lemma advances_set_status:
  "rq_status r = ApprovalRequestStatus.Pending \<or> st = ApprovalRequestStatus.Expired \<or>
     (st = ApprovalRequestStatus.Cancelled \<and> rq_scopeId r \<noteq> None) \<Longrightarrow> advances r (set_status st r)"
  by (auto simp: advances_def set_status_def)

lemma advances_advance: "rq_currentStep r \<le> n \<Longrightarrow> advances r (advance_request n r)"
  by (simp add: advances_def advance_request_def)

lemma evolves_same: "(\<And>i. findRequestById db' i = findRequestById db i) \<Longrightarrow> evolves db db'"
  by (simp add: evolves_def)

lemma evolves_refl [simp]: "evolves db db"
  by (simp add: evolves_same)

lemma evolves_trans: "evolves db db1 \<Longrightarrow> evolves db1 db2 \<Longrightarrow> evolves db db2"
  unfolding evolves_def by (meson advances_trans)

lemma evolves_untouched: "untouched db db' \<Longrightarrow> evolves db db'"
  using untouched_views(1) by (intro evolves_same) blast

lemma evolves_only:
  assumes "only rid db db'" "\<And>r. findRequestById db rid = Some r \<Longrightarrow> \<exists>r'. findRequestById db' rid = Some r' \<and> advances r r'"
  shows "evolves db db'"
  unfolding evolves_def
proof (intro allI impI)
  fix i r assume r: "findRequestById db i = Some r"
  show "\<exists>r'. findRequestById db' i = Some r' \<and> advances r r'"
    using assms r by (cases "i = rid") (auto simp: only_def)
qed

lemma evolves_set_status:
  assumes "findRequestById db rid = Some r" "rq_status r = ApprovalRequestStatus.Pending \<or> st = ApprovalRequestStatus.Expired \<or>
     (st = ApprovalRequestStatus.Cancelled \<and> rq_scopeId r \<noteq> None)"
  shows "evolves db (updateRequest rid (set_status st) db)"
  using assms advances_set_status by (intro evolves_only [OF only_updateRequest]) (auto simp: view_simps)

lemma evolves_map_requests:
  assumes "\<And>r. rq_id (f r) = rq_id r" "\<And>r. advances r (f r)"
  shows "evolves db (db\<lparr>db_requests := map f (db_requests db)\<rparr>)"
  using assms by (auto simp: evolves_def findRequestById_def find_map)

lemma postApproval_views:
  "findRequestById (snd (postApprovalRoutine env r db)) i = findRequestById db i"
  "findStepsByRequestId (snd (postApprovalRoutine env r db)) i = findStepsByRequestId db i"
  by (simp_all add: postApprovalRoutine_def pam_routine.keeps_requests cert_routine.keeps_requests
      signing_routine.keeps_requests pam_routine.keeps_steps cert_routine.keeps_steps signing_routine.keeps_steps
      split: ApprovalPolicyType.split request_data.split)

lemma approve_finish_views:
  "findRequestById (snd (approve_finish env a rid cur nxt db)) i = findRequestById db i"
  "findStepsByRequestId (snd (approve_finish env a rid cur nxt db)) i = findStepsByRequestId db i"
proof -
  define db1 where "db1 = (case nxt of
      Some n \<Rightarrow> if completes cur then notifyStepApprovers env (sv_approvers n) rid db else db | None \<Rightarrow> db)"
  have u: "untouched db db1" by (simp add: db1_def split: option.split)
  have "findRequestById (snd (approve_finish env a rid cur nxt db)) i = findRequestById db1 i"
    "findStepsByRequestId (snd (approve_finish env a rid cur nxt db)) i = findStepsByRequestId db1 i"
    using postApproval_views(1) [of env _ db1 i] postApproval_views(2) [of env _ db1 i]
    by (auto simp: approve_finish_def db1_def [symmetric] split: option.split sum.split prod.split) (metis snd_conv)+
  then show "findRequestById (snd (approve_finish env a rid cur nxt db)) i = findRequestById db i"
    "findStepsByRequestId (snd (approve_finish env a rid cur nxt db)) i = findStepsByRequestId db i"
    using untouched_views [OF u] by simp_all
qed

lemma approve_standard_evolves:
  assumes r: "findRequestById db rid = Some r"
  shows "evolves db (snd (approve_standard env r comment a t db))"
proof (cases "approve_check env r a t (findStepsByRequestId db rid)")
  case (Inl e)
  with findRequestById_id [OF r] show ?thesis by (simp add: approve_standard_def)
next
  case (Inr cn)
  obtain cur nxt where cn: "cn = (cur, nxt)" by (cases cn)
  have rid: "rq_id r = rid" using r findRequestById_id by blast
  have "advances r (approved_row r cur nxt)"
    using approve_check_ok(1) [OF Inr [unfolded cn]] advances_advance advances_set_status
    by (simp add: approved_row_def split: option.split)
  moreover have "findRequestById (approve_write now r cur nxt u comment db) i = findRequestById db i" if "i \<noteq> rid" for i now u
    using that rid by (simp add: approve_write_def Let_def view_simps split: option.split)
  ultimately have "evolves db (approve_write now r cur nxt u comment db)" for now u
    unfolding evolves_def using r approve_write_view(1) [OF r rid] by (metis advances_refl option.sel)
  moreover have "evolves (approve_write now r cur nxt u comment db)
      (snd (approve_finish env a rid cur nxt (approve_write now r cur nxt u comment db)))" for now u
    by (rule evolves_same) (rule approve_finish_views)
  ultimately show ?thesis
    by (simp add: approve_standard_def rid Inr cn) (rule evolves_trans)
qed

lemma break_glass_evolves:
  assumes ids: "ids_ok db" and r: "findRequestById db rid = Some r"
  shows "evolves db (snd (approveRequestBreakGlass env r a policy reason db))"
proof -
  have "evolves db (snd (break_glass_write env r a d reason db))" for d
  proof (cases "rq_status r = ApprovalRequestStatus.Pending \<and> \<not> expired (e_now env) r")
    case False
    with r findRequestById_id [OF r] show ?thesis by (auto simp: break_glass_write_def)
  next
    case True
    then have go: "rq_status r = ApprovalRequestStatus.Pending" "\<not> expired (e_now env) r" by auto
    note tables = break_glass_tables [OF ids r go, of a d reason]
    show ?thesis
      using evolves_only [OF tables(1)] tables(3) r advances_set_status go(1) by auto
  qed
  then have w: "evolves db db1" if "break_glass_write env r a d reason db = (res, db1)" for d res db1
    using that by (metis snd_conv)
  have "evolves db (db1\<lparr>db_outbox := x\<rparr>)" if "evolves db db1" for db1 x
    using evolves_trans [OF that evolves_untouched [OF untouched_outbox]] .
  then show ?thesis
    using w by (auto simp: approveRequestBreakGlass_def Let_def split: sum.split prod.split)
qed

lemma approveRequest_evolves:
  assumes "ids_ok db"
  shows "evolves db (snd (approveRequest env rid comment bypassReason a t db))"
proof (cases "findRequestById db rid")
  case None
  then show ?thesis by (simp add: approveRequest_def)
next
  case (Some r)
  have "evolves db (updateRequest rid (set_status ApprovalRequestStatus.Expired) db)"
    using evolves_set_status [OF Some] by blast
  moreover have "evolves db db1" if "approve_standard env r comment a t db = (res, db1)" for res db1
    using approve_standard_evolves [OF Some, of env comment a t] that by simp
  moreover have "evolves db db1" if "approveRequestBreakGlass env r a policy reason db = (res, db1)" for policy reason res db1
    using break_glass_evolves [OF assms Some, of env a policy reason] that by simp
  ultimately show ?thesis
    using Some by (auto simp: approveRequest_def split: option.split prod.split)
qed

lemma rejectRequest_evolves: "evolves db (snd (rejectRequest env rid comment a db))"
proof (cases "findRequestById db rid")
  case None
  then show ?thesis by (simp add: rejectRequest_def)
next
  case (Some r)
  have rid: "rq_id r = rid" using Some findRequestById_id by blast
  have "evolves db (updateRequest rid (set_status ApprovalRequestStatus.Expired) db)"
    using evolves_set_status [OF Some] by blast
  moreover have "evolves db (snd (reject_finish env a rid (reject_write r cur u comment db)))"
    if "rq_status r = ApprovalRequestStatus.Pending" for cur u
  proof -
    have "evolves db (reject_write r cur u comment db)"
      unfolding reject_write_def rid
      by (rule evolves_trans [OF evolves_same evolves_set_status])
        (use Some that in \<open>auto simp: view_simps\<close>)
    moreover have "untouched db1 (snd (postRejectionRoutine r1 db1))" for db1 r1
      by (auto simp: postRejectionRoutine_def split: ApprovalPolicyType.split request_data.split)
    then have "untouched db1 (snd (reject_finish env a rid db1))" for db1
      by (auto simp: reject_finish_def split: option.split sum.split prod.split) (metis snd_conv)+
    ultimately show ?thesis using evolves_trans evolves_untouched by blast
  qed
  ultimately show ?thesis
    using Some by (auto simp: rejectRequest_def split: option.split)
qed

lemma cancelRequest_evolves: "evolves db (snd (cancelRequest env rid a db))"
  using evolves_set_status [of db rid] by (simp add: cancelRequest_def Let_def split: option.split)

lemma createRequestFromPolicy_evolves:
  assumes "ids_ok db"
  shows "evolves db (snd (createRequestFromPolicy env q db))"
proof -
  note tables = created_tables [OF assms, where now = "e_now env" and q = q]
  have "findRequestById db (db_next db) = None"
    using assms by (fastforce simp: findRequestById_def find_None_iff ids_ok_def)
  with evolves_only [OF tables(1)] have "evolves db (snd (createApprovalRequestWithSteps (e_now env) q db))" by simp
  then show ?thesis using createRequestFromPolicy_untouched evolves_untouched evolves_trans by blast
qed

lemma createRequest_evolves: "ids_ok db \<Longrightarrow> evolves db (snd (createRequest env t dto a db))"
  using createRequestFromPolicy_evolves [of db env]
  by (auto simp: createRequest_def split: sum.split prod.split) (metis snd_conv)

lemma requestCertificateApproval_evolves:
  assumes "ids_ok db"
  shows "evolves db (snd (requestCertificateApproval env c db))"
proof -
  have "evolves db db1"
    if "createRequestFromPolicy env q (db\<lparr>db_certRequests := x\<rparr>) = (r, db1)" for q x r db1
  proof -
    have "evolves (db\<lparr>db_certRequests := x\<rparr>) db1"
      using createRequestFromPolicy_evolves [OF untouched_views(4) [OF untouched_cert_rows assms], where env = env and q = q] that
      by (metis snd_conv)
    then show ?thesis by (rule evolves_trans [OF evolves_untouched [OF untouched_cert_rows]])
  qed
  then have "evolves db (set_cert_request i row db1)"
    if "createRequestFromPolicy env q (db\<lparr>db_certRequests := x\<rparr>) = (r, db1)" for q x r db1 i row
    using that evolves_trans evolves_untouched [OF untouched_cert] by blast
  then show ?thesis
    by (auto simp: requestCertificateApproval_def Let_def split: option.split prod.split)
qed

lemma requestToSign_evolves: "ids_ok db \<Longrightarrow> evolves db (snd (requestToSign env dto a db))"
  using createRequestFromPolicy_evolves [of db "se_approvals env"]
  by (auto simp: requestToSign_def split: sum.split prod.split) (metis snd_conv)

lemma preApproveSigning_evolves:
  assumes "ids_ok db"
  shows "evolves db (snd (preApproveSigning env dto a db))"
proof (cases rule: preApproveSigning_tables [of env dto a db])
  case (2 s pid n w)
  let ?r = "pre_approved_request env dto a s pid n w (db_next db)"
  note tables = pre_approved_tables [OF assms, of ?r "pre_approved_grant env dto s n w ?r", simplified]
  show ?thesis
    unfolding 2 using evolves_only [OF tables(1)] no_rows_yet(1) [OF assms] by simp
qed simp

lemma revokeRequest_evolves: "evolves db (snd (revokeRequest env sid rid a db))"
proof -
  have "evolves db (withdraw_request now a rid db)" if r: "findRequestById db rid = Some r" "rq_scopeId r \<noteq> None" for now r
  proof -
    have "evolves (db\<lparr>db_grants := gs\<rparr>) (updateRequest rid (set_status ApprovalRequestStatus.Cancelled) (db\<lparr>db_grants := gs\<rparr>))" for gs
      using r by (intro evolves_set_status [of _ _ r]) (auto simp: findRequestById_def)
    moreover have "evolves db (db\<lparr>db_grants := gs\<rparr>)" for gs by (rule evolves_same) (simp add: findRequestById_def)
    ultimately show ?thesis unfolding withdraw_request_def using evolves_trans by blast
  qed
  then show ?thesis by (auto simp: revokeRequest_def split: sum.split dest: revoke_check_found)
qed

lemma deletePolicy_evolves: "evolves db (snd (deletePolicyById env pid a db))"
proof -
  let ?db1 = "delete_bypassers pid (delete_policy_steps pid db)"
  have "advances r (clear_policy pid r)" for r by (simp add: clear_policy_def advances_def)
  then have m: "evolves db1 (db1\<lparr>db_requests := map (clear_policy pid) (db_requests db1)\<rparr>)" for db1
    by (intro evolves_map_requests) simp_all
  have "evolves db (?db1\<lparr>db_policies := ps\<rparr>)" for ps
    by (rule evolves_untouched [OF untouched_trans [OF untouched_trans [OF
        untouched_policy_writes(2) untouched_policy_writes(3)] untouched_policy_writes(4)]])
  from evolves_trans [OF this m]
  have "evolves db (?db1\<lparr>db_policies := ps, db_requests := map (clear_policy pid) (db_requests ?db1)\<rparr>)" for ps
    by simp
  then show ?thesis by (simp add: deletePolicyById_def Let_def split: option.split sum.split)
qed

lemma approval_step_evolves:
  assumes "approval_step db db'" "ids_ok db"
  shows "evolves db db'"
  using assms
proof (induction rule: approval_step.induct)
  case (revoked db env gid reason a)
  show ?case by (rule evolves_same) (simp add: revokeGrant_def view_simps split: option.split sum.split)
next
  case (grant_used_up db gid)
  show ?case by (rule evolves_same) (simp add: expire_grant_def view_simps)
next
  case (requests_expired db now)
  show ?case unfolding markExpiredRequests_def
    by (rule evolves_map_requests) (auto simp: advances_def)
next
  case (grants_expired db now)
  show ?case by (rule evolves_same) (simp add: markExpiredGrants_def findRequestById_def)
qed (simp_all add: createRequest_evolves requestCertificateApproval_evolves requestToSign_evolves
    preApproveSigning_evolves revokeRequest_evolves approveRequest_evolves rejectRequest_evolves cancelRequest_evolves deletePolicy_evolves evolves_untouched createPolicy_untouched updatePolicy_untouched)

text \<open>
  C22: Along every run of calls that do not overlap a request is never lost and keeps its requester, its
  kind, its data and its scope; its step never goes back; its status leaves \<open>pending\<close> at most once, and
  a decided request (approved, rejected, cancelled, expired) can only become expired after that, or
  cancelled when it has a scope of its own: revoking a request of a signer cancels it whatever its status
  is.
\<close>

theorem statuses_only_advance:
  assumes "reachable_approvals db" "approval_run db db'" "findRequestById db rid = Some r"
  shows "\<exists>r'. findRequestById db' rid = Some r' \<and> rq_type r' = rq_type r \<and> rq_requestData r' = rq_requestData r \<and>
    rq_requesterId r' = rq_requesterId r \<and> rq_machineIdentityId r' = rq_machineIdentityId r \<and>
    rq_organizationId r' = rq_organizationId r \<and> rq_scopeType r' = rq_scopeType r \<and> rq_scopeId r' = rq_scopeId r \<and>
    rq_currentStep r \<le> rq_currentStep r' \<and>
    (rq_status r' = rq_status r \<or> rq_status r = ApprovalRequestStatus.Pending \<or>
     rq_status r' = ApprovalRequestStatus.Expired \<or>
     (rq_status r' = ApprovalRequestStatus.Cancelled \<and> rq_scopeId r \<noteq> None))"
proof -
  have "evolves db db' \<and> approvals_inv db'"
    using assms(2) reachable_inv [OF assms(1)]
  proof (induction rule: approval_run.induct)
    case (more db db1 db2)
    then show ?case
      using approval_step_evolves approvals_invD(1) approval_step_inv evolves_trans by blast
  qed simp
  with assms(3) obtain r' where "findRequestById db' rid = Some r'" "advances r r'" by (auto simp: evolves_def)
  then show ?thesis by (auto simp: advances_def)
qed

lemma statuses_only_advance_witness:
  "\<exists>r r'. findRequestById sample_approved 4 = Some r \<and> rq_status r = ApprovalRequestStatus.Approved \<and>
     findRequestById (user_approves (sample_env\<lparr>e_now := 300\<rparr>) 4 PamAccess ''o'' ''a'' sample_approved) 4 = Some r' \<and>
     rq_status r' = ApprovalRequestStatus.Expired \<and> rq_requesterId r' = rq_requesterId r"
proof -
  let ?later = "user_approves (sample_env\<lparr>e_now := 300\<rparr>) 4 PamAccess ''o'' ''a'' sample_approved"
  have run: "map_option rq_status (findRequestById sample_approved 4) = Some ApprovalRequestStatus.Approved"
    "map_option rq_status (findRequestById ?later 4) = Some ApprovalRequestStatus.Expired"
    by code_simp+
  then obtain r where r: "findRequestById sample_approved 4 = Some r" "rq_status r = ApprovalRequestStatus.Approved" by auto
  have "approval_run sample_approved ?later"
    unfolding user_approves_def by (rule approval_run.more [OF approval_run.no_step approval_step.approved])
  from statuses_only_advance [OF reachable_sample this r(1)] run(2) r show ?thesis by auto
qed

section \<open>An approval is one step of a counter\<close>

datatype progress = Collecting nat "string set" | Granted | Closed

text \<open>What a request promises, without tables: the step that collects, and who has approved it.\<close>

definition progress_of :: "request_row \<Rightarrow> step_view list \<Rightarrow> progress" where
  "progress_of r ss = (case rq_status r of
       ApprovalRequestStatus.Pending \<Rightarrow> Collecting (rq_currentStep r)
         (case find (\<lambda>v. st_stepNumber v = rq_currentStep r) ss of None \<Rightarrow> {} | Some v \<Rightarrow> approved_by v)
     | ApprovalRequestStatus.Approved \<Rightarrow> Granted
     | _ \<Rightarrow> Closed)"

fun spec_approve :: "nat list \<Rightarrow> string \<Rightarrow> progress \<Rightarrow> progress" where
  "spec_approve need u (Collecting k S) =
     (if need ! (k - 1) \<le> card (insert u S)
      then (if k < length need then Collecting (Suc k) {} else Granted)
      else Collecting k (insert u S))"
| "spec_approve need u p = p"

lemma find_numbered: "numbered ss \<Longrightarrow> v \<in> set ss \<Longrightarrow> find (\<lambda>w. st_stepNumber w = st_stepNumber v) ss = Some v"
proof -
  assume n: "numbered ss" "v \<in> set ss"
  then obtain w where w: "find (\<lambda>w. st_stepNumber w = st_stepNumber v) ss = Some w"
    by (metis (mono_tags, lifting) find_None_iff not_None_eq)
  then have "w \<in> set ss" "st_stepNumber w = st_stepNumber v" by (auto simp: find_Some_iff)
  with n w show ?thesis using numbered_inj by metis
qed

lemma need_nth: "numbered ss \<Longrightarrow> v \<in> set ss \<Longrightarrow> map st_requiredApprovals ss ! (st_stepNumber v - 1) = st_requiredApprovals v"
proof -
  assume n: "numbered ss" "v \<in> set ss"
  then obtain i where "i < length ss" "ss ! i = v" by (auto simp: in_set_conv_nth)
  with numbered_nth [OF n(1)] show ?thesis by auto
qed

lemma approved_by_step:
  "st_id v = st_id cur \<Longrightarrow> approved_by (approved_step now cur nxt (approval_of cur u cm) v) = insert u (approved_by v)"
  "st_id v \<noteq> st_id cur \<Longrightarrow> approved_by (approved_step now cur nxt (approval_of cur u cm) v) = approved_by v"
  by (force simp: approved_by_def image_iff)+

lemma progress_step:
  assumes inv: "local_inv r ss []" and pend: "rq_status r = ApprovalRequestStatus.Pending"
    and ids: "distinct (map st_id ss)" and at: "step_at (rq_currentStep r) ss = Some (cur, nxt)" and u: "new_to u cur"
  shows "progress_of (approved_row r cur nxt) (map (approved_step now cur nxt (approval_of cur u cm)) ss) =
      spec_approve (map st_requiredApprovals ss) u (progress_of r ss)"
    and "progress_of r ss = Collecting (rq_currentStep r) (approved_by cur)" "u \<notin> approved_by cur"
    and "st_requiredApprovals cur \<le> card (insert u (approved_by cur)) \<longleftrightarrow> completes cur"
proof -
  let ?c = "rq_currentStep r" and ?f = "approved_step now cur nxt (approval_of cur u cm)"
  have ap: "approving ss cur nxt ?c" using inv pend ids at by (auto simp: approving_def local_inv_def)
  note steps = approving_steps [OF ap]
  have num: "numbered ss" using inv by (simp add: local_inv_def)
  have fnum: "numbered (map ?f ss)" using num by simp
  have found: "find (\<lambda>v. st_stepNumber v = ?c) ss = Some cur" using find_numbered [OF num steps(1)] steps(2) by simp
  then show p: "progress_of r ss = Collecting ?c (approved_by cur)" by (simp add: progress_of_def pend)
  show nu: "u \<notin> approved_by cur" using u by (auto simp: approved_by_def)
  have "card (approved_by cur) = length (sv_approvals cur)"
    using approvingD(2) [OF ap steps(1)] by (intro enough_length) (auto simp: step_inv_def)
  moreover have "finite (approved_by cur)" by (simp add: approved_by_def)
  ultimately show cmpl: "st_requiredApprovals cur \<le> card (insert u (approved_by cur)) \<longleftrightarrow> completes cur"
    using nu by (auto simp: completes_def)
  have need: "map st_requiredApprovals ss ! (?c - 1) = st_requiredApprovals cur"
    using need_nth [OF num steps(1)] steps(2) by simp
  have fcur: "find (\<lambda>v. st_stepNumber v = ?c) (map ?f ss) = Some (?f cur)"
    using find_numbered [OF fnum, of "?f cur"] steps(1,2) by simp
  have spec: "spec_approve (map st_requiredApprovals ss) u (progress_of r ss) =
      (if completes cur then (if ?c < length ss then Collecting (Suc ?c) {} else Granted)
       else Collecting ?c (insert u (approved_by cur)))"
    by (simp only: p spec_approve.simps need cmpl length_map)
  have "progress_of (approved_row r cur nxt) (map ?f ss) =
      (if completes cur then (if ?c < length ss then Collecting (Suc ?c) {} else Granted)
       else Collecting ?c (insert u (approved_by cur)))"
  proof (cases "completes cur")
    case False
    then show ?thesis
      using fcur pend by (simp add: progress_of_def approved_row_def approved_by_step)
  next
    case True
    show ?thesis
    proof (cases nxt)
      case None
      with steps(3) True show ?thesis by (simp add: progress_of_def approved_row_def)
    next
      case (Some n)
      have "find (\<lambda>v. st_stepNumber v = Suc ?c) (map ?f ss) = Some (?f n)"
        using find_numbered [OF fnum, of "?f n"] steps(4) [OF Some] by simp
      moreover have "st_id n \<noteq> st_id cur" using same_step(1) [OF ap] steps(4) [OF Some] by simp
      moreover have "approved_by n = {}"
        using approvingD(2) [OF ap, of n] steps(4) [OF Some] by (simp add: step_inv_def approved_by_def)
      ultimately show ?thesis
        using True Some steps(4) [OF Some] pend by (simp add: progress_of_def approved_row_def approved_by_step)
    qed
  qed
  then show "progress_of (approved_row r cur nxt) (map ?f ss) = spec_approve (map st_requiredApprovals ss) u (progress_of r ss)"
    unfolding spec .
qed

text \<open>The tables after a successful standard approval.\<close>

lemma approve_standard_tables:
  assumes r: "findRequestById db rid = Some r" and chk: "approve_check env r a t (findStepsByRequestId db rid) = Inr (cur, nxt)"
  shows "findRequestById (snd (approve_standard env r comment a t db)) rid = Some (approved_row r cur nxt)"
    "findStepsByRequestId (snd (approve_standard env r comment a t db)) rid =
       map (approved_step (e_now env) cur nxt (approval_of cur (ac_id a) comment)) (findStepsByRequestId db rid)"
  using approve_write_view [OF r findRequestById_id [OF r]] findRequestById_id [OF r] chk
  by (simp_all add: approve_standard_def approve_finish_views)

lemma approveRequest_standard:
  assumes "approveRequest env rid comment None a t db = (Inr res, db')"
  obtains r cur nxt where "findRequestById db rid = Some r" "rq_type r = t" "\<not> expired (e_now env) r"
    "approve_check env r a t (findStepsByRequestId db rid) = Inr (cur, nxt)"
    "db' = snd (approve_standard env r comment a t db)"
proof -
  obtain r where r: "findRequestById db rid = Some r"
    using assms by (auto simp: approveRequest_def split: option.splits)
  with assms have go: "rq_type r = t" "\<not> expired (e_now env) r" "\<exists>v. fst (approve_standard env r comment a t db) = Inr v"
      "db' = snd (approve_standard env r comment a t db)"
    by (auto simp: approveRequest_def rbind_Inr_iff split: if_splits prod.splits)
  then obtain cn where "approve_check env r a t (findStepsByRequestId db rid) = Inr cn"
    using findRequestById_id [OF r] by (cases "approve_check env r a t (findStepsByRequestId db rid)")
      (auto simp: approve_standard_def)
  with r go that show ?thesis by (cases cn) auto
qed

text \<open>
  C10: An approval that succeeds refines one step of a counter: with \<open>need\<close> the approvals the steps
  require, the actor, who is not among those who approved the current step, joins them, and when they are
  as many as the step needs the next step starts with nobody, or the request is granted after the last.
\<close>

theorem approval_refines_counter:
  assumes "reachable_approvals db" "findRequestById db rid = Some r"
    and "approveRequest env rid comment None a t db = (Inr res, db')"
  shows "\<exists>r' k S. findRequestById db' rid = Some r' \<and>
    progress_of r (findStepsByRequestId db rid) = Collecting k S \<and> ac_id a \<notin> S \<and>
    progress_of r' (findStepsByRequestId db' rid) =
      spec_approve (map st_requiredApprovals (findStepsByRequestId db rid)) (ac_id a) (Collecting k S) \<and>
    map st_requiredApprovals (findStepsByRequestId db' rid) = map st_requiredApprovals (findStepsByRequestId db rid)"
proof -
  from assms(3,2) obtain cur nxt where chk: "approve_check env r a t (findStepsByRequestId db rid) = Inr (cur, nxt)"
      and db': "db' = snd (approve_standard env r comment a t db)"
    by (elim approveRequest_standard) auto
  note ok = approve_check_ok [OF chk] and inv = reachable_inv [OF assms(1)]
  have "local_inv r (findStepsByRequestId db rid) []"
    using approvals_invD(2) [OF inv assms(2)] pending_no_grants [OF inv assms(2) ok(1)] by simp
  note step = progress_step [OF this ok(1) distinct_step_ids [OF approvals_invD(1) [OF inv]] ok(2,4)]
  show ?thesis
    unfolding db' approve_standard_tables [OF assms(2) chk] using step(1,2,3) by (auto simp: comp_def)
qed

lemma approval_refines_counter_witness:
  "\<exists>r k S. findRequestById sample_created 4 = Some r \<and> progress_of r (findStepsByRequestId sample_created 4) = Collecting k S \<and>
     ''a'' \<notin> S"
proof -
  have run: "\<not> isl (fst (approveRequest sample_env 4 None None (by_user ''a'') PamAccess sample_created))"
    "findRequestById sample_created 4 \<noteq> None"
    by code_simp+
  then obtain r res where r: "findRequestById sample_created 4 = Some r"
      "fst (approveRequest sample_env 4 None None (by_user ''a'') PamAccess sample_created) = Inr res"
    by (cases "fst (approveRequest sample_env 4 None None (by_user ''a'') PamAccess sample_created)") auto
  then have "approveRequest sample_env 4 None None (by_user ''a'') PamAccess sample_created =
      (Inr res, snd (approveRequest sample_env 4 None None (by_user ''a'') PamAccess sample_created))"
    by (metis prod.collapse)
  note r = r(1) this
  from approval_refines_counter [OF reachable_created r] r(1) show ?thesis by (auto simp: by_user_def)
qed

section \<open>Errors\<close>

lemma data_typed_routines:
  "data_typed r \<Longrightarrow> fst (postApprovalRoutine env r db) = Inr ()"
  "data_typed r \<Longrightarrow> fst (postRejectionRoutine r db) = Inr ()"
  by (auto simp: data_typed_def postApprovalRoutine_def postRejectionRoutine_def
      split: request_data.splits ApprovalPolicyType.split)

lemma approve_finish_ok:
  assumes "findRequestById db rid = Some r" "data_typed r"
  shows "\<exists>v. fst (approve_finish env a rid cur nxt db) = Inr v"
proof -
  define db1 where "db1 = (case nxt of
      Some n \<Rightarrow> if completes cur then notifyStepApprovers env (sv_approvers n) rid db else db | None \<Rightarrow> db)"
  have "untouched db db1" by (simp add: db1_def split: option.split)
  with assms have "findRequestById db1 rid = Some r" by (simp add: untouched_views)
  moreover obtain db2 where "postApprovalRoutine env r db1 = (Inr (), db2)"
    using data_typed_routines(1) [OF assms(2)] by (metis prod.collapse)
  ultimately show ?thesis by (simp add: approve_finish_def db1_def [symmetric])
qed

text \<open>The standard branch fails in its checks or succeeds.\<close>

lemma approve_standard_result:
  assumes inv: "approvals_inv db" and r: "findRequestById db rid = Some r"
  shows "(case approve_check env r a t (findStepsByRequestId db rid) of
      Inl e \<Rightarrow> approve_standard env r comment a t db = (Inl e, db)
    | Inr _ \<Rightarrow> \<exists>v. fst (approve_standard env r comment a t db) = Inr v)"
proof (cases "approve_check env r a t (findStepsByRequestId db rid)")
  case (Inl e)
  with findRequestById_id [OF r] show ?thesis by (simp add: approve_standard_def)
next
  case (Inr cn)
  obtain cur nxt where cn: "cn = (cur, nxt)" by (cases cn)
  have rid: "rq_id r = rid" using r findRequestById_id by blast
  have "data_typed (approved_row r cur nxt)"
    using approvals_invD(2) [OF inv r] by (simp add: local_inv_def approved_row_def split: option.split)
  from approve_finish_ok [OF approve_write_view(1) [OF r rid] this] show ?thesis
    by (simp add: approve_standard_def rid Inr cn)
qed

lemma break_glass_result:
  assumes inv: "approvals_inv db" and r: "findRequestById db rid = Some r"
    and res: "approveRequestBreakGlass env r a policy reason db = (Inl e, db')"
  shows "db' = db"
proof -
  have failed: "db1 = db" if "break_glass_write env r a d reason db = (Inl e', db1)" for d e' db1
    using that by (auto simp: break_glass_write_def Let_def createGrant_def split: option.splits if_splits)
  have shown: False
    if w: "break_glass_write env r a d reason db = (Inr g, db1)"
      and f: "fresh_view env a (rq_id r) db2 = Inl e'" and u: "untouched db1 db2" for d g db1 db2 e'
  proof -
    have rid: "rq_id r = rid" using r findRequestById_id by blast
    have go: "rq_status r = ApprovalRequestStatus.Pending" "\<not> expired (e_now env) r"
      using w r rid by (auto simp: break_glass_write_def split: option.splits if_splits)
    from break_glass_tables(3) [OF approvals_invD(1) [OF inv] r go, of a d reason] w
    have "findRequestById db1 rid \<noteq> None" by simp
    with f show False using untouched_views(1) [OF u] by (auto simp: fresh_view_def rid split: option.splits)
  qed
  show ?thesis
    using res by (auto simp: approveRequestBreakGlass_def Let_def rbind_Inl_iff split: sum.splits prod.splits if_splits
        dest: failed shown [OF _ _ untouched_refl] shown [OF _ _ untouched_outbox])
qed

text \<open>
  C37: A call to approve that fails leaves the tables as they were, break-glass attempts included, with one
  exception: a request past its expiry is marked as expired before the error is thrown.
\<close>

theorem failed_approval_writes_nothing:
  assumes "reachable_approvals db" "approveRequest env rid comment bypassReason a t db = (Inl e, db')"
  shows "db' = db \<or> (e = BadRequest ''Request has expired'' \<and>
    db' = updateRequest rid (set_status ApprovalRequestStatus.Expired) db)"
proof -
  note inv = reachable_inv [OF assms(1)]
  show ?thesis
  proof (cases "findRequestById db rid")
    case None
    with assms(2) show ?thesis by (simp add: approveRequest_def)
  next
    case (Some r)
    have std: "db1 = db" if "approve_standard env r comment a t' db = (Inl e1, db1)" for e1 db1 t'
      using approve_standard_result [OF inv Some, where env = env and a = a and t = t' and comment = comment] that by (auto split: sum.splits)
    have bg: "db1 = db" if "approveRequestBreakGlass env r a p reason db = (Inl e1, db1)" for e1 db1 p reason
      using break_glass_result [OF inv Some that] .
    from assms(2) Some show ?thesis
      by (auto simp: approveRequest_def rbind_Inl_iff split: if_splits option.splits prod.splits dest: std bg)
  qed
qed

lemma failed_approval_writes_nothing_witness:
  "snd (approveRequest sample_env 4 None None (by_user ''z'') PamAccess sample_created) = sample_created"
proof -
  have run: "fst (approveRequest sample_env 4 None None (by_user ''z'') PamAccess sample_created) =
      Inl (ForbiddenRequest ''You are not an eligible approver for this step'')"
    by code_simp
  have "approveRequest sample_env 4 None None (by_user ''z'') PamAccess sample_created =
      (Inl (ForbiddenRequest ''You are not an eligible approver for this step''),
       snd (approveRequest sample_env 4 None None (by_user ''z'') PamAccess sample_created))"
    using run by (metis prod.collapse)
  from failed_approval_writes_nothing [OF reachable_created this] show ?thesis by simp
qed

text \<open>
  C36: The data of a stored request has the kind of its type. Requests are opened by the handler, for
  certificates, for signings and by approvals in advance; each stores data of the kind of the policy that
  was matched, and no later call changes either. So the casts of a standard approval and of a rejection
  never go wrong. (Breaking the glass reads the constraints of the policy too, whose kind the route
  checks; requests for accounts are opened elsewhere, with other data.)
\<close>

theorem requests_keep_their_type:
  assumes "reachable_approvals db" and Some: "findRequestById db rid = Some r"
  shows "(case rq_requestData r of PamData _ \<Rightarrow> rq_type r = PamAccess | CertData _ \<Rightarrow> rq_type r = CertRequest
      | SigningData _ \<Rightarrow> rq_type r = CertCodeSigning) \<and>
    fst (approveRequest env rid comment None a t db) \<noteq> Inl TypeError \<and>
    fst (rejectRequest env rid comment a db) \<noteq> Inl TypeError"
proof -
  note inv = reachable_inv [OF assms(1)]
  have "approve_check env r a t ss \<noteq> Inl TypeError" for ss
    by (auto simp: approve_check_def split: option.split)
  then have "fst (approve_standard env r comment a t db) \<noteq> Inl TypeError"
    using approve_standard_result [OF inv Some, where env = env and a = a and t = t and comment = comment] by (auto split: sum.splits)
  then have approve: "fst (approveRequest env rid comment None a t db) \<noteq> Inl TypeError"
    using Some by (auto simp: approveRequest_def rbind_Inl_iff split: prod.split)
  have "fst (reject_finish env a rid (reject_write r cur u cm db)) \<noteq> Inl TypeError" for cur u cm
  proof -
    let ?db1 = "reject_write r cur u cm db"
    have "findRequestById ?db1 rid = Some (set_status ApprovalRequestStatus.Rejected r)"
      using Some findRequestById_id [OF Some] by (simp add: reject_write_def view_simps)
    moreover have "data_typed (set_status ApprovalRequestStatus.Rejected r)"
      using approvals_invD(2) [OF inv Some] by (simp add: local_inv_def)
    then obtain db2 where "postRejectionRoutine (set_status ApprovalRequestStatus.Rejected r) ?db1 = (Inr (), db2)"
      using data_typed_routines(2) by (metis prod.collapse)
    ultimately show ?thesis by (simp add: reject_finish_def)
  qed
  then have "fst (rejectRequest env rid comment a db) \<noteq> Inl TypeError"
    using Some by (auto simp: rejectRequest_def split: option.split)
  moreover have "data_typed r" using approvals_invD(2) [OF inv Some] by (simp add: local_inv_def)
  ultimately show ?thesis using approve by (simp add: data_typed_def)
qed

lemma requests_keep_their_type_witness:
  "map_option rq_type (findRequestById sample_in_advance 8) = Some CertCodeSigning \<and>
   fst (approveRequest sample_env 4 None None (by_user ''c'') PamAccess
     (fold (user_approves sample_env 4 PamAccess ''o'') [''a'', ''b''] sample_created)) \<noteq> Inl TypeError"
proof -
  let ?db = "fold (user_approves sample_env 4 PamAccess ''o'') [''a'', ''b''] sample_created"
  have run: "findRequestById ?db 4 \<noteq> None"
    "map_option (\<lambda>r. case rq_requestData r of SigningData _ \<Rightarrow> True | _ \<Rightarrow> False) (findRequestById sample_in_advance 8) = Some True"
    by code_simp+
  then obtain r s where r: "findRequestById ?db 4 = Some r" "findRequestById sample_in_advance 8 = Some s"
      "case rq_requestData s of SigningData _ \<Rightarrow> True | _ \<Rightarrow> False" by auto
  have "rq_type s = CertCodeSigning"
    using requests_keep_their_type [OF reachable_in_advance r(2)] r(3) by (auto split: request_data.splits)
  moreover have "fst (approveRequest sample_env 4 None None (by_user ''c'') PamAccess ?db) \<noteq> Inl TypeError"
    using requests_keep_their_type [OF reachable_fold_approves [OF reachable_created] r(1)] by blast
  ultimately show ?thesis using r(2) by simp
qed

section \<open>Requests with enough approvers are approved\<close>

definition willing_users :: "approval_env \<Rightarrow> string \<Rightarrow> ApprovalPolicyType \<Rightarrow> string option \<Rightarrow> step_view \<Rightarrow> string set" where
  "willing_users env orgId t requester v =
     {u. isEligible u (e_userGroups env u orgId) (sv_approvers v) \<and> (t = CertCodeSigning \<longrightarrow> requester \<noteq> Some u)}"

text \<open>Every step still to be completed has as many eligible users as it needs (and at least one).\<close>

definition staffed :: "approval_env \<Rightarrow> string \<Rightarrow> request_row \<Rightarrow> step_view list \<Rightarrow> bool" where
  "staffed env orgId r ss \<longleftrightarrow> (\<forall>v \<in> set ss. rq_currentStep r \<le> st_stepNumber v \<longrightarrow>
     (\<exists>U. finite U \<and> U \<subseteq> willing_users env orgId (rq_type r) (rq_requesterId r) v \<and>
        max 1 (st_requiredApprovals v) \<le> card U))"

text \<open>The number of approvals still missing.\<close>

definition missing :: "request_row \<Rightarrow> step_view list \<Rightarrow> nat" where
  "missing r ss = sum_list (map (\<lambda>v. if rq_currentStep r \<le> st_stepNumber v
     then max 1 (st_requiredApprovals v) - length (sv_approvals v) else 0) ss)"

lemma isEligible_step [simp]: "sv_approvers (approved_step now cur nxt a v) = sv_approvers v"
  by (auto simp: approved_step_def Let_def split: option.splits)

lemma approved_row_simps [simp]:
  "rq_type (approved_row r cur nxt) = rq_type r" "rq_requesterId (approved_row r cur nxt) = rq_requesterId r"
  "rq_id (approved_row r cur nxt) = rq_id r" "rq_expiresAt (approved_row r cur nxt) = rq_expiresAt r"
  by (auto simp: approved_row_def set_status_def advance_request_def split: option.split)

lemma approved_row_current:
  "rq_currentStep (approved_row r cur nxt) =
     (if completes cur \<and> nxt \<noteq> None then Suc (rq_currentStep r) else rq_currentStep r)"
  by (auto simp: approved_row_def split: option.split)

lemma staffed_approved:
  assumes "staffed env orgId r ss"
  shows "staffed env orgId (approved_row r cur nxt) (map (approved_step now cur nxt a) ss)"
  unfolding staffed_def
proof (intro ballI impI)
  fix w assume w: "w \<in> set (map (approved_step now cur nxt a) ss)"
    and c: "rq_currentStep (approved_row r cur nxt) \<le> st_stepNumber w"
  from w obtain v where v: "v \<in> set ss" "w = approved_step now cur nxt a v" by auto
  with c have "rq_currentStep r \<le> st_stepNumber v" by (simp add: approved_row_current split: if_splits)
  with assms v show "\<exists>U. finite U \<and> U \<subseteq> willing_users env orgId (rq_type (approved_row r cur nxt))
      (rq_requesterId (approved_row r cur nxt)) w \<and> max 1 (st_requiredApprovals w) \<le> card U"
    by (simp add: staffed_def willing_users_def)
qed

text \<open>Somebody who may approve has not: those who approved are fewer than the step needs.\<close>

lemma willing_new_user:
  assumes inv: "local_inv r ss []" and pend: "rq_status r = ApprovalRequestStatus.Pending"
    and ne: "ss \<noteq> []" and staff: "staffed env orgId r ss"
  shows "\<exists>cur nxt u. step_at (rq_currentStep r) ss = Some (cur, nxt) \<and> new_to u cur \<and>
    u \<in> willing_users env orgId (rq_type r) (rq_requesterId r) cur"
proof -
  have num: "numbered ss" and c: "1 \<le> rq_currentStep r" "rq_currentStep r \<le> length ss"
    using inv pend ne by (auto simp: local_inv_def max_def Suc_le_eq split: if_splits)
  obtain cur nxt where at: "step_at (rq_currentStep r) ss = Some (cur, nxt)"
    using step_at_exists [OF num c] by (metis not_None_eq surj_pair)
  note cur = step_at_numbered(1,2) [OF num at]
  obtain U where U: "finite U" "U \<subseteq> willing_users env orgId (rq_type r) (rq_requesterId r) cur"
      "max 1 (st_requiredApprovals cur) \<le> card U"
    using staff cur by (auto simp: staffed_def)
  have "step_inv (rq_currentStep r) cur" using inv pend cur(1) by (simp add: local_inv_def)
  then have "length (sv_approvals cur) < max 1 (st_requiredApprovals cur)"
    using cur(2) by (auto simp: step_inv_def)
  then have "card (set (map av_approverUserId (sv_approvals cur))) < card U"
    using U(3) card_length [of "map av_approverUserId (sv_approvals cur)"]
    by (metis length_map order_le_less_trans order_less_le_trans)
  then have "\<not> U \<subseteq> set (map av_approverUserId (sv_approvals cur))"
    using card_mono [of "set (map av_approverUserId (sv_approvals cur))" U] by (meson List.finite_set leD)
  then obtain u where "u \<in> U" "new_to u cur" by auto
  with at U(2) show ?thesis by blast
qed

lemma eligible_approval:
  assumes inv: "approvals_inv db" and r: "findRequestById db rid = Some r" and pend: "rq_status r = ApprovalRequestStatus.Pending"
    and live: "\<not> expired (e_now env) r" and at: "step_at (rq_currentStep r) (findStepsByRequestId db rid) = Some (cur, nxt)"
    and u: "new_to u cur" "u \<in> willing_users env orgId (rq_type r) (rq_requesterId r) cur"
  shows "findRequestById (user_approves env rid (rq_type r) orgId u db) rid = Some (approved_row r cur nxt)"
    "findStepsByRequestId (user_approves env rid (rq_type r) orgId u db) rid =
       map (approved_step (e_now env) cur nxt (approval_of cur u None)) (findStepsByRequestId db rid)"
proof -
  let ?a = "\<lparr>ac_type = UserActor, ac_id = u, ac_orgId = orgId\<rparr>"
  have chk: "approve_check env r ?a (rq_type r) (findStepsByRequestId db rid) = Inr (cur, nxt)"
    using pend at u by (simp add: approve_check_def willing_users_def list_ex_iff)
  have eq: "user_approves env rid (rq_type r) orgId u db = snd (approve_standard env r None ?a (rq_type r) db)"
    using r live by (simp add: user_approves_def approveRequest_def split: prod.split)
  show "findRequestById (user_approves env rid (rq_type r) orgId u db) rid = Some (approved_row r cur nxt)"
    "findStepsByRequestId (user_approves env rid (rq_type r) orgId u db) rid =
       map (approved_step (e_now env) cur nxt (approval_of cur u None)) (findStepsByRequestId db rid)"
    unfolding eq using approve_standard_tables [OF r chk] by simp_all
qed

lemma missing_decreases:
  assumes ap: "approving ss cur nxt (rq_currentStep r)"
  shows "Suc (missing (approved_row r cur nxt) (map (approved_step now cur nxt (approval_of cur u cm)) ss)) = missing r ss"
    "completes cur \<Longrightarrow> nxt = None \<Longrightarrow> missing r ss = 1"
proof -
  let ?c = "rq_currentStep r" and ?f = "approved_step now cur nxt (approval_of cur u cm)"
  let ?h = "\<lambda>v. if ?c \<le> st_stepNumber v then max 1 (st_requiredApprovals v) - length (sv_approvals v) else 0"
  let ?g = "\<lambda>v. if rq_currentStep (approved_row r cur nxt) \<le> st_stepNumber (?f v)
      then max 1 (st_requiredApprovals (?f v)) - length (sv_approvals (?f v)) else 0"
  note steps = approving_steps [OF ap]
  have dist: "distinct ss" using approvingD(3) [OF ap] by (simp add: distinct_map)
  have sums: "missing r ss = sum ?h (set ss)"
    "missing (approved_row r cur nxt) (map ?f ss) = sum ?g (set ss)"
    using dist by (simp_all add: missing_def sum_list_distinct_conv_sum_set comp_def del: approved_step_keys)
  have cur: "step_inv ?c cur" by (rule approvingD(2) [OF ap steps(1)])
  have other: "?g v = ?h v" if "v \<in> set ss - {cur}" for v
  proof -
    have "st_id v \<noteq> st_id cur" "st_stepNumber v \<noteq> ?c" using same_step(1,2) [OF ap] that by auto
    then show ?thesis by (auto simp: approved_row_current)
  qed
  have one: "?h cur = Suc (?g cur)"
    using cur steps(2) by (auto simp: step_inv_def approved_row_current completes_def max_def)
  have rest: "sum ?g (set ss - {cur}) = sum ?h (set ss - {cur})"
    by (rule sum.cong [OF refl other])
  have "sum ?g (set ss) = ?g cur + sum ?g (set ss - {cur})" "sum ?h (set ss) = ?h cur + sum ?h (set ss - {cur})"
    by (rule sum.remove; simp add: steps(1))+
  then show "Suc (missing (approved_row r cur nxt) (map ?f ss)) = missing r ss"
    by (simp only: sums rest one add_Suc)
  assume last: "completes cur" "nxt = None"
  have "?h v = 0" if "v \<in> set ss - {cur}" for v
    using that same_step(2) [OF ap] steps(3) [OF last(2)] numbered_bounds [OF approvingD(1) [OF ap]]
    by (metis Diff_iff insertI1 le_antisym)
  then have "sum ?h (set ss - {cur}) = 0" by (rule sum.neutral [OF ballI])
  moreover have "?h cur = 1" using cur steps(2) last(1) by (auto simp: step_inv_def completes_def max_def)
  moreover have "sum ?h (set ss) = ?h cur + sum ?h (set ss - {cur})" by (rule sum.remove) (simp_all add: steps(1))
  ultimately show "missing r ss = 1" by (simp only: sums add_0_right)
qed

lemma staffed_run:
  assumes "approvals_inv db" "findRequestById db rid = Some r" "rq_status r = ApprovalRequestStatus.Pending"
    and "\<not> expired (e_now env) r" "findStepsByRequestId db rid \<noteq> []" "staffed env orgId r (findStepsByRequestId db rid)"
  shows "\<exists>us. length us = missing r (findStepsByRequestId db rid) \<and>
    (\<exists>r'. findRequestById (fold (user_approves env rid (rq_type r) orgId) us db) rid = Some r' \<and>
      rq_status r' = ApprovalRequestStatus.Approved)"
  using assms
proof (induction "missing r (findStepsByRequestId db rid)" arbitrary: db r rule: less_induct)
  case less
  let ?ss = "findStepsByRequestId db rid"
  note inv = less.prems(1) and r = less.prems(2) and pend = less.prems(3)
  have linv: "local_inv r ?ss []"
    using approvals_invD(2) [OF inv r] pending_no_grants [OF inv r pend] by simp
  obtain cur nxt u where at: "step_at (rq_currentStep r) ?ss = Some (cur, nxt)" and u: "new_to u cur"
      "u \<in> willing_users env orgId (rq_type r) (rq_requesterId r) cur"
    using willing_new_user [OF linv pend less.prems(5,6)] by blast
  have ap: "approving ?ss cur nxt (rq_currentStep r)"
    using linv pend at distinct_step_ids [OF approvals_invD(1) [OF inv]] by (auto simp: approving_def local_inv_def)
  let ?db1 = "user_approves env rid (rq_type r) orgId u db" and ?r1 = "approved_row r cur nxt"
  note after = eligible_approval [OF inv r pend less.prems(4) at u]
  note dec = missing_decreases(1) [OF ap, where now = "e_now env" and u = u and cm = None]
  show ?case
  proof (cases "completes cur \<and> nxt = None")
    case True
    then have "rq_status ?r1 = ApprovalRequestStatus.Approved" by (simp add: approved_row_def)
    with after(1) missing_decreases(2) [OF ap] True show ?thesis by (intro exI [of _ "[u]"]) simp
  next
    case False
    then have pend1: "rq_status ?r1 = ApprovalRequestStatus.Pending"
      using pend by (auto simp: approved_row_def split: option.split)
    have "approvals_inv ?db1" unfolding user_approves_def by (rule approveRequest_inv [OF inv])
    moreover have "\<not> expired (e_now env) ?r1" using less.prems(4) by (simp add: expired_def)
    moreover have "missing ?r1 (findStepsByRequestId ?db1 rid) < missing r ?ss" unfolding after(2) using dec by simp
    ultimately obtain us where us: "length us = missing ?r1 (findStepsByRequestId ?db1 rid)"
        "\<exists>r'. findRequestById (fold (user_approves env rid (rq_type ?r1) orgId) us ?db1) rid = Some r' \<and>
          rq_status r' = ApprovalRequestStatus.Approved"
      using less.hyps [OF _ _ after(1) pend1] less.prems(5,6) staffed_approved by (auto simp: after(2))
    from us(1) dec have "length (u # us) = missing r ?ss" by (simp add: after(2))
    with us(2) show ?thesis by (intro exI [of _ "u # us"]) simp
  qed
qed

text \<open>
  C12: A pending request that has steps and has not expired gets approved: when every step still to be
  completed has as many eligible users as it needs, there are users who, approving one after the other,
  take it to \<open>approved\<close>, and they are exactly as many as the approvals still missing.
\<close>

theorem staffed_requests_get_approved:
  assumes "reachable_approvals db" "findRequestById db rid = Some r" "rq_status r = ApprovalRequestStatus.Pending"
    and "\<not> expired (e_now env) r" "findStepsByRequestId db rid \<noteq> []" "staffed env orgId r (findStepsByRequestId db rid)"
  shows "\<exists>us. length us = missing r (findStepsByRequestId db rid) \<and>
    (\<exists>r'. findRequestById (fold (user_approves env rid (rq_type r) orgId) us db) rid = Some r' \<and>
      rq_status r' = ApprovalRequestStatus.Approved)"
  using staffed_run [OF reachable_inv [OF assms(1)] assms(2-6)] .

lemma staffed_requests_get_approved_witness:
  "\<exists>us. length us = 3 \<and> (\<exists>r'. findRequestById (fold (user_approves sample_env 4 PamAccess ''o'') us sample_created) 4 = Some r' \<and>
     rq_status r' = ApprovalRequestStatus.Approved)"
proof -
  have run: "map_option rq_status (findRequestById sample_created 4) = Some ApprovalRequestStatus.Pending"
    "map_option rq_type (findRequestById sample_created 4) = Some PamAccess"
    "map_option (expired (e_now sample_env)) (findRequestById sample_created 4) = Some False"
    "map_option (\<lambda>r. missing r (findStepsByRequestId sample_created 4)) (findRequestById sample_created 4) = Some 3"
    "findStepsByRequestId sample_created 4 \<noteq> []"
    "list_all (\<lambda>v. distinct (map ap_id (sv_approvers v)) \<and> max 1 (st_requiredApprovals v) \<le> length (sv_approvers v) \<and>
       list_all (\<lambda>p. isEligible (ap_id p) [] (sv_approvers v)) (sv_approvers v)) (findStepsByRequestId sample_created 4)"
    by code_simp+
  then obtain r where r: "findRequestById sample_created 4 = Some r" "rq_status r = ApprovalRequestStatus.Pending"
      "rq_type r = PamAccess" "\<not> expired (e_now sample_env) r" "missing r (findStepsByRequestId sample_created 4) = 3"
    by auto
  have "staffed sample_env ''o'' r (findStepsByRequestId sample_created 4)"
    unfolding staffed_def
  proof (intro ballI impI exI conjI)
    fix v assume "v \<in> set (findStepsByRequestId sample_created 4)"
    with run(6) have v: "distinct (map ap_id (sv_approvers v))" "max 1 (st_requiredApprovals v) \<le> length (sv_approvers v)"
      "\<forall>p \<in> set (sv_approvers v). isEligible (ap_id p) [] (sv_approvers v)"
      by (auto simp: list_all_iff)
    show "finite (set (map ap_id (sv_approvers v)))" by simp
    show "set (map ap_id (sv_approvers v)) \<subseteq> willing_users sample_env ''o'' (rq_type r) (rq_requesterId r) v"
      using v(3) r(3) by (auto simp: willing_users_def sample_env_def)
    show "max 1 (st_requiredApprovals v) \<le> card (set (map ap_id (sv_approvers v)))"
      using v(2) distinct_card [OF v(1)] by simp
  qed
  with staffed_requests_get_approved [OF reachable_created r(1,2,4) run(5)] r(3,5)
  show ?thesis by metis
qed

end
