(* ===== verification/ApprovalRaces.thy ===== *)
theory ApprovalRaces
  imports ApprovalProperties
begin

text \<open>
  Approvals that overlap. A call reads the request and its steps without a lock, checks them, and then
  writes in a transaction that relies on what was read: \<open>approve_check\<close> on one state of the tables,
  \<open>approve_write\<close> on a later one. Here the reads of two calls come before the writes of both, which
  the serial runs of \<open>ApprovalRuns\<close> leave out.
\<close>

section \<open>Sample states\<close>

text \<open>What a user's call reads and checks for a request of a sample run.\<close>

definition sample_check :: "string \<Rightarrow> nat \<Rightarrow> approval_db \<Rightarrow> (request_row \<times> step_view \<times> step_view option) option" where
  "sample_check u rid db = (case findRequestById db rid of None \<Rightarrow> None | Some r \<Rightarrow>
     (case approve_check sample_env r (by_user u) PamAccess (findStepsByRequestId db rid) of
        Inl _ \<Rightarrow> None | Inr (cur, nxt) \<Rightarrow> Some (r, cur, nxt)))"

lemma sample_checkD:
  assumes "sample_check u rid db = Some (r, cur, nxt)"
  shows "findRequestById db rid = Some r"
    "approve_check sample_env r (by_user u) PamAccess (findStepsByRequestId db rid) = Inr (cur, nxt)"
  using assms by (auto simp: sample_check_def split: option.splits sum.splits)

definition three_created :: approval_db where
  "three_created = requested_under [sample_step 3 [''a'', ''b'', ''c'']]"

lemma reachable_three: "reachable_approvals three_created"
  unfolding three_created_def by (rule reachable_requested)

abbreviation last_step_current :: approval_db where
  "last_step_current \<equiv> fold (user_approves sample_env 4 PamAccess ''o'') [''a'', ''b''] sample_created"

section \<open>Two approvals of one step\<close>

text \<open>Both calls have read \<open>cur\<close>; both write.\<close>

definition both_write :: "int \<Rightarrow> request_row \<Rightarrow> step_view \<Rightarrow> step_view option \<Rightarrow> string \<Rightarrow> string \<Rightarrow> approval_db \<Rightarrow> approval_db" where
  "both_write now r cur nxt u w db = approve_write now r cur nxt w None (approve_write now r cur nxt u None db)"

abbreviation twice_approved :: "step_view \<Rightarrow> string \<Rightarrow> string \<Rightarrow> step_view" where
  "twice_approved cur u w \<equiv>
     cur\<lparr>sv_approvals := sv_approvals cur @ [approval_of cur u None, approval_of cur w None]\<rparr>"

lemma approved_by_twice [simp]: "approved_by (twice_approved cur u w) = insert u (insert w (approved_by cur))"
  by (force simp: approved_by_def image_iff)

lemma both_write_view:
  assumes r: "findRequestById db rid = Some r" and "\<not> completes cur"
  shows "findRequestById (both_write now r cur nxt u w db) rid = Some r"
    "findStepsByRequestId (both_write now r cur nxt u w db) rid =
       map (\<lambda>v. if st_id v = st_id cur
         then v\<lparr>sv_approvals := sv_approvals v @ [approval_of cur u None, approval_of cur w None]\<rparr> else v)
         (findStepsByRequestId db rid)"
  using assms by (simp_all add: both_write_def approve_write_def Let_def view_simps comp_def cong: if_cong)

lemma both_write_current:
  assumes inv: "approvals_inv db" and r: "findRequestById db rid = Some r"
    and chk: "approve_check env r a t (findStepsByRequestId db rid) = Inr (cur, nxt)" and "\<not> completes cur"
  shows "find (\<lambda>v. st_stepNumber v = rq_currentStep r) (findStepsByRequestId (both_write now r cur nxt u w db) rid) =
      Some (twice_approved cur u w)"
    "twice_approved cur u w \<in> set (findStepsByRequestId (both_write now r cur nxt u w db) rid)"
    "numbered (findStepsByRequestId (both_write now r cur nxt u w db) rid)"
    "step_inv (rq_currentStep r) cur" "st_stepNumber cur = rq_currentStep r"
proof -
  let ?ss = "findStepsByRequestId (both_write now r cur nxt u w db) rid"
  note ok = approve_check_ok [OF chk]
  have l: "numbered (findStepsByRequestId db rid)" "\<forall>v \<in> set (findStepsByRequestId db rid). step_inv (rq_currentStep r) v"
    using approvals_invD(2) [OF inv r] ok(1) by (simp_all add: local_inv_def)
  note cur = step_at_numbered(1,2) [OF l(1) ok(2)]
  then show "step_inv (rq_currentStep r) cur" "st_stepNumber cur = rq_currentStep r" using l(2) by auto
  show num: "numbered ?ss" using l(1) by (simp add: both_write_view [OF r assms(4)])
  show m: "twice_approved cur u w \<in> set ?ss"
    using cur(1) by (force simp: both_write_view [OF r assms(4)])
  show "find (\<lambda>v. st_stepNumber v = rq_currentStep r) ?ss = Some (twice_approved cur u w)"
    using find_numbered [OF num m] cur(2) by simp
qed

lemma step_at_find: "find (\<lambda>v. st_stepNumber v = c) ss = Some v \<Longrightarrow> \<exists>nxt. step_at c ss = Some (v, nxt)"
  by (induction ss) (auto simp: step_at_def split: if_splits)

text \<open>
  C25: Two different users approve the last two missing approvals of a step at the same time: both
  approvals are stored and the step has as many as it needs, but neither call completes it, and the
  request stays pending. When nobody is eligible who has not approved already, every further approval is
  refused; another eligible user, or the bypass of a privileged access, can still bring the request to
  an end.
\<close>

theorem overlapping_approvals_strand_request:
  assumes "reachable_approvals db" "findRequestById db rid = Some r"
    and "approve_check env r a t (findStepsByRequestId db rid) = Inr (cur, nxt)"
    and "approve_check env r b t (findStepsByRequestId db rid) = Inr (cur, nxt)" "ac_id a \<noteq> ac_id b"
    and "length (sv_approvals cur) + 2 = st_requiredApprovals cur"
    and only: "\<And>c :: actor. isEligible (ac_id c) (e_userGroups env' (ac_id c) (ac_orgId c)) (sv_approvers cur) \<Longrightarrow>
      ac_id c \<in> {ac_id a, ac_id b} \<union> approved_by cur"
  shows "findRequestById (both_write now r cur nxt (ac_id a) (ac_id b) db) rid = Some r \<and>
    rq_status r = ApprovalRequestStatus.Pending \<and>
    (\<exists>v \<in> set (findStepsByRequestId (both_write now r cur nxt (ac_id a) (ac_id b) db) rid).
       st_stepNumber v = rq_currentStep r \<and> st_requiredApprovals v \<le> card (approved_by v) \<and>
       st_status v = ApprovalRequestStepStatus.InProgress) \<and>
    (\<forall>c t'. isl (approve_check env' r c t' (findStepsByRequestId (both_write now r cur nxt (ac_id a) (ac_id b) db) rid)))"
proof -
  let ?db = "both_write now r cur nxt (ac_id a) (ac_id b) db" and ?v = "twice_approved cur (ac_id a) (ac_id b)"
  have nc: "\<not> completes cur" using assms(6) by (simp add: completes_def)
  note now = both_write_current(1-3) [OF reachable_inv [OF assms(1)] assms(2,3) nc, where now = now and u = "ac_id a" and w = "ac_id b"] both_write_current(4,5) [OF reachable_inv [OF assms(1)] assms(2,3) nc]
  note ok = approve_check_ok [OF assms(3)] approve_check_ok(4) [OF assms(4)]
  have v: "st_stepNumber ?v = rq_currentStep r" "st_status ?v = ApprovalRequestStepStatus.InProgress"
    using now(4,5) by (simp_all add: step_inv_def)
  have "card (approved_by ?v) = length (sv_approvals ?v)"
    using now(4) ok(4,6) assms(5) by (intro enough_length) (auto simp: step_inv_def)
  then have enough: "st_requiredApprovals ?v \<le> card (approved_by ?v)" using assms(6) by simp
  have "isl (approve_check env' r c t' (findStepsByRequestId ?db rid))" for c t'
  proof -
    obtain nxt' where at: "step_at (rq_currentStep r) (findStepsByRequestId ?db rid) = Some (?v, nxt')"
      using step_at_find [OF now(1)] by blast
    have "list_ex (\<lambda>x. av_approverUserId x = ac_id c) (sv_approvals ?v)"
      if "isEligible (ac_id c) (e_userGroups env' (ac_id c) (ac_orgId c)) (sv_approvers ?v)"
      using only [of c] that by (auto simp: approved_by_def list_ex_iff)
    then show ?thesis using at by (simp add: approve_check_def)
  qed
  with v enough now(2) both_write_view(1) [OF assms(2) nc] ok(1) show ?thesis by blast
qed

lemma overlapping_approvals_strand_request_witness:
  "\<exists>r cur nxt. rq_status r = ApprovalRequestStatus.Pending \<and>
     sample_check ''a'' 4 sample_created = Some (r, cur, nxt) \<and> sample_check ''b'' 4 sample_created = Some (r, cur, nxt) \<and>
     isl (approve_check sample_env r (by_user ''c'') PamAccess (findStepsByRequestId
       (both_write 100 r cur nxt ''a'' ''b'' sample_created) 4))"
proof -
  have run: "sample_check ''a'' 4 sample_created \<noteq> None" "sample_check ''a'' 4 sample_created = sample_check ''b'' 4 sample_created"
    "map_option (\<lambda>(r, cur, nxt). sv_approvals cur = [] \<and> st_requiredApprovals cur = 2 \<and>
       sv_approvers cur = [user_approver ''a'', user_approver ''b'']) (sample_check ''a'' 4 sample_created) = Some True"
    by code_simp+
  then obtain r cur nxt where c: "sample_check ''a'' 4 sample_created = Some (r, cur, nxt)"
      "sample_check ''b'' 4 sample_created = Some (r, cur, nxt)" "sv_approvals cur = []" "st_requiredApprovals cur = 2"
      "sv_approvers cur = [user_approver ''a'', user_approver ''b'']" by auto
  have only: "ac_id c \<in> {ac_id (by_user ''a''), ac_id (by_user ''b'')} \<union> approved_by cur"
    if "isEligible (ac_id c) (e_userGroups sample_env (ac_id c) (ac_orgId c)) (sv_approvers cur)" for c :: actor
    using that c(5) by (auto simp: isEligible_def names_actor_def user_approver_def by_user_def)
  note s = sample_checkD [OF c(1)] sample_checkD(2) [OF c(2)]
  from overlapping_approvals_strand_request [OF reachable_created s _ _ only, where now = 100] c s(1)
  show ?thesis by (auto simp: by_user_def)
qed

text \<open>
  C24: One user who approves twice at the same time is counted twice: a step that needs three approvals is
  completed by the next approver although only two different users approved it.
\<close>

theorem double_approval_counts_twice:
  assumes "reachable_approvals db" "findRequestById db rid = Some r"
    and "approve_check env r a t (findStepsByRequestId db rid) = Inr (cur, nxt)"
    and "sv_approvals cur = []" "st_requiredApprovals cur = 3" "ac_id b \<noteq> ac_id a"
    and "isEligible (ac_id b) (e_userGroups env (ac_id b) (ac_orgId b)) (sv_approvers cur)"
    and "t = CertCodeSigning \<Longrightarrow> rq_requesterId r \<noteq> Some (ac_id b)"
  shows "\<exists>v nxt'. approve_check env r b t
        (findStepsByRequestId (both_write now r cur nxt (ac_id a) (ac_id a) db) rid) = Inr (v, nxt') \<and>
      completes v \<and> approved_by (approved_step now v nxt' (approval_of v (ac_id b) None) v) = {ac_id a, ac_id b}"
proof -
  let ?db = "both_write now r cur nxt (ac_id a) (ac_id a) db" and ?v = "twice_approved cur (ac_id a) (ac_id a)"
  have nc: "\<not> completes cur" using assms(4,5) by (simp add: completes_def)
  note now = both_write_current(1-3) [OF reachable_inv [OF assms(1)] assms(2,3) nc, where now = now and u = "ac_id a" and w = "ac_id a"] both_write_current(4,5) [OF reachable_inv [OF assms(1)] assms(2,3) nc]
  obtain nxt' where at: "step_at (rq_currentStep r) (findStepsByRequestId ?db rid) = Some (?v, nxt')"
    using step_at_find [OF now(1)] by blast
  have "approve_check env r b t (findStepsByRequestId ?db rid) = Inr (?v, nxt')"
    using at approve_check_ok(1) [OF assms(3)] assms(4,6,7,8) by (simp add: approve_check_def)
  moreover have none: "approved_by cur = {}" using assms(4) by (simp add: approved_by_def)
  moreover have "completes ?v" using assms(4,5) by (simp add: completes_def)
  moreover have "approved_by (approved_step now ?v nxt' (approval_of ?v (ac_id b) None) ?v) = {ac_id a, ac_id b}"
    using approved_by_step(1) [where v = ?v and cur = ?v] none by auto
  ultimately show ?thesis by blast
qed

lemma double_approval_counts_twice_witness:
  "\<exists>r cur nxt v nxt'. sample_check ''a'' 3 three_created = Some (r, cur, nxt) \<and>
     approve_check sample_env r (by_user ''b'') PamAccess
       (findStepsByRequestId (both_write 100 r cur nxt ''a'' ''a'' three_created) 3) = Inr (v, nxt') \<and>
     completes v \<and> st_requiredApprovals cur = 3"
proof -
  have "map_option (\<lambda>(r, cur, nxt). sv_approvals cur = [] \<and> st_requiredApprovals cur = 3 \<and>
       isEligible ''b'' [] (sv_approvers cur)) (sample_check ''a'' 3 three_created) = Some True"
    by code_simp
  then obtain r cur nxt where c: "sample_check ''a'' 3 three_created = Some (r, cur, nxt)" "sv_approvals cur = []"
      "st_requiredApprovals cur = 3" "isEligible ''b'' [] (sv_approvers cur)" by auto
  note s = sample_checkD [OF c(1)]
  from double_approval_counts_twice [OF reachable_three s c(2,3), of "by_user ''b''" 100] c
  show ?thesis by (auto simp: by_user_def sample_env_def)
qed

section \<open>Approving while the requester cancels\<close>

text \<open>
  C35: An approval that was checked before the requester cancelled and is written afterwards overrides the
  cancellation: the request ends up approved, and for privileged access the requester gets a grant.
\<close>

theorem approval_overrides_cancellation:
  assumes "reachable_approvals db" "findRequestById db rid = Some r" "rq_type r = PamAccess"
    and "approve_check env r a PamAccess (findStepsByRequestId db rid) = Inr (cur, None)" "completes cur"
    and "cancelRequest env rid c db = (Inr res, db1)"
  shows "map_option rq_status (findRequestById db1 rid) = Some ApprovalRequestStatus.Cancelled \<and>
    (let db2 = snd (approve_finish env a rid cur None (approve_write (e_now env) r cur None (ac_id a) None db1))
     in map_option rq_status (findRequestById db2 rid) = Some ApprovalRequestStatus.Approved \<and>
        map gr_granteeUserId (grantsOf db2 rid) = [rq_requesterId r])"
proof -
  note inv = reachable_inv [OF assms(1)]
  have rid: "rq_id r = rid" using assms(2) findRequestById_id by blast
  have db1: "db1 = updateRequest rid (set_status ApprovalRequestStatus.Cancelled) db"
    using assms(2,6) by (auto simp: cancelRequest_def Let_def split: if_splits)
  then have r1: "findRequestById db1 rid = Some (set_status ApprovalRequestStatus.Cancelled r)"
    using assms(2) by (simp add: view_simps)
  let ?w = "approve_write (e_now env) r cur None (ac_id a) None db1" and ?ra = "set_status ApprovalRequestStatus.Approved r"
  have w: "findRequestById ?w rid = Some ?ra"
    using r1 assms(5) by (simp add: approve_write_def rid view_simps Let_def set_status_def)
  have gs: "grantsOf ?w rid = []"
    using pending_no_grants [OF inv assms(2)] approve_check_ok(1) [OF assms(4)] assms(5)
    by (simp add: approve_write_def rid view_simps Let_def db1)
  have typed: "data_typed ?ra" using approvals_invD(2) [OF inv assms(2)] by (simp add: local_inv_def)
  then obtain d where d: "rq_requestData r = PamData d"
    using assms(3) by (cases "rq_requestData r") (auto simp: data_typed_def)
  let ?db2 = "snd (approve_finish env a rid cur None ?w)"
  have "?db2 = pam_postApproval (e_ms env) (e_now env) ?ra d ?w"
    using w d assms(3) by (simp add: approve_finish_def postApprovalRoutine_def Let_def)
  then have "grantsOf ?db2 rid =
      [(blank_grant ?ra (PamAttributes d) (Some (e_now env + e_ms env (accessDuration d))))\<lparr>gr_id := db_next ?w\<rparr>]"
    by (simp add: pam_postApproval_def view_simps gs rid)
  then have "map gr_granteeUserId (grantsOf ?db2 rid) = [rq_requesterId r]" by simp
  moreover have "findRequestById ?db2 rid = Some ?ra" using w by (simp add: approve_finish_views)
  ultimately show ?thesis using r1 by (simp add: Let_def)
qed

lemma approval_overrides_cancellation_witness:
  "\<exists>r cur. sample_check ''c'' 4 last_step_current = Some (r, cur, None) \<and>
     map_option rq_status (findRequestById (snd (approve_finish sample_env (by_user ''c'') 4 cur None
       (approve_write 100 r cur None ''c'' None (snd (cancelRequest sample_env 4 (by_user ''u'') last_step_current))))) 4) =
     Some ApprovalRequestStatus.Approved"
proof -
  have run: "map_option (\<lambda>(r, cur, nxt). nxt = None \<and> completes cur \<and> rq_type r = PamAccess)
      (sample_check ''c'' 4 last_step_current) = Some True"
    "\<not> isl (fst (cancelRequest sample_env 4 (by_user ''u'') last_step_current))"
    by code_simp+
  obtain r cur where c: "sample_check ''c'' 4 last_step_current = Some (r, cur, None)" "completes cur" "rq_type r = PamAccess"
    using run(1) by auto
  obtain res db1 where x: "cancelRequest sample_env 4 (by_user ''u'') last_step_current = (Inr res, db1)"
    using run(2) by (cases "cancelRequest sample_env 4 (by_user ''u'') last_step_current"; cases "fst (cancelRequest sample_env 4 (by_user ''u'') last_step_current)") auto
  note s = sample_checkD [OF c(1)]
  from approval_overrides_cancellation [OF reachable_fold_approves [OF reachable_created] s(1) c(3) s(2) c(2) x] c(1) x
  show ?thesis by (auto simp: by_user_def sample_env_def Let_def)
qed

end
