(* ===== verification/PolicyAdministration.thy ===== *)
theory PolicyAdministration
  imports ApprovalProperties
begin

text \<open>
  The tables of the policies in a running service: the operations on requests leave them alone, those on
  policies keep their foreign keys, and so a policy reads back the way it was written, only policies of
  privileged access may be bypassed, and who is removed as an approver is one nowhere in the scope, but
  stays one on the requests that are open.
\<close>

section \<open>Operations on requests leave the policies alone\<close>

definition same_policies :: "approval_db \<Rightarrow> approval_db \<Rightarrow> bool" where
  "same_policies db db' \<longleftrightarrow> db_policies db' = db_policies db \<and> db_policySteps db' = db_policySteps db \<and>
     db_policyApprovers db' = db_policyApprovers db \<and> db_policyBypassers db' = db_policyBypassers db \<and>
     db_next db \<le> db_next db'"

lemma same_policies_refl [simp]: "same_policies db db"
  by (simp add: same_policies_def)

lemma same_policies_write [simp]:
  "same_policies db0 (updateRequest rid f db) = same_policies db0 db"
  "same_policies db0 (updateStep sid g db) = same_policies db0 db"
  "same_policies db0 (createApproval a db) = same_policies db0 db"
  "same_policies db0 (updateGrant gid h db) = same_policies db0 db"
  "same_policies db0 (db\<lparr>db_outbox := x\<rparr>) = same_policies db0 db"
  "same_policies db0 (set_cert_request c row db) = same_policies db0 db"
  "same_policies db0 (notifyStepApprovers env aps rid db) = same_policies db0 db"
  "same_policies db0 (markExpiredRequests now db) = same_policies db0 db"
  "same_policies db0 (markExpiredGrants now db) = same_policies db0 db"
  by (simp_all add: same_policies_def updateRequest_def updateStep_def createApproval_def updateGrant_def
      set_cert_request_def notifyStepApprovers_def markExpiredRequests_def markExpiredGrants_def Let_def split: option.split)

lemma same_policies_alloc [simp]:
  "same_policies db0 db \<Longrightarrow> same_policies db0 (snd (createGrant g db))"
  "same_policies db0 db \<Longrightarrow> same_policies db0 (create_steps now rid n ss db)"
  by (simp_all add: same_policies_def createGrant_def create_steps_eq Let_def)

lemma same_policies_grant: "createGrant g db = (g', db') \<Longrightarrow> same_policies db0 db \<Longrightarrow> same_policies db0 db'"
  using same_policies_alloc(1) [of db0 db g] by simp

lemma same_policies_complete [simp]:
  "same_policies db0 (foldl (\<lambda>acc s. updateStep (st_id s) f acc) db ss) = same_policies db0 db"
  by (induction ss arbitrary: db) simp_all

lemma same_policies_routines:
  "postApprovalRoutine env r db = (res, db') \<Longrightarrow> same_policies db0 db \<Longrightarrow> same_policies db0 db'"
  "postRejectionRoutine r db = (res, db') \<Longrightarrow> same_policies db0 db \<Longrightarrow> same_policies db0 db'"
  by (auto simp: postApprovalRoutine_def postRejectionRoutine_def pam_postApproval_def signing_postApproval_def
      cert_postApproval_def cert_postRejection_def Let_def
      split: request_data.splits ApprovalPolicyType.splits option.splits prod.splits)

lemma same_policies_finish:
  "approve_finish env a rid cur nxt db = (res, db') \<Longrightarrow> same_policies db0 db \<Longrightarrow> same_policies db0 db'"
  "reject_finish env a rid db = (res', db') \<Longrightarrow> same_policies db0 db \<Longrightarrow> same_policies db0 db'"
  by (auto simp: approve_finish_def reject_finish_def Let_def split: option.splits prod.splits sum.splits if_splits
      intro: same_policies_routines)

lemma same_policies_approve_write [simp]: "same_policies db0 (approve_write now r cur nxt u c db) = same_policies db0 db"
  by (simp add: approve_write_def Let_def split: option.split)

lemma same_policies_standard:
  "approve_standard env r comment a t db = (res, db') \<Longrightarrow> same_policies db db'"
  by (auto simp: approve_standard_def split: sum.splits prod.splits elim!: same_policies_finish)

lemma same_policies_break_glass:
  "approveRequestBreakGlass env r a p reason db = (res, db') \<Longrightarrow> same_policies db db'"
  by (auto simp: approveRequestBreakGlass_def break_glass_write_def Let_def
      split: sum.splits prod.splits option.splits if_splits elim!: same_policies_grant)

lemma same_policies_requests:
  "same_policies db (snd (createRequestFromPolicy env q db))"
  "same_policies db (snd (createRequest env t dto a db))"
  "same_policies db (snd (approveRequest env rid comment bypassReason a t db))"
  "same_policies db (snd (rejectRequest env rid comment a db))"
  "same_policies db (snd (cancelRequest env rid a db))"
  "same_policies db (snd (revokeGrant env gid reason a db))"
proof -
  show a: "same_policies db (snd (createRequestFromPolicy env q db))" for q
    unfolding createRequestFromPolicy_def createApprovalRequestWithSteps_def
    by (auto simp: Let_def split: list.split intro!: same_policies_alloc(2)) (auto simp: same_policies_def)
  show "same_policies db (snd (createRequest env t dto a db))"
    using a by (auto simp: createRequest_def split: sum.splits prod.splits) (metis snd_conv)+
  show "same_policies db (snd (approveRequest env rid comment bypassReason a t db))"
    by (auto simp: approveRequest_def split: sum.splits prod.splits option.splits
        intro: same_policies_standard same_policies_break_glass)
  show "same_policies db (snd (rejectRequest env rid comment a db))"
    by (auto simp: rejectRequest_def reject_write_def split: option.splits intro!: same_policies_finish(2) [OF prod.collapse [symmetric]])
  show "same_policies db (snd (cancelRequest env rid a db))" "same_policies db (snd (revokeGrant env gid reason a db))"
    by (auto simp: cancelRequest_def revokeGrant_def Let_def split: option.splits sum.splits)
qed

lemma same_policies_clients:
  "same_policies db (snd (requestCertificateApproval env c db))"
  "same_policies db (snd (requestToSign senv sdto a db))"
  "same_policies db (snd (preApproveSigning senv padto a db))"
  "same_policies db (snd (revokeRequest senv sid rid a db))"
  "same_policies db (expire_grant gid db)"
proof -
  have "same_policies db db1" if "createRequestFromPolicy env q (db\<lparr>db_certRequests := x\<rparr>) = (r, db1)" for q x r db1
    using same_policies_requests(1) [of "db\<lparr>db_certRequests := x\<rparr>" env q] that
    by (simp add: same_policies_def)
  then show "same_policies db (snd (requestCertificateApproval env c db))"
    by (auto simp: requestCertificateApproval_def Let_def split: option.split prod.split)
  show "same_policies db (snd (requestToSign senv sdto a db))"
    using same_policies_requests(1) [of db "se_approvals senv"]
    by (auto simp: requestToSign_def split: sum.splits prod.splits) (metis snd_conv)
  show "same_policies db (snd (preApproveSigning senv padto a db))"
    by (cases rule: preApproveSigning_tables [of senv padto a db])
      (simp_all add: same_policies_alloc(1) same_policies_def addRequest_def createGrant_def Let_def)
  show "same_policies db (snd (revokeRequest senv sid rid a db))" "same_policies db (expire_grant gid db)"
    by (auto simp: revokeRequest_def withdraw_request_def expire_grant_def split: sum.split) (simp add: same_policies_def)
qed

section \<open>The rows of a policy's steps\<close>

fun stored_steps :: "nat \<Rightarrow> nat \<Rightarrow> nat \<Rightarrow> policy_step list \<Rightarrow> policy_step_row list" where
  "stored_steps pid k n [] = []"
| "stored_steps pid k n (step # rest) = \<lparr>psr_id = k, psr_policyId = pid, psr_stepNumber = n, psr_name = ps_name step,
      psr_requiredApprovals = ps_requiredApprovals step, psr_notifyApprovers = ps_notifyApprovers step\<rparr>
      # stored_steps pid (Suc k) (Suc n) rest"

lemma insert_policy_steps_eq:
  "insert_policy_steps pid n ss db = db\<lparr>db_policySteps := db_policySteps db @ stored_steps pid (db_next db) n ss,
     db_policyApprovers := db_policyApprovers db @ created_eligible (db_next db) ss, db_next := db_next db + length ss\<rparr>"
  by (induction ss arbitrary: n db) simp_all

lemma stored_steps_facts:
  "s \<in> set (stored_steps pid k n ss) \<Longrightarrow> psr_policyId s = pid \<and> k \<le> psr_id s \<and> psr_id s < k + length ss"
  by (induction ss arbitrary: k n) force+

lemma stored_steps_ids: "map psr_id (stored_steps pid k n ss) = [k..<k + length ss]"
  by (induction ss arbitrary: k n) (simp_all add: upt_from del: upt_Suc)

lemma stored_steps_sorted: "sort_key psr_stepNumber (stored_steps pid k n ss) = stored_steps pid k n ss"
proof (rule sort_key_id_if_sorted)
  have "map psr_stepNumber (stored_steps pid k n ss) = [n..<n + length ss]"
    by (induction ss arbitrary: k n) (simp_all add: upt_from del: upt_Suc)
  then show "sorted (map psr_stepNumber (stored_steps pid k n ss))" by simp
qed

text \<open>A step reads back without its name when the name is empty.\<close>

definition read_back :: "policy_step \<Rightarrow> policy_step" where
  "read_back s = s\<lparr>ps_name := (if truthy (ps_name s) then ps_name s else None)\<rparr>"

lemma format_stored_steps:
  assumes "\<forall>e \<in> set E. sb_owner e < k" "db_policyApprovers db = E @ created_eligible k ss"
  shows "map (format_policy_step db) (stored_steps pid k n ss) = map read_back ss"
  using assms
proof (induction ss arbitrary: E k n)
  case (Cons s ss)
  have own: "subjectsOf k (db_policyApprovers db) = ps_approvers s"
    using Cons.prems subjectsOf_none [of "created_eligible (Suc k) ss" k] created_eligible_owners [of _ "Suc k" ss]
    by (force simp: subjectsOf_fresh)
  have "map (format_policy_step db) (stored_steps pid (Suc k) (Suc n) ss) = map read_back ss"
    using Cons.prems by (intro Cons.IH [of "E @ map (row_of_approver k) (ps_approvers s)"]) (auto simp: less_Suc_eq)
  moreover have "format_policy_step db (hd (stored_steps pid k n (s # ss))) = read_back s"
    using own by (simp add: format_policy_step_def read_back_def)
  ultimately show ?case by simp
qed simp

section \<open>The foreign keys\<close>

definition keys_fresh :: "approval_db \<Rightarrow> bool" where
  "keys_fresh db \<longleftrightarrow> distinct (map psr_id (db_policySteps db)) \<and>
     (\<forall>s \<in> set (db_policySteps db). psr_id s < db_next db \<and> psr_policyId s < db_next db) \<and>
     (\<forall>r \<in> set (db_policyApprovers db). sb_owner r < db_next db) \<and>
     (\<forall>r \<in> set (db_policyBypassers db). sb_owner r < db_next db)"

lemma insert_steps_fresh:
  assumes "keys_fresh db" "pid < db_next db"
  shows "keys_fresh (insert_policy_steps pid n ss db)"
proof -
  have "distinct (map psr_id (db_policySteps db @ stored_steps pid (db_next db) n ss))"
    using assms(1) stored_steps_ids [of pid "db_next db" n ss] by (fastforce simp: keys_fresh_def)
  moreover have "sb_owner r < db_next db + length ss" if "r \<in> set (created_eligible (db_next db) ss)" for r
    using created_eligible_owners [OF that] by simp
  ultimately show ?thesis
    using assms stored_steps_facts [of _ pid "db_next db" n ss]
    by (auto simp: keys_fresh_def insert_policy_steps_eq trans_less_add1)
qed

lemma delete_steps_fresh: "keys_fresh db \<Longrightarrow> keys_fresh (delete_policy_steps pid db)"
  by (auto simp: keys_fresh_def delete_policy_steps_def Let_def distinct_map_filter)

lemma bypassers_fresh:
  "keys_fresh db \<Longrightarrow> pid < db_next db \<Longrightarrow> keys_fresh (insert_bypassers pid bs db)"
  "keys_fresh db \<Longrightarrow> keys_fresh (delete_bypassers pid db)"
  by (auto simp: keys_fresh_def insert_bypassers_def delete_bypassers_def)

lemma insert_steps_view:
  assumes "keys_fresh db" "\<forall>s \<in> set (db_policySteps db). psr_policyId s \<noteq> pid"
  shows "findStepsByPolicyId (insert_policy_steps pid n ss db) i =
    (if i = pid then map read_back ss else findStepsByPolicyId db i)"
proof -
  let ?db = "insert_policy_steps pid n ss db"
  have old: "format_policy_step ?db s = format_policy_step db s" if "s \<in> set (db_policySteps db)" for s
    using that assms(1) subjectsOf_none [of "created_eligible (db_next db) ss" "psr_id s"] created_eligible_owners [of _ "db_next db" ss]
    by (force simp: format_policy_step_def insert_policy_steps_eq keys_fresh_def)
  have new: "map (format_policy_step ?db) (stored_steps pid (db_next db) n ss) = map read_back ss"
    using assms(1) by (intro format_stored_steps [of "db_policyApprovers db"]) (simp_all add: keys_fresh_def insert_policy_steps_eq)
  have "filter (\<lambda>s. psr_policyId s = pid) (stored_steps pid (db_next db) n ss) = stored_steps pid (db_next db) n ss"
    using stored_steps_facts by (auto simp: filter_id_conv)
  moreover have "i \<noteq> pid \<Longrightarrow> filter (\<lambda>s. psr_policyId s = i) (stored_steps pid (db_next db) n ss) = []"
    using stored_steps_facts by (auto simp: filter_empty_conv)
  moreover have "filter (\<lambda>s. psr_policyId s = pid) (db_policySteps db) = []"
    using assms(2) by (auto simp: filter_empty_conv)
  ultimately show ?thesis
    using new old by (auto simp: findStepsByPolicyId_def insert_policy_steps_eq stored_steps_sorted)
qed

lemma delete_steps_view:
  assumes "keys_fresh db"
  shows "findStepsByPolicyId (delete_policy_steps pid db) i = (if i = pid then [] else findStepsByPolicyId db i)"
proof -
  let ?gone = "psr_id ` {s \<in> set (db_policySteps db). psr_policyId s = pid}"
  have "subjectsOf (psr_id s) (filter (\<lambda>r. sb_owner r \<notin> ?gone) rows) = subjectsOf (psr_id s) rows"
    if "s \<in> set (db_policySteps db)" "psr_policyId s \<noteq> pid" for s rows
  proof -
    have "psr_id s \<notin> ?gone" using that assms by (auto simp: keys_fresh_def distinct_map dest: inj_onD)
    then show ?thesis by (induction rows) (auto simp: subjectsOf_def)
  qed
  then have same: "format_policy_step (delete_policy_steps pid db) s = format_policy_step db s"
    if "s \<in> set (db_policySteps db)" "psr_policyId s \<noteq> pid" for s
    using that by (simp add: format_policy_step_def delete_policy_steps_def Let_def)
  have "filter (\<lambda>s. psr_policyId s = i) (filter (\<lambda>s. psr_policyId s \<noteq> pid) ss) =
      (if i = pid then [] else filter (\<lambda>s. psr_policyId s = i) ss)"
    for ss :: "policy_step_row list"
    by (induction ss) auto
  then have "findStepsByPolicyId (delete_policy_steps pid db) i = (if i = pid then [] else
      map (format_policy_step (delete_policy_steps pid db))
        (sort_key psr_stepNumber (filter (\<lambda>s. psr_policyId s = i) (db_policySteps db))))"
    unfolding findStepsByPolicyId_def by (simp add: delete_policy_steps_def Let_def del: filter_filter)
  then show ?thesis using same by (auto simp: findStepsByPolicyId_def)
qed

lemma bypassers_view:
  "findBypassersByPolicyId (insert_bypassers pid bs db) i =
     (if i = pid then findBypassersByPolicyId db i @ bs else findBypassersByPolicyId db i)"
  "findBypassersByPolicyId (delete_bypassers pid db) i = (if i = pid then [] else findBypassersByPolicyId db i)"
  by (simp add: findBypassersByPolicyId_def insert_bypassers_def)
    (auto simp: findBypassersByPolicyId_def delete_bypassers_def subjectsOf_def filter_empty_conv
      intro!: arg_cong [where f = "map approver_of_row"] filter_cong)

section \<open>The invariant of the policies\<close>

definition policies_inv :: "approval_db \<Rightarrow> bool" where
  "policies_inv db \<longleftrightarrow> keys_fresh db \<and> distinct (map pl_id (db_policies db)) \<and>
     (\<forall>p \<in> set (db_policies db). pl_id p < db_next db \<and>
        (pl_type p \<noteq> PamAccess \<longrightarrow> pl_enforcementLevel p = Hard \<and> findBypassersByPolicyId db (pl_id p) = []))"

lemma policies_inv_same: "policies_inv db \<Longrightarrow> same_policies db db' \<Longrightarrow> policies_inv db'"
  by (fastforce simp: policies_inv_def same_policies_def keys_fresh_def findBypassersByPolicyId_def)

lemma policies_inv_approvers:
  "policies_inv db \<Longrightarrow> policies_inv (db\<lparr>db_policyApprovers := filter P (db_policyApprovers db)\<rparr>)"
  by (auto simp: policies_inv_def keys_fresh_def findBypassersByPolicyId_def)

lemma fresh_policy:
  assumes "keys_fresh db" "db_next db \<le> pid"
  shows "findBypassersByPolicyId db pid = []" "\<forall>s \<in> set (db_policySteps db). psr_policyId s \<noteq> pid"
  using assms by (auto simp: keys_fresh_def findBypassersByPolicyId_def intro!: subjectsOf_fresh)

lemma policy_rows_kept [simp]:
  "db_policies (insert_policy_steps pid n ss db) = db_policies db"
  "db_policies (insert_bypassers pid bs db) = db_policies db"
  "db_policies (delete_policy_steps pid db) = db_policies db"
  "db_policies (delete_bypassers pid db) = db_policies db"
  "db_next (insert_bypassers pid bs db) = db_next db"
  "db_next (delete_policy_steps pid db) = db_next db"
  "db_next (delete_bypassers pid db) = db_next db"
  "db_next (insert_policy_steps pid n ss db) = db_next db + length ss"
  "findBypassersByPolicyId (insert_policy_steps pid n ss db) = findBypassersByPolicyId db"
  "findBypassersByPolicyId (delete_policy_steps pid db) = findBypassersByPolicyId db"
  "findStepsByPolicyId (insert_bypassers pid bs db) = findStepsByPolicyId db"
  "findStepsByPolicyId (delete_bypassers pid db) = findStepsByPolicyId db"
  by (simp_all add: fun_eq_iff insert_policy_steps_eq insert_bypassers_def delete_policy_steps_def delete_bypassers_def Let_def
      findBypassersByPolicyId_def findStepsByPolicyId_def format_policy_step_def [abs_def])

lemma not_soft: "l \<noteq> Soft \<longleftrightarrow> l = Hard"
  by (cases l) simp_all

lemma bypass_supportedD:
  "bypass_supported t level bs = Inr u \<Longrightarrow> t \<noteq> PamAccess \<Longrightarrow> level \<noteq> Some Soft \<and> (case bs of None \<Rightarrow> [] | Some b \<Rightarrow> b) = []"
  by (auto simp: bypass_supported_def rguard_def split: if_splits option.splits)

text \<open>Creating a policy, after its checks.\<close>

definition store_policy :: "policy_row \<Rightarrow> policy_step list \<Rightarrow> approver list \<Rightarrow> approval_db \<Rightarrow> approval_db" where
  "store_policy p steps bypassers db = insert_bypassers (pl_id p) bypassers (insert_policy_steps (pl_id p) 1 steps
     (db\<lparr>db_policies := db_policies db @ [p], db_next := Suc (db_next db)\<rparr>))"

lemma createPolicy_cases:
  assumes "createPolicy env t dto a db = (res, db')"
  obtains e where "res = Inl e" "db' = db"
  | p where "pl_id p = db_next db" "pl_type p = t"
      "t \<noteq> PamAccess \<Longrightarrow> pl_enforcementLevel p = Hard \<and> (case cp_bypassers dto of None \<Rightarrow> [] | Some bs \<Rightarrow> bs) = []"
      "res = Inr (policy_row.extend p \<lparr>pv_steps = cp_steps dto, pv_bypassers = case cp_bypassers dto of None \<Rightarrow> [] | Some bs \<Rightarrow> bs\<rparr>)"
      "db' = store_policy p (cp_steps dto) (case cp_bypassers dto of None \<Rightarrow> [] | Some bs \<Rightarrow> bs) db"
proof (cases "check_create env t dto a")
  case (Inl e)
  then show ?thesis using assms that(1) by (auto simp: createPolicy_def)
next
  case (Inr x)
  obtain projectId sct sci where x: "x = (projectId, sct, sci)" by (cases x)
  let ?p = "new_policy_row (db_next db) projectId (ac_orgId a) t dto sct sci"
  have "bypass_supported t (cp_enforcementLevel dto) (cp_bypassers dto) = Inr ()"
    using Inr by (auto simp: check_create_def rbind_Inr_iff split: prod.splits)
  from bypass_supportedD [OF this] have "pl_enforcementLevel ?p = Hard \<and> (case cp_bypassers dto of None \<Rightarrow> [] | Some bs \<Rightarrow> bs) = []"
    if "t \<noteq> PamAccess" using that by (auto simp: new_policy_row_def not_soft split: option.split)
  then show ?thesis
    using assms Inr x that(2) [of ?p] by (auto simp: createPolicy_def new_policy_row_def store_policy_def Let_def)
qed

lemma store_policy_views:
  assumes fresh: "keys_fresh db" and id: "pl_id p = db_next db"
  shows "keys_fresh (store_policy p steps bypassers db)"
    "findStepsByPolicyId (store_policy p steps bypassers db) i =
       (if i = pl_id p then map read_back steps else findStepsByPolicyId db i)"
    "findBypassersByPolicyId (store_policy p steps bypassers db) i =
       (if i = pl_id p then bypassers else findBypassersByPolicyId db i)"
    "db_policies (store_policy p steps bypassers db) = db_policies db @ [p]"
    "db_next db < db_next (store_policy p steps bypassers db)"
proof -
  let ?db = "db\<lparr>db_policies := db_policies db @ [p], db_next := Suc (db_next db)\<rparr>"
  have fresh': "keys_fresh ?db" using fresh by (auto simp: keys_fresh_def less_Suc_eq)
  have views: "findStepsByPolicyId ?db = findStepsByPolicyId db" "findBypassersByPolicyId ?db = findBypassersByPolicyId db"
    by (simp_all add: fun_eq_iff findStepsByPolicyId_def findBypassersByPolicyId_def format_policy_step_def [abs_def])
  show "keys_fresh (store_policy p steps bypassers db)"
    unfolding store_policy_def using fresh' id by (intro bypassers_fresh insert_steps_fresh) simp_all
  show "findStepsByPolicyId (store_policy p steps bypassers db) i =
       (if i = pl_id p then map read_back steps else findStepsByPolicyId db i)"
    using insert_steps_view [OF fresh', of "pl_id p" 1 steps i] fresh_policy(2) [OF fresh] id
    by (simp add: store_policy_def views)
  show "findBypassersByPolicyId (store_policy p steps bypassers db) i =
       (if i = pl_id p then bypassers else findBypassersByPolicyId db i)"
    using fresh_policy(1) [OF fresh] id by (simp add: store_policy_def bypassers_view views)
qed (simp_all add: store_policy_def)

lemma policies_inv_create:
  assumes inv: "policies_inv db"
  shows "policies_inv (snd (createPolicy env t dto a db))"
proof -
  obtain res db' where c: "createPolicy env t dto a db = (res, db')" by fastforce
  from c show ?thesis
  proof (cases rule: createPolicy_cases)
    case (2 p)
    note views = store_policy_views [OF _ 2(1), where steps = "cp_steps dto" and
        bypassers = "case cp_bypassers dto of None \<Rightarrow> [] | Some bs \<Rightarrow> bs"]
    have old: "q \<in> set (db_policies db) \<Longrightarrow> pl_id q < db_next db" for q using inv by (simp add: policies_inv_def)
    then have "pl_id p \<notin> pl_id ` set (db_policies db)" using 2(1) by fastforce
    with inv views old 2 c show ?thesis
      by (auto simp: policies_inv_def intro: less_trans) (metis less_irrefl)+
  qed (use inv c in auto)
qed

text \<open>Changing a policy, after its checks.\<close>

lemma hard_update:
  "bypass_supported (pl_type p) (up_enforcementLevel dto) (up_bypassers dto) = Inr u \<Longrightarrow> pl_type p \<noteq> PamAccess \<Longrightarrow>
     pl_enforcementLevel p = Hard \<Longrightarrow> pl_enforcementLevel (update_policy_row dto p) = Hard"
  using bypass_supportedD [of "pl_type p" "up_enforcementLevel dto" "up_bypassers dto" u]
  by (auto simp: update_policy_row_def not_soft [symmetric] split: option.splits)

lemma update_policy_views:
  assumes fresh: "keys_fresh db" and pid: "pid < db_next db"
  shows "keys_fresh (replace_bypassers pid bs (replace_steps pid ss db))"
    "findStepsByPolicyId (replace_bypassers pid bs (replace_steps pid ss db)) i =
       (case ss of Some steps \<Rightarrow> if i = pid then map read_back steps else findStepsByPolicyId db i
        | None \<Rightarrow> findStepsByPolicyId db i)"
    "findBypassersByPolicyId (replace_bypassers pid bs (replace_steps pid ss db)) i =
       (case bs of Some b \<Rightarrow> if i = pid then b else findBypassersByPolicyId db i | None \<Rightarrow> findBypassersByPolicyId db i)"
    "db_policies (replace_bypassers pid bs (replace_steps pid ss db)) = db_policies db"
    "db_next db \<le> db_next (replace_bypassers pid bs (replace_steps pid ss db))"
proof -
  note del = delete_steps_fresh [OF fresh, of pid]
  have none: "\<forall>s \<in> set (db_policySteps (delete_policy_steps pid db)). psr_policyId s \<noteq> pid"
    by (simp add: delete_policy_steps_def Let_def)
  have 1: "keys_fresh (replace_steps pid ss db)"
    using fresh insert_steps_fresh [OF del] pid by (simp add: replace_steps_def split: option.split)
  then show "keys_fresh (replace_bypassers pid bs (replace_steps pid ss db))"
    using pid by (auto simp: replace_bypassers_def replace_steps_def intro!: bypassers_fresh split: option.split)
  show "findStepsByPolicyId (replace_bypassers pid bs (replace_steps pid ss db)) i =
       (case ss of Some steps \<Rightarrow> if i = pid then map read_back steps else findStepsByPolicyId db i
        | None \<Rightarrow> findStepsByPolicyId db i)"
    using insert_steps_view [OF del none] delete_steps_view [OF fresh]
    by (auto simp: replace_bypassers_def replace_steps_def split: option.split)
qed (auto simp: replace_bypassers_def replace_steps_def bypassers_view split: option.split)

lemma update_policy_row_id [simp]: "pl_id (update_policy_row dto p) = pl_id p" "pl_type (update_policy_row dto p) = pl_type p"
  by (simp_all add: update_policy_row_def)

definition updated_db :: "nat \<Rightarrow> update_policy_dto \<Rightarrow> approval_db \<Rightarrow> approval_db" where
  "updated_db pid dto db = replace_bypassers pid (up_bypassers dto) (replace_steps pid (up_steps dto)
     (db\<lparr>db_policies := map (\<lambda>q. if pl_id q = pid then update_policy_row dto q else q) (db_policies db)\<rparr>))"

lemma updatePolicy_cases:
  assumes "updatePolicyById env pid dto a db = (res, db')"
  obtains e where "res = Inl e" "db' = db"
  | p where "findPolicyById db pid = Some p" "bypass_supported (pl_type p) (up_enforcementLevel dto) (up_bypassers dto) = Inr ()"
      "res = Inr (view_policy (updated_db pid dto db) (update_policy_row dto p))" "db' = updated_db pid dto db"
proof (cases "findPolicyById db pid")
  case None
  then show ?thesis using assms that(1) by (auto simp: updatePolicyById_def)
next
  case (Some p)
  show ?thesis
  proof (cases "check_update env p dto a")
    case (Inl e)
    then show ?thesis using Some assms that(1) by (auto simp: updatePolicyById_def)
  next
    case (Inr u)
    then have "bypass_supported (pl_type p) (up_enforcementLevel dto) (up_bypassers dto) = Inr ()"
      by (auto simp: check_update_def rbind_Inr_iff)
    moreover have "res = Inr (view_policy (updated_db pid dto db) (update_policy_row dto p)) \<and> db' = updated_db pid dto db"
      using Some Inr assms by (auto simp: updatePolicyById_def updated_db_def Let_def)
    ultimately show ?thesis using that(2) [OF Some] by blast
  qed
qed

lemma findPolicyById_in: "findPolicyById db pid = Some p \<Longrightarrow> p \<in> set (db_policies db) \<and> pl_id p = pid"
  by (auto simp: findPolicyById_def find_Some_iff)

lemma updated_views:
  assumes "keys_fresh db" "pid < db_next db"
  shows "keys_fresh (updated_db pid dto db)"
    "findStepsByPolicyId (updated_db pid dto db) i =
       (case up_steps dto of Some steps \<Rightarrow> if i = pid then map read_back steps else findStepsByPolicyId db i
        | None \<Rightarrow> findStepsByPolicyId db i)"
    "findBypassersByPolicyId (updated_db pid dto db) i =
       (case up_bypassers dto of Some b \<Rightarrow> if i = pid then b else findBypassersByPolicyId db i | None \<Rightarrow> findBypassersByPolicyId db i)"
    "db_policies (updated_db pid dto db) = map (\<lambda>q. if pl_id q = pid then update_policy_row dto q else q) (db_policies db)"
    "db_next db \<le> db_next (updated_db pid dto db)"
    "findPolicyById (updated_db pid dto db) i =
       (if i = pid then map_option (update_policy_row dto) (findPolicyById db pid) else findPolicyById db i)"
proof -
  let ?db = "db\<lparr>db_policies := map (\<lambda>q. if pl_id q = pid then update_policy_row dto q else q) (db_policies db)\<rparr>"
  have fresh': "keys_fresh ?db" "pid < db_next ?db" using assms by (simp_all add: keys_fresh_def)
  have views: "findStepsByPolicyId ?db = findStepsByPolicyId db" "findBypassersByPolicyId ?db = findBypassersByPolicyId db"
    by (simp_all add: fun_eq_iff findStepsByPolicyId_def findBypassersByPolicyId_def format_policy_step_def [abs_def])
  note u = update_policy_views [OF fresh', of "up_bypassers dto" "up_steps dto"]
  show "keys_fresh (updated_db pid dto db)" using u(1) by (simp add: updated_db_def)
  show "findStepsByPolicyId (updated_db pid dto db) i =
       (case up_steps dto of Some steps \<Rightarrow> if i = pid then map read_back steps else findStepsByPolicyId db i
        | None \<Rightarrow> findStepsByPolicyId db i)"
    "findBypassersByPolicyId (updated_db pid dto db) i =
       (case up_bypassers dto of Some b \<Rightarrow> if i = pid then b else findBypassersByPolicyId db i | None \<Rightarrow> findBypassersByPolicyId db i)"
    unfolding updated_db_def u(2,3) views by (rule refl)+
  show rows: "db_policies (updated_db pid dto db) = map (\<lambda>q. if pl_id q = pid then update_policy_row dto q else q) (db_policies db)"
    "db_next db \<le> db_next (updated_db pid dto db)"
    using u(4,5) by (simp_all add: updated_db_def)
  show "findPolicyById (updated_db pid dto db) i =
       (if i = pid then map_option (update_policy_row dto) (findPolicyById db pid) else findPolicyById db i)"
    using find_map_id [of pl_id "update_policy_row dto"] by (simp add: findPolicyById_def rows)
qed

lemma policies_inv_update:
  assumes inv: "policies_inv db"
  shows "policies_inv (snd (updatePolicyById env pid dto a db))"
proof -
  obtain res db' where c: "updatePolicyById env pid dto a db = (res, db')" by fastforce
  from c show ?thesis
  proof (cases rule: updatePolicy_cases)
    case (2 p)
    note p = findPolicyById_in [OF 2(1)]
    have pid: "pid < db_next db" using p inv by (auto simp: policies_inv_def)
    have fresh: "keys_fresh db" using inv by (simp add: policies_inv_def)
    note v = updated_views [OF fresh pid, where dto = dto]
    have "distinct (map pl_id (db_policies (updated_db pid dto db)))"
      using inv v(4) by (simp add: policies_inv_def comp_def if_distrib cong: if_cong)
    moreover have "pl_id q < db_next (updated_db pid dto db) \<and> (pl_type q \<noteq> PamAccess \<longrightarrow>
        pl_enforcementLevel q = Hard \<and> findBypassersByPolicyId (updated_db pid dto db) (pl_id q) = [])"
      if "q \<in> set (db_policies (updated_db pid dto db))" for q
    proof -
      from that obtain q0 where q0: "q0 \<in> set (db_policies db)" "q = (if pl_id q0 = pid then update_policy_row dto q0 else q0)"
        using inv v(4) by (auto simp: policies_inv_def)
      have same: "pl_id q0 = pid \<Longrightarrow> q0 = p"
        using inv q0(1) p by (auto simp: policies_inv_def distinct_map dest: inj_onD)
      show ?thesis
      proof (cases "pl_id q0 = pid")
        case True
        then have q: "q = update_policy_row dto p" "pl_id q = pid" using q0(2) same p by auto
        moreover have "pl_type q \<noteq> PamAccess \<Longrightarrow> pl_enforcementLevel q = Hard"
          using q hard_update [OF 2(2)] p inv by (simp add: policies_inv_def)
        moreover have "pl_type q \<noteq> PamAccess \<Longrightarrow> findBypassersByPolicyId (updated_db pid dto db) pid = []"
          using q bypass_supportedD [OF 2(2)] p inv by (auto simp: v(3) policies_inv_def split: option.split)
        ultimately show ?thesis using pid inv v(5) by (auto simp: policies_inv_def)
      next
        case False
        with q0 inv v(3,5) show ?thesis by (fastforce simp: policies_inv_def split: option.split)
      qed
    qed
    ultimately show ?thesis using inv v(1) 2 c by (simp add: policies_inv_def)
  qed (use inv c in auto)
qed

lemma policies_inv_delete:
  assumes inv: "policies_inv db"
  shows "policies_inv (snd (deletePolicyById env pid a db))"
proof -
  let ?db = "delete_bypassers pid (delete_policy_steps pid db)"
  have "keys_fresh ?db" using inv by (simp add: policies_inv_def delete_steps_fresh bypassers_fresh)
  then have "policies_inv (?db\<lparr>db_policies := filter (\<lambda>q. pl_id q \<noteq> pid) (db_policies ?db), db_requests := rs\<rparr>)" for rs
    using inv bypassers_view(2) [of pid "delete_policy_steps pid db"]
    by (simp add: policies_inv_def keys_fresh_def distinct_map_filter findBypassersByPolicyId_def)
  with inv show ?thesis by (simp add: deletePolicyById_def Let_def split: option.split sum.split)
qed

lemma policies_inv_removals:
  "policies_inv db \<Longrightarrow> policies_inv (snd (deleteStepApproversBySubject projectId options userId groupId db))"
  "policies_inv db \<Longrightarrow> policies_inv (deleteUserStepApproversInProjects projectIds userIds scopeTypes db)"
  by (simp_all add: deleteStepApproversBySubject_def deleteUserStepApproversInProjects_def Let_def policies_inv_approvers)

lemma policies_inv_step: "approval_step db db' \<Longrightarrow> policies_inv db \<Longrightarrow> policies_inv db'"
  by (induction rule: approval_step.induct)
    (simp_all add: policies_inv_create policies_inv_update policies_inv_delete policies_inv_removals
      policies_inv_same [OF _ same_policies_clients(1)] policies_inv_same [OF _ same_policies_clients(2)]
      policies_inv_same [OF _ same_policies_clients(3)] policies_inv_same [OF _ same_policies_clients(4)]
      policies_inv_same [OF _ same_policies_clients(5)]
      policies_inv_same [OF _ same_policies_requests(1)] policies_inv_same [OF _ same_policies_requests(2)]
      policies_inv_same [OF _ same_policies_requests(3)] policies_inv_same [OF _ same_policies_requests(4)]
      policies_inv_same [OF _ same_policies_requests(5)] policies_inv_same [OF _ same_policies_requests(6)]
      policies_inv_same [where db' = "markExpiredRequests _ _"] policies_inv_same [where db' = "markExpiredGrants _ _"])

lemma reachable_policies_inv: "reachable_approvals db \<Longrightarrow> policies_inv db"
proof -
  have "approval_run db db' \<Longrightarrow> policies_inv db \<Longrightarrow> policies_inv db'" for db db'
    by (induction rule: approval_run.induct) (simp_all add: policies_inv_step)
  moreover have "policies_inv empty_db" by (simp add: policies_inv_def keys_fresh_def empty_db_def)
  ultimately show "reachable_approvals db \<Longrightarrow> policies_inv db" by (auto simp: reachable_approvals_def)
qed

section \<open>Properties of the policies\<close>

text \<open>
  C31: Only policies of privileged access can be bypassed: whatever policies are created and changed, a
  policy of another type stays hard and has no bypassers.
\<close>

theorem only_privileged_access_is_bypassed:
  assumes "reachable_approvals db" "findPolicyById db pid = Some p" "pl_type p \<noteq> PamAccess"
  shows "pl_enforcementLevel p = Hard \<and> findBypassersByPolicyId db pid = [] \<and> \<not> is_break_glass env db r a p"
  using reachable_policies_inv [OF assms(1)] findPolicyById_in [OF assms(2)] assms(3)
  by (auto simp: policies_inv_def is_break_glass_def)

text \<open>
  C30: A created policy reads back as it was given (an empty name of a step counts as none), with its
  steps in their order and each with its own approvers, and no other policy changes.
\<close>

theorem policy_round_trip:
  assumes "reachable_approvals db" "createPolicy env t dto a db = (Inr v, db')"
  shows "\<exists>p. findPolicyById db' (pl_id v) = Some p \<and>
    view_policy db' p = v\<lparr>pv_steps := map read_back (cp_steps dto)\<rparr> \<and>
    pl_type p = t \<and> findPolicyById db (pl_id v) = None \<and>
    (\<forall>q \<in> set (db_policies db). findPolicyById db' (pl_id q) = Some q \<and> view_policy db' q = view_policy db q)"
  using assms(2)
proof (cases rule: createPolicy_cases)
  case (2 p)
  have inv: "keys_fresh db" "distinct (map pl_id (db_policies db))" "\<forall>q \<in> set (db_policies db). pl_id q < db_next db"
    using reachable_policies_inv [OF assms(1)] by (simp_all add: policies_inv_def)
  note views = store_policy_views [OF inv(1) 2(1), where steps = "cp_steps dto" and
      bypassers = "case cp_bypassers dto of None \<Rightarrow> [] | Some bs \<Rightarrow> bs", folded 2(5)]
  have id: "pl_id v = pl_id p" using 2(4) by (simp add: policy_row.defs)
  have new: "findPolicyById db (pl_id p) = None"
    using inv(3) 2(1) by (auto simp: findPolicyById_def find_None_iff)
  then have p: "findPolicyById db' (pl_id p) = Some p"
    by (simp add: findPolicyById_def views(4) find_append)
  moreover have "view_policy db' p = v\<lparr>pv_steps := map read_back (cp_steps dto)\<rparr>"
    using 2(4) by (simp add: view_policy_def views policy_row.defs)
  moreover have "findPolicyById db' (pl_id q) = Some q \<and> view_policy db' q = view_policy db q" if "q \<in> set (db_policies db)" for q
  proof -
    have "find (\<lambda>x. pl_id x = pl_id q) qs = Some q" if "q \<in> set qs" "distinct (map pl_id qs)" for qs
      using that by (induction qs) (auto simp: rev_image_eqI)
    then have "findPolicyById db' (pl_id q) = Some q"
      using that inv(2) by (simp add: findPolicyById_def views(4) find_append)
    moreover have "pl_id q \<noteq> pl_id p" using that inv(3) 2(1) by fastforce
    ultimately show ?thesis by (simp add: view_policy_def views)
  qed
  ultimately show ?thesis using 2(2) new id by auto
qed simp

text \<open>
  A change of a policy replaces exactly what it gives: the steps when it gives steps, the bypassers
  when it gives bypassers, the other fields likewise, and nothing of any other policy.
\<close>

theorem change_replaces_what_it_gives:
  assumes "reachable_approvals db" "updatePolicyById env pid dto a db = (Inr v, db')"
  shows "findPolicyById db' i = (if i = pid then map_option (update_policy_row dto) (findPolicyById db pid) else findPolicyById db i) \<and>
    findStepsByPolicyId db' i =
      (if i = pid \<and> up_steps dto \<noteq> None then map read_back (the (up_steps dto)) else findStepsByPolicyId db i) \<and>
    findBypassersByPolicyId db' i =
      (if i = pid \<and> up_bypassers dto \<noteq> None then the (up_bypassers dto) else findBypassersByPolicyId db i)"
  using assms(2)
proof (cases rule: updatePolicy_cases)
  case (2 p)
  have "keys_fresh db" "pid < db_next db"
    using reachable_policies_inv [OF assms(1)] findPolicyById_in [OF 2(1)] by (auto simp: policies_inv_def)
  note v = updated_views(2,3,6) [OF this, where dto = dto and i = i, folded 2(4)]
  show ?thesis using v by (auto split: option.split)
qed simp

section \<open>Removing an approver\<close>

lemma policy_approver_rows_iff:
  "r \<in> set (policy_approver_rows db pid) \<longleftrightarrow>
     r \<in> set (db_policyApprovers db) \<and> (\<exists>s \<in> set (db_policySteps db). psr_policyId s = pid \<and> sb_owner r = psr_id s)"
  by (auto simp: policy_approver_rows_def)

text \<open>The policies that are changed, and the rows that go.\<close>

definition affected_policies :: "string \<Rightarrow> scope_filter \<Rightarrow> string option \<Rightarrow> string option \<Rightarrow> approval_db \<Rightarrow> policy_row list" where
  "affected_policies projectId options userId groupId db = filter (\<lambda>p. pl_projectId p = projectId \<and>
     scope_passes options (pl_scopeType p) (pl_scopeId p) \<and>
     list_ex (row_names userId groupId) (policy_approver_rows db (pl_id p))) (db_policies db)"

lemma deleteStepApprovers_rows:
  assumes "truthy userId \<or> truthy groupId"
  shows "db_policyApprovers (snd (deleteStepApproversBySubject projectId options userId groupId db)) =
    filter (\<lambda>r. \<not> (sb_owner r \<in> psr_id ` {s \<in> set (db_policySteps db). psr_policyId s \<in>
        pl_id ` set (affected_policies projectId options userId groupId db)} \<and> row_names userId groupId r)) (db_policyApprovers db)"
proof -
  let ?aff = "affected_policies projectId options userId groupId db"
  let ?in = "\<lambda>s. psr_policyId s \<in> set (map pl_id ?aff)"
  have d: "db_policyApprovers (snd (deleteStepApproversBySubject projectId options userId groupId db)) =
      (if ?aff = [] \<or> filter ?in (db_policySteps db) = [] then db_policyApprovers db
       else filter (\<lambda>r. \<not> (sb_owner r \<in> set (map psr_id (filter ?in (db_policySteps db))) \<and> row_names userId groupId r)) (db_policyApprovers db))"
    using assms unfolding deleteStepApproversBySubject_def affected_policies_def [symmetric] Let_def
    by (simp only: if_False de_Morgan_disj not_not map_is_Nil_conv snd_conv split: if_split) auto
  show ?thesis
  proof (cases "filter ?in (db_policySteps db) = []")
    case True
    then have "{s \<in> set (db_policySteps db). psr_policyId s \<in> pl_id ` set ?aff} = {}"
      unfolding filter_empty_conv by auto
    with True show ?thesis unfolding d by (simp only: image_empty empty_iff simp_thms if_True) simp
  next
    case False
    then have "?aff \<noteq> []" by auto
    with False show ?thesis unfolding d by (simp only: if_False simp_thms set_map set_filter)
  qed
qed

lemma removed_rows_gone:
  assumes "p \<in> set (db_policies db)" "pl_projectId p = projectId" "scope_passes options (pl_scopeType p) (pl_scopeId p)"
    and some: "truthy userId \<or> truthy groupId"
    and r: "r \<in> set (policy_approver_rows (snd (deleteStepApproversBySubject projectId options userId groupId db)) (pl_id p))"
  shows "\<not> row_names userId groupId r"
proof
  assume n: "row_names userId groupId r"
  let ?db = "snd (deleteStepApproversBySubject projectId options userId groupId db)"
  have same: "db_policySteps ?db = db_policySteps db" by (simp add: deleteStepApproversBySubject_def Let_def)
  then obtain s where s: "s \<in> set (db_policySteps db)" "psr_policyId s = pl_id p" "sb_owner r = psr_id s" "r \<in> set (db_policyApprovers ?db)"
    using r by (auto simp: policy_approver_rows_iff)
  then have old: "r \<in> set (db_policyApprovers db)" by (simp add: deleteStepApprovers_rows [OF some])
  with s(1-3) have "r \<in> set (policy_approver_rows db (pl_id p))" by (auto simp: policy_approver_rows_iff)
  with n have "list_ex (row_names userId groupId) (policy_approver_rows db (pl_id p))" by (auto simp: list_ex_iff)
  with assms(1-3) have "p \<in> set (affected_policies projectId options userId groupId db)" by (simp add: affected_policies_def)
  with s(1-3) n have "r \<notin> set (db_policyApprovers ?db)" by (auto simp: deleteStepApprovers_rows [OF some])
  with s(4) show False by blast
qed

lemma find_by_row_names:
  "truthy userId \<or> truthy groupId \<Longrightarrow> findPoliciesWhereSubjectIsApprover db projectId options userId groupId =
     map (\<lambda>p. (pl_id p, pl_name p)) (filter (\<lambda>p. pl_projectId p = projectId \<and>
       scope_passes options (pl_scopeType p) (pl_scopeId p) \<and>
       list_ex (row_names userId groupId) (policy_approver_rows db (pl_id p))) (db_policies db))"
  by (simp add: findPoliciesWhereSubjectIsApprover_def row_names_def [abs_def])

text \<open>
  Removing a member removes it from all the policies of the scope, which are the ones a preview lists,
  and nobody else; but a request that is open keeps its own approvers, so the removed member can
  still approve it.
\<close>

theorem removed_approver_stays_on_open_requests:
  assumes "truthy userId \<or> truthy groupId"
  shows "let (affected, db') = deleteStepApproversBySubject projectId options userId groupId db in
    affected = findPoliciesWhereSubjectIsApprover db projectId options userId groupId \<and>
    findPoliciesWhereSubjectIsApprover db' projectId options userId groupId = [] \<and>
    filter (\<lambda>r. \<not> row_names userId groupId r) (db_policyApprovers db') =
      filter (\<lambda>r. \<not> row_names userId groupId r) (db_policyApprovers db) \<and>
    (\<forall>r a t rid. approve_check env r a t (findStepsByRequestId db' rid) = approve_check env r a t (findStepsByRequestId db rid))"
proof -
  obtain affected db' where d: "deleteStepApproversBySubject projectId options userId groupId db = (affected, db')" by fastforce
  have "affected = findPoliciesWhereSubjectIsApprover db projectId options userId groupId"
    using d assms by (auto simp: deleteStepApproversBySubject_def findPoliciesWhereSubjectIsApprover_def row_names_def [abs_def] Let_def)
  moreover have "findPoliciesWhereSubjectIsApprover db' projectId options userId groupId = []"
  proof -
    have "db_policies db' = db_policies db" using d by (auto simp: deleteStepApproversBySubject_def Let_def split: if_splits)
    then show ?thesis
      using removed_rows_gone [where projectId = projectId and options = options and userId = userId and groupId = groupId
          and db = db, unfolded d snd_conv] assms
      by (auto simp: find_by_row_names filter_empty_conv list_ex_iff)
  qed
  moreover have "filter (\<lambda>r. \<not> row_names userId groupId r) (db_policyApprovers db') =
      filter (\<lambda>r. \<not> row_names userId groupId r) (db_policyApprovers db)"
    using deleteStepApprovers_rows [OF assms, of projectId options db] d by (auto intro: filter_cong)
  moreover have "findStepsByRequestId db' rid = findStepsByRequestId db rid" for rid
    using removals_untouched(1) [of db projectId options userId groupId] d untouched_views(2) by fastforce
  ultimately show ?thesis by (simp add: d)
qed

section \<open>Sample policies\<close>

definition sample_policy_dto :: create_policy_dto where
  "sample_policy_dto = \<lparr>cp_scope = ApprovalPolicyScope.Project, cp_scopeId = ''p'', cp_name = ''n'', cp_maxRequestTtl = None,
     cp_conditions = PamConditions [\<lparr>resourceNames = Some [''db''], accountNames = None\<rparr>],
     cp_constraints = PamConstraints ''1h'' ''2h'',
     cp_steps = [(sample_step 2 [''a'', ''b''])\<lparr>ps_name := Some []\<rparr>, sample_step 1 [''c'']],
     cp_bypassForMachineIdentities = None, cp_enforcementLevel = Some Soft, cp_bypassers = Some [user_approver ''a'']\<rparr>"

definition no_change :: update_policy_dto where
  "no_change = \<lparr>up_name = None, up_maxRequestTtl = None, up_conditions = None, up_constraints = None, up_steps = None,
     up_bypassForMachineIdentities = None, up_enforcementLevel = None, up_bypassers = None\<rparr>"

definition with_policy :: approval_db where
  "with_policy = snd (createPolicy sample_env PamAccess sample_policy_dto (by_user ''x'') empty_db)"

definition cert_policy_dto :: create_policy_dto where
  "cert_policy_dto = sample_policy_dto\<lparr>cp_conditions := CertConditions [[''web'']], cp_constraints := CertConstraints,
     cp_enforcementLevel := None, cp_bypassers := None\<rparr>"

definition with_cert_policy :: approval_db where
  "with_cert_policy = snd (createPolicy sample_env CertRequest cert_policy_dto (by_user ''x'') with_policy)"

lemma reachable_with_policy: "reachable_approvals with_policy"
  unfolding with_policy_def by (rule reachable_step [OF reachable_empty approval_step.policy_created])

lemma reachable_with_cert_policy: "reachable_approvals with_cert_policy"
  unfolding with_cert_policy_def by (rule reachable_step [OF reachable_with_policy approval_step.policy_created])

lemma only_privileged_access_is_bypassed_witness:
  "map_option (\<lambda>p. is_break_glass sample_env with_cert_policy (sample_request ''db'') (by_user ''u'') p)
     (findPolicyById with_cert_policy 4) = Some False"
proof -
  have "map_option pl_type (findPolicyById with_cert_policy 4) = Some CertRequest" by code_simp
  then obtain p where "findPolicyById with_cert_policy 4 = Some p" "pl_type p \<noteq> PamAccess" by auto
  with only_privileged_access_is_bypassed [OF reachable_with_cert_policy this] show ?thesis by simp
qed

lemma policy_round_trip_witness:
  "map_option (\<lambda>p. map ps_name (pv_steps (view_policy with_policy p))) (findPolicyById with_policy 1) = Some [None, None] \<and>
   (\<exists>v p. fst (createPolicy sample_env PamAccess sample_policy_dto (by_user ''x'') empty_db) = Inr v \<and>
      findPolicyById with_policy (pl_id v) = Some p \<and>
      pv_steps (view_policy with_policy p) = [sample_step 2 [''a'', ''b''], sample_step 1 [''c'']])"
proof -
  have run: "\<not> isl (fst (createPolicy sample_env PamAccess sample_policy_dto (by_user ''x'') empty_db))"
    "map_option (\<lambda>p. map ps_name (pv_steps (view_policy with_policy p))) (findPolicyById with_policy 1) = Some [None, None]"
    by code_simp+
  then obtain v where v: "fst (createPolicy sample_env PamAccess sample_policy_dto (by_user ''x'') empty_db) = Inr v"
    by (cases "fst (createPolicy sample_env PamAccess sample_policy_dto (by_user ''x'') empty_db)") auto
  then have "createPolicy sample_env PamAccess sample_policy_dto (by_user ''x'') empty_db = (Inr v, with_policy)"
    by (simp add: with_policy_def prod_eq_iff)
  from policy_round_trip [OF reachable_empty this] run(2) v show ?thesis
    by (auto simp: sample_policy_dto_def sample_step_def read_back_def truthy_def)
qed

lemma change_replaces_what_it_gives_witness:
  "\<exists>db'. snd (updatePolicyById sample_env 1 (no_change\<lparr>up_name := Some ''m''\<rparr>) (by_user ''x'') with_policy) = db' \<and>
     map_option pl_name (findPolicyById db' 1) = Some ''m'' \<and>
     findBypassersByPolicyId db' 1 = findBypassersByPolicyId with_policy 1"
proof -
  let ?u = "updatePolicyById sample_env 1 (no_change\<lparr>up_name := Some ''m''\<rparr>) (by_user ''x'') with_policy"
  have run: "\<not> isl (fst ?u)" "findPolicyById with_policy 1 \<noteq> None" by code_simp+
  then obtain v where "?u = (Inr v, snd ?u)" by (cases "fst ?u") (auto simp: prod_eq_iff)
  from change_replaces_what_it_gives [OF reachable_with_policy this, of 1] run(2) show ?thesis
    by (auto simp: no_change_def update_policy_row_def)
qed

lemma removed_approver_stays_on_open_requests_witness:
  "fst (deleteStepApproversBySubject ''p'' AnyScope (Some ''a'') None with_policy) = [(1, ''n'')] \<and>
   findPoliciesWhereSubjectIsApprover (snd (deleteStepApproversBySubject ''p'' AnyScope (Some ''a'') None with_policy))
     ''p'' AnyScope (Some ''a'') None = []"
proof -
  have "truthy (Some ''a'') \<or> truthy None" by (simp add: truthy_def)
  from removed_approver_stays_on_open_requests [OF this, of "''p''" AnyScope with_policy]
  have "findPoliciesWhereSubjectIsApprover (snd (deleteStepApproversBySubject ''p'' AnyScope (Some ''a'') None with_policy))
      ''p'' AnyScope (Some ''a'') None = []" by (simp add: case_prod_beta Let_def)
  moreover have "fst (deleteStepApproversBySubject ''p'' AnyScope (Some ''a'') None with_policy) = [(1, ''n'')]" by code_simp
  ultimately show ?thesis by blast
qed

end
