(* ===== verification/CertificatePolicies.thy ===== *)
theory CertificatePolicies
  imports Prelude
begin

text \<open>
  Policies of certificates (\<open>backend/src/services/certificate-policy\<close>): what a policy says of a request
  and how a request is held against it (\<open>validateRequestAgainstPolicy\<close> of \<open>certificate-policy-service.ts\<close>,
  with \<open>certificate-policy-fns.ts\<close>).

  The messages are constructors of \<open>violation\<close>, one for each message of the code; a message that differs
  only in its wording (a pattern or a plain value was not met) is one constructor. Rules whose lists hold
  something else than strings, which the check of domain components also refuses, are not represented.
  Durations are unbounded integers: a count of digits that a double does not hold exactly is not rounded.
  Dates are the milliseconds they hold, and a pattern too large for the library of regular expressions, on
  which the code falls back to equality, is taken to be compiled.
\<close>

section \<open>Policies and requests\<close>

datatype CertSubjectAttributeType =
  COMMON_NAME | ORGANIZATION | COUNTRY | STATE | LOCALITY | ORGANIZATIONAL_UNIT | DOMAIN_COMPONENT

datatype CertSubjectAlternativeNameType = DNS_NAME | IP_ADDRESS | EMAIL | URI | UPN

datatype CertKeyUsageType = DIGITAL_SIGNATURE | KEY_ENCIPHERMENT | NON_REPUDIATION | DATA_ENCIPHERMENT |
  KEY_AGREEMENT | KEY_CERT_SIGN | CRL_SIGN | ENCIPHER_ONLY | DECIPHER_ONLY

datatype CertExtendedKeyUsageType = CLIENT_AUTH | SERVER_AUTH | CODE_SIGNING | EMAIL_PROTECTION | OCSP_SIGNING |
  TIME_STAMPING | ANY_PURPOSE

datatype CertPolicyState = ALLOWED | REQUIRED | DENIED

record 't value_rule =
  ru_type :: 't
  ru_allowed :: "string list option"
  ru_required :: "string list option"
  ru_denied :: "string list option"

record 'u usage_rule =
  us_allowed :: "'u list option"
  us_required :: "'u list option"
  us_denied :: "'u list option"

record algorithm_rule =
  al_signature :: "string list option"
  al_keyAlgorithm :: "string list option"

record ca_rule =
  ca_isCA :: "CertPolicyState option"
  ca_maxPathLength :: "int option"

record cert_policy =
  tp_id :: nat
  tp_projectId :: string
  tp_name :: string
  tp_description :: "string option"
  tp_subject :: "CertSubjectAttributeType value_rule list option"
  tp_sans :: "CertSubjectAlternativeNameType value_rule list option"
  tp_keyUsages :: "CertKeyUsageType usage_rule option"
  tp_extendedKeyUsages :: "CertExtendedKeyUsageType usage_rule option"
  tp_algorithms :: "algorithm_rule option"
  tp_validity :: "string option option"
  tp_basicConstraints :: "ca_rule option"

record ca_request =
  cr_isCA :: bool
  cr_pathLength :: "int option"

record cert_request =
  cq_commonName :: "string option"
  cq_domainComponents :: "string list option"
  cq_organization :: "string option"
  cq_organizationalUnit :: "string option"
  cq_locality :: "string option"
  cq_state :: "string option"
  cq_country :: "string option"
  cq_keyUsages :: "CertKeyUsageType list option"
  cq_extendedKeyUsages :: "CertExtendedKeyUsageType list option"
  cq_sans :: "(CertSubjectAlternativeNameType \<times> string) list option"
  cq_ttl :: "string option"
  cq_notBefore :: "int option"
  cq_notAfter :: "int option"
  cq_signatureAlgorithm :: "string option"
  cq_keyAlgorithm :: "string option"
  cq_basicConstraints :: "ca_request option"

datatype violation =
    MissingAttribute CertSubjectAttributeType
  | AttributeNotAsRequired CertSubjectAttributeType
  | AttributeDenied CertSubjectAttributeType
  | AttributeNotAllowed CertSubjectAttributeType
  | AttributeUncovered CertSubjectAttributeType
  | MalformedComponentRule | ComponentsDenied | ComponentsNotAsRequired | ComponentsMissing | ComponentsNotAllowed
  | MissingSan CertSubjectAlternativeNameType string
  | SanDenied CertSubjectAlternativeNameType string
  | SanNotAllowed CertSubjectAlternativeNameType string
  | SanUncovered CertSubjectAlternativeNameType
  | MissingUsages bool | DeniedUsages bool | InvalidUsages bool
  | SignatureAlgorithmNotAllowed | KeyAlgorithmNotAllowed
  | BothTtlAndDates | DatesReversed | TtlTooLong | DatesTooFar
  | CaDenied | CaRequired | PathLengthMissing | PathLengthTooLong | PathLengthNegative

datatype ttl_error = InvalidTtl string

section \<open>Patterns\<close>

definition isWildcardPattern :: "string \<Rightarrow> bool" where
  "isWildcardPattern value \<longleftrightarrow> CHR ''*'' \<in> set value"

text \<open>
  The regular expression \<open>createWildcardRegex\<close> builds: the pattern between \<open>^\<close> and \<open>$\<close>, with every special
  character escaped and every star as \<open>.*\<close>, which does not match a line feed.
\<close>

fun createWildcardRegex :: "string \<Rightarrow> string \<Rightarrow> bool" where
  "createWildcardRegex [] value = (value = [])"
| "createWildcardRegex (c # pattern) value =
     (if c = CHR ''*''
      then createWildcardRegex pattern value \<or>
        (case value of [] \<Rightarrow> False | x # rest \<Rightarrow> x \<noteq> CHR 0x0A \<and> createWildcardRegex (c # pattern) rest)
      else (case value of [] \<Rightarrow> False | x # rest \<Rightarrow> x = c \<and> createWildcardRegex pattern rest))"

definition matchesNormalizedPattern :: "string \<Rightarrow> string \<Rightarrow> bool" where
  "matchesNormalizedPattern value pattern =
     (if \<not> isWildcardPattern pattern then pattern = value else createWildcardRegex pattern value)"

definition ascii_letter :: "char \<Rightarrow> bool" where
  "ascii_letter c \<longleftrightarrow> (let n = of_char c :: nat in (65 \<le> n \<and> n \<le> 90) \<or> (97 \<le> n \<and> n \<le> 122))"

definition ttl_digit :: "char \<Rightarrow> bool" where
  "ttl_digit c \<longleftrightarrow> (let n = of_char c :: nat in 48 \<le> n \<and> n \<le> 57)"

text \<open>
  \<open>^([a-zA-Z][a-zA-Z0-9+.-]*://[^/?#]*)([/?#].*)?$\<close>: the two groups of a URI. A scheme does not hold a
  colon and an authority ends at the first delimiter, so the groups are the longest ones.
\<close>

definition uri_groups :: "string \<Rightarrow> (string \<times> string) option" where
  "uri_groups value =
     (let scheme = takeWhile (\<lambda>c. ascii_letter c \<or> ttl_digit c \<or> c \<in> set ''+.-'') value;
          afterScheme = drop (length scheme) value;
          authority = takeWhile (\<lambda>c. c \<notin> set ''/?#'') (drop 3 afterScheme);
          rest = drop (3 + length authority) afterScheme
      in if scheme \<noteq> [] \<and> ascii_letter (hd scheme) \<and> take 3 afterScheme = ''://'' \<and> CHR 0x0A \<notin> set rest
         then Some (scheme @ ''://'' @ authority, rest) else None)"

definition normalizeUriForComparison :: "string \<Rightarrow> string" where
  "normalizeUriForComparison value = (case uri_groups value of
       None \<Rightarrow> value | Some (origin, rest) \<Rightarrow> to_lower origin @ rest)"

definition normalize_input :: "bool \<Rightarrow> string \<Rightarrow> string" where
  "normalize_input isUri input = (if isUri then normalizeUriForComparison input else to_lower input)"

definition validateValueAgainstConstraints :: "string \<Rightarrow> string list \<Rightarrow> bool \<Rightarrow> bool" where
  "validateValueAgainstConstraints value allowedValues isUri \<longleftrightarrow>
     allowedValues = [] \<or>
     list_ex (\<lambda>allowedValue. matchesNormalizedPattern (normalize_input isUri value) (normalize_input isUri allowedValue)) allowedValues"

section \<open>Domain components\<close>

definition parseDomainComponentSequence :: "string \<Rightarrow> string list" where
  "parseDomainComponentSequence value = filter (\<lambda>c. c \<noteq> []) (map trim (split_char (CHR '','') value))"

definition matchesDomainComponentSequence :: "string list \<Rightarrow> string list \<Rightarrow> bool" where
  "matchesDomainComponentSequence requestSequence policySequence \<longleftrightarrow>
     list_all2 (\<lambda>component pattern. matchesNormalizedPattern (to_lower component) (to_lower pattern))
       requestSequence policySequence"

definition matchesAnySequence :: "string list \<Rightarrow> string list list \<Rightarrow> bool" where
  "matchesAnySequence requestSequence policySequences \<longleftrightarrow>
     list_ex (matchesDomainComponentSequence requestSequence) policySequences"

definition containsSequence :: "string list \<Rightarrow> string list \<Rightarrow> bool" where
  "containsSequence requestSequence policySequence \<longleftrightarrow>
     policySequence \<noteq> [] \<and> length policySequence \<le> length requestSequence \<and>
     list_ex (\<lambda>offset. offset + length policySequence \<le> length requestSequence \<and>
         matchesDomainComponentSequence (take (length policySequence) (drop offset requestSequence)) policySequence)
       [0..<length requestSequence]"

definition containsAnySequence :: "string list \<Rightarrow> string list list \<Rightarrow> bool" where
  "containsAnySequence requestSequence policySequences \<longleftrightarrow> list_ex (containsSequence requestSequence) policySequences"

definition isReadableValueList :: "string list option \<Rightarrow> bool" where
  "isReadableValueList values = (case values of None \<Rightarrow> True
     | Some vs \<Rightarrow> list_all (\<lambda>value. list_all (\<lambda>component. trim component \<noteq> []) (split_char (CHR '','') value)) vs)"

definition given :: "'a list option \<Rightarrow> 'a list" where
  "given values = (case values of None \<Rightarrow> [] | Some vs \<Rightarrow> vs)"

definition validateDomainComponentsAgainstRule ::
  "string list \<Rightarrow> CertSubjectAttributeType value_rule \<Rightarrow> bool \<Rightarrow> violation list" where
  "validateDomainComponentsAgainstRule requestDomainComponents rule skipRequired =
     (if \<not> list_all isReadableValueList [ru_allowed rule, ru_required rule, ru_denied rule]
      then [MalformedComponentRule]
      else let allowed = map parseDomainComponentSequence (given (ru_allowed rule));
               required = map parseDomainComponentSequence (given (ru_required rule));
               denied = map parseDomainComponentSequence (given (ru_denied rule));
               hasDomainComponents = requestDomainComponents \<noteq> [];
               isDenied = (hasDomainComponents \<and> containsAnySequence requestDomainComponents denied);
               satisfiesRequired = (required \<noteq> [] \<and> matchesAnySequence requestDomainComponents required);
               needsAllowedCheck = (\<not> isDenied \<and> \<not> satisfiesRequired \<and> hasDomainComponents \<and> allowed \<noteq> [])
           in (if isDenied then [ComponentsDenied] else []) @
              (if \<not> skipRequired \<and> required \<noteq> [] \<and> \<not> satisfiesRequired
               then [if hasDomainComponents then ComponentsNotAsRequired else ComponentsMissing] else []) @
              (if needsAllowedCheck \<and> \<not> matchesAnySequence requestDomainComponents allowed
               then [ComponentsNotAllowed] else []))"

definition isDomainComponentRule :: "CertSubjectAttributeType value_rule \<Rightarrow> bool" where
  "isDomainComponentRule rule \<longleftrightarrow> ru_type rule = DOMAIN_COMPONENT"

section \<open>The subject\<close>

text \<open>The map of the given attributes, in the order the code fills it.\<close>

definition request_attributes :: "cert_request \<Rightarrow> (CertSubjectAttributeType \<times> string) list" where
  "request_attributes request =
     [(t, the v). (t, v) \<leftarrow> [(COMMON_NAME, cq_commonName request), (ORGANIZATION, cq_organization request),
        (ORGANIZATIONAL_UNIT, cq_organizationalUnit request), (COUNTRY, cq_country request), (STATE, cq_state request),
        (LOCALITY, cq_locality request)], truthy v]"

text \<open>Whether a value meets one of the required patterns.\<close>

definition satisfies_required :: "string \<Rightarrow> string list option \<Rightarrow> bool \<Rightarrow> bool" where
  "satisfies_required value required isUri \<longleftrightarrow>
     list_ex (\<lambda>requiredValue. validateValueAgainstConstraints value [requiredValue] isUri) (given required)"

definition attribute_errors ::
  "bool \<Rightarrow> CertSubjectAttributeType value_rule \<Rightarrow> string option \<Rightarrow> violation list" where
  "attribute_errors skipRequired rule requestValue =
     (if \<not> skipRequired \<and> given (ru_required rule) \<noteq> []
      then (case requestValue of
              None \<Rightarrow> [MissingAttribute (ru_type rule)]
            | Some v \<Rightarrow> if satisfies_required v (ru_required rule) False then [] else [AttributeNotAsRequired (ru_type rule)])
      else []) @
     (case requestValue of
        None \<Rightarrow> []
      | Some v \<Rightarrow>
          (let isValueDenied = (given (ru_denied rule) \<noteq> [] \<and> validateValueAgainstConstraints v (given (ru_denied rule)) False)
           in (if isValueDenied then [AttributeDenied (ru_type rule)] else []) @
              (if \<not> isValueDenied \<and> given (ru_allowed rule) \<noteq> [] \<and> \<not> satisfies_required v (ru_required rule) False \<and>
                  \<not> validateValueAgainstConstraints v (given (ru_allowed rule)) False
               then [AttributeNotAllowed (ru_type rule)] else [])))"

definition subject_errors :: "bool \<Rightarrow> CertSubjectAttributeType value_rule list option \<Rightarrow> cert_request \<Rightarrow> violation list" where
  "subject_errors skipRequired subjectPolicies request = (case subjectPolicies of
       None \<Rightarrow> []
     | Some rules \<Rightarrow>
         (let requestAttributes = request_attributes request in
          concat (map (\<lambda>rule. attribute_errors skipRequired rule (map_of requestAttributes (ru_type rule)))
            (filter (\<lambda>rule. \<not> isDomainComponentRule rule) rules)) @
          map AttributeUncovered (filter (\<lambda>t. \<not> list_ex (\<lambda>rule. ru_type rule = t) rules) (map fst requestAttributes))))"

definition domain_component_errors ::
  "bool \<Rightarrow> CertSubjectAttributeType value_rule list option \<Rightarrow> cert_request \<Rightarrow> violation list" where
  "domain_component_errors skipRequired subjectPolicies request =
     (let requestDomainComponents = given (cq_domainComponents request) in
      case Option.bind subjectPolicies (find isDomainComponentRule) of
        Some rule \<Rightarrow> validateDomainComponentsAgainstRule requestDomainComponents rule skipRequired
      | None \<Rightarrow> if subjectPolicies \<noteq> None \<and> requestDomainComponents \<noteq> []
                then [AttributeUncovered DOMAIN_COMPONENT] else [])"

section \<open>Alternative names\<close>

definition sans_of_type ::
  "CertSubjectAlternativeNameType \<Rightarrow> (CertSubjectAlternativeNameType \<times> string) list option \<Rightarrow> string list" where
  "sans_of_type t sans = map snd (filter (\<lambda>san. fst san = t) (given sans))"

definition san_rule_errors :: "bool \<Rightarrow> CertSubjectAlternativeNameType value_rule \<Rightarrow> string list \<Rightarrow> violation list" where
  "san_rule_errors skipRequired rule requestSans =
     (let t = ru_type rule; isUriSan = (t = URI) in
      (if skipRequired then [] else
         map (MissingSan t) (filter (\<lambda>requiredValue.
           \<not> list_ex (\<lambda>sanValue. validateValueAgainstConstraints sanValue [requiredValue] isUriSan) requestSans)
           (given (ru_required rule)))) @
      (if given (ru_denied rule) = [] then [] else
         map (SanDenied t) (filter (\<lambda>sanValue. validateValueAgainstConstraints sanValue (given (ru_denied rule)) isUriSan)
           requestSans)) @
      (if given (ru_allowed rule) = [] then [] else
         map (SanNotAllowed t) (filter (\<lambda>sanValue. \<not> satisfies_required sanValue (ru_required rule) isUriSan \<and>
             \<not> validateValueAgainstConstraints sanValue (given (ru_allowed rule)) isUriSan) requestSans)))"

definition san_errors :: "bool \<Rightarrow> CertSubjectAlternativeNameType value_rule list option \<Rightarrow> cert_request \<Rightarrow> violation list" where
  "san_errors skipRequired sansPolicies request = (case sansPolicies of
       None \<Rightarrow> []
     | Some rules \<Rightarrow>
         concat (map (\<lambda>rule. san_rule_errors skipRequired rule (sans_of_type (ru_type rule) (cq_sans request))) rules) @
         map SanUncovered (filter (\<lambda>t. \<not> list_ex (\<lambda>rule. ru_type rule = t) rules)
           (set_add_all (map fst (given (cq_sans request))) [])))"

section \<open>Usages and algorithms\<close>

text \<open>
  The code has the same lines for key usages and for extended key usages; the first argument says which,
  in the messages.
\<close>

definition usage_errors :: "bool \<Rightarrow> bool \<Rightarrow> 'u usage_rule option \<Rightarrow> 'u list option \<Rightarrow> violation list" where
  "usage_errors extended skipRequired policy usages = (case policy of
       None \<Rightarrow> []
     | Some rule \<Rightarrow>
         (if \<not> skipRequired \<and> filter (\<lambda>usage. usage \<notin> set (given usages)) (given (us_required rule)) \<noteq> []
          then [MissingUsages extended] else []) @
         (case usages of
            None \<Rightarrow> []
          | Some requested \<Rightarrow>
              (if filter (\<lambda>usage. usage \<in> set (given (us_denied rule))) requested \<noteq> [] then [DeniedUsages extended] else []) @
              (let allAllowedUsages = given (us_required rule) @ given (us_allowed rule)
               in if filter (\<lambda>usage. usage \<notin> set allAllowedUsages) requested \<noteq> [] then [InvalidUsages extended] else [])))"

definition mapTemplateSignatureAlgorithmToApi :: "string \<Rightarrow> string" where
  "mapTemplateSignatureAlgorithmToApi templateFormat = (case map_of
     [(''SHA256-RSA'', ''RSA-SHA256''), (''SHA384-RSA'', ''RSA-SHA384''), (''SHA512-RSA'', ''RSA-SHA512''),
      (''SHA256-ECDSA'', ''ECDSA-SHA256''), (''SHA384-ECDSA'', ''ECDSA-SHA384''), (''SHA512-ECDSA'', ''ECDSA-SHA512'')]
     templateFormat of None \<Rightarrow> templateFormat | Some f \<Rightarrow> f)"

definition mapTemplateKeyAlgorithmToApi :: "string \<Rightarrow> string" where
  "mapTemplateKeyAlgorithmToApi templateFormat = (case map_of
     [(''RSA-2048'', ''RSA_2048''), (''RSA-3072'', ''RSA_3072''), (''RSA-4096'', ''RSA_4096''),
      (''ECDSA-P256'', ''EC_prime256v1''), (''ECDSA-P384'', ''EC_secp384r1''), (''ECDSA-P521'', ''EC_secp521r1'')]
     templateFormat of None \<Rightarrow> templateFormat | Some f \<Rightarrow> f)"

definition algorithm_errors :: "violation \<Rightarrow> (string \<Rightarrow> string) \<Rightarrow> string list option \<Rightarrow> string option \<Rightarrow> violation list" where
  "algorithm_errors e toApi allowed requested =
     (if truthy requested \<and> given allowed \<noteq> [] \<and> the requested \<notin> set (map toApi (given allowed)) then [e] else [])"

section \<open>Validity\<close>

fun ttl_value :: "int \<Rightarrow> string \<Rightarrow> int" where
  "ttl_value n [] = n"
| "ttl_value n (d # ds) = ttl_value (10 * n + (of_char d - 48)) ds"

definition parseTTL :: "string \<Rightarrow> ttl_error + int" where
  "parseTTL ttl =
     (let value = ttl_value 0 (butlast ttl) in
      if length ttl < 2 \<or> \<not> list_all ttl_digit (butlast ttl) then Inl (InvalidTtl ttl)
      else if last ttl = CHR ''h'' then Inr (value * 60 * 60 * 1000)
      else if last ttl = CHR ''d'' then Inr (value * 24 * 60 * 60 * 1000)
      else if last ttl = CHR ''m'' then Inr (value * 30 * 24 * 60 * 60 * 1000)
      else if last ttl = CHR ''y'' then Inr (value * 365 * 24 * 60 * 60 * 1000)
      else Inl (InvalidTtl ttl))"

definition date_errors :: "cert_request \<Rightarrow> violation list" where
  "date_errors request =
     (if truthy (cq_ttl request) \<and> (cq_notBefore request \<noteq> None \<or> cq_notAfter request \<noteq> None) then [BothTtlAndDates] else []) @
     (case (cq_notBefore request, cq_notAfter request) of
        (Some a, Some b) \<Rightarrow> if a \<ge> b then [DatesReversed] else []
      | _ \<Rightarrow> [])"

definition ttl_errors :: "string option option \<Rightarrow> cert_request \<Rightarrow> ttl_error + violation list" where
  "ttl_errors validity request = (case validity of
       None \<Rightarrow> Inr []
     | Some maxValidity \<Rightarrow>
         if \<not> truthy (cq_ttl request) then Inr []
         else rbind (parseTTL (the (cq_ttl request))) (\<lambda>requestDurationMs.
              if \<not> truthy maxValidity then Inr []
              else rbind (parseTTL (the maxValidity)) (\<lambda>maxDurationMs.
                   Inr (if requestDurationMs > maxDurationMs then [TtlTooLong] else []))))"

definition range_errors :: "int \<Rightarrow> string option option \<Rightarrow> cert_request \<Rightarrow> ttl_error + violation list" where
  "range_errors now validity request = (case (validity, cq_notAfter request) of
       (Some maxValidity, Some notAfter) \<Rightarrow>
         if \<not> truthy maxValidity then Inr []
         else let notBefore = (case cq_notBefore request of None \<Rightarrow> now | Some t \<Rightarrow> t) in
              rbind (parseTTL (the maxValidity)) (\<lambda>maxDurationMs.
              Inr (if notAfter - notBefore > maxDurationMs then [DatesTooFar] else []))
     | _ \<Rightarrow> Inr [])"

section \<open>Authorities\<close>

definition ca_errors :: "bool \<Rightarrow> ca_rule option \<Rightarrow> ca_request option \<Rightarrow> violation list" where
  "ca_errors skipRequired policy requested =
     (let isCaPolicy = (case Option.bind policy ca_isCA of None \<Rightarrow> DENIED | Some s \<Rightarrow> s);
          requestWantsCA = (case requested of None \<Rightarrow> False | Some r \<Rightarrow> cr_isCA r)
      in (if isCaPolicy = DENIED then (if requestWantsCA then [CaDenied] else [])
          else if \<not> skipRequired \<and> isCaPolicy = REQUIRED \<and> \<not> requestWantsCA then [CaRequired] else []) @
         (if requestWantsCA \<and> isCaPolicy \<noteq> DENIED
          then (case Option.bind policy ca_maxPathLength of
                  None \<Rightarrow> []
                | Some maxPathLength \<Rightarrow>
                    if maxPathLength = -1 then []
                    else (case cr_pathLength (the requested) of
                            None \<Rightarrow> [PathLengthMissing]
                          | Some n \<Rightarrow> if n > maxPathLength then [PathLengthTooLong]
                                      else if n < 0 \<and> n \<noteq> -1 then [PathLengthNegative] else []))
          else []))"

section \<open>The whole check\<close>

definition validateRequestAgainstPolicy ::
  "int \<Rightarrow> cert_policy \<Rightarrow> cert_request \<Rightarrow> bool \<Rightarrow> ttl_error + violation list" where
  "validateRequestAgainstPolicy now template request skipRequired =
     rbind (ttl_errors (tp_validity template) request) (\<lambda>ttlErrors.
     rbind (range_errors now (tp_validity template) request) (\<lambda>rangeErrors.
     Inr (subject_errors skipRequired (tp_subject template) request @
          domain_component_errors skipRequired (tp_subject template) request @
          san_errors skipRequired (tp_sans template) request @
          usage_errors False skipRequired (tp_keyUsages template) (cq_keyUsages request) @
          usage_errors True skipRequired (tp_extendedKeyUsages template) (cq_extendedKeyUsages request) @
          algorithm_errors SignatureAlgorithmNotAllowed mapTemplateSignatureAlgorithmToApi
            (Option.bind (tp_algorithms template) al_signature) (cq_signatureAlgorithm request) @
          algorithm_errors KeyAlgorithmNotAllowed mapTemplateKeyAlgorithmToApi
            (Option.bind (tp_algorithms template) al_keyAlgorithm) (cq_keyAlgorithm request) @
          date_errors request @ ttlErrors @ rangeErrors @
          ca_errors skipRequired (tp_basicConstraints template) (cq_basicConstraints request))))"

end
