(* ===== verification/CertificateChecks.thy ===== *)
theory CertificateChecks
  imports CertificatePolicies
begin

text \<open>
  What the check of certificate requests decides: patterns read as segments and gaps, and the whole check
  against a statement of what a policy admits, part by part.
\<close>

named_theorems check_simps \<open>each part of the check as the condition it stands for\<close>

section \<open>Patterns as segments\<close>

text \<open>The value is the segments of a pattern with gaps between them, none of which holds a line feed.\<close>

definition fits :: "string list \<Rightarrow> string \<Rightarrow> bool" where
  "fits parts value \<longleftrightarrow> (\<exists>gaps. length gaps = length (tl parts) \<and> CHR 0x0A \<notin> set (concat gaps) \<and>
     value = hd parts @ concat (map2 (@) gaps (tl parts)))"

lemma fits_single [simp]: "fits [p] v \<longleftrightarrow> v = p"
  by (simp add: fits_def)

lemma fits_char: "fits ((c # f) # r) v \<longleftrightarrow> (\<exists>rest. v = c # rest \<and> fits (f # r) rest)"
  by (auto simp: fits_def)

lemma fits_gap:
  "fits ([] # f # r) v \<longleftrightarrow> (\<exists>g rest. v = g @ rest \<and> CHR 0x0A \<notin> set g \<and> fits (f # r) rest)"
proof
  assume "fits ([] # f # r) v"
  then obtain gaps where g: "length gaps = Suc (length r)" "CHR 0x0A \<notin> set (concat gaps)"
    "v = concat (map2 (@) gaps (f # r))"
    by (auto simp: fits_def)
  then obtain a as where "gaps = a # as" by (cases gaps) auto
  with g show "\<exists>g rest. v = g @ rest \<and> CHR 0x0A \<notin> set g \<and> fits (f # r) rest"
    by (intro exI [of _ a] exI [of _ "f @ concat (map2 (@) as r)"]) (auto simp: fits_def)
next
  assume "\<exists>g rest. v = g @ rest \<and> CHR 0x0A \<notin> set g \<and> fits (f # r) rest"
  then obtain g gaps where "CHR 0x0A \<notin> set g" "length gaps = length r" "CHR 0x0A \<notin> set (concat gaps)"
    "v = g @ f @ concat (map2 (@) gaps r)"
    by (auto simp: fits_def)
  then show "fits ([] # f # r) v"
    unfolding fits_def by (intro exI [of _ "g # gaps"]) auto
qed

lemma fits_star:
  "fits ([] # f # r) v \<longleftrightarrow> fits (f # r) v \<or> (\<exists>x rest. v = x # rest \<and> x \<noteq> CHR 0x0A \<and> fits ([] # f # r) rest)"
proof
  assume "fits ([] # f # r) v"
  then obtain g rest where g: "v = g @ rest" "CHR 0x0A \<notin> set g" "fits (f # r) rest"
    by (auto simp: fits_gap)
  show "fits (f # r) v \<or> (\<exists>x rest. v = x # rest \<and> x \<noteq> CHR 0x0A \<and> fits ([] # f # r) rest)"
  proof (cases g)
    case Nil
    with g show ?thesis by simp
  next
    case (Cons x xs)
    with g have "v = x # (xs @ rest) \<and> x \<noteq> CHR 0x0A \<and> fits ([] # f # r) (xs @ rest)"
      by (auto simp: fits_gap)
    then show ?thesis by blast
  qed
next
  assume "fits (f # r) v \<or> (\<exists>x rest. v = x # rest \<and> x \<noteq> CHR 0x0A \<and> fits ([] # f # r) rest)"
  then show "fits ([] # f # r) v"
  proof
    assume "fits (f # r) v"
    then show ?thesis by (auto simp: fits_gap intro: exI [of _ "[]"])
  next
    assume "\<exists>x rest. v = x # rest \<and> x \<noteq> CHR 0x0A \<and> fits ([] # f # r) rest"
    then obtain x g rest where "v = (x # g) @ rest" "CHR 0x0A \<notin> set (x # g)" "fits (f # r) rest"
      by (auto simp: fits_gap)
    then show ?thesis unfolding fits_gap by blast
  qed
qed

lemma wildcard_regex_fits: "createWildcardRegex p v \<longleftrightarrow> fits (split_char (CHR ''*'') p) v"
proof (induction p v rule: createWildcardRegex.induct)
  case (1 v)
  then show ?case by simp
next
  case (2 c p v)
  obtain f r where fr: "split_char (CHR ''*'') p = f # r"
    by (meson neq_Nil_conv split_char_not_Nil)
  show ?case
  proof (cases "c = CHR ''*''")
    case True
    have "createWildcardRegex (c # p) v \<longleftrightarrow>
        fits (f # r) v \<or> (\<exists>x rest. v = x # rest \<and> x \<noteq> CHR 0x0A \<and> fits ([] # f # r) rest)"
      using 2(1,2) True by (auto simp: fr split: list.split)
    with True show ?thesis by (simp add: fr fits_star [symmetric])
  next
    case False
    then show ?thesis using 2(3) by (auto simp: fr fits_char split: list.split)
  qed
qed

lemma pattern_fits: "matchesNormalizedPattern v p \<longleftrightarrow> fits (split_char (CHR ''*'') p) v"
  by (auto simp: matchesNormalizedPattern_def isWildcardPattern_def wildcard_regex_fits split_char_no_sep)

text \<open>
  C17: a value matches a pattern exactly when it is the text between the stars of the pattern, in order, with
  any text that has no line feed in the place of each star; a pattern without stars is met by itself only.
\<close>
theorem wildcard_pattern_segments:
  "matchesNormalizedPattern value pattern \<longleftrightarrow>
     (\<exists>first rest gaps. split_char (CHR ''*'') pattern = first # rest \<and> length gaps = length rest \<and>
        CHR 0x0A \<notin> set (concat gaps) \<and> value = first @ concat (map2 (@) gaps rest))"
  by (cases "split_char (CHR ''*'') pattern") (auto simp: pattern_fits fits_def)

section \<open>What a policy admits\<close>

text \<open>Whether a value meets one of the patterns of a list.\<close>

definition meets :: "bool \<Rightarrow> string \<Rightarrow> string list option \<Rightarrow> bool" where
  "meets isUri value ps \<longleftrightarrow>
     (\<exists>p \<in> set (given ps). fits (split_char (CHR ''*'') (normalize_input isUri p)) (normalize_input isUri value))"

text \<open>A value that is given: not denied, and required or allowed where there is a list of what is allowed.\<close>

definition value_admitted :: "bool \<Rightarrow> 't value_rule \<Rightarrow> string \<Rightarrow> bool" where
  "value_admitted isUri rule value \<longleftrightarrow> \<not> meets isUri value (ru_denied rule) \<and>
     (given (ru_allowed rule) = [] \<or> meets isUri value (ru_required rule) \<or> meets isUri value (ru_allowed rule))"

definition given_value :: "cert_request \<Rightarrow> CertSubjectAttributeType \<Rightarrow> string option" where
  "given_value request t =
     (let v = (case t of COMMON_NAME \<Rightarrow> cq_commonName request | ORGANIZATION \<Rightarrow> cq_organization request
        | COUNTRY \<Rightarrow> cq_country request | STATE \<Rightarrow> cq_state request | LOCALITY \<Rightarrow> cq_locality request
        | ORGANIZATIONAL_UNIT \<Rightarrow> cq_organizationalUnit request | DOMAIN_COMPONENT \<Rightarrow> None)
      in if truthy v then v else None)"

definition subject_admitted :: "CertSubjectAttributeType value_rule list option \<Rightarrow> cert_request \<Rightarrow> bool" where
  "subject_admitted policy request \<longleftrightarrow> (case policy of None \<Rightarrow> True | Some rules \<Rightarrow>
     (\<forall>rule \<in> set rules. ru_type rule \<noteq> DOMAIN_COMPONENT \<longrightarrow>
        (case given_value request (ru_type rule) of
           None \<Rightarrow> given (ru_required rule) = []
         | Some v \<Rightarrow> value_admitted False rule v \<and> (given (ru_required rule) = [] \<or> meets False v (ru_required rule)))) \<and>
     (\<forall>t. given_value request t \<noteq> None \<longrightarrow> t \<in> ru_type ` set rules))"

definition sequence_fits :: "string list \<Rightarrow> string list \<Rightarrow> bool" where
  "sequence_fits components patterns \<longleftrightarrow>
     list_all2 (\<lambda>c p. fits (split_char (CHR ''*'') (to_lower p)) (to_lower c)) components patterns"

definition sequences :: "string list option \<Rightarrow> string list set" where
  "sequences values = parseDomainComponentSequence ` set (given values)"

text \<open>A denied sequence of components may be anywhere in the request, the others are the whole of it.\<close>

definition components_admitted :: "CertSubjectAttributeType value_rule list option \<Rightarrow> cert_request \<Rightarrow> bool" where
  "components_admitted policy request \<longleftrightarrow>
     (let components = given (cq_domainComponents request) in
      case policy of None \<Rightarrow> True | Some rules \<Rightarrow>
      (case find isDomainComponentRule rules of
         None \<Rightarrow> components = []
       | Some rule \<Rightarrow>
           list_all isReadableValueList [ru_allowed rule, ru_required rule, ru_denied rule] \<and>
           \<not> (\<exists>before part after. components = before @ part @ after \<and> (\<exists>q \<in> sequences (ru_denied rule). sequence_fits part q)) \<and>
           (given (ru_required rule) = [] \<or> (\<exists>q \<in> sequences (ru_required rule). sequence_fits components q)) \<and>
           (components = [] \<or> given (ru_allowed rule) = [] \<or>
            (\<exists>q \<in> sequences (ru_required rule) \<union> sequences (ru_allowed rule). sequence_fits components q))))"

definition sans_admitted :: "CertSubjectAlternativeNameType value_rule list option \<Rightarrow> cert_request \<Rightarrow> bool" where
  "sans_admitted policy request \<longleftrightarrow> (case policy of None \<Rightarrow> True | Some rules \<Rightarrow>
     (\<forall>rule \<in> set rules. let t = ru_type rule in
        (\<forall>p \<in> set (given (ru_required rule)). \<exists>v. (t, v) \<in> set (given (cq_sans request)) \<and> meets (t = URI) v (Some [p])) \<and>
        (\<forall>v. (t, v) \<in> set (given (cq_sans request)) \<longrightarrow> value_admitted (t = URI) rule v)) \<and>
     fst ` set (given (cq_sans request)) \<subseteq> ru_type ` set rules)"

definition usages_admitted :: "'u usage_rule option \<Rightarrow> 'u list option \<Rightarrow> bool" where
  "usages_admitted policy usages \<longleftrightarrow> (case policy of None \<Rightarrow> True | Some rule \<Rightarrow>
     set (given (us_required rule)) \<subseteq> set (given usages) \<and>
     set (given usages) \<subseteq> (set (given (us_required rule)) \<union> set (given (us_allowed rule))) - set (given (us_denied rule)))"

definition algorithm_admitted :: "(string \<Rightarrow> string) \<Rightarrow> string list option \<Rightarrow> string option \<Rightarrow> bool" where
  "algorithm_admitted toApi allowed requested \<longleftrightarrow>
     \<not> truthy requested \<or> given allowed = [] \<or> the requested \<in> toApi ` set (given allowed)"

text \<open>The longest time a policy gives: none is no limit, and an unreadable one admits nothing.\<close>

definition within_maximum :: "string option \<Rightarrow> int \<Rightarrow> bool" where
  "within_maximum maxValidity duration \<longleftrightarrow> truthy maxValidity \<longrightarrow> (\<exists>d. parseTTL (the maxValidity) = Inr d \<and> duration \<le> d)"

definition validity_admitted :: "int \<Rightarrow> string option option \<Rightarrow> cert_request \<Rightarrow> bool" where
  "validity_admitted now policy request \<longleftrightarrow>
     \<not> (truthy (cq_ttl request) \<and> (cq_notBefore request \<noteq> None \<or> cq_notAfter request \<noteq> None)) \<and>
     (\<forall>a b. cq_notBefore request = Some a \<and> cq_notAfter request = Some b \<longrightarrow> a < b) \<and>
     (case policy of None \<Rightarrow> True | Some maxValidity \<Rightarrow>
        (truthy (cq_ttl request) \<longrightarrow>
           (\<exists>n. parseTTL (the (cq_ttl request)) = Inr n \<and> within_maximum maxValidity n)) \<and>
        (\<forall>b. cq_notAfter request = Some b \<longrightarrow>
           within_maximum maxValidity (b - (case cq_notBefore request of None \<Rightarrow> now | Some a \<Rightarrow> a))))"

definition authority_admitted :: "ca_rule option \<Rightarrow> ca_request option \<Rightarrow> bool" where
  "authority_admitted policy requested \<longleftrightarrow>
     (let state = (case Option.bind policy ca_isCA of None \<Rightarrow> DENIED | Some s \<Rightarrow> s);
          wanted = (case requested of None \<Rightarrow> False | Some r \<Rightarrow> cr_isCA r)
      in (if wanted then state \<noteq> DENIED else state \<noteq> REQUIRED) \<and>
         (\<forall>m. wanted \<and> Option.bind policy ca_maxPathLength = Some m \<and> m \<noteq> -1 \<longrightarrow>
            (\<exists>n. cr_pathLength (the requested) = Some n \<and> n \<le> m \<and> -1 \<le> n)))"

definition admits :: "int \<Rightarrow> cert_policy \<Rightarrow> cert_request \<Rightarrow> bool" where
  "admits now policy request \<longleftrightarrow>
     subject_admitted (tp_subject policy) request \<and> components_admitted (tp_subject policy) request \<and>
     sans_admitted (tp_sans policy) request \<and>
     usages_admitted (tp_keyUsages policy) (cq_keyUsages request) \<and>
     usages_admitted (tp_extendedKeyUsages policy) (cq_extendedKeyUsages request) \<and>
     algorithm_admitted mapTemplateSignatureAlgorithmToApi (Option.bind (tp_algorithms policy) al_signature)
       (cq_signatureAlgorithm request) \<and>
     algorithm_admitted mapTemplateKeyAlgorithmToApi (Option.bind (tp_algorithms policy) al_keyAlgorithm)
       (cq_keyAlgorithm request) \<and>
     validity_admitted now (tp_validity policy) request \<and>
     authority_admitted (tp_basicConstraints policy) (cq_basicConstraints request)"

section \<open>Each part of the check\<close>

lemma given_simps [simp]: "given None = []" "given (Some xs) = xs"
  by (simp_all add: given_def)

lemma constraints_meets: "validateValueAgainstConstraints v (given ps) u \<longleftrightarrow> given ps = [] \<or> meets u v ps"
  by (auto simp: validateValueAgainstConstraints_def meets_def pattern_fits list_ex_iff)

lemma required_meets: "satisfies_required v ps u = meets u v ps"
  by (auto simp: satisfies_required_def meets_def validateValueAgainstConstraints_def pattern_fits list_ex_iff)

lemma meets_empty: "given ps = [] \<Longrightarrow> \<not> meets u v ps"
  by (simp add: meets_def)

lemma kept_values:
  "distinct (map fst xs) \<Longrightarrow>
     map_of (concat (map (\<lambda>(t, v). if truthy v then [(t, the v)] else []) xs)) k =
     (case map_of xs k of None \<Rightarrow> None | Some v \<Rightarrow> if truthy v then v else None)"
proof (induction xs)
  case Nil
  then show ?case by simp
next
  case (Cons x xs)
  obtain t v where x: "x = (t, v)" by (cases x)
  show ?case
  proof (cases "k = t")
    case True
    then have "map_of xs k = None" using Cons.prems x by (simp add: map_of_eq_None_iff)
    with Cons x True show ?thesis by (cases v) (simp_all add: map_add_def)
  next
    case False
    with Cons x show ?thesis by (simp add: map_add_def)
  qed
qed

lemma request_attributes_of:
  "map_of (request_attributes request) t = given_value request t"
  "t \<in> fst ` set (request_attributes request) \<longleftrightarrow> given_value request t \<noteq> None"
proof -
  show m: "map_of (request_attributes request) t = given_value request t"
    unfolding request_attributes_def by (subst kept_values) (cases t; simp add: given_value_def)+
  show "t \<in> fst ` set (request_attributes request) \<longleftrightarrow> given_value request t \<noteq> None"
    unfolding m [symmetric] by (simp add: dom_map_of_conv_image_fst [symmetric] domIff)
qed

lemma attribute_errors_iff:
  "attribute_errors False rule requestValue = [] \<longleftrightarrow>
     (case requestValue of None \<Rightarrow> given (ru_required rule) = []
      | Some v \<Rightarrow> value_admitted False rule v \<and> (given (ru_required rule) = [] \<or> meets False v (ru_required rule)))"
  by (auto simp: attribute_errors_def value_admitted_def constraints_meets required_meets meets_empty Let_def
      split: option.split)

lemma uncovered_iff:
  "filter (\<lambda>t. \<not> list_ex (\<lambda>rule. ru_type rule = t) rules) ts = [] \<longleftrightarrow> set ts \<subseteq> ru_type ` set rules"
  by (auto simp: filter_empty_conv list_ex_iff image_iff subset_iff)

lemma subject_errors_iff [check_simps]:
  "subject_errors False policy request = [] \<longleftrightarrow> subject_admitted policy request"
proof (cases policy)
  case None
  then show ?thesis by (simp add: subject_errors_def subject_admitted_def)
next
  case (Some rules)
  have "fst ` set (request_attributes request) \<subseteq> ru_type ` set rules \<longleftrightarrow>
      (\<forall>t. given_value request t \<noteq> None \<longrightarrow> t \<in> ru_type ` set rules)"
    by (simp only: subset_eq Ball_def request_attributes_of(2))
  then show ?thesis
    by (auto simp: Some subject_errors_def subject_admitted_def isDomainComponentRule_def attribute_errors_iff
        request_attributes_of(1) uncovered_iff Let_def)
qed

lemma sequence_fits_iff: "matchesDomainComponentSequence cs ps \<longleftrightarrow> sequence_fits cs ps"
  by (simp add: matchesDomainComponentSequence_def sequence_fits_def pattern_fits)

lemma sequence_fits_length: "sequence_fits cs ps \<Longrightarrow> length cs = length ps"
  by (simp add: sequence_fits_def list_all2_lengthD)

lemma matches_any_iff:
  "matchesAnySequence cs (map parseDomainComponentSequence (given ps)) \<longleftrightarrow> (\<exists>q \<in> sequences ps. sequence_fits cs q)"
  by (auto simp: matchesAnySequence_def list_ex_iff sequence_fits_iff sequences_def)

lemma contains_sequence_iff:
  "containsSequence cs q \<longleftrightarrow> q \<noteq> [] \<and> (\<exists>before part after. cs = before @ part @ after \<and> sequence_fits part q)"
proof (cases "q = []")
  case True
  then show ?thesis by (simp add: containsSequence_def)
next
  case q: False
  show ?thesis
  proof
    assume "containsSequence cs q"
    then obtain i where i: "i + length q \<le> length cs" "sequence_fits (take (length q) (drop i cs)) q"
      by (auto simp: containsSequence_def list_ex_iff sequence_fits_iff)
    have "cs = take i cs @ take (length q) (drop i cs) @ drop (i + length q) cs"
      by (metis append_take_drop_id drop_drop add.commute)
    with i q show "q \<noteq> [] \<and> (\<exists>before part after. cs = before @ part @ after \<and> sequence_fits part q)" by blast
  next
    assume "q \<noteq> [] \<and> (\<exists>before part after. cs = before @ part @ after \<and> sequence_fits part q)"
    then obtain before part after where cs: "cs = before @ part @ after" and f: "sequence_fits part q" by blast
    have "length part = length q" using f by (rule sequence_fits_length)
    with cs f q show "containsSequence cs q"
      by (auto simp: containsSequence_def list_ex_iff sequence_fits_iff intro!: bexI [of _ "length before"])
  qed
qed

lemma readable_sequences: "isReadableValueList vs \<Longrightarrow> [] \<notin> sequences vs"
proof
  assume r: "isReadableValueList vs" and "[] \<in> sequences vs"
  then obtain v where v: "v \<in> set (given vs)" "parseDomainComponentSequence v = []"
    by (auto simp: sequences_def)
  then have "\<forall>component \<in> set (split_char (CHR '','') v). trim component \<noteq> []"
    using r by (auto simp: isReadableValueList_def list_all_iff split: option.splits)
  then have "split_char (CHR '','') v = []"
    using v(2) by (auto simp: parseDomainComponentSequence_def filter_empty_conv)
  then show False by simp
qed

lemma contains_any_iff:
  "isReadableValueList vs \<Longrightarrow>
     containsAnySequence cs (map parseDomainComponentSequence (given vs)) \<longleftrightarrow>
     (\<exists>before part after. cs = before @ part @ after \<and> (\<exists>q \<in> sequences vs. sequence_fits part q))"
  using readable_sequences [of vs]
  by (auto simp: containsAnySequence_def list_ex_iff contains_sequence_iff sequences_def image_iff) metis+

lemma contains_nothing: "\<not> containsAnySequence [] qs"
  by (auto simp: containsAnySequence_def list_ex_iff containsSequence_def)

lemma component_errors_iff:
  "validateDomainComponentsAgainstRule cs rule False = [] \<longleftrightarrow>
     list_all isReadableValueList [ru_allowed rule, ru_required rule, ru_denied rule] \<and>
     \<not> (\<exists>before part after. cs = before @ part @ after \<and> (\<exists>q \<in> sequences (ru_denied rule). sequence_fits part q)) \<and>
     (given (ru_required rule) = [] \<or> (\<exists>q \<in> sequences (ru_required rule). sequence_fits cs q)) \<and>
     (cs = [] \<or> given (ru_allowed rule) = [] \<or>
      (\<exists>q \<in> sequences (ru_required rule) \<union> sequences (ru_allowed rule). sequence_fits cs q))"
proof (cases "list_all isReadableValueList [ru_allowed rule, ru_required rule, ru_denied rule]")
  case False
  then have "validateDomainComponentsAgainstRule cs rule False = [MalformedComponentRule]"
    unfolding validateDomainComponentsAgainstRule_def by (rule if_P)
  then have "validateDomainComponentsAgainstRule cs rule False \<noteq> []" by simp
  with False show ?thesis by blast
next
  case True
  then have d: "containsAnySequence cs (map parseDomainComponentSequence (given (ru_denied rule))) \<longleftrightarrow>
     (\<exists>before part after. cs = before @ part @ after \<and> (\<exists>q \<in> sequences (ru_denied rule). sequence_fits part q))"
    by (intro contains_any_iff) simp
  have none: "given (ru_required rule) = [] \<Longrightarrow> sequences (ru_required rule) = {}"
    by (simp add: sequences_def)
  show ?thesis
    unfolding validateDomainComponentsAgainstRule_def d [symmetric] Let_def matches_any_iff
    using True contains_nothing none by (cases "cs = []") auto
qed

lemma domain_component_errors_iff [check_simps]:
  "domain_component_errors False policy request = [] \<longleftrightarrow> components_admitted policy request"
  by (cases policy; cases "find isDomainComponentRule (the policy)")
    (simp_all add: domain_component_errors_def components_admitted_def component_errors_iff Let_def)

lemma san_rule_errors_iff:
  "san_rule_errors False rule vs = [] \<longleftrightarrow>
     (\<forall>p \<in> set (given (ru_required rule)). \<exists>v \<in> set vs. meets (ru_type rule = URI) v (Some [p])) \<and>
     (\<forall>v \<in> set vs. value_admitted (ru_type rule = URI) rule v)"
proof -
  have one: "validateValueAgainstConstraints v [p] u \<longleftrightarrow> meets u v (Some [p])" for v p u
    using constraints_meets [of v "Some [p]" u] by simp
  show ?thesis
    by (auto simp: san_rule_errors_def value_admitted_def one constraints_meets required_meets meets_empty Let_def
        filter_empty_conv list_ex_iff)
qed

lemma sans_of_type_set [simp]: "set (sans_of_type t sans) = {v. (t, v) \<in> set (given sans)}"
  by (auto simp: sans_of_type_def image_iff)

lemma san_errors_iff [check_simps]: "san_errors False policy request = [] \<longleftrightarrow> sans_admitted policy request"
  by (cases policy)
    (auto simp: san_errors_def sans_admitted_def san_rule_errors_iff uncovered_iff Let_def)

lemma usage_errors_iff [check_simps]: "usage_errors extended False policy usages = [] \<longleftrightarrow> usages_admitted policy usages"
  by (cases policy; cases usages) (auto simp: usage_errors_def usages_admitted_def filter_empty_conv Let_def)

lemma algorithm_errors_iff [check_simps]:
  "algorithm_errors e toApi allowed requested = [] \<longleftrightarrow> algorithm_admitted toApi allowed requested"
  by (auto simp: algorithm_errors_def algorithm_admitted_def)

lemma validity_errors_iff:
  "date_errors request = [] \<and> ttl_errors policy request = Inr [] \<and> range_errors now policy request = Inr [] \<longleftrightarrow>
     validity_admitted now policy request"
proof -
  have t: "ttl_errors policy request = Inr [] \<longleftrightarrow> (case policy of None \<Rightarrow> True | Some maxValidity \<Rightarrow>
        truthy (cq_ttl request) \<longrightarrow> (\<exists>n. parseTTL (the (cq_ttl request)) = Inr n \<and> within_maximum maxValidity n))"
    by (cases policy)
      (auto simp: ttl_errors_def within_maximum_def rbind_Inr_iff not_less split: if_splits)
  have r: "range_errors now policy request = Inr [] \<longleftrightarrow> (case policy of None \<Rightarrow> True | Some maxValidity \<Rightarrow>
        \<forall>b. cq_notAfter request = Some b \<longrightarrow>
           within_maximum maxValidity (b - (case cq_notBefore request of None \<Rightarrow> now | Some a \<Rightarrow> a)))"
    by (cases policy; cases "cq_notAfter request")
      (auto simp: range_errors_def within_maximum_def rbind_Inr_iff not_less Let_def split: if_splits)
  have d: "date_errors request = [] \<longleftrightarrow>
      \<not> (truthy (cq_ttl request) \<and> (cq_notBefore request \<noteq> None \<or> cq_notAfter request \<noteq> None)) \<and>
      (\<forall>a b. cq_notBefore request = Some a \<and> cq_notAfter request = Some b \<longrightarrow> a < b)"
    by (auto simp: date_errors_def split: option.splits)
  show ?thesis
    unfolding t r d validity_admitted_def by (cases policy) auto
qed

lemma ca_errors_iff [check_simps]: "ca_errors False policy requested = [] \<longleftrightarrow> authority_admitted policy requested"
  by (auto simp: ca_errors_def authority_admitted_def Let_def split: option.splits)

text \<open>
  C6: a request has no error exactly when the policy admits it: each attribute and each alternative name that
  is given has a rule, meets none of its denied patterns and meets a required or an allowed one; what is
  required is there; no denied sequence of domain components is anywhere in the request; the usages are among
  the required and allowed ones; and the validity is within the maximum.
\<close>
theorem certificate_check_decides:
  "validateRequestAgainstPolicy now policy request False = Inr [] \<longleftrightarrow> admits now policy request"
proof -
  have "validateRequestAgainstPolicy now policy request False = Inr [] \<longleftrightarrow>
      subject_errors False (tp_subject policy) request = [] \<and>
      domain_component_errors False (tp_subject policy) request = [] \<and>
      san_errors False (tp_sans policy) request = [] \<and>
      usage_errors False False (tp_keyUsages policy) (cq_keyUsages request) = [] \<and>
      usage_errors True False (tp_extendedKeyUsages policy) (cq_extendedKeyUsages request) = [] \<and>
      algorithm_errors SignatureAlgorithmNotAllowed mapTemplateSignatureAlgorithmToApi
        (Option.bind (tp_algorithms policy) al_signature) (cq_signatureAlgorithm request) = [] \<and>
      algorithm_errors KeyAlgorithmNotAllowed mapTemplateKeyAlgorithmToApi
        (Option.bind (tp_algorithms policy) al_keyAlgorithm) (cq_keyAlgorithm request) = [] \<and>
      (date_errors request = [] \<and> ttl_errors (tp_validity policy) request = Inr [] \<and>
       range_errors now (tp_validity policy) request = Inr []) \<and>
      ca_errors False (tp_basicConstraints policy) (cq_basicConstraints request) = []"
    by (auto simp: validateRequestAgainstPolicy_def rbind_Inr_iff)
  then show ?thesis by (simp only: check_simps validity_errors_iff admits_def)
qed

section \<open>Leaving out what is required\<close>

text \<open>The messages on something that is required and not there.\<close>

fun about_required :: "violation \<Rightarrow> bool" where
  "about_required (MissingAttribute t) = True"
| "about_required (AttributeNotAsRequired t) = True"
| "about_required ComponentsNotAsRequired = True"
| "about_required ComponentsMissing = True"
| "about_required (MissingSan t p) = True"
| "about_required (MissingUsages x) = True"
| "about_required CaRequired = True"
| "about_required _ = False"

abbreviation other_errors :: "violation list \<Rightarrow> violation list" where
  "other_errors \<equiv> filter (\<lambda>e. \<not> about_required e)"

named_theorems skip_simps \<open>what is left of each part when required values are left out\<close>

lemma other_errors_map:
  "(\<And>x. \<not> about_required (f x)) \<Longrightarrow> other_errors (map f xs) = map f xs"
  "(\<And>x. about_required (f x)) \<Longrightarrow> other_errors (map f xs) = []"
  by (auto simp: filter_id_conv filter_empty_conv)

lemma skip_attribute: "other_errors (attribute_errors False rule v) = attribute_errors True rule v"
  by (simp add: attribute_errors_def Let_def split: option.split)

lemma skip_subject [skip_simps]:
  "other_errors (subject_errors False policy request) = subject_errors True policy request"
  by (cases policy) (simp_all add: subject_errors_def Let_def filter_concat skip_attribute other_errors_map o_def)

lemma skip_components [skip_simps]:
  "other_errors (domain_component_errors False policy request) = domain_component_errors True policy request"
  by (simp add: domain_component_errors_def validateDomainComponentsAgainstRule_def Let_def split: option.split)

lemma skip_san_rule: "other_errors (san_rule_errors False rule vs) = san_rule_errors True rule vs"
  by (simp add: san_rule_errors_def Let_def other_errors_map)

lemma skip_sans [skip_simps]: "other_errors (san_errors False policy request) = san_errors True policy request"
  by (cases policy) (simp_all add: san_errors_def filter_concat skip_san_rule other_errors_map o_def)

lemma skip_usages [skip_simps]: "other_errors (usage_errors x False policy us) = usage_errors x True policy us"
  by (simp add: usage_errors_def Let_def split: option.split)

lemma skip_authority [skip_simps]: "other_errors (ca_errors False policy r) = ca_errors True policy r"
proof -
  have if_filter: "other_errors (if b then xs else ys) = (if b then other_errors xs else other_errors ys)" for b xs ys
    by simp
  have opt_filter: "other_errors (case x of None \<Rightarrow> xs | Some y \<Rightarrow> f y) = (case x of None \<Rightarrow> other_errors xs | Some y \<Rightarrow> other_errors (f y))"
    for x xs and f :: "int \<Rightarrow> violation list"
    by (cases x) simp_all
  show ?thesis
    unfolding ca_errors_def Let_def filter_append if_filter opt_filter filter.simps about_required.simps if_True not_False_eq_True
    by simp
qed

lemma skip_algorithms [skip_simps]:
  "\<not> about_required e \<Longrightarrow> other_errors (algorithm_errors e f allowed r) = algorithm_errors e f allowed r"
  by (simp add: algorithm_errors_def)

lemma skip_dates [skip_simps]: "other_errors (date_errors request) = date_errors request"
  by (simp add: date_errors_def split: option.split)

lemma skip_ttl: "ttl_errors policy request = Inr es \<Longrightarrow> other_errors es = es"
  by (auto simp: ttl_errors_def rbind_Inr_iff split: option.splits if_splits)

lemma skip_range: "range_errors now policy request = Inr es \<Longrightarrow> other_errors es = es"
  by (auto simp: range_errors_def rbind_Inr_iff Let_def split: option.splits if_splits)

text \<open>
  C20: checking the defaults of a profile with the required values left out gives the errors of the whole check
  in the same order, without those on something required that is missing, and nothing else changes.
\<close>
theorem skip_required_drops_only_required:
  "validateRequestAgainstPolicy now policy request True =
     map_sum id (filter (\<lambda>e. \<not> about_required e)) (validateRequestAgainstPolicy now policy request False)"
proof (cases "ttl_errors (tp_validity policy) request")
  case (Inl e)
  then show ?thesis by (simp add: validateRequestAgainstPolicy_def)
next
  case t: (Inr ts)
  show ?thesis
  proof (cases "range_errors now (tp_validity policy) request")
    case (Inl e)
    then show ?thesis by (simp add: validateRequestAgainstPolicy_def t)
  next
    case (Inr rs)
    then show ?thesis
      by (simp add: validateRequestAgainstPolicy_def t skip_simps skip_ttl [OF t] skip_range [OF Inr])
  qed
qed

end
