(* ===== verification/CertificateIssue.thy ===== *)
theory CertificateIssue
  imports CertificateChecks
begin

text \<open>
  What is put in a certificate once its request was checked (\<open>services/certificate-common\<close> and
  \<open>services/certificate-v3/certificate-v3-fns.ts\<close>): the names of usages, the defaults of the profile, the
  subject and the alternative names under the rules of the policy, how long it is valid and when it is
  renewed.

  The package \<open>ms\<close> that reads durations is the parameter \<open>ms\<close>; a call of \<open>ms\<close> that throws is \<open>Inl\<close>.
  Default durations of profiles are whole days. \<open>tomorrow\<close> is the next midnight of the server's clock.
\<close>

datatype issue_error =
    UnreadableDuration string | InvalidDuration string | TtlRequired | ProfileTtlTooLong | NoValidity
  | UnknownKeyUsage string | UnknownExtendedKeyUsage string
  | SanExplicitlyDenied string CertSubjectAlternativeNameType
  | SanRefused string CertSubjectAlternativeNameType

section \<open>Names of usages\<close>

fun key_usage_value :: "CertKeyUsageType \<Rightarrow> string" where
  "key_usage_value DIGITAL_SIGNATURE = ''digital_signature''"
| "key_usage_value KEY_ENCIPHERMENT = ''key_encipherment''"
| "key_usage_value NON_REPUDIATION = ''non_repudiation''"
| "key_usage_value DATA_ENCIPHERMENT = ''data_encipherment''"
| "key_usage_value KEY_AGREEMENT = ''key_agreement''"
| "key_usage_value KEY_CERT_SIGN = ''key_cert_sign''"
| "key_usage_value CRL_SIGN = ''crl_sign''"
| "key_usage_value ENCIPHER_ONLY = ''encipher_only''"
| "key_usage_value DECIPHER_ONLY = ''decipher_only''"

fun mapKeyUsageToLegacy :: "CertKeyUsageType \<Rightarrow> string" where
  "mapKeyUsageToLegacy DIGITAL_SIGNATURE = ''digitalSignature''"
| "mapKeyUsageToLegacy KEY_ENCIPHERMENT = ''keyEncipherment''"
| "mapKeyUsageToLegacy NON_REPUDIATION = ''nonRepudiation''"
| "mapKeyUsageToLegacy DATA_ENCIPHERMENT = ''dataEncipherment''"
| "mapKeyUsageToLegacy KEY_AGREEMENT = ''keyAgreement''"
| "mapKeyUsageToLegacy KEY_CERT_SIGN = ''keyCertSign''"
| "mapKeyUsageToLegacy CRL_SIGN = ''cRLSign''"
| "mapKeyUsageToLegacy ENCIPHER_ONLY = ''encipherOnly''"
| "mapKeyUsageToLegacy DECIPHER_ONLY = ''decipherOnly''"

definition key_usages :: "CertKeyUsageType list" where
  "key_usages = [DIGITAL_SIGNATURE, KEY_ENCIPHERMENT, NON_REPUDIATION, DATA_ENCIPHERMENT, KEY_AGREEMENT,
     KEY_CERT_SIGN, CRL_SIGN, ENCIPHER_ONLY, DECIPHER_ONLY]"

definition KEY_USAGE_BY_ALIAS :: "(string \<times> CertKeyUsageType) list" where
  "KEY_USAGE_BY_ALIAS =
     foldl (\<lambda>m (k, v). AList.update k v m) []
       (concat (map (\<lambda>standard. [(mapKeyUsageToLegacy standard, standard), (key_usage_value standard, standard)]) key_usages))"

definition mapLegacyKeyUsageToStandard :: "string \<Rightarrow> issue_error + CertKeyUsageType" where
  "mapLegacyKeyUsageToStandard usage = (case map_of KEY_USAGE_BY_ALIAS usage of
       None \<Rightarrow> Inl (UnknownKeyUsage usage) | Some standard \<Rightarrow> Inr standard)"

fun extended_usage_value :: "CertExtendedKeyUsageType \<Rightarrow> string" where
  "extended_usage_value CLIENT_AUTH = ''client_auth''"
| "extended_usage_value SERVER_AUTH = ''server_auth''"
| "extended_usage_value CODE_SIGNING = ''code_signing''"
| "extended_usage_value EMAIL_PROTECTION = ''email_protection''"
| "extended_usage_value OCSP_SIGNING = ''ocsp_signing''"
| "extended_usage_value TIME_STAMPING = ''time_stamping''"
| "extended_usage_value ANY_PURPOSE = ''any_purpose''"

text \<open>The identifier and the older name of each extended usage, in the order of the table.\<close>

definition CERT_EXTENDED_KEY_USAGES :: "(CertExtendedKeyUsageType \<times> string \<times> string) list" where
  "CERT_EXTENDED_KEY_USAGES =
     [(CLIENT_AUTH, ''1.3.6.1.5.5.7.3.2'', ''clientAuth''), (SERVER_AUTH, ''1.3.6.1.5.5.7.3.1'', ''serverAuth''),
      (CODE_SIGNING, ''1.3.6.1.5.5.7.3.3'', ''codeSigning''), (EMAIL_PROTECTION, ''1.3.6.1.5.5.7.3.4'', ''emailProtection''),
      (OCSP_SIGNING, ''1.3.6.1.5.5.7.3.9'', ''ocspSigning''), (TIME_STAMPING, ''1.3.6.1.5.5.7.3.8'', ''timeStamping''),
      (ANY_PURPOSE, ''2.5.29.37.0'', ''anyExtendedKeyUsage'')]"

definition EXTENDED_KEY_USAGE_BY_ALIAS :: "(string \<times> CertExtendedKeyUsageType) list" where
  "EXTENDED_KEY_USAGE_BY_ALIAS =
     foldl (\<lambda>m (k, v). AList.update k v m) []
       (concat (map (\<lambda>(standard, oid, legacyName). [(legacyName, standard), (extended_usage_value standard, standard)])
          CERT_EXTENDED_KEY_USAGES))"

definition mapExtendedKeyUsageToLegacy :: "CertExtendedKeyUsageType \<Rightarrow> string" where
  "mapExtendedKeyUsageToLegacy usage = (case map_of CERT_EXTENDED_KEY_USAGES usage of
       None \<Rightarrow> extended_usage_value usage | Some (oid, legacyName) \<Rightarrow> legacyName)"

definition mapLegacyExtendedKeyUsageToStandard :: "string \<Rightarrow> issue_error + CertExtendedKeyUsageType" where
  "mapLegacyExtendedKeyUsageToStandard usage = (case map_of EXTENDED_KEY_USAGE_BY_ALIAS usage of
       None \<Rightarrow> Inl (UnknownExtendedKeyUsage usage) | Some standard \<Rightarrow> Inr standard)"

text \<open>Requests may name usages in both forms; a name that is neither is left as it is.\<close>

definition map_key_usage :: "string \<Rightarrow> string" where
  "map_key_usage usage = (case mapLegacyKeyUsageToStandard usage of Inl e \<Rightarrow> usage | Inr u \<Rightarrow> key_usage_value u)"

definition map_extended_usage :: "string \<Rightarrow> string" where
  "map_extended_usage usage =
     (case mapLegacyExtendedKeyUsageToStandard usage of Inl e \<Rightarrow> usage | Inr u \<Rightarrow> extended_usage_value u)"

definition mapEnumsForValidation :: "string list option \<times> string list option \<Rightarrow> string list option \<times> string list option" where
  "mapEnumsForValidation request =
     (map_option (map map_key_usage) (fst request), map_option (map map_extended_usage) (snd request))"

text \<open>The usages of a stored certificate: nothing, a list, or a text with commas.\<close>

datatype stored_usages = NoUsages | UsageList "string list" | UsageText string

definition raw_usages :: "stored_usages \<Rightarrow> string list" where
  "raw_usages stored = (case stored of NoUsages \<Rightarrow> [] | UsageList us \<Rightarrow> us
     | UsageText t \<Rightarrow> if t = [] then [] else map trim (split_char (CHR '','') t))"

definition known_usages :: "('u \<Rightarrow> string) \<Rightarrow> ('u \<Rightarrow> string) \<Rightarrow> 'u list \<Rightarrow> string list" where
  "known_usages current legacy us = map current us @ map legacy us"

fun accepted_usages :: "string list \<Rightarrow> (string \<Rightarrow> issue_error + 'u) \<Rightarrow> string list \<Rightarrow> issue_error + 'u list" where
  "accepted_usages known toStandard [] = Inr []"
| "accepted_usages known toStandard (u # us) =
     (if u \<in> set known
      then rbind (toStandard u) (\<lambda>s. rbind (accepted_usages known toStandard us) (\<lambda>rest. Inr (s # rest)))
      else accepted_usages known toStandard us)"

definition parseKeyUsages :: "stored_usages \<Rightarrow> issue_error + CertKeyUsageType list" where
  "parseKeyUsages keyUsages =
     accepted_usages (known_usages key_usage_value mapKeyUsageToLegacy key_usages) mapLegacyKeyUsageToStandard
       (raw_usages keyUsages)"

definition parseExtendedKeyUsages :: "stored_usages \<Rightarrow> issue_error + CertExtendedKeyUsageType list" where
  "parseExtendedKeyUsages extendedKeyUsages =
     accepted_usages (known_usages extended_usage_value mapExtendedKeyUsageToLegacy (map fst CERT_EXTENDED_KEY_USAGES))
       mapLegacyExtendedKeyUsageToStandard (raw_usages extendedKeyUsages)"

section \<open>Defaults of the profile\<close>

record profile_defaults =
  pd_ttlDays :: "nat option"
  pd_commonName :: "string option"
  pd_keyAlgorithm :: "string option"
  pd_signatureAlgorithm :: "string option"
  pd_keyUsages :: "CertKeyUsageType list option"
  pd_extendedKeyUsages :: "CertExtendedKeyUsageType list option"
  pd_basicConstraints :: "ca_request option"
  pd_organization :: "string option"
  pd_organizationalUnit :: "string option"
  pd_country :: "string option"
  pd_state :: "string option"
  pd_locality :: "string option"
  pd_subjectAltNames :: "(CertSubjectAlternativeNameType \<times> string) list option"
  pd_domainComponents :: "string list option"

text \<open>A field of a request: the key may be missing (\<open>None\<close>), or be there without a value (\<open>Some None\<close>).\<close>

record open_request =
  or_commonName :: "string option option"
  or_organization :: "string option option"
  or_organizationalUnit :: "string option option"
  or_country :: "string option option"
  or_state :: "string option option"
  or_locality :: "string option option"
  or_domainComponents :: "string list option option"
  or_keyAlgorithm :: "string option option"
  or_signatureAlgorithm :: "string option option"
  or_keyUsages :: "CertKeyUsageType list option"
  or_extendedKeyUsages :: "CertExtendedKeyUsageType list option"
  or_basicConstraints :: "ca_request option"
  or_altNames :: "(CertSubjectAlternativeNameType \<times> string) list option"

definition field_or :: "'a option option \<Rightarrow> 'a option \<Rightarrow> 'a option option" where
  "field_or field fallback = (case field of None \<Rightarrow> Some fallback | Some v \<Rightarrow> Some v)"

definition value_or :: "'a option \<Rightarrow> 'a option \<Rightarrow> 'a option" where
  "value_or v fallback = (case v of None \<Rightarrow> fallback | Some x \<Rightarrow> Some x)"

definition applyProfileDefaults :: "open_request \<Rightarrow> profile_defaults option \<Rightarrow> open_request" where
  "applyProfileDefaults request defaults = (case defaults of None \<Rightarrow> request | Some d \<Rightarrow>
     \<lparr>or_commonName = field_or (or_commonName request) (pd_commonName d),
      or_organization = field_or (or_organization request) (pd_organization d),
      or_organizationalUnit = field_or (or_organizationalUnit request) (pd_organizationalUnit d),
      or_country = field_or (or_country request) (pd_country d),
      or_state = field_or (or_state request) (pd_state d),
      or_locality = field_or (or_locality request) (pd_locality d),
      or_domainComponents = field_or (or_domainComponents request) (pd_domainComponents d),
      or_keyAlgorithm = field_or (or_keyAlgorithm request) (pd_keyAlgorithm d),
      or_signatureAlgorithm = field_or (or_signatureAlgorithm request) (pd_signatureAlgorithm d),
      or_keyUsages = value_or (or_keyUsages request) (pd_keyUsages d),
      or_extendedKeyUsages = value_or (or_extendedKeyUsages request) (pd_extendedKeyUsages d),
      or_basicConstraints = value_or (or_basicConstraints request) (pd_basicConstraints d),
      or_altNames = (if given (or_altNames request) \<noteq> [] then or_altNames request else pd_subjectAltNames d)\<rparr>)"

section \<open>Subject and alternative names\<close>

text \<open>The attributes with the key of the request, in the order of \<open>attributeMap\<close>.\<close>

definition subject_values :: "cert_request \<Rightarrow> (CertSubjectAttributeType \<times> string option) list" where
  "subject_values request =
     [(COMMON_NAME, cq_commonName request), (ORGANIZATION, cq_organization request), (COUNTRY, cq_country request),
      (STATE, cq_state request), (LOCALITY, cq_locality request), (ORGANIZATIONAL_UNIT, cq_organizationalUnit request)]"

definition buildCertificateSubjectFromTemplate ::
  "cert_request \<Rightarrow> CertSubjectAttributeType value_rule list option \<Rightarrow> (CertSubjectAttributeType \<times> string) list" where
  "buildCertificateSubjectFromTemplate request templateAttributes =
     (if given templateAttributes = []
      then foldl (\<lambda>subject (t, v). if truthy v then AList.update t (the v) subject else subject) [] (subject_values request)
      else foldl (\<lambda>subject attr. case map_of (subject_values request) (ru_type attr) of
               None \<Rightarrow> subject
             | Some v \<Rightarrow> if truthy v \<and> (ru_allowed attr \<noteq> None \<or> ru_required attr \<noteq> None)
                         then AList.update (ru_type attr) (the v) subject else subject)
             [] (given templateAttributes))"

definition validateValueAgainstPatterns :: "string \<Rightarrow> string list \<Rightarrow> bool" where
  "validateValueAgainstPatterns value patterns \<longleftrightarrow>
     list_ex (\<lambda>pattern. if isWildcardPattern pattern then createWildcardRegex (to_lower pattern) (to_lower value)
                        else to_lower pattern = to_lower value) patterns"

text \<open>A list that is not there is not met.\<close>

definition meets_list :: "string \<Rightarrow> string list option \<Rightarrow> bool" where
  "meets_list value patterns = (case patterns of None \<Rightarrow> False | Some ps \<Rightarrow> validateValueAgainstPatterns value ps)"

definition admit_san ::
  "CertSubjectAlternativeNameType value_rule list \<Rightarrow> CertSubjectAlternativeNameType \<times> string \<Rightarrow> issue_error + string" where
  "admit_san templateSans san = (case find (\<lambda>template. ru_type template = fst san) templateSans of
       None \<Rightarrow> Inr (snd san)
     | Some template \<Rightarrow>
         if meets_list (snd san) (ru_denied template) then Inl (SanExplicitlyDenied (snd san) (fst san))
         else if meets_list (snd san) (ru_required template) \<or> meets_list (snd san) (ru_allowed template) \<or>
                 (ru_allowed template = None \<and> ru_required template = None)
         then Inr (snd san)
         else Inl (SanRefused (snd san) (fst san)))"

fun rmap :: "('a \<Rightarrow> 'e + 'b) \<Rightarrow> 'a list \<Rightarrow> 'e + 'b list" where
  "rmap f [] = Inr []"
| "rmap f (x # xs) = rbind (f x) (\<lambda>y. rbind (rmap f xs) (\<lambda>ys. Inr (y # ys)))"

definition buildSubjectAlternativeNamesFromTemplate ::
  "(CertSubjectAlternativeNameType \<times> string) list option \<Rightarrow> CertSubjectAlternativeNameType value_rule list option
     \<Rightarrow> issue_error + string" where
  "buildSubjectAlternativeNamesFromTemplate sans templateSans =
     (if given sans = [] then Inr []
      else if given templateSans = [] then Inr (join_char (CHR '','') (map snd (given sans)))
      else map_sum id (join_char (CHR '','')) (rmap (admit_san (given templateSans)) (given sans)))"

section \<open>How long a certificate is valid\<close>

abbreviation day_ms :: int where "day_ms \<equiv> 24 * 60 * 60 * 1000"

text \<open>A number as it appears in a template string.\<close>

fun decimal :: "nat \<Rightarrow> string" where
  "decimal n = (if n < 10 then [char_of (48 + n)] else decimal (n div 10) @ [char_of (48 + n mod 10)])"

declare decimal.simps [simp del]

definition resolveEffectiveTtl ::
  "(string \<Rightarrow> issue_error + int) \<Rightarrow> string option \<Rightarrow> nat option \<Rightarrow> string option \<Rightarrow> string \<Rightarrow> issue_error + string" where
  "resolveEffectiveTtl ms requestTtl profileDefaultTtlDays policyMaxValidity flowDefaultTtl =
     (if truthy requestTtl then Inr (the requestTtl)
      else if profileDefaultTtlDays \<noteq> None \<and> profileDefaultTtlDays \<noteq> Some 0
      then rbind (if truthy policyMaxValidity
                  then rbind (ms (the policyMaxValidity)) (\<lambda>policyMaxMs.
                       rguard (\<not> int (the profileDefaultTtlDays) * day_ms > policyMaxMs) ProfileTtlTooLong)
                  else Inr ())
             (\<lambda>_. Inr (decimal (the profileDefaultTtlDays) @ ''d''))
      else if flowDefaultTtl \<noteq> [] then Inr flowDefaultTtl
      else Inl TtlRequired)"

text \<open>
  The dates of a self-signed certificate, and those under an internal authority. The clock is read for the start
  (\<open>now\<close>) and again for the end (\<open>now'\<close>).
\<close>

definition self_signed_dates ::
  "(string \<Rightarrow> issue_error + int) \<Rightarrow> int \<Rightarrow> int \<Rightarrow> int option \<Rightarrow> int option \<Rightarrow> string option \<Rightarrow> issue_error + (int \<times> int)" where
  "self_signed_dates ms now now' notBefore notAfter ttl =
     (let notBeforeDate = (case notBefore of None \<Rightarrow> now | Some t \<Rightarrow> t) in
      case notAfter of
        Some t \<Rightarrow> Inr (notBeforeDate, t)
      | None \<Rightarrow> if truthy ttl then rbind (ms (the ttl)) (\<lambda>d. Inr (notBeforeDate, now' + d)) else Inl NoValidity)"

definition parseTtlToDays :: "(string \<Rightarrow> issue_error + int) \<Rightarrow> string \<Rightarrow> issue_error + int" where
  "parseTtlToDays ms ttl = rbind (ms ttl) (\<lambda>durationMs.
     if durationMs \<le> 0 then Inl (InvalidDuration ttl) else Inr (- ((- durationMs) div day_ms)))"

definition calculateRenewalThreshold :: "int option \<Rightarrow> int \<Rightarrow> int option" where
  "calculateRenewalThreshold profileRenewBeforeDays certificateTtlInDays =
     (case profileRenewBeforeDays of
        None \<Rightarrow> None
      | Some p \<Rightarrow> if p = 0 then None
                  else if certificateTtlInDays > p then Some p else Some (max 1 (certificateTtlInDays - 1)))"

definition isValidRenewalTiming :: "int \<Rightarrow> int \<Rightarrow> int \<Rightarrow> bool" where
  "isValidRenewalTiming tomorrow renewBeforeDays certificateExpiryDate \<longleftrightarrow>
     certificateExpiryDate - renewBeforeDays * day_ms \<ge> tomorrow"

record api_config =
  ac_autoRenew :: bool
  ac_renewBeforeDays :: "int option"

definition calculateFinalRenewBeforeDays ::
  "(string \<Rightarrow> issue_error + int) \<Rightarrow> int \<Rightarrow> api_config option \<Rightarrow> string \<Rightarrow> int \<Rightarrow> issue_error + int option" where
  "calculateFinalRenewBeforeDays ms tomorrow apiConfig ttl certificateExpiryDate = (case apiConfig of
       None \<Rightarrow> Inr None
     | Some c \<Rightarrow>
         if \<not> ac_autoRenew c \<or> ac_renewBeforeDays c \<in> {None, Some 0} then Inr None
         else rbind (parseTtlToDays ms ttl) (\<lambda>certificateTtlInDays.
           case calculateRenewalThreshold (ac_renewBeforeDays c) certificateTtlInDays of
             None \<Rightarrow> Inr None
           | Some d \<Rightarrow> Inr (if d \<noteq> 0 \<and> isValidRenewalTiming tomorrow d certificateExpiryDate then Some d else None)))"

definition resolveRenewedCertificateRenewBeforeDays ::
  "(string \<Rightarrow> issue_error + int) \<Rightarrow> int \<Rightarrow> api_config option \<Rightarrow> int option \<Rightarrow> string \<Rightarrow> int \<Rightarrow> issue_error + int option" where
  "resolveRenewedCertificateRenewBeforeDays ms tomorrow apiConfig previousRenewBeforeDays ttl notAfter =
     (let configured = (case apiConfig of None \<Rightarrow> None | Some c \<Rightarrow> if ac_autoRenew c then ac_renewBeforeDays c else None);
          desired = value_or configured previousRenewBeforeDays
      in if desired \<in> {None, Some 0} then Inr None
         else rbind (parseTtlToDays ms ttl) (\<lambda>certificateTtlInDays.
           case calculateRenewalThreshold desired certificateTtlInDays of
             None \<Rightarrow> Inr None
           | Some d \<Rightarrow> Inr (if d \<noteq> 0 \<and> isValidRenewalTiming tomorrow d notAfter then Some d else None)))"

section \<open>Usages are read back\<close>

lemma split_join_usages: "xs \<noteq> [] \<Longrightarrow> list_all (\<lambda>x. c \<notin> set x) xs \<Longrightarrow> split_char c (join_char c xs) = xs"
proof (induction c xs rule: join_char.induct)
  case (3 c x y ys)
  have app: "split_char c (x @ c # s) = x # split_char c s" if "c \<notin> set x" for s
    using that by (induction x) auto
  from 3 show ?case by (simp add: app)
qed (auto simp: split_char_no_sep)

lemma key_usage_aliases:
  "KEY_USAGE_BY_ALIAS = concat (map (\<lambda>u. [(mapKeyUsageToLegacy u, u), (key_usage_value u, u)]) key_usages)"
  by (simp add: KEY_USAGE_BY_ALIAS_def key_usages_def)

lemma extended_usage_aliases:
  "EXTENDED_KEY_USAGE_BY_ALIAS =
     concat (map (\<lambda>(u, oid, l). [(l, u), (extended_usage_value u, u)]) CERT_EXTENDED_KEY_USAGES)"
  by (simp add: EXTENDED_KEY_USAGE_BY_ALIAS_def CERT_EXTENDED_KEY_USAGES_def)

lemmas usage_tables = key_usage_aliases extended_usage_aliases key_usages_def CERT_EXTENDED_KEY_USAGES_def
  known_usages_def mapLegacyKeyUsageToStandard_def mapLegacyExtendedKeyUsageToStandard_def mapExtendedKeyUsageToLegacy_def

lemma legacy_key_usage:
  "mapLegacyKeyUsageToStandard (mapKeyUsageToLegacy u) = Inr u"
  "mapLegacyKeyUsageToStandard (key_usage_value u) = Inr u"
  "mapKeyUsageToLegacy u \<in> set (known_usages key_usage_value mapKeyUsageToLegacy key_usages)"
  "CHR '','' \<notin> set (mapKeyUsageToLegacy u)"
  "mapKeyUsageToLegacy u \<noteq> []"
  by (cases u; simp add: usage_tables)+

lemma legacy_extended_usage:
  "mapLegacyExtendedKeyUsageToStandard (mapExtendedKeyUsageToLegacy e) = Inr e"
  "mapLegacyExtendedKeyUsageToStandard (extended_usage_value e) = Inr e"
  "mapExtendedKeyUsageToLegacy e \<in>
     set (known_usages extended_usage_value mapExtendedKeyUsageToLegacy (map fst CERT_EXTENDED_KEY_USAGES))"
  "CHR '','' \<notin> set (mapExtendedKeyUsageToLegacy e)"
  "mapExtendedKeyUsageToLegacy e \<noteq> []"
  by (cases e; simp add: usage_tables)+

lemma trim_legacy:
  "trim (mapKeyUsageToLegacy u) = mapKeyUsageToLegacy u"
  "trim (mapExtendedKeyUsageToLegacy e) = mapExtendedKeyUsageToLegacy e"
  by (cases u; simp add: trim_def trim_left_def is_ws_def) (cases e; simp add: usage_tables trim_def trim_left_def is_ws_def)

lemma accepted_usages_back:
  "(\<And>u. legacy u \<in> set known) \<Longrightarrow> (\<And>u. toStandard (legacy u) = Inr u) \<Longrightarrow>
     accepted_usages known toStandard (map legacy us) = Inr us"
  by (induction us) auto

lemma raw_usages_back:
  assumes "\<And>u. trim (legacy u) = legacy u" "\<And>u. CHR '','' \<notin> set (legacy u)" "\<And>u. legacy u \<noteq> []"
  shows "raw_usages (UsageText (join_char (CHR '','') (map legacy us))) = map legacy us"
proof (cases us)
  case Nil
  then show ?thesis by (simp add: raw_usages_def)
next
  case (Cons u rest)
  then have "join_char (CHR '','') (map legacy us) \<noteq> []"
    using assms(3) by (cases rest) auto
  moreover have "split_char (CHR '','') (join_char (CHR '','') (map legacy us)) = map legacy us"
    using Cons assms(2) by (intro split_join_usages) (auto simp: list_all_iff)
  ultimately show ?thesis using assms(1) by (simp add: raw_usages_def o_def)
qed

text \<open>
  The usages of a certificate come back as they were, from a list of their older names and from a text of
  these names with commas between them, key usages and extended ones.
\<close>
theorem usages_round_trip:
  "parseKeyUsages (UsageList (map mapKeyUsageToLegacy us)) = Inr us \<and>
   parseKeyUsages (UsageText (join_char (CHR '','') (map mapKeyUsageToLegacy us))) = Inr us \<and>
   parseExtendedKeyUsages (UsageList (map mapExtendedKeyUsageToLegacy es)) = Inr es \<and>
   parseExtendedKeyUsages (UsageText (join_char (CHR '','') (map mapExtendedKeyUsageToLegacy es))) = Inr es"
proof -
  have l: "raw_usages (UsageList xs) = xs" for xs by (simp add: raw_usages_def)
  show ?thesis
    unfolding parseKeyUsages_def parseExtendedKeyUsages_def l
      raw_usages_back [of mapKeyUsageToLegacy, OF trim_legacy(1) legacy_key_usage(4,5)]
      raw_usages_back [of mapExtendedKeyUsageToLegacy, OF trim_legacy(2) legacy_extended_usage(4,5)]
    by (intro conjI accepted_usages_back legacy_key_usage legacy_extended_usage)
qed

section \<open>Names of an accepted request\<close>

lemma lower_star: "CHR ''*'' \<in> set (to_lower p) \<longleftrightarrow> CHR ''*'' \<in> set p"
proof -
  have up: "char_of (n + 32) \<noteq> CHR ''*''" if "65 \<le> n" "n \<le> 90" for n :: nat
  proof
    assume "char_of (n + 32) = CHR ''*''"
    then have "of_char (char_of (n + 32) :: char) = (of_char (CHR ''*'') :: nat)" by simp
    with that show False by simp
  qed
  have low: "lower_char c = CHR ''*'' \<longleftrightarrow> c = CHR ''*''" for c
  proof (cases "65 \<le> (of_char c :: nat) \<and> (of_char c :: nat) \<le> 90")
    case True
    then have "lower_char c \<noteq> CHR ''*''" using up [of "of_char c"] by (simp add: lower_char_def Let_def)
    moreover have "c \<noteq> CHR ''*''" using True by auto
    ultimately show ?thesis by simp
  next
    case False
    then have "lower_char c = c" unfolding lower_char_def Let_def by (rule if_not_P)
    then show ?thesis by simp
  qed
  have "CHR ''*'' \<in> set (to_lower p) \<longleftrightarrow> (\<exists>c \<in> set p. lower_char c = CHR ''*'')"
    unfolding to_lower_def set_map image_iff by (simp only: eq_commute)
  then show ?thesis by (simp only: low) blast
qed

lemma patterns_meet: "validateValueAgainstPatterns v ps \<longleftrightarrow> meets False v (Some ps)"
proof -
  have "(if isWildcardPattern p then createWildcardRegex (to_lower p) (to_lower v) else to_lower p = to_lower v) \<longleftrightarrow>
      matchesNormalizedPattern (to_lower v) (to_lower p)" for p
    by (simp add: matchesNormalizedPattern_def isWildcardPattern_def lower_star)
  then show ?thesis
    by (simp add: validateValueAgainstPatterns_def meets_def list_ex_iff pattern_fits normalize_input_def)
qed

lemma meets_list_iff: "meets_list v ps \<longleftrightarrow> meets False v ps"
  by (cases ps) (simp_all add: meets_list_def patterns_meet meets_empty)

lemma rmap_find:
  "(\<And>x. x \<in> set xs \<Longrightarrow> f x = (if ok x then Inr (g x) else Inl (e x))) \<Longrightarrow>
     rmap f xs = (case find (\<lambda>x. \<not> ok x) xs of None \<Rightarrow> Inr (map g xs) | Some x \<Rightarrow> Inl (e x))"
  by (induction xs) (auto split: option.splits)

text \<open>Whether a name that the policy admits passes the rule again when the certificate is made.\<close>

definition passes_again :: "CertSubjectAlternativeNameType value_rule list \<Rightarrow> CertSubjectAlternativeNameType \<times> string \<Rightarrow> bool" where
  "passes_again rules san \<longleftrightarrow> (case find (\<lambda>rule. ru_type rule = fst san) rules of None \<Rightarrow> True | Some rule \<Rightarrow>
     given (ru_allowed rule) \<noteq> [] \<or> (ru_allowed rule = None \<and> ru_required rule = None) \<or>
     meets False (snd san) (ru_required rule))"

lemma accepted_sans_admitted:
  assumes "san_errors skip (Some rules) request = []" "rule \<in> set rules" "(ru_type rule, v) \<in> set (given (cq_sans request))"
  shows "value_admitted (ru_type rule = URI) rule v"
proof -
  have "san_rule_errors skip rule (sans_of_type (ru_type rule) (cq_sans request)) = []"
    using assms(1,2) by (simp add: san_errors_def)
  with assms(3) show ?thesis
    by (auto simp: san_rule_errors_def value_admitted_def constraints_meets required_meets meets_empty Let_def
        filter_empty_conv split: if_splits)
qed

lemma admit_san_accepted:
  assumes "san_errors skip (Some rules) request = []" "list_all (\<lambda>rule. ru_type rule \<noteq> URI) rules"
    "san \<in> set (given (cq_sans request))"
  shows "admit_san rules san = (if passes_again rules san then Inr (snd san) else Inl (SanRefused (snd san) (fst san)))"
proof (cases "find (\<lambda>rule. ru_type rule = fst san) rules")
  case None
  then show ?thesis by (simp add: admit_san_def passes_again_def)
next
  case (Some rule)
  then have r: "rule \<in> set rules" "ru_type rule = fst san"
    by (auto simp: find_Some_iff)
  then have "value_admitted False rule (snd san)"
    using accepted_sans_admitted [OF assms(1) r(1), of "snd san"] assms(2,3) by (auto simp: list_all_iff)
  then show ?thesis
    by (auto simp: admit_san_def passes_again_def Some meets_list_iff value_admitted_def meets_empty)
qed

text \<open>
  C19: when a request that was accepted becomes a certificate, its alternative names go into it as they were
  requested, in order, unless one of them falls under a rule without allowed values that has required values
  which this name does not meet: such a name passes the check of the policy and is refused here. This is for
  policies without a rule for URIs: there the policy compares the path with regard to case and this place does not, so
  a name that one admits the other may refuse.
\<close>
theorem accepted_names_are_issued:
  assumes "validateRequestAgainstPolicy now policy request skip = Inr []" "tp_sans policy = Some rules"
    "list_all (\<lambda>rule. ru_type rule \<noteq> URI) rules"
  shows "buildSubjectAlternativeNamesFromTemplate (cq_sans request) (tp_sans policy) =
     (case find (\<lambda>san. \<not> passes_again rules san) (given (cq_sans request)) of
        None \<Rightarrow> Inr (join_char (CHR '','') (map snd (given (cq_sans request))))
      | Some san \<Rightarrow> Inl (SanRefused (snd san) (fst san)))"
proof -
  have e: "san_errors skip (Some rules) request = []"
    using assms(1,2) by (auto simp: validateRequestAgainstPolicy_def rbind_Inr_iff)
  have "rmap (admit_san rules) (given (cq_sans request)) =
      (case find (\<lambda>san. \<not> passes_again rules san) (given (cq_sans request)) of
         None \<Rightarrow> Inr (map snd (given (cq_sans request))) | Some san \<Rightarrow> Inl (SanRefused (snd san) (fst san)))"
    by (rule rmap_find) (rule admit_san_accepted [OF e assms(3)])
  note again = this
  have none: "find (\<lambda>san. \<not> passes_again [] san) xs = None" for xs
    by (simp add: find_None_iff passes_again_def)
  show ?thesis
  proof (cases "given (cq_sans request) = [] \<or> rules = []")
    case True
    then show ?thesis using none by (auto simp: buildSubjectAlternativeNamesFromTemplate_def assms(2))
  next
    case False
    then show ?thesis
      by (simp add: buildSubjectAlternativeNamesFromTemplate_def assms(2) again split: option.split)
  qed
qed

definition names_policy :: cert_policy where
  "names_policy = \<lparr>tp_id = 1, tp_projectId = ''p'', tp_name = ''web'', tp_description = None, tp_subject = None,
     tp_sans = Some [\<lparr>ru_type = DNS_NAME, ru_allowed = None, ru_required = Some [''*.a.com''], ru_denied = None\<rparr>],
     tp_keyUsages = None, tp_extendedKeyUsages = None, tp_algorithms = None, tp_validity = Some (Some ''365d''),
     tp_basicConstraints = None\<rparr>"

definition names_request :: cert_request where
  "names_request = \<lparr>cq_commonName = None, cq_domainComponents = None, cq_organization = None,
     cq_organizationalUnit = None, cq_locality = None, cq_state = None, cq_country = None, cq_keyUsages = None,
     cq_extendedKeyUsages = None, cq_sans = Some [(DNS_NAME, ''www.a.com''), (DNS_NAME, ''b.com'')],
     cq_ttl = Some ''1y'', cq_notBefore = None, cq_notAfter = None, cq_signatureAlgorithm = None,
     cq_keyAlgorithm = None, cq_basicConstraints = None\<rparr>"

lemma names_accepted: "validateRequestAgainstPolicy 0 names_policy names_request False = Inr []"
  by code_simp

theorem accepted_names_are_issued_witness:
  "buildSubjectAlternativeNamesFromTemplate (cq_sans names_request) (tp_sans names_policy) =
     Inl (SanRefused ''b.com'' DNS_NAME)"
proof -
  have rules: "tp_sans names_policy = Some (the (tp_sans names_policy))" by (simp add: names_policy_def)
  have uri: "list_all (\<lambda>rule. ru_type rule \<noteq> URI) (the (tp_sans names_policy))" by (simp add: names_policy_def)
  have m: "\<not> meets False ''b.com'' (Some [''*.a.com''])" "meets False ''www.a.com'' (Some [''*.a.com''])"
    unfolding patterns_meet [symmetric] by code_simp+
  show ?thesis
    using accepted_names_are_issued [OF names_accepted rules uri] m
    by (simp add: names_policy_def names_request_def passes_again_def)
qed

end
