(* ===== verification/CertificateLifetime.thy ===== *)
theory CertificateLifetime
  imports CertificateIssue
begin

text \<open>
  How long certificates live compared with what their policy allows. The policy reads a duration with its own
  function (months of 30 days, years of 365), the certificate is made with the package \<open>ms\<close> (\<open>m\<close> are minutes,
  a year is 365.25 days), which is a parameter here: what a theorem needs of it is a hypothesis on single texts.
\<close>

section \<open>Numbers and durations\<close>

lemma ttl_value_append: "ttl_value n (xs @ ys) = ttl_value (ttl_value n xs) ys"
  by (induction n xs rule: ttl_value.induct) simp_all

lemma decimal_digits: "list_all ttl_digit (decimal n) \<and> ttl_value 0 (decimal n) = int n \<and> decimal n \<noteq> []"
proof (induction n rule: decimal.induct)
  case (1 n)
  have nat_digit: "of_char (char_of (48 + k) :: char) = (48 + k :: nat)" if "k < 10" for k :: nat
    using that by simp
  have digit: "ttl_digit (char_of (48 + k))" if "k < 10" for k :: nat
    unfolding ttl_digit_def Let_def nat_digit [OF that] using that by simp
  have val: "(of_char (char_of (48 + k) :: char) :: int) - 48 = int k" if "k < 10" for k :: nat
  proof -
    have "(of_char (char_of (48 + k) :: char) :: int) = int (of_char (char_of (48 + k) :: char))"
      by (simp only: of_nat_of_char)
    then show ?thesis unfolding nat_digit [OF that] by simp
  qed
  show ?case
  proof (cases "n < 10")
    case True
    then show ?thesis using digit [of n] val [of n] by (simp add: decimal.simps [of n] del: of_char_of)
  next
    case False
    then show ?thesis
      using 1 digit [of "n mod 10"] val [of "n mod 10"]
      by (simp add: decimal.simps [of n] ttl_value_append del: of_char_of) presburger
  qed
qed

lemma parse_days: "parseTTL (decimal n @ ''d'') = Inr (int n * day_ms)"
  using decimal_digits [of n] by (simp add: parseTTL_def Let_def length_greater_0_conv [symmetric] del: length_greater_0_conv)

section \<open>What an accepted request allows\<close>

lemma accepted_parts:
  assumes "validateRequestAgainstPolicy now policy request skip = Inr []"
  shows "date_errors request = []" "ttl_errors (tp_validity policy) request = Inr []"
    "range_errors now (tp_validity policy) request = Inr []"
  using assms by (auto simp: validateRequestAgainstPolicy_def rbind_Inr_iff)

lemma accepted_validity:
  "validateRequestAgainstPolicy now policy request skip = Inr [] \<Longrightarrow> validity_admitted now (tp_validity policy) request"
  using accepted_parts validity_errors_iff by blast

text \<open>\<open>ms\<close> does not read a duration as longer than the policy does.\<close>

definition reads_no_longer :: "(string \<Rightarrow> issue_error + int) \<Rightarrow> string \<Rightarrow> bool" where
  "reads_no_longer ms t = (case (ms t, parseTTL t) of (Inr n, Inr k) \<Rightarrow> n \<le> k | _ \<Rightarrow> True)"

text \<open>
  C16: a self-signed certificate for an accepted request does not live longer than the maximum of the policy,
  when \<open>ms\<close> reads the requested duration as no longer than the policy does, but for the time between the two
  readings of the clock that give the start and the end of a certificate with a requested duration. The policy is
  checked no later than these readings.
\<close>
theorem lifetime_within_policy:
  assumes accepted: "validateRequestAgainstPolicy now policy request skip = Inr []"
    and maximum: "tp_validity policy = Some (Some m)" "m \<noteq> []" "parseTTL m = Inr d"
    and dates: "self_signed_dates ms now1 now2 (cq_notBefore request) (cq_notAfter request) (cq_ttl request) = Inr (start, finish)"
    and units: "reads_no_longer ms (the (cq_ttl request))" and clock: "now \<le> now1"
  shows "finish - start \<le> d + (if truthy (cq_ttl request) then now2 - now1 else 0)"
proof -
  have v: "validity_admitted now (Some (Some m)) request"
    using accepted_validity [OF accepted] maximum(1) by simp
  show ?thesis
  proof (cases "cq_notAfter request")
    case (Some b)
    with dates have "finish = b" "start = (case cq_notBefore request of None \<Rightarrow> now1 | Some a \<Rightarrow> a)"
      by (simp_all add: self_signed_dates_def)
    moreover have "\<not> truthy (cq_ttl request)" using v Some by (auto simp: validity_admitted_def)
    ultimately show ?thesis
      using v Some maximum clock by (cases "cq_notBefore request") (auto simp: validity_admitted_def within_maximum_def)
  next
    case None
    with dates obtain n where t: "truthy (cq_ttl request)" "ms (the (cq_ttl request)) = Inr n" "finish = now2 + n"
      by (auto simp: self_signed_dates_def rbind_Inr_iff split: if_splits)
    with v have "start = now1"
      using dates None by (auto simp: self_signed_dates_def validity_admitted_def rbind_Inr_iff split: option.splits)
    moreover obtain k where "parseTTL (the (cq_ttl request)) = Inr k" "k \<le> d"
      using v t(1) maximum by (auto simp: validity_admitted_def within_maximum_def)
    ultimately show ?thesis using units t by (simp add: reads_no_longer_def)
  qed
qed

text \<open>What the package gives for a whole number of hours, days, minutes or years.\<close>

definition ms_units :: "string \<Rightarrow> issue_error + int" where
  "ms_units t =
     (let n = ttl_value 0 (butlast t) in
      if length t < 2 \<or> \<not> list_all ttl_digit (butlast t) then Inl (UnreadableDuration t)
      else if last t = CHR ''h'' then Inr (n * 3600000)
      else if last t = CHR ''d'' then Inr (n * 86400000)
      else if last t = CHR ''m'' then Inr (n * 60000)
      else if last t = CHR ''y'' then Inr (n * 31557600000)
      else Inl (UnreadableDuration t))"

definition lifetime_request :: "string \<Rightarrow> cert_request" where
  "lifetime_request ttl = names_request\<lparr>cq_sans := Some [(DNS_NAME, ''www.a.com'')], cq_ttl := Some ttl\<rparr>"

theorem lifetime_within_policy_witness:
  "(1002 + 90 * day_ms) - 1001 \<le> (365 * day_ms :: int) + (if truthy (cq_ttl (lifetime_request ''90d'')) then 1002 - 1001 else 0)"
proof (rule lifetime_within_policy)
  show "validateRequestAgainstPolicy 1000 names_policy (lifetime_request ''90d'') False = Inr []" by code_simp
  show "tp_validity names_policy = Some (Some ''365d'')" by (simp add: names_policy_def)
  show "''365d'' \<noteq> []" by simp
  show "parseTTL ''365d'' = Inr (365 * day_ms)" by code_simp
  show "self_signed_dates ms_units 1001 1002 (cq_notBefore (lifetime_request ''90d'')) (cq_notAfter (lifetime_request ''90d''))
      (cq_ttl (lifetime_request ''90d'')) = Inr (1001, 1002 + 90 * day_ms)" by code_simp
  show "reads_no_longer ms_units (the (cq_ttl (lifetime_request ''90d'')))" by code_simp
  show "1000 \<le> (1001 :: int)" by simp
qed

section \<open>Units that differ\<close>

text \<open>
  a year is longer in the certificate than in the policy. A request for \<open>1y\<close> that is accepted under a
  maximum of \<open>365d\<close> gives a self-signed certificate that lives six hours longer than this maximum, where \<open>ms\<close>
  reads \<open>1y\<close> as 365.25 days.
\<close>
theorem year_outlives_maximum:
  assumes "validateRequestAgainstPolicy now policy request skip = Inr []"
    and "tp_validity policy = Some (Some ''365d'')" and "cq_ttl request = Some ''1y''" and "ms ''1y'' = Inr 31557600000"
  shows "\<exists>start finish d. parseTTL ''365d'' = Inr d \<and>
     self_signed_dates ms now1 now2 (cq_notBefore request) (cq_notAfter request) (cq_ttl request) = Inr (start, finish) \<and>
     finish - start = d + 6 * 60 * 60 * 1000 + (now2 - now1)"
proof -
  have d: "parseTTL ''365d'' = Inr (365 * day_ms)" by code_simp
  have "cq_notBefore request = None" "cq_notAfter request = None"
    using accepted_validity [OF assms(1)] assms(3) by (simp_all add: validity_admitted_def)
  then show ?thesis using d assms(3,4) by (simp add: self_signed_dates_def)
qed

theorem year_outlives_maximum_witness:
  "\<exists>start finish d. parseTTL ''365d'' = Inr d \<and> self_signed_dates ms_units 0 0 None None (Some ''1y'') = Inr (start, finish) \<and>
     finish - start = d + 6 * 60 * 60 * 1000 + (0 - 0)"
proof -
  have a: "validateRequestAgainstPolicy 0 names_policy (lifetime_request ''1y'') False = Inr []" by code_simp
  have m: "tp_validity names_policy = Some (Some ''365d'')" by (simp add: names_policy_def)
  have r: "cq_ttl (lifetime_request ''1y'') = Some ''1y''" "cq_notBefore (lifetime_request ''1y'') = None"
      "cq_notAfter (lifetime_request ''1y'') = None"
    by (simp_all add: lifetime_request_def names_request_def)
  have y: "ms_units ''1y'' = Inr 31557600000" by code_simp
  show ?thesis using year_outlives_maximum [where ms = ms_units, OF a m r(1) y] unfolding r .
qed

text \<open>
  C33: a maximum given in months is compared as minutes with the default duration of a profile. For a maximum of
  less than 1440 months, a profile whose default is at least a day cannot be used without a duration in the
  request, although the policy accepts the same duration when the request names it.
\<close>
theorem monthly_maximum_refuses_default:
  assumes "parseTTL maximum = Inr (n * 30 * day_ms)" "ms maximum = Inr (n * 60000)" "maximum \<noteq> []"
    and "n < 1440" "0 < days" "int days \<le> n * 30"
  shows "resolveEffectiveTtl ms None (Some days) (Some maximum) flow = Inl ProfileTtlTooLong \<and>
     ttl_errors (Some (Some maximum)) (request\<lparr>cq_ttl := Some (decimal days @ ''d'')\<rparr>) = Inr []"
proof -
  have "n * 60000 < int days * day_ms" using assms(4,5) by linarith
  then have "resolveEffectiveTtl ms None (Some days) (Some maximum) flow = Inl ProfileTtlTooLong"
    using assms(2,3,5) by (simp add: resolveEffectiveTtl_def)
  moreover have "int days * day_ms \<le> n * 30 * day_ms" using assms(6) by linarith
  then have "ttl_errors (Some (Some maximum)) (request\<lparr>cq_ttl := Some (decimal days @ ''d'')\<rparr>) = Inr []"
    using assms(1,3) by (simp add: ttl_errors_def parse_days)
  ultimately show ?thesis by blast
qed

theorem monthly_maximum_refuses_default_witness:
  "resolveEffectiveTtl ms_units None (Some 30) (Some ''12m'') ''90d'' = Inl ProfileTtlTooLong \<and>
   ttl_errors (Some (Some ''12m'')) (names_request\<lparr>cq_ttl := Some (decimal 30 @ ''d'')\<rparr>) = Inr []"
proof (rule monthly_maximum_refuses_default)
  show "parseTTL ''12m'' = Inr (12 * 30 * day_ms)" by code_simp
  show "ms_units ''12m'' = Inr (12 * 60000)" by code_simp
qed simp_all

section \<open>Renewal\<close>

text \<open>
  A certificate is renewed, if at all, at least a day and at most the configured number of days before it
  ends, and not before the next midnight; a configured number that the duration does not leave room for becomes
  a day less than the duration.
\<close>
theorem renewal_is_in_time:
  assumes "calculateFinalRenewBeforeDays ms tomorrow (Some c) ttl expiry = Inr (Some r)" "ac_renewBeforeDays c = Some p" "0 < p"
  shows "1 \<le> r \<and> r \<le> p \<and> tomorrow \<le> expiry - r * day_ms \<and>
     (\<exists>days. parseTtlToDays ms ttl = Inr days \<and> (if p < days then r = p else r = max 1 (days - 1)))"
  using assms
  by (auto simp: calculateFinalRenewBeforeDays_def calculateRenewalThreshold_def isValidRenewalTiming_def rbind_Inr_iff
      split: if_splits option.splits)

theorem renewal_is_in_time_witness:
  "calculateFinalRenewBeforeDays ms_units 0 (Some \<lparr>ac_autoRenew = True, ac_renewBeforeDays = Some 30\<rparr>) ''10d'' (10 * day_ms) = Inr (Some 9) \<and>
   1 \<le> (9::int) \<and> (9::int) \<le> 30"
proof -
  have e: "calculateFinalRenewBeforeDays ms_units 0 (Some \<lparr>ac_autoRenew = True, ac_renewBeforeDays = Some 30\<rparr>) ''10d'' (10 * day_ms) = Inr (Some 9)"
    by code_simp
  show ?thesis using renewal_is_in_time [OF e, of 30] e by simp
qed

end
