(* ===== verification/CertificatePolicyStore.thy ===== *)
theory CertificatePolicyStore
  imports CertificateLifetime
begin

text \<open>
  The stored policies of certificates: creating, changing, deleting and reading them
  (\<open>certificate-policy-service.ts\<close> with \<open>certificate-policy-dal.ts\<close>), and what holds of them in every state
  these operations reach.

  The decisions of the permission service are the parameter \<open>can\<close> (project, action, name of the policy),
  \<open>slugify\<close> is the library that turns a name into a slug, and the two random identifiers are values the caller
  supplies. Columns written as JSON are read back as what was written. The pair of name and project is unique
  in the table, and an update without a column is refused by the query builder.
\<close>

section \<open>Tables\<close>

datatype CertificatePolicyActions = PolicyRead | PolicyCreate | PolicyEdit | PolicyDelete

record policy_input =
  pi_name :: string
  pi_description :: "string option"
  pi_subject :: "CertSubjectAttributeType value_rule list option"
  pi_sans :: "CertSubjectAlternativeNameType value_rule list option"
  pi_keyUsages :: "CertKeyUsageType usage_rule option"
  pi_extendedKeyUsages :: "CertExtendedKeyUsageType usage_rule option"
  pi_algorithms :: "algorithm_rule option"
  pi_validity :: "string option option"
  pi_basicConstraints :: "ca_rule option"

text \<open>A change: a field that is not given is \<open>None\<close>, one that is cleared is \<open>Some None\<close>.\<close>

record policy_change =
  pc_name :: "string option"
  pc_description :: "string option option"
  pc_subject :: "CertSubjectAttributeType value_rule list option option"
  pc_sans :: "CertSubjectAlternativeNameType value_rule list option option"
  pc_keyUsages :: "CertKeyUsageType usage_rule option option"
  pc_extendedKeyUsages :: "CertExtendedKeyUsageType usage_rule option option"
  pc_algorithms :: "algorithm_rule option option"
  pc_validity :: "string option option option"
  pc_basicConstraints :: "ca_rule option option"

record profile_row =
  pr_id :: nat
  pr_projectId :: string
  pr_slug :: string
  pr_certificatePolicyId :: nat

text \<open>
  \<open>cd_certificates\<close> is the column \<open>certificateTemplateId\<close> of the certificates. It is not known to name a policy: it refers
  to the older table of certificate templates, whose rows have identifiers of their own.
\<close>

record cert_db =
  cd_policies :: "cert_policy list"
  cd_profiles :: "profile_row list"
  cd_certificates :: "nat option list"
  cd_next :: nat

datatype policy_error =
    DuplicateSubjectType CertSubjectAttributeType
  | DuplicateSanType CertSubjectAlternativeNameType
  | SubjectRuleEmpty CertSubjectAttributeType
  | SubjectRuleRepeats CertSubjectAttributeType string
  | SanRuleEmpty CertSubjectAlternativeNameType
  | SanRuleRepeats CertSubjectAlternativeNameType string
  | KeyUsagesEmpty | KeyUsagesRepeat string
  | ExtendedKeyUsagesEmpty | ExtendedKeyUsagesRepeat string
  | NameRequired | PolicyForbidden | PolicyNotFound | ActorRequired | PolicyInUse "string list"
  | DatabaseError

section \<open>Checks of a policy\<close>

text \<open>The loop of \<open>consolidateAttributeArray\<close>, with the map filled so far.\<close>

fun consolidate :: "('t \<Rightarrow> 'e) \<Rightarrow> ('t \<times> 't value_rule) list \<Rightarrow> 't value_rule list \<Rightarrow> 'e + 't value_rule list" where
  "consolidate e consolidated [] = Inr (map snd consolidated)"
| "consolidate e consolidated (attr # attributes) =
     (if map_of consolidated (ru_type attr) \<noteq> None then Inl (e (ru_type attr))
      else consolidate e (consolidated @ [(ru_type attr, attr)]) attributes)"

definition consolidateAttributeArray :: "('t \<Rightarrow> 'e) \<Rightarrow> 't value_rule list \<Rightarrow> 'e + 't value_rule list" where
  "consolidateAttributeArray e attributes = consolidate e [] attributes"

text \<open>The loop over the three lists, which every validator has.\<close>

definition check_lists :: "(string \<Rightarrow> 'e) \<Rightarrow> 'a list option \<Rightarrow> 'a list option \<Rightarrow> 'a list option \<Rightarrow> 'e + unit" where
  "check_lists repeats allowed required denied =
     rfor [(''allowed'', allowed), (''required'', required), (''denied'', denied)]
       (\<lambda>(name, values). rguard (distinct (given values)) (repeats name))"

definition check_rule :: "('t \<Rightarrow> 'e) \<Rightarrow> ('t \<Rightarrow> string \<Rightarrow> 'e) \<Rightarrow> 't value_rule \<Rightarrow> 'e + unit" where
  "check_rule missing repeats attr =
     rbind (rguard (ru_allowed attr \<noteq> None \<or> ru_required attr \<noteq> None \<or> ru_denied attr \<noteq> None) (missing (ru_type attr)))
       (\<lambda>_. check_lists (repeats (ru_type attr)) (ru_allowed attr) (ru_required attr) (ru_denied attr))"

definition validateSubjectAttributePolicy :: "CertSubjectAttributeType value_rule list \<Rightarrow> policy_error + unit" where
  "validateSubjectAttributePolicy subjectAttributes = rfor subjectAttributes (check_rule SubjectRuleEmpty SubjectRuleRepeats)"

definition validateSanPolicy :: "CertSubjectAlternativeNameType value_rule list \<Rightarrow> policy_error + unit" where
  "validateSanPolicy sans = rfor sans (check_rule SanRuleEmpty SanRuleRepeats)"

definition check_usages :: "'e \<Rightarrow> (string \<Rightarrow> 'e) \<Rightarrow> 'u usage_rule \<Rightarrow> 'e + unit" where
  "check_usages missing repeats usages =
     rbind (rguard (us_allowed usages \<noteq> None \<or> us_required usages \<noteq> None \<or> us_denied usages \<noteq> None) missing)
       (\<lambda>_. check_lists repeats (us_allowed usages) (us_required usages) (us_denied usages))"

definition validateKeyUsagePolicy :: "CertKeyUsageType usage_rule \<Rightarrow> policy_error + unit" where
  "validateKeyUsagePolicy keyUsages = check_usages KeyUsagesEmpty KeyUsagesRepeat keyUsages"

definition validateExtendedKeyUsagePolicy :: "CertExtendedKeyUsageType usage_rule \<Rightarrow> policy_error + unit" where
  "validateExtendedKeyUsagePolicy extendedKeyUsages = check_usages ExtendedKeyUsagesEmpty ExtendedKeyUsagesRepeat extendedKeyUsages"

definition when_given :: "'a option \<Rightarrow> ('a \<Rightarrow> 'e + 'b) \<Rightarrow> 'e + 'b option" where
  "when_given x f = (case x of None \<Rightarrow> Inr None | Some v \<Rightarrow> map_sum id Some (f v))"

text \<open>What creating and changing a policy have in common: the consolidated lists, once everything passed.\<close>

definition check_policy ::
  "CertSubjectAttributeType value_rule list option \<Rightarrow> CertSubjectAlternativeNameType value_rule list option \<Rightarrow>
   CertKeyUsageType usage_rule option \<Rightarrow> CertExtendedKeyUsageType usage_rule option \<Rightarrow>
   policy_error + (CertSubjectAttributeType value_rule list option \<times> CertSubjectAlternativeNameType value_rule list option)" where
  "check_policy subj sans keyUsages extendedKeyUsages =
     rbind (when_given subj (consolidateAttributeArray DuplicateSubjectType)) (\<lambda>subj'.
     rbind (when_given sans (consolidateAttributeArray DuplicateSanType)) (\<lambda>sans'.
     rbind (when_given subj' validateSubjectAttributePolicy) (\<lambda>_.
     rbind (when_given sans' validateSanPolicy) (\<lambda>_.
     rbind (when_given keyUsages validateKeyUsagePolicy) (\<lambda>_.
     rbind (when_given extendedKeyUsages validateExtendedKeyUsagePolicy) (\<lambda>_.
     Inr (subj', sans')))))))"

section \<open>Queries\<close>

definition findPolicyRow :: "nat \<Rightarrow> cert_db \<Rightarrow> cert_policy option" where
  "findPolicyRow i db = find (\<lambda>p. tp_id p = i) (cd_policies db)"

definition findByNameAndProjectId :: "string \<Rightarrow> string \<Rightarrow> cert_db \<Rightarrow> cert_policy option" where
  "findByNameAndProjectId name projectId db = find (\<lambda>p. tp_name p = name \<and> tp_projectId p = projectId) (cd_policies db)"

definition isPolicyInUse :: "nat \<Rightarrow> cert_db \<Rightarrow> bool" where
  "isPolicyInUse policyId db \<longleftrightarrow>
     length (filter (\<lambda>r. pr_certificatePolicyId r = policyId) (cd_profiles db)) > 0 \<or>
     length (filter (\<lambda>c. c = Some policyId) (cd_certificates db)) > 0"

definition getProfilesUsingPolicy :: "nat \<Rightarrow> cert_db \<Rightarrow> profile_row list" where
  "getProfilesUsingPolicy policyId db = filter (\<lambda>r. pr_certificatePolicyId r = policyId) (cd_profiles db)"

text \<open>
  What the service of profiles checks of the policy it is given, when a profile is made and when it is given another
  policy (\<open>certificate-profile-service.ts\<close>).
\<close>

datatype profile_error = ProfilePolicyNotFound | ProfilePolicyOfOtherProject

definition check_profile_policy :: "string \<Rightarrow> nat \<Rightarrow> cert_db \<Rightarrow> profile_error option" where
  "check_profile_policy projectId certificatePolicyId db =
     (case findPolicyRow certificatePolicyId db of
        None \<Rightarrow> Some ProfilePolicyNotFound
      | Some policy \<Rightarrow> if tp_projectId policy \<noteq> projectId then Some ProfilePolicyOfOtherProject else None)"

text \<open>Names of a project that match the search and the rules of the reader, latest first.\<close>

definition findPoliciesByProject ::
  "(string \<Rightarrow> string \<Rightarrow> bool) \<Rightarrow> (cert_policy \<Rightarrow> bool) \<Rightarrow> string \<Rightarrow> string option \<Rightarrow> cert_db \<Rightarrow> cert_policy list" where
  "findPoliciesByProject ilike visible projectId search db =
     filter visible
       (filter (\<lambda>p. \<not> truthy search \<or> ilike (the search) (tp_name p) \<or>
                    (case tp_description p of None \<Rightarrow> False | Some d \<Rightarrow> ilike (the search) d))
          (filter (\<lambda>p. tp_projectId p = projectId) (rev (cd_policies db))))"

section \<open>Operations\<close>

record slugs =
  sl_slugify :: "string \<Rightarrow> string"
  sl_nano8 :: string
  sl_nano12 :: string

definition generateTemplateSlug :: "slugs \<Rightarrow> string option \<Rightarrow> string" where
  "generateTemplateSlug sl baseName =
     (if truthy baseName then sl_slugify sl (the baseName) else sl_slugify sl (sl_nano12 sl))"

definition ensureUniqueSlug :: "slugs \<Rightarrow> string \<Rightarrow> string \<Rightarrow> nat option \<Rightarrow> cert_db \<Rightarrow> string" where
  "ensureUniqueSlug sl projectId desiredSlug policyId db =
     (let free = (case findByNameAndProjectId desiredSlug projectId db of None \<Rightarrow> True | Some t \<Rightarrow> policyId = Some (tp_id t));
          alternativeSlug = desiredSlug @ ''-'' @ sl_nano8 sl
      in if free then desiredSlug
         else if findByNameAndProjectId alternativeSlug projectId db = None then alternativeSlug
         else sl_slugify sl (sl_nano12 sl))"

type_synonym permission = "string \<Rightarrow> CertificatePolicyActions \<Rightarrow> string option \<Rightarrow> bool"

text \<open>The insert, which the unique pair of name and project may refuse.\<close>

definition insert_policy :: "string \<Rightarrow> string \<Rightarrow> policy_input \<Rightarrow> cert_db \<Rightarrow> (policy_error + cert_policy) \<times> cert_db" where
  "insert_policy name projectId input db =
     (let row = \<lparr>tp_id = cd_next db, tp_projectId = projectId, tp_name = name, tp_description = pi_description input,
            tp_subject = pi_subject input, tp_sans = pi_sans input, tp_keyUsages = pi_keyUsages input,
            tp_extendedKeyUsages = pi_extendedKeyUsages input, tp_algorithms = pi_algorithms input,
            tp_validity = pi_validity input, tp_basicConstraints = pi_basicConstraints input\<rparr>
      in if findByNameAndProjectId name projectId db \<noteq> None then (Inl DatabaseError, db)
         else (Inr row, db\<lparr>cd_policies := cd_policies db @ [row], cd_next := Suc (cd_next db)\<rparr>))"

definition createCertPolicy ::
  "permission \<Rightarrow> slugs \<Rightarrow> string \<Rightarrow> policy_input \<Rightarrow> cert_db \<Rightarrow> (policy_error + cert_policy) \<times> cert_db" where
  "createCertPolicy can sl projectId input db =
     (if \<not> can projectId PolicyCreate (Some (pi_name input)) then (Inl PolicyForbidden, db)
      else case check_policy (pi_subject input) (pi_sans input) (pi_keyUsages input) (pi_extendedKeyUsages input) of
        Inl e \<Rightarrow> (Inl e, db)
      | Inr (subj, sans) \<Rightarrow>
          if pi_name input = [] then (Inl NameRequired, db)
          else insert_policy (ensureUniqueSlug sl projectId (generateTemplateSlug sl (Some (pi_name input))) None db)
                 projectId (input\<lparr>pi_subject := subj, pi_sans := sans\<rparr>) db)"

definition given_or :: "'a option \<Rightarrow> 'a \<Rightarrow> 'a" where
  "given_or change old = (case change of None \<Rightarrow> old | Some v \<Rightarrow> v)"

definition nothing_given :: policy_change where
  "nothing_given = \<lparr>pc_name = None, pc_description = None, pc_subject = None, pc_sans = None, pc_keyUsages = None,
     pc_extendedKeyUsages = None, pc_algorithms = None, pc_validity = None, pc_basicConstraints = None\<rparr>"

definition changed_row :: "policy_change \<Rightarrow> cert_policy \<Rightarrow> cert_policy" where
  "changed_row change row = row\<lparr>tp_name := given_or (pc_name change) (tp_name row),
     tp_description := given_or (pc_description change) (tp_description row),
     tp_subject := given_or (pc_subject change) (tp_subject row),
     tp_sans := given_or (pc_sans change) (tp_sans row),
     tp_keyUsages := given_or (pc_keyUsages change) (tp_keyUsages row),
     tp_extendedKeyUsages := given_or (pc_extendedKeyUsages change) (tp_extendedKeyUsages row),
     tp_algorithms := given_or (pc_algorithms change) (tp_algorithms row),
     tp_validity := given_or (pc_validity change) (tp_validity row),
     tp_basicConstraints := given_or (pc_basicConstraints change) (tp_basicConstraints row)\<rparr>"

definition updateCertPolicyRow :: "nat \<Rightarrow> policy_change \<Rightarrow> cert_db \<Rightarrow> (policy_error + cert_policy option) \<times> cert_db" where
  "updateCertPolicyRow i change db =
     (if change = nothing_given then (Inl DatabaseError, db)
      else case findPolicyRow i db of
        None \<Rightarrow> (Inr None, db)
      | Some row \<Rightarrow>
          (let row' = changed_row change row in
           if list_ex (\<lambda>p. tp_id p \<noteq> i \<and> tp_name p = tp_name row' \<and> tp_projectId p = tp_projectId row') (cd_policies db)
           then (Inl DatabaseError, db)
           else (Inr (Some row'), db\<lparr>cd_policies := map (\<lambda>p. if tp_id p = i then row' else p) (cd_policies db)\<rparr>)))"

definition updateCertPolicy ::
  "permission \<Rightarrow> slugs \<Rightarrow> nat \<Rightarrow> policy_change \<Rightarrow> cert_db \<Rightarrow> (policy_error + cert_policy) \<times> cert_db" where
  "updateCertPolicy can sl policyId change db = (case findPolicyRow policyId db of
       None \<Rightarrow> (Inl PolicyNotFound, db)
     | Some existing \<Rightarrow>
         if \<not> can (tp_projectId existing) PolicyEdit (Some (tp_name existing)) then (Inl PolicyForbidden, db)
         else (case check_policy (Option.bind (pc_subject change) id) (Option.bind (pc_sans change) id)
                 (Option.bind (pc_keyUsages change) id) (Option.bind (pc_extendedKeyUsages change) id) of
           Inl e \<Rightarrow> (Inl e, db)
         | Inr (subj, sans) \<Rightarrow>
             (let consolidated = change\<lparr>pc_subject := map_option (\<lambda>_. subj) (pc_subject change),
                    pc_sans := map_option (\<lambda>_. sans) (pc_sans change)\<rparr>;
                  newSlug = generateTemplateSlug sl (pc_name change);
                  updateData = (if truthy (pc_name change) \<and> newSlug \<noteq> tp_name existing
                    then consolidated\<lparr>pc_name := Some (ensureUniqueSlug sl (tp_projectId existing) newSlug (Some policyId) db)\<rparr>
                    else consolidated)
              in case updateCertPolicyRow policyId updateData db of
                   (Inl e, db') \<Rightarrow> (Inl e, db')
                 | (Inr None, db') \<Rightarrow> (Inl PolicyNotFound, db')
                 | (Inr (Some row), db') \<Rightarrow> (Inr row, db'))))"

definition deleteCertPolicy :: "permission \<Rightarrow> nat \<Rightarrow> cert_db \<Rightarrow> (policy_error + cert_policy) \<times> cert_db" where
  "deleteCertPolicy can policyId db = (case findPolicyRow policyId db of
       None \<Rightarrow> (Inl PolicyNotFound, db)
     | Some t \<Rightarrow>
         if \<not> can (tp_projectId t) PolicyDelete (Some (tp_name t)) then (Inl PolicyForbidden, db)
         else if isPolicyInUse policyId db
         then (Inl (PolicyInUse (map (\<lambda>r. if pr_slug r \<noteq> [] then pr_slug r else decimal (pr_id r))
                 (getProfilesUsingPolicy policyId db))), db)
         else (Inr t, db\<lparr>cd_policies := filter (\<lambda>p. tp_id p \<noteq> policyId) (cd_policies db)\<rparr>))"

text \<open>Who reads: nobody (a call from another service), or an actor, perhaps within an application.\<close>

datatype policy_reader = Internal | NoActor | Actor | ActorInApplication

definition getCertPolicyById :: "permission \<Rightarrow> bool \<Rightarrow> policy_reader \<Rightarrow> nat \<Rightarrow> cert_db \<Rightarrow> policy_error + cert_policy" where
  "getCertPolicyById can canReadApplication reader policyId db = (case findPolicyRow policyId db of
       None \<Rightarrow> Inl PolicyNotFound
     | Some t \<Rightarrow> (case reader of
          Internal \<Rightarrow> Inr t
        | NoActor \<Rightarrow> Inl ActorRequired
        | ActorInApplication \<Rightarrow> if canReadApplication then Inr t else Inl PolicyForbidden
        | Actor \<Rightarrow> if can (tp_projectId t) PolicyRead (Some (tp_name t)) then Inr t else Inl PolicyForbidden))"

definition getCertPolicyBySlug :: "permission \<Rightarrow> string \<Rightarrow> string \<Rightarrow> cert_db \<Rightarrow> policy_error + cert_policy" where
  "getCertPolicyBySlug can projectId slug db = (case findByNameAndProjectId slug projectId db of
       None \<Rightarrow> Inl PolicyNotFound
     | Some t \<Rightarrow> if can projectId PolicyRead (Some (tp_name t)) then Inr t else Inl PolicyForbidden)"

definition listCertPolicies ::
  "permission \<Rightarrow> (string \<Rightarrow> string \<Rightarrow> bool) \<Rightarrow> (cert_policy \<Rightarrow> bool) \<Rightarrow> string \<Rightarrow> nat \<Rightarrow> nat \<Rightarrow> string option \<Rightarrow> cert_db \<Rightarrow>
     policy_error + (cert_policy list \<times> nat)" where
  "listCertPolicies can ilike visible projectId offset limit search db =
     (if \<not> can projectId PolicyRead None then Inl PolicyForbidden
      else let found = findPoliciesByProject ilike visible projectId search db
           in Inr (take limit (drop offset found), length found))"

definition validateCertificateRequest ::
  "int \<Rightarrow> nat \<Rightarrow> cert_request \<Rightarrow> cert_db \<Rightarrow> policy_error + (ttl_error + violation list)" where
  "validateCertificateRequest now policyId request db = (case findPolicyRow policyId db of
       None \<Rightarrow> Inl PolicyNotFound | Some policy \<Rightarrow> Inr (validateRequestAgainstPolicy now policy request False))"

section \<open>What holds of the stored policies\<close>

definition rule_ok :: "'t value_rule \<Rightarrow> bool" where
  "rule_ok r \<longleftrightarrow> (ru_allowed r \<noteq> None \<or> ru_required r \<noteq> None \<or> ru_denied r \<noteq> None) \<and>
     distinct (given (ru_allowed r)) \<and> distinct (given (ru_required r)) \<and> distinct (given (ru_denied r))"

definition rules_ok :: "'t value_rule list option \<Rightarrow> bool" where
  "rules_ok rs \<longleftrightarrow> distinct (map ru_type (given rs)) \<and> list_all rule_ok (given rs)"

definition usage_rule_ok :: "'u usage_rule option \<Rightarrow> bool" where
  "usage_rule_ok x = (case x of None \<Rightarrow> True | Some u \<Rightarrow>
     (us_allowed u \<noteq> None \<or> us_required u \<noteq> None \<or> us_denied u \<noteq> None) \<and>
     distinct (given (us_allowed u)) \<and> distinct (given (us_required u)) \<and> distinct (given (us_denied u)))"

definition policy_ok :: "cert_policy \<Rightarrow> bool" where
  "policy_ok p \<longleftrightarrow> rules_ok (tp_subject p) \<and> rules_ok (tp_sans p) \<and>
     usage_rule_ok (tp_keyUsages p) \<and> usage_rule_ok (tp_extendedKeyUsages p)"

abbreviation policy_key :: "cert_policy \<Rightarrow> string \<times> string" where
  "policy_key p \<equiv> (tp_projectId p, tp_name p)"

definition cert_inv :: "cert_db \<Rightarrow> bool" where
  "cert_inv db \<longleftrightarrow> list_all policy_ok (cd_policies db) \<and>
     distinct (map tp_id (cd_policies db)) \<and> list_all (\<lambda>p. tp_id p < cd_next db) (cd_policies db) \<and>
     distinct (map policy_key (cd_policies db)) \<and>
     list_all (\<lambda>r. (pr_certificatePolicyId r, pr_projectId r) \<in> (\<lambda>p. (tp_id p, tp_projectId p)) ` set (cd_policies db))
       (cd_profiles db)"

lemma consolidate_iff:
  "consolidate e (map (\<lambda>a. (ru_type a, a)) xs) ys = Inr zs \<longleftrightarrow>
     zs = xs @ ys \<and> distinct (map ru_type ys) \<and> ru_type ` set xs \<inter> ru_type ` set ys = {}"
proof (induction ys arbitrary: xs)
  case Nil
  then show ?case by (auto simp: o_def)
next
  case (Cons y ys)
  have m: "map_of (map (\<lambda>a. (ru_type a, a)) xs) (ru_type y) = None \<longleftrightarrow> ru_type y \<notin> ru_type ` set xs"
    by (auto simp: map_of_eq_None_iff image_iff)
  show ?case
    using Cons.IH [of "xs @ [y]"] by (cases "ru_type y \<in> ru_type ` set xs") (auto simp: m)
qed

lemma consolidate_array_iff:
  "consolidateAttributeArray e ys = Inr zs \<longleftrightarrow> zs = ys \<and> distinct (map ru_type ys)"
  using consolidate_iff [of e "[]" ys zs] by (simp add: consolidateAttributeArray_def)

lemma check_lists_iff: "check_lists e a r d = Inr u \<longleftrightarrow> distinct (given a) \<and> distinct (given r) \<and> distinct (given d)"
  by (auto simp: check_lists_def rbind_Inr_iff)

lemma check_rules_iff: "rfor rs (check_rule e1 e2) = Inr u \<longleftrightarrow> list_all rule_ok rs"
  by (auto simp: rfor_Inr_iff check_rule_def rbind_Inr_iff check_lists_iff rule_ok_def list_all_iff)

lemma when_given_Inr: "when_given x f = Inr y \<longleftrightarrow> (case x of None \<Rightarrow> y = None | Some v \<Rightarrow> \<exists>w. f v = Inr w \<and> y = Some w)"
  by (cases x; cases "f (the x)") (auto simp: when_given_def)

lemma check_policy_iff:
  "check_policy subj sans ku eku = Inr (subj', sans') \<longleftrightarrow>
     subj' = subj \<and> sans' = sans \<and> rules_ok subj \<and> rules_ok sans \<and> usage_rule_ok ku \<and> usage_rule_ok eku"
  by (cases subj; cases sans; cases ku; cases eku)
    (auto simp: check_policy_def rbind_Inr_iff when_given_Inr consolidate_array_iff rules_ok_def usage_rule_ok_def
      validateSubjectAttributePolicy_def validateSanPolicy_def validateKeyUsagePolicy_def
      validateExtendedKeyUsagePolicy_def check_usages_def check_rules_iff check_lists_iff)

section \<open>Effect of the operations\<close>

lemma find_row: "findPolicyRow i db = Some p \<Longrightarrow> p \<in> set (cd_policies db) \<and> tp_id p = i"
  by (auto simp: findPolicyRow_def find_Some_iff)

lemma find_name_None:
  "findByNameAndProjectId name projectId db = None \<longleftrightarrow> (projectId, name) \<notin> policy_key ` set (cd_policies db)"
  by (auto simp: findByNameAndProjectId_def find_None_iff image_iff)

text \<open>Either nothing changes and there is an error, or one row that passed all checks is appended.\<close>

lemma createCertPolicy_effect:
  assumes "createCertPolicy can sl projectId input db = (res, db')"
  obtains "isl res" "db' = db"
  | row where "res = Inr row" "db' = db\<lparr>cd_policies := cd_policies db @ [row], cd_next := Suc (cd_next db)\<rparr>"
    "policy_ok row" "(projectId, tp_name row) \<notin> policy_key ` set (cd_policies db)" "can projectId PolicyCreate (Some (pi_name input))"
    "row = \<lparr>tp_id = cd_next db, tp_projectId = projectId,
       tp_name = ensureUniqueSlug sl projectId (generateTemplateSlug sl (Some (pi_name input))) None db,
       tp_description = pi_description input, tp_subject = pi_subject input, tp_sans = pi_sans input,
       tp_keyUsages = pi_keyUsages input, tp_extendedKeyUsages = pi_extendedKeyUsages input,
       tp_algorithms = pi_algorithms input, tp_validity = pi_validity input, tp_basicConstraints = pi_basicConstraints input\<rparr>"
proof (cases "can projectId PolicyCreate (Some (pi_name input))")
  case False
  with assms have "isl res \<and> db' = db" by (auto simp: createCertPolicy_def)
  with that(1) show ?thesis by blast
next
  case can: True
  let ?check = "check_policy (pi_subject input) (pi_sans input) (pi_keyUsages input) (pi_extendedKeyUsages input)"
  let ?name = "ensureUniqueSlug sl projectId (generateTemplateSlug sl (Some (pi_name input))) None db"
  show ?thesis
  proof (cases "isl ?check \<or> pi_name input = [] \<or> findByNameAndProjectId ?name projectId db \<noteq> None")
    case True
    with assms can have "isl res \<and> db' = db"
      by (cases ?check) (auto simp: createCertPolicy_def insert_policy_def Let_def split: if_splits)
    with that(1) show ?thesis by blast
  next
    case False
    then obtain subj sans where check: "?check = Inr (subj, sans)"
      by (cases ?check) auto
    then have lists: "subj = pi_subject input" "sans = pi_sans input"
      and ok: "rules_ok (pi_subject input)" "rules_ok (pi_sans input)"
        "usage_rule_ok (pi_keyUsages input)" "usage_rule_ok (pi_extendedKeyUsages input)"
      by (simp_all add: check_policy_iff)
    from False have free: "(projectId, ?name) \<notin> policy_key ` set (cd_policies db)"
      by (simp add: find_name_None [symmetric])
    show ?thesis
      by (rule that(2) [OF _ _ _ _ can refl])
        (use assms can check lists ok free False in
          \<open>simp_all add: createCertPolicy_def insert_policy_def Let_def policy_ok_def\<close>)
  qed
qed

lemma updateCertPolicyRow_effect:
  assumes "updateCertPolicyRow i change db = (res, db')"
  obtains "isl res \<or> res = Inr None" "db' = db"
  | row where "findPolicyRow i db = Some row" "res = Inr (Some (changed_row change row))"
    "db' = db\<lparr>cd_policies := map (\<lambda>p. if tp_id p = i then changed_row change row else p) (cd_policies db)\<rparr>"
    "\<not> list_ex (\<lambda>p. tp_id p \<noteq> i \<and> tp_name p = tp_name (changed_row change row) \<and> tp_projectId p = tp_projectId (changed_row change row)) (cd_policies db)"
proof (cases "change = nothing_given \<or> findPolicyRow i db = None")
  case True
  with assms that(1) show ?thesis by (auto simp: updateCertPolicyRow_def split: if_splits)
next
  case False
  then obtain row where row: "findPolicyRow i db = Some row" by auto
  show ?thesis
  proof (cases "list_ex (\<lambda>p. tp_id p \<noteq> i \<and> tp_name p = tp_name (changed_row change row) \<and>
      tp_projectId p = tp_projectId (changed_row change row)) (cd_policies db)")
    case True
    with assms False row have "isl res \<and> db' = db" by (auto simp: updateCertPolicyRow_def Let_def)
    with that(1) show ?thesis by blast
  next
    case other: False
    show ?thesis
      by (rule that(2) [OF row _ _ other]) (use assms False row other in \<open>simp_all add: updateCertPolicyRow_def Let_def\<close>)
  qed
qed

lemma changed_row_simps [simp]:
  "tp_id (changed_row c row) = tp_id row" "tp_projectId (changed_row c row) = tp_projectId row"
  by (simp_all add: changed_row_def)

lemma given_or_rules: "rules_ok (Option.bind c id) \<Longrightarrow> rules_ok old \<Longrightarrow> rules_ok (given_or c old)"
  by (cases c) (simp_all add: given_or_def)

lemma given_or_usages: "usage_rule_ok (Option.bind c id) \<Longrightarrow> usage_rule_ok old \<Longrightarrow> usage_rule_ok (given_or c old)"
  by (cases c) (simp_all add: given_or_def)

text \<open>The change that is written: the given one, with the name as a free slug unless it is the slug already.\<close>

definition written_change :: "slugs \<Rightarrow> nat \<Rightarrow> cert_policy \<Rightarrow> policy_change \<Rightarrow> cert_db \<Rightarrow> policy_change" where
  "written_change sl i row change db =
     (if truthy (pc_name change) \<and> generateTemplateSlug sl (pc_name change) \<noteq> tp_name row
      then change\<lparr>pc_name := Some (ensureUniqueSlug sl (tp_projectId row) (generateTemplateSlug sl (pc_name change)) (Some i) db)\<rparr>
      else change)"

lemma bind_given: "map_option (\<lambda>_. Option.bind x id) x = x"
  by (cases x) simp_all

lemma updateCertPolicy_effect:
  assumes "updateCertPolicy can sl i change db = (res, db')"
  obtains "isl res" "db' = db"
  | row where "findPolicyRow i db = Some row" "can (tp_projectId row) PolicyEdit (Some (tp_name row))"
    "policy_ok row \<Longrightarrow> policy_ok (changed_row (written_change sl i row change db) row)"
    "updateCertPolicyRow i (written_change sl i row change db) db = (Inr (Some (changed_row (written_change sl i row change db) row)), db')"
    "res = Inr (changed_row (written_change sl i row change db) row)"
proof (cases "isl res")
  case True
  have "db' = db"
    using assms True
    by (auto simp: updateCertPolicy_def Let_def split: option.splits if_splits sum.splits prod.splits elim!: updateCertPolicyRow_effect)
  with True show ?thesis by (rule that(1))
next
  case False
  obtain row where row: "findPolicyRow i db = Some row"
    using assms False by (auto simp: updateCertPolicy_def split: option.splits)
  have can: "can (tp_projectId row) PolicyEdit (Some (tp_name row))"
    using assms False row by (auto simp: updateCertPolicy_def split: if_splits)
  obtain subj sans where ok: "check_policy (Option.bind (pc_subject change) id) (Option.bind (pc_sans change) id)
      (Option.bind (pc_keyUsages change) id) (Option.bind (pc_extendedKeyUsages change) id) = Inr (subj, sans)"
    using assms False row can by (auto simp: updateCertPolicy_def split: sum.splits)
  note lists = ok [unfolded check_policy_iff]
  obtain x where x: "updateCertPolicyRow i (written_change sl i row change db) db = (Inr (Some x), db')" "res = Inr x"
    using assms False
    by (auto simp: updateCertPolicy_def row can ok conjunct1 [OF lists] conjunct1 [OF conjunct2 [OF lists]] bind_given
        written_change_def Let_def cong: if_cong split: sum.splits option.splits prod.splits)
  then have "x = changed_row (written_change sl i row change db) row"
    using row by (auto elim!: updateCertPolicyRow_effect)
  moreover have "policy_ok (changed_row (written_change sl i row change db) row)" if "policy_ok row"
    using that lists
    by (simp add: policy_ok_def changed_row_def written_change_def given_or_rules given_or_usages)
  ultimately show ?thesis using row can x by (intro that(2)) simp_all
qed

lemma deleteCertPolicy_effect:
  assumes "deleteCertPolicy can i db = (res, db')"
  obtains "isl res" "db' = db"
  | row where "findPolicyRow i db = Some row" "res = Inr row" "\<not> isPolicyInUse i db" "can (tp_projectId row) PolicyDelete (Some (tp_name row))"
    "db' = db\<lparr>cd_policies := filter (\<lambda>p. tp_id p \<noteq> i) (cd_policies db)\<rparr>"
  using assms by (auto simp: deleteCertPolicy_def split: if_splits option.splits)

section \<open>Reachable states\<close>

text \<open>
  What is done to these tables: the operations of this service, each under any permissions and slugs; profiles that
  are made or given another policy, after the check of their service (its other checks only refuse more), and profiles
  that are deleted; and certificates, of which nothing is assumed.
\<close>

inductive cert_reach :: "cert_db \<Rightarrow> bool" where
  start: "cert_reach \<lparr>cd_policies = [], cd_profiles = [], cd_certificates = [], cd_next = 0\<rparr>"
| created: "cert_reach db \<Longrightarrow> cert_reach (snd (createCertPolicy can sl projectId input db))"
| changed: "cert_reach db \<Longrightarrow> cert_reach (snd (updateCertPolicy can sl i change db))"
| deleted: "cert_reach db \<Longrightarrow> cert_reach (snd (deleteCertPolicy can i db))"
| profile_made: "cert_reach db \<Longrightarrow> check_profile_policy (pr_projectId r) (pr_certificatePolicyId r) db = None \<Longrightarrow>
     cert_reach (db\<lparr>cd_profiles := r # cd_profiles db\<rparr>)"
| profile_changed: "cert_reach db \<Longrightarrow> check_profile_policy (pr_projectId r) i db = None \<Longrightarrow>
     cert_reach (db\<lparr>cd_profiles := map (\<lambda>x. if x = r then x\<lparr>pr_certificatePolicyId := i\<rparr> else x) (cd_profiles db)\<rparr>)"
| profile_gone: "cert_reach db \<Longrightarrow> cert_reach (db\<lparr>cd_profiles := filter keep (cd_profiles db)\<rparr>)"
| certificates_change: "cert_reach db \<Longrightarrow> cert_reach (db\<lparr>cd_certificates := cs\<rparr>)"

lemma inv_created: "cert_inv db \<Longrightarrow> cert_inv (snd (createCertPolicy can sl projectId input db))"
proof -
  assume inv: "cert_inv db"
  obtain res db' where c: "createCertPolicy can sl projectId input db = (res, db')" by (cases "createCertPolicy can sl projectId input db")
  from c show ?thesis
  proof (cases rule: createCertPolicy_effect)
    case 1
    with inv c show ?thesis by simp
  next
    case (2 row)
    from 2(6) have row: "tp_id row = cd_next db" "tp_projectId row = projectId" by simp_all
    have "cert_inv db'"
      unfolding 2(2) using inv 2(3,4) row by (auto simp: cert_inv_def list_all_iff)
    with c show ?thesis by simp
  qed
qed

lemma inv_replaced:
  assumes inv: "cert_inv db" and ids: "map (\<lambda>p. (tp_id p, tp_projectId p)) ps = map (\<lambda>p. (tp_id p, tp_projectId p)) (cd_policies db)"
    and ok: "list_all policy_ok ps" and keys: "distinct (map policy_key ps)"
  shows "cert_inv (db\<lparr>cd_policies := ps\<rparr>)"
proof -
  have ids': "map tp_id ps = map tp_id (cd_policies db)" using arg_cong [OF ids, of "map fst"] by (simp add: o_def)
  have set: "tp_id ` set ps = tp_id ` set (cd_policies db)" using arg_cong [OF ids', of set] by simp
  have pairs: "(\<lambda>p. (tp_id p, tp_projectId p)) ` set ps = (\<lambda>p. (tp_id p, tp_projectId p)) ` set (cd_policies db)"
    using arg_cong [OF ids, of set] by simp
  have all: "list_all (\<lambda>p. tp_id p < n) qs \<longleftrightarrow> (\<forall>x \<in> tp_id ` set qs. x < n)" for n qs
    by (simp add: list_all_iff)
  have "list_all (\<lambda>p. tp_id p < cd_next db) (cd_policies db)"
    using inv by (simp add: cert_inv_def)
  then have below: "list_all (\<lambda>p. tp_id p < cd_next db) ps"
    by (simp only: all set)
  show ?thesis
    using inv ok keys below by (simp add: cert_inv_def ids' pairs)
qed

lemma inv_changed: "cert_inv db \<Longrightarrow> cert_inv (snd (updateCertPolicy can sl i change db))"
proof -
  assume inv: "cert_inv db"
  obtain res db' where c: "updateCertPolicy can sl i change db = (res, db')" by (cases "updateCertPolicy can sl i change db")
  from c show ?thesis
  proof (cases rule: updateCertPolicy_effect)
    case 1
    with inv c show ?thesis by simp
  next
    case (2 row)
    let ?row = "changed_row (written_change sl i row change db) row"
    let ?f = "\<lambda>p. if tp_id p = i then ?row else p"
    have row: "row \<in> set (cd_policies db)" "tp_id row = i" using find_row [OF 2(1)] by simp_all
    have ok: "policy_ok ?row" using 2(3) inv row(1) by (simp add: cert_inv_def list_all_iff)
    have written: "db' = db\<lparr>cd_policies := map ?f (cd_policies db)\<rparr> \<and>
        \<not> list_ex (\<lambda>p. tp_id p \<noteq> i \<and> tp_name p = tp_name ?row \<and> tp_projectId p = tp_projectId ?row) (cd_policies db)"
      using 2(4)
    proof (cases rule: updateCertPolicyRow_effect)
      case 1
      then show ?thesis by simp
    next
      case (2 r)
      with \<open>findPolicyRow i db = Some row\<close> show ?thesis by simp
    qed
    note db' = conjunct1 [OF written] and free = conjunct2 [OF written]
    have "tp_projectId p = tp_projectId row" if "p \<in> set (cd_policies db)" "tp_id p = i" for p
      using inv row that by (auto simp: cert_inv_def distinct_map dest: inj_onD)
    then have ids: "map (\<lambda>p. (tp_id p, tp_projectId p)) (map ?f (cd_policies db)) = map (\<lambda>p. (tp_id p, tp_projectId p)) (cd_policies db)"
      using row(2) by simp
    have keys: "distinct (map policy_key (map ?f (cd_policies db)))"
    proof -
      have "inj_on (\<lambda>p. policy_key (?f p)) (set (cd_policies db))"
        using inv free row unfolding cert_inv_def distinct_map inj_on_def list_ex_iff by (auto split: if_splits)
      then show ?thesis using inv by (simp add: cert_inv_def distinct_map o_def)
    qed
    moreover have "list_all policy_ok (map ?f (cd_policies db))"
      using inv ok by (auto simp: cert_inv_def list_all_iff)
    ultimately have "cert_inv db'"
      unfolding db' by (intro inv_replaced inv ids)
    with c show ?thesis by simp
  qed
qed

lemma inv_deleted: "cert_inv db \<Longrightarrow> cert_inv (snd (deleteCertPolicy can i db))"
proof -
  assume inv: "cert_inv db"
  obtain res db' where c: "deleteCertPolicy can i db = (res, db')" by (cases "deleteCertPolicy can i db")
  from c show ?thesis
  proof (cases rule: deleteCertPolicy_effect)
    case 1
    with inv c show ?thesis by simp
  next
    case (2 row)
    have unused: "\<forall>r \<in> set (cd_profiles db). pr_certificatePolicyId r \<noteq> i"
      using 2(3) by (auto simp: isPolicyInUse_def filter_empty_conv)
    have ids: "(\<lambda>p. (tp_id p, tp_projectId p)) ` {p \<in> set (cd_policies db). tp_id p \<noteq> i} =
        (\<lambda>p. (tp_id p, tp_projectId p)) ` set (cd_policies db) - {i} \<times> UNIV" by auto
    have "cert_inv db'"
      unfolding 2(5) cert_inv_def
      using inv unused by (auto simp: cert_inv_def list_all_iff distinct_map_filter ids)
    with c show ?thesis by simp
  qed
qed

lemma checked_profile:
  "check_profile_policy projectId i db = None \<Longrightarrow> (i, projectId) \<in> (\<lambda>p. (tp_id p, tp_projectId p)) ` set (cd_policies db)"
  by (auto simp: check_profile_policy_def dest: find_row split: option.splits if_splits intro!: rev_image_eqI)

lemma reach_inv: "cert_reach db \<Longrightarrow> cert_inv db"
proof (induction rule: cert_reach.induct)
  case start
  then show ?case by (simp add: cert_inv_def)
next
  case (profile_made db r)
  then show ?case using checked_profile by (auto simp: cert_inv_def)
next
  case (profile_changed db r i)
  then show ?case using checked_profile [OF profile_changed(2)] by (auto simp: cert_inv_def list_all_iff)
next
  case (profile_gone db keep)
  then show ?case by (simp add: cert_inv_def list_all_iff)
next
  case (certificates_change db cs)
  then show ?case by (simp add: cert_inv_def)
qed (simp_all add: inv_created inv_changed inv_deleted)

text \<open>
  C7: in every state the service reaches, each stored policy has at most one rule for an attribute or kind of
  name, no rule without a list and no list with a value twice; two policies of a project never have the same
  name; and every profile names a policy that is there, of its own project.
\<close>
theorem stored_policies_invariant:
  assumes "cert_reach db"
  shows "list_all policy_ok (cd_policies db) \<and> distinct (map policy_key (cd_policies db)) \<and>
     list_all (\<lambda>r. check_profile_policy (pr_projectId r) (pr_certificatePolicyId r) db = None) (cd_profiles db)"
proof -
  note inv = reach_inv [OF assms]
  have "check_profile_policy (tp_projectId p) (tp_id p) db = None" if p: "p \<in> set (cd_policies db)" for p
  proof -
    have "findPolicyRow (tp_id p) db \<noteq> None" using p by (auto simp: findPolicyRow_def find_None_iff)
    then obtain q where q: "findPolicyRow (tp_id p) db = Some q" by blast
    then have "q = p" using find_row [OF q] p inv by (auto simp: cert_inv_def distinct_map dest: inj_onD)
    then show ?thesis using q by (simp add: check_profile_policy_def)
  qed
  then show ?thesis using inv by (auto simp: cert_inv_def list_all_iff)
qed

definition web_input :: policy_input where
  "web_input = \<lparr>pi_name = ''Web'', pi_description = None, pi_subject = None, pi_sans = tp_sans names_policy,
     pi_keyUsages = None, pi_extendedKeyUsages = None, pi_algorithms = None, pi_validity = Some (Some ''365d''),
     pi_basicConstraints = None\<rparr>"

definition ascii_slugs :: slugs where
  "ascii_slugs = \<lparr>sl_slugify = to_lower, sl_nano8 = ''aaaaaaaa'', sl_nano12 = ''bbbbbbbbbbbb''\<rparr>"

abbreviation empty_store :: cert_db where
  "empty_store \<equiv> \<lparr>cd_policies = [], cd_profiles = [], cd_certificates = [], cd_next = 0\<rparr>"

definition web_row :: cert_policy where
  "web_row = \<lparr>tp_id = 0, tp_projectId = ''p'', tp_name = ''web'', tp_description = None, tp_subject = None,
     tp_sans = tp_sans names_policy, tp_keyUsages = None, tp_extendedKeyUsages = None, tp_algorithms = None,
     tp_validity = Some (Some ''365d''), tp_basicConstraints = None\<rparr>"

lemma web_created:
  "createCertPolicy (\<lambda>_ _ _. True) ascii_slugs ''p'' web_input empty_store =
     (Inr web_row, \<lparr>cd_policies = [web_row], cd_profiles = [], cd_certificates = [], cd_next = 1\<rparr>)"
  by code_simp

lemma web_reach: "cert_reach \<lparr>cd_policies = [web_row], cd_profiles = [], cd_certificates = [], cd_next = 1\<rparr>"
  using cert_reach.created [OF cert_reach.start, of "\<lambda>_ _ _. True" ascii_slugs "''p''" web_input] by (simp only: web_created snd_conv)

definition web_profile :: profile_row where
  "web_profile = \<lparr>pr_id = 0, pr_projectId = ''p'', pr_slug = ''servers'', pr_certificatePolicyId = 0\<rparr>"

lemma web_profile_reach:
  "cert_reach \<lparr>cd_policies = [web_row], cd_profiles = [web_profile], cd_certificates = [], cd_next = 1\<rparr>"
proof -
  have "check_profile_policy (pr_projectId web_profile) (pr_certificatePolicyId web_profile)
      \<lparr>cd_policies = [web_row], cd_profiles = [], cd_certificates = [], cd_next = 1\<rparr> = None" by code_simp
  then show ?thesis using cert_reach.profile_made [OF web_reach] by simp
qed

text \<open>The policy of the profile cannot be deleted, and the profile keeps it.\<close>

theorem stored_policies_invariant_witness:
  "isl (fst (deleteCertPolicy (\<lambda>_ _ _. True) 0 \<lparr>cd_policies = [web_row], cd_profiles = [web_profile], cd_certificates = [], cd_next = 1\<rparr>)) \<and>
   check_profile_policy (pr_projectId web_profile) (pr_certificatePolicyId web_profile)
     (snd (deleteCertPolicy (\<lambda>_ _ _. True) 0 \<lparr>cd_policies = [web_row], cd_profiles = [web_profile], cd_certificates = [], cd_next = 1\<rparr>)) = None"
proof
  let ?db = "\<lparr>cd_policies = [web_row], cd_profiles = [web_profile], cd_certificates = [], cd_next = 1\<rparr>"
  show "isl (fst (deleteCertPolicy (\<lambda>_ _ _. True) 0 ?db))" by code_simp
  have "web_profile \<in> set (cd_profiles (snd (deleteCertPolicy (\<lambda>_ _ _. True) 0 ?db)))" by code_simp
  then show "check_profile_policy (pr_projectId web_profile) (pr_certificatePolicyId web_profile) (snd (deleteCertPolicy (\<lambda>_ _ _. True) 0 ?db)) = None"
    using stored_policies_invariant [OF cert_reach.deleted [OF web_profile_reach]] unfolding list_all_iff by blast
qed

section \<open>Created, read back and renamed\<close>

lemma find_distinct:
  "distinct (map f xs) \<Longrightarrow> x \<in> set xs \<Longrightarrow> find (\<lambda>y. f y = f x) xs = Some x"
  by (induction xs) (auto simp: image_iff)

lemma find_appended: "find P (xs @ [x]) = (case find P xs of None \<Rightarrow> if P x then Some x else None | Some y \<Rightarrow> Some y)"
  by (induction xs) auto

text \<open>
  C18: a policy that is created has exactly the rules it was given, is found under its identifier and under the
  name it got, and judges requests from then on; the policies that were there stay as they were.
\<close>
theorem created_policy_governs:
  assumes "cert_reach db" and "createCertPolicy can sl projectId input db = (Inr p, db')"
  shows "tp_subject p = pi_subject input \<and> tp_sans p = pi_sans input \<and> tp_keyUsages p = pi_keyUsages input \<and>
     tp_extendedKeyUsages p = pi_extendedKeyUsages input \<and> tp_algorithms p = pi_algorithms input \<and>
     tp_validity p = pi_validity input \<and> tp_basicConstraints p = pi_basicConstraints input \<and>
     validateCertificateRequest now (tp_id p) request db' = Inr (validateRequestAgainstPolicy now p request False) \<and>
     getCertPolicyBySlug can projectId (tp_name p) db' =
       (if can projectId PolicyRead (Some (tp_name p)) then Inr p else Inl PolicyForbidden) \<and>
     cd_policies db' = cd_policies db @ [p]"
  using assms(2)
proof (cases rule: createCertPolicy_effect)
  case 1
  then show ?thesis by simp
next
  case (2 row)
  have inv: "cert_inv db" by (rule reach_inv [OF assms(1)])
  have p: "p = row" using 2(1) by simp
  have fields: "tp_id row = cd_next db" "tp_projectId row = projectId"
    "tp_subject row = pi_subject input" "tp_sans row = pi_sans input" "tp_keyUsages row = pi_keyUsages input"
    "tp_extendedKeyUsages row = pi_extendedKeyUsages input" "tp_algorithms row = pi_algorithms input"
    "tp_validity row = pi_validity input" "tp_basicConstraints row = pi_basicConstraints input"
    using 2(6) by simp_all
  have "find (\<lambda>q. tp_id q = cd_next db) (cd_policies db) = None"
    using inv by (auto simp: cert_inv_def list_all_iff find_None_iff)
  then have "findPolicyRow (tp_id row) db' = Some row"
    by (simp add: findPolicyRow_def 2(2) fields(1) find_appended)
  moreover have "findByNameAndProjectId (tp_name row) projectId db' = Some row"
    using 2(4) fields(2) by (simp add: 2(2) findByNameAndProjectId_def find_appended find_name_None [symmetric])
  ultimately show ?thesis
    by (simp add: p fields(3-) 2(2) validateCertificateRequest_def getCertPolicyBySlug_def)
qed

theorem created_policy_governs_witness:
  "validateCertificateRequest 0 0 names_request \<lparr>cd_policies = [web_row], cd_profiles = [], cd_certificates = [], cd_next = 1\<rparr> =
     Inr (validateRequestAgainstPolicy 0 web_row names_request False) \<and> tp_sans web_row = pi_sans web_input"
proof -
  have "tp_id web_row = 0" by (simp add: web_row_def)
  then show ?thesis using created_policy_governs [OF cert_reach.start web_created, of 0 names_request] by simp
qed

lemma renamed_key_gone:
  assumes inv: "cert_inv db" and row: "findPolicyRow i db = Some row" and name: "name \<noteq> tp_name row"
  shows "findByNameAndProjectId (tp_name row) (tp_projectId row)
     (db\<lparr>cd_policies := map (\<lambda>p. if tp_id p = i then row\<lparr>tp_name := name\<rparr> else p) (cd_policies db)\<rparr>) = None"
proof -
  let ?db = "db\<lparr>cd_policies := map (\<lambda>p. if tp_id p = i then row\<lparr>tp_name := name\<rparr> else p) (cd_policies db)\<rparr>"
  have inj: "inj_on policy_key (set (cd_policies db))"
    using inv by (simp only: cert_inv_def distinct_map)
  have "p = row" if "p \<in> set (cd_policies db)" "policy_key p = policy_key row" for p
    using inj_onD [OF inj that(2) that(1)] find_row [OF row] by blast
  note same = this
  have ps: "cd_policies ?db = map (\<lambda>p. if tp_id p = i then row\<lparr>tp_name := name\<rparr> else p) (cd_policies db)" by simp
  show ?thesis
    unfolding find_name_None
  proof
    assume "(tp_projectId row, tp_name row) \<in> policy_key ` set (cd_policies ?db)"
    then have "(tp_projectId row, tp_name row) \<in>
        (\<lambda>p. policy_key (if tp_id p = i then row\<lparr>tp_name := name\<rparr> else p)) ` set (cd_policies db)"
      unfolding ps set_map image_image .
    then obtain p where p: "(tp_projectId row, tp_name row) = policy_key (if tp_id p = i then row\<lparr>tp_name := name\<rparr> else p)"
      "p \<in> set (cd_policies db)"
      by (rule imageE)
    show False
    proof (cases "tp_id p = i")
      case True
      with p(1) name show False by simp
    next
      case False
      with p(1) have "policy_key p = policy_key row" by simp
      with same [OF p(2)] False find_row [OF row] show False by blast
    qed
  qed
qed

text \<open>
  C32: renaming a policy to a text whose slug is its present name stores the text itself, so that the policy has
  a name that is not a slug, and whoever asks for it by its slug does not find it any more.
\<close>
theorem renaming_to_own_slug_loses_it:
  assumes "cert_reach db" and row: "findPolicyRow i db = Some row" and can: "can (tp_projectId row) PolicyEdit (Some (tp_name row))"
    and name: "name \<noteq> []" "sl_slugify sl name = tp_name row" "name \<noteq> tp_name row"
    and free: "findByNameAndProjectId name (tp_projectId row) db = None"
  shows "\<exists>db'. updateCertPolicy can sl i (nothing_given\<lparr>pc_name := Some name\<rparr>) db = (Inr (row\<lparr>tp_name := name\<rparr>), db') \<and>
     getCertPolicyBySlug can (tp_projectId row) (sl_slugify sl name) db' = Inl PolicyNotFound"
proof -
  have inv: "cert_inv db" by (rule reach_inv [OF assms(1)])
  let ?c = "nothing_given\<lparr>pc_name := Some name\<rparr>"
  let ?db = "db\<lparr>cd_policies := map (\<lambda>p. if tp_id p = i then row\<lparr>tp_name := name\<rparr> else p) (cd_policies db)\<rparr>"
  have changed: "changed_row ?c row = row\<lparr>tp_name := name\<rparr>"
    by (simp add: changed_row_def nothing_given_def given_or_def)
  have check: "check_policy None None None None = Inr (None, None)"
    by (simp add: check_policy_iff rules_ok_def usage_rule_ok_def)
  have "\<not> list_ex (\<lambda>p. tp_id p \<noteq> i \<and> tp_name p = name \<and> tp_projectId p = tp_projectId row) (cd_policies db)"
    using free by (auto simp: find_name_None list_ex_iff image_iff)
  then have up: "updateCertPolicyRow i ?c db = (Inr (Some (row\<lparr>tp_name := name\<rparr>)), ?db)"
    by (simp add: updateCertPolicyRow_def row changed Let_def) (simp add: nothing_given_def)
  have c: "pc_name ?c = Some name" "pc_subject ?c = None" "pc_sans ?c = None" "pc_keyUsages ?c = None"
      "pc_extendedKeyUsages ?c = None" "?c\<lparr>pc_subject := None, pc_sans := None\<rparr> = ?c"
    by (simp_all add: nothing_given_def)
  have slug: "generateTemplateSlug sl (Some name) = tp_name row"
    using name by (simp add: generateTemplateSlug_def)
  have "updateCertPolicy can sl i ?c db = (Inr (row\<lparr>tp_name := name\<rparr>), ?db)"
    unfolding updateCertPolicy_def row by (simp only: option.simps can c Option.bind.simps check option.map slug sum.simps
      prod.simps Let_def up simp_thms if_True if_False)
  moreover have "getCertPolicyBySlug can (tp_projectId row) (sl_slugify sl name) ?db = Inl PolicyNotFound"
    unfolding name(2) getCertPolicyBySlug_def renamed_key_gone [OF inv row name(3)] by simp
  ultimately show ?thesis by blast
qed

theorem renaming_to_own_slug_loses_it_witness:
  "\<exists>db'. updateCertPolicy (\<lambda>_ _ _. True) ascii_slugs 0 (nothing_given\<lparr>pc_name := Some ''Web''\<rparr>)
      \<lparr>cd_policies = [web_row], cd_profiles = [], cd_certificates = [], cd_next = 1\<rparr> = (Inr (web_row\<lparr>tp_name := ''Web''\<rparr>), db') \<and>
     getCertPolicyBySlug (\<lambda>_ _ _. True) ''p'' ''web'' db' = Inl PolicyNotFound"
proof -
  let ?db = "\<lparr>cd_policies = [web_row], cd_profiles = [], cd_certificates = [], cd_next = 1\<rparr>"
  have r: "findPolicyRow 0 ?db = Some web_row" "findByNameAndProjectId ''Web'' (tp_projectId web_row) ?db = None"
    "sl_slugify ascii_slugs ''Web'' = ''web''" "tp_name web_row = ''web''" "tp_projectId web_row = ''p''"
    by code_simp+
  show ?thesis
    using renaming_to_own_slug_loses_it [where sl = ascii_slugs and name = "''Web''" and can = "\<lambda>_ _ _. True", OF web_reach r(1)] r
    by simp
qed

end
