(* ===== verification/TokenClaims.thy ===== *)
theory TokenClaims
  imports Prelude
begin

text \<open>
  Access tokens of machine identities: the claims of a token, how long it may live, and which revocation
  records block it (\<open>services/identity-access-token/identity-access-token-fns.ts\<close>).

  The time inside a token is in seconds, the time of the server and of revocation records in milliseconds.
  \<open>ceiling\<close> is the configured \<open>MAX_MACHINE_IDENTITY_TOKEN_AGE\<close>, in seconds. An authentication method is the
  string that stands in the token. The details of an external login (\<open>identityAuth\<close>) are carried along unread.
\<close>

section \<open>Claims\<close>

record claims =
  jw_jti :: "string option"
  jw_iat :: "int option"
  jw_exp :: "int option"
  jw_identityId :: string
  jw_identityName :: "string option"
  jw_authMethod :: "string option"
  jw_orgId :: "string option"
  jw_rootOrgId :: "string option"
  jw_parentOrgId :: "string option"
  jw_numUsesLimit :: "int option"
  jw_ipRestrictionEnabled :: "bool option"
  jw_clientSecretId :: "string option"
  jw_identityAccessTokenId :: string
  jw_authTokenType :: string
  jw_accessTokenTTL :: "int option"
  jw_accessTokenMaxTTL :: "int option"
  jw_accessTokenPeriod :: "int option"
  jw_creationEpoch :: "int option"
  jw_identityAuth :: "string option"

text \<open>What a check or a renewal knows of a token, from its claims or from its row.\<close>

record renew_source =
  rs_authMethod :: string
  rs_accessTokenTTL :: int
  rs_accessTokenMaxTTL :: int
  rs_accessTokenPeriod :: int
  rs_creationEpoch :: int
  rs_identityName :: string
  rs_orgId :: string
  rs_rootOrgId :: string
  rs_parentOrgId :: string
  rs_clientSecretId :: string
  rs_numUsesLimit :: int
  rs_identityAuth :: "string option"

record sign_input =
  si_identityAccessTokenId :: string
  si_identityId :: string
  si_numUsesLimit :: int
  si_ipRestrictionEnabled :: bool
  si_ttlSeconds :: int
  si_source :: renew_source

datatype deny_reason = DenyToken | DenyIdentity | DenyClientSecret | DenyAuthMethod | DenyOrgMembership | DenyOrgMembershipInactive

datatype message_prefix = FailedToAuthorize | CannotRenew

datatype token_error =
    InvalidJwt
  | NotAnIdentityToken
  | InvalidClaims
  | UnknownLegacyToken
  | OrganizationMissing
  | MaxAgeExceeded
  | RevokedToken message_prefix string
  | UsageLimitReached
  | ExhaustedToken
  | MaxTtlReached
  | IpNotAllowed
  | IdentityMissing

definition AuthTokenType_IDENTITY_ACCESS_TOKEN :: string where
  "AuthTokenType_IDENTITY_ACCESS_TOKEN = ''identityAccessToken''"

text \<open>\<open>token.jti ?? token.identityAccessTokenId\<close>.\<close>

definition token_id :: "claims \<Rightarrow> string" where
  "token_id c = (case jw_jti c of Some j \<Rightarrow> j | None \<Rightarrow> jw_identityAccessTokenId c)"

definition given_text :: "string option \<Rightarrow> string" where
  "given_text s = (case s of Some t \<Rightarrow> t | None \<Rightarrow> '''')"

definition hasCoreTokenClaims :: "claims \<Rightarrow> bool" where
  "hasCoreTokenClaims c \<longleftrightarrow> jw_iat c \<noteq> None \<and> jw_identityId c \<noteq> [] \<and> jw_identityAccessTokenId c \<noteq> []"

definition assertMinimalRenewClaims :: "claims \<Rightarrow> token_error + claims" where
  "assertMinimalRenewClaims c = (if \<not> hasCoreTokenClaims c then Inl InvalidClaims else Inr c)"

definition hasFullRenewClaims :: "claims \<Rightarrow> bool" where
  "hasFullRenewClaims c \<longleftrightarrow>
     truthy (jw_jti c) \<and> truthy (jw_orgId c) \<and> truthy (jw_rootOrgId c) \<and> truthy (jw_parentOrgId c) \<and>
     truthy (jw_authMethod c) \<and> jw_accessTokenTTL c \<noteq> None \<and> jw_accessTokenMaxTTL c \<noteq> None \<and>
     jw_accessTokenPeriod c \<noteq> None \<and> jw_creationEpoch c \<noteq> None"

text \<open>The source of a token that carries everything itself; the three entry points build it in the same way.\<close>

definition claims_source :: "claims \<Rightarrow> renew_source" where
  "claims_source c = \<lparr>rs_authMethod = the (jw_authMethod c), rs_accessTokenTTL = the (jw_accessTokenTTL c),
     rs_accessTokenMaxTTL = the (jw_accessTokenMaxTTL c), rs_accessTokenPeriod = the (jw_accessTokenPeriod c),
     rs_creationEpoch = the (jw_creationEpoch c), rs_identityName = given_text (jw_identityName c),
     rs_orgId = the (jw_orgId c), rs_rootOrgId = the (jw_rootOrgId c), rs_parentOrgId = the (jw_parentOrgId c),
     rs_clientSecretId = given_text (jw_clientSecretId c),
     rs_numUsesLimit = (case jw_numUsesLimit c of Some n \<Rightarrow> n | None \<Rightarrow> 0), rs_identityAuth = jw_identityAuth c\<rparr>"

definition hasLegacyTokenWithoutExpExceededMaxAge :: "int option \<Rightarrow> int \<Rightarrow> int \<Rightarrow> int \<Rightarrow> bool" where
  "hasLegacyTokenWithoutExpExceededMaxAge e enforcedAt maxAgeSeconds nowMs \<longleftrightarrow>
     e = None \<and> nowMs > enforcedAt + maxAgeSeconds * 1000"

text \<open>
  Signing: the claims a new token has. The library adds the time of signing and the expiry from a clock reading of its
  own, which is later than the one the lifetime was computed with (for a stored token a row is inserted in between).
  Here both are the one reading \<open>nowSeconds\<close>: what is shown of expiries holds up to the time between the two.
\<close>

definition signIdentityAccessToken :: "int \<Rightarrow> sign_input \<Rightarrow> claims" where
  "signIdentityAccessToken nowSeconds input = (let src = si_source input in
     \<lparr>jw_jti = Some (si_identityAccessTokenId input), jw_iat = Some nowSeconds,
      jw_exp = Some (nowSeconds + si_ttlSeconds input), jw_identityId = si_identityId input,
      jw_identityName = Some (rs_identityName src), jw_authMethod = Some (rs_authMethod src),
      jw_orgId = Some (rs_orgId src), jw_rootOrgId = Some (rs_rootOrgId src), jw_parentOrgId = Some (rs_parentOrgId src),
      jw_numUsesLimit = (if si_numUsesLimit input > 0 then Some (si_numUsesLimit input) else None),
      jw_ipRestrictionEnabled = Some (si_ipRestrictionEnabled input), jw_clientSecretId = Some (rs_clientSecretId src),
      jw_identityAccessTokenId = si_identityAccessTokenId input, jw_authTokenType = AuthTokenType_IDENTITY_ACCESS_TOKEN,
      jw_accessTokenTTL = Some (rs_accessTokenTTL src), jw_accessTokenMaxTTL = Some (rs_accessTokenMaxTTL src),
      jw_accessTokenPeriod = Some (rs_accessTokenPeriod src), jw_creationEpoch = Some (rs_creationEpoch src),
      jw_identityAuth = (case rs_identityAuth src of Some a \<Rightarrow> Some a | None \<Rightarrow> Some '''')\<rparr>)"

lemma token_id_signed [simp]: "token_id (signIdentityAccessToken n i) = si_identityAccessTokenId i"
  by (simp add: token_id_def signIdentityAccessToken_def Let_def)

lemma signed_claims [simp]:
  "jw_iat (signIdentityAccessToken n i) = Some n"
  "jw_exp (signIdentityAccessToken n i) = Some (n + si_ttlSeconds i)"
  "jw_identityId (signIdentityAccessToken n i) = si_identityId i"
  "jw_identityAccessTokenId (signIdentityAccessToken n i) = si_identityAccessTokenId i"
  "jw_jti (signIdentityAccessToken n i) = Some (si_identityAccessTokenId i)"
  "jw_authTokenType (signIdentityAccessToken n i) = AuthTokenType_IDENTITY_ACCESS_TOKEN"
  "jw_accessTokenTTL (signIdentityAccessToken n i) = Some (rs_accessTokenTTL (si_source i))"
  "jw_accessTokenMaxTTL (signIdentityAccessToken n i) = Some (rs_accessTokenMaxTTL (si_source i))"
  "jw_accessTokenPeriod (signIdentityAccessToken n i) = Some (rs_accessTokenPeriod (si_source i))"
  "jw_creationEpoch (signIdentityAccessToken n i) = Some (rs_creationEpoch (si_source i))"
  "jw_authMethod (signIdentityAccessToken n i) = Some (rs_authMethod (si_source i))"
  "jw_orgId (signIdentityAccessToken n i) = Some (rs_orgId (si_source i))"
  "jw_clientSecretId (signIdentityAccessToken n i) = Some (rs_clientSecretId (si_source i))"
  "jw_numUsesLimit (signIdentityAccessToken n i) = (if si_numUsesLimit i > 0 then Some (si_numUsesLimit i) else None)"
  by (simp_all add: signIdentityAccessToken_def Let_def)

section \<open>Lifetimes\<close>

text \<open>\<open>Math.min(requestedCap, remainingBudget, ceiling)\<close>, where an absent cap is infinite.\<close>

definition capped :: "int option \<Rightarrow> int \<Rightarrow> int" where
  "capped cap x = (case cap of None \<Rightarrow> x | Some c \<Rightarrow> min c x)"

definition resolveTtlInputs :: "int \<Rightarrow> int \<Rightarrow> int \<Rightarrow> int \<times> int" where
  "resolveTtlInputs period ttl maxTTL = (if period > 0 then (period, 0) else (ttl, maxTTL))"

definition computeIssuedTtl :: "int \<Rightarrow> int \<Rightarrow> int \<Rightarrow> int \<Rightarrow> int \<Rightarrow> int" where
  "computeIssuedTtl ceiling requestedTTL maxTTL creationEpoch nowSeconds =
     (let requestedCap = (if requestedTTL > 0 then Some requestedTTL else None);
          remainingBudget = (if maxTTL > 0 then Some (creationEpoch + maxTTL - nowSeconds) else None)
      in capped requestedCap (capped remainingBudget ceiling))"

definition IDENTITY_REVOCATION_MARKER_SKEW_SECONDS :: int where
  "IDENTITY_REVOCATION_MARKER_SKEW_SECONDS = 300"

definition computeSingleIssuanceTtlCap :: "int \<Rightarrow> int \<Rightarrow> int \<Rightarrow> int" where
  "computeSingleIssuanceTtlCap ceiling requestedTTL accessTokenPeriod =
     (let effectiveRequested = (if accessTokenPeriod > 0 then accessTokenPeriod else requestedTTL)
      in if effectiveRequested > 0 then min effectiveRequested ceiling else ceiling)"

definition computeLegacyMarkerUpperSeconds :: "int \<Rightarrow> int \<Rightarrow> int \<Rightarrow> int \<Rightarrow> int" where
  "computeLegacyMarkerUpperSeconds ceiling accessTokenMaxTTL creationEpoch nowSeconds =
     (if accessTokenMaxTTL > 0 then creationEpoch + accessTokenMaxTTL else nowSeconds + ceiling)"

text \<open>The expiries of revocation records, in milliseconds as the dates the code builds.\<close>

definition computePerTokenMarkerExpiry :: "int \<Rightarrow> int option \<Rightarrow> int \<Rightarrow> int \<Rightarrow> int \<Rightarrow> int \<Rightarrow> int \<Rightarrow> int" where
  "computePerTokenMarkerExpiry ceiling e requestedTTL accessTokenMaxTTL accessTokenPeriod creationEpoch nowSeconds =
     (let legacyUpperSeconds = computeLegacyMarkerUpperSeconds ceiling accessTokenMaxTTL creationEpoch nowSeconds
      in case e of None \<Rightarrow> legacyUpperSeconds * 1000
         | Some x \<Rightarrow> (min (x + computeSingleIssuanceTtlCap ceiling requestedTTL accessTokenPeriod) legacyUpperSeconds
              + IDENTITY_REVOCATION_MARKER_SKEW_SECONDS) * 1000)"

definition computeTokenAuthRevokeMarkerExpiry :: "int \<Rightarrow> int \<Rightarrow> int \<Rightarrow> int \<Rightarrow> int \<Rightarrow> int \<Rightarrow> int" where
  "computeTokenAuthRevokeMarkerExpiry ceiling accessTokenTTL accessTokenMaxTTL accessTokenPeriod createdAtMs nowSeconds =
     (let createdAtSeconds = createdAtMs div 1000;
          nowPlusCap = nowSeconds + computeSingleIssuanceTtlCap ceiling accessTokenTTL accessTokenPeriod;
          tightenedSeconds = (if accessTokenMaxTTL > 0 then min (createdAtSeconds + accessTokenMaxTTL) nowPlusCap else nowPlusCap)
      in (tightenedSeconds + IDENTITY_REVOCATION_MARKER_SKEW_SECONDS) * 1000)"

lemmas ttl_defs = capped_def resolveTtlInputs_def computeIssuedTtl_def computeSingleIssuanceTtlCap_def
  computeLegacyMarkerUpperSeconds_def computePerTokenMarkerExpiry_def computeTokenAuthRevokeMarkerExpiry_def
  IDENTITY_REVOCATION_MARKER_SKEW_SECONDS_def

lemma issued_ttl_bounds:
  "computeIssuedTtl c r m e n \<le> c"
  "r > 0 \<Longrightarrow> computeIssuedTtl c r m e n \<le> r"
  "m > 0 \<Longrightarrow> n + computeIssuedTtl c r m e n \<le> e + m"
  by (auto simp: ttl_defs)

lemma issued_ttl_single: "computeIssuedTtl c r m e n \<le> computeSingleIssuanceTtlCap c r 0"
  by (auto simp: ttl_defs)

lemma first_ttl_positive: "0 < c \<Longrightarrow> 0 \<le> r \<Longrightarrow> 0 \<le> m \<Longrightarrow> 0 < computeIssuedTtl c r m n n"
  by (auto simp: ttl_defs)

section \<open>Revocation records\<close>

record revocation =
  mk_id :: string
  mk_identityId :: string
  mk_scope :: "string option"
  mk_revokedAt :: "int option"
  mk_createdAt :: int
  mk_expiresAt :: int

text \<open>What a check asks about; the last three are absent or empty when they do not apply.\<close>

record token_check =
  ck_tokenId :: string
  ck_identityId :: string
  ck_issuedAtMs :: int
  ck_clientSecretId :: "string option"
  ck_authMethod :: "string option"
  ck_orgId :: "string option"

definition revoked_at :: "revocation \<Rightarrow> int" where
  "revoked_at m = (case mk_revokedAt m of Some t \<Rightarrow> t | None \<Rightarrow> mk_createdAt m)"

fun evaluateRevocationMarkers :: "token_check \<Rightarrow> revocation list \<Rightarrow> deny_reason option" where
  "evaluateRevocationMarkers ck [] = None"
| "evaluateRevocationMarkers ck (m # markers) = (case mk_scope m of
       None \<Rightarrow>
         if mk_id m = ck_tokenId ck then Some DenyToken
         else if mk_id m = ck_identityId ck \<and> ck_issuedAtMs ck < revoked_at m then Some DenyIdentity
         else evaluateRevocationMarkers ck markers
     | Some scope \<Rightarrow>
         if \<not> ck_issuedAtMs ck < revoked_at m then evaluateRevocationMarkers ck markers
         else if truthy (ck_clientSecretId ck) \<and> scope = the (ck_clientSecretId ck) then Some DenyClientSecret
         else if truthy (ck_authMethod ck) \<and> scope = the (ck_authMethod ck) then Some DenyAuthMethod
         else if truthy (ck_orgId ck) \<and> scope = the (ck_orgId ck) then Some DenyOrgMembership
         else evaluateRevocationMarkers ck markers)"

definition isMembershipDenyReason :: "deny_reason \<Rightarrow> bool" where
  "isMembershipDenyReason reason \<longleftrightarrow> reason = DenyOrgMembership \<or> reason = DenyOrgMembershipInactive"

fun revocationDenyReasonToMessage :: "deny_reason \<Rightarrow> string" where
  "revocationDenyReasonToMessage DenyToken = '': token has been revoked''"
| "revocationDenyReasonToMessage DenyIdentity = '': identity tokens have been revoked''"
| "revocationDenyReasonToMessage DenyClientSecret = '': client secret has been revoked''"
| "revocationDenyReasonToMessage DenyOrgMembership = '': Identity is not a member of the organization''"
| "revocationDenyReasonToMessage DenyOrgMembershipInactive = '': Identity organization membership is inactive''"
| "revocationDenyReasonToMessage DenyAuthMethod = '': auth method has been revoked''"

text \<open>The same as a condition on one record: a token is blocked when some record blocks it.\<close>

definition scope_of :: "token_check \<Rightarrow> string set" where
  "scope_of ck = {s. (truthy (ck_clientSecretId ck) \<and> ck_clientSecretId ck = Some s) \<or>
     (truthy (ck_authMethod ck) \<and> ck_authMethod ck = Some s) \<or> (truthy (ck_orgId ck) \<and> ck_orgId ck = Some s)}"

definition marker_blocks :: "token_check \<Rightarrow> revocation \<Rightarrow> bool" where
  "marker_blocks ck m \<longleftrightarrow> (case mk_scope m of
       None \<Rightarrow> mk_id m = ck_tokenId ck \<or> (mk_id m = ck_identityId ck \<and> ck_issuedAtMs ck < revoked_at m)
     | Some s \<Rightarrow> ck_issuedAtMs ck < revoked_at m \<and> s \<in> scope_of ck)"

lemma scope_of_iff: "s \<in> scope_of ck \<longleftrightarrow> (truthy (ck_clientSecretId ck) \<and> s = the (ck_clientSecretId ck)) \<or>
    (truthy (ck_authMethod ck) \<and> s = the (ck_authMethod ck)) \<or> (truthy (ck_orgId ck) \<and> s = the (ck_orgId ck))"
  unfolding scope_of_def truthy_iff by auto

lemma evaluate_step: "evaluateRevocationMarkers ck (m # ms) = None \<longleftrightarrow>
    \<not> marker_blocks ck m \<and> evaluateRevocationMarkers ck ms = None"
  by (cases "mk_scope m") (simp_all add: marker_blocks_def scope_of_iff)

lemma evaluate_None_iff: "evaluateRevocationMarkers ck ms = None \<longleftrightarrow> (\<forall>m \<in> set ms. \<not> marker_blocks ck m)"
  by (induction ms) (simp_all add: evaluate_step del: evaluateRevocationMarkers.simps(2))


end
