(* ===== verification/TrustedIps.thy ===== *)
theory TrustedIps
  imports Prelude
begin

text \<open>
  Lists of trusted addresses (\<open>lib/ip/index.ts\<close>), and the test whether a list restricts anything
  (\<open>hasNonWildcardTrustedIps\<close> of \<open>identity-access-token-fns.ts\<close>). What is an address, and which addresses a
  block covers, is Node's \<open>net\<close>: the parameters \<open>isIPv4\<close>, \<open>isIPv6\<close> and \<open>covers\<close>.
\<close>

datatype IPType = IPV4 | IPV6

record trusted_ip =
  ip_ipAddress :: string
  ip_type :: IPType
  ip_prefix :: "int option"

record ip_library =
  il_isIPv4 :: "string \<Rightarrow> bool"
  il_isIPv6 :: "string \<Rightarrow> bool"
  il_covers :: "trusted_ip \<Rightarrow> string \<Rightarrow> IPType \<Rightarrow> bool"

section \<open>Addresses and blocks\<close>

text \<open>\<open>parseInt(s, 10)\<close>: white space, a sign, and the digits that follow; no digit is NaN, here \<open>None\<close>.\<close>

definition ip_digit :: "char \<Rightarrow> bool" where
  "ip_digit c \<longleftrightarrow> c \<in> set ''0123456789''"

definition digits_int :: "string \<Rightarrow> int" where
  "digits_int s = foldl (\<lambda>n c. 10 * n + (int (of_char c) - 48)) 0 s"

definition parseInt10 :: "string \<Rightarrow> int option" where
  "parseInt10 s = (let t = trim_left s;
       negative = (t \<noteq> [] \<and> hd t = CHR ''-'');
       u = (if t \<noteq> [] \<and> (hd t = CHR ''-'' \<or> hd t = CHR ''+'') then tl t else t);
       ds = takeWhile ip_digit u
     in if ds = [] then None else Some (if negative then - digits_int ds else digits_int ds))"

text \<open>\<open>const [ip, prefix] = s.split("/")\<close>: what comes after a second slash is dropped.\<close>

definition split_block :: "string \<Rightarrow> string \<times> string option" where
  "split_block s = (case split_char CHR ''/'' s of
       [] \<Rightarrow> ([], None)
     | [ip] \<Rightarrow> (ip, None)
     | ip # len # _ \<Rightarrow> (ip, Some len))"

text \<open>\<open>None\<close>: it throws. A missing prefix is the text \<open>undefined\<close> to \<open>parseInt\<close>, which is NaN.\<close>

definition extractIPDetails :: "ip_library \<Rightarrow> string \<Rightarrow> trusted_ip option" where
  "extractIPDetails lib ip =
     (if il_isIPv4 lib ip then Some \<lparr>ip_ipAddress = ip, ip_type = IPV4, ip_prefix = None\<rparr>
      else if il_isIPv6 lib ip then Some \<lparr>ip_ipAddress = ip, ip_type = IPV6, ip_prefix = None\<rparr>
      else (let (ipNet, len) = split_block ip; n = Option.bind len parseInt10
            in if il_isIPv4 lib ipNet then Some \<lparr>ip_ipAddress = ipNet, ip_type = IPV4, ip_prefix = n\<rparr>
               else if il_isIPv6 lib ipNet then Some \<lparr>ip_ipAddress = ipNet, ip_type = IPV6, ip_prefix = n\<rparr>
               else None))"

definition isValidCidr :: "ip_library \<Rightarrow> string \<Rightarrow> bool" where
  "isValidCidr lib cidr = (case split_block cidr of (ip, len) \<Rightarrow>
     (case Option.bind len parseInt10 of
        None \<Rightarrow> False
      | Some prefixNum \<Rightarrow>
          \<not> (il_isIPv4 lib ip \<and> (prefixNum < 0 \<or> prefixNum > 32)) \<and>
          \<not> (il_isIPv6 lib ip \<and> (prefixNum < 0 \<or> prefixNum > 128)) \<and>
          (il_isIPv4 lib ip \<or> il_isIPv6 lib ip)))"

definition isValidIpOrCidr :: "ip_library \<Rightarrow> string \<Rightarrow> bool" where
  "isValidIpOrCidr lib ip =
     (if CHR ''/'' \<in> set ip then isValidCidr lib ip else il_isIPv4 lib ip \<or> il_isIPv6 lib ip)"

section \<open>Lists of trusted addresses\<close>

text \<open>The block list holds every entry; the address of the request must parse and be covered by one.\<close>

definition checkIPAgainstBlocklist :: "ip_library \<Rightarrow> string \<Rightarrow> trusted_ip list \<Rightarrow> bool" where
  "checkIPAgainstBlocklist lib ipAddress trustedIps = (case extractIPDetails lib ipAddress of
       None \<Rightarrow> False
     | Some d \<Rightarrow> list_ex (\<lambda>t. il_covers lib t ipAddress (ip_type d)) trustedIps)"

definition hasNonWildcardTrustedIps :: "trusted_ip list option \<Rightarrow> bool" where
  "hasNonWildcardTrustedIps trustedIps = (case trustedIps of
       None \<Rightarrow> False
     | Some ips \<Rightarrow> list_ex (\<lambda>ip. ip_ipAddress ip \<noteq> ''0.0.0.0/0'' \<and> ip_ipAddress ip \<noteq> ''::/0'') ips)"

text \<open>What the services store for a list that was entered.\<close>

definition stored_trusted_ips :: "ip_library \<Rightarrow> string list \<Rightarrow> trusted_ip list option" where
  "stored_trusted_ips lib entered =
     (if list_all (isValidIpOrCidr lib) entered then those (map (extractIPDetails lib) entered) else None)"

lemma split_block_fst: "CHR ''/'' \<notin> set (fst (split_block s))"
proof -
  have "fst (split_block s) = hd (split_char CHR ''/'' s)"
    by (simp add: split_block_def split: list.split)
  then show ?thesis using split_char_parts [of "hd (split_char CHR ''/'' s)" "CHR ''/''" s] by simp
qed

lemma extracted_has_no_slash:
  assumes "extractIPDetails lib ip = Some t"
    and "\<And>s. il_isIPv4 lib s \<Longrightarrow> CHR ''/'' \<notin> set s" "\<And>s. il_isIPv6 lib s \<Longrightarrow> CHR ''/'' \<notin> set s"
  shows "CHR ''/'' \<notin> set (ip_ipAddress t)"
  using assms split_block_fst [of ip]
  by (auto simp: extractIPDetails_def Let_def split: if_splits prod.splits)

lemma those_SomeD: "those (map f xs) = Some ys \<Longrightarrow> y \<in> set ys \<Longrightarrow> \<exists>x \<in> set xs. f x = Some y"
  by (induction xs arbitrary: ys) (auto split: option.splits)

lemma those_length: "those xs = Some ys \<Longrightarrow> length ys = length xs"
  by (induction xs arbitrary: ys) (auto split: option.splits)

text \<open>
  The test for a wildcard compares with the text of a block, but an entry is stored split into address and
  prefix: whatever was entered, a list that is not empty counts as a restriction, the wildcards too.
\<close>

lemma stored_wildcard_not_recognised:
  assumes st: "stored_trusted_ips lib entered = Some ips"
    and noslash: "\<And>s. il_isIPv4 lib s \<Longrightarrow> CHR ''/'' \<notin> set s" "\<And>s. il_isIPv6 lib s \<Longrightarrow> CHR ''/'' \<notin> set s"
  shows "hasNonWildcardTrustedIps (Some ips) \<longleftrightarrow> entered \<noteq> []"
proof -
  have th: "those (map (extractIPDetails lib) entered) = Some ips"
    using st by (simp add: stored_trusted_ips_def split: if_splits)
  have "ip_ipAddress t \<noteq> ''0.0.0.0/0'' \<and> ip_ipAddress t \<noteq> ''::/0''" if t: "t \<in> set ips" for t
  proof -
    obtain x where "extractIPDetails lib x = Some t" using those_SomeD [OF th t] by blast
    then have "CHR ''/'' \<notin> set (ip_ipAddress t)" using extracted_has_no_slash noslash by blast
    then show ?thesis by auto
  qed
  then have "hasNonWildcardTrustedIps (Some ips) \<longleftrightarrow> ips \<noteq> []"
    by (cases ips) (auto simp: hasNonWildcardTrustedIps_def list_ex_iff)
  then show ?thesis using those_length [OF th] by auto
qed

text \<open>A wildcard entry as it is stored: not recognised, though it covers everything.\<close>

definition sample_ip_library :: ip_library where
  "sample_ip_library = \<lparr>il_isIPv4 = (\<lambda>s. s \<in> {''0.0.0.0'', ''10.0.0.1''}), il_isIPv6 = (\<lambda>s. s = ''::''),
     il_covers = (\<lambda>t ip ty. ip_type t = ty \<and> (ip_prefix t = Some 0 \<or> ip_ipAddress t = ip))\<rparr>"

lemma stored_wildcard_sample:
  "stored_trusted_ips sample_ip_library [''0.0.0.0/0'', ''::/0''] =
     Some [\<lparr>ip_ipAddress = ''0.0.0.0'', ip_type = IPV4, ip_prefix = Some 0\<rparr>,
           \<lparr>ip_ipAddress = ''::'', ip_type = IPV6, ip_prefix = Some 0\<rparr>]"
  by (simp add: stored_trusted_ips_def isValidIpOrCidr_def isValidCidr_def extractIPDetails_def split_block_def
      parseInt10_def trim_left_def is_ws_def ip_digit_def digits_int_def sample_ip_library_def Let_def)

end
