(* ===== verification/TokenState.thy ===== *)
theory TokenState
  imports TokenClaims TrustedIps
begin

text \<open>
  The state that access tokens live in, and its small operations: the tables of the database
  (\<open>identity-access-token-dal.ts\<close>, \<open>identity-access-token-revocation-dal.ts\<close>), the keys of the key store
  (\<open>keystore/keystore.ts\<close>), and the check for revocation with its cache (\<open>assertTokenIsNotRevoked\<close> of
  \<open>identity-access-token-service.ts\<close>), stage by stage.

  \<open>td_signed\<close> stands for the signing library: a token passes verification when it was signed here and has not
  expired. A hash used as a key is the data it is made from. A key of the store holds a value and the time it
  expires. Replicas are not told from their primaries. What may fail of the key store without failing the call is the record
  \<open>luck\<close>, with the random part of a duration.
\<close>

section \<open>Tables and keys\<close>

record identity_row =
  ir_id :: string
  ir_orgId :: string
  ir_name :: string

record org_row =
  or_id :: string
  or_rootOrgId :: "string option"
  or_parentOrgId :: "string option"

record token_row =
  tr_id :: string
  tr_identityId :: string
  tr_isAccessTokenRevoked :: bool
  tr_accessTokenTTL :: int
  tr_accessTokenMaxTTL :: int
  tr_accessTokenPeriod :: int
  tr_accessTokenNumUsesLimit :: int
  tr_authMethod :: string
  tr_subOrganizationId :: "string option"
  tr_createdAt :: int

record verdict =
  ve_v :: "int option"
  ve_deny :: "deny_reason option"

datatype fingerprint = Fingerprint string int string string
type_synonym ('k, 'v) keys = "'k \<Rightarrow> ('v \<times> int option) option"

record token_db =
  td_now :: int
  td_signed :: "claims list"
  td_identities :: "identity_row list"
  td_orgs :: "org_row list"
  td_rows :: "token_row list"
  td_revocations :: "revocation list"
  td_members :: "string \<Rightarrow> string \<Rightarrow> bool option"
  td_trusted :: "string \<Rightarrow> string \<Rightarrow> trusted_ip list option"
  td_uses :: "(string \<times> string, int) keys"
  td_versions :: "(string, int) keys"
  td_verdicts :: "(string \<times> fingerprint, verdict) keys"
  td_ipcache :: "(string \<times> string, trusted_ip list option) keys"

record luck =
  lu_read :: bool
  lu_version :: bool
  lu_write :: bool
  lu_bump :: bool
  lu_jitter :: int

definition fine :: luck where
  "fine = \<lparr>lu_read = True, lu_version = True, lu_write = True, lu_bump = True, lu_jitter = 0\<rparr>"

definition key_get :: "int \<Rightarrow> ('k, 'v) keys \<Rightarrow> 'k \<Rightarrow> 'v option" where
  "key_get now m k = (case m k of
       None \<Rightarrow> None
     | Some (v, e) \<Rightarrow> if (case e of None \<Rightarrow> True | Some t \<Rightarrow> now < t) then Some v else None)"

definition setItemWithExpiry :: "int \<Rightarrow> 'k \<Rightarrow> int \<Rightarrow> 'v \<Rightarrow> ('k, 'v) keys \<Rightarrow> ('k, 'v) keys" where
  "setItemWithExpiry now k expiryInSeconds v m = m(k \<mapsto> (v, Some (now + expiryInSeconds * 1000)))"

definition setItemWithExpiryNX :: "int \<Rightarrow> 'k \<Rightarrow> int \<Rightarrow> 'v \<Rightarrow> ('k, 'v) keys \<Rightarrow> ('k, 'v) keys" where
  "setItemWithExpiryNX now k expiryInSeconds v m =
     (if key_get now m k = None then setItemWithExpiry now k expiryInSeconds v m else m)"

definition deleteItem :: "'k \<Rightarrow> ('k, 'v) keys \<Rightarrow> ('k, 'v) keys" where
  "deleteItem k m = m(k := None)"

text \<open>\<open>INCRBY\<close> keeps the expiry of a key; a key that is missing starts at 0 and never expires.\<close>

definition incrementBy :: "int \<Rightarrow> 'k \<Rightarrow> int \<Rightarrow> ('k, int) keys \<Rightarrow> int \<times> ('k, int) keys" where
  "incrementBy now k d m = (case key_get now m k of
       None \<Rightarrow> (d, m(k \<mapsto> (d, None)))
     | Some v \<Rightarrow> (v + d, m(k \<mapsto> (v + d, snd (the (m k))))))"

definition incrementSeededWithExpiry :: "int \<Rightarrow> 'k \<Rightarrow> int \<Rightarrow> int \<Rightarrow> ('k, int) keys \<Rightarrow> ('k, int) keys" where
  "incrementSeededWithExpiry now k seed expiryInSeconds m =
     (let v = (case key_get now m k of None \<Rightarrow> 1 | Some n \<Rightarrow> n + 1);
          v' = (if v = 1 then v + seed else v)
      in m(k \<mapsto> (v', Some (now + expiryInSeconds * 1000))))"

lemma key_get_simps [simp]:
  "m k = None \<Longrightarrow> key_get now m k = None"
  "key_get now (m(k \<mapsto> (v, None))) k = Some v"
  "key_get now (m(k \<mapsto> (v, Some t))) k = (if now < t then Some v else None)"
  "k' \<noteq> k \<Longrightarrow> key_get now (m(k' := x)) k = key_get now m k"
  by (simp_all add: key_get_def)

lemma key_get_mono: "key_get now' m k = Some v \<Longrightarrow> now \<le> now' \<Longrightarrow> key_get now m k = Some v"
  by (auto simp: key_get_def split: option.splits if_splits)

lemma key_get_entry: "key_get now m k = Some v \<Longrightarrow> \<exists>e. m k = Some (v, e)"
  by (auto simp: key_get_def split: option.splits if_splits)

abbreviation now_seconds :: "token_db \<Rightarrow> int" where
  "now_seconds db \<equiv> td_now db div 1000"

definition IdentityRevocationVersionInSeconds :: int where "IdentityRevocationVersionInSeconds = 604800"
definition IdentityRevocationVerdictBaseInSeconds :: int where "IdentityRevocationVerdictBaseInSeconds = 600"
definition IdentityTrustedIpsInSeconds :: int where "IdentityTrustedIpsInSeconds = 300"

section \<open>Revocation records\<close>

definition insertRevocation :: "string \<Rightarrow> string \<Rightarrow> int \<Rightarrow> int option \<Rightarrow> string option \<Rightarrow> token_db \<Rightarrow> token_db" where
  "insertRevocation i identityId expiresAt revokedAt scope db =
     (if list_ex (\<lambda>m. mk_id m = i) (td_revocations db)
      then db\<lparr>td_revocations := map (\<lambda>m. if mk_id m = i
             then m\<lparr>mk_identityId := identityId, mk_expiresAt := expiresAt, mk_revokedAt := revokedAt, mk_scope := scope\<rparr>
             else m) (td_revocations db)\<rparr>
      else db\<lparr>td_revocations := td_revocations db @
             [\<lparr>mk_id = i, mk_identityId = identityId, mk_scope = scope, mk_revokedAt = revokedAt,
               mk_createdAt = td_now db, mk_expiresAt = expiresAt\<rparr>]\<rparr>)"

definition deleteRevocationsByScope :: "string \<Rightarrow> string \<Rightarrow> token_db \<Rightarrow> token_db" where
  "deleteRevocationsByScope identityId scope db =
     db\<lparr>td_revocations := filter (\<lambda>m. \<not> (mk_identityId m = identityId \<and> mk_scope m = Some scope)) (td_revocations db)\<rparr>"

definition findActiveRevocationsForToken :: "string \<Rightarrow> string \<Rightarrow> string list \<Rightarrow> token_db \<Rightarrow> revocation list" where
  "findActiveRevocationsForToken tokenId identityId scopes db =
     (let active = filter (\<lambda>m. mk_identityId m = identityId \<and> mk_expiresAt m > td_now db) (td_revocations db)
      in filter (\<lambda>m. mk_id m \<in> {tokenId, identityId}) active @
         (if scopes \<noteq> [] then filter (\<lambda>m. \<exists>s \<in> set scopes. mk_scope m = Some s) active else []))"

text \<open>The version of an identity: bumped by every revocation, created when it is missing.\<close>

definition bumpRevocationVersion :: "luck \<Rightarrow> string \<Rightarrow> token_db \<Rightarrow> token_db" where
  "bumpRevocationVersion lu identityId db =
     (if lu_bump lu
      then db\<lparr>td_versions := incrementSeededWithExpiry (td_now db) identityId (td_now db)
             IdentityRevocationVersionInSeconds (td_versions db)\<rparr>
      else db)"

definition getOrSeedRevocationVersion :: "string \<Rightarrow> token_db \<Rightarrow> int option \<times> token_db" where
  "getOrSeedRevocationVersion identityId db =
     (case key_get (td_now db) (td_versions db) identityId of
        Some existing \<Rightarrow> (Some existing, db)
      | None \<Rightarrow>
          (let db' = db\<lparr>td_versions := setItemWithExpiryNX (td_now db) identityId IdentityRevocationVersionInSeconds
                 (td_now db) (td_versions db)\<rparr>
           in (key_get (td_now db') (td_versions db') identityId, db')))"

section \<open>The check for revocation\<close>

definition computeRevocationVerdictFingerprint :: "token_check \<Rightarrow> fingerprint" where
  "computeRevocationVerdictFingerprint ck =
     Fingerprint (ck_tokenId ck) (ck_issuedAtMs ck) (given_text (ck_clientSecretId ck)) (given_text (ck_authMethod ck))"

abbreviation verdict_key :: "token_check \<Rightarrow> string \<times> fingerprint" where
  "verdict_key ck \<equiv> (ck_identityId ck, computeRevocationVerdictFingerprint ck)"

definition scopes_of :: "token_check \<Rightarrow> string list" where
  "scopes_of ck = (if truthy (ck_clientSecretId ck) then [the (ck_clientSecretId ck)] else []) @
     (if truthy (ck_authMethod ck) then [the (ck_authMethod ck)] else []) @
     (if truthy (ck_orgId ck) then [the (ck_orgId ck)] else [])"

text \<open>
  Reading the cache: decided by a cached verdict, or on to the database with the version that was read. The code asks for
  the version and the verdict in two reads at once and waits for both; here they are one step, so nothing happens
  between the two.
\<close>

datatype cache_read = Decided "deny_reason option" | ReadDatabase "int option" bool

definition read_cache :: "luck \<Rightarrow> token_check \<Rightarrow> token_db \<Rightarrow> cache_read" where
  "read_cache lu ck db =
     (let cachedVersion = key_get (td_now db) (td_versions db) (ck_identityId ck)
      in if \<not> lu_read lu then ReadDatabase None False
         else case key_get (td_now db) (td_verdicts db) (verdict_key ck) of
           None \<Rightarrow> ReadDatabase cachedVersion True
         | Some parsed \<Rightarrow>
             (let current = (ve_v parsed \<noteq> None \<and> cachedVersion \<noteq> None \<and> ve_v parsed = cachedVersion)
              in case ve_deny parsed of
                Some reason \<Rightarrow>
                  if \<not> isMembershipDenyReason reason \<or> current then Decided (Some reason)
                  else ReadDatabase cachedVersion True
              | None \<Rightarrow> if current then Decided None else ReadDatabase cachedVersion True))"

text \<open>The version to stamp a new verdict with, and whether the cache is still taken to work.\<close>

definition resolve_version :: "luck \<Rightarrow> token_check \<Rightarrow> int option \<Rightarrow> bool \<Rightarrow> token_db \<Rightarrow> (int option \<times> bool) \<times> token_db" where
  "resolve_version lu ck cachedVersion cacheAvailable db =
     (if \<not> cacheAvailable then ((None, False), db)
      else case cachedVersion of
        Some v \<Rightarrow> ((Some v, True), db)
      | None \<Rightarrow>
          if lu_version lu
          then (case getOrSeedRevocationVersion (ck_identityId ck) db of (v, db') \<Rightarrow> ((v, True), db'))
          else ((None, False), db))"

text \<open>The answer of the database: the records first, then the membership of the organization.\<close>

definition membership_deny :: "token_check \<Rightarrow> token_db \<Rightarrow> deny_reason option" where
  "membership_deny ck db =
     (if \<not> truthy (ck_orgId ck) then None
      else case td_members db (ck_identityId ck) (the (ck_orgId ck)) of
        None \<Rightarrow> Some DenyOrgMembership
      | Some isActive \<Rightarrow> if \<not> isActive then Some DenyOrgMembershipInactive else None)"

definition database_verdict :: "token_check \<Rightarrow> token_db \<Rightarrow> deny_reason option" where
  "database_verdict ck db =
     (case evaluateRevocationMarkers ck
             (findActiveRevocationsForToken (ck_tokenId ck) (ck_identityId ck) (scopes_of ck) db) of
        Some reason \<Rightarrow> Some reason
      | None \<Rightarrow> membership_deny ck db)"

definition write_verdict :: "luck \<Rightarrow> token_check \<Rightarrow> int option \<Rightarrow> bool \<Rightarrow> deny_reason option \<Rightarrow> token_db \<Rightarrow> token_db" where
  "write_verdict lu ck versionForStamp cacheAvailable denyReason db =
     (let store = (\<lambda>v. db\<lparr>td_verdicts := setItemWithExpiry (td_now db) (verdict_key ck)
             (IdentityRevocationVerdictBaseInSeconds + lu_jitter lu) v (td_verdicts db)\<rparr>)
      in if \<not> cacheAvailable \<or> \<not> lu_write lu then db
         else case denyReason of
           Some reason \<Rightarrow>
             if \<not> isMembershipDenyReason reason then store \<lparr>ve_v = None, ve_deny = Some reason\<rparr>
             else if versionForStamp \<noteq> None then store \<lparr>ve_v = versionForStamp, ve_deny = Some reason\<rparr>
             else db
         | None \<Rightarrow> if versionForStamp \<noteq> None then store \<lparr>ve_v = versionForStamp, ve_deny = None\<rparr> else db)"

text \<open>The stages in a row: the reason to refuse, if there is one, and the state after.\<close>

definition check_token :: "luck \<Rightarrow> token_check \<Rightarrow> token_db \<Rightarrow> deny_reason option \<times> token_db" where
  "check_token lu ck db = (case read_cache lu ck db of
       Decided r \<Rightarrow> (r, db)
     | ReadDatabase cachedVersion cacheAvailable \<Rightarrow>
         (case resolve_version lu ck cachedVersion cacheAvailable db of
            ((versionForStamp, available), db1) \<Rightarrow>
              (let r = database_verdict ck db1
               in (r, write_verdict lu ck versionForStamp available r db1))))"

definition assertTokenIsNotRevoked ::
  "luck \<Rightarrow> message_prefix \<Rightarrow> token_check \<Rightarrow> token_db \<Rightarrow> (token_error + unit) \<times> token_db" where
  "assertTokenIsNotRevoked lu messagePrefix ck db = (case check_token lu ck db of
       (Some r, db') \<Rightarrow> (Inl (RevokedToken messagePrefix (revocationDenyReasonToMessage r)), db')
     | (None, db') \<Rightarrow> (Inr (), db'))"

section \<open>What the stages leave alone\<close>

text \<open>The check touches the cache only.\<close>

definition same_tables :: "token_db \<Rightarrow> token_db \<Rightarrow> bool" where
  "same_tables a b \<longleftrightarrow> td_now a = td_now b \<and> td_signed a = td_signed b \<and> td_identities a = td_identities b \<and>
     td_orgs a = td_orgs b \<and> td_rows a = td_rows b \<and> td_revocations a = td_revocations b \<and>
     td_members a = td_members b \<and> td_trusted a = td_trusted b \<and> td_uses a = td_uses b \<and> td_ipcache a = td_ipcache b"

lemma same_tables_refl [simp]: "same_tables a a"
  by (simp add: same_tables_def)

lemma same_tables_trans: "same_tables a b \<Longrightarrow> same_tables b c \<Longrightarrow> same_tables a c"
  by (simp add: same_tables_def)

lemma same_tables_D:
  assumes "same_tables a b"
  shows "td_now b = td_now a" "td_signed b = td_signed a" "td_rows b = td_rows a" "td_revocations b = td_revocations a"
    "td_members b = td_members a" "td_trusted b = td_trusted a" "td_uses b = td_uses a" "td_ipcache b = td_ipcache a"
    "td_identities b = td_identities a" "td_orgs b = td_orgs a"
  using assms by (simp_all add: same_tables_def)

lemma same_tables_versions [simp]: "same_tables db (db\<lparr>td_versions := v\<rparr>)"
  and same_tables_verdicts [simp]: "same_tables db (db\<lparr>td_verdicts := w\<rparr>)"
  by (simp_all add: same_tables_def)

lemma getOrSeed_same: "getOrSeedRevocationVersion i db = (v, db') \<Longrightarrow> same_tables db db'"
  by (auto simp: getOrSeedRevocationVersion_def Let_def split: option.splits)

lemma resolve_same: "resolve_version lu ck cv av db = ((v, a), db') \<Longrightarrow> same_tables db db'"
  by (auto simp: resolve_version_def dest: getOrSeed_same split: if_splits option.splits prod.splits)

lemma write_same: "same_tables db (write_verdict lu ck v a r db)"
  by (simp add: write_verdict_def Let_def split: option.split)

lemma check_same: "check_token lu ck db = (r, db') \<Longrightarrow> same_tables db db'"
  by (auto simp: check_token_def Let_def split: cache_read.splits prod.splits
      dest!: resolve_same intro: same_tables_trans write_same)

lemma find_active_same:
  "same_tables a b \<Longrightarrow> findActiveRevocationsForToken t i ss b = findActiveRevocationsForToken t i ss a"
  by (simp add: findActiveRevocationsForToken_def same_tables_def)

lemma membership_deny_same: "same_tables a b \<Longrightarrow> membership_deny ck b = membership_deny ck a"
  by (simp add: membership_deny_def same_tables_def)

lemma database_verdict_same: "same_tables a b \<Longrightarrow> database_verdict ck b = database_verdict ck a"
  by (simp add: database_verdict_def find_active_same membership_deny_same split: option.split)

text \<open>Which records the query finds that can block: all of the identity's that are active.\<close>

definition active_marker :: "token_db \<Rightarrow> string \<Rightarrow> revocation \<Rightarrow> bool" where
  "active_marker db identityId m \<longleftrightarrow>
     m \<in> set (td_revocations db) \<and> mk_identityId m = identityId \<and> td_now db < mk_expiresAt m"

lemma set_scopes_of: "set (scopes_of ck) = scope_of ck"
  by (auto simp: scopes_of_def scope_of_iff)

lemma found_marker_iff: "(\<exists>m \<in> set (findActiveRevocationsForToken (ck_tokenId ck) (ck_identityId ck) (scopes_of ck) db). marker_blocks ck m) \<longleftrightarrow>
    (\<exists>m. active_marker db (ck_identityId ck) m \<and> marker_blocks ck m)"
proof
  assume "\<exists>m \<in> set (findActiveRevocationsForToken (ck_tokenId ck) (ck_identityId ck) (scopes_of ck) db). marker_blocks ck m"
  then show "\<exists>m. active_marker db (ck_identityId ck) m \<and> marker_blocks ck m"
    by (auto simp: findActiveRevocationsForToken_def Let_def active_marker_def split: if_splits)
next
  assume "\<exists>m. active_marker db (ck_identityId ck) m \<and> marker_blocks ck m"
  then obtain m where m: "active_marker db (ck_identityId ck) m" "marker_blocks ck m" by blast
  show "\<exists>m \<in> set (findActiveRevocationsForToken (ck_tokenId ck) (ck_identityId ck) (scopes_of ck) db). marker_blocks ck m"
  proof (cases "mk_scope m")
    case None
    with m show ?thesis
      by (intro bexI [of _ m]) (auto simp: findActiveRevocationsForToken_def Let_def active_marker_def marker_blocks_def)
  next
    case (Some s)
    with m have "s \<in> set (scopes_of ck)" by (simp add: marker_blocks_def set_scopes_of)
    with m Some show ?thesis
      by (intro bexI [of _ m]) (auto simp: findActiveRevocationsForToken_def Let_def active_marker_def)
  qed
qed

lemma database_verdict_None_iff: "database_verdict ck db = None \<longleftrightarrow>
    (\<forall>m. active_marker db (ck_identityId ck) m \<longrightarrow> \<not> marker_blocks ck m) \<and> membership_deny ck db = None"
proof -
  let ?ms = "findActiveRevocationsForToken (ck_tokenId ck) (ck_identityId ck) (scopes_of ck) db"
  have "evaluateRevocationMarkers ck ?ms = None \<longleftrightarrow> (\<forall>m. active_marker db (ck_identityId ck) m \<longrightarrow> \<not> marker_blocks ck m)"
    using found_marker_iff [of ck db] by (auto simp: evaluate_None_iff)
  then show ?thesis
    by (cases "evaluateRevocationMarkers ck ?ms") (simp_all add: database_verdict_def)
qed

end
