(* ===== verification/TokenCache.thy ===== *)
theory TokenCache
  imports TokenState
begin

text \<open>
  The cache of verdicts against the tables, when checks and revocations overlap. A check reads the cache,
  resolves the version, asks the database and writes its verdict; a revocation inserts a record (or changes a
  membership) and bumps the version of its identity. The runs of \<open>cache_run\<close> interleave these steps freely:
  the state is the database, the checks in flight with what they have read, and the identities whose bump is
  still to come.

  A version key may only vanish by expiring, and a bump has room: fewer than one bump per millisecond over the
  seven days a key lives. Bumps that fail are not part of these runs, and the two reads of the cache, of the
  version and of the verdict, are one step of a check.
\<close>

section \<open>Runs\<close>

datatype stage =
    Reading token_check "int option" bool
  | Resolved token_check "int option" bool
  | Answered token_check "int option" bool "deny_reason option"

fun stage_check :: "stage \<Rightarrow> token_check" where
  "stage_check (Reading ck v a) = ck"
| "stage_check (Resolved ck v a) = ck"
| "stage_check (Answered ck v a r) = ck"

fun stage_stamp :: "stage \<Rightarrow> int option" where
  "stage_stamp (Reading ck v a) = v"
| "stage_stamp (Resolved ck v a) = v"
| "stage_stamp (Answered ck v a r) = v"

definition has_room :: "token_db \<Rightarrow> string \<Rightarrow> bool" where
  "has_room db i \<longleftrightarrow> (case key_get (td_now db) (td_versions db) i of None \<Rightarrow> True
     | Some v \<Rightarrow> v + 1 < td_now db + IdentityRevocationVersionInSeconds * 1000)"

text \<open>\<open>org_of\<close>: the organization a token is for, which the key of its verdict does not name.\<close>

inductive cache_run :: "(string \<times> fingerprint \<Rightarrow> string option) \<Rightarrow> token_db \<Rightarrow> stage list \<Rightarrow> string list \<Rightarrow> bool" for org_of where
  run_start: "0 < td_now db \<Longrightarrow> td_versions db = Map.empty \<Longrightarrow> td_verdicts db = Map.empty \<Longrightarrow> cache_run org_of db [] []"
| run_time: "cache_run org_of db fl pend \<Longrightarrow> 0 \<le> d \<Longrightarrow> cache_run org_of (db\<lparr>td_now := td_now db + d\<rparr>) fl pend"
| run_read: "cache_run org_of db fl pend \<Longrightarrow> ck_orgId ck = org_of (verdict_key ck) \<Longrightarrow>
    read_cache lu ck db = ReadDatabase v a \<Longrightarrow> cache_run org_of db (Reading ck v a # fl) pend"
| run_resolve: "cache_run org_of db (xs @ Reading ck v a # ys) pend \<Longrightarrow> resolve_version lu ck v a db = ((s, a'), db') \<Longrightarrow>
    cache_run org_of db' (xs @ Resolved ck s a' # ys) pend"
| run_answer: "cache_run org_of db (xs @ Resolved ck s a # ys) pend \<Longrightarrow>
    cache_run org_of db (xs @ Answered ck s a (database_verdict ck db) # ys) pend"
| run_write: "cache_run org_of db (xs @ Answered ck s a r # ys) pend \<Longrightarrow>
    cache_run org_of (write_verdict lu ck s a r db) (xs @ ys) pend"
| run_revoke: "cache_run org_of db fl pend \<Longrightarrow> cache_run org_of (insertRevocation k i e t scope db) fl (i # pend)"
| run_restore: "cache_run org_of db fl pend \<Longrightarrow> cache_run org_of (deleteRevocationsByScope i scope db) fl (i # pend)"
| run_member: "cache_run org_of db fl pend \<Longrightarrow>
    cache_run org_of (db\<lparr>td_members := (td_members db)(i := m)\<rparr>) fl (i # pend)"
| run_bump: "cache_run org_of db fl (xs @ i # ys) \<Longrightarrow> has_room db i \<Longrightarrow> lu_bump lu \<Longrightarrow>
    cache_run org_of (bumpRevocationVersion lu i db) fl (xs @ ys)"
| run_prune: "cache_run org_of db fl pend \<Longrightarrow>
    cache_run org_of (db\<lparr>td_revocations := filter (\<lambda>m. keep m \<or> \<not> mk_expiresAt m < td_now db) (td_revocations db)\<rparr>) fl pend"
| run_forget: "cache_run org_of db fl pend \<Longrightarrow> cache_run org_of (db\<lparr>td_verdicts := (td_verdicts db)(k := None)\<rparr>) fl pend"
| run_other: "cache_run org_of db fl pend \<Longrightarrow> td_now db' = td_now db \<Longrightarrow> td_revocations db' = td_revocations db \<Longrightarrow>
    td_members db' = td_members db \<Longrightarrow> td_versions db' = td_versions db \<Longrightarrow> td_verdicts db' = td_verdicts db \<Longrightarrow>
    cache_run org_of db' fl pend"

section \<open>The invariant\<close>

text \<open>A stamp is held by a stored verdict or by a check in flight; a promise is a verdict to allow.\<close>

definition stamped :: "token_db \<Rightarrow> stage list \<Rightarrow> string \<Rightarrow> int \<Rightarrow> bool" where
  "stamped db fl i s \<longleftrightarrow> (\<exists>fp ve e. td_verdicts db (i, fp) = Some (ve, e) \<and> ve_v ve = Some s) \<or>
     (\<exists>st \<in> set fl. ck_identityId (stage_check st) = i \<and> stage_stamp st = Some s)"

definition promised :: "(string \<times> fingerprint \<Rightarrow> string option) \<Rightarrow> token_db \<Rightarrow> stage list \<Rightarrow> token_check \<Rightarrow> int \<Rightarrow> bool" where
  "promised org_of db fl ck s \<longleftrightarrow> ck_orgId ck = org_of (verdict_key ck) \<and>
     ((\<exists>ve e. td_verdicts db (verdict_key ck) = Some (ve, e) \<and> ve_v ve = Some s \<and> ve_deny ve = None) \<or>
      (\<exists>ck' a. Answered ck' (Some s) a None \<in> set fl \<and> verdict_key ck' = verdict_key ck))"

abbreviation version_of :: "token_db \<Rightarrow> string \<Rightarrow> int option" where
  "version_of db i \<equiv> key_get (td_now db) (td_versions db) i"

definition stamp_fits :: "token_db \<Rightarrow> string \<Rightarrow> int \<Rightarrow> bool" where
  "stamp_fits db i s \<longleftrightarrow> (case version_of db i of Some v \<Rightarrow> s \<le> v | None \<Rightarrow> s < td_now db)"

definition version_keys_ok :: "token_db \<Rightarrow> bool" where
  "version_keys_ok db \<longleftrightarrow> 0 < td_now db \<and>
     (\<forall>i v e. td_versions db i = Some (v, e) \<longrightarrow> 0 < v \<and> (\<exists>t. e = Some t \<and> v < t))"

definition cache_inv :: "(string \<times> fingerprint \<Rightarrow> string option) \<Rightarrow> token_db \<Rightarrow> stage list \<Rightarrow> string list \<Rightarrow> bool" where
  "cache_inv org_of db fl pend \<longleftrightarrow> version_keys_ok db \<and>
     (\<forall>i s. stamped db fl i s \<longrightarrow> stamp_fits db i s) \<and>
     (\<forall>st \<in> set fl. ck_orgId (stage_check st) = org_of (verdict_key (stage_check st))) \<and>
     (\<forall>ck s. promised org_of db fl ck s \<longrightarrow> version_of db (ck_identityId ck) = Some s \<longrightarrow>
        ck_identityId ck \<notin> set pend \<longrightarrow> database_verdict ck db = None)"

lemma cache_invD:
  assumes "cache_inv org_of db fl pend"
  shows "version_keys_ok db" "stamped db fl i s \<Longrightarrow> stamp_fits db i s"
    "st \<in> set fl \<Longrightarrow> ck_orgId (stage_check st) = org_of (verdict_key (stage_check st))"
    "promised org_of db fl ck s' \<Longrightarrow> version_of db (ck_identityId ck) = Some s' \<Longrightarrow> ck_identityId ck \<notin> set pend \<Longrightarrow>
       database_verdict ck db = None"
  using assms by (auto simp: cache_inv_def)

text \<open>Two checks with one key are about one token: the database answers both alike.\<close>

lemma same_key_scopes:
  assumes "verdict_key ck' = verdict_key ck" "ck_orgId ck' = ck_orgId ck"
  shows "scope_of ck' = scope_of ck"
proof -
  have t: "truthy a \<and> a = Some s \<longleftrightarrow> given_text a = s \<and> s \<noteq> []" for a s
    by (cases a) (auto simp: given_text_def)
  show ?thesis using assms unfolding scope_of_def t by (simp add: computeRevocationVerdictFingerprint_def)
qed

lemma same_key_verdict:
  assumes "verdict_key ck' = verdict_key ck" "ck_orgId ck' = ck_orgId ck"
  shows "database_verdict ck' db = None \<longleftrightarrow> database_verdict ck db = None"
proof -
  have ids: "ck_identityId ck' = ck_identityId ck" "ck_tokenId ck' = ck_tokenId ck" "ck_issuedAtMs ck' = ck_issuedAtMs ck"
    using assms(1) by (simp_all add: computeRevocationVerdictFingerprint_def)
  have "marker_blocks ck' m = marker_blocks ck m" for m
    using same_key_scopes [OF assms] ids by (simp add: marker_blocks_def split: option.split)
  moreover have "membership_deny ck' db = membership_deny ck db"
    using assms(2) ids by (simp add: membership_deny_def)
  ultimately show ?thesis using ids by (simp add: database_verdict_None_iff)
qed

lemma stampedI:
  "td_verdicts db (i, fp) = Some (ve, e) \<Longrightarrow> ve_v ve = Some s \<Longrightarrow> stamped db fl i s"
  "st \<in> set fl \<Longrightarrow> stage_stamp st = Some s \<Longrightarrow> ck_identityId (stage_check st) = i \<Longrightarrow> stamped db fl i s"
  unfolding stamped_def by blast+

lemma stampedE:
  assumes "stamped db fl i s"
  obtains (stored) fp ve e where "td_verdicts db (i, fp) = Some (ve, e)" "ve_v ve = Some s"
    | (flight) st where "st \<in> set fl" "stage_stamp st = Some s" "ck_identityId (stage_check st) = i"
  using assms unfolding stamped_def by blast

lemma promisedI:
  "ck_orgId ck = org_of (verdict_key ck) \<Longrightarrow> td_verdicts db (verdict_key ck) = Some (ve, e) \<Longrightarrow> ve_v ve = Some s \<Longrightarrow>
    ve_deny ve = None \<Longrightarrow> promised org_of db fl ck s"
  "ck_orgId ck = org_of (verdict_key ck) \<Longrightarrow> Answered ck' (Some s) a None \<in> set fl \<Longrightarrow> verdict_key ck' = verdict_key ck \<Longrightarrow>
    promised org_of db fl ck s"
  unfolding promised_def by blast+

lemma promisedE:
  assumes "promised org_of db fl ck s"
  obtains (stored) ve e where "ck_orgId ck = org_of (verdict_key ck)" "td_verdicts db (verdict_key ck) = Some (ve, e)"
      "ve_v ve = Some s" "ve_deny ve = None"
    | (flight) ck' a where "ck_orgId ck = org_of (verdict_key ck)" "Answered ck' (Some s) a None \<in> set fl"
      "verdict_key ck' = verdict_key ck"
  using assms unfolding promised_def by blast

text \<open>Fewer verdicts and fewer checks in flight hold fewer stamps and promises.\<close>

lemma stamped_mono:
  assumes "stamped db' fl' i s" "set fl' \<subseteq> set fl"
    "\<And>k x. td_verdicts db' k = Some x \<Longrightarrow> td_verdicts db k = Some x"
  shows "stamped db fl i s"
  using assms(1)
proof (cases rule: stampedE)
  case (stored fp ve e)
  then show ?thesis using assms(3) stampedI(1) by blast
next
  case (flight st)
  then show ?thesis using assms(2) stampedI(2) by blast
qed

lemma promised_mono:
  assumes "promised org_of db' fl' ck s" "set fl' \<subseteq> set fl"
    "\<And>k x. td_verdicts db' k = Some x \<Longrightarrow> td_verdicts db k = Some x"
  shows "promised org_of db fl ck s"
  using assms(1)
proof (cases rule: promisedE)
  case (stored ve e)
  then show ?thesis using assms(3) promisedI(1) by blast
next
  case (flight ck' a)
  then show ?thesis using assms(2) promisedI(2) by blast
qed

lemma promised_stamped:
  assumes "promised org_of db fl ck s"
  shows "stamped db fl (ck_identityId ck) s"
  using assms
proof (cases rule: promisedE)
  case (stored ve e)
  then show ?thesis using stampedI(1) by blast
next
  case (flight ck' a)
  then show ?thesis by (intro stampedI(2) [OF flight(2)]) simp_all
qed

lemma version_fits: "version_of db i = Some s \<Longrightarrow> stamp_fits db i s"
  by (simp add: stamp_fits_def)

text \<open>Time passes: a version that is gone was below the clock.\<close>

lemma stamp_fits_later:
  assumes "stamp_fits db i s" "version_keys_ok db" "td_now db \<le> td_now db'" "td_versions db' = td_versions db"
  shows "stamp_fits db' i s"
proof (cases "version_of db i")
  case None
  have "version_of db' i = None"
  proof (rule ccontr)
    assume "version_of db' i \<noteq> None"
    then obtain v where "key_get (td_now db') (td_versions db) i = Some v" using assms(4) by auto
    from key_get_mono [OF this assms(3)] None show False by simp
  qed
  then have "stamp_fits db' i s \<longleftrightarrow> s < td_now db'" by (simp only: stamp_fits_def option.case)
  moreover have "s < td_now db" using assms(1) by (simp only: stamp_fits_def None option.case)
  ultimately show ?thesis using assms(3) by linarith
next
  case (Some v)
  obtain e where e: "td_versions db i = Some (v, e)" using key_get_entry [OF Some] by blast
  then obtain t where t: "e = Some t" "v < t" using assms(2) unfolding version_keys_ok_def by blast
  have "s \<le> v" using assms(1) Some by (simp add: stamp_fits_def)
  then show ?thesis using e t assms(4) by (auto simp: stamp_fits_def key_get_def)
qed

text \<open>Every step that leaves the versions alone.\<close>

lemma cache_inv_keep:
  assumes inv: "cache_inv org_of db fl pend" and now: "td_now db \<le> td_now db'" and ver: "td_versions db' = td_versions db"
    and st: "\<And>i s. stamped db' fl' i s \<Longrightarrow> stamped db fl i s \<or> version_of db i = Some s \<and> td_now db' = td_now db"
    and org: "\<And>x. x \<in> set fl' \<Longrightarrow> (\<exists>y \<in> set fl. stage_check y = stage_check x) \<or> ck_orgId (stage_check x) = org_of (verdict_key (stage_check x))"
    and pr: "\<And>ck s. promised org_of db' fl' ck s \<Longrightarrow> promised org_of db fl ck s \<or> database_verdict ck db' = None"
    and pend: "set pend \<subseteq> set pend'"
    and keep: "\<And>ck. database_verdict ck db = None \<Longrightarrow> ck_identityId ck \<notin> set pend' \<Longrightarrow> database_verdict ck db' = None"
  shows "cache_inv org_of db' fl' pend'"
  unfolding cache_inv_def
proof (intro conjI allI impI ballI)
  note d = cache_invD [OF inv]
  show "version_keys_ok db'" using d(1) now ver by (auto simp: version_keys_ok_def)
  show "stamp_fits db' i s" if "stamped db' fl' i s" for i s
    using st [OF that] d(1) d(2) stamp_fits_later [OF _ d(1) now ver] version_fits by blast
  show "ck_orgId (stage_check x) = org_of (verdict_key (stage_check x))" if "x \<in> set fl'" for x
    using org [OF that] d(3) by metis
  show "database_verdict ck db' = None"
    if p: "promised org_of db' fl' ck s" and v: "version_of db' (ck_identityId ck) = Some s" and n: "ck_identityId ck \<notin> set pend'" for ck s
  proof -
    have "version_of db (ck_identityId ck) = Some s" using key_get_mono v now ver by metis
    then show ?thesis using pr [OF p] d(4) n pend keep by blast
  qed
qed

text \<open>Every step that gives an identity a version above all stamps.\<close>

lemma cache_inv_version:
  assumes inv: "cache_inv org_of db fl pend" and db': "db' = db\<lparr>td_versions := (td_versions db)(i \<mapsto> (w, Some t))\<rparr>"
    and w: "0 < w" "w < t" "td_now db < t" and above: "\<And>s. stamped db fl i s \<Longrightarrow> s < w" and pend: "set pend \<subseteq> insert i (set pend')"
  shows "cache_inv org_of db' fl pend'"
  unfolding cache_inv_def
proof (intro conjI allI impI ballI)
  note d = cache_invD [OF inv]
  have same: "stamped db' fl j s = stamped db fl j s" "promised org_of db' fl ck s = promised org_of db fl ck s" for j s ck
    by (simp_all add: db' stamped_def promised_def)
  have here: "version_of db' i = Some w" using w(3) by (simp add: db')
  have other: "version_of db' j = version_of db j" if "j \<noteq> i" for j using that by (simp add: db')
  show "version_keys_ok db'" using d(1) w by (auto simp: version_keys_ok_def db')
  show "stamp_fits db' j s" if "stamped db' fl j s" for j s
  proof (cases "j = i")
    case True
    then show ?thesis using that same above here by (force simp: stamp_fits_def)
  next
    case False
    have "stamp_fits db j s" using that same d(2) by simp
    then show ?thesis using other [OF False] by (simp add: stamp_fits_def db' split: option.splits)
  qed
  show "ck_orgId (stage_check x) = org_of (verdict_key (stage_check x))" if "x \<in> set fl" for x using d(3) that by simp
  show "database_verdict ck db' = None"
    if p: "promised org_of db' fl ck s" and v: "version_of db' (ck_identityId ck) = Some s" and n: "ck_identityId ck \<notin> set pend'" for ck s
  proof (cases "ck_identityId ck = i")
    case True
    then have "stamped db fl i s" using p same promised_stamped by metis
    then show ?thesis using above here v True by force
  next
    case False
    have "ck_identityId ck \<notin> set pend" using n False pend by auto
    then have "database_verdict ck db = None" using d(4) p v same(2) other [OF False] by metis
    moreover have "same_tables db db'" by (simp add: db')
    ultimately show ?thesis using database_verdict_same by metis
  qed
qed

section \<open>The steps keep the invariant\<close>

lemma verdict_keeps:
  assumes "database_verdict ck db = None" "\<And>m. active_marker db' (ck_identityId ck) m \<Longrightarrow> active_marker db (ck_identityId ck) m"
    "td_members db' (ck_identityId ck) = td_members db (ck_identityId ck)"
  shows "database_verdict ck db' = None"
  using assms by (auto simp: database_verdict_None_iff membership_deny_def)

lemma read_cache_version:
  "read_cache lu ck db = ReadDatabase v a \<Longrightarrow> v = None \<or> v = version_of db (ck_identityId ck)"
  by (auto simp: read_cache_def Let_def split: if_splits option.splits)

lemma inv_time:
  assumes inv: "cache_inv org_of db fl pend" and "0 \<le> d"
  shows "cache_inv org_of (db\<lparr>td_now := td_now db + d\<rparr>) fl pend"
proof (rule cache_inv_keep [OF inv])
  let ?db = "db\<lparr>td_now := td_now db + d\<rparr>"
  show "stamped db fl i s \<or> version_of db i = Some s \<and> td_now ?db = td_now db" if "stamped ?db fl i s" for i s
    using stamped_mono [OF that, of fl db] by simp
  show "promised org_of db fl ck s \<or> database_verdict ck ?db = None" if "promised org_of ?db fl ck s" for ck s
    using promised_mono [OF that, of fl db] by simp
  show "database_verdict ck ?db = None" if "database_verdict ck db = None" for ck
    by (rule verdict_keeps [OF that]) (use assms(2) in \<open>auto simp: active_marker_def\<close>)
qed (use assms(2) in auto)

lemma inv_read:
  assumes inv: "cache_inv org_of db fl pend" and org: "ck_orgId ck = org_of (verdict_key ck)"
    and r: "read_cache lu ck db = ReadDatabase v a"
  shows "cache_inv org_of db (Reading ck v a # fl) pend"
proof (rule cache_inv_keep [OF inv])
  show "stamped db fl i s \<or> version_of db i = Some s \<and> td_now db = td_now db" if "stamped db (Reading ck v a # fl) i s" for i s
    using that
  proof (cases rule: stampedE)
    case (flight st)
    then show ?thesis using read_cache_version [OF r] stampedI(2) [of st fl] by auto
  qed (blast intro: stampedI)
  show "promised org_of db fl ck' s \<or> database_verdict ck' db = None" if "promised org_of db (Reading ck v a # fl) ck' s" for ck' s
    using that by (cases rule: promisedE) (auto intro: promisedI)
qed (use org in auto)

text \<open>The same checks in flight, of which one has moved on.\<close>

lemma inv_move:
  assumes inv: "cache_inv org_of db (xs @ x # ys) pend" and ck: "stage_check y = stage_check x"
    and st: "\<And>s. stage_stamp y = Some s \<Longrightarrow> stage_stamp x = Some s \<or> version_of db (ck_identityId (stage_check x)) = Some s"
    and pr: "\<And>ck s a. y = Answered ck s a None \<Longrightarrow> database_verdict ck db = None"
  shows "cache_inv org_of db (xs @ y # ys) pend"
proof (rule cache_inv_keep [OF inv])
  show "stamped db (xs @ x # ys) i s \<or> version_of db i = Some s \<and> td_now db = td_now db"
    if "stamped db (xs @ y # ys) i s" for i s
    using that
  proof (cases rule: stampedE)
    case (flight z)
    then show ?thesis
      using st [of s] ck stampedI(2) [of z "xs @ x # ys"] stampedI(2) [of x "xs @ x # ys"] by (cases "z = y") auto
  qed (blast intro: stampedI)
  show "(\<exists>z \<in> set (xs @ x # ys). stage_check z = stage_check w) \<or> ck_orgId (stage_check w) = org_of (verdict_key (stage_check w))"
    if "w \<in> set (xs @ y # ys)" for w
    using that ck by auto
  show "promised org_of db (xs @ x # ys) ck s \<or> database_verdict ck db = None"
    if p: "promised org_of db (xs @ y # ys) ck s" for ck s
    using p
  proof (cases rule: promisedE)
    case (stored ve e)
    then show ?thesis using promisedI(1) by blast
  next
    case (flight ck' a)
    show ?thesis
    proof (cases "Answered ck' (Some s) a None = y")
      case True
      have "ck_orgId ck' = org_of (verdict_key ck')"
        using cache_invD(3) [OF inv, of x] ck True [symmetric] by simp
      then have "ck_orgId ck' = ck_orgId ck" using flight(1,3) by (simp only:)
      then show ?thesis using pr [OF True [symmetric]] same_key_verdict [OF flight(3), of db] by simp
    next
      case False
      then have "Answered ck' (Some s) a None \<in> set (xs @ x # ys)" using flight(2) by auto
      then show ?thesis using promisedI(2) [of ck org_of ck'] flight(1,3) by blast
    qed
  qed
qed auto

lemma inv_seed:
  assumes inv: "cache_inv org_of db fl pend" and none: "version_of db i = None"
  shows "cache_inv org_of (db\<lparr>td_versions := (td_versions db)(i \<mapsto> (td_now db, Some (td_now db + IdentityRevocationVersionInSeconds * 1000)))\<rparr>) fl pend"
proof (rule cache_inv_version [OF inv refl])
  have "version_keys_ok db" using cache_invD(1) [OF inv] .
  then show "0 < td_now db" by (simp add: version_keys_ok_def)
  show "s < td_now db" if "stamped db fl i s" for s
    using cache_invD(2) [OF inv that] by (simp only: stamp_fits_def none option.case)
qed (auto simp: IdentityRevocationVersionInSeconds_def)

lemma inv_resolve:
  assumes inv: "cache_inv org_of db (xs @ Reading ck v a # ys) pend" and r: "resolve_version lu ck v a db = ((s, a'), db')"
  shows "cache_inv org_of db' (xs @ Resolved ck s a' # ys) pend"
proof (cases "a \<and> v = None \<and> lu_version lu")
  case False
  then have "db' = db \<and> (s = v \<or> s = None)"
    using r by (auto simp: resolve_version_def split: if_splits option.splits)
  then show ?thesis using inv_move [OF inv, of "Resolved ck s a'"] by auto
next
  case True
  then have g: "getOrSeedRevocationVersion (ck_identityId ck) db = (s, db')"
    using r by (auto simp: resolve_version_def split: prod.splits)
  show ?thesis
  proof (cases "version_of db (ck_identityId ck)")
    case (Some w)
    then have "db' = db \<and> s = version_of db (ck_identityId ck)" using g by (auto simp: getOrSeedRevocationVersion_def)
    then show ?thesis using inv_move [OF inv, of "Resolved ck s a'"] by simp
  next
    case None
    then have db': "db' = db\<lparr>td_versions := (td_versions db)(ck_identityId ck \<mapsto>
        (td_now db, Some (td_now db + IdentityRevocationVersionInSeconds * 1000)))\<rparr>"
      and s: "s = version_of db' (ck_identityId ck)"
      using g by (auto simp: getOrSeedRevocationVersion_def setItemWithExpiryNX_def setItemWithExpiry_def Let_def)
    show ?thesis
      using inv_move [OF inv_seed [OF inv None, folded db'], of "Resolved ck s a'"] s by simp
  qed
qed

lemma inv_answer:
  assumes inv: "cache_inv org_of db (xs @ Resolved ck s a # ys) pend"
  shows "cache_inv org_of db (xs @ Answered ck s a (database_verdict ck db) # ys) pend"
  by (rule inv_move [OF inv]) auto

lemma inv_drop:
  assumes inv: "cache_inv org_of db (xs @ x # ys) pend"
  shows "cache_inv org_of db (xs @ ys) pend"
proof (rule cache_inv_keep [OF inv])
  show "stamped db (xs @ x # ys) i s \<or> version_of db i = Some s \<and> td_now db = td_now db" if "stamped db (xs @ ys) i s" for i s
    using stamped_mono [OF that, of "xs @ x # ys"] by auto
  show "promised org_of db (xs @ x # ys) ck s \<or> database_verdict ck db = None" if "promised org_of db (xs @ ys) ck s" for ck s
    using promised_mono [OF that, of "xs @ x # ys"] by auto
qed auto

lemma inv_store:
  assumes inv: "cache_inv org_of db (xs @ Answered ck s a r # ys) pend"
    and v: "ve_v v = s \<or> ve_v v = None" "ve_deny v = None \<longrightarrow> r = None"
  shows "cache_inv org_of (db\<lparr>td_verdicts := setItemWithExpiry (td_now db) (verdict_key ck) e v (td_verdicts db)\<rparr>) (xs @ ys) pend"
proof (rule cache_inv_keep [OF inv])
  let ?db = "db\<lparr>td_verdicts := setItemWithExpiry (td_now db) (verdict_key ck) e v (td_verdicts db)\<rparr>" and ?fl = "xs @ Answered ck s a r # ys"
  have other: "td_verdicts ?db k = td_verdicts db k" if "k \<noteq> verdict_key ck" for k
    using that by (simp add: setItemWithExpiry_def)
  have here: "td_verdicts ?db (verdict_key ck) = Some (v, Some (td_now db + e * 1000))"
    by (simp add: setItemWithExpiry_def)
  show "stamped db ?fl i t \<or> version_of db i = Some t \<and> td_now ?db = td_now db" if "stamped ?db (xs @ ys) i t" for i t
    using that
  proof (cases rule: stampedE)
    case (stored fp ve d)
    show ?thesis
    proof (cases "(i, fp) = verdict_key ck")
      case True
      then have "ve = v" using stored(1) here by simp
      then show ?thesis using True stored(2) v(1) by (intro disjI1 stampedI(2) [of "Answered ck s a r"]) auto
    next
      case False
      then show ?thesis using stored other stampedI(1) by metis
    qed
  next
    case (flight st)
    then show ?thesis by (intro disjI1 stampedI(2) [of st]) auto
  qed
  show "promised org_of db ?fl ck' t \<or> database_verdict ck' ?db = None" if "promised org_of ?db (xs @ ys) ck' t" for ck' t
    using that
  proof (cases rule: promisedE)
    case (stored ve d)
    show ?thesis
    proof (cases "verdict_key ck' = verdict_key ck")
      case True
      then have "ve = v" using stored(2) here by simp
      then have "Answered ck (Some t) a None \<in> set ?fl" using stored(3,4) v by auto
      then show ?thesis using promisedI(2) [of ck' org_of ck] stored(1) True by metis
    next
      case False
      then show ?thesis using stored other promisedI(1) by metis
    qed
  next
    case (flight ck'' b)
    then show ?thesis by (intro disjI1 promisedI(2) [of _ _ ck'']) auto
  qed
  show "database_verdict ck' ?db = None" if "database_verdict ck' db = None" for ck'
    using that database_verdict_same [of db ?db ck'] by simp
qed auto

lemma inv_write:
  assumes inv: "cache_inv org_of db (xs @ Answered ck s a r # ys) pend"
  shows "cache_inv org_of (write_verdict lu ck s a r db) (xs @ ys) pend"
  using inv_drop [OF inv] inv_store [OF inv]
  by (simp add: write_verdict_def Let_def split: option.split)

text \<open>A change of the tables that is followed by a bump, and one that only takes records away.\<close>

lemma inv_change:
  assumes inv: "cache_inv org_of db fl pend" and same: "td_now db' = td_now db" "td_versions db' = td_versions db"
      "td_verdicts db' = td_verdicts db" and sub: "set pend \<subseteq> set pend'"
    and keep: "\<And>ck. ck_identityId ck \<notin> set pend' \<Longrightarrow> database_verdict ck db = None \<Longrightarrow> database_verdict ck db' = None"
  shows "cache_inv org_of db' fl pend'"
proof (rule cache_inv_keep [OF inv])
  show "stamped db fl i s \<or> version_of db i = Some s \<and> td_now db' = td_now db" if "stamped db' fl i s" for i s
    using stamped_mono [OF that, of fl db] same(3) by simp
  show "promised org_of db fl ck s \<or> database_verdict ck db' = None" if "promised org_of db' fl ck s" for ck s
    using promised_mono [OF that, of fl db] same(3) by simp
qed (use same sub keep in auto)

lemma insert_tables [simp]:
  "td_now (insertRevocation k i e t scope db) = td_now db" "td_versions (insertRevocation k i e t scope db) = td_versions db"
  "td_verdicts (insertRevocation k i e t scope db) = td_verdicts db" "td_members (insertRevocation k i e t scope db) = td_members db"
  "td_signed (insertRevocation k i e t scope db) = td_signed db" "td_uses (insertRevocation k i e t scope db) = td_uses db"
  "td_rows (insertRevocation k i e t scope db) = td_rows db" "td_trusted (insertRevocation k i e t scope db) = td_trusted db"
  "td_ipcache (insertRevocation k i e t scope db) = td_ipcache db"
  "td_identities (insertRevocation k i e t scope db) = td_identities db" "td_orgs (insertRevocation k i e t scope db) = td_orgs db"
  by (simp_all add: insertRevocation_def)

lemma insert_other_identity:
  "active_marker (insertRevocation k i e t scope db) j m \<Longrightarrow> j \<noteq> i \<Longrightarrow> active_marker db j m"
  by (auto simp: active_marker_def insertRevocation_def split: if_splits)

lemma inv_revoke: "cache_inv org_of db fl pend \<Longrightarrow> cache_inv org_of (insertRevocation k i e t scope db) fl (i # pend)"
  by (erule inv_change) (auto intro: insert_other_identity elim!: verdict_keeps)

lemma inv_restore: "cache_inv org_of db fl pend \<Longrightarrow> cache_inv org_of (deleteRevocationsByScope i scope db) fl (i # pend)"
  by (erule inv_change) (auto simp: deleteRevocationsByScope_def active_marker_def elim!: verdict_keeps)

lemma inv_member: "cache_inv org_of db fl pend \<Longrightarrow> cache_inv org_of (db\<lparr>td_members := (td_members db)(i := m)\<rparr>) fl (i # pend)"
  by (erule inv_change) (auto simp: active_marker_def elim!: verdict_keeps)

lemma inv_prune:
  "cache_inv org_of db fl pend \<Longrightarrow> cache_inv org_of (db\<lparr>td_revocations := filter P (td_revocations db)\<rparr>) fl pend"
  by (erule inv_change) (auto simp: active_marker_def elim!: verdict_keeps)

lemma inv_other:
  assumes "cache_inv org_of db fl pend" "td_now db' = td_now db" "td_revocations db' = td_revocations db"
    "td_members db' = td_members db" "td_versions db' = td_versions db" "td_verdicts db' = td_verdicts db"
  shows "cache_inv org_of db' fl pend"
  by (rule inv_change [OF assms(1)]) (use assms in \<open>auto simp: active_marker_def elim!: verdict_keeps\<close>)

lemma inv_forget:
  assumes inv: "cache_inv org_of db fl pend"
  shows "cache_inv org_of (db\<lparr>td_verdicts := (td_verdicts db)(k := None)\<rparr>) fl pend"
proof (rule cache_inv_keep [OF inv])
  let ?db = "db\<lparr>td_verdicts := (td_verdicts db)(k := None)\<rparr>"
  have less: "td_verdicts ?db k' = Some x \<Longrightarrow> td_verdicts db k' = Some x" for k' x by (simp split: if_splits)
  show "stamped db fl i s \<or> version_of db i = Some s \<and> td_now ?db = td_now db" if "stamped ?db fl i s" for i s
    using stamped_mono [OF that subset_refl less] by blast
  show "promised org_of db fl ck s \<or> database_verdict ck ?db = None" if "promised org_of ?db fl ck s" for ck s
    using promised_mono [OF that subset_refl less] by blast
  show "database_verdict ck ?db = None" if "database_verdict ck db = None" for ck
    using that database_verdict_same [of db ?db ck] by simp
qed auto

lemma inv_bump:
  assumes inv: "cache_inv org_of db fl pend" and room: "has_room db i" and lu: "lu_bump lu"
    and pend: "set pend \<subseteq> insert i (set pend')"
  shows "cache_inv org_of (bumpRevocationVersion lu i db) fl pend'"
proof -
  note d = cache_invD(1) [OF inv]
  define w where "w = (case version_of db i of None \<Rightarrow> 1 + td_now db | Some v \<Rightarrow> v + 1)"
  have now: "0 < td_now db" using d by (simp add: version_keys_ok_def)
  have pos: "0 < v" if "version_of db i = Some v" for v
    using key_get_entry [OF that] d unfolding version_keys_ok_def by blast
  have up: "bumpRevocationVersion lu i db =
      db\<lparr>td_versions := (td_versions db)(i \<mapsto> (w, Some (td_now db + IdentityRevocationVersionInSeconds * 1000)))\<rparr>"
    using lu pos by (auto simp: bumpRevocationVersion_def incrementSeededWithExpiry_def Let_def w_def split: option.split)
  have "0 < w \<and> w < td_now db + IdentityRevocationVersionInSeconds * 1000"
    using room now pos by (auto simp: w_def has_room_def IdentityRevocationVersionInSeconds_def split: option.splits)
  moreover have "s < w" if "stamped db fl i s" for s
    using cache_invD(2) [OF inv that] by (auto simp: w_def stamp_fits_def split: option.splits)
  ultimately show ?thesis
    by (intro cache_inv_version [OF inv up]) (use pend in \<open>auto simp: IdentityRevocationVersionInSeconds_def\<close>)
qed

lemma cache_run_inv: "cache_run org_of db fl pend \<Longrightarrow> cache_inv org_of db fl pend"
proof (induction rule: cache_run.induct)
  case (run_start db)
  then show ?case by (simp add: cache_inv_def version_keys_ok_def stamped_def promised_def)
next
  case (run_bump db fl xs i ys lu)
  then show ?case by (intro inv_bump [OF run_bump.IH]) auto
qed (simp_all add: inv_time inv_read inv_resolve inv_answer inv_write inv_revoke inv_restore inv_member inv_prune inv_forget inv_other)

text \<open>What the cache answers to allow is what the database would answer.\<close>

lemma cached_allow:
  assumes "cache_inv org_of db fl pend" "ck_orgId ck = org_of (verdict_key ck)" "ck_identityId ck \<notin> set pend"
    and "read_cache lu ck db = Decided None"
  shows "database_verdict ck db = None"
proof -
  obtain ve s where ve: "key_get (td_now db) (td_verdicts db) (verdict_key ck) = Some ve" "ve_deny ve = None" "ve_v ve = Some s"
    "version_of db (ck_identityId ck) = Some s"
    using assms(4) by (auto simp: read_cache_def Let_def split: if_splits option.splits)
  obtain e where "td_verdicts db (verdict_key ck) = Some (ve, e)" using key_get_entry [OF ve(1)] by blast
  then show ?thesis using cache_invD(4) [OF assms(1)] promisedI(1) [of ck org_of db] ve assms(2,3) by blast
qed

text \<open>
  C4: However checks and revocations interleave, and whatever of the cache fails: once every revocation, change of
  membership and restoration of an identity has bumped its version, a token that the check lets pass is one that the
  tables let pass, no record that is active blocks it and its membership is active.
\<close>

theorem cached_check_allows_only_live_tokens:
  assumes "cache_run org_of db fl pend" "ck_identityId ck \<notin> set pend" "ck_orgId ck = org_of (verdict_key ck)"
    and "check_token lu ck db = (None, db')"
  shows "(\<forall>m. active_marker db (ck_identityId ck) m \<longrightarrow> \<not> marker_blocks ck m) \<and> membership_deny ck db = None"
proof (cases "read_cache lu ck db")
  case (Decided r)
  then have "read_cache lu ck db = Decided None" using assms(4) by (simp add: check_token_def)
  then show ?thesis
    using cached_allow [OF cache_run_inv [OF assms(1)] assms(3,2)] by (simp add: database_verdict_None_iff)
next
  case (ReadDatabase v a)
  obtain s a' db1 where r: "resolve_version lu ck v a db = ((s, a'), db1)" by (metis prod.collapse)
  then have "database_verdict ck db1 = None"
    using assms(4) ReadDatabase by (simp add: check_token_def Let_def)
  then show ?thesis using database_verdict_same [OF resolve_same [OF r], of ck] by (simp add: database_verdict_None_iff)
qed

text \<open>A check from beginning to end is a run of its stages.\<close>

lemma run_check:
  assumes run: "cache_run org_of db [] pend" and org: "ck_orgId ck = org_of (verdict_key ck)"
  shows "cache_run org_of (snd (check_token lu ck db)) [] pend"
proof (cases "read_cache lu ck db")
  case (Decided x)
  then show ?thesis using run by (simp add: check_token_def)
next
  case (ReadDatabase v a)
  obtain s a' db1 where res: "resolve_version lu ck v a db = ((s, a'), db1)" by (metis prod.collapse)
  have "cache_run org_of db [Reading ck v a] pend" using run_read [OF run org ReadDatabase] .
  then have "cache_run org_of db1 [Resolved ck s a'] pend" using run_resolve [of org_of db "[]" ck v a "[]"] res by force
  then have "cache_run org_of db1 [Answered ck s a' (database_verdict ck db1)] pend"
    using run_answer [of org_of db1 "[]" ck s a' "[]"] by force
  then have "cache_run org_of (write_verdict lu ck s a' (database_verdict ck db1) db1) [] pend"
    using run_write [of org_of db1 "[]" ck s a' _ "[]"] by force
  then show ?thesis using ReadDatabase res by (simp add: check_token_def Let_def)
qed

definition sample_cache_start :: token_db where
  "sample_cache_start = \<lparr>td_now = 1000000, td_signed = [], td_identities = [], td_orgs = [], td_rows = [], td_revocations = [],
     td_members = (\<lambda>i o'. Some True), td_trusted = (\<lambda>i m. None), td_uses = Map.empty, td_versions = Map.empty,
     td_verdicts = Map.empty, td_ipcache = Map.empty\<rparr>"

definition sample_cache_check :: "string \<Rightarrow> token_check" where
  "sample_cache_check t = \<lparr>ck_tokenId = t, ck_identityId = ''bot'', ck_issuedAtMs = 900000, ck_clientSecretId = None,
     ck_authMethod = Some ''token-auth'', ck_orgId = Some ''org''\<rparr>"

text \<open>One token is checked, then another is revoked: the verdict of the first is stale and is asked for again.\<close>

definition sample_cache_end :: token_db where
  "sample_cache_end = bumpRevocationVersion fine ''bot'' (insertRevocation ''t9'' ''bot'' 9000000 None None
     (snd (check_token fine (sample_cache_check ''t1'') sample_cache_start)))"

lemma sample_cache_run: "cache_run (\<lambda>k. Some ''org'') sample_cache_end [] []"
proof -
  let ?db = "snd (check_token fine (sample_cache_check ''t1'') sample_cache_start)"
  have "cache_run (\<lambda>k. Some ''org'') sample_cache_start [] []" by (rule run_start) (simp_all add: sample_cache_start_def)
  then have "cache_run (\<lambda>k. Some ''org'') ?db [] []" by (rule run_check) (simp add: sample_cache_check_def)
  then have "cache_run (\<lambda>k. Some ''org'') (insertRevocation ''t9'' ''bot'' 9000000 None None ?db) [] [''bot'']" by (rule run_revoke)
  moreover have "has_room (insertRevocation ''t9'' ''bot'' 9000000 None None ?db) ''bot''" by code_simp
  ultimately show ?thesis
    using run_bump [of _ _ "[]" "[]" "''bot''" "[]" fine] unfolding sample_cache_end_def by (simp add: fine_def)
qed

theorem cached_check_allows_only_live_tokens_witness:
  "fst (check_token fine (sample_cache_check ''t9'') sample_cache_end) = Some DenyToken \<and>
   membership_deny (sample_cache_check ''t1'') sample_cache_end = None"
proof
  show "fst (check_token fine (sample_cache_check ''t9'') sample_cache_end) = Some DenyToken" by code_simp
  have "fst (check_token fine (sample_cache_check ''t1'') sample_cache_end) = None" by code_simp
  then have "check_token fine (sample_cache_check ''t1'') sample_cache_end = (None, snd (check_token fine (sample_cache_check ''t1'') sample_cache_end))"
    by (metis prod.collapse)
  then show "membership_deny (sample_cache_check ''t1'') sample_cache_end = None"
    using cached_check_allows_only_live_tokens [OF sample_cache_run, of "sample_cache_check ''t1''"]
    by (simp add: sample_cache_check_def)
qed

end
