(* ===== verification/TokenService.thy ===== *)
theory TokenService
  imports TokenCache
begin

text \<open>
  The operations of access tokens (\<open>identity-access-token-service.ts\<close>): issuing, checking a request, renewing
  and revoking, and revoking a stored token by its identifier (\<open>revokeTokenAuthToken\<close> of
  \<open>identity-token-auth-service.ts\<close>). Each returns a result or an error together with the state it leaves.

  Random identifiers are arguments, and the permissions an administrator needs are checked before the parts modelled
  here. \<open>te_ceiling\<close> is the configured maximal age, \<open>te_enforcedAt\<close> the day from which tokens without an expiry grow
  old, and \<open>te_ips\<close> the library for addresses.
\<close>

record token_env =
  te_ceiling :: int
  te_enforcedAt :: int
  te_ips :: ip_library

record issue_input =
  is_identityId :: string
  is_identityName :: string
  is_authMethod :: string
  is_orgId :: string
  is_rootOrgId :: string
  is_parentOrgId :: string
  is_subOrganizationId :: "string option"
  is_accessTokenTTL :: int
  is_accessTokenMaxTTL :: int
  is_accessTokenNumUsesLimit :: int
  is_accessTokenPeriod :: int
  is_accessTokenTrustedIps :: "trusted_ip list"
  is_clientSecretId :: "string option"
  is_identityAuth :: "string option"
  is_persistToPg :: bool

section \<open>Issuing\<close>

definition setUsesRemaining :: "string \<Rightarrow> string \<Rightarrow> int \<Rightarrow> int \<Rightarrow> token_db \<Rightarrow> token_db" where
  "setUsesRemaining identityId tokenId usesRemaining ttlSeconds db =
     db\<lparr>td_uses := setItemWithExpiry (td_now db) (identityId, tokenId) ttlSeconds usesRemaining (td_uses db)\<rparr>"

text \<open>Signing hands the token out.\<close>

definition sign :: "sign_input \<Rightarrow> token_db \<Rightarrow> claims \<times> token_db" where
  "sign input db = (let c = signIdentityAccessToken (now_seconds db) input in (c, db\<lparr>td_signed := c # td_signed db\<rparr>))"

definition issue_row :: "string \<Rightarrow> int \<Rightarrow> int \<Rightarrow> int \<Rightarrow> issue_input \<Rightarrow> token_db \<Rightarrow> token_row" where
  "issue_row newId ttl requestedMaxTTL period input db =
     \<lparr>tr_id = newId, tr_identityId = is_identityId input, tr_isAccessTokenRevoked = False, tr_accessTokenTTL = ttl,
      tr_accessTokenMaxTTL = requestedMaxTTL, tr_accessTokenPeriod = period,
      tr_accessTokenNumUsesLimit = is_accessTokenNumUsesLimit input, tr_authMethod = is_authMethod input,
      tr_subOrganizationId = is_subOrganizationId input, tr_createdAt = td_now db\<rparr>"

text \<open>What a new token carries: the periodic mode has the period as its lifetime and no total.\<close>

definition issue_source :: "issue_input \<Rightarrow> int \<Rightarrow> renew_source" where
  "issue_source input creationEpoch =
     (let (requestedTTL, requestedMaxTTL) =
            resolveTtlInputs (is_accessTokenPeriod input) (is_accessTokenTTL input) (is_accessTokenMaxTTL input)
      in \<lparr>rs_authMethod = is_authMethod input, rs_accessTokenTTL = requestedTTL, rs_accessTokenMaxTTL = requestedMaxTTL,
          rs_accessTokenPeriod = is_accessTokenPeriod input, rs_creationEpoch = creationEpoch,
          rs_identityName = is_identityName input, rs_orgId = is_orgId input, rs_rootOrgId = is_rootOrgId input,
          rs_parentOrgId = is_parentOrgId input, rs_clientSecretId = given_text (is_clientSecretId input),
          rs_numUsesLimit = is_accessTokenNumUsesLimit input, rs_identityAuth = is_identityAuth input\<rparr>)"

definition issueIdentityAccessToken :: "token_env \<Rightarrow> string \<Rightarrow> issue_input \<Rightarrow> token_db \<Rightarrow> (claims \<times> token_row) \<times> token_db" where
  "issueIdentityAccessToken env newId input db =
     (let creationEpoch = now_seconds db;
          src = issue_source input creationEpoch;
          ttl = computeIssuedTtl (te_ceiling env) (rs_accessTokenTTL src) (rs_accessTokenMaxTTL src) creationEpoch creationEpoch;
          numUsesLimit = is_accessTokenNumUsesLimit input;
          row = issue_row newId ttl (rs_accessTokenMaxTTL src) (is_accessTokenPeriod input) input db;
          db1 = (if is_persistToPg input then db\<lparr>td_rows := td_rows db @ [row]\<rparr> else db);
          (accessToken, db2) = sign
            \<lparr>si_identityAccessTokenId = newId, si_identityId = is_identityId input, si_numUsesLimit = numUsesLimit,
             si_ipRestrictionEnabled = hasNonWildcardTrustedIps (Some (is_accessTokenTrustedIps input)), si_ttlSeconds = ttl,
             si_source = src\<rparr> db1;
          db3 = (if numUsesLimit > 0 then setUsesRemaining (is_identityId input) newId numUsesLimit (te_ceiling env) db2 else db2)
      in ((accessToken, row), db3))"

section \<open>Where the context of a token comes from\<close>

text \<open>The row of a token from before the claims were complete, joined with its identity.\<close>

definition findTokenRow :: "string \<Rightarrow> token_db \<Rightarrow> (token_row \<times> identity_row) option" where
  "findTokenRow i db = (case find (\<lambda>r. tr_id r = i) (td_rows db) of
       None \<Rightarrow> None
     | Some row \<Rightarrow> map_option (\<lambda>x. (row, x)) (find (\<lambda>x. ir_id x = tr_identityId row) (td_identities db)))"

definition loadLegacyTokenSource :: "claims \<Rightarrow> token_db \<Rightarrow> token_error + renew_source" where
  "loadLegacyTokenSource decoded db = (case findTokenRow (jw_identityAccessTokenId decoded) db of
       None \<Rightarrow> Inl UnknownLegacyToken
     | Some (row, idn) \<Rightarrow>
         if tr_isAccessTokenRevoked row then Inl UnknownLegacyToken
         else (let scopeOrgId = (if truthy (tr_subOrganizationId row) then the (tr_subOrganizationId row) else ir_orgId idn)
               in case find (\<lambda>x. or_id x = scopeOrgId) (td_orgs db) of
                 None \<Rightarrow> Inl OrganizationMissing
               | Some org \<Rightarrow>
                   (let rootOrgId = (if truthy (or_rootOrgId org) then the (or_rootOrgId org) else or_id org);
                        parentOrgId = (if truthy (or_parentOrgId org) then the (or_parentOrgId org) else rootOrgId)
                    in Inr \<lparr>rs_authMethod = tr_authMethod row, rs_accessTokenTTL = tr_accessTokenTTL row,
                         rs_accessTokenMaxTTL = tr_accessTokenMaxTTL row, rs_accessTokenPeriod = tr_accessTokenPeriod row,
                         rs_creationEpoch = tr_createdAt row div 1000,
                         rs_identityName = ir_name idn,
                         rs_orgId = (if truthy (jw_orgId decoded) then the (jw_orgId decoded) else scopeOrgId),
                         rs_rootOrgId = (case jw_rootOrgId decoded of Some r \<Rightarrow> r | None \<Rightarrow> rootOrgId),
                         rs_parentOrgId = (case jw_parentOrgId decoded of Some p \<Rightarrow> p | None \<Rightarrow> parentOrgId),
                         rs_clientSecretId = given_text (jw_clientSecretId decoded),
                         rs_numUsesLimit = tr_accessTokenNumUsesLimit row, rs_identityAuth = jw_identityAuth decoded\<rparr>)))"

definition token_source :: "claims \<Rightarrow> token_db \<Rightarrow> token_error + renew_source" where
  "token_source c db = (if hasFullRenewClaims c then Inr (claims_source c) else loadLegacyTokenSource c db)"

definition check_of :: "claims \<Rightarrow> renew_source \<Rightarrow> token_check" where
  "check_of c source = \<lparr>ck_tokenId = token_id c, ck_identityId = jw_identityId c, ck_issuedAtMs = the (jw_iat c) * 1000,
     ck_clientSecretId = Some (rs_clientSecretId source), ck_authMethod = Some (rs_authMethod source),
     ck_orgId = Some (rs_orgId source)\<rparr>"

section \<open>Checking a request\<close>

text \<open>\<open>jwt.verify\<close>: signed here and not expired; expiry is compared in whole seconds.\<close>

definition jwt_verify :: "claims \<Rightarrow> token_db \<Rightarrow> bool" where
  "jwt_verify c db \<longleftrightarrow> c \<in> set (td_signed db) \<and> (case jw_exp c of None \<Rightarrow> True | Some e \<Rightarrow> now_seconds db < e)"

text \<open>The count of uses: what the counter says before, and after it went down by one.\<close>

definition count_use :: "token_env \<Rightarrow> claims \<Rightarrow> renew_source \<Rightarrow> token_db \<Rightarrow> (token_error + unit) \<times> token_db" where
  "count_use env c source db =
     (let tokenId = token_id c;
          remainingFromState = key_get (td_now db) (td_uses db) (jw_identityId c, tokenId);
          numUsesLimit = (case jw_numUsesLimit c of Some n \<Rightarrow> n | None \<Rightarrow> rs_numUsesLimit source)
      in if (case remainingFromState of None \<Rightarrow> False | Some r \<Rightarrow> r \<le> 0) then (Inl UsageLimitReached, db)
         else if numUsesLimit > 0 then
           (case remainingFromState of
              None \<Rightarrow> (Inr (), setUsesRemaining (jw_identityId c) tokenId (numUsesLimit - 1) (te_ceiling env) db)
            | Some _ \<Rightarrow>
                (case incrementBy (td_now db) (jw_identityId c, tokenId) (- 1) (td_uses db) of
                   (remaining, uses) \<Rightarrow> if remaining < 0 then (Inl UsageLimitReached, db\<lparr>td_uses := uses\<rparr>)
                     else (Inr (), db\<lparr>td_uses := uses\<rparr>)))
         else (Inr (), db))"

text \<open>The trusted addresses, read through the cache (\<open>withCache\<close>).\<close>

definition cached_trusted_ips :: "string \<Rightarrow> string \<Rightarrow> token_db \<Rightarrow> trusted_ip list option \<times> token_db" where
  "cached_trusted_ips identityId authMethod db =
     (case key_get (td_now db) (td_ipcache db) (identityId, authMethod) of
        Some ips \<Rightarrow> (ips, db)
      | None \<Rightarrow> (let ips = td_trusted db identityId authMethod
                 in (ips, db\<lparr>td_ipcache := setItemWithExpiry (td_now db) (identityId, authMethod) IdentityTrustedIpsInSeconds ips
                      (td_ipcache db)\<rparr>)))"

definition check_address :: "token_env \<Rightarrow> claims \<Rightarrow> renew_source \<Rightarrow> string option \<Rightarrow> token_db \<Rightarrow> (token_error + unit) \<times> token_db" where
  "check_address env c source ipAddress db =
     (if \<not> truthy ipAddress then (Inr (), db)
      else case cached_trusted_ips (jw_identityId c) (rs_authMethod source) db of
        (trustedIps, db') \<Rightarrow>
          if hasNonWildcardTrustedIps trustedIps \<and> \<not> checkIPAgainstBlocklist (te_ips env) (the ipAddress) (the trustedIps)
          then (Inl IpNotAllowed, db') else (Inr (), db'))"

text \<open>One stage after the other; an error ends the call and keeps the writes made so far.\<close>

definition andThen :: "('e + 'a) \<times> 's \<Rightarrow> ('a \<Rightarrow> 's \<Rightarrow> ('e + 'b) \<times> 's) \<Rightarrow> ('e + 'b) \<times> 's" where
  "andThen r f = (case r of (Inl e, s) \<Rightarrow> (Inl e, s) | (Inr x, s) \<Rightarrow> f x s)"

lemma andThen_simps [simp]: "andThen (Inl e, s) f = (Inl e, s)" "andThen (Inr x, s) f = f x s"
  by (simp_all add: andThen_def)

lemma andThen_Inr_iff: "andThen r f = (Inr y, s') \<longleftrightarrow> (\<exists>x s. r = (Inr x, s) \<and> f x s = (Inr y, s'))"
  by (auto simp: andThen_def split: prod.splits sum.splits)

definition fnValidateIdentityAccessTokenFast ::
  "token_env \<Rightarrow> luck \<Rightarrow> claims \<Rightarrow> string option \<Rightarrow> token_db \<Rightarrow> (token_error + renew_source) \<times> token_db" where
  "fnValidateIdentityAccessTokenFast env lu rawToken ipAddress db =
     (case assertMinimalRenewClaims rawToken of
        Inl e \<Rightarrow> (Inl e, db)
      | Inr c \<Rightarrow>
          (case token_source c db of
             Inl e \<Rightarrow> (Inl e, db)
           | Inr source \<Rightarrow>
               if hasLegacyTokenWithoutExpExceededMaxAge (jw_exp c) (te_enforcedAt env) (te_ceiling env) (td_now db)
               then (Inl MaxAgeExceeded, db)
               else andThen (assertTokenIsNotRevoked lu FailedToAuthorize (check_of c source) db) (\<lambda>_ db1.
                    andThen (count_use env c source db1) (\<lambda>_ db2.
                    andThen (check_address env c source ipAddress db2) (\<lambda>_ db3. (Inr source, db3))))))"

text \<open>A request with a token: verification first (\<open>inject-identity.ts\<close>).\<close>

definition authenticate ::
  "token_env \<Rightarrow> luck \<Rightarrow> claims \<Rightarrow> string option \<Rightarrow> token_db \<Rightarrow> (token_error + renew_source) \<times> token_db" where
  "authenticate env lu c ipAddress db =
     (if \<not> jwt_verify c db then (Inl InvalidJwt, db)
      else if jw_authTokenType c \<noteq> AuthTokenType_IDENTITY_ACCESS_TOKEN then (Inl NotAnIdentityToken, db)
      else fnValidateIdentityAccessTokenFast env lu c ipAddress db)"

section \<open>Renewing\<close>

definition verifyAccessTokenJwt :: "claims \<Rightarrow> token_db \<Rightarrow> token_error + claims" where
  "verifyAccessTokenJwt c db =
     (if \<not> jwt_verify c db then Inl InvalidJwt
      else if jw_authTokenType c \<noteq> AuthTokenType_IDENTITY_ACCESS_TOKEN then Inl NotAnIdentityToken
      else Inr c)"

text \<open>What is checked before the new token is made: the claims, the age, the records and the count of uses.\<close>

definition renew_check ::
  "token_env \<Rightarrow> luck \<Rightarrow> claims \<Rightarrow> token_db \<Rightarrow> (token_error + (renew_source \<times> int option)) \<times> token_db" where
  "renew_check env lu accessToken db =
     (case rbind (verifyAccessTokenJwt accessToken db) assertMinimalRenewClaims of
        Inl e \<Rightarrow> (Inl e, db)
      | Inr decodedToken \<Rightarrow>
          if hasLegacyTokenWithoutExpExceededMaxAge (jw_exp decodedToken) (te_enforcedAt env) (te_ceiling env) (td_now db)
          then (Inl MaxAgeExceeded, db)
          else (case token_source decodedToken db of
             Inl e \<Rightarrow> (Inl e, db)
           | Inr source \<Rightarrow>
               andThen (assertTokenIsNotRevoked lu CannotRenew (check_of decodedToken source) db) (\<lambda>_ db1.
                 let existingRemaining = key_get (td_now db1) (td_uses db1) (jw_identityId decodedToken, token_id decodedToken)
                 in if (case existingRemaining of None \<Rightarrow> False | Some r \<Rightarrow> r \<le> 0) then (Inl ExhaustedToken, db1)
                    else (Inr (source, existingRemaining), db1))))"

text \<open>And what is done then, at the time it is done.\<close>

definition renew_write ::
  "token_env \<Rightarrow> claims \<Rightarrow> renew_source \<times> int option \<Rightarrow> token_db \<Rightarrow> (token_error + claims) \<times> token_db" where
  "renew_write env decodedToken checked db = (case checked of (source, existingRemaining) \<Rightarrow>
     (let (requestedTTL, requestedMaxTTL) = resolveTtlInputs (rs_accessTokenPeriod source) (rs_accessTokenTTL source)
            (rs_accessTokenMaxTTL source);
          ttl = computeIssuedTtl (te_ceiling env) requestedTTL requestedMaxTTL (rs_creationEpoch source) (now_seconds db);
          numUsesLimit = (case jw_numUsesLimit decodedToken of Some n \<Rightarrow> n | None \<Rightarrow> rs_numUsesLimit source)
      in if ttl \<le> 0 then (Inl MaxTtlReached, db)
         else (let (renewedToken, db1) = sign
                 \<lparr>si_identityAccessTokenId = jw_identityAccessTokenId decodedToken, si_identityId = jw_identityId decodedToken,
                  si_numUsesLimit = numUsesLimit, si_ipRestrictionEnabled = (jw_ipRestrictionEnabled decodedToken = Some True),
                  si_ttlSeconds = ttl, si_source = source\<rparr> db;
                 remainingUses = (case existingRemaining of None \<Rightarrow> numUsesLimit | Some r \<Rightarrow> max 0 r);
                 db2 = (if numUsesLimit > 0
                   then setUsesRemaining (jw_identityId decodedToken) (token_id decodedToken) remainingUses (te_ceiling env) db1
                   else db1)
               in (Inr renewedToken, db2))))"

definition renewAccessToken :: "token_env \<Rightarrow> luck \<Rightarrow> claims \<Rightarrow> token_db \<Rightarrow> (token_error + claims) \<times> token_db" where
  "renewAccessToken env lu accessToken db =
     andThen (renew_check env lu accessToken db) (\<lambda>checked db1. renew_write env accessToken checked db1)"

section \<open>Revoking\<close>

definition revokeAccessToken :: "token_env \<Rightarrow> luck \<Rightarrow> claims \<Rightarrow> token_db \<Rightarrow> (token_error + string) \<times> token_db" where
  "revokeAccessToken env lu accessToken db =
     (case rbind (verifyAccessTokenJwt accessToken db) assertMinimalRenewClaims of
        Inl e \<Rightarrow> (Inl e, db)
      | Inr decodedToken \<Rightarrow>
          (case token_source decodedToken db of
             Inl e \<Rightarrow> (Inl e, db)
           | Inr source \<Rightarrow>
               (let expiresAt = computePerTokenMarkerExpiry (te_ceiling env) (jw_exp decodedToken) (rs_accessTokenTTL source)
                      (rs_accessTokenMaxTTL source) (rs_accessTokenPeriod source) (rs_creationEpoch source) (now_seconds db)
                in (Inr (jw_identityAccessTokenId decodedToken),
                    bumpRevocationVersion lu (jw_identityId decodedToken)
                      (insertRevocation (token_id decodedToken) (jw_identityId decodedToken) expiresAt None None db)))))"

definition markPerTokenRevocation :: "luck \<Rightarrow> string \<Rightarrow> string \<Rightarrow> int \<Rightarrow> token_db \<Rightarrow> token_db" where
  "markPerTokenRevocation lu tokenId identityId expiresAt db =
     (if expiresAt \<le> td_now db then db
      else bumpRevocationVersion lu identityId (insertRevocation tokenId identityId expiresAt None None db))"

definition insertIdentityWideRevocationMarker :: "token_env \<Rightarrow> string \<Rightarrow> token_db \<Rightarrow> token_db" where
  "insertIdentityWideRevocationMarker env identityId db =
     insertRevocation identityId identityId (td_now db + te_ceiling env * 1000) (Some (td_now db)) None db"

definition revokeAllTokensForIdentity :: "token_env \<Rightarrow> luck \<Rightarrow> string \<Rightarrow> token_db \<Rightarrow> token_db" where
  "revokeAllTokensForIdentity env lu identityId db =
     bumpRevocationVersion lu identityId (insertIdentityWideRevocationMarker env identityId db)"

text \<open>The three kinds of scoped records; \<open>newId\<close> is the random identifier of the record.\<close>

definition insertScopedRevocation :: "token_env \<Rightarrow> string \<Rightarrow> string \<Rightarrow> string \<Rightarrow> token_db \<Rightarrow> token_db" where
  "insertScopedRevocation env newId identityId scope db =
     insertRevocation newId identityId (td_now db + te_ceiling env * 1000) (Some (td_now db)) (Some scope) db"

definition revokeAllTokensForClientSecret :: "token_env \<Rightarrow> luck \<Rightarrow> string \<Rightarrow> string \<Rightarrow> string \<Rightarrow> token_db \<Rightarrow> token_db" where
  "revokeAllTokensForClientSecret env lu newId identityId clientSecretId db =
     bumpRevocationVersion lu identityId (insertScopedRevocation env newId identityId clientSecretId db)"

definition revokeTokensForIdentityAuthMethod :: "token_env \<Rightarrow> luck \<Rightarrow> string \<Rightarrow> string \<Rightarrow> string \<Rightarrow> token_db \<Rightarrow> token_db" where
  "revokeTokensForIdentityAuthMethod env lu newId identityId authMethod db =
     bumpRevocationVersion lu identityId (insertScopedRevocation env newId identityId authMethod db)"

definition insertOrgMembershipRevocationMarker :: "token_env \<Rightarrow> string \<Rightarrow> string \<Rightarrow> string \<Rightarrow> token_db \<Rightarrow> token_db" where
  "insertOrgMembershipRevocationMarker env newId identityId orgId db = insertScopedRevocation env newId identityId orgId db"

definition removeOrgMembershipRevocationMarkers :: "string \<Rightarrow> string \<Rightarrow> token_db \<Rightarrow> token_db" where
  "removeOrgMembershipRevocationMarkers identityId orgId db = deleteRevocationsByScope identityId orgId db"

definition bumpIdentityRevocationVersion :: "luck \<Rightarrow> string \<Rightarrow> token_db \<Rightarrow> token_db" where
  "bumpIdentityRevocationVersion lu identityId db = bumpRevocationVersion lu identityId db"

definition invalidateTrustedIpsCache :: "string \<Rightarrow> string \<Rightarrow> token_db \<Rightarrow> token_db" where
  "invalidateTrustedIpsCache identityId authMethod db = db\<lparr>td_ipcache := deleteItem (identityId, authMethod) (td_ipcache db)\<rparr>"

text \<open>Revoking a stored token by its identifier: the row is flagged and a record is kept.\<close>

definition TOKEN_AUTH :: string where "TOKEN_AUTH = ''token-auth''"

definition revokeTokenAuthToken :: "token_env \<Rightarrow> luck \<Rightarrow> string \<Rightarrow> token_db \<Rightarrow> (token_error + unit) \<times> token_db" where
  "revokeTokenAuthToken env lu tokenId db =
     (case find (\<lambda>r. tr_id r = tokenId \<and> \<not> tr_isAccessTokenRevoked r \<and> tr_authMethod r = TOKEN_AUTH \<and>
              list_ex (\<lambda>x. ir_id x = tr_identityId r) (td_identities db)) (td_rows db) of
        None \<Rightarrow> (Inl UnknownLegacyToken, db)
      | Some row \<Rightarrow>
          (let db1 = db\<lparr>td_rows := map (\<lambda>r. if tr_id r = tokenId \<and> tr_authMethod r = TOKEN_AUTH
                 then r\<lparr>tr_isAccessTokenRevoked := True\<rparr> else r) (td_rows db)\<rparr>;
               expiresAt = computeTokenAuthRevokeMarkerExpiry (te_ceiling env) (tr_accessTokenTTL row) (tr_accessTokenMaxTTL row)
                 (tr_accessTokenPeriod row) (tr_createdAt row) (now_seconds db1)
           in (Inr (), markPerTokenRevocation lu tokenId (tr_identityId row) expiresAt db1)))"

end
