(* ===== verification/TokenRuns.thy ===== *)
theory TokenRuns
  imports TokenService
begin

text \<open>
  Runs of the operations one after the other, and what holds in every state they reach: which tokens exist, that
  the cache agrees with the tables, how long tokens live, how often they are used, and that a revoked token
  stays revoked.

  A run starts without tokens and without keys in the store. Random identifiers are new, the identity of a token is in
  its table, and bumps succeed and have room (\<open>TokenCache\<close>). Any other read or write of the key store may fail,
  and the store may lose cached verdicts and the counters of uses at any time, alone or all of them, as in a flush; that it
  loses the version of an identity is not among the steps. The steps do not overlap: what two calls that overlap do is
  the subject of \<open>TokenCache\<close> and \<open>TokenRaces\<close>.
\<close>

section \<open>Steps\<close>

definition fresh :: "string \<Rightarrow> token_db \<Rightarrow> bool" where
  "fresh i db \<longleftrightarrow> i \<noteq> [] \<and> i \<notin> token_id ` set (td_signed db) \<and> i \<notin> tr_id ` set (td_rows db) \<and>
     i \<notin> mk_id ` set (td_revocations db) \<and> i \<notin> ir_id ` set (td_identities db) \<and> (\<forall>k. td_uses db (k, i) = None)"

definition bump_ok :: "luck \<Rightarrow> string \<Rightarrow> token_db \<Rightarrow> bool" where
  "bump_ok lu i db \<longleftrightarrow> lu_bump lu \<and> has_room db i"

definition issue_ok :: "issue_input \<Rightarrow> token_db \<Rightarrow> bool" where
  "issue_ok input db \<longleftrightarrow> is_identityId input \<in> ir_id ` set (td_identities db) \<and> is_identityId input \<noteq> [] \<and>
     is_authMethod input \<noteq> [] \<and> is_orgId input \<noteq> [] \<and> is_rootOrgId input \<noteq> [] \<and> is_parentOrgId input \<noteq> [] \<and>
     0 \<le> is_accessTokenTTL input \<and> 0 \<le> is_accessTokenMaxTTL input \<and> 0 \<le> is_accessTokenPeriod input"

text \<open>The second part of a state lists the tokens of the requests let through, and the counters that were lost.\<close>

datatype usage = Used string | Lost string

definition logged :: "claims \<Rightarrow> 'e + 'a \<Rightarrow> usage list \<Rightarrow> usage list" where
  "logged c r log = (case r of Inl _ \<Rightarrow> log | Inr _ \<Rightarrow> Used (token_id c) # log)"

inductive token_step :: "token_env \<Rightarrow> token_db \<times> usage list \<Rightarrow> token_db \<times> usage list \<Rightarrow> bool" for env where
  s_time: "0 \<le> d \<Longrightarrow> token_step env (db, log) (db\<lparr>td_now := td_now db + d\<rparr>, log)"
| s_issue: "fresh newId db \<Longrightarrow> issue_ok input db \<Longrightarrow> issueIdentityAccessToken env newId input db = (out, db') \<Longrightarrow>
    token_step env (db, log) (db', log)"
| s_request: "authenticate env lu c ipAddress db = (r, db') \<Longrightarrow> token_step env (db, log) (db', logged c r log)"
| s_renew: "renewAccessToken env lu c db = (r', db') \<Longrightarrow> token_step env (db, log) (db', log)"
| s_revoke: "bump_ok lu (jw_identityId c) db \<Longrightarrow> revokeAccessToken env lu c db = (out', db') \<Longrightarrow> token_step env (db, log) (db', log)"
| s_revoke_stored: "(\<And>i. i \<in> ir_id ` set (td_identities db) \<Longrightarrow> bump_ok lu i db) \<Longrightarrow> revokeTokenAuthToken env lu tid db = (u, db') \<Longrightarrow>
    token_step env (db, log) (db', log)"
| s_revoke_identity: "i \<in> ir_id ` set (td_identities db) \<Longrightarrow> bump_ok lu i db \<Longrightarrow>
    token_step env (db, log) (revokeAllTokensForIdentity env lu i db, log)"
| s_revoke_secret: "fresh newId db \<Longrightarrow> bump_ok lu i db \<Longrightarrow>
    token_step env (db, log) (revokeAllTokensForClientSecret env lu newId i secret db, log)"
| s_revoke_method: "fresh newId db \<Longrightarrow> bump_ok lu i db \<Longrightarrow>
    token_step env (db, log) (revokeTokensForIdentityAuthMethod env lu newId i method db, log)"
| s_leave: "fresh newId db \<Longrightarrow> bump_ok lu i db \<Longrightarrow> m = (td_members db i)(org := x) \<Longrightarrow>
    token_step env (db, log) (bumpIdentityRevocationVersion lu i
      (insertOrgMembershipRevocationMarker env newId i org (db\<lparr>td_members := (td_members db)(i := m)\<rparr>)), log)"
| s_join: "bump_ok lu i db \<Longrightarrow> m = (td_members db i)(org := x) \<Longrightarrow>
    token_step env (db, log) (bumpIdentityRevocationVersion lu i
      (removeOrgMembershipRevocationMarkers i org (db\<lparr>td_members := (td_members db)(i := m)\<rparr>)), log)"
| s_trust: "token_step env (db, log)
    (invalidateTrustedIpsCache i meth (db\<lparr>td_trusted := (td_trusted db)(i := (td_trusted db i)(meth := ips))\<rparr>), log)"
| s_prune: "token_step env (db, log)
    (db\<lparr>td_revocations := filter (\<lambda>m. keep m \<or> \<not> mk_expiresAt m < td_now db) (td_revocations db)\<rparr>, log)"
| s_forget: "token_step env (db, log) (db\<lparr>td_verdicts := (td_verdicts db)(k := None)\<rparr>, log)"
| s_lose: "td_uses db (i, tid) \<noteq> None \<Longrightarrow>
    token_step env (db, log) (db\<lparr>td_uses := (td_uses db)((i, tid) := None)\<rparr>, Lost tid # log)"

definition token_start :: "token_db \<Rightarrow> bool" where
  "token_start db \<longleftrightarrow> 0 < td_now db \<and> td_signed db = [] \<and> td_rows db = [] \<and> td_versions db = Map.empty \<and>
     td_verdicts db = Map.empty \<and> td_uses db = Map.empty"

definition token_reach :: "token_env \<Rightarrow> token_db \<Rightarrow> usage list \<Rightarrow> bool" where
  "token_reach env db log \<longleftrightarrow> (\<exists>start. token_start start \<and> (token_step env)\<^sup>*\<^sup>* (start, []) (db, log))"

section \<open>The invariant\<close>

text \<open>What is true of every token that was handed out.\<close>

definition token_facts :: "token_env \<Rightarrow> token_db \<Rightarrow> claims \<Rightarrow> bool" where
  "token_facts env db c \<longleftrightarrow> hasFullRenewClaims c \<and> hasCoreTokenClaims c \<and>
     jw_jti c = Some (jw_identityAccessTokenId c) \<and> jw_authTokenType c = AuthTokenType_IDENTITY_ACCESS_TOKEN \<and>
     jw_identityId c \<in> ir_id ` set (td_identities db) \<and> jw_identityAuth c \<noteq> None \<and>
     jw_identityAccessTokenId c \<notin> ir_id ` set (td_identities db) \<and>
     (\<forall>n. jw_numUsesLimit c = Some n \<longrightarrow> 0 < n) \<and>
     (\<exists>i e. jw_iat c = Some i \<and> jw_exp c = Some e \<and> i \<le> now_seconds db \<and> rs_creationEpoch (claims_source c) \<le> i \<and>
        e \<le> i + te_ceiling env \<and>
        (rs_accessTokenTTL (claims_source c) > 0 \<longrightarrow> e \<le> i + rs_accessTokenTTL (claims_source c)) \<and>
        (rs_accessTokenMaxTTL (claims_source c) > 0 \<longrightarrow>
           e \<le> rs_creationEpoch (claims_source c) + rs_accessTokenMaxTTL (claims_source c)) \<and>
        (rs_accessTokenPeriod (claims_source c) > 0 \<longrightarrow>
           rs_accessTokenTTL (claims_source c) = rs_accessTokenPeriod (claims_source c) \<and> rs_accessTokenMaxTTL (claims_source c) = 0))"

text \<open>Tokens with one identifier are one token, renewed.\<close>

definition same_token :: "claims \<Rightarrow> claims \<Rightarrow> bool" where
  "same_token c d \<longleftrightarrow> jw_identityId d = jw_identityId c \<and> claims_source d = claims_source c \<and> jw_numUsesLimit d = jw_numUsesLimit c"

definition row_facts :: "token_env \<Rightarrow> token_row \<Rightarrow> claims \<Rightarrow> bool" where
  "row_facts env r c \<longleftrightarrow> (let src = claims_source c in
     tr_identityId r = jw_identityId c \<and> tr_accessTokenMaxTTL r = rs_accessTokenMaxTTL src \<and>
     tr_accessTokenPeriod r = rs_accessTokenPeriod src \<and> tr_createdAt r div 1000 = rs_creationEpoch src \<and>
     tr_accessTokenTTL r = computeIssuedTtl (te_ceiling env) (rs_accessTokenTTL src) (rs_accessTokenMaxTTL src)
       (rs_creationEpoch src) (rs_creationEpoch src))"

fun fp_token :: "fingerprint \<Rightarrow> string" where
  "fp_token (Fingerprint t i s m) = t"

definition signed_org :: "token_db \<Rightarrow> string \<times> fingerprint \<Rightarrow> string option" where
  "signed_org db k = Option.bind (find (\<lambda>c. token_id c = fp_token (snd k)) (td_signed db)) jw_orgId"

definition token_inv :: "token_env \<Rightarrow> token_db \<Rightarrow> bool" where
  "token_inv env db \<longleftrightarrow>
     (\<forall>c \<in> set (td_signed db). token_facts env db c) \<and>
     (\<forall>c \<in> set (td_signed db). \<forall>d \<in> set (td_signed db). token_id c = token_id d \<longrightarrow> same_token c d) \<and>
     (\<forall>i fp. td_verdicts db (i, fp) \<noteq> None \<longrightarrow> fp_token fp \<in> token_id ` set (td_signed db)) \<and>
     (\<forall>r \<in> set (td_rows db). \<exists>c \<in> set (td_signed db). token_id c = tr_id r \<and> row_facts env r c) \<and>
     cache_inv (signed_org db) db [] []"

lemma token_invD:
  assumes "token_inv env db"
  shows "c \<in> set (td_signed db) \<Longrightarrow> token_facts env db c"
    "c \<in> set (td_signed db) \<Longrightarrow> d \<in> set (td_signed db) \<Longrightarrow> token_id c = token_id d \<Longrightarrow> same_token c d"
    "td_verdicts db (i, fp) \<noteq> None \<Longrightarrow> fp_token fp \<in> token_id ` set (td_signed db)"
    "r \<in> set (td_rows db) \<Longrightarrow> \<exists>c \<in> set (td_signed db). token_id c = tr_id r \<and> row_facts env r c"
    "cache_inv (signed_org db) db [] []"
  using assms unfolding token_inv_def by blast+

lemma token_factsD:
  assumes "token_facts env db c"
  shows "hasFullRenewClaims c" "hasCoreTokenClaims c" "jw_jti c = Some (jw_identityAccessTokenId c)"
    "jw_authTokenType c = AuthTokenType_IDENTITY_ACCESS_TOKEN" "jw_identityId c \<in> ir_id ` set (td_identities db)"
    "jw_identityAuth c \<noteq> None" "jw_numUsesLimit c = Some n \<Longrightarrow> 0 < n"
    "0 < rs_accessTokenPeriod (claims_source c) \<Longrightarrow>
       rs_accessTokenTTL (claims_source c) = rs_accessTokenPeriod (claims_source c) \<and> rs_accessTokenMaxTTL (claims_source c) = 0"
    "jw_identityAccessTokenId c \<notin> ir_id ` set (td_identities db)"
  using assms unfolding token_facts_def by blast+

lemma token_factsE:
  assumes "token_facts env db c"
  obtains i e where "jw_iat c = Some i" "jw_exp c = Some e" "i \<le> now_seconds db" "rs_creationEpoch (claims_source c) \<le> i"
    "e \<le> i + te_ceiling env" "rs_accessTokenTTL (claims_source c) > 0 \<Longrightarrow> e \<le> i + rs_accessTokenTTL (claims_source c)"
    "rs_accessTokenMaxTTL (claims_source c) > 0 \<Longrightarrow>
       e \<le> rs_creationEpoch (claims_source c) + rs_accessTokenMaxTTL (claims_source c)"
    "rs_accessTokenPeriod (claims_source c) > 0 \<Longrightarrow>
       rs_accessTokenTTL (claims_source c) = rs_accessTokenPeriod (claims_source c) \<and> rs_accessTokenMaxTTL (claims_source c) = 0"
  using assms unfolding token_facts_def by blast

lemma token_id_facts: "token_facts env db c \<Longrightarrow> token_id c = jw_identityAccessTokenId c"
  by (simp add: token_factsD(3) token_id_def)

lemma facts_source:
  assumes "token_facts env db c"
  shows "token_source c db' = Inr (claims_source c)" "assertMinimalRenewClaims c = Inr c"
    "\<not> hasLegacyTokenWithoutExpExceededMaxAge (jw_exp c) a b n"
proof -
  obtain e where "jw_exp c = Some e" using assms by (rule token_factsE)
  then show "\<not> hasLegacyTokenWithoutExpExceededMaxAge (jw_exp c) a b n"
    by (simp add: hasLegacyTokenWithoutExpExceededMaxAge_def)
qed (use assms in \<open>simp_all add: token_factsD token_source_def assertMinimalRenewClaims_def\<close>)

abbreviation own_check :: "claims \<Rightarrow> token_check" where
  "own_check c \<equiv> check_of c (claims_source c)"

lemma own_check_org:
  assumes inv: "token_inv env db" and c: "c \<in> set (td_signed db)"
  shows "ck_orgId (own_check c) = signed_org db (verdict_key (own_check c))"
proof -
  have "find (\<lambda>x. token_id x = token_id c) (td_signed db) \<noteq> None"
    using c unfolding find_None_iff by blast
  then obtain d where d: "find (\<lambda>x. token_id x = token_id c) (td_signed db) = Some d" by blast
  then have d': "d \<in> set (td_signed db)" "token_id d = token_id c" by (auto simp: find_Some_iff)
  then have "claims_source d = claims_source c" using token_invD(2) [OF inv c d'(1)] by (simp add: same_token_def)
  then have "rs_orgId (claims_source d) = rs_orgId (claims_source c)" by simp
  moreover have "jw_orgId d \<noteq> None"
    using token_factsD(1) [OF token_invD(1) [OF inv d'(1)]] by (auto simp: hasFullRenewClaims_def truthy_iff)
  ultimately show ?thesis
    using d by (auto simp: signed_org_def check_of_def computeRevocationVerdictFingerprint_def claims_source_def)
qed

section \<open>The check keeps the cache right\<close>

lemma check_token_inv:
  assumes inv: "cache_inv org_of db [] []" and org: "ck_orgId ck = org_of (verdict_key ck)"
    and r: "check_token lu ck db = (r, db')"
  shows "cache_inv org_of db' [] []"
proof (cases "read_cache lu ck db")
  case (Decided x)
  then show ?thesis using r inv by (simp add: check_token_def)
next
  case (ReadDatabase v a)
  obtain s a' db1 where res: "resolve_version lu ck v a db = ((s, a'), db1)" by (metis prod.collapse)
  have "cache_inv org_of db [Reading ck v a] []" using inv_read [OF inv org ReadDatabase] .
  then have "cache_inv org_of db1 [Resolved ck s a'] []" using inv_resolve [of _ _ "[]" _ _ _ "[]"] res by force
  then have "cache_inv org_of db1 [Answered ck s a' (database_verdict ck db1)] []" using inv_answer [of _ _ "[]" _ _ _ "[]"] by force
  then have "cache_inv org_of (write_verdict lu ck s a' (database_verdict ck db1) db1) [] []"
    using inv_write [of _ _ "[]" _ _ _ _ "[]"] by force
  then show ?thesis using r ReadDatabase res by (auto simp: check_token_def Let_def)
qed

lemma check_token_keys:
  assumes "check_token lu ck db = (r, db')" "td_verdicts db' (i, fp) \<noteq> None"
  shows "td_verdicts db (i, fp) \<noteq> None \<or> fp_token fp = ck_tokenId ck"
proof -
  have res: "resolve_version lu ck v a db = ((s, a'), db1) \<Longrightarrow> td_verdicts db1 = td_verdicts db" for v a s a' db1
    by (auto simp: resolve_version_def getOrSeedRevocationVersion_def Let_def split: if_splits option.splits prod.splits)
  have wr: "td_verdicts (write_verdict lu ck s a q db1) (i, fp) \<noteq> None \<Longrightarrow>
      td_verdicts db1 (i, fp) \<noteq> None \<or> fp_token fp = ck_tokenId ck" for s a q db1
    by (auto simp: write_verdict_def Let_def setItemWithExpiry_def computeRevocationVerdictFingerprint_def
        split: if_splits option.splits)
  show ?thesis
  proof (cases "read_cache lu ck db")
    case (Decided y)
    then show ?thesis using assms by (simp add: check_token_def)
  next
    case (ReadDatabase v a)
    obtain s a' db1 where "resolve_version lu ck v a db = ((s, a'), db1)" by (metis prod.collapse)
    then show ?thesis using assms ReadDatabase res wr by (fastforce simp: check_token_def Let_def)
  qed
qed

lemma check_token_keeps:
  assumes inv: "token_inv env db" and c: "c \<in> set (td_signed db)" and r: "check_token lu (own_check c) db = (r, db')"
  shows "token_inv env db'"
proof -
  note same = same_tables_D [OF check_same [OF r]]
  have org: "signed_org db' = signed_org db" by (rule ext) (simp add: signed_org_def same)
  have "cache_inv (signed_org db) db' [] []"
    by (rule check_token_inv [OF token_invD(5) [OF inv] own_check_org [OF inv c] r])
  moreover have "fp_token fp \<in> token_id ` set (td_signed db')" if "td_verdicts db' (i, fp) \<noteq> None" for i fp
    using check_token_keys [OF r that] token_invD(3) [OF inv, of i fp] c by (auto simp: same check_of_def)
  ultimately show ?thesis
    using inv unfolding token_inv_def token_facts_def org by (simp add: same)
qed

text \<open>A token that the check lets pass is one the tables let pass.\<close>

lemma passed_check:
  assumes inv: "token_inv env db" and c: "c \<in> set (td_signed db)" and r: "check_token lu (own_check c) db = (None, db')"
  shows "database_verdict (own_check c) db = None"
proof (cases "read_cache lu (own_check c) db")
  case (Decided x)
  then show ?thesis
    using r cached_allow [OF token_invD(5) [OF inv] own_check_org [OF inv c]] by (simp add: check_token_def)
next
  case (ReadDatabase v a)
  obtain s a' db1 where res: "resolve_version lu (own_check c) v a db = ((s, a'), db1)" by (metis prod.collapse)
  then show ?thesis
    using r ReadDatabase database_verdict_same [OF resolve_same [OF res], of "own_check c"] by (simp add: check_token_def Let_def)
qed

section \<open>The operations keep the invariant\<close>

text \<open>Changes that leave tokens, rows and the tables of the check alone.\<close>

lemma inv_same_check_tables:
  assumes inv: "token_inv env db" and "td_now db' = td_now db" "td_signed db' = td_signed db" "td_rows db' = td_rows db"
    "td_revocations db' = td_revocations db" "td_members db' = td_members db" "td_versions db' = td_versions db"
    "td_verdicts db' = td_verdicts db" "td_identities db' = td_identities db"
  shows "token_inv env db'"
proof -
  have org: "signed_org db' = signed_org db" by (rule ext) (simp add: signed_org_def assms)
  have "cache_inv (signed_org db) db' [] []"
    by (rule inv_other [OF token_invD(5) [OF inv]]) (simp_all add: assms)
  then show ?thesis
    using inv unfolding token_inv_def token_facts_def org by (simp add: assms)
qed

text \<open>Changes of the tables of the check, with the cache kept right.\<close>

lemma inv_cache_change:
  assumes inv: "token_inv env db" and now: "td_now db \<le> td_now db'" and same: "td_signed db' = td_signed db"
      "td_rows db' = td_rows db" "td_identities db' = td_identities db"
    and keys: "\<And>k. td_verdicts db' k \<noteq> None \<Longrightarrow> td_verdicts db k \<noteq> None"
    and cache: "cache_inv (signed_org db) db' [] []"
  shows "token_inv env db'"
proof -
  have org: "signed_org db' = signed_org db" by (rule ext) (simp add: signed_org_def same)
  have facts: "token_facts env db' c" if "token_facts env db c" for c
    using that
  proof (rule token_factsE)
    fix i e assume f: "jw_iat c = Some i" "jw_exp c = Some e" "i \<le> now_seconds db"
    have "i \<le> now_seconds db'" using f(3) zdiv_mono1 [OF now, of 1000] by simp
    with that f show ?thesis unfolding token_facts_def same by simp
  qed
  show ?thesis
    unfolding token_inv_def org same using inv facts keys cache unfolding token_inv_def by blast
qed

lemma andThen_check:
  assumes "andThen (assertTokenIsNotRevoked lu p ck db) f = (r, db')"
  obtains (refused) x where "check_token lu ck db = (Some x, db')" "r = Inl (RevokedToken p (revocationDenyReasonToMessage x))"
    | (passed) db1 where "check_token lu ck db = (None, db1)" "f () db1 = (r, db')"
  using assms by (auto simp: assertTokenIsNotRevoked_def split: prod.splits option.splits)

text \<open>A request: refused before the check, by it, or past it; then only counters and addresses are touched.\<close>

definition same_but_counters :: "token_db \<Rightarrow> token_db \<Rightarrow> bool" where
  "same_but_counters a b \<longleftrightarrow> td_now b = td_now a \<and> td_signed b = td_signed a \<and> td_rows b = td_rows a \<and>
     td_revocations b = td_revocations a \<and> td_members b = td_members a \<and> td_versions b = td_versions a \<and>
     td_verdicts b = td_verdicts a \<and> td_identities b = td_identities a"

lemma inv_counters: "token_inv env a \<Longrightarrow> same_but_counters a b \<Longrightarrow> token_inv env b"
  unfolding same_but_counters_def by (elim conjE) (rule inv_same_check_tables)

lemma same_but_counters_refl [simp]: "same_but_counters a a"
  and same_but_counters_uses [simp]: "same_but_counters a (a\<lparr>td_uses := u\<rparr>)"
  and same_but_counters_ipcache [simp]: "same_but_counters a (a\<lparr>td_ipcache := x\<rparr>)"
  and same_but_counters_setUses [simp]: "same_but_counters a (setUsesRemaining i t n e a)"
  by (simp_all add: same_but_counters_def setUsesRemaining_def)

lemma same_but_counters_trans: "same_but_counters a b \<Longrightarrow> same_but_counters b c \<Longrightarrow> same_but_counters a c"
  by (simp add: same_but_counters_def)

lemma count_use_same: "count_use env c src db = (r, db') \<Longrightarrow> same_but_counters db db'"
  by (auto simp: count_use_def Let_def split: if_splits option.splits prod.splits)

lemma check_address_same: "check_address env c src ip db = (r, db') \<Longrightarrow> same_but_counters db db' \<and> td_uses db' = td_uses db"
  by (auto simp: check_address_def cached_trusted_ips_def Let_def split: if_splits option.splits prod.splits)

lemma jwt_signed: "jwt_verify c db \<Longrightarrow> c \<in> set (td_signed db)"
  by (simp add: jwt_verify_def)

lemma authenticate_effect:
  assumes inv: "token_inv env db" and r: "authenticate env lu c ip db = (r, db')"
  obtains (early) "db' = db" "isl r"
    | (refused) x where "jwt_verify c db" "check_token lu (own_check c) db = (Some x, db')" "isl r"
    | (spent) db1 e where "jwt_verify c db" "check_token lu (own_check c) db = (None, db1)"
        "count_use env c (claims_source c) db1 = (Inl e, db')" "isl r"
    | (counted) db1 db2 q where "jwt_verify c db" "check_token lu (own_check c) db = (None, db1)"
        "count_use env c (claims_source c) db1 = (Inr (), db2)" "check_address env c (claims_source c) ip db2 = (q, db')"
proof (cases "jwt_verify c db")
  case False
  then have "db' = db" "isl r" using r by (auto simp: authenticate_def)
  then show ?thesis by (rule early)
next
  case True
  then have "c \<in> set (td_signed db)" by (rule jwt_signed)
  note f = token_invD(1) [OF inv this]
  have "andThen (assertTokenIsNotRevoked lu FailedToAuthorize (own_check c) db) (\<lambda>_ db1.
      andThen (count_use env c (claims_source c) db1) (\<lambda>_ db2.
      andThen (check_address env c (claims_source c) ip db2) (\<lambda>_ db3. (Inr (claims_source c), db3)))) = (r, db')"
    using r True facts_source [OF f] token_factsD(4) [OF f]
    by (simp add: authenticate_def fnValidateIdentityAccessTokenFast_def)
  then show ?thesis
  proof (cases rule: andThen_check)
    case (refused x)
    then show ?thesis using True that(2) by simp
  next
    case (passed db1)
    obtain u db2 where u: "count_use env c (claims_source c) db1 = (u, db2)" by (cases "count_use env c (claims_source c) db1")
    show ?thesis
    proof (cases u)
      case (Inl e)
      then show ?thesis using passed u by (intro spent [OF True passed(1), of e]) auto
    next
      case (Inr v)
      obtain q db3 where q: "check_address env c (claims_source c) ip db2 = (q, db3)" by (cases "check_address env c (claims_source c) ip db2")
      then have "db3 = db'" using passed(2) u Inr by (cases q) simp_all
      then show ?thesis using u q Inr by (intro counted [OF True passed(1), of db2 q]) auto
    qed
  qed
qed

lemma authenticate_keeps:
  assumes inv: "token_inv env db" and r: "authenticate env lu c ip db = (r, db')"
  shows "token_inv env db'"
  using inv r
proof (cases rule: authenticate_effect)
  case early
  then show ?thesis using inv by simp
next
  case (refused x)
  show ?thesis by (rule check_token_keeps [OF inv jwt_signed [OF refused(1)] refused(2)])
next
  case (spent db1 e)
  have "token_inv env db1" by (rule check_token_keeps [OF inv jwt_signed [OF spent(1)] spent(2)])
  then show ?thesis using count_use_same [OF spent(3)] inv_counters by blast
next
  case (counted db1 db2 q)
  have "token_inv env db1" by (rule check_token_keeps [OF inv jwt_signed [OF counted(1)] counted(2)])
  then show ?thesis using count_use_same [OF counted(3)] check_address_same [OF counted(4)] inv_counters by blast
qed

text \<open>A new token: one with a new identifier, with the rows written for it, or one more of a known token.\<close>

lemma cache_inv_org:
  assumes inv: "cache_inv org_of db [] []" and eq: "\<And>k. td_verdicts db k \<noteq> None \<Longrightarrow> org' k = org_of k"
  shows "cache_inv org' db [] []"
proof -
  have p: "promised org_of db [] ck s" if "promised org' db [] ck s" for ck s
    using that
  proof (cases rule: promisedE)
    case (stored ve e)
    then show ?thesis using eq [of "verdict_key ck"] promisedI(1) [of ck org_of db ve e] by simp
  qed simp
  show ?thesis using inv unfolding cache_inv_def by (auto dest: p)
qed

lemma sign_keeps:
  assumes inv: "token_inv env db" and facts: "token_facts env db c"
    and new: "token_id c \<notin> token_id ` set (td_signed db) \<or> rs = [] \<and> (\<exists>d \<in> set (td_signed db). token_id d = token_id c \<and> same_token d c)"
    and rows: "\<And>r. r \<in> set rs \<Longrightarrow> tr_id r = token_id c \<and> row_facts env r c"
  shows "token_inv env (db\<lparr>td_rows := td_rows db @ rs, td_signed := c # td_signed db\<rparr>)"
proof -
  let ?db = "db\<lparr>td_rows := td_rows db @ rs, td_signed := c # td_signed db\<rparr>"
  note i = token_invD [OF inv]
  have twin: "same_token d c \<and> same_token c d" if d: "d \<in> set (td_signed db)" "token_id d = token_id c" for d
  proof -
    have "token_id c \<in> token_id ` set (td_signed db)" using d imageI [of d _ token_id] by simp
    then obtain x where x: "x \<in> set (td_signed db)" "token_id x = token_id c" "same_token x c" using new by blast
    then have "same_token d x" using i(2) d by simp
    then show ?thesis using x(3) by (simp add: same_token_def)
  qed
  have f: "token_facts env ?db d" if "token_facts env db d" for d using that by (simp add: token_facts_def)
  have "signed_org ?db k = signed_org db k" if k0: "td_verdicts db k \<noteq> None" for k
  proof -
    obtain i' fp where k: "k = (i', fp)" by (cases k)
    then have "fp_token fp \<in> token_id ` set (td_signed db)" using i(3) [of i' fp] k0 by simp
    then obtain d where d: "d \<in> set (td_signed db)" "token_id d = fp_token fp" by force
    show ?thesis
    proof (cases "token_id c = fp_token fp")
      case True
      have "find (\<lambda>x. token_id x = fp_token fp) (td_signed db) \<noteq> None" using d unfolding find_None_iff by blast
      then obtain y where y: "find (\<lambda>x. token_id x = fp_token fp) (td_signed db) = Some y" by blast
      then have y': "y \<in> set (td_signed db)" "token_id y = fp_token fp" by (auto simp: find_Some_iff)
      have "same_token c y" using twin [OF y'(1)] y'(2) True by simp
      then have "claims_source c = claims_source y" by (simp add: same_token_def)
      then have "the (jw_orgId c) = the (jw_orgId y)" by (simp add: claims_source_def)
      moreover have "jw_orgId c \<noteq> None" "jw_orgId y \<noteq> None"
        using token_factsD(1) [OF facts] token_factsD(1) [OF i(1) [OF y'(1)]] by (auto simp: hasFullRenewClaims_def truthy_iff)
      ultimately show ?thesis using y True by (auto simp: signed_org_def k)
    next
      case False
      then show ?thesis by (simp add: signed_org_def k)
    qed
  qed
  then have "cache_inv (signed_org ?db) db [] []" by (intro cache_inv_org [OF i(5)]) simp
  then have cache: "cache_inv (signed_org ?db) ?db [] []" by (rule inv_other) simp_all
  have "\<forall>x \<in> set (td_signed ?db). token_facts env ?db x" using f facts i(1) by simp
  moreover have "same_token x y" if xy: "x \<in> set (td_signed ?db)" "y \<in> set (td_signed ?db)" "token_id x = token_id y" for x y
  proof -
    consider "x = c" "y = c" | "x = c" "y \<in> set (td_signed db)" | "y = c" "x \<in> set (td_signed db)"
      | "x \<in> set (td_signed db)" "y \<in> set (td_signed db)" using xy by auto
    then show ?thesis
    proof cases
      case 1
      then show ?thesis by (simp add: same_token_def)
    qed (use twin i(2) xy(3) in \<open>blast intro: sym\<close>)+
  qed
  moreover have "\<forall>i' fp. td_verdicts ?db (i', fp) \<noteq> None \<longrightarrow> fp_token fp \<in> token_id ` set (td_signed ?db)"
    using i(3) by fastforce
  moreover have "\<exists>x \<in> set (td_signed ?db). token_id x = tr_id r \<and> row_facts env r x" if "r \<in> set (td_rows ?db)" for r
  proof (cases "r \<in> set rs")
    case True
    then show ?thesis using rows [OF True] by simp
  next
    case False
    then have "r \<in> set (td_rows db)" using that by simp
    then show ?thesis using i(4) by fastforce
  qed
  ultimately show ?thesis using cache unfolding token_inv_def by blast
qed

lemma claims_source_signed:
  "claims_source (signIdentityAccessToken n i) = (si_source i)\<lparr>rs_numUsesLimit := (if si_numUsesLimit i > 0 then si_numUsesLimit i else 0),
     rs_identityAuth := Some (given_text (rs_identityAuth (si_source i)))\<rparr>"
  by (simp add: claims_source_def signIdentityAccessToken_def Let_def given_text_def split: option.split)

text \<open>The claims of a signed token are as every token has them, when the context is and the lifetime is computed from it.\<close>

lemma signed_facts:
  assumes src: "rs_authMethod src \<noteq> []" "rs_orgId src \<noteq> []" "rs_rootOrgId src \<noteq> []" "rs_parentOrgId src \<noteq> []"
    and per: "rs_accessTokenPeriod src > 0 \<Longrightarrow> rs_accessTokenTTL src = rs_accessTokenPeriod src \<and> rs_accessTokenMaxTTL src = 0"
    and ep: "rs_creationEpoch src \<le> now_seconds db" and ids: "newId \<noteq> []" "i \<in> ir_id ` set (td_identities db)" "i \<noteq> []"
      "newId \<notin> ir_id ` set (td_identities db)"
    and ttl: "ttl = computeIssuedTtl (te_ceiling env) (rs_accessTokenTTL src) (rs_accessTokenMaxTTL src) (rs_creationEpoch src) (now_seconds db)"
  shows "token_facts env db (signIdentityAccessToken (now_seconds db)
     \<lparr>si_identityAccessTokenId = newId, si_identityId = i, si_numUsesLimit = lim, si_ipRestrictionEnabled = b, si_ttlSeconds = ttl, si_source = src\<rparr>)"
  (is "token_facts env db ?c")
proof -
  have full: "hasFullRenewClaims ?c"
    using src ids by (simp add: hasFullRenewClaims_def signIdentityAccessToken_def Let_def)
  have core: "hasCoreTokenClaims ?c" using ids by (simp add: hasCoreTokenClaims_def)
  have auth: "jw_identityAuth ?c \<noteq> None" by (simp add: signIdentityAccessToken_def Let_def split: option.split)
  have b: "ttl \<le> te_ceiling env" unfolding ttl by (rule issued_ttl_bounds(1))
  have b1: "ttl \<le> rs_accessTokenTTL src" if "0 < rs_accessTokenTTL src" unfolding ttl by (rule issued_ttl_bounds(2) [OF that])
  have b2: "now_seconds db + ttl \<le> rs_creationEpoch src + rs_accessTokenMaxTTL src" if "0 < rs_accessTokenMaxTTL src"
    unfolding ttl by (rule issued_ttl_bounds(3) [OF that])
  show ?thesis
    unfolding token_facts_def claims_source_signed using full core auth ids b b1 b2 per ep by simp
qed

lemma issue_effect:
  assumes "issueIdentityAccessToken env newId input db = ((c, row), db')"
  shows "c = signIdentityAccessToken (now_seconds db)
      \<lparr>si_identityAccessTokenId = newId, si_identityId = is_identityId input, si_numUsesLimit = is_accessTokenNumUsesLimit input,
       si_ipRestrictionEnabled = hasNonWildcardTrustedIps (Some (is_accessTokenTrustedIps input)),
       si_ttlSeconds = computeIssuedTtl (te_ceiling env) (rs_accessTokenTTL (issue_source input (now_seconds db)))
         (rs_accessTokenMaxTTL (issue_source input (now_seconds db))) (now_seconds db) (now_seconds db),
       si_source = issue_source input (now_seconds db)\<rparr>"
    "db' = (if is_accessTokenNumUsesLimit input > 0
       then setUsesRemaining (is_identityId input) newId (is_accessTokenNumUsesLimit input) (te_ceiling env) else id)
       (db\<lparr>td_rows := td_rows db @ (if is_persistToPg input then [row] else []), td_signed := c # td_signed db\<rparr>)"
    "row = issue_row newId (computeIssuedTtl (te_ceiling env) (rs_accessTokenTTL (issue_source input (now_seconds db)))
         (rs_accessTokenMaxTTL (issue_source input (now_seconds db))) (now_seconds db) (now_seconds db))
       (rs_accessTokenMaxTTL (issue_source input (now_seconds db))) (is_accessTokenPeriod input) input db"
  using assms
  by (auto simp: issueIdentityAccessToken_def sign_def Let_def issue_source_def setUsesRemaining_def split: prod.splits if_splits)

lemma issue_source_simps [simp]:
  "rs_authMethod (issue_source input n) = is_authMethod input" "rs_orgId (issue_source input n) = is_orgId input"
  "rs_rootOrgId (issue_source input n) = is_rootOrgId input" "rs_parentOrgId (issue_source input n) = is_parentOrgId input"
  "rs_accessTokenPeriod (issue_source input n) = is_accessTokenPeriod input" "rs_creationEpoch (issue_source input n) = n"
  by (simp_all add: issue_source_def Let_def split: prod.splits)

lemma issue_source_period:
  "is_accessTokenPeriod input > 0 \<Longrightarrow>
     rs_accessTokenTTL (issue_source input n) = is_accessTokenPeriod input \<and> rs_accessTokenMaxTTL (issue_source input n) = 0"
  by (simp add: issue_source_def resolveTtlInputs_def)

lemma issue_keeps:
  assumes inv: "token_inv env db" and fr: "fresh newId db" and ok: "issue_ok input db"
    and r: "issueIdentityAccessToken env newId input db = (out, db')"
  shows "token_inv env db'"
proof -
  obtain c row where out: "out = (c, row)" by (cases out)
  note e = issue_effect [OF r [unfolded out]]
  have "token_facts env db c"
    unfolding e(1) by (rule signed_facts) (use fr ok issue_source_period in \<open>auto simp: fresh_def issue_ok_def\<close>)
  moreover have "token_id c = newId" by (simp add: e(1))
  moreover have "row_facts env row c"
    by (simp add: row_facts_def e(1,3) claims_source_signed issue_row_def Let_def)
  moreover have "tr_id row = newId" by (simp add: e(3) issue_row_def)
  ultimately have "token_inv env (db\<lparr>td_rows := td_rows db @ (if is_persistToPg input then [row] else []), td_signed := c # td_signed db\<rparr>)"
    using fr by (intro sign_keeps [OF inv]) (auto simp: fresh_def split: if_splits)
  then show ?thesis
    unfolding e(2) using inv_counters same_but_counters_setUses by fastforce
qed

lemma renew_effect:
  assumes inv: "token_inv env db" and r: "renewAccessToken env lu c db = (r, db')"
  obtains (early) "db' = db" "isl r"
    | (refused) x where "jwt_verify c db" "check_token lu (own_check c) db = (Some x, db')" "isl r"
    | (stopped) "jwt_verify c db" "check_token lu (own_check c) db = (None, db')" "isl r"
    | (renewed) db1 c' n old where "jwt_verify c db" "check_token lu (own_check c) db = (None, db1)" "r = Inr c'"
        "old = key_get (td_now db1) (td_uses db1) (jw_identityId c, token_id c)" "\<And>k. old = Some k \<Longrightarrow> 0 < k"
        "n = (case jw_numUsesLimit c of Some n \<Rightarrow> n | None \<Rightarrow> 0)"
        "c' = signIdentityAccessToken (now_seconds db1) \<lparr>si_identityAccessTokenId = jw_identityAccessTokenId c,
           si_identityId = jw_identityId c, si_numUsesLimit = n, si_ipRestrictionEnabled = (jw_ipRestrictionEnabled c = Some True),
           si_ttlSeconds = computeIssuedTtl (te_ceiling env) (rs_accessTokenTTL (claims_source c))
             (rs_accessTokenMaxTTL (claims_source c)) (rs_creationEpoch (claims_source c)) (now_seconds db1),
           si_source = claims_source c\<rparr>"
        "db' = (if n > 0 then setUsesRemaining (jw_identityId c) (token_id c) (case old of None \<Rightarrow> n | Some k \<Rightarrow> k) (te_ceiling env) else id)
           (db1\<lparr>td_signed := c' # td_signed db1\<rparr>)"
proof (cases "jwt_verify c db")
  case False
  then have "db' = db" "isl r"
    using r by (auto simp: renewAccessToken_def renew_check_def verifyAccessTokenJwt_def)
  then show ?thesis by (rule early)
next
  case True
  note f = token_invD(1) [OF inv jwt_signed [OF True]]
  note per = token_factsD(8) [OF f]
  have lim: "rs_numUsesLimit (claims_source c) = (case jw_numUsesLimit c of Some n \<Rightarrow> n | None \<Rightarrow> 0)"
    by (simp add: claims_source_def)
  obtain q db1 where q: "renew_check env lu c db = (q, db1)" by (cases "renew_check env lu c db")
  have chk: "andThen (assertTokenIsNotRevoked lu CannotRenew (own_check c) db) (\<lambda>_ db1.
      let existingRemaining = key_get (td_now db1) (td_uses db1) (jw_identityId c, token_id c)
      in if (case existingRemaining of None \<Rightarrow> False | Some r \<Rightarrow> r \<le> 0) then (Inl ExhaustedToken, db1)
         else (Inr (claims_source c, existingRemaining), db1)) = (q, db1)"
    using q True facts_source [OF f] token_factsD(4) [OF f]
    by (simp add: renew_check_def verifyAccessTokenJwt_def)
  have cont: "andThen (q, db1) (\<lambda>checked db1. renew_write env c checked db1) = (r, db')"
    using r q by (simp add: renewAccessToken_def)
  from chk show ?thesis
  proof (cases rule: andThen_check)
    case (refused x)
    then have "isl r" "db1 = db'" using cont by auto
    then show ?thesis using refused(1) that(2) [OF True] by blast
  next
    case (passed db2)
    let ?old = "key_get (td_now db2) (td_uses db2) (jw_identityId c, token_id c)"
    show ?thesis
    proof (cases "case ?old of None \<Rightarrow> False | Some r \<Rightarrow> r \<le> 0")
      case True
      then show ?thesis using passed cont stopped [OF \<open>jwt_verify c db\<close>] by (auto simp: Let_def)
    next
      case False
      then have q': "q = Inr (claims_source c, ?old)" "db1 = db2" using passed(2) by (auto simp: Let_def)
      have w: "renew_write env c (claims_source c, ?old) db2 = (r, db')" using cont q' by simp
      let ?ttl = "computeIssuedTtl (te_ceiling env) (rs_accessTokenTTL (claims_source c))
             (rs_accessTokenMaxTTL (claims_source c)) (rs_creationEpoch (claims_source c)) (now_seconds db2)"
      have pos: "0 < k" if "?old = Some k" for k using False that by simp
      show ?thesis
      proof (cases "?ttl \<le> 0")
        case True
        then have "r = Inl MaxTtlReached" "db' = db2" using w per by (auto simp: renew_write_def resolveTtlInputs_def split: if_splits)
        then show ?thesis using stopped [OF \<open>jwt_verify c db\<close>] passed(1) by simp
      next
        case False
        define n where "n = (case jw_numUsesLimit c of Some n \<Rightarrow> n | None \<Rightarrow> 0)"
        define c' where "c' = signIdentityAccessToken (now_seconds db2) \<lparr>si_identityAccessTokenId = jw_identityAccessTokenId c,
           si_identityId = jw_identityId c, si_numUsesLimit = n, si_ipRestrictionEnabled = (jw_ipRestrictionEnabled c = Some True),
           si_ttlSeconds = ?ttl, si_source = claims_source c\<rparr>"
        have n': "(case jw_numUsesLimit c of Some n \<Rightarrow> n | None \<Rightarrow> rs_numUsesLimit (claims_source c)) = n"
          by (simp add: n_def lim split: option.split)
        have res': "resolveTtlInputs (rs_accessTokenPeriod (claims_source c)) (rs_accessTokenTTL (claims_source c))
            (rs_accessTokenMaxTTL (claims_source c)) = (rs_accessTokenTTL (claims_source c), rs_accessTokenMaxTTL (claims_source c))"
          using per by (simp add: resolveTtlInputs_def)
        have "max 0 k = k" if "?old = Some k" for k using pos [OF that] by simp
        then have m: "(case ?old of None \<Rightarrow> (case jw_numUsesLimit c of Some n \<Rightarrow> n | None \<Rightarrow> rs_numUsesLimit (claims_source c)) | Some r \<Rightarrow> max 0 r) =
            (case ?old of None \<Rightarrow> n | Some k \<Rightarrow> k)"
          by (cases ?old) (simp_all add: n')
        have "renew_write env c (claims_source c, ?old) db2 = (Inr c', (if n > 0 then setUsesRemaining (jw_identityId c) (token_id c)
            (case ?old of None \<Rightarrow> n | Some k \<Rightarrow> k) (te_ceiling env) else id) (db2\<lparr>td_signed := c' # td_signed db2\<rparr>))"
          using False by (simp add: renew_write_def n' res' sign_def Let_def m c'_def)
        then have "r = Inr c' \<and> db' = (if n > 0 then setUsesRemaining (jw_identityId c) (token_id c)
            (case ?old of None \<Rightarrow> n | Some k \<Rightarrow> k) (te_ceiling env) else id) (db2\<lparr>td_signed := c' # td_signed db2\<rparr>)"
          using w by simp
        then show ?thesis
          using renewed [OF \<open>jwt_verify c db\<close> passed(1) _ refl pos n_def c'_def] by simp
      qed
    qed
  qed
qed

lemma renewed_same_token:
  assumes f: "token_facts env db c" and n: "n = (case jw_numUsesLimit c of Some n \<Rightarrow> n | None \<Rightarrow> 0)"
    and c': "c' = signIdentityAccessToken s \<lparr>si_identityAccessTokenId = jw_identityAccessTokenId c,
           si_identityId = jw_identityId c, si_numUsesLimit = n, si_ipRestrictionEnabled = b, si_ttlSeconds = ttl,
           si_source = claims_source c\<rparr>"
  shows "same_token c c'" "token_id c' = token_id c"
proof -
  obtain a where a: "jw_identityAuth c = Some a" using token_factsD(6) [OF f] by blast
  have "rs_numUsesLimit (claims_source c) = n" "rs_identityAuth (claims_source c) = Some a"
    using n a by (simp_all add: claims_source_def)
  moreover have "n > 0 \<longleftrightarrow> jw_numUsesLimit c \<noteq> None" "jw_numUsesLimit c \<noteq> None \<Longrightarrow> jw_numUsesLimit c = Some n" "jw_numUsesLimit c = None \<Longrightarrow> n = 0"
    using n token_factsD(7) [OF f] by (auto split: option.splits)
  ultimately show "same_token c c'"
    by (cases "jw_numUsesLimit c") (simp_all add: same_token_def c' claims_source_signed given_text_def)
  show "token_id c' = token_id c" using token_id_facts [OF f] by (simp add: c')
qed

lemma renew_keeps:
  assumes inv: "token_inv env db" and r: "renewAccessToken env lu c db = (r, db')"
  shows "token_inv env db'"
  using inv r
proof (cases rule: renew_effect)
  case early
  then show ?thesis using inv by simp
next
  case (refused x)
  show ?thesis by (rule check_token_keeps [OF inv jwt_signed [OF refused(1)] refused(2)])
next
  case stopped
  show ?thesis by (rule check_token_keeps [OF inv jwt_signed [OF stopped(1)] stopped(2)])
next
  case (renewed db1 c' n old)
  have inv1: "token_inv env db1" by (rule check_token_keeps [OF inv jwt_signed [OF renewed(1)] renewed(2)])
  have c: "c \<in> set (td_signed db1)"
    using jwt_signed [OF renewed(1)] same_tables_D(2) [OF check_same [OF renewed(2)]] by simp
  note f = token_invD(1) [OF inv1 c]
  have ids: "jw_identityAccessTokenId c \<noteq> []" "jw_identityId c \<noteq> []"
    using token_factsD(2) [OF f] by (simp_all add: hasCoreTokenClaims_def)
  have src: "rs_authMethod (claims_source c) \<noteq> []" "rs_orgId (claims_source c) \<noteq> []" "rs_rootOrgId (claims_source c) \<noteq> []"
    "rs_parentOrgId (claims_source c) \<noteq> []"
    using token_factsD(1) [OF f] by (auto simp: hasFullRenewClaims_def claims_source_def truthy_iff)
  have ep: "rs_creationEpoch (claims_source c) \<le> now_seconds db1" using f by (rule token_factsE) linarith
  have facts: "token_facts env db1 c'"
    unfolding renewed(7) by (rule signed_facts [OF src token_factsD(8) [OF f] ep ids(1) token_factsD(5) [OF f] ids(2) token_factsD(9) [OF f] refl])
  have "token_inv env (db1\<lparr>td_rows := td_rows db1 @ [], td_signed := c' # td_signed db1\<rparr>)"
    by (rule sign_keeps [OF inv1 facts]) (use c renewed_same_token [OF f renewed(6,7)] in auto)
  then have "token_inv env (db1\<lparr>td_signed := c' # td_signed db1\<rparr>)" by simp
  then show ?thesis unfolding renewed(8) using inv_counters same_but_counters_setUses by fastforce
qed

text \<open>Revocations: a record or a membership changes, then the version is bumped.\<close>

lemma bump_tables [simp]:
  "td_now (bumpRevocationVersion lu i db) = td_now db" "td_signed (bumpRevocationVersion lu i db) = td_signed db"
  "td_rows (bumpRevocationVersion lu i db) = td_rows db" "td_revocations (bumpRevocationVersion lu i db) = td_revocations db"
  "td_members (bumpRevocationVersion lu i db) = td_members db" "td_verdicts (bumpRevocationVersion lu i db) = td_verdicts db"
  "td_identities (bumpRevocationVersion lu i db) = td_identities db" "td_uses (bumpRevocationVersion lu i db) = td_uses db"
  "td_orgs (bumpRevocationVersion lu i db) = td_orgs db"
  by (simp_all add: bumpRevocationVersion_def)

lemma bump_keeps:
  assumes inv: "token_inv env db" and ch: "cache_inv (signed_org db) db' [] pend" "set pend \<subseteq> {i}" and ok: "bump_ok lu i db"
    and same: "td_now db' = td_now db" "td_signed db' = td_signed db" "td_rows db' = td_rows db"
      "td_identities db' = td_identities db" "td_versions db' = td_versions db" "td_verdicts db' = td_verdicts db"
  shows "token_inv env (bumpRevocationVersion lu i db')"
proof (rule inv_cache_change [OF inv])
  have "has_room db' i" using ok by (simp add: bump_ok_def has_room_def same cong: option.case_cong)
  then show "cache_inv (signed_org db) (bumpRevocationVersion lu i db') [] []"
    using ok ch(2) by (intro inv_bump [OF ch(1)]) (auto simp: bump_ok_def)
qed (simp_all add: same)

lemma revoke_keeps:
  assumes inv: "token_inv env db" and ok: "bump_ok lu i db"
  shows "token_inv env (bumpRevocationVersion lu i (insertRevocation k i e t scope db))"
  by (rule bump_keeps [OF inv inv_revoke [OF token_invD(5) [OF inv]] _ ok]) simp_all

lemma leave_keeps:
  assumes inv: "token_inv env db" and ok: "bump_ok lu i db"
  shows "token_inv env (bumpRevocationVersion lu i (insertRevocation k i e t scope (db\<lparr>td_members := (td_members db)(i := m)\<rparr>)))"
  by (rule bump_keeps [OF inv inv_revoke [OF inv_member [OF token_invD(5) [OF inv]]] _ ok]) simp_all

lemma join_keeps:
  assumes inv: "token_inv env db" and ok: "bump_ok lu i db"
  shows "token_inv env (bumpRevocationVersion lu i (deleteRevocationsByScope i s (db\<lparr>td_members := (td_members db)(i := m)\<rparr>)))"
  by (rule bump_keeps [OF inv inv_restore [OF inv_member [OF token_invD(5) [OF inv]]] _ ok])
    (simp_all add: deleteRevocationsByScope_def)

lemma revoke_effect:
  assumes inv: "token_inv env db" and r: "revokeAccessToken env lu c db = (out, db')"
  obtains (early) "db' = db" "isl out"
    | (revoked) "jwt_verify c db" "out = Inr (jw_identityAccessTokenId c)"
        "db' = bumpRevocationVersion lu (jw_identityId c) (insertRevocation (token_id c) (jw_identityId c)
           (computePerTokenMarkerExpiry (te_ceiling env) (jw_exp c) (rs_accessTokenTTL (claims_source c))
             (rs_accessTokenMaxTTL (claims_source c)) (rs_accessTokenPeriod (claims_source c)) (rs_creationEpoch (claims_source c))
             (now_seconds db)) None None db)"
proof (cases "jwt_verify c db")
  case False
  then have "db' = db" "isl out" using r by (auto simp: revokeAccessToken_def verifyAccessTokenJwt_def)
  then show ?thesis by (rule early)
next
  case True
  note f = token_invD(1) [OF inv jwt_signed [OF True]]
  show ?thesis
    using r True facts_source [OF f] token_factsD(4) [OF f]
    by (intro revoked) (auto simp: revokeAccessToken_def verifyAccessTokenJwt_def Let_def)
qed

lemma revokeToken_keeps:
  assumes inv: "token_inv env db" and ok: "bump_ok lu (jw_identityId c) db" and r: "revokeAccessToken env lu c db = (out, db')"
  shows "token_inv env db'"
  using inv r
proof (cases rule: revoke_effect)
  case early
  then show ?thesis using inv by simp
next
  case revoked
  then show ?thesis using revoke_keeps [OF inv ok] by simp
qed

lemma revoke_stored_effect:
  assumes "revokeTokenAuthToken env lu tid db = (u, db')"
  obtains (early) "db' = db" "isl u"
    | (revoked) r db1 e where "r \<in> set (td_rows db)" "tr_id r = tid" "u = Inr ()"
        "tr_identityId r \<in> ir_id ` set (td_identities db)"
        "db1 = db\<lparr>td_rows := map (\<lambda>r. if tr_id r = tid \<and> tr_authMethod r = TOKEN_AUTH then r\<lparr>tr_isAccessTokenRevoked := True\<rparr> else r) (td_rows db)\<rparr>"
        "e = computeTokenAuthRevokeMarkerExpiry (te_ceiling env) (tr_accessTokenTTL r) (tr_accessTokenMaxTTL r)
             (tr_accessTokenPeriod r) (tr_createdAt r) (now_seconds db)"
        "db' = (if e \<le> td_now db then db1 else bumpRevocationVersion lu (tr_identityId r) (insertRevocation tid (tr_identityId r) e None None db1))"
proof (cases "find (\<lambda>r. tr_id r = tid \<and> \<not> tr_isAccessTokenRevoked r \<and> tr_authMethod r = TOKEN_AUTH \<and>
      list_ex (\<lambda>x. ir_id x = tr_identityId r) (td_identities db)) (td_rows db)")
  case None
  then have "db' = db" "isl u" using assms by (auto simp: revokeTokenAuthToken_def)
  then show ?thesis by (rule early)
next
  case (Some r)
  then have "r \<in> set (td_rows db) \<and> tr_id r = tid \<and> list_ex (\<lambda>x. ir_id x = tr_identityId r) (td_identities db)"
    by (auto simp: find_Some_iff)
  then have "r \<in> set (td_rows db)" "tr_id r = tid" "tr_identityId r \<in> ir_id ` set (td_identities db)"
    by (auto simp: list_ex_iff intro: rev_image_eqI)
  moreover have "u = Inr ()" using Some assms by (auto simp: revokeTokenAuthToken_def Let_def)
  ultimately show ?thesis
    using Some assms by (intro revoked [OF _ _ _ _ refl refl]) (auto simp: revokeTokenAuthToken_def markPerTokenRevocation_def Let_def)
qed

lemma flagged_keeps:
  assumes inv: "token_inv env db"
  shows "token_inv env (db\<lparr>td_rows := map (\<lambda>r. if P r then r\<lparr>tr_isAccessTokenRevoked := True\<rparr> else r) (td_rows db)\<rparr>)"
    (is "token_inv env ?db")
proof -
  have org: "signed_org ?db = signed_org db" by (rule ext) (simp add: signed_org_def)
  have cache: "cache_inv (signed_org db) ?db [] []" by (rule inv_other [OF token_invD(5) [OF inv]]) simp_all
  have "\<exists>c \<in> set (td_signed db). token_id c = tr_id r \<and> row_facts env r c" if "r \<in> set (td_rows ?db)" for r
    using that token_invD(4) [OF inv] by (auto simp: row_facts_def)
  then show ?thesis
    using inv cache unfolding token_inv_def org token_facts_def by simp
qed

lemma revoke_stored_keeps:
  assumes inv: "token_inv env db" and ok: "\<And>i. i \<in> ir_id ` set (td_identities db) \<Longrightarrow> bump_ok lu i db"
    and r: "revokeTokenAuthToken env lu tid db = (u, db')"
  shows "token_inv env db'"
  using r
proof (cases rule: revoke_stored_effect)
  case early
  then show ?thesis using inv by simp
next
  case (revoked r db1 e)
  have inv1: "token_inv env db1" using flagged_keeps [OF inv] revoked(5) by simp
  have "bump_ok lu (tr_identityId r) db1" using ok [OF revoked(4)] revoked(5) by (simp add: bump_ok_def has_room_def cong: option.case_cong)
  then show ?thesis using inv1 revoke_keeps [OF inv1] revoked(7) by simp
qed

lemma prune_keeps:
  assumes inv: "token_inv env db"
  shows "token_inv env (db\<lparr>td_revocations := filter P (td_revocations db)\<rparr>)"
  by (rule inv_cache_change [OF inv]) (simp_all add: inv_prune [OF token_invD(5) [OF inv]])

lemma forget_keeps:
  assumes inv: "token_inv env db"
  shows "token_inv env (db\<lparr>td_verdicts := (td_verdicts db)(k := None)\<rparr>)"
  by (rule inv_cache_change [OF inv]) (simp_all add: inv_forget [OF token_invD(5) [OF inv]] split: if_splits)

lemma time_keeps:
  assumes inv: "token_inv env db" and d: "0 \<le> d"
  shows "token_inv env (db\<lparr>td_now := td_now db + d\<rparr>)"
  by (rule inv_cache_change [OF inv]) (simp_all add: d inv_time [OF token_invD(5) [OF inv] d])

lemma trust_keeps:
  assumes inv: "token_inv env db"
  shows "token_inv env (invalidateTrustedIpsCache i meth (db\<lparr>td_trusted := t\<rparr>))"
  by (rule inv_same_check_tables [OF inv]) (simp_all add: invalidateTrustedIpsCache_def)

lemmas revoking_defs = revokeAllTokensForIdentity_def insertIdentityWideRevocationMarker_def revokeAllTokensForClientSecret_def
  revokeTokensForIdentityAuthMethod_def insertScopedRevocation_def insertOrgMembershipRevocationMarker_def
  removeOrgMembershipRevocationMarkers_def bumpIdentityRevocationVersion_def

lemma step_keeps: "token_step env (db, log) (db', log') \<Longrightarrow> token_inv env db \<Longrightarrow> token_inv env db'"
  by (erule token_step.cases)
    (auto simp: revoking_defs intro: time_keeps issue_keeps authenticate_keeps renew_keeps revokeToken_keeps revoke_stored_keeps
      revoke_keeps leave_keeps join_keeps trust_keeps prune_keeps forget_keeps inv_counters [OF _ same_but_counters_uses])

lemma start_inv: "token_start db \<Longrightarrow> token_inv env db"
  by (simp add: token_start_def token_inv_def cache_inv_def version_keys_ok_def stamped_def promised_def)

lemma token_reach_inv: "token_reach env db log \<Longrightarrow> token_inv env db"
proof -
  have "(token_step env)\<^sup>*\<^sup>* (start, []) x \<Longrightarrow> token_inv env start \<Longrightarrow> token_inv env (fst x)" for start x
    by (induction rule: rtranclp_induct) (auto dest: step_keeps)
  then show "token_reach env db log \<Longrightarrow> token_inv env db"
    unfolding token_reach_def using start_inv by fastforce
qed

end
