(* ===== verification/TokenSamples.thy ===== *)
theory TokenSamples
  imports TokenRuns
begin

text \<open>A small run that the witnesses use: one identity, one token of two uses, a request and a renewal.\<close>

definition sample_token_env :: token_env where
  "sample_token_env = \<lparr>te_ceiling = 7776000, te_enforcedAt = 0, te_ips = sample_ip_library\<rparr>"

definition sample_token_start :: token_db where
  "sample_token_start = \<lparr>td_now = 1000000, td_signed = [], td_identities = [\<lparr>ir_id = ''bot'', ir_orgId = ''org'', ir_name = ''Bot''\<rparr>],
     td_orgs = [\<lparr>or_id = ''org'', or_rootOrgId = None, or_parentOrgId = None\<rparr>], td_rows = [], td_revocations = [],
     td_members = (\<lambda>i o'. if i = ''bot'' \<and> o' = ''org'' then Some True else None), td_trusted = (\<lambda>i m. None),
     td_uses = Map.empty, td_versions = Map.empty, td_verdicts = Map.empty, td_ipcache = Map.empty\<rparr>"

definition sample_token_input :: issue_input where
  "sample_token_input = \<lparr>is_identityId = ''bot'', is_identityName = ''Bot'', is_authMethod = TOKEN_AUTH, is_orgId = ''org'',
     is_rootOrgId = ''org'', is_parentOrgId = ''org'', is_subOrganizationId = None, is_accessTokenTTL = 600,
     is_accessTokenMaxTTL = 3600, is_accessTokenNumUsesLimit = 2, is_accessTokenPeriod = 0, is_accessTokenTrustedIps = [],
     is_clientSecretId = Some ''secret'', is_identityAuth = None, is_persistToPg = True\<rparr>"

definition later :: "int \<Rightarrow> token_db \<Rightarrow> token_db" where
  "later d db = db\<lparr>td_now := td_now db + d\<rparr>"

definition sample_token_db :: token_db where
  "sample_token_db = snd (issueIdentityAccessToken sample_token_env ''t1'' sample_token_input sample_token_start)"

definition sample_token :: claims where
  "sample_token = fst (fst (issueIdentityAccessToken sample_token_env ''t1'' sample_token_input sample_token_start))"

definition sample_token_used :: token_db where
  "sample_token_used = snd (authenticate sample_token_env fine sample_token None sample_token_db)"

definition sample_renewal :: "(token_error + claims) \<times> token_db" where
  "sample_renewal = renewAccessToken sample_token_env fine sample_token (later 100000 sample_token_used)"

lemmas sample_token_defs = sample_token_env_def sample_token_start_def sample_token_input_def sample_token_db_def sample_token_def

lemma sample_issue:
  "issueIdentityAccessToken sample_token_env ''t1'' sample_token_input sample_token_start =
     ((sample_token, snd (fst (issueIdentityAccessToken sample_token_env ''t1'' sample_token_input sample_token_start))), sample_token_db)"
  by (simp add: sample_token_def sample_token_db_def)

lemma sample_token_start_ok: "token_start sample_token_start"
  by (simp add: token_start_def sample_token_start_def)

lemma sample_issue_step: "token_step sample_token_env (sample_token_start, []) (sample_token_db, [])"
  by (rule s_issue [OF _ _ sample_issue])
    (simp_all add: fresh_def issue_ok_def sample_token_start_def sample_token_input_def TOKEN_AUTH_def)

lemma sample_reach: "token_reach sample_token_env sample_token_db []"
  unfolding token_reach_def using sample_token_start_ok sample_issue_step by blast

lemma sample_used_ok: "fst (authenticate sample_token_env fine sample_token None sample_token_db) = Inr (claims_source sample_token)"
  by code_simp

lemma sample_used_step: "token_step sample_token_env (sample_token_db, []) (sample_token_used, [Used ''t1''])"
proof -
  have "token_id sample_token = ''t1''" by code_simp
  then show ?thesis
    using s_request [of sample_token_env fine sample_token None sample_token_db "Inr (claims_source sample_token)" sample_token_used "[]"]
      sample_used_ok by (simp add: logged_def sample_token_used_def prod_eq_iff)
qed

lemma sample_later_step: "0 \<le> d \<Longrightarrow> token_step env (db, log) (later d db, log)"
  unfolding later_def by (rule s_time)

lemma sample_renew_step: "token_step sample_token_env (later 100000 sample_token_used, log) (snd sample_renewal, log)"
  by (rule s_renew [of _ fine sample_token _ "fst sample_renewal"]) (simp add: sample_renewal_def)

lemma reach_step: "token_reach env db log \<Longrightarrow> token_step env (db, log) (db', log') \<Longrightarrow> token_reach env db' log'"
  unfolding token_reach_def by (metis rtranclp.rtrancl_into_rtrancl)

lemma sample_renewed_reach: "token_reach sample_token_env (snd sample_renewal) [Used ''t1'']"
  by (rule reach_step [OF reach_step [OF reach_step [OF sample_reach sample_used_step] sample_later_step] sample_renew_step]) simp

lemma sample_renewed_ok:
  "projr (fst sample_renewal) \<in> set (td_signed (snd sample_renewal))" "sample_token \<in> set (td_signed (snd sample_renewal))"
  "token_id (projr (fst sample_renewal)) = token_id sample_token" "jw_exp (projr (fst sample_renewal)) = Some 1700"
  by code_simp+

end
