(* ===== verification/TokenProperties.thy ===== *)
theory TokenProperties
  imports TokenSamples
begin

text \<open>
  What holds in every run of the operations of access tokens: how long a token and its renewals live, how often
  a token with a limit is accepted, and that a revoked token is never accepted or renewed again.
\<close>

section \<open>Lifetimes\<close>

lemma facts_cap:
  assumes "token_facts env db d"
  obtains i e where "jw_iat d = Some i" "jw_exp d = Some e" "i \<le> now_seconds db"
    "e \<le> i + computeSingleIssuanceTtlCap (te_ceiling env) (rs_accessTokenTTL (claims_source d)) (rs_accessTokenPeriod (claims_source d))"
    "rs_accessTokenMaxTTL (claims_source d) > 0 \<longrightarrow> e \<le> rs_creationEpoch (claims_source d) + rs_accessTokenMaxTTL (claims_source d)"
proof -
  obtain i e where f: "jw_iat d = Some i" "jw_exp d = Some e" "i \<le> now_seconds db" "e \<le> i + te_ceiling env"
    "rs_accessTokenTTL (claims_source d) > 0 \<longrightarrow> e \<le> i + rs_accessTokenTTL (claims_source d)"
    "rs_accessTokenMaxTTL (claims_source d) > 0 \<longrightarrow> e \<le> rs_creationEpoch (claims_source d) + rs_accessTokenMaxTTL (claims_source d)"
    using assms unfolding token_facts_def by blast
  have "e \<le> i + computeSingleIssuanceTtlCap (te_ceiling env) (rs_accessTokenTTL (claims_source d)) (rs_accessTokenPeriod (claims_source d))"
    using f(4,5) token_factsD(8) [OF assms] by (auto simp: computeSingleIssuanceTtlCap_def Let_def min_def)
  then show thesis using that f by blast
qed

text \<open>
  C13: In every reachable state, a token of which an earlier token with the same identifier is known, by renewals however
  many, expires at the latest one single lifetime after it was signed, never after the total that counts
  from the first signing, and was not signed later than now.
\<close>

theorem renewals_stay_within_budget:
  assumes "token_reach env db log" "c \<in> set (td_signed db)" "d \<in> set (td_signed db)" "token_id c = token_id d"
  shows "\<exists>i e. jw_iat d = Some i \<and> jw_exp d = Some e \<and> i \<le> now_seconds db \<and>
      e \<le> i + computeSingleIssuanceTtlCap (te_ceiling env) (rs_accessTokenTTL (claims_source c)) (rs_accessTokenPeriod (claims_source c)) \<and>
      (rs_accessTokenMaxTTL (claims_source c) > 0 \<longrightarrow>
         e \<le> rs_creationEpoch (claims_source c) + rs_accessTokenMaxTTL (claims_source c))"
proof -
  note inv = token_invD [OF token_reach_inv [OF assms(1)]]
  have "claims_source d = claims_source c" using inv(2) [OF assms(2-4)] by (simp add: same_token_def)
  moreover obtain i e where "jw_iat d = Some i" "jw_exp d = Some e" "i \<le> now_seconds db"
    "e \<le> i + computeSingleIssuanceTtlCap (te_ceiling env) (rs_accessTokenTTL (claims_source d)) (rs_accessTokenPeriod (claims_source d))"
    "rs_accessTokenMaxTTL (claims_source d) > 0 \<longrightarrow> e \<le> rs_creationEpoch (claims_source d) + rs_accessTokenMaxTTL (claims_source d)"
    using inv(1) [OF assms(3)] by (rule facts_cap)
  ultimately show ?thesis by simp
qed

theorem renewals_stay_within_budget_witness:
  "the (jw_exp (projr (fst sample_renewal))) \<le> rs_creationEpoch (claims_source sample_token) + rs_accessTokenMaxTTL (claims_source sample_token)"
proof -
  have "rs_accessTokenMaxTTL (claims_source sample_token) > 0" by code_simp
  then show ?thesis
    using renewals_stay_within_budget [OF sample_renewed_reach sample_renewed_ok(2,1) sample_renewed_ok(3) [symmetric]] by auto
qed

section \<open>Limits on uses\<close>

definition uses_of :: "usage list \<Rightarrow> string \<Rightarrow> int" where
  "uses_of log tid = int (count_list log (Used tid))"

definition losses_of :: "usage list \<Rightarrow> string \<Rightarrow> int" where
  "losses_of log tid = int (count_list log (Lost tid))"

lemma log_simps [simp]:
  "uses_of [] t = 0" "losses_of [] t = 0"
  "uses_of (Used s # log) t = uses_of log t + (if s = t then 1 else 0)" "uses_of (Lost s # log) t = uses_of log t"
  "losses_of (Used s # log) t = losses_of log t" "losses_of (Lost s # log) t = losses_of log t + (if s = t then 1 else 0)"
  "0 \<le> uses_of log t" "0 \<le> losses_of log t"
  by (simp_all add: uses_of_def losses_of_def)

text \<open>The counter of a token against the log: what is left was not used, or the counter is lost and not written yet.\<close>

definition counter_ok :: "token_db \<Rightarrow> usage list \<Rightarrow> claims \<Rightarrow> int \<Rightarrow> bool" where
  "counter_ok db log c n \<longleftrightarrow> (case td_uses db (jw_identityId c, token_id c) of
     None \<Rightarrow> Lost (token_id c) \<in> set log \<and> uses_of log (token_id c) \<le> n * losses_of log (token_id c)
   | Some (r, e) \<Rightarrow> 0 \<le> r \<and> uses_of log (token_id c) + r \<le> n * (1 + losses_of log (token_id c)) \<and>
       (\<exists>t. e = Some t \<and> the (jw_exp c) * 1000 \<le> t))"

definition uses_inv :: "token_db \<Rightarrow> usage list \<Rightarrow> bool" where
  "uses_inv db log \<longleftrightarrow> (\<forall>i. Used i \<in> set log \<longrightarrow> i \<in> token_id ` set (td_signed db)) \<and>
     (\<forall>c \<in> set (td_signed db). \<forall>n. jw_numUsesLimit c = Some n \<longrightarrow> counter_ok db log c n)"

lemma uses_invD:
  assumes "uses_inv db log"
  shows "Used i \<in> set log \<Longrightarrow> i \<in> token_id ` set (td_signed db)"
    "c \<in> set (td_signed db) \<Longrightarrow> jw_numUsesLimit c = Some n \<Longrightarrow> counter_ok db log c n"
  using assms unfolding uses_inv_def by blast+

lemma uses_invI:
  assumes "\<And>i. Used i \<in> set log \<Longrightarrow> i \<in> token_id ` set (td_signed db)"
    and "\<And>c n. c \<in> set (td_signed db) \<Longrightarrow> jw_numUsesLimit c = Some n \<Longrightarrow> counter_ok db log c n"
  shows "uses_inv db log"
  using assms unfolding uses_inv_def by blast

lemma uses_inv_same: "uses_inv db log \<Longrightarrow> td_signed db' = td_signed db \<Longrightarrow> td_uses db' = td_uses db \<Longrightarrow> uses_inv db' log"
  by (simp add: uses_inv_def counter_ok_def)

text \<open>What happens to other tokens and their counters does not matter.\<close>

lemma counter_ok_same:
  assumes "counter_ok db log c n" "td_uses db' (jw_identityId c, token_id c) = td_uses db (jw_identityId c, token_id c)"
    and "uses_of log' (token_id c) = uses_of log (token_id c)" "losses_of log' (token_id c) = losses_of log (token_id c)"
    and "set log \<subseteq> set log'"
  shows "counter_ok db' log' c n"
  using assms by (auto simp: counter_ok_def split: option.splits prod.splits)

lemma counter_okE:
  assumes "counter_ok db log c n"
  obtains (kept) r t where "td_uses db (jw_identityId c, token_id c) = Some (r, Some t)" "0 \<le> r"
      "uses_of log (token_id c) + r \<le> n * (1 + losses_of log (token_id c))" "the (jw_exp c) * 1000 \<le> t"
    | (lost) "td_uses db (jw_identityId c, token_id c) = None" "Lost (token_id c) \<in> set log"
      "uses_of log (token_id c) \<le> n * losses_of log (token_id c)"
  using assms by (auto simp: counter_ok_def split: option.splits prod.splits)

lemma counter_okI:
  assumes "td_uses db (jw_identityId c, token_id c) = Some (r, Some t)" "0 \<le> r"
    "uses_of log (token_id c) + r \<le> n * (1 + losses_of log (token_id c))" "the (jw_exp c) * 1000 \<le> t"
  shows "counter_ok db log c n"
  using assms by (simp add: counter_ok_def)

lemma check_verify: "check_token lu ck db = (r, db1) \<Longrightarrow> jwt_verify c db1 = jwt_verify c db"
  by (drule check_same) (simp add: jwt_verify_def same_tables_D cong: option.case_cong)

text \<open>A token that is still accepted by the library has its counter in the store, unless that was lost.\<close>

lemma counter_alive:
  assumes inv: "token_inv env db" and u: "uses_inv db log" and c: "jwt_verify c db" and n: "jw_numUsesLimit c = Some n"
  obtains (kept) r t where "td_uses db (jw_identityId c, token_id c) = Some (r, Some t)" "0 \<le> r"
    "uses_of log (token_id c) + r \<le> n * (1 + losses_of log (token_id c))" "td_now db < t"
    "key_get (td_now db) (td_uses db) (jw_identityId c, token_id c) = Some r"
    | (lost) "td_uses db (jw_identityId c, token_id c) = None" "Lost (token_id c) \<in> set log"
    "uses_of log (token_id c) \<le> n * losses_of log (token_id c)"
    "key_get (td_now db) (td_uses db) (jw_identityId c, token_id c) = None"
proof -
  note f = token_invD(1) [OF inv jwt_signed [OF c]]
  show thesis
    using uses_invD(2) [OF u jwt_signed [OF c] n]
  proof (cases rule: counter_okE)
    case (kept r t)
    obtain e where e: "jw_exp c = Some e" using f by (rule token_factsE)
    then have "now_seconds db < e" using c by (simp add: jwt_verify_def)
    then have "td_now db < e * 1000" by linarith
    then have "td_now db < t" using kept(4) e by simp
    then show thesis using that(1) kept by (simp add: key_get_def)
  next
    case lost
    then show thesis using that(2) by simp
  qed
qed

text \<open>A token that was just signed expires before a counter written now.\<close>

lemma counter_outlives:
  assumes f: "token_facts env db c"
  shows "the (jw_exp c) * 1000 \<le> td_now db + te_ceiling env * 1000"
proof -
  obtain i e where "jw_exp c = Some e" "i \<le> now_seconds db" "e \<le> i + te_ceiling env" using f by (rule token_factsE)
  then show ?thesis by simp
qed

text \<open>A counter that is written anew, for all tokens with the identifier, and perhaps one more use of them.\<close>

lemma uses_inv_write:
  assumes inv: "token_inv env db'" and u: "uses_inv db log" and c: "c \<in> set (td_signed db')" and n: "jw_numUsesLimit c = Some n"
    and sig: "td_signed db' = new @ td_signed db" "\<And>d. d \<in> set new \<Longrightarrow> token_id d = token_id c"
    and wr: "td_uses db' = (td_uses db)((jw_identityId c, token_id c) \<mapsto> (r, Some t))"
    and outlives: "\<And>d. d \<in> set (td_signed db') \<Longrightarrow> token_id d = token_id c \<Longrightarrow> the (jw_exp d) * 1000 \<le> t"
    and log: "log' = log \<or> log' = Used (token_id c) # log" and r: "0 \<le> r"
    and left: "uses_of log' (token_id c) + r \<le> n * (1 + losses_of log' (token_id c))"
  shows "uses_inv db' log'"
proof (rule uses_invI)
  fix i assume "Used i \<in> set log'"
  then have "i = token_id c \<or> Used i \<in> set log" using log by auto
  then show "i \<in> token_id ` set (td_signed db')" using c uses_invD(1) [OF u, of i] sig(1) by auto
next
  fix d m assume d: "d \<in> set (td_signed db')" "jw_numUsesLimit d = Some m"
  show "counter_ok db' log' d m"
  proof (cases "token_id d = token_id c")
    case True
    then have "same_token c d" using token_invD(2) [OF inv c d(1)] by simp
    then have "jw_identityId d = jw_identityId c" "m = n" using d(2) n by (simp_all add: same_token_def)
    then show ?thesis using True left r outlives [OF d(1) True] by (intro counter_okI [of _ _ r t]) (simp_all add: wr)
  next
    case False
    then have "d \<in> set (td_signed db)" using d(1) sig by auto
    then have "counter_ok db log d m" using uses_invD(2) [OF u] d(2) by blast
    then show ?thesis by (rule counter_ok_same) (use False log in \<open>auto simp: wr\<close>)
  qed
qed

lemma uses_inv_cons:
  assumes u: "uses_inv db log" and c: "c \<in> set (td_signed db)"
    and other: "\<And>d n. d \<in> set (td_signed db) \<Longrightarrow> jw_numUsesLimit d = Some n \<Longrightarrow> token_id d \<noteq> token_id c"
  shows "uses_inv db (Used (token_id c) # log)"
proof (rule uses_invI)
  fix i assume "Used i \<in> set (Used (token_id c) # log)"
  then show "i \<in> token_id ` set (td_signed db)" using c uses_invD(1) [OF u, of i] by auto
next
  fix d n assume d: "d \<in> set (td_signed db)" "jw_numUsesLimit d = Some n"
  show "counter_ok db (Used (token_id c) # log) d n"
    by (rule counter_ok_same [OF uses_invD(2) [OF u d]]) (use other [OF d] in auto)
qed

text \<open>One more use, counted or not.\<close>

lemma uses_inv_count:
  assumes inv: "token_inv env db" and u: "uses_inv db log" and c: "jwt_verify c db"
    and r: "count_use env c (claims_source c) db = (q, db')"
  shows "uses_inv db' (case q of Inl _ \<Rightarrow> log | Inr _ \<Rightarrow> Used (token_id c) # log)" "uses_inv db' log"
proof -
  note sig = jwt_signed [OF c]
  have lim: "rs_numUsesLimit (claims_source c) = (case jw_numUsesLimit c of Some n \<Rightarrow> n | None \<Rightarrow> 0)" by (simp add: claims_source_def)
  have inv': "token_inv env db'" by (rule inv_counters [OF inv count_use_same [OF r]])
  have both: "uses_inv db' log \<and> (q = Inr () \<longrightarrow> uses_inv db' (Used (token_id c) # log))"
  proof (cases "jw_numUsesLimit c")
    case None
    then have db: "db' = db" using r lim by (auto simp: count_use_def Let_def split: if_splits)
    have "token_id d \<noteq> token_id c" if "d \<in> set (td_signed db)" "jw_numUsesLimit d = Some n" for d n
      using token_invD(2) [OF inv sig that(1)] None that(2) by (auto simp: same_token_def)
    then have "uses_inv db (Used (token_id c) # log)" by (intro uses_inv_cons [OF u sig]) blast
    then show ?thesis using u db by simp
  next
    case (Some n)
    have n: "0 < n" using token_factsD(7) [OF token_invD(1) [OF inv sig] Some] .
    have written: "uses_inv db' log \<and> uses_inv db' (Used (token_id c) # log)"
      if wr: "db' = db\<lparr>td_uses := (td_uses db)((jw_identityId c, token_id c) \<mapsto> (k, Some t))\<rparr>" and k: "0 \<le> k"
        "uses_of log (token_id c) + 1 + k \<le> n * (1 + losses_of log (token_id c))"
        and out: "\<And>d. d \<in> set (td_signed db) \<Longrightarrow> token_id d = token_id c \<Longrightarrow> the (jw_exp d) * 1000 \<le> t" for k t
    proof -
      have "uses_inv db' log'" if "log' = log \<or> log' = Used (token_id c) # log" for log'
        by (rule uses_inv_write [OF inv' u _ Some, of "[]" k t]) (use wr k out sig that in auto)
      then show ?thesis by blast
    qed
    show ?thesis
      using inv u c Some
    proof (cases rule: counter_alive)
      case (kept k t)
      show ?thesis
      proof (cases "k \<le> 0")
        case True
        then have "db' = db" "q \<noteq> Inr ()" using r kept(5) by (auto simp: count_use_def Let_def)
        then show ?thesis using u by simp
      next
        case False
        have "the (jw_exp d) * 1000 \<le> t" if d: "d \<in> set (td_signed db)" "token_id d = token_id c" for d
        proof -
          have s: "same_token c d" using token_invD(2) [OF inv sig d(1)] d(2) by simp
          then have "counter_ok db log d n" using uses_invD(2) [OF u d(1)] Some by (simp add: same_token_def)
          then show ?thesis using s kept(1) d(2) by (simp add: counter_ok_def same_token_def)
        qed
        moreover have "db' = db\<lparr>td_uses := (td_uses db)((jw_identityId c, token_id c) \<mapsto> (k - 1, Some t))\<rparr>"
          using r False kept n Some by (auto simp: count_use_def Let_def incrementBy_def split: if_splits)
        ultimately show ?thesis using written [of "k - 1" t] kept(3) False by simp
      qed
    next
      case lost
      have "db' = db\<lparr>td_uses := (td_uses db)((jw_identityId c, token_id c) \<mapsto> (n - 1, Some (td_now db + te_ceiling env * 1000)))\<rparr>"
        using r lost(4) n Some by (auto simp: count_use_def Let_def setUsesRemaining_def setItemWithExpiry_def)
      then show ?thesis
        using written [of "n - 1"] lost(3) n counter_outlives [OF token_invD(1) [OF inv]] by (simp add: distrib_left)
    qed
  qed
  then show "uses_inv db' log" by blast
  show "uses_inv db' (case q of Inl _ \<Rightarrow> log | Inr _ \<Rightarrow> Used (token_id c) # log)" using both by (cases q) simp_all
qed

lemma uses_inv_request:
  assumes inv: "token_inv env db" and u: "uses_inv db log" and r: "authenticate env lu c ip db = (r, db')"
  shows "uses_inv db' (logged c r log)"
  using inv r
proof (cases rule: authenticate_effect)
  case early
  then show ?thesis using u by (cases r) (simp_all add: logged_def)
next
  case (refused x)
  then show ?thesis using uses_inv_same [OF u] same_tables_D [OF check_same [OF refused(2)]] by (cases r) (simp_all add: logged_def)
next
  case (spent db1 e)
  note s = same_tables_D [OF check_same [OF spent(2)]]
  have inv1: "token_inv env db1" by (rule check_token_keeps [OF inv jwt_signed [OF spent(1)] spent(2)])
  have "jwt_verify c db1" using spent(1) check_verify [OF spent(2)] by simp
  then show ?thesis using uses_inv_count(2) [OF inv1 uses_inv_same [OF u s(2,7)] _ spent(3)] spent(4) by (cases r) (simp_all add: logged_def)
next
  case (counted db1 db2 q)
  note s = same_tables_D [OF check_same [OF counted(2)]]
  have inv1: "token_inv env db1" by (rule check_token_keeps [OF inv jwt_signed [OF counted(1)] counted(2)])
  have "jwt_verify c db1" using counted(1) check_verify [OF counted(2)] by simp
  note two = uses_inv_count [OF inv1 uses_inv_same [OF u s(2,7)] this counted(3)]
  have same: "td_signed db' = td_signed db2" "td_uses db' = td_uses db2"
    using check_address_same [OF counted(4)] by (simp_all add: same_but_counters_def)
  show ?thesis using two same by (cases r) (auto simp: logged_def intro: uses_inv_same)
qed

lemma uses_inv_renew:
  assumes inv: "token_inv env db" and u: "uses_inv db log" and r: "renewAccessToken env lu c db = (r, db')"
  shows "uses_inv db' log"
  using inv r
proof (cases rule: renew_effect)
  case early
  then show ?thesis using u by simp
next
  case (refused x)
  then show ?thesis using uses_inv_same [OF u] same_tables_D [OF check_same [OF refused(2)]] by simp
next
  case stopped
  then show ?thesis using uses_inv_same [OF u] same_tables_D [OF check_same [OF stopped(2)]] by simp
next
  case (renewed db1 c' n old)
  note s = same_tables_D [OF check_same [OF renewed(2)]]
  have inv1: "token_inv env db1" by (rule check_token_keeps [OF inv jwt_signed [OF renewed(1)] renewed(2)])
  have inv': "token_inv env db'" by (rule renew_keeps [OF inv r])
  have u1: "uses_inv db1 log" by (rule uses_inv_same [OF u s(2,7)])
  have v: "jwt_verify c db1" using renewed(1) check_verify [OF renewed(2)] by simp
  note f = token_invD(1) [OF inv1 jwt_signed [OF v]]
  note same = renewed_same_token [OF f renewed(6,7)]
  show ?thesis
  proof (cases "jw_numUsesLimit c")
    case None
    then have db: "db' = db1\<lparr>td_signed := c' # td_signed db1\<rparr>" using renewed(6,8) by simp
    have "jw_numUsesLimit c' = None" using same(1) None by (simp add: same_token_def)
    then show ?thesis using u1 unfolding uses_inv_def db counter_ok_def by auto
  next
    case (Some k)
    have k: "0 < k" "n = k" using token_factsD(7) [OF f Some] renewed(6) Some by simp_all
    define x where "x = (case key_get (td_now db1) (td_uses db1) (jw_identityId c, token_id c) of None \<Rightarrow> n | Some y \<Rightarrow> y)"
    have db: "db' = db1\<lparr>td_signed := c' # td_signed db1,
        td_uses := (td_uses db1)((jw_identityId c, token_id c) \<mapsto> (x, Some (td_now db1 + te_ceiling env * 1000)))\<rparr>"
      using renewed(4,8) k(1) [folded k(2)] by (simp add: setUsesRemaining_def setItemWithExpiry_def x_def)
    have left: "0 \<le> x \<and> uses_of log (token_id c) + x \<le> k * (1 + losses_of log (token_id c))"
      using inv1 u1 v Some by (cases rule: counter_alive) (use k in \<open>simp_all add: x_def distrib_left\<close>)
    have "c \<in> set (td_signed db')" using jwt_signed [OF v] by (simp add: db)
    from inv' u1 this Some show ?thesis
      by (rule uses_inv_write [where new = "[c']" and r = x and t = "td_now db1 + te_ceiling env * 1000"])
        (use same(2) left counter_outlives [OF token_invD(1) [OF inv']] in \<open>auto simp: db\<close>)
  qed
qed

lemma uses_inv_issue:
  assumes inv: "token_inv env db" and u: "uses_inv db log" and fr: "fresh newId db" and ok: "issue_ok input db"
    and r: "issueIdentityAccessToken env newId input db = (out, db')"
  shows "uses_inv db' log"
proof -
  obtain c row where out: "out = (c, row)" by (cases out)
  note e = issue_effect [OF r [unfolded out]]
  have inv': "token_inv env db'" by (rule issue_keeps [OF inv fr ok r])
  have id: "token_id c = newId" "jw_identityId c = is_identityId input" by (simp_all add: e(1))
  have new: "newId \<notin> token_id ` set (td_signed db)" using fr by (simp add: fresh_def)
  then have zero: "uses_of log newId = 0" using uses_invD(1) [OF u, of newId] by (simp add: uses_of_def count_list_0_iff) blast
  have sig: "td_signed db' = [c] @ td_signed db" by (simp add: e(2) setUsesRemaining_def)
  show ?thesis
  proof (cases "jw_numUsesLimit c")
    case None
    then have "\<not> 0 < is_accessTokenNumUsesLimit input" by (simp add: e(1) split: if_splits)
    then have "td_uses db' = td_uses db" by (simp add: e(2))
    then show ?thesis using u None unfolding uses_inv_def sig by (auto simp: counter_ok_def)
  next
    case (Some m)
    then have m: "0 < m" "is_accessTokenNumUsesLimit input = m" by (simp_all add: e(1) split: if_splits)
    have now: "td_now db' = td_now db" by (simp add: e(2) setUsesRemaining_def)
    have "0 \<le> m * losses_of log newId" using m(1) by simp
    then have left: "uses_of log (token_id c) + m \<le> m * (1 + losses_of log (token_id c))" using zero id by (simp add: distrib_left)
    have "td_uses db' = (td_uses db)((jw_identityId c, token_id c) \<mapsto> (m, Some (td_now db + te_ceiling env * 1000)))"
      using m by (simp add: e(2) id setUsesRemaining_def setItemWithExpiry_def)
    then show ?thesis
      using counter_outlives [OF token_invD(1) [OF inv']] m(1) left
      by (intro uses_inv_write [OF inv' u _ Some sig]) (simp_all add: sig now)
  qed
qed

text \<open>A counter that the store loses.\<close>

lemma uses_inv_lose:
  assumes inv: "token_inv env db" and u: "uses_inv db log"
  shows "uses_inv (db\<lparr>td_uses := (td_uses db)((i, tid) := None)\<rparr>) (Lost tid # log)"
proof (rule uses_invI)
  fix d n assume "d \<in> set (td_signed (db\<lparr>td_uses := (td_uses db)((i, tid) := None)\<rparr>))" and n: "jw_numUsesLimit d = Some n"
  then have d: "d \<in> set (td_signed db)" by simp
  have "0 < n" using token_factsD(7) [OF token_invD(1) [OF inv d] n] .
  moreover have "counter_ok db log d n" using uses_invD(2) [OF u d n] .
  ultimately show "counter_ok (db\<lparr>td_uses := (td_uses db)((i, tid) := None)\<rparr>) (Lost tid # log) d n"
    by (auto simp: counter_ok_def distrib_left split: option.splits)
qed (use uses_invD(1) [OF u] in auto)

lemma revoke_same_uses: "revokeAccessToken env lu c db = (out, db') \<Longrightarrow> td_signed db' = td_signed db \<and> td_uses db' = td_uses db"
  by (auto simp: revokeAccessToken_def Let_def split: sum.splits)

lemma revoke_stored_same_uses:
  "revokeTokenAuthToken env lu tid db = (u, db') \<Longrightarrow> td_signed db' = td_signed db \<and> td_uses db' = td_uses db"
  by (erule revoke_stored_effect) (auto split: if_splits)

lemma step_uses:
  assumes "token_step env (db, log) (db', log')" "token_inv env db" "uses_inv db log"
  shows "uses_inv db' log'"
  using assms(1)
  by (cases rule: token_step.cases)
    (auto simp: revoking_defs deleteRevocationsByScope_def invalidateTrustedIpsCache_def
      intro: uses_inv_same [OF assms(3)] uses_inv_lose [OF assms(2,3)] uses_inv_issue [OF assms(2,3)] uses_inv_request [OF assms(2,3)] uses_inv_renew [OF assms(2,3)]
      dest: revoke_same_uses revoke_stored_same_uses)

lemma reach_uses:
  assumes "token_reach env db log"
  shows "uses_inv db log"
proof -
  obtain start where start: "token_start start" and run: "(token_step env)\<^sup>*\<^sup>* (start, []) (db, log)"
    using assms unfolding token_reach_def by blast
  have "token_inv env (fst x) \<and> uses_inv (fst x) (snd x)" if "(token_step env)\<^sup>*\<^sup>* (start, []) x" for x
    using that
  proof (induction rule: rtranclp_induct)
    case base
    then show ?case using start start_inv by (simp add: uses_inv_def token_start_def)
  next
    case (step y z)
    then show ?case using step_keeps [of env "fst y" "snd y" "fst z" "snd z"] step_uses [of env "fst y" "snd y" "fst z" "snd z"] by simp
  qed
  from this [OF run] show ?thesis by simp
qed

text \<open>
  C5: In every state that calls reach which do not overlap, the requests that were let through with a token of limited
  use, with its renewals, are at most as many as the limit says, and as many again for each time that the key store
  lost the counter of the token.
\<close>

theorem uses_within_limit:
  assumes "token_reach env db log" "c \<in> set (td_signed db)" "jw_numUsesLimit c = Some n"
  shows "int (count_list log (Used (token_id c))) \<le> n * (1 + int (count_list log (Lost (token_id c))))"
proof -
  have "0 < n" using token_factsD(7) [OF token_invD(1) [OF token_reach_inv [OF assms(1)] assms(2)] assms(3)] .
  moreover have "counter_ok db log c n" using uses_invD(2) [OF reach_uses [OF assms(1)] assms(2,3)] .
  ultimately show ?thesis
    by (auto simp: distrib_left uses_of_def losses_of_def elim!: counter_okE)
qed

section \<open>Revoked tokens\<close>

text \<open>Every token with the identifier has expired, or a record blocks it for as long as it lives.\<close>

definition dead :: "token_db \<Rightarrow> string \<Rightarrow> bool" where
  "dead db tid \<longleftrightarrow> tid \<in> token_id ` set (td_signed db) \<and>
     (\<forall>c \<in> set (td_signed db). token_id c = tid \<longrightarrow> the (jw_exp c) \<le> now_seconds db \<or>
        (\<exists>m \<in> set (td_revocations db). mk_id m = tid \<and> mk_identityId m = jw_identityId c \<and> mk_scope m = None \<and>
           the (jw_exp c) * 1000 \<le> mk_expiresAt m))"

lemma deadD:
  assumes "dead db tid" "c \<in> set (td_signed db)" "token_id c = tid"
  obtains "the (jw_exp c) \<le> now_seconds db" | m where "m \<in> set (td_revocations db)" "mk_id m = tid"
    "mk_identityId m = jw_identityId c" "mk_scope m = None" "the (jw_exp c) * 1000 \<le> mk_expiresAt m"
  using assms unfolding dead_def by blast

lemma dead_not_passed:
  assumes inv: "token_inv env db" and d: "dead db tid" and c: "jwt_verify c db" "token_id c = tid"
  shows "check_token lu (own_check c) db \<noteq> (None, db')"
proof
  assume pass: "check_token lu (own_check c) db = (None, db')"
  note sig = jwt_signed [OF c(1)]
  obtain e where e: "jw_exp c = Some e" using token_invD(1) [OF inv sig] by (rule token_factsE)
  then have now: "now_seconds db < e" using c(1) by (simp add: jwt_verify_def)
  have n: "active_marker db (jw_identityId c) m \<Longrightarrow> \<not> marker_blocks (own_check c) m" for m
    using passed_check [OF inv sig pass] unfolding database_verdict_None_iff by (simp add: check_of_def)
  show False using d sig c(2)
  proof (cases rule: deadD)
    case 1
    then show False using now e by simp
  next
    case (2 m)
    have "td_now db < mk_expiresAt m" using 2(5) e now by simp
    then have "active_marker db (jw_identityId c) m" using 2 by (simp add: active_marker_def)
    then show False using n [of m] 2 c(2) by (simp add: marker_blocks_def check_of_def)
  qed
qed

lemma dead_refused:
  assumes inv: "token_inv env db" and d: "dead db tid" and c: "token_id c = tid"
  shows "isl (fst (authenticate env lu c ip db))" "isl (fst (renewAccessToken env lu' c db))"
proof -
  obtain r db1 where r: "authenticate env lu c ip db = (r, db1)" by (cases "authenticate env lu c ip db")
  show "isl (fst (authenticate env lu c ip db))"
    using inv r by (cases rule: authenticate_effect) (use r dead_not_passed [OF inv d _ c] in auto)
  obtain q db2 where q: "renewAccessToken env lu' c db = (q, db2)" by (cases "renewAccessToken env lu' c db")
  show "isl (fst (renewAccessToken env lu' c db))"
    using inv q by (cases rule: renew_effect) (use q dead_not_passed [OF inv d _ c] in auto)
qed

text \<open>Nothing but time takes such a record away, and no token is signed with the identifier.\<close>

lemma dead_mono:
  assumes d: "dead db tid" and now: "td_now db \<le> td_now db'"
    and sig: "set (td_signed db) \<subseteq> set (td_signed db')"
      "\<And>c. c \<in> set (td_signed db') \<Longrightarrow> token_id c = tid \<Longrightarrow> c \<in> set (td_signed db)"
    and rec: "\<And>m. m \<in> set (td_revocations db) \<Longrightarrow> mk_id m = tid \<Longrightarrow> mk_scope m = None \<Longrightarrow>
      m \<in> set (td_revocations db') \<or> mk_expiresAt m < td_now db'"
  shows "dead db' tid"
proof -
  have "the (jw_exp c) \<le> now_seconds db' \<or> (\<exists>m \<in> set (td_revocations db'). mk_id m = tid \<and>
      mk_identityId m = jw_identityId c \<and> mk_scope m = None \<and> the (jw_exp c) * 1000 \<le> mk_expiresAt m)"
    if c: "c \<in> set (td_signed db')" "token_id c = tid" for c
    using d sig(2) [OF c] c(2)
  proof (cases rule: deadD)
    case 1
    then show ?thesis using zdiv_mono1 [OF now, of 1000] by simp
  next
    case (2 m)
    then show ?thesis using rec [OF 2(1,2,4)] by fastforce
  qed
  moreover have "tid \<in> token_id ` set (td_signed db')" using d sig(1) by (auto simp: dead_def)
  ultimately show ?thesis unfolding dead_def by blast
qed

lemma dead_insert_other:
  assumes "dead db tid" "k \<noteq> tid" "td_now db' = td_now db" "td_signed db' = td_signed db"
    "td_revocations db' = td_revocations (insertRevocation k i e t scope db)"
  shows "dead db' tid"
  by (rule dead_mono [OF assms(1)]) (use assms in \<open>auto simp: insertRevocation_def\<close>)

lemma insert_has_at:
  "\<exists>m \<in> set (td_revocations (insertRevocation k i e t s db)). mk_id m = k \<and> mk_identityId m = i \<and> mk_scope m = s \<and>
     mk_expiresAt m = e \<and> mk_revokedAt m = t"
proof (cases "list_ex (\<lambda>m. mk_id m = k) (td_revocations db)")
  case True
  then obtain m where "m \<in> set (td_revocations db)" "mk_id m = k" by (auto simp: list_ex_iff)
  then show ?thesis using True
    by (intro bexI [of _ "m\<lparr>mk_identityId := i, mk_expiresAt := e, mk_revokedAt := t, mk_scope := s\<rparr>"])
      (auto simp: insertRevocation_def image_iff)
next
  case False
  then show ?thesis by (simp add: insertRevocation_def)
qed

lemma insert_has:
  "\<exists>m \<in> set (td_revocations (insertRevocation k i e t s db)). mk_id m = k \<and> mk_identityId m = i \<and> mk_scope m = s \<and> mk_expiresAt m = e"
  using insert_has_at [of k i e t s db] by blast

text \<open>A record for the token itself, kept as long as every token with the identifier lives.\<close>

lemma dead_insert_own:
  assumes inv: "token_inv env db" and c: "c \<in> set (td_signed db)" and i: "i = jw_identityId c"
    and long: "\<And>d. d \<in> set (td_signed db) \<Longrightarrow> token_id d = token_id c \<Longrightarrow> the (jw_exp d) * 1000 \<le> e"
    and db': "td_now db' = td_now db" "td_signed db' = td_signed db"
      "td_revocations db' = td_revocations (insertRevocation (token_id c) i e None None db)"
  shows "dead db' (token_id c)"
proof -
  have "\<exists>m \<in> set (td_revocations db'). mk_id m = token_id c \<and> mk_identityId m = i \<and> mk_scope m = None \<and> mk_expiresAt m = e"
    unfolding db'(3) by (rule insert_has)
  moreover have "jw_identityId d = i" if "d \<in> set (td_signed db)" "token_id d = token_id c" for d
    using token_invD(2) [OF inv c that(1)] that(2) i by (simp add: same_token_def)
  ultimately show ?thesis using c long unfolding dead_def db' by fastforce
qed

lemma dead_revoked:
  assumes inv: "token_inv env db" and ok: "revokeAccessToken env lu c db = (Inr x, db')"
  shows "dead db' (token_id c)"
  using inv ok
proof (cases rule: revoke_effect)
  case early
  then show ?thesis by simp
next
  case revoked
  let ?src = "claims_source c" and ?cap = "computeSingleIssuanceTtlCap (te_ceiling env) (rs_accessTokenTTL (claims_source c))
      (rs_accessTokenPeriod (claims_source c))"
  note sig = jwt_signed [OF revoked(1)]
  obtain e where e: "jw_exp c = Some e" using token_invD(1) [OF inv sig] by (rule token_factsE)
  have now: "now_seconds db < e" using revoked(1) e by (simp add: jwt_verify_def)
  have cap: "?cap \<le> te_ceiling env" by (simp add: computeSingleIssuanceTtlCap_def Let_def)
  let ?E = "computePerTokenMarkerExpiry (te_ceiling env) (jw_exp c) (rs_accessTokenTTL ?src)
             (rs_accessTokenMaxTTL ?src) (rs_accessTokenPeriod ?src) (rs_creationEpoch ?src) (now_seconds db)"
  have long: "the (jw_exp d) * 1000 \<le> ?E" if d: "d \<in> set (td_signed db)" "token_id d = token_id c" for d
  proof -
    have src: "claims_source d = ?src" using token_invD(2) [OF inv sig d(1)] d(2) by (simp add: same_token_def)
    obtain i x where x: "jw_exp d = Some x" "i \<le> now_seconds db" "x \<le> i + ?cap"
      "rs_accessTokenMaxTTL ?src > 0 \<longrightarrow> x \<le> rs_creationEpoch ?src + rs_accessTokenMaxTTL ?src"
      using token_invD(1) [OF inv d(1)] unfolding src [symmetric] by (rule facts_cap)
    have "x \<le> e + ?cap" using x(2,3) now by linarith
    moreover have "x \<le> computeLegacyMarkerUpperSeconds (te_ceiling env) (rs_accessTokenMaxTTL ?src) (rs_creationEpoch ?src) (now_seconds db)"
      using x cap by (auto simp: computeLegacyMarkerUpperSeconds_def)
    ultimately show ?thesis
      using x(1) e by (simp add: computePerTokenMarkerExpiry_def Let_def IDENTITY_REVOCATION_MARKER_SKEW_SECONDS_def min_def)
  qed
  show ?thesis
    by (rule dead_insert_own [OF inv sig refl long]) (simp_all add: revoked(3))
qed

text \<open>Revoking by identifier, with the lifetime that the row has.\<close>

lemma issued_cap:
  assumes "e \<le> i + computeSingleIssuanceTtlCap ceil ttl period" "mx > 0 \<longrightarrow> e \<le> cr + mx" "cr \<le> i" "i \<le> n" "\<not> period > 0"
  shows "e \<le> n + computeSingleIssuanceTtlCap ceil (computeIssuedTtl ceil ttl mx cr cr) period"
  using assms by (auto simp: computeSingleIssuanceTtlCap_def computeIssuedTtl_def capped_def Let_def min_def split: if_splits)

lemma row_cap:
  assumes r: "row_facts env r c" and e: "e \<le> i + computeSingleIssuanceTtlCap (te_ceiling env) (rs_accessTokenTTL (claims_source c)) (rs_accessTokenPeriod (claims_source c))"
    "rs_accessTokenMaxTTL (claims_source c) > 0 \<longrightarrow> e \<le> rs_creationEpoch (claims_source c) + rs_accessTokenMaxTTL (claims_source c)"
    and i: "rs_creationEpoch (claims_source c) \<le> i" "i \<le> n"
  shows "e * 1000 \<le> computeTokenAuthRevokeMarkerExpiry (te_ceiling env) (tr_accessTokenTTL r) (tr_accessTokenMaxTTL r)
             (tr_accessTokenPeriod r) (tr_createdAt r) n"
proof -
  let ?src = "claims_source c" and ?cap = "computeSingleIssuanceTtlCap (te_ceiling env) (tr_accessTokenTTL r) (tr_accessTokenPeriod r)"
  have f: "tr_accessTokenMaxTTL r = rs_accessTokenMaxTTL ?src" "tr_accessTokenPeriod r = rs_accessTokenPeriod ?src"
    "tr_createdAt r div 1000 = rs_creationEpoch ?src"
    "tr_accessTokenTTL r = computeIssuedTtl (te_ceiling env) (rs_accessTokenTTL ?src) (rs_accessTokenMaxTTL ?src)
       (rs_creationEpoch ?src) (rs_creationEpoch ?src)"
    using r by (simp_all add: row_facts_def Let_def)
  have "e \<le> n + ?cap"
  proof (cases "rs_accessTokenPeriod ?src > 0")
    case True
    then have "?cap = computeSingleIssuanceTtlCap (te_ceiling env) (rs_accessTokenTTL ?src) (rs_accessTokenPeriod ?src)"
      using f(2) by (simp add: computeSingleIssuanceTtlCap_def)
    then show ?thesis using e(1) i(2) by simp
  next
    case False
    then show ?thesis using issued_cap [OF e i False] f(2,4) by simp
  qed
  then show ?thesis
    using e(2) f(1,3) by (auto simp: computeTokenAuthRevokeMarkerExpiry_def Let_def IDENTITY_REVOCATION_MARKER_SKEW_SECONDS_def min_def)
qed

lemma dead_revoked_stored:
  assumes inv: "token_inv env db" and ok: "revokeTokenAuthToken env lu tid db = (Inr u, db')"
  shows "dead db' tid"
  using ok
proof (cases rule: revoke_stored_effect)
  case early
  then show ?thesis by simp
next
  case (revoked r db1 E)
  obtain c where c: "c \<in> set (td_signed db)" "token_id c = tid" "row_facts env r c"
    using token_invD(4) [OF inv revoked(1)] revoked(2) by blast
  have i: "tr_identityId r = jw_identityId c" using c(3) by (simp add: row_facts_def Let_def)
  have long: "the (jw_exp d) * 1000 \<le> E" if d: "d \<in> set (td_signed db)" "token_id d = token_id c" for d
  proof -
    have src: "claims_source d = claims_source c" using token_invD(2) [OF inv c(1) d(1)] d(2) by (simp add: same_token_def)
    obtain k x where x: "jw_iat d = Some k" "jw_exp d = Some x" "k \<le> now_seconds db"
      "x \<le> k + computeSingleIssuanceTtlCap (te_ceiling env) (rs_accessTokenTTL (claims_source c)) (rs_accessTokenPeriod (claims_source c))"
      "rs_accessTokenMaxTTL (claims_source c) > 0 \<longrightarrow> x \<le> rs_creationEpoch (claims_source c) + rs_accessTokenMaxTTL (claims_source c)"
      using token_invD(1) [OF inv d(1)] unfolding src [symmetric] by (rule facts_cap)
    obtain k' where "jw_iat d = Some k'" "rs_creationEpoch (claims_source d) \<le> k'"
      using token_invD(1) [OF inv d(1)] by (rule token_factsE)
    then have "rs_creationEpoch (claims_source c) \<le> k" using x(1) src by simp
    then show ?thesis using row_cap [OF c(3) x(4,5) _ x(3)] x(2) revoked(6) by simp
  qed
  show ?thesis
  proof (cases "E \<le> td_now db")
    case True
    have "the (jw_exp d) \<le> now_seconds db" if "d \<in> set (td_signed db)" "token_id d = tid" for d
      using long [OF that(1)] that(2) c(2) True by simp
    then show ?thesis using True c revoked(5,7) by (auto simp: dead_def)
  next
    case False
    have "dead db' (token_id c)"
      by (rule dead_insert_own [OF inv c(1) i long]) (use False revoked(5,7) c(2) in \<open>auto simp: insertRevocation_def\<close>)
    then show ?thesis using c(2) by simp
  qed
qed

lemma insert_keeps_records:
  "m \<in> set (td_revocations db) \<Longrightarrow> mk_id m \<noteq> k \<Longrightarrow> m \<in> set (td_revocations (insertRevocation k i e t scope db))"
  by (auto simp: insertRevocation_def)

lemma check_dead:
  assumes "check_token lu ck db = (r, db')" "dead db tid"
  shows "dead db' tid"
  by (rule dead_mono [OF assms(2)]) (simp_all add: same_tables_D [OF check_same [OF assms(1)]])

lemma counters_dead: "same_but_counters db db' \<Longrightarrow> dead db tid \<Longrightarrow> dead db' tid"
  by (erule dead_mono) (simp_all add: same_but_counters_def)

lemma step_dead:
  assumes step: "token_step env (db, log) (db', log')" and inv: "token_inv env db" and d: "dead db tid"
  shows "dead db' tid"
  using step
proof (cases rule: token_step.cases)
  case (s_issue newId input out)
  obtain c row where out: "out = (c, row)" by (cases out)
  note e = issue_effect [OF s_issue(4) [unfolded out]]
  have "token_id c = newId" by (simp add: e(1))
  moreover have "newId \<noteq> tid" using s_issue(2) d by (auto simp: fresh_def dead_def)
  moreover have "td_signed db' = c # td_signed db" "td_revocations db' = td_revocations db" "td_now db' = td_now db"
    by (simp_all add: e(2) setUsesRemaining_def)
  ultimately show ?thesis by (intro dead_mono [OF d]) auto
next
  case (s_request lu c ip r)
  from inv s_request(2) show ?thesis
  proof (cases rule: authenticate_effect)
    case (spent db1 e)
    then show ?thesis using counters_dead [OF count_use_same check_dead [OF _ d]] by blast
  next
    case (counted db1 db2 q)
    have "dead db2 tid" by (rule counters_dead [OF count_use_same [OF counted(3)] check_dead [OF counted(2) d]])
    then show ?thesis using check_address_same [OF counted(4)] counters_dead by blast
  qed (use d check_dead in auto)
next
  case (s_renew lu c r')
  from inv s_renew(2) show ?thesis
  proof (cases rule: renew_effect)
    case (renewed db1 c' n old)
    have "token_id c \<noteq> tid" using dead_not_passed [OF inv d renewed(1)] renewed(2) by blast
    moreover have "token_id c' = token_id c"
      using renewed_same_token(2) [OF token_invD(1) [OF inv jwt_signed [OF renewed(1)]] renewed(6,7)] .
    moreover have "td_signed db' = c' # td_signed db1" "td_revocations db' = td_revocations db1" "td_now db' = td_now db1"
      by (simp_all add: renewed(8) setUsesRemaining_def)
    ultimately show ?thesis by (intro dead_mono [OF check_dead [OF renewed(2) d]]) auto
  qed (use d check_dead in auto)
next
  case (s_revoke lu c out')
  show ?thesis
  proof (cases "token_id c = tid \<and> \<not> isl out'")
    case True
    then obtain x where "out' = Inr x" by (cases out') auto
    then show ?thesis using dead_revoked [OF inv] s_revoke(3) True by blast
  next
    case False
    from inv s_revoke(3) show ?thesis
    proof (cases rule: revoke_effect)
      case early
      then show ?thesis using d by simp
    next
      case revoked
      then show ?thesis using False by (intro dead_insert_other [OF d]) auto
    qed
  qed
next
  case (s_revoke_stored lu tid' u)
  show ?thesis
  proof (cases "tid' = tid \<and> \<not> isl u")
    case True
    then obtain x where "u = Inr x" by (cases u) auto
    then show ?thesis using dead_revoked_stored [OF inv] s_revoke_stored(3) True by blast
  next
    case False
    from s_revoke_stored(3) show ?thesis
    proof (cases rule: revoke_stored_effect)
      case early
      then show ?thesis using d by simp
    next
      case (revoked r db1 e)
      have d1: "dead db1 tid" by (rule dead_mono [OF d]) (simp_all add: revoked(5))
      have "tid' \<noteq> tid" using False revoked(3) by simp
      then have "dead (bumpRevocationVersion lu (tr_identityId r) (insertRevocation tid' (tr_identityId r) e None None db1)) tid"
        by (intro dead_insert_other [OF d1]) auto
      then show ?thesis using d1 revoked(7) by simp
    qed
  qed
next
  case (s_revoke_identity i lu)
  obtain c where c: "c \<in> set (td_signed db)" "token_id c = tid" using d by (auto simp: dead_def)
  have "i \<noteq> tid"
    using s_revoke_identity(3) c(2) token_factsD(9) [OF token_invD(1) [OF inv c(1)]] token_id_facts [OF token_invD(1) [OF inv c(1)]]
    by metis
  then show ?thesis using s_revoke_identity(1) by (intro dead_insert_other [OF d]) (auto simp: revoking_defs)
next
  case (s_revoke_secret newId lu i secret)
  have "newId \<noteq> tid" using s_revoke_secret(3) d by (auto simp: fresh_def dead_def)
  then show ?thesis using s_revoke_secret(1) by (intro dead_insert_other [OF d]) (auto simp: revoking_defs)
next
  case (s_revoke_method newId lu i authMethod)
  have "newId \<noteq> tid" using s_revoke_method(3) d by (auto simp: fresh_def dead_def)
  then show ?thesis using s_revoke_method(1) by (intro dead_insert_other [OF d]) (auto simp: revoking_defs)
next
  case (s_leave newId lu i m org x)
  have "newId \<noteq> tid" using s_leave(3) d by (auto simp: fresh_def dead_def)
  then show ?thesis
    using s_leave(1) by (intro dead_mono [OF d]) (auto simp: revoking_defs intro: insert_keeps_records)
next
  case (s_join lu i m org x)
  then show ?thesis by (intro dead_mono [OF d]) (auto simp: revoking_defs deleteRevocationsByScope_def)
qed (auto intro!: dead_mono [OF d] simp: invalidateTrustedIpsCache_def)

text \<open>
  C1: Once a token was revoked by its own request or by its identifier, no request with it and no renewal of it
  succeeds in any later state, however many tokens it had been renewed into, whatever is pruned, revoked, restored,
  issued, lost of the cache or revoked again in between.
\<close>

theorem revoked_tokens_stay_dead:
  assumes "token_reach env db log" "token_step env (db, log) (db1, log1)"
    and "revokeAccessToken env lu c db = (Inr x, db1) \<and> tid = token_id c \<or> revokeTokenAuthToken env lu tid db = (Inr u, db1)"
    and "(token_step env)\<^sup>*\<^sup>* (db1, log1) (db2, log2)" "token_id d = tid"
  shows "isl (fst (authenticate env lu' d ip db2)) \<and> isl (fst (renewAccessToken env lu'' d db2))"
proof -
  have inv: "token_inv env db" by (rule token_reach_inv [OF assms(1)])
  have start: "token_inv env db1 \<and> dead db1 tid"
    using step_keeps [OF assms(2) inv] assms(3) dead_revoked [OF inv] dead_revoked_stored [OF inv] by blast
  have "token_inv env (fst z) \<and> dead (fst z) tid" if "(token_step env)\<^sup>*\<^sup>* (db1, log1) z" for z
    using that
  proof (induction rule: rtranclp_induct)
    case base
    then show ?case using start by simp
  next
    case (step y z)
    then show ?case
      using step_keeps [of env "fst y" "snd y" "fst z" "snd z"] step_dead [of env "fst y" "snd y" "fst z" "snd z"] by simp
  qed
  from this [OF assms(4)] have "token_inv env db2" "dead db2 tid" by simp_all
  then show ?thesis using dead_refused [OF _ _ assms(5)] by blast
qed

text \<open>One use of the sample token, then the counter is lost and seeded anew: three uses of a token that has two.\<close>

definition sample_lost :: token_db where
  "sample_lost = sample_token_used\<lparr>td_uses := (td_uses sample_token_used)((''bot'', ''t1'') := None)\<rparr>"

definition sample_reseeded :: token_db where
  "sample_reseeded = snd (authenticate sample_token_env fine sample_token None sample_lost)"

definition sample_spent :: token_db where
  "sample_spent = snd (authenticate sample_token_env fine sample_token None sample_reseeded)"

lemma sample_lost_step: "token_step sample_token_env (sample_token_used, log) (sample_lost, Lost ''t1'' # log)"
proof -
  have "td_uses sample_token_used (''bot'', ''t1'') \<noteq> None" by code_simp
  then show ?thesis unfolding sample_lost_def by (rule s_lose)
qed

lemma sample_use_again:
  assumes "fst (authenticate sample_token_env fine sample_token None db) = Inr x"
  shows "token_step sample_token_env (db, log) (snd (authenticate sample_token_env fine sample_token None db), Used ''t1'' # log)"
proof -
  have "token_id sample_token = ''t1''" by code_simp
  then show ?thesis
    using assms s_request [of sample_token_env fine sample_token None db "Inr x" _ log] by (simp add: logged_def prod_eq_iff)
qed

lemma sample_spent_reach: "token_reach sample_token_env sample_spent [Used ''t1'', Used ''t1'', Lost ''t1'', Used ''t1'']"
proof -
  have "fst (authenticate sample_token_env fine sample_token None sample_lost) = Inr (claims_source sample_token)"
    "fst (authenticate sample_token_env fine sample_token None sample_reseeded) = Inr (claims_source sample_token)" by code_simp+
  note sample_use_again [OF this(1), folded sample_reseeded_def] sample_use_again [OF this(2), folded sample_spent_def]
  then show ?thesis by (intro reach_step [OF reach_step [OF reach_step [OF reach_step [OF sample_reach sample_used_step] sample_lost_step]]])
qed

theorem uses_within_limit_witness:
  "isl (fst (authenticate sample_token_env fine sample_token None sample_spent)) \<and>
   int (count_list [Used ''t1'', Used ''t1'', Lost ''t1'', Used ''t1''] (Used (token_id sample_token)))
     \<le> 2 * (1 + int (count_list [Used ''t1'', Used ''t1'', Lost ''t1'', Used ''t1''] (Lost (token_id sample_token))))"
proof
  have "jw_numUsesLimit sample_token = Some 2" "sample_token \<in> set (td_signed sample_spent)" by code_simp+
  then show "int (count_list [Used ''t1'', Used ''t1'', Lost ''t1'', Used ''t1''] (Used (token_id sample_token)))
     \<le> 2 * (1 + int (count_list [Used ''t1'', Used ''t1'', Lost ''t1'', Used ''t1''] (Lost (token_id sample_token))))"
    by (intro uses_within_limit [OF sample_spent_reach])
  show "isl (fst (authenticate sample_token_env fine sample_token None sample_spent))" by code_simp
qed

definition sample_token_revoked :: token_db where
  "sample_token_revoked = snd (revokeAccessToken sample_token_env fine sample_token (snd sample_renewal))"

lemma sample_revoke: "revokeAccessToken sample_token_env fine sample_token (snd sample_renewal) = (Inr ''t1'', sample_token_revoked)"
proof -
  have "fst (revokeAccessToken sample_token_env fine sample_token (snd sample_renewal)) = Inr ''t1''" by code_simp
  then show ?thesis by (simp add: sample_token_revoked_def prod_eq_iff)
qed

text \<open>The renewed token is refused after the first one was revoked; it had been accepted.\<close>

theorem revoked_tokens_stay_dead_witness:
  "fst (authenticate sample_token_env fine (projr (fst sample_renewal)) None (snd sample_renewal)) =
     Inr (claims_source sample_token) \<and>
   isl (fst (authenticate sample_token_env fine (projr (fst sample_renewal)) None (later 1000 sample_token_revoked)))"
proof
  show "fst (authenticate sample_token_env fine (projr (fst sample_renewal)) None (snd sample_renewal)) =
     Inr (claims_source sample_token)" by code_simp
  have "bump_ok fine (jw_identityId sample_token) (snd sample_renewal)" by code_simp
  then have step: "token_step sample_token_env (snd sample_renewal, [Used ''t1'']) (sample_token_revoked, [Used ''t1''])"
    by (rule s_revoke [OF _ sample_revoke])
  have "(token_step sample_token_env)\<^sup>*\<^sup>* (sample_token_revoked, [Used ''t1'']) (later 1000 sample_token_revoked, [Used ''t1''])"
    by (rule r_into_rtranclp [of "token_step sample_token_env"]) (rule sample_later_step, simp)
  then show "isl (fst (authenticate sample_token_env fine (projr (fst sample_renewal)) None (later 1000 sample_token_revoked)))"
    using revoked_tokens_stay_dead [OF sample_renewed_reach step disjI1 [OF conjI [OF sample_revoke refl]] _ sample_renewed_ok(3)]
    by blast
qed

end
