(* ===== verification/TokenRaces.thy ===== *)
theory TokenRaces
  imports TokenProperties
begin

text \<open>
  Where access tokens outlive what was done to them: a renewal that was checked before a revocation and signs
  after it, a bump that fails, a use that is counted while a renewal is under way, and the revocation of an old
  token that has no expiry. \<open>renew_check\<close> and \<open>renew_write\<close> are the two parts of a renewal (\<open>TokenService\<close>).
\<close>

section \<open>Renewals that overtake a revocation\<close>

text \<open>A renewed token against the tables: the records that do not block it are those its predecessor passed.\<close>

lemma own_check_simps:
  "ck_tokenId (check_of c src) = token_id c" "ck_identityId (check_of c src) = jw_identityId c"
  "ck_issuedAtMs (check_of c src) = the (jw_iat c) * 1000" "ck_clientSecretId (check_of c src) = Some (rs_clientSecretId src)"
  "ck_authMethod (check_of c src) = Some (rs_authMethod src)" "ck_orgId (check_of c src) = Some (rs_orgId src)"
  by (simp_all add: check_of_def)

lemma same_token_blocks:
  assumes "same_token c c'" "token_id c' = token_id c" "the (jw_iat c) \<le> the (jw_iat c')" "marker_blocks (own_check c') m"
  shows "marker_blocks (own_check c) m"
proof -
  have "scope_of (own_check c') = scope_of (own_check c)"
    using assms(1) unfolding scope_of_def own_check_simps by (simp add: same_token_def)
  then show ?thesis
    using assms by (cases "mk_scope m") (auto simp: marker_blocks_def own_check_simps same_token_def)
qed

lemma renewal_passes_tables:
  assumes ok: "database_verdict (own_check c) db = None" and same: "same_token c c'" "token_id c' = token_id c"
    and iat: "the (jw_iat c) \<le> the (jw_iat c')"
    and new: "\<And>m. active_marker db' (jw_identityId c) m \<Longrightarrow> active_marker db (jw_identityId c) m \<or>
      mk_id m \<noteq> token_id c \<and> revoked_at m \<le> the (jw_iat c') * 1000"
    and mem: "td_members db' (jw_identityId c) = td_members db (jw_identityId c)"
  shows "database_verdict (own_check c') db' = None"
proof -
  have "\<not> marker_blocks (own_check c') m" if m: "active_marker db' (jw_identityId c) m" for m
    using new [OF m]
  proof
    assume "active_marker db (jw_identityId c) m"
    then have "\<not> marker_blocks (own_check c) m" using ok by (simp add: database_verdict_None_iff own_check_simps)
    then show ?thesis using same_token_blocks [OF same iat] by blast
  next
    assume "mk_id m \<noteq> token_id c \<and> revoked_at m \<le> the (jw_iat c') * 1000"
    then show ?thesis using same(2) by (auto simp: marker_blocks_def own_check_simps split: option.splits)
  qed
  moreover have "membership_deny (own_check c') db' = None"
    using ok same(1) mem by (auto simp: database_verdict_None_iff membership_deny_def own_check_simps same_token_def)
  moreover have "jw_identityId c' = jw_identityId c" using same(1) by (simp add: same_token_def)
  ultimately show ?thesis by (simp add: database_verdict_None_iff own_check_simps)
qed

text \<open>What a renewal that was checked has established, and what it signs.\<close>

lemma renew_verified: "renew_check env lu c db = (Inr checked, db1) \<Longrightarrow> jwt_verify c db"
  by (auto simp: renew_check_def verifyAccessTokenJwt_def split: if_splits)

lemma renew_checked:
  assumes f: "token_facts env db0 c" and r: "renew_check env lu c db = (Inr checked, db1)"
  shows "check_token lu (own_check c) db = (None, db1)" "fst checked = claims_source c"
    "snd checked = key_get (td_now db1) (td_uses db1) (jw_identityId c, token_id c)" "\<And>k. snd checked = Some k \<Longrightarrow> 0 < k"
proof -
  note v = renew_verified [OF r]
  have "andThen (assertTokenIsNotRevoked lu CannotRenew (own_check c) db) (\<lambda>_ db1.
      let existingRemaining = key_get (td_now db1) (td_uses db1) (jw_identityId c, token_id c)
      in if (case existingRemaining of None \<Rightarrow> False | Some r \<Rightarrow> r \<le> 0) then (Inl ExhaustedToken, db1)
         else (Inr (claims_source c, existingRemaining), db1)) = (Inr checked, db1)"
    using r v facts_source [OF f] token_factsD(4) [OF f] by (simp add: renew_check_def verifyAccessTokenJwt_def)
  then have "check_token lu (own_check c) db = (None, db1) \<and> checked = (claims_source c, key_get (td_now db1) (td_uses db1) (jw_identityId c, token_id c)) \<and>
      \<not> (case snd checked of None \<Rightarrow> False | Some r \<Rightarrow> r \<le> 0)"
    by (cases rule: andThen_check) (auto simp: Let_def split: if_splits)
  then show "check_token lu (own_check c) db = (None, db1)" "fst checked = claims_source c"
    "snd checked = key_get (td_now db1) (td_uses db1) (jw_identityId c, token_id c)" "\<And>k. snd checked = Some k \<Longrightarrow> 0 < k"
    by auto
qed

lemma renew_written:
  assumes f: "token_facts env db0 c" and src: "fst checked = claims_source c" and r: "renew_write env c checked db = (Inr c', db')"
  shows "same_token c c'" "token_id c' = token_id c" "jw_iat c' = Some (now_seconds db)"
    "db' = (if jw_numUsesLimit c \<noteq> None then setUsesRemaining (jw_identityId c) (token_id c)
       (case snd checked of None \<Rightarrow> the (jw_numUsesLimit c) | Some k \<Rightarrow> max 0 k) (te_ceiling env) else id)
       (db\<lparr>td_signed := c' # td_signed db\<rparr>)"
proof -
  obtain old where ch: "checked = (claims_source c, old)" using src by (cases checked) simp
  define n where "n = (case jw_numUsesLimit c of Some n \<Rightarrow> n | None \<Rightarrow> 0)"
  have n': "(case jw_numUsesLimit c of Some n \<Rightarrow> n | None \<Rightarrow> rs_numUsesLimit (claims_source c)) = n"
    by (simp add: n_def claims_source_def split: option.split)
  have pos: "n > 0 \<longleftrightarrow> jw_numUsesLimit c \<noteq> None" "jw_numUsesLimit c \<noteq> None \<Longrightarrow> the (jw_numUsesLimit c) = n"
    using token_factsD(7) [OF f] by (auto simp: n_def split: option.splits)
  obtain ttl where c': "c' = signIdentityAccessToken (now_seconds db) \<lparr>si_identityAccessTokenId = jw_identityAccessTokenId c,
           si_identityId = jw_identityId c, si_numUsesLimit = n, si_ipRestrictionEnabled = (jw_ipRestrictionEnabled c = Some True),
           si_ttlSeconds = ttl, si_source = claims_source c\<rparr>"
    and db': "db' = (if n > 0 then setUsesRemaining (jw_identityId c) (token_id c)
       (case old of None \<Rightarrow> n | Some k \<Rightarrow> max 0 k) (te_ceiling env) else id) (db\<lparr>td_signed := c' # td_signed db\<rparr>)"
  proof -
    have eq: "(case old of None \<Rightarrow> (case jw_numUsesLimit c of Some n \<Rightarrow> n | None \<Rightarrow> rs_numUsesLimit (claims_source c)) | Some k \<Rightarrow> max 0 k) =
        (case old of None \<Rightarrow> n | Some k \<Rightarrow> max 0 k)" using n' by (cases old) simp_all
    show thesis
      using r that unfolding ch renew_write_def Let_def prod.case n' eq
      by (auto simp: sign_def Let_def n' eq split: prod.splits if_splits)
  qed
  show "same_token c c'" "token_id c' = token_id c" using renewed_same_token [OF f n_def c'] by simp_all
  show "jw_iat c' = Some (now_seconds db)" by (simp add: c')
  show "db' = (if jw_numUsesLimit c \<noteq> None then setUsesRemaining (jw_identityId c) (token_id c)
       (case snd checked of None \<Rightarrow> the (jw_numUsesLimit c) | Some k \<Rightarrow> max 0 k) (te_ceiling env) else id)
       (db\<lparr>td_signed := c' # td_signed db\<rparr>)"
    using db' pos by (cases old) (auto simp: ch)
qed

lemma later_simps [simp]:
  "td_now (later d db) = td_now db + d" "td_members (later d db) = td_members db" "td_revocations (later d db) = td_revocations db"
  "td_uses (later d db) = td_uses db" "td_versions (later d db) = td_versions db" "td_verdicts (later d db) = td_verdicts db"
  "td_signed (later d db) = td_signed db"
  by (simp_all add: later_def)

text \<open>
  C15: A renewal is checked; then the client secret of the token is revoked, record and bump; then the renewal signs, a
  second or more after the revocation. The token it came from is blocked, but the new one was signed after the
  record, so no record blocks it: the tables let it pass, now and for renewals of its own.
\<close>

theorem renewal_in_flight_escapes_revocation:
  assumes "token_reach env db log" "renew_check env lu c db = (Inr checked, db1)" "fresh k db" "0 \<le> d" "1000 \<le> d'"
    and "d' < te_ceiling env * 1000" "jw_clientSecretId c = Some s" "s \<noteq> []" "the (jw_iat c) * 1000 < td_now db + d"
    and "db2 = revokeAllTokensForClientSecret env lu' k (jw_identityId c) s (later d db1)"
    and "renew_write env c checked (later d' db2) = (Inr c', db3)"
  shows "database_verdict (own_check c) db3 \<noteq> None \<and> database_verdict (own_check c') db3 = None \<and>
    token_id c' = token_id c \<and> claims_source c' = claims_source c"
proof -
  have inv: "token_inv env db" by (rule token_reach_inv [OF assms(1)])
  note sig = jwt_signed [OF renew_verified [OF assms(2)]]
  note f = token_invD(1) [OF inv sig]
  note chk = renew_checked [OF f assms(2)]
  note wr = renew_written [OF f chk(2) assms(11)]
  note t = same_tables_D [OF check_same [OF chk(1)]]
  have ok: "database_verdict (own_check c) db = None" by (rule passed_check [OF inv sig chk(1)])
  let ?m = "\<lparr>mk_id = k, mk_identityId = jw_identityId c, mk_scope = Some s, mk_revokedAt = Some (td_now db + d), mk_createdAt = td_now db + d,
     mk_expiresAt = td_now db + d + te_ceiling env * 1000\<rparr>"
  have "\<not> list_ex (\<lambda>m. mk_id m = k) (td_revocations db)" using assms(3) by (auto simp: fresh_def list_ex_iff)
  then have rev2: "td_revocations db2 = td_revocations db @ [?m]"
    using t by (simp add: assms(10) revoking_defs insertRevocation_def)
  have now3: "td_now db3 = td_now db + d + d'" "td_members db3 = td_members db" "td_revocations db3 = td_revocations db @ [?m]"
    using t rev2 by (simp_all add: wr(4) setUsesRemaining_def assms(10) revoking_defs)
  obtain i where i: "jw_iat c = Some i" "i \<le> now_seconds db" using f by (rule token_factsE)
  have iat: "jw_iat c' = Some ((td_now db + d + d') div 1000)" using wr(3) t by (simp add: assms(10) revoking_defs)
  have le: "i \<le> (td_now db + d + d') div 1000" using i(2) zdiv_mono1 [of "td_now db" "td_now db + d + d'" 1000] assms(4,5) by simp
  have after: "td_now db + d \<le> (td_now db + d + d') div 1000 * 1000" using assms(5) by linarith
  have "k \<noteq> token_id c" using assms(3) sig by (auto simp: fresh_def)
  then have "database_verdict (own_check c') db3 = None"
    using le after i iat assms(4,5)
    by (intro renewal_passes_tables [OF ok wr(1,2)]) (auto simp: now3 active_marker_def revoked_at_def)
  moreover have "\<exists>m. active_marker db3 (ck_identityId (own_check c)) m \<and> marker_blocks (own_check c) m"
  proof (intro exI conjI)
    show "active_marker db3 (ck_identityId (own_check c)) ?m"
      using assms(6) by (simp add: active_marker_def now3 own_check_simps)
    have "rs_clientSecretId (claims_source c) = s" using assms(7) by (simp add: claims_source_def given_text_def)
    then show "marker_blocks (own_check c) ?m"
      using assms(8,9) by (simp add: marker_blocks_def revoked_at_def own_check_simps scope_of_iff)
  qed
  then have "database_verdict (own_check c) db3 \<noteq> None" by (auto simp: database_verdict_None_iff)
  ultimately show ?thesis using wr(1,2) by (simp add: same_token_def)
qed

text \<open>
  C27: A token whose verdict is cached, and a revocation of the whole identity whose bump fails, which is logged and
  otherwise ignored: while the cached verdict lives, the token is renewed, and the new token, signed after the
  record, is let pass by the tables themselves, so that the end of the cached verdict changes nothing.
\<close>

theorem failed_bump_is_not_only_late:
  assumes "token_reach env db log" "c \<in> set (td_signed db)" "read_cache lu (own_check c) db = Decided None" "\<not> lu_bump lu'"
    and "db1 = revokeAllTokensForIdentity env lu' (jw_identityId c) db" "1000 \<le> d" "d < te_ceiling env * 1000"
    and "the (jw_iat c) * 1000 < td_now db" "renewAccessToken env lu'' c (later d db1) = (Inr c', db2)"
  shows "database_verdict (own_check c) db2 \<noteq> None \<and> database_verdict (own_check c') db2 = None \<and>
    token_id c' = token_id c \<and> claims_source c' = claims_source c"
proof -
  have inv: "token_inv env db" by (rule token_reach_inv [OF assms(1)])
  note f = token_invD(1) [OF inv assms(2)]
  have ok: "database_verdict (own_check c) db = None"
    by (rule cached_allow [OF token_invD(5) [OF inv] own_check_org [OF inv assms(2)] _ assms(3)]) simp
  have db1: "db1 = insertIdentityWideRevocationMarker env (jw_identityId c) db"
    using assms(4) by (simp add: assms(5) revokeAllTokensForIdentity_def bumpRevocationVersion_def)
  obtain checked db3 where chk: "renew_check env lu'' c (later d db1) = (Inr checked, db3)"
    and wr0: "renew_write env c checked db3 = (Inr c', db2)"
    using assms(9) by (auto simp: renewAccessToken_def andThen_Inr_iff)
  note src = renew_checked(2) [OF f chk]
  note t = check_same [OF renew_checked(1) [OF f chk]]
  note t = same_tables_D [OF t]
  note wr = renew_written [OF f src wr0]
  have now: "td_now db2 = td_now db + d" "td_members db2 = td_members db" "td_revocations db2 = td_revocations db1"
    using t by (simp_all add: wr(4) setUsesRemaining_def db1 insertIdentityWideRevocationMarker_def)
  have iat: "jw_iat c' = Some ((td_now db + d) div 1000)"
    using wr(3) t by (simp add: db1 insertIdentityWideRevocationMarker_def)
  obtain i where i: "jw_iat c = Some i" "i \<le> now_seconds db" using f by (rule token_factsE)
  have le: "i \<le> (td_now db + d) div 1000" using i(2) zdiv_mono1 [of "td_now db" "td_now db + d" 1000] assms(6) by simp
  have after: "td_now db \<le> (td_now db + d) div 1000 * 1000" using assms(6) by linarith
  have idn: "jw_identityId c \<noteq> token_id c"
    using token_factsD(5,9) [OF f] token_id_facts [OF f] by metis
  have new: "active_marker db (jw_identityId c) m \<or> mk_id m \<noteq> token_id c \<and> revoked_at m \<le> the (jw_iat c') * 1000"
    if m: "active_marker db2 (jw_identityId c) m" for m
  proof -
    have "m \<in> set (td_revocations db) \<or> mk_id m = jw_identityId c \<and> mk_revokedAt m = Some (td_now db)"
      using m by (auto simp: active_marker_def now db1 insertIdentityWideRevocationMarker_def insertRevocation_def split: if_splits)
    then show ?thesis
      using m idn after assms(6) by (auto simp: active_marker_def now iat revoked_at_def)
  qed
  have "database_verdict (own_check c') db2 = None"
    by (rule renewal_passes_tables [OF ok wr(1,2) _ new]) (use le i iat now in auto)
  moreover have "\<exists>m. active_marker db2 (ck_identityId (own_check c)) m \<and> marker_blocks (own_check c) m"
  proof -
    obtain m where m: "m \<in> set (td_revocations db1)" "mk_id m = jw_identityId c" "mk_identityId m = jw_identityId c"
      "mk_scope m = None" "mk_expiresAt m = td_now db + te_ceiling env * 1000" "mk_revokedAt m = Some (td_now db)"
      using insert_has_at [of "jw_identityId c" "jw_identityId c" _ "Some (td_now db)" None db]
      unfolding db1 insertIdentityWideRevocationMarker_def by blast
    then show ?thesis
      using assms(7,8) by (intro exI [of _ m]) (auto simp: active_marker_def now own_check_simps marker_blocks_def revoked_at_def)
  qed
  ultimately show ?thesis using wr(1,2) by (auto simp: database_verdict_None_iff same_token_def)
qed

section \<open>Uses during a renewal\<close>

text \<open>
  C26: A renewal of a token of limited use has read how many uses are left (its limit, when the store had lost the
  counter); a request is let through and counted; then the renewal writes what it had read, and the request is not
  counted any more.
\<close>

theorem use_during_renewal_is_forgotten:
  assumes "token_reach env db log" "jw_numUsesLimit c = Some n" "0 < te_ceiling env"
    and "renew_check env lu c db = (Inr checked, db1)" "authenticate env lu' c ip db1 = (Inr x, db2)"
    and "renew_write env c checked db2 = (Inr c', db3)"
  shows "\<exists>k. (key_get (td_now db1) (td_uses db1) (jw_identityId c, token_id c) = Some k \<or>
      key_get (td_now db1) (td_uses db1) (jw_identityId c, token_id c) = None \<and> k = n \<and> Lost (token_id c) \<in> set log) \<and>
    key_get (td_now db2) (td_uses db2) (jw_identityId c, token_id c) = Some (k - 1) \<and>
    key_get (td_now db3) (td_uses db3) (jw_identityId c', token_id c') = Some k"
proof -
  have inv: "token_inv env db" by (rule token_reach_inv [OF assms(1)])
  note v = renew_verified [OF assms(4)]
  note sig = jwt_signed [OF v]
  note f = token_invD(1) [OF inv sig]
  note chk = renew_checked [OF f assms(4)]
  note t = same_tables_D [OF check_same [OF chk(1)]]
  have inv1: "token_inv env db1" by (rule check_token_keeps [OF inv sig chk(1)])
  note wr = renew_written [OF f chk(2) assms(6)]
  have n: "0 < n" using token_factsD(7) [OF f assms(2)] .
  let ?key = "(jw_identityId c, token_id c)"
  let ?k = "case key_get (td_now db1) (td_uses db1) ?key of None \<Rightarrow> n | Some k \<Rightarrow> k"
  have same: "key_get (td_now db1) (td_uses db1) ?key = key_get (td_now db) (td_uses db) ?key" by (simp add: t)
  have pos: "0 < k" if "key_get (td_now db1) (td_uses db1) ?key = Some k" for k using chk(3,4) that by simp
  have lost: "Lost (token_id c) \<in> set log" if "key_get (td_now db1) (td_uses db1) ?key = None"
    using inv reach_uses [OF assms(1)] v assms(2) by (cases rule: counter_alive) (use that same in simp_all)
  from inv1 assms(5) have "key_get (td_now db2) (td_uses db2) ?key = Some (?k - 1)"
  proof (cases rule: authenticate_effect)
    case (counted db' db'' q)
    note t' = same_tables_D [OF check_same [OF counted(2)]]
    have "key_get (td_now db'') (td_uses db'') ?key = Some (?k - 1)"
    proof (cases "key_get (td_now db1) (td_uses db1) ?key")
      case None
      then show ?thesis using counted(3) t' n assms(2,3)
        by (auto simp: count_use_def Let_def setUsesRemaining_def setItemWithExpiry_def split: if_splits)
    next
      case (Some k)
      then obtain e where e: "td_uses db1 ?key = Some (k, e)" using key_get_entry by metis
      have "db'' = db'\<lparr>td_uses := (td_uses db')(?key \<mapsto> (k - 1, e))\<rparr>"
        using counted(3) Some pos [OF Some] n t' e assms(2) by (auto simp: count_use_def Let_def incrementBy_def split: if_splits)
      then show ?thesis using Some e by (simp add: key_get_def t' split: if_splits)
    qed
    then show ?thesis using check_address_same [OF counted(4)] by (simp add: same_but_counters_def)
  qed simp_all
  moreover have "key_get (td_now db3) (td_uses db3) (jw_identityId c', token_id c') = Some ?k"
    using wr(1,2) chk(3) pos assms(2,3)
    by (auto simp: wr(4) same_token_def setUsesRemaining_def setItemWithExpiry_def max_def split: option.split)
  ultimately show ?thesis using lost by (intro exI [of _ ?k]) (auto split: option.split)
qed

section \<open>Old tokens without an expiry\<close>

lemma source_same_tables:
  assumes "td_rows db' = td_rows db" "td_identities db' = td_identities db" "td_orgs db' = td_orgs db"
  shows "token_source c db' = token_source c db"
  unfolding token_source_def loadLegacyTokenSource_def findTokenRow_def assms by (rule refl)

text \<open>
  An old token without an expiry, whose row gives it a total lifetime that is over, is still let pass. Revoking it
  reports success, but the record it writes has expired already: what the tables let pass before, they let pass after.
\<close>

theorem revoking_spent_legacy_token_is_void:
  assumes "revokeAccessToken env lu c db = (Inr x, db1)" "jw_exp c = None" "token_source c db = Inr src"
    and "0 < rs_accessTokenMaxTTL src" "(rs_creationEpoch src + rs_accessTokenMaxTTL src) * 1000 \<le> td_now db"
    and "database_verdict (check_of c src) db = None"
  shows "database_verdict (check_of c src) db1 = None \<and> token_source c db1 = Inr src \<and> jwt_verify c db1"
proof -
  have v: "jwt_verify c db" and core: "assertMinimalRenewClaims c = Inr c"
    using assms(1) by (auto simp: revokeAccessToken_def verifyAccessTokenJwt_def assertMinimalRenewClaims_def split: if_splits)
  define e where "e = (rs_creationEpoch src + rs_accessTokenMaxTTL src) * 1000"
  have db1: "db1 = bumpRevocationVersion lu (jw_identityId c) (insertRevocation (token_id c) (jw_identityId c) e None None db)"
    using assms(1) core assms(2,3,4) v
    by (auto simp: revokeAccessToken_def verifyAccessTokenJwt_def computePerTokenMarkerExpiry_def
        computeLegacyMarkerUpperSeconds_def Let_def e_def split: if_splits)
  have "active_marker db1 i m \<Longrightarrow> active_marker db i m" for i m
    using assms(5) by (auto simp: active_marker_def db1 insertRevocation_def e_def split: if_splits)
  then have "database_verdict (check_of c src) db1 = None"
    by (intro verdict_keeps [OF assms(6)]) (simp_all add: db1)
  moreover have "token_source c db1 = token_source c db"
    by (rule source_same_tables) (simp_all add: db1 bumpRevocationVersion_def)
  moreover have "jwt_verify c db1" using v by (simp add: jwt_verify_def db1 cong: option.case_cong)
  ultimately show ?thesis using assms(3) by simp
qed

section \<open>The runs on samples\<close>

text \<open>The client secret is revoked while the sample token is being renewed.\<close>

definition sample_raced :: token_db where
  "sample_raced = revokeAllTokensForClientSecret sample_token_env fine ''m1'' ''bot'' ''secret''
     (later 1 (snd (renew_check sample_token_env fine sample_token sample_token_db)))"

definition sample_raced_renewal :: "(token_error + claims) \<times> token_db" where
  "sample_raced_renewal = renew_write sample_token_env sample_token (claims_source sample_token, Some 2) (later 1000 sample_raced)"

lemma sample_token_facts:
  "jw_identityId sample_token = ''bot''" "jw_clientSecretId sample_token = Some ''secret''" "jw_iat sample_token = Some 1000"
  "td_now sample_token_db = 1000000" "te_ceiling sample_token_env = 7776000" "token_id sample_token = ''t1''"
  "jw_numUsesLimit sample_token = Some 2"
  by code_simp+

lemma sample_renew_check:
  "renew_check sample_token_env fine sample_token sample_token_db =
     (Inr (claims_source sample_token, Some 2), snd (renew_check sample_token_env fine sample_token sample_token_db))"
proof -
  have "fst (renew_check sample_token_env fine sample_token sample_token_db) = Inr (claims_source sample_token, Some 2)" by code_simp
  then show ?thesis by (simp add: prod_eq_iff)
qed

theorem renewal_in_flight_escapes_revocation_witness:
  "database_verdict (own_check (projr (fst sample_raced_renewal))) (snd sample_raced_renewal) = None \<and>
   isl (fst (authenticate sample_token_env fine sample_token None (snd sample_raced_renewal))) \<and>
   \<not> isl (fst (authenticate sample_token_env fine (projr (fst sample_raced_renewal)) None (snd sample_raced_renewal)))"
proof (intro conjI)
  have "\<not> isl (fst sample_raced_renewal)" by code_simp
  then have w: "renew_write sample_token_env sample_token (claims_source sample_token, Some 2) (later 1000 sample_raced) =
      (Inr (projr (fst sample_raced_renewal)), snd sample_raced_renewal)"
    by (simp add: sample_raced_renewal_def prod_eq_iff)
  have db2: "sample_raced = revokeAllTokensForClientSecret sample_token_env fine ''m1'' (jw_identityId sample_token) ''secret''
     (later 1 (snd (renew_check sample_token_env fine sample_token sample_token_db)))"
    by (simp add: sample_raced_def sample_token_facts)
  have fr: "fresh ''m1'' sample_token_db"
    by (simp add: fresh_def sample_token_defs issueIdentityAccessToken_def issue_source_def resolveTtlInputs_def sign_def
        setUsesRemaining_def setItemWithExpiry_def issue_row_def Let_def)
  show "database_verdict (own_check (projr (fst sample_raced_renewal))) (snd sample_raced_renewal) = None"
    by (rule renewal_in_flight_escapes_revocation [OF sample_reach sample_renew_check fr _ _ _ sample_token_facts(2) _ _ db2 w,
          THEN conjunct2, THEN conjunct1]) (simp_all add: sample_token_facts)
  show "isl (fst (authenticate sample_token_env fine sample_token None (snd sample_raced_renewal)))" by code_simp
  show "\<not> isl (fst (authenticate sample_token_env fine (projr (fst sample_raced_renewal)) None (snd sample_raced_renewal)))" by code_simp
qed

text \<open>The verdict of the sample token is cached, and the bump of the revocation fails.\<close>

definition unlucky :: luck where
  "unlucky = fine\<lparr>lu_bump := False\<rparr>"

definition sample_unbumped :: token_db where
  "sample_unbumped = revokeAllTokensForIdentity sample_token_env unlucky ''bot'' (later 1 sample_token_used)"

definition sample_late_renewal :: "(token_error + claims) \<times> token_db" where
  "sample_late_renewal = renewAccessToken sample_token_env fine sample_token (later 1000 sample_unbumped)"

theorem failed_bump_is_not_only_late_witness:
  "database_verdict (own_check (projr (fst sample_late_renewal))) (snd sample_late_renewal) = None \<and>
   \<not> isl (fst (authenticate sample_token_env fine (projr (fst sample_late_renewal)) None (later 200000 (snd sample_late_renewal))))"
proof
  have "\<not> isl (fst sample_late_renewal)" by code_simp
  then have w: "renewAccessToken sample_token_env fine sample_token (later 1000 sample_unbumped) =
      (Inr (projr (fst sample_late_renewal)), snd sample_late_renewal)"
    by (simp add: sample_late_renewal_def prod_eq_iff)
  have db1: "sample_unbumped = revokeAllTokensForIdentity sample_token_env unlucky (jw_identityId sample_token) (later 1 sample_token_used)"
    by (simp add: sample_unbumped_def sample_token_facts)
  have rd: "read_cache fine (own_check sample_token) (later 1 sample_token_used) = Decided None"
    and sig: "sample_token \<in> set (td_signed (later 1 sample_token_used))" and now: "td_now sample_token_used = 1000000" by code_simp+
  have reach: "token_reach sample_token_env (later 1 sample_token_used) [Used ''t1'']"
    by (rule reach_step [OF reach_step [OF sample_reach sample_used_step] sample_later_step]) simp
  show "database_verdict (own_check (projr (fst sample_late_renewal))) (snd sample_late_renewal) = None"
    by (rule failed_bump_is_not_only_late [OF reach sig rd _ db1 _ _ _ w, THEN conjunct2, THEN conjunct1])
      (simp_all add: sample_token_facts unlucky_def now)
  show "\<not> isl (fst (authenticate sample_token_env fine (projr (fst sample_late_renewal)) None (later 200000 (snd sample_late_renewal))))"
    by code_simp
qed

text \<open>A use between the two parts of a renewal: the counter reads two again.\<close>

definition sample_between :: token_db where
  "sample_between = snd (authenticate sample_token_env fine sample_token None (snd (renew_check sample_token_env fine sample_token sample_token_db)))"

definition sample_restored :: "(token_error + claims) \<times> token_db" where
  "sample_restored = renew_write sample_token_env sample_token (claims_source sample_token, Some 2) sample_between"

theorem use_during_renewal_is_forgotten_witness:
  "\<exists>k. key_get (td_now sample_between) (td_uses sample_between) (''bot'', ''t1'') = Some (k - 1) \<and>
     key_get (td_now (snd sample_restored)) (td_uses (snd sample_restored)) (jw_identityId (projr (fst sample_restored)), token_id (projr (fst sample_restored))) = Some k"
proof -
  have "\<not> isl (fst sample_restored)" by code_simp
  then have w: "renew_write sample_token_env sample_token (claims_source sample_token, Some 2) sample_between =
      (Inr (projr (fst sample_restored)), snd sample_restored)"
    by (simp add: sample_restored_def prod_eq_iff)
  have "fst (authenticate sample_token_env fine sample_token None (snd (renew_check sample_token_env fine sample_token sample_token_db))) =
      Inr (claims_source sample_token)" by code_simp
  then have u: "authenticate sample_token_env fine sample_token None (snd (renew_check sample_token_env fine sample_token sample_token_db)) =
      (Inr (claims_source sample_token), sample_between)"
    by (simp add: sample_between_def prod_eq_iff)
  show ?thesis
    using use_during_renewal_is_forgotten [OF sample_reach sample_token_facts(7) _ sample_renew_check u w]
    by (auto simp: sample_token_facts)
qed

text \<open>An old token: no expiry, no identifier of its own, and a row whose total was a hundred seconds.\<close>

definition sample_legacy :: claims where
  "sample_legacy = \<lparr>jw_jti = None, jw_iat = Some 10, jw_exp = None, jw_identityId = ''bot'', jw_identityName = None,
     jw_authMethod = None, jw_orgId = None, jw_rootOrgId = None, jw_parentOrgId = None, jw_numUsesLimit = None,
     jw_ipRestrictionEnabled = None, jw_clientSecretId = None, jw_identityAccessTokenId = ''old'',
     jw_authTokenType = AuthTokenType_IDENTITY_ACCESS_TOKEN, jw_accessTokenTTL = None, jw_accessTokenMaxTTL = None,
     jw_accessTokenPeriod = None, jw_creationEpoch = None, jw_identityAuth = None\<rparr>"

definition sample_legacy_db :: token_db where
  "sample_legacy_db = sample_token_start\<lparr>td_signed := [sample_legacy], td_rows :=
     [\<lparr>tr_id = ''old'', tr_identityId = ''bot'', tr_isAccessTokenRevoked = False, tr_accessTokenTTL = 0, tr_accessTokenMaxTTL = 100,
       tr_accessTokenPeriod = 0, tr_accessTokenNumUsesLimit = 0, tr_authMethod = ''universal-auth'', tr_subOrganizationId = None,
       tr_createdAt = 10000\<rparr>]\<rparr>"

definition sample_legacy_revoked :: token_db where
  "sample_legacy_revoked = snd (revokeAccessToken sample_token_env fine sample_legacy sample_legacy_db)"

theorem revoking_spent_legacy_token_is_void_witness:
  "database_verdict (check_of sample_legacy (projr (token_source sample_legacy sample_legacy_db))) sample_legacy_revoked = None \<and>
   \<not> isl (fst (authenticate sample_token_env fine sample_legacy None sample_legacy_revoked))"
proof
  have "fst (revokeAccessToken sample_token_env fine sample_legacy sample_legacy_db) = Inr ''old''" by code_simp
  then have r: "revokeAccessToken sample_token_env fine sample_legacy sample_legacy_db = (Inr ''old'', sample_legacy_revoked)"
    by (simp add: sample_legacy_revoked_def prod_eq_iff)
  have "\<not> isl (token_source sample_legacy sample_legacy_db)" by code_simp
  then have src: "token_source sample_legacy sample_legacy_db = Inr (projr (token_source sample_legacy sample_legacy_db))" by simp
  have f: "jw_exp sample_legacy = None" "0 < rs_accessTokenMaxTTL (projr (token_source sample_legacy sample_legacy_db))"
    "(rs_creationEpoch (projr (token_source sample_legacy sample_legacy_db)) + rs_accessTokenMaxTTL (projr (token_source sample_legacy sample_legacy_db))) * 1000
       \<le> td_now sample_legacy_db"
    "database_verdict (check_of sample_legacy (projr (token_source sample_legacy sample_legacy_db))) sample_legacy_db = None"
    by code_simp+
  show "database_verdict (check_of sample_legacy (projr (token_source sample_legacy sample_legacy_db))) sample_legacy_revoked = None"
    using revoking_spent_legacy_token_is_void [OF r f(1) src f(2-4)] by blast
  show "\<not> isl (fst (authenticate sample_token_env fine sample_legacy None sample_legacy_revoked))" by code_simp
qed

end
