(* ===== verification/TokenPruning.thy ===== *)
theory TokenPruning
  imports TokenState
begin

text \<open>
  The jobs that delete what has expired, in batches: revocation records (\<open>removeExpiredRevocations\<close> of
  \<open>identity-access-token-revocation-dal.ts\<close>), stored tokens (\<open>removeExpiredTokens\<close> of
  \<open>identity-access-token-dal.ts\<close>) and client secrets (\<open>removeExpiredClientSecrets\<close> of
  \<open>identity-ua-client-secret-dal.ts\<close>). The database may refuse a batch: \<open>fails i\<close> says that the attempt number
  \<open>i\<close> throws, and \<open>clock i\<close> is the time of the database then. Nothing else writes to the table meanwhile.
  The rows a limit selects are the first ones.
\<close>

definition MAX_RETRY_ON_FAILURE :: nat where
  "MAX_RETRY_ON_FAILURE = 3"

text \<open>Select up to a number of rows that have expired, and delete the rows with their identifiers.\<close>

definition delete_batch :: "nat \<Rightarrow> ('r \<Rightarrow> string) \<Rightarrow> ('r \<Rightarrow> bool) \<Rightarrow> 'r list \<Rightarrow> string list \<times> 'r list" where
  "delete_batch batch key expired rows =
     (let ids = take batch (map key (filter expired rows))
      in (map key (filter (\<lambda>r. key r \<in> set ids) rows), filter (\<lambda>r. key r \<notin> set ids) rows))"

lemma delete_batch_shrinks:
  assumes "delete_batch batch key expired rows = (deleted, rows')" "deleted \<noteq> []"
  shows "length rows' < length rows"
proof -
  let ?P = "\<lambda>r. key r \<in> set (take batch (map key (filter expired rows)))"
  have "filter ?P rows \<noteq> []" using assms by (auto simp: delete_batch_def Let_def)
  moreover have "length (filter ?P rows) + length (filter (\<lambda>r. \<not> ?P r) rows) = length rows"
    by (rule sum_length_filter_compl)
  ultimately show ?thesis using assms(1) by (auto simp: delete_batch_def Let_def simp flip: length_greater_0_conv)
qed

lemma delete_batch_length:
  assumes "delete_batch batch key expired rows = (deleted, rows')"
  shows "length deleted + length rows' = length rows"
  using assms sum_length_filter_compl [of "\<lambda>r. key r \<in> set (take batch (map key (filter expired rows)))" rows]
  by (auto simp: delete_batch_def Let_def)

lemma delete_batch_empty:
  assumes "delete_batch batch key expired rows = ([], rows')" "0 < batch"
  shows "rows' = rows \<and> filter expired rows = []"
proof -
  have none: "filter (\<lambda>r. key r \<in> set (take batch (map key (filter expired rows)))) rows = []"
    using assms by (auto simp: delete_batch_def Let_def)
  have "filter expired rows = []"
  proof (cases "filter expired rows")
    case (Cons r rs)
    then have "r \<in> set rows" "key r \<in> set (take batch (map key (filter expired rows)))"
      using assms(2) by (auto simp: Cons_eq_filter_iff take_Cons' dest!: sym [of _ "r # rs"])
    then show ?thesis using none by (auto simp: filter_empty_conv)
  qed simp
  then show ?thesis using assms(1) by (simp add: delete_batch_def Let_def)
qed

lemma delete_batch_takes_expired:
  assumes "delete_batch batch key expired rows = (deleted, rows')" "distinct (map key rows)" "r \<in> set rows" "r \<notin> set rows'"
  shows "expired r"
proof -
  have "key r \<in> set (take batch (map key (filter expired rows)))"
    using assms(1,3,4) by (auto simp: delete_batch_def Let_def)
  then have "key r \<in> key ` set (filter expired rows)"
    using set_take_subset [of batch "map key (filter expired rows)"] by auto
  then obtain r' where "r' \<in> set rows" "expired r'" "key r' = key r" by auto
  then show ?thesis using assms(2,3) by (auto simp: distinct_map dest: inj_onD)
qed

lemma delete_batch_filter:
  assumes "delete_batch batch key expired rows = (deleted, rows')"
  shows "\<exists>P. rows' = filter P rows"
  using assms by (auto simp: delete_batch_def Let_def)

section \<open>Revocation records\<close>

definition REVOCATION_PRUNE_BATCH_SIZE :: nat where
  "REVOCATION_PRUNE_BATCH_SIZE = 10000"

text \<open>One attempt: an error counts as a failure and as a batch that deleted nothing.\<close>

definition prune_attempt ::
  "(nat \<Rightarrow> bool) \<Rightarrow> (nat \<Rightarrow> int) \<Rightarrow> nat \<Rightarrow> revocation list \<Rightarrow> nat \<Rightarrow> (string list \<times> revocation list) \<times> nat" where
  "prune_attempt fails clock i rows numberOfRetryOnFailure =
     (if fails i then (([], rows), numberOfRetryOnFailure + 1)
      else (delete_batch REVOCATION_PRUNE_BATCH_SIZE mk_id (\<lambda>m. mk_expiresAt m < clock i) rows, 0))"

function prune_revocations ::
  "(nat \<Rightarrow> bool) \<Rightarrow> (nat \<Rightarrow> int) \<Rightarrow> nat \<Rightarrow> revocation list \<Rightarrow> nat \<Rightarrow> nat \<Rightarrow> revocation list \<times> nat" where
  "prune_revocations fails clock i rows numberOfRetryOnFailure totalDeletedCount =
     (case prune_attempt fails clock i rows numberOfRetryOnFailure of ((deleted, rows'), retries) \<Rightarrow>
        if deleted \<noteq> [] \<or> (retries > 0 \<and> retries < MAX_RETRY_ON_FAILURE)
        then prune_revocations fails clock (i + 1) rows' retries (totalDeletedCount + length deleted)
        else (rows', totalDeletedCount + length deleted))"
  by pat_completeness auto

lemma prune_attempt_cases:
  assumes "prune_attempt fails clock i rows n = ((deleted, rows'), retries)"
  obtains (failed) "fails i" "deleted = []" "rows' = rows" "retries = n + 1"
  | (done_batch) "\<not> fails i" "delete_batch REVOCATION_PRUNE_BATCH_SIZE mk_id (\<lambda>m. mk_expiresAt m < clock i) rows = (deleted, rows')"
      "retries = 0"
  using assms by (auto simp: prune_attempt_def split: if_splits)

termination prune_revocations
proof (relation "measures [\<lambda>(_, _, _, rows, _, _). length rows, \<lambda>(_, _, _, _, n, _). MAX_RETRY_ON_FAILURE - n]", goal_cases)
  case (2 fails clock i rows n count x retries deleted rows')
  then have at: "prune_attempt fails clock i rows n = ((deleted, rows'), retries)" by simp
  from at show ?case
  proof (cases rule: prune_attempt_cases)
    case failed
    then show ?thesis using 2(3) by simp
  next
    case done_batch
    then show ?thesis using 2(3) delete_batch_shrinks [OF done_batch(2)] by auto
  qed
qed simp

definition removeExpiredRevocations :: "(nat \<Rightarrow> bool) \<Rightarrow> (nat \<Rightarrow> int) \<Rightarrow> token_db \<Rightarrow> nat \<times> token_db" where
  "removeExpiredRevocations fails clock db =
     (case prune_revocations fails clock 0 (td_revocations db) 0 0 of
        (rows, totalDeletedCount) \<Rightarrow> (totalDeletedCount, db\<lparr>td_revocations := rows\<rparr>))"


declare prune_revocations.simps [simp del]

text \<open>What the loop does to the records, from any of its rounds.\<close>

lemma prune_revocations_result:
  assumes "prune_revocations fails clock i rows n count = (rows', count')"
  shows "\<exists>P. rows' = filter P rows" "count' + length rows' = count + length rows"
    and "distinct (map mk_id rows) \<Longrightarrow> m \<in> set rows \<Longrightarrow> m \<notin> set rows' \<Longrightarrow> \<exists>j. mk_expiresAt m < clock j"
proof -
  have "(\<exists>P. rows' = filter P rows) \<and> count' + length rows' = count + length rows \<and>
      (distinct (map mk_id rows) \<longrightarrow> (\<forall>m \<in> set rows - set rows'. \<exists>j. mk_expiresAt m < clock j))"
    using assms
  proof (induction fails clock i rows n count arbitrary: rows' count' rule: prune_revocations.induct)
    case (1 fails clock i rows n count)
    obtain deleted rows1 retries where at: "prune_attempt fails clock i rows n = ((deleted, rows1), retries)"
      by (metis prod.collapse)
    have one: "(\<exists>P. rows1 = filter P rows) \<and> length deleted + length rows1 = length rows \<and>
        (distinct (map mk_id rows) \<longrightarrow> (\<forall>m \<in> set rows - set rows1. \<exists>j. mk_expiresAt m < clock j))"
      using at
    proof (cases rule: prune_attempt_cases)
      case failed
      then show ?thesis by (auto intro: exI [of _ "\<lambda>_. True"])
    next
      case done_batch
      then show ?thesis
        using delete_batch_filter [OF done_batch(2)] delete_batch_length [OF done_batch(2)]
          delete_batch_takes_expired [OF done_batch(2)] by blast
    qed
    show ?case
    proof (cases "deleted \<noteq> [] \<or> (retries > 0 \<and> retries < MAX_RETRY_ON_FAILURE)")
      case True
      then have r: "prune_revocations fails clock (i + 1) rows1 retries (count + length deleted) = (rows', count')"
        using "1.prems" at by (simp add: prune_revocations.simps [of fails clock i])
      note ih = "1.IH" [OF at [symmetric] refl True r]
      have "distinct (map mk_id rows) \<Longrightarrow> distinct (map mk_id rows1)" using one by (auto simp: distinct_map_filter)
      then show ?thesis using ih one by (auto simp: filter_filter)
    next
      case False
      then have "rows' = rows1" "count' = count + length deleted"
        using "1.prems" at by (auto simp: prune_revocations.simps [of fails clock i])
      then show ?thesis using one by auto
    qed
  qed
  then show "\<exists>P. rows' = filter P rows" "count' + length rows' = count + length rows"
    and "distinct (map mk_id rows) \<Longrightarrow> m \<in> set rows \<Longrightarrow> m \<notin> set rows' \<Longrightarrow> \<exists>j. mk_expiresAt m < clock j"
    by blast+
qed

text \<open>It ends with an attempt that found nothing more, or with three failures in a row.\<close>

lemma prune_revocations_end:
  assumes "prune_revocations fails clock i rows n count = (rows', count')"
    and "n \<le> i" "\<forall>k. i - n \<le> k \<and> k < i \<longrightarrow> fails k" "n < MAX_RETRY_ON_FAILURE"
  shows "(\<exists>j. \<not> fails j \<and> (\<forall>m \<in> set rows'. clock j \<le> mk_expiresAt m)) \<or> (\<exists>j. fails j \<and> fails (j + 1) \<and> fails (j + 2))"
  using assms
proof (induction fails clock i rows n count arbitrary: rows' count' rule: prune_revocations.induct)
  case (1 fails clock i rows n count)
  obtain deleted rows1 retries where at: "prune_attempt fails clock i rows n = ((deleted, rows1), retries)"
    by (metis prod.collapse)
  show ?case
  proof (cases "deleted \<noteq> [] \<or> (retries > 0 \<and> retries < MAX_RETRY_ON_FAILURE)")
    case True
    then have r: "prune_revocations fails clock (i + 1) rows1 retries (count + length deleted) = (rows', count')"
      using "1.prems"(1) at by (simp add: prune_revocations.simps [of fails clock i])
    from at show ?thesis
    proof (cases rule: prune_attempt_cases)
      case failed
      have "\<forall>k. i + 1 - retries \<le> k \<and> k < i + 1 \<longrightarrow> fails k"
        using failed(1,4) "1.prems"(3) by (auto simp: less_Suc_eq)
      then show ?thesis
        using "1.IH" [OF at [symmetric] refl True r] failed True "1.prems"(2) by simp
    next
      case done_batch
      then have "retries \<le> i + 1" "\<forall>k. i + 1 - retries \<le> k \<and> k < i + 1 \<longrightarrow> fails k" "retries < MAX_RETRY_ON_FAILURE"
        by (auto simp: MAX_RETRY_ON_FAILURE_def)
      then show ?thesis by (rule "1.IH" [OF at [symmetric] refl True r])
    qed
  next
    case False
    then have rows': "rows' = rows1"
      using "1.prems"(1) at by (auto simp: prune_revocations.simps [of fails clock i])
    from at show ?thesis
    proof (cases rule: prune_attempt_cases)
      case failed
      then have n: "n = 2" using False "1.prems"(4) by (auto simp: MAX_RETRY_ON_FAILURE_def)
      then obtain j where j: "i = j + 2" using "1.prems"(2) by (metis le_add_diff_inverse2)
      then have "fails j" "fails (j + 1)" "fails (j + 2)" using failed(1) "1.prems"(3) n by simp_all
      then show ?thesis by blast
    next
      case done_batch
      then have "rows1 = rows \<and> filter (\<lambda>m. mk_expiresAt m < clock i) rows = []"
        using False by (intro delete_batch_empty [of REVOCATION_PRUNE_BATCH_SIZE mk_id])
          (auto simp: REVOCATION_PRUNE_BATCH_SIZE_def)
      then show ?thesis using done_batch(1) by (auto simp: rows' filter_empty_conv not_less)
    qed
  qed
qed

text \<open>What has expired blocks nothing, so leaving it out changes no answer.\<close>

lemma pruned_same_answer:
  assumes "\<And>m. m \<in> set ms \<Longrightarrow> \<not> P m \<Longrightarrow> mk_expiresAt m \<le> td_now db"
  shows "database_verdict ck (db\<lparr>td_revocations := filter P ms\<rparr>) = database_verdict ck (db\<lparr>td_revocations := ms\<rparr>)"
proof -
  have "filter (\<lambda>m. mk_identityId m = i \<and> mk_expiresAt m > td_now db) (filter P ms) =
      filter (\<lambda>m. mk_identityId m = i \<and> mk_expiresAt m > td_now db) ms" for i
    unfolding filter_filter using assms by (intro filter_cong) force+
  moreover have "membership_deny ck (db\<lparr>td_revocations := xs\<rparr>) = membership_deny ck db" for xs
    by (simp add: membership_deny_def)
  ultimately show ?thesis by (simp add: database_verdict_def findActiveRevocationsForToken_def Let_def del: filter_filter cong: option.case_cong)
qed

text \<open>
  C14: Pruning the revocation records ends, whatever the database refuses. It changes the answer to no check made
  later; the number it reports is the number of records that are gone; and unless three attempts in a row failed,
  no record is left that had expired at the time of one of its attempts.
\<close>

theorem pruning_changes_no_answer:
  assumes "removeExpiredRevocations fails clock db = (n, db')" "distinct (map mk_id (td_revocations db))" "\<And>i. clock i \<le> t"
  shows "database_verdict ck (db'\<lparr>td_now := t\<rparr>) = database_verdict ck (db\<lparr>td_now := t\<rparr>) \<and>
    n + length (td_revocations db') = length (td_revocations db) \<and>
    ((\<exists>j. \<not> fails j \<and> (\<forall>m \<in> set (td_revocations db'). clock j \<le> mk_expiresAt m)) \<or>
     (\<exists>j. fails j \<and> fails (j + 1) \<and> fails (j + 2)))"
proof -
  obtain rows where p: "prune_revocations fails clock 0 (td_revocations db) 0 0 = (rows, n)" and db': "db' = db\<lparr>td_revocations := rows\<rparr>"
    using assms(1) by (auto simp: removeExpiredRevocations_def split: prod.splits)
  obtain P where rows: "rows = filter P (td_revocations db)" using prune_revocations_result(1) [OF p] by blast
  have "mk_expiresAt m \<le> t" if m: "m \<in> set (td_revocations db)" "\<not> P m" for m
  proof -
    obtain j where "mk_expiresAt m < clock j"
      using prune_revocations_result(3) [OF p assms(2) m(1)] m(2) rows by auto
    then show ?thesis using assms(3) [of j] by simp
  qed
  then have "database_verdict ck (db\<lparr>td_now := t\<rparr>\<lparr>td_revocations := rows\<rparr>) =
      database_verdict ck (db\<lparr>td_now := t\<rparr>\<lparr>td_revocations := td_revocations db\<rparr>)"
    unfolding rows by (intro pruned_same_answer) simp
  moreover have "db'\<lparr>td_now := t\<rparr> = db\<lparr>td_now := t\<rparr>\<lparr>td_revocations := rows\<rparr>"
    "db\<lparr>td_now := t\<rparr>\<lparr>td_revocations := td_revocations db\<rparr> = db\<lparr>td_now := t\<rparr>"
    by (simp_all add: db')
  ultimately have "database_verdict ck (db'\<lparr>td_now := t\<rparr>) = database_verdict ck (db\<lparr>td_now := t\<rparr>)" by (simp only:)
  then show ?thesis
    using prune_revocations_result(2) [OF p] prune_revocations_end [OF p] by (simp add: db' MAX_RETRY_ON_FAILURE_def)
qed

section \<open>Stored tokens and client secrets\<close>

text \<open>This loop keeps the identifiers of the last batch that worked when an attempt fails.\<close>

partial_function (option) prune_rows ::
  "(nat \<Rightarrow> bool) \<Rightarrow> nat \<Rightarrow> ('r \<Rightarrow> string) \<Rightarrow> (nat \<Rightarrow> 'r \<Rightarrow> bool) \<Rightarrow> nat \<Rightarrow> 'r list \<Rightarrow> string list \<Rightarrow> nat \<Rightarrow> 'r list option" where
  "prune_rows fails batch key expired i rows deleted numberOfRetryOnFailure =
     (case (if fails i then ((deleted, rows), numberOfRetryOnFailure + 1)
            else (delete_batch batch key (expired i) rows, 0)) of
        ((deleted', rows'), retries) \<Rightarrow>
          if deleted' \<noteq> [] \<or> (retries > 0 \<and> retries < MAX_RETRY_ON_FAILURE)
          then prune_rows fails batch key expired (i + 1) rows' deleted' retries
          else Some rows')"

record stored_token = token_row +
  st_accessTokenNumUses :: int
  st_accessTokenLastRenewedAt :: "int option"

definition TOKEN_MAX_TTL :: int where
  "TOKEN_MAX_TTL = 315360000"

definition expired_token :: "int \<Rightarrow> stored_token \<Rightarrow> bool" where
  "expired_token now r \<longleftrightarrow> tr_isAccessTokenRevoked r \<or>
     (tr_accessTokenNumUsesLimit r > 0 \<and> st_accessTokenNumUses r \<ge> tr_accessTokenNumUsesLimit r) \<or>
     (tr_accessTokenTTL r > 0 \<and>
      (case st_accessTokenLastRenewedAt r of Some t \<Rightarrow> t | None \<Rightarrow> tr_createdAt r) + min (tr_accessTokenTTL r) TOKEN_MAX_TTL * 1000 < now)"

text \<open>The time is read once, before the loop.\<close>

definition removeExpiredTokens :: "(nat \<Rightarrow> bool) \<Rightarrow> int \<Rightarrow> stored_token list \<Rightarrow> stored_token list option" where
  "removeExpiredTokens fails now rows = prune_rows fails 5000 tr_id (\<lambda>_. expired_token now) 0 rows [] 0"

record client_secret_row =
  cs_id :: string
  cs_createdAt :: int
  cs_isClientSecretRevoked :: bool
  cs_clientSecretNumUses :: int
  cs_clientSecretNumUsesLimit :: int
  cs_clientSecretTTL :: int

definition MAX_UA_CLIENT_SECRET_TTL_SECONDS :: int where
  "MAX_UA_CLIENT_SECRET_TTL_SECONDS = 315360000"

definition expired_client_secret :: "int \<Rightarrow> client_secret_row \<Rightarrow> bool" where
  "expired_client_secret now r \<longleftrightarrow> cs_isClientSecretRevoked r \<or>
     (cs_clientSecretNumUsesLimit r > 0 \<and> cs_clientSecretNumUses r \<ge> cs_clientSecretNumUsesLimit r) \<or>
     (cs_clientSecretTTL r > 0 \<and> cs_createdAt r + min (cs_clientSecretTTL r) MAX_UA_CLIENT_SECRET_TTL_SECONDS * 1000 < now)"

definition removeExpiredClientSecrets :: "(nat \<Rightarrow> bool) \<Rightarrow> (nat \<Rightarrow> int) \<Rightarrow> client_secret_row list \<Rightarrow> client_secret_row list option" where
  "removeExpiredClientSecrets fails clock rows = prune_rows fails 10000 cs_id (\<lambda>i. expired_client_secret (clock i)) 0 rows [] 0"

text \<open>Once a batch worked, a database that refuses everything keeps the loop going for ever.\<close>

lemma prune_rows_stuck:
  assumes ret: "prune_rows fails batch key expired i rows deleted n = Some rows'" and some: "deleted \<noteq> []"
  shows "\<exists>j \<ge> i. \<not> fails j"
proof -
  have "deleted \<noteq> [] \<longrightarrow> (\<exists>j \<ge> i. \<not> fails j)"
  proof (rule prune_rows.raw_induct [where P = "\<lambda>fails batch key expired i rows deleted n r. deleted \<noteq> [] \<longrightarrow> (\<exists>j \<ge> i. \<not> fails j)", OF _ ret])
    fix f :: "(nat \<Rightarrow> bool) \<Rightarrow> nat \<Rightarrow> ('a \<Rightarrow> string) \<Rightarrow> (nat \<Rightarrow> 'a \<Rightarrow> bool) \<Rightarrow> nat \<Rightarrow> 'a list \<Rightarrow> string list \<Rightarrow> nat \<Rightarrow> 'a list option"
    fix fails batch key expired i rows deleted n r
    assume IH: "\<And>fails batch key expired i rows deleted n r.
        f fails batch key expired i rows deleted n = Some r \<Longrightarrow> deleted \<noteq> [] \<longrightarrow> (\<exists>j \<ge> i. \<not> fails j)"
      and eq: "(case (if fails i then ((deleted, rows), n + 1) else (delete_batch batch key (expired i) rows, 0)) of
          ((deleted', rows'), retries) \<Rightarrow>
            if deleted' \<noteq> [] \<or> (retries > 0 \<and> retries < MAX_RETRY_ON_FAILURE)
            then f fails batch key expired (i + 1) rows' deleted' retries else Some rows') = Some r"
    show "deleted \<noteq> [] \<longrightarrow> (\<exists>j \<ge> i. \<not> fails j)"
    proof (cases "fails i")
      case True
      then have "deleted \<noteq> [] \<longrightarrow> f fails batch key expired (i + 1) rows deleted (n + 1) = Some r"
        using eq by (cases "deleted = []") simp_all
      then show ?thesis using IH by (meson add_leD1)
    qed blast
  qed
  then show ?thesis using some by blast
qed

text \<open>A database that works again and again lets it end.\<close>

lemma prune_rows_returns:
  assumes again: "\<And>i. \<exists>j \<ge> i. \<not> fails j"
  shows "\<exists>rows'. prune_rows fails batch key expired i rows deleted n = Some rows'"
proof (induction "length rows" arbitrary: i rows deleted n rule: less_induct)
  case less
  have success: "\<exists>r. prune_rows fails batch key expired i rows deleted n = Some r" if i: "\<not> fails i" for i deleted n
  proof -
    obtain deleted' rows' where b: "delete_batch batch key (expired i) rows = (deleted', rows')" by fastforce
    show ?thesis
    proof (cases "deleted' = []")
      case True
      then have "prune_rows fails batch key expired i rows deleted n = Some rows'"
        using i b by (subst prune_rows.simps) simp
      then show ?thesis by blast
    next
      case False
      then have "prune_rows fails batch key expired i rows deleted n = prune_rows fails batch key expired (i + 1) rows' deleted' 0"
        using i b by (subst prune_rows.simps) simp
      then show ?thesis using less [OF delete_batch_shrinks [OF b False]] by metis
    qed
  qed
  obtain j where "i \<le> j" "\<not> fails j" using again by blast
  then show ?case
  proof (induction "j - i" arbitrary: i deleted n)
    case 0
    then show ?case using success by simp
  next
    case (Suc k)
    show ?case
    proof (cases "fails i")
      case True
      then have "i < j" using Suc.prems by (metis le_neq_implies_less)
      then have "\<exists>r. prune_rows fails batch key expired (i + 1) rows deleted (n + 1) = Some r"
        using Suc.hyps Suc.prems by (intro Suc.hyps(1)) auto
      then show ?thesis using True by (subst prune_rows.simps) simp
    qed (rule success)
  qed
qed

lemma delete_batch_some:
  assumes "filter expired rows \<noteq> []" "0 < batch"
  shows "fst (delete_batch batch key expired rows) \<noteq> []"
  using assms delete_batch_empty [of batch key expired rows] by (metis prod.collapse)

lemma prune_rows_for_ever:
  assumes "filter (expired 0) rows \<noteq> []" "0 < batch" "\<not> fails 0" "\<And>j. 0 < j \<Longrightarrow> fails j"
  shows "prune_rows fails batch key expired 0 rows [] 0 = None"
proof (rule ccontr)
  obtain deleted rows' where b: "delete_batch batch key (expired 0) rows = (deleted, rows')" by fastforce
  have some: "deleted \<noteq> []" using delete_batch_some [OF assms(1,2), of key] b by simp
  assume "prune_rows fails batch key expired 0 rows [] 0 \<noteq> None"
  then obtain r where "prune_rows fails batch key expired 1 rows' deleted 0 = Some r"
    using b some assms(3) by (auto simp: prune_rows.simps [of fails batch key expired 0])
  then obtain j where "1 \<le> j" "\<not> fails j" using prune_rows_stuck some by blast
  then show False using assms(4) by simp
qed

text \<open>
  C28: A job that deletes stored tokens or client secrets never ends when its first batch deletes something and the
  database refuses all others: an attempt that fails keeps the identifiers of the last batch, so the limit of
  three failures is not looked at.
\<close>

theorem pruning_goes_on_for_ever:
  assumes "\<not> fails 0" "\<And>j. 0 < j \<Longrightarrow> fails j"
    and "\<exists>r \<in> set tokens. expired_token now r" "\<exists>r \<in> set secrets. expired_client_secret (clock 0) r"
  shows "removeExpiredTokens fails now tokens = None \<and> removeExpiredClientSecrets fails clock secrets = None"
  using assms unfolding removeExpiredTokens_def removeExpiredClientSecrets_def
  by (intro conjI prune_rows_for_ever) (auto simp: filter_empty_conv)

section \<open>Samples\<close>

text \<open>Three records, one of them alive; the database refuses the second attempt.\<close>

definition sample_records :: "revocation list" where
  "sample_records = map (\<lambda>(i, e). \<lparr>mk_id = i, mk_identityId = ''bot'', mk_scope = None, mk_revokedAt = None, mk_createdAt = 0,
     mk_expiresAt = e\<rparr>) [(''a'', 5), (''b'', 50), (''c'', 6)]"

definition sample_pruned_db :: token_db where
  "sample_pruned_db = \<lparr>td_now = 10, td_signed = [], td_identities = [], td_orgs = [], td_rows = [], td_revocations = sample_records,
     td_members = (\<lambda>_ _. Some True), td_trusted = (\<lambda>_ _. None), td_uses = (\<lambda>_. None), td_versions = (\<lambda>_. None),
     td_verdicts = (\<lambda>_. None), td_ipcache = (\<lambda>_. None)\<rparr>"

definition sample_own_check :: token_check where
  "sample_own_check = \<lparr>ck_tokenId = ''b'', ck_identityId = ''bot'', ck_issuedAtMs = 1, ck_clientSecretId = None,
     ck_authMethod = None, ck_orgId = None\<rparr>"

lemma sample_batch:
  "delete_batch REVOCATION_PRUNE_BATCH_SIZE mk_id (\<lambda>m. mk_expiresAt m < 9) sample_records =
     ([''a'', ''c''], filter (\<lambda>m. mk_id m = ''b'') sample_records)"
  "delete_batch REVOCATION_PRUNE_BATCH_SIZE mk_id (\<lambda>m. mk_expiresAt m < 9) (filter (\<lambda>m. mk_id m = ''b'') sample_records) =
     ([], filter (\<lambda>m. mk_id m = ''b'') sample_records)"
  by (simp_all add: delete_batch_def sample_records_def REVOCATION_PRUNE_BATCH_SIZE_def Let_def)

lemma sample_pruning:
  "removeExpiredRevocations (\<lambda>i. i = 1) (\<lambda>_. 9) sample_pruned_db =
     (2, sample_pruned_db\<lparr>td_revocations := filter (\<lambda>m. mk_id m = ''b'') sample_records\<rparr>)"
  by (simp add: removeExpiredRevocations_def sample_pruned_db_def prune_revocations.simps prune_attempt_def sample_batch
      MAX_RETRY_ON_FAILURE_def)

theorem pruning_changes_no_answer_witness:
  "database_verdict sample_own_check (snd (removeExpiredRevocations (\<lambda>i. i = 1) (\<lambda>_. 9) sample_pruned_db)\<lparr>td_now := 20\<rparr>) =
     database_verdict sample_own_check (sample_pruned_db\<lparr>td_now := 20\<rparr>) \<and>
   database_verdict sample_own_check (sample_pruned_db\<lparr>td_now := 20\<rparr>) = Some DenyToken"
proof
  have "distinct (map mk_id (td_revocations sample_pruned_db))" by code_simp
  then show "database_verdict sample_own_check (snd (removeExpiredRevocations (\<lambda>i. i = 1) (\<lambda>_. 9) sample_pruned_db)\<lparr>td_now := 20\<rparr>) =
     database_verdict sample_own_check (sample_pruned_db\<lparr>td_now := 20\<rparr>)"
    unfolding sample_pruning snd_conv
    by (intro pruning_changes_no_answer [OF sample_pruning, THEN conjunct1]) simp_all
  show "database_verdict sample_own_check (sample_pruned_db\<lparr>td_now := 20\<rparr>) = Some DenyToken" by code_simp
qed

definition sample_old_token :: stored_token where
  "sample_old_token = \<lparr>tr_id = ''old'', tr_identityId = ''bot'', tr_isAccessTokenRevoked = False, tr_accessTokenTTL = 100,
     tr_accessTokenMaxTTL = 0, tr_accessTokenPeriod = 0, tr_accessTokenNumUsesLimit = 0, tr_authMethod = ''token-auth'',
     tr_subOrganizationId = None, tr_createdAt = 0, st_accessTokenNumUses = 0, st_accessTokenLastRenewedAt = Some 1000\<rparr>"

definition sample_old_secret :: client_secret_row where
  "sample_old_secret = \<lparr>cs_id = ''secret'', cs_createdAt = 0, cs_isClientSecretRevoked = False, cs_clientSecretNumUses = 2,
     cs_clientSecretNumUsesLimit = 2, cs_clientSecretTTL = 0\<rparr>"

theorem pruning_goes_on_for_ever_witness:
  "removeExpiredTokens (\<lambda>i. 0 < i) 101001 [sample_old_token] = None \<and>
   removeExpiredClientSecrets (\<lambda>i. 0 < i) (\<lambda>_. 0) [sample_old_secret] = None"
  by (rule pruning_goes_on_for_ever)
    (simp_all add: sample_old_token_def sample_old_secret_def expired_token_def expired_client_secret_def TOKEN_MAX_TTL_def)

end
