(* ===== verification/Spec2Isabelle.thy ===== *)
theory Spec2Isabelle
  imports FolderAccess ReferenceExpansion ImportedSecrets Dotenv ApprovalRaces PolicyAdministration CertificatePolicyStore TokenRaces TokenPruning
begin

text \<open>
  Sanctum is a platform for secrets: projects hold environments, environments hold folders, folders
  hold encrypted secrets, and users, machine identities and service tokens reach them under roles and
  shares. This development models the part of the backend (\<open>backend/src\<close>, TypeScript) that decides
  who may do what, the part that computes the value of a secret out of other secrets, the approval of
  requests for access, certificates and signatures, the policies that certificates are issued under, and
  the life of the access tokens that machine identities come with.

  \<^bold>\<open>The parts and how they interact.\<close> A request first builds the rules of its actor from the roles, the
  privileges and the shared folders (\<open>ee/services/permission\<close>); the permission library turns them into
  an ability; the handlers ask the ability. Granting a role is allowed only within the rights of the
  one who grants it, which compares two rule lists (\<open>lib/casl/boundary.ts\<close>), down to the containment of
  glob patterns (\<open>lib/casl/glob-subset.ts\<close>). Sharing a folder (\<open>services/folder-permission\<close>) writes rows
  from which the rules are built the next time. Reading secrets expands the references in their values
  (\<open>services/secret-v2-bridge/secret-reference-fns.ts\<close>) and adds the secrets of imported folders
  (\<open>services/secret-import/secret-import-fns.ts\<close>); both ask the ability for every secret they touch.
  Where a policy asks for approval (\<open>services/approval-policy\<close>), a request is created with the steps of
  the policy that governs it, the approvers of each step approve in turn, and the last approval creates
  a grant, which later accesses look for. Certificates are requested under a profile whose policy
  (\<open>services/certificate-policy\<close>) says which names, usages, algorithms and durations they may have; a
  request is completed with the defaults of the profile, held against the policy, and what was accepted
  becomes the content of the certificate (\<open>services/certificate-common\<close>, \<open>services/certificate-v3\<close>).
  A machine identity shows a signed token with every request (\<open>services/identity-access-token\<close>): it is checked
  against records of revocation and the membership of its organization, through a cache whose answers carry a
  version that every revocation bumps, its uses are counted in the key store (\<open>keystore\<close>), and the address of
  the request is held against a list (\<open>lib/ip\<close>). Tokens are renewed within a budget, and revoked one by one, by client
  secret, by login method, by organization or for the whole identity; jobs delete the rows that have expired.

  \<^bold>\<open>The theories.\<close>
  \<^item> Prelude: results with errors (\<open>Inl\<close> an exception, \<open>Inr\<close> a value), strings, truthiness, ordered sets.
  \<^item> GlobSubset: the token lists of \<open>glob-subset.ts\<close>, containment and disjointness of patterns, and
    their soundness for a matcher that reads tokens as documented, for plain patterns that begin at the root.
    A bar, a double quote and a backslash are literals for the code and not for the matcher; patterns with them
    are not plain.
  \<^item> PermissionBoundary: rules, conditions and operators, the boundary check and what it reports. The
    check is sound and, on the conditions it understands, complete; its reports are genuine.
  \<^item> PermissionEnums, DefaultRoles, FolderRoles: the vocabulary of \<open>project-permission.ts\<close> and
    \<open>resource-permission.ts\<close>, the tables of \<open>default-roles.ts\<close> and \<open>folder-roles.ts\<close>, and how the built-in
    roles and the roles of shares compare.
  \<^item> PermissionRules: the rules of an actor (\<open>permission-fns.ts\<close>, \<open>permission-service.ts\<close>), what they
    decide, expiry, service tokens.
  \<^item> PermissionChecks: the checks of \<open>permission-fns.ts\<close> that handlers call.
  \<^item> FolderGrants: the table of shares as a state, its operations as functions on that state, the
    interface of a keyed table as a locale interpreted by the table, and the states the service reaches
    as an inductive predicate, with lookups that are older than the writes. The invariant is proved by rule
    induction; that full access is permanent needs that no update overlaps another.
  \<^item> FolderAccess: who of a project reaches a folder, and the listings.
  \<^item> SecretReference, ReferenceExpansion: references in values, the cached reads and the walk that
    expands them, with the trace of references as a tree. The expansion is proved to end, to depend on
    readable secrets only, and not to depend on its cache, by one relation between two runs. An error carries
    the cache as it was when it was thrown.
  \<^item> SecretImport, ImportedSecrets: the walk over imports, with the arrays that the code shares between
    work items as cells of a store. A secret from another project is in a folder that the table of grants names.
  \<^item> Dotenv: writing and reading environment files (\<open>lib/dotenv\<close>), and when one undoes the other.
  \<^item> ApprovalTypes: the enumerations and tables of \<open>services/approval-policy\<close> as one state, and the
    functions of \<open>approval-policy-dal.ts\<close> and \<open>approval-request-dal.ts\<close> on it.
  \<^item> PolicyFactories: the three kinds of policy (\<open>pam-access\<close>, \<open>cert-request\<close>, \<open>code-signing\<close>): which policy
    governs a request, which grant admits an access, constraints, and what an approval brings.
  \<^item> ApprovalRequests, ApprovalPolicies: the operations of \<open>approval-policy-service.ts\<close> (with
    \<open>approval-request-fns.ts\<close>) as functions from the tables to a result and the tables: the life of a
    request and of its grants, and the administration of policies. A transaction that throws writes
    nothing; a write before an error outside a transaction stays.
  \<^item> ApprovalClients: the services that open and settle requests outside that file: a request for a
    certificate, and signing (\<open>services/signer/signer-policy-service.ts\<close>), which asks, approves in advance and revokes.
  \<^item> ApprovalInvariant, ApprovalRuns: what holds of every request (its steps are numbered and completed in
    order, approvals are by different users, a grant was earned by its request or made in advance by a signer's
    policy), that the operations keep
    it, with the routine that follows an approval as a locale interpreted by the three kinds, and the
    states a service reaches as the runs of an inductive step relation.
  \<^item> ApprovalProperties: grants are earned, statuses only advance but for a revocation, an approval refines one step of a
    counter, errors write nothing, types agree, and requests with enough approvers can be approved.
  \<^item> ApprovalRaces: calls that overlap, as the check on one state and the write on a later one.
  \<^item> PolicyAdministration: the foreign keys of the tables of policies are kept, so policies read back as
    they were written; only policies of privileged access can be bypassed; what removing an approver does.
  \<^item> CertificatePolicies: the policies of certificates and \<open>validateRequestAgainstPolicy\<close>, part by part, with
    the patterns of \<open>certificate-policy-fns.ts\<close>. CertificateChecks: patterns are segments with gaps, the whole
    check is what the policy admits, and leaving out required values changes nothing else.
  \<^item> CertificateIssue, CertificateLifetime: names of usages, defaults of profiles, the names and dates of a
    certificate and its renewal; which accepted names are issued, and how long certificates live compared
    with the maximum of their policy.
  \<^item> CertificatePolicyStore: the operations on stored policies as functions on their tables, what they keep
    in every reachable state, with the profiles that name them, and what is read after a policy was created or renamed.
  \<^item> TokenClaims: the claims of a token, lifetimes and records of revocation (\<open>identity-access-token-fns.ts\<close>).
    TrustedIps: lists of addresses (\<open>lib/ip/index.ts\<close>).
  \<^item> TokenState: the tables and the keys of the key store as one state, and the check for revocation in its
    stages. TokenCache: any interleaving of these stages with revocations and bumps, and why a check that lets a
    token pass is right. TokenService: the operations of \<open>identity-access-token-service.ts\<close>.
  \<^item> TokenRuns: the states the service reaches as runs of an inductive step relation and the invariant of
    signed tokens, counters and records; TokenSamples: a run by evaluation. TokenProperties: revoked tokens stay
    refused, uses stay within their limit (once more for each time the key store lost the counter), renewals within their budget. TokenRaces: where a renewal that
    overlaps a revocation or a use escapes it.
  \<^item> TokenPruning: the jobs that delete expired rows; one always ends and changes no answer, two may never end.

  \<^bold>\<open>How the model follows the code.\<close> A definition has the name of the function or type it models; what
  the code does inline has a name of its own. Optional fields are options, exceptions are values, an
  operation that changes state returns the new state. Enumerations are datatypes with a function to
  their strings. Loops over lists are recursion on the list; the loops over an explicit stack
  (\<open>expand_loop\<close>, \<open>import_loop\<close>) are recursive functions whose termination is proved by the multiset of
  the distances of the stack from the bound on depth (\<open>MAX_SECRET_REFERENCE_DEPTH\<close>, \<open>LEVEL_BREAK\<close>, both
  10), so no fuel is used anywhere. The loop of \<open>removeExpiredRevocations\<close> ends by the number of its rows and of
  the retries left; that of \<open>removeExpiredTokens\<close> need not end and is a partial function, whose value \<open>None\<close> is
  not returning. Numbers are identifiers, times in milliseconds and positions, and
  stay far below the precision of the language, so they are unbounded.

  \<^bold>\<open>Parameters.\<close> The permission library (the ability of a rule list), the glob matcher, the database
  reads, decryption and the key service, the licence plan, the query that finds members, the parser of durations,
  the library of slugs, the redaction of commands and the issue of certificates are
  arguments, mostly fields of a record of dependencies per component. What is assumed of them is a
  hypothesis of the theorem that needs it and documented behaviour: the last matching rule decides
  (\<open>last_match_wins\<close>), ids of projects are not paths (\<open>projects_ok\<close>), ids of environments have one length
  (\<open>ids_ok\<close> of ImportedSecrets), the unique indexes of the table of shares (\<open>violates\<close>). For tokens, the library
  that signs is the set of the tokens it signed, Node's \<open>net\<close> is the record \<open>ip_library\<close>, identifiers made at random
  are new (\<open>fresh\<close>), and which calls to the key store fail is the record \<open>luck\<close>. The runs of TokenRuns start without
  tokens, so old tokens are only in TokenRaces, and their bumps work (\<open>bump_ok\<close>); one that fails is in TokenRaces.
  The key store may lose cached verdicts and counters of uses in these runs, but not the version of an identity. The
  clock is read once where the code reads it twice in a row to compute and to sign a lifetime, and a check reads version and
  verdict of the cache in one step.

  \<^bold>\<open>What modelling showed.\<close> Besides the theorems that hold, some show where the code falls short of its
  comments: racing updates of a share, references captured by their neighbours, imports lost at the
  third level, in the older walk over imports secrets attached to the wrong import, paths that an
  environment file does not preserve, durations of certificates that two places read in different units,
  names that are accepted and then refused, a policy that loses its slug, renewals that outlive a
  revocation or forget a use, jobs that never end when the database refuses them, approvals that overlap and leave a request without a way on, count
  one user twice or override a cancellation, names in requests that are used as patterns later, and
  approvers that were removed and can still approve what is open.

  \<^bold>\<open>Not modelled.\<close> The database layer and its SQL, the other caches in the key store and their fingerprints,
  sessions of users and the logins by which identities get their first token, encryption and key management, the HTTP routes and their schemas, the
  services that only write and read rows, and the parts of the product beside secrets (the issue of
  certificates, sessions of privileged access, scanning, rotations and syncs to other vendors), which
  mostly call external systems; emails, and the two older approval workflows of \<open>ee/services\<close>; the frontend, the command line and the build. In the modelled files, display fields that are
  copied unchanged, messages of errors and logging are left out. Other writers of modelled tables that are left out:
  requests for privileged access (\<open>pam-access-request\<close>), the writes of a signer's own policy, and the deletion of
  signers and applications, with what belongs to them, and rows of additional privileges without a folder. Concurrent calls are modelled for
  shares, for approvals and for tokens. The replica that most reads go to is taken to be
  up to date, and an update of a row that gives no column to succeed.

  \<^bold>\<open>What the plan has left.\<close> The approval of changes to secrets and of temporary access in
  \<open>ee/services\<close>, requests for privileged access (\<open>pam-access-request\<close>), lockout of identities, and the merge of
  imported with own secrets in \<open>secret-v2-bridge-fns.ts\<close>.
\<close>

end
